(* ===== verification/MaasPrelude.thy ===== *)
theory MaasPrelude
  imports Main "HOL-Library.Char_ord" "HOL-Library.List_Lexorder" "HOL-Library.Multiset"
begin

text \<open>
  Shared ground of the development: the pieces of the Go language and of its standard
  library that the modelled packages use. Strings are byte lists and compare
  byte-wise, as Go's do; \<open>strings.Cut\<close>, \<open>strings.TrimSpace\<close>, \<open>strings.HasPrefix\<close>,
  \<open>strings.ToLower\<close> and \<open>strings.Fields\<close> are the functions of those names; a result
  \<open>(T, error)\<close> is a sum with the error on the left; \<open>sort.SliceStable\<close> is a stable
  insertion sort by the source's own \<open>less\<close> function. The interface of such a
  comparison function is the locale \<open>go_less\<close>, whose lemmas say what a sort by it gives.
\<close>

named_theorems go_strings "facts on the string functions"
named_theorems res_inv "inversion of successful results"
named_theorems go_sort "facts on sorting by a comparison function"

subsection \<open>Results and loops\<close>

definition bind_res :: "'e + 'a \<Rightarrow> ('a \<Rightarrow> 'e + 'b) \<Rightarrow> 'e + 'b" where
  "bind_res r f = (case r of Inl e \<Rightarrow> Inl e | Inr x \<Rightarrow> f x)"

lemma bind_res_simps [simp]:
  "bind_res (Inl e) f = Inl e"
  "bind_res (Inr x) f = f x"
  by (simp_all add: bind_res_def)

lemma bind_res_eq_Inr_iff: "bind_res r f = Inr y \<longleftrightarrow> (\<exists>x. r = Inr x \<and> f x = Inr y)"
  by (cases r) auto

lemma bind_res_eq_Inl_iff:
  "bind_res r f = Inl e \<longleftrightarrow> r = Inl e \<or> (\<exists>x. r = Inr x \<and> f x = Inl e)"
  by (cases r) auto

lemma map_error_Inr_iff [simp]:
  "(case r of Inl e \<Rightarrow> Inl (f e) | Inr x \<Rightarrow> Inr x) = Inr y \<longleftrightarrow> r = Inr y"
  by (cases r) auto

text \<open>
  Inversion of a successful result through the shapes of early return that the code has:
  an error of a callee, a missing value, a failed guard.
\<close>

lemma case_res_Inr_iff [res_inv]:
  "(case r of Inl e \<Rightarrow> Inl (f e) | Inr x \<Rightarrow> h x) = Inr y \<longleftrightarrow> (\<exists>x. r = Inr x \<and> h x = Inr y)"
  by (cases r) auto

lemma case_option_Inr_iff [res_inv]:
  "(case r of None \<Rightarrow> Inl e | Some x \<Rightarrow> h x) = Inr y \<longleftrightarrow> (\<exists>x. r = Some x \<and> h x = Inr y)"
  by (cases r) auto

lemma case_nested_Inr_iff [res_inv]:
  "(case r of (a, b, c) \<Rightarrow> h a b c) = Inr y \<longleftrightarrow> (\<exists>a b c. r = (a, b, c) \<and> h a b c = Inr y)"
  by (cases r) auto

lemma guard_Inr_iff [res_inv]: "(if c then Inl e else x) = Inr y \<longleftrightarrow> \<not> c \<and> x = Inr y"
  by auto

declare bind_res_eq_Inr_iff [res_inv]

text \<open>A loop that appends the result of each iteration and returns at the first error.\<close>

fun traverse :: "('a \<Rightarrow> 'e + 'b) \<Rightarrow> 'a list \<Rightarrow> 'e + 'b list" where
  "traverse f [] = Inr []"
| "traverse f (x # xs) =
     (case f x of Inl e \<Rightarrow> Inl e
      | Inr y \<Rightarrow> (case traverse f xs of Inl e \<Rightarrow> Inl e | Inr ys \<Rightarrow> Inr (y # ys)))"

lemma traverse_Inr_iff: "traverse f xs = Inr ys \<longleftrightarrow> list_all2 (\<lambda>x y. f x = Inr y) xs ys"
proof (induction xs arbitrary: ys)
  case (Cons x xs)
  show ?case
    by (cases ys) (simp_all add: Cons.IH [symmetric] split: sum.splits)
qed auto

lemma traverse_map_Inr_iff:
  assumes "\<And>x y. f x = Inr y \<longleftrightarrow> P x \<and> y = g x"
  shows "traverse f xs = Inr ys \<longleftrightarrow> (\<forall>x\<in>set xs. P x) \<and> ys = map g xs"
proof (induction xs arbitrary: ys)
  case (Cons x xs)
  show ?case
  proof (cases "P x")
    case True
    with assms [of x "g x"] have "f x = Inr (g x)" by simp
    then show ?thesis using True Cons.IH by (cases "traverse f xs") auto
  next
    case False
    with assms [of x] have "f x \<noteq> Inr y" for y by simp
    then show ?thesis using False by (auto split: sum.splits)
  qed
qed auto

text \<open>A loop that threads a state and returns at the first error.\<close>

fun fold_res :: "('a \<Rightarrow> 's \<Rightarrow> 'e + 's) \<Rightarrow> 'a list \<Rightarrow> 's \<Rightarrow> 'e + 's" where
  "fold_res f [] s = Inr s"
| "fold_res f (x # xs) s = (case f x s of Inl e \<Rightarrow> Inl e | Inr s' \<Rightarrow> fold_res f xs s')"

lemma fold_res_append:
  "fold_res f (xs @ ys) s = bind_res (fold_res f xs s) (fold_res f ys)"
  by (induction xs arbitrary: s) (auto split: sum.splits)

lemma fold_res_concat_map:
  "fold_res (\<lambda>x. fold_res f (g x)) xs s = fold_res f (concat (map g xs)) s"
  by (induction xs arbitrary: s) (auto simp: fold_res_append bind_res_def split: sum.splits)

text \<open>The first element that satisfies a test, as a Go loop with an early return finds it.\<close>

lemma find_SomeD: "find P xs = Some x \<Longrightarrow> x \<in> set xs \<and> P x"
  by (induction xs) (auto split: if_splits)

lemma find_None_iff_all: "find P xs = None \<longleftrightarrow> (\<forall>x\<in>set xs. \<not> P x)"
  by (induction xs) auto

lemma find_filter: "find P (filter Q xs) = find (\<lambda>x. Q x \<and> P x) xs"
  by (induction xs) auto

lemma find_eq_iff_unique:
  assumes "x \<in> set xs" and "P x" and "\<And>y. y \<in> set xs \<Longrightarrow> P y \<Longrightarrow> y = x"
  shows "find P xs = Some x"
proof -
  have "find P xs \<noteq> None" using assms(1,2) by (auto simp: find_None_iff_all)
  then obtain y where "find P xs = Some y" by blast
  with assms(3) show ?thesis by (auto dest: find_SomeD)
qed

text \<open>Members of two lists related position by position.\<close>

lemma list_all2_in_left: "list_all2 P xs ys \<Longrightarrow> x \<in> set xs \<Longrightarrow> \<exists>y\<in>set ys. P x y"
  by (induction rule: list_all2_induct) auto

lemma list_all2_in_right: "list_all2 P xs ys \<Longrightarrow> y \<in> set ys \<Longrightarrow> \<exists>x\<in>set xs. P x y"
  by (induction rule: list_all2_induct) auto

subsection \<open>Strings\<close>

definition HasPrefix :: "string \<Rightarrow> string \<Rightarrow> bool" where
  "HasPrefix s p \<longleftrightarrow> take (length p) s = p"

lemma HasPrefix_append [simp, go_strings]: "HasPrefix (p @ s) p"
  by (simp add: HasPrefix_def)

lemma HasPrefix_iff [go_strings]: "HasPrefix s p \<longleftrightarrow> (\<exists>t. s = p @ t)"
proof
  assume "HasPrefix s p"
  then have "s = p @ drop (length p) s"
    by (metis HasPrefix_def append_take_drop_id)
  then show "\<exists>t. s = p @ t" ..
qed auto

text \<open>\<open>strings.Cut\<close> at a one-byte separator: \<open>None\<close> when it is absent.\<close>

fun Cut :: "char \<Rightarrow> string \<Rightarrow> (string \<times> string) option" where
  "Cut c [] = None"
| "Cut c (x # xs) =
     (if x = c then Some ([], xs)
      else (case Cut c xs of None \<Rightarrow> None | Some (a, b) \<Rightarrow> Some (x # a, b)))"

lemma Cut_None_iff [go_strings]: "Cut c s = None \<longleftrightarrow> c \<notin> set s"
  by (induction s) (auto split: option.splits)

lemma Cut_Some_iff [go_strings]: "Cut c s = Some (a, b) \<longleftrightarrow> s = a @ c # b \<and> c \<notin> set a"
proof (induction s arbitrary: a)
  case Nil
  then show ?case by simp
next
  case (Cons x xs)
  show ?case
  proof (cases "x = c")
    case True
    then show ?thesis by (cases a) auto
  next
    case False
    have "Cut c (x # xs) = Some (a, b) \<longleftrightarrow> (\<exists>a'. a = x # a' \<and> Cut c xs = Some (a', b))"
      using False by (auto split: option.splits)
    also have "\<dots> \<longleftrightarrow> (\<exists>a'. a = x # a' \<and> xs = a' @ c # b \<and> c \<notin> set a')"
      by (simp add: Cons.IH)
    also have "\<dots> \<longleftrightarrow> x # xs = a @ c # b \<and> c \<notin> set a"
      using False by (cases a) auto
    finally show ?thesis .
  qed
qed

lemma Cut_append [simp]: "c \<notin> set a \<Longrightarrow> Cut c (a @ c # b) = Some (a, b)"
  by (simp add: Cut_Some_iff)

text \<open>\<open>strings.SplitN(s, sep, 2)\<close>.\<close>

definition SplitN2 :: "char \<Rightarrow> string \<Rightarrow> string list" where
  "SplitN2 c s = (case Cut c s of None \<Rightarrow> [s] | Some (a, b) \<Rightarrow> [a, b])"

text \<open>
  \<open>unicode.IsSpace\<close>, on the UTF-8 bytes of the white-space code points: the six ASCII
  ones, U+0085, U+00A0, U+1680, U+2000 to U+200A, U+2028, U+2029, U+202F, U+205F and U+3000.
\<close>

definition space_encodings :: "string list" where
  "space_encodings =
     [[CHR 0x20], [CHR 0x09], [CHR 0x0A], [CHR 0x0B], [CHR 0x0C], [CHR 0x0D],
      [CHR 0xC2, CHR 0x85], [CHR 0xC2, CHR 0xA0], [CHR 0xE1, CHR 0x9A, CHR 0x80],
      [CHR 0xE2, CHR 0x80, CHR 0x80], [CHR 0xE2, CHR 0x80, CHR 0x81],
      [CHR 0xE2, CHR 0x80, CHR 0x82], [CHR 0xE2, CHR 0x80, CHR 0x83],
      [CHR 0xE2, CHR 0x80, CHR 0x84], [CHR 0xE2, CHR 0x80, CHR 0x85],
      [CHR 0xE2, CHR 0x80, CHR 0x86], [CHR 0xE2, CHR 0x80, CHR 0x87],
      [CHR 0xE2, CHR 0x80, CHR 0x88], [CHR 0xE2, CHR 0x80, CHR 0x89],
      [CHR 0xE2, CHR 0x80, CHR 0x8A], [CHR 0xE2, CHR 0x80, CHR 0xA8],
      [CHR 0xE2, CHR 0x80, CHR 0xA9], [CHR 0xE2, CHR 0x80, CHR 0xAF],
      [CHR 0xE2, CHR 0x81, CHR 0x9F], [CHR 0xE3, CHR 0x80, CHR 0x80]]"

fun skip_any :: "string list \<Rightarrow> nat \<Rightarrow> string \<Rightarrow> string" where
  "skip_any ws 0 s = s"
| "skip_any ws (Suc n) s =
     (case find (HasPrefix s) ws of None \<Rightarrow> s
      | Some w \<Rightarrow> skip_any ws n (drop (length w) s))"

definition TrimLeftSpace :: "string \<Rightarrow> string" where
  "TrimLeftSpace s = skip_any space_encodings (length s) s"

definition TrimSpace :: "string \<Rightarrow> string" where
  "TrimSpace s =
     (let t = TrimLeftSpace s
      in rev (skip_any (map rev space_encodings) (length t) (rev t)))"

lemma length_skip_any: "length (skip_any ws n s) \<le> length s"
proof (induction n arbitrary: s)
  case (Suc n)
  have "length (skip_any ws n (drop k s)) \<le> length s" for k
    using Suc [of "drop k s"] by simp
  then show ?case by (auto split: option.splits)
qed simp

lemma length_TrimSpace: "length (TrimSpace s) \<le> length s"
proof -
  have "length (TrimLeftSpace s) \<le> length s"
    by (simp add: TrimLeftSpace_def length_skip_any)
  then show ?thesis
    using length_skip_any [of "map rev space_encodings" "length (TrimLeftSpace s)" "rev (TrimLeftSpace s)"]
    by (simp add: TrimSpace_def Let_def)
qed

lemma TrimSpace_Nil [simp]: "TrimSpace [] = []"
  using length_TrimSpace [of "[]"] by simp

text \<open>
  A string whose first and last bytes begin and end no white-space code point is left as
  it is; in particular one of printable ASCII bytes without a blank at either end.
\<close>

definition no_space_byte :: "char \<Rightarrow> bool" where
  "no_space_byte c \<longleftrightarrow> c \<notin> hd ` set space_encodings \<and> c \<notin> last ` set space_encodings"

lemma skip_any_id:
  assumes "\<And>w. w \<in> set ws \<Longrightarrow> w \<noteq> [] \<and> hd w \<noteq> x"
  shows "skip_any ws n (x # s) = x # s"
proof (cases n)
  case (Suc m)
  have "find (HasPrefix (x # s)) ws = None"
  proof (unfold find_None_iff_all, intro ballI)
    fix w assume "w \<in> set ws"
    with assms [of w] show "\<not> HasPrefix (x # s) w" by (cases w) (auto simp: HasPrefix_def)
  qed
  with Suc show ?thesis by simp
qed simp

lemma space_encodings_nonempty: "w \<in> set space_encodings \<Longrightarrow> w \<noteq> []"
  by (auto simp: space_encodings_def)

lemma TrimSpace_id:
  assumes "s \<noteq> []" and "no_space_byte (hd s)" and "no_space_byte (last s)"
  shows "TrimSpace s = s"
proof -
  obtain x xs where s: "s = x # xs" using assms(1) by (cases s) auto
  have hd: "w \<noteq> [] \<and> hd w \<noteq> x" if "w \<in> set space_encodings" for w
    using that assms(2) s by (auto simp: no_space_byte_def dest: space_encodings_nonempty)
  have left: "TrimLeftSpace s = s"
    unfolding TrimLeftSpace_def s by (rule skip_any_id) (rule hd)
  obtain y ys where r: "rev s = y # ys" using assms(1) by (cases "rev s") auto
  then have y: "y = last s" by (metis last_rev list.sel(1) rev_rev_ident)
  have lst: "v \<noteq> [] \<and> hd v \<noteq> y" if "v \<in> set (map rev space_encodings)" for v
  proof -
    from that obtain w where w: "v = rev w" "w \<in> set space_encodings" by auto
    then have "w \<noteq> []" by (blast dest: space_encodings_nonempty)
    moreover have "last w \<noteq> y" using imageI [OF w(2), of last] assms(3) y by (auto simp: no_space_byte_def)
    ultimately show ?thesis using w(1) by (simp add: hd_rev)
  qed
  have "skip_any (map rev space_encodings) (length s) (rev s) = rev s"
    unfolding r by (rule skip_any_id) (rule lst)
  then show ?thesis by (simp add: TrimSpace_def left)
qed

text \<open>\<open>strings.ToLower\<close> on ASCII, which is all the source applies it to.\<close>

definition lower_char :: "char \<Rightarrow> char" where
  "lower_char c = (let n = of_char c :: nat in if 65 \<le> n \<and> n \<le> 90 then char_of (n + 32) else c)"

definition ToLower :: "string \<Rightarrow> string" where
  "ToLower s = map lower_char s"

definition EqualFold :: "string \<Rightarrow> string \<Rightarrow> bool" where
  "EqualFold s t \<longleftrightarrow> ToLower s = ToLower t"

text \<open>\<open>strings.Count(s, "x")\<close> for a one-byte \<open>x\<close>, and \<open>strings.Join\<close>.\<close>

definition Count :: "string \<Rightarrow> char \<Rightarrow> nat" where
  "Count s c = count_list s c"

fun Join :: "string list \<Rightarrow> string \<Rightarrow> string" where
  "Join [] sep = []"
| "Join [x] sep = x"
| "Join (x # y # zs) sep = x @ sep @ Join (y # zs) sep"

definition HasSuffix :: "string \<Rightarrow> string \<Rightarrow> bool" where
  "HasSuffix s p \<longleftrightarrow> HasPrefix (rev s) (rev p)"

text \<open>\<open>strings.Fields\<close>: the maximal runs without white space.\<close>

fun split_spaces :: "nat \<Rightarrow> string \<Rightarrow> string \<Rightarrow> string list" where
  "split_spaces 0 cur s = [cur]"
| "split_spaces (Suc n) cur s =
     (case s of [] \<Rightarrow> [cur]
      | x # xs \<Rightarrow>
        (case find (HasPrefix s) space_encodings of
           Some w \<Rightarrow> cur # split_spaces n [] (drop (length w) s)
         | None \<Rightarrow> split_spaces n (cur @ [x]) xs))"

definition Fields :: "string \<Rightarrow> string list" where
  "Fields s = filter (\<lambda>w. w \<noteq> []) (split_spaces (length s) [] s)"

text \<open>The decimal digits of \<open>%d\<close>.\<close>

fun Itoa :: "nat \<Rightarrow> string" where
  "Itoa n = (if n < 10 then [char_of (48 + n)] else Itoa (n div 10) @ [char_of (48 + n mod 10)])"

declare Itoa.simps [simp del]

definition format_int :: "int \<Rightarrow> string" where
  "format_int n = (if n < 0 then ''-'' @ Itoa (nat (- n)) else Itoa (nat n))"

definition digit :: "char \<Rightarrow> bool" where
  "digit c \<longleftrightarrow> 48 \<le> (of_char c :: nat) \<and> (of_char c :: nat) \<le> 57"

definition Atoi :: "string \<Rightarrow> nat" where
  "Atoi s = foldl (\<lambda>n c. 10 * n + (of_char c - 48)) 0 s"

lemma Itoa_digits: "Itoa n \<noteq> [] \<and> (\<forall>c\<in>set (Itoa n). digit c)"
proof (induction n rule: Itoa.induct)
  case (1 n)
  have "n mod 10 \<le> 9" using mod_less_divisor [of 10 n] by linarith
  then show ?case using 1 by (subst (1 2) Itoa.simps) (simp add: digit_def)
qed

lemma Atoi_Itoa [simp]: "Atoi (Itoa n) = n"
proof (induction n rule: Itoa.induct)
  case (1 n)
  have "of_char (char_of (48 + k :: nat) :: char) - 48 = k" if "k < 10" for k :: nat
    using that by simp
  with 1 show ?case by (subst Itoa.simps) (auto simp: Atoi_def)
qed

lemma Itoa_inject: "Itoa m = Itoa n \<longleftrightarrow> m = n"
  by (metis Atoi_Itoa)

lemma split_first:
  assumes "a @ c # b = a' @ c # (b' :: string)" and "c \<notin> set a" and "c \<notin> set a'"
  shows "a = a' \<and> b = b'"
proof -
  have "Cut c (a @ c # b) = Cut c (a' @ c # b')" by (simp only: assms(1))
  then show ?thesis unfolding Cut_append [OF assms(2)] Cut_append [OF assms(3)] by simp
qed

text \<open>Joining by a byte that no part contains can be undone.\<close>

lemma Join_inject:
  assumes "Join xs [c] = Join ys [c]"
    and "\<forall>x\<in>set xs. c \<notin> set x \<and> x \<noteq> []" and "\<forall>y\<in>set ys. c \<notin> set y \<and> y \<noteq> []"
  shows "xs = ys"
  using assms
proof (induction xs "[c]" arbitrary: ys rule: Join.induct)
  case 1
  then show ?case by (cases ys rule: remdups_adj.cases) auto
next
  case (2 x)
  then show ?case
    by (cases ys rule: remdups_adj.cases) auto
next
  case (3 x y zs)
  then obtain u v ws where ys: "ys = u # v # ws"
    by (cases ys rule: remdups_adj.cases) auto
  with 3 split_first [of x c "Join (y # zs) [c]" u "Join (v # ws) [c]"]
  have "x = u" "Join (y # zs) [c] = Join (v # ws) [c]" by auto
  with 3 ys show ?case by simp
qed

subsection \<open>Sorting by a comparison function\<close>

fun insort_less :: "('a \<Rightarrow> 'a \<Rightarrow> bool) \<Rightarrow> 'a \<Rightarrow> 'a list \<Rightarrow> 'a list" where
  "insort_less lt x [] = [x]"
| "insort_less lt x (y # ys) = (if lt y x then y # insort_less lt x ys else x # y # ys)"

definition SliceStable :: "('a \<Rightarrow> 'a \<Rightarrow> bool) \<Rightarrow> 'a list \<Rightarrow> 'a list" where
  "SliceStable lt xs = foldr (insort_less lt) xs []"

lemma SliceStable_Nil [simp]: "SliceStable lt [] = []"
  by (simp add: SliceStable_def)

lemma SliceStable_Cons: "SliceStable lt (x # xs) = insort_less lt x (SliceStable lt xs)"
  by (simp add: SliceStable_def)

lemma mset_insort_less: "mset (insort_less lt x ys) = add_mset x (mset ys)"
  by (induction ys) auto

lemma mset_SliceStable [simp, go_sort]: "mset (SliceStable lt xs) = mset xs"
  by (induction xs) (simp_all add: SliceStable_Cons mset_insort_less)

lemma set_SliceStable [simp, go_sort]: "set (SliceStable lt xs) = set xs"
  by (metis mset_SliceStable set_mset_mset)

lemma length_SliceStable [simp, go_sort]: "length (SliceStable lt xs) = length xs"
  by (metis mset_SliceStable size_mset)

lemma distinct_SliceStable [simp, go_sort]: "distinct (SliceStable lt xs) = distinct xs"
  by (metis mset_SliceStable mset_eq_imp_distinct_iff)

lemma SliceStable_eq_Nil_iff [simp]: "SliceStable lt xs = [] \<longleftrightarrow> xs = []"
  by (metis length_0_conv length_SliceStable)

text \<open>
  What \<open>sort\<close> asks of a \<open>less\<close> function: a strict weak order. \<open>ordered_by\<close> is the
  order a sorted slice has, no later element less than an earlier one.
\<close>

definition ordered_by :: "('a \<Rightarrow> 'a \<Rightarrow> bool) \<Rightarrow> 'a list \<Rightarrow> bool" where
  "ordered_by lt xs \<longleftrightarrow> sorted_wrt (\<lambda>a b. \<not> lt b a) xs"

lemma ordered_strict:
  assumes "ordered_by lt xs" and "distinct xs"
    and "\<And>x y. x \<in> set xs \<Longrightarrow> y \<in> set xs \<Longrightarrow> \<not> lt x y \<Longrightarrow> \<not> lt y x \<Longrightarrow> x = y"
  shows "sorted_wrt lt xs"
  using assms by (induction xs) (auto simp: ordered_by_def)

locale go_less =
  fixes lt :: "'a \<Rightarrow> 'a \<Rightarrow> bool"
  assumes lt_asym: "lt a b \<Longrightarrow> \<not> lt b a"
    and lt_cotrans: "lt a c \<Longrightarrow> lt a b \<or> lt b c"
begin

lemma ge_trans: "\<not> lt b a \<Longrightarrow> \<not> lt c b \<Longrightarrow> \<not> lt c a"
  using lt_cotrans by blast

lemma set_insort_less_local: "set (insort_less lt x ys) = insert x (set ys)"
  by (induction ys) auto

lemma ordered_insort_less: "ordered_by lt ys \<Longrightarrow> ordered_by lt (insort_less lt x ys)"
proof (induction ys)
  case Nil
  then show ?case by (simp add: ordered_by_def)
next
  case (Cons y ys)
  then show ?case
    by (auto simp: ordered_by_def set_insort_less_local dest: lt_asym ge_trans)
qed

lemma ordered_SliceStable: "ordered_by lt (SliceStable lt xs)"
  by (induction xs) (simp_all add: SliceStable_Cons ordered_insort_less, simp add: ordered_by_def)

text \<open>Where the comparison separates the elements, the sorted order is unique.\<close>

lemma ordered_unique:
  assumes "ordered_by lt xs" and "ordered_by lt ys" and "mset xs = mset ys"
    and "\<And>a b. a \<in> set xs \<Longrightarrow> b \<in> set xs \<Longrightarrow> \<not> lt a b \<Longrightarrow> \<not> lt b a \<Longrightarrow> a = b"
  shows "xs = ys"
  using assms
proof (induction xs arbitrary: ys)
  case Nil
  then show ?case by simp
next
  case (Cons x xs)
  then obtain y ys' where ys: "ys = y # ys'" by (cases ys) auto
  have sets: "set (x # xs) = set (y # ys')"
    using Cons.prems(3) ys by (metis set_mset_mset)
  have "x = y"
  proof (rule ccontr)
    assume ne: "x \<noteq> y"
    with sets have "y \<in> set xs" and "x \<in> set ys'" by auto
    with Cons.prems(1,2) ys have "\<not> lt y x" and "\<not> lt x y" by (auto simp: ordered_by_def)
    then show False using Cons.prems(4) [of x y] \<open>y \<in> set xs\<close> ne by auto
  qed
  moreover have "xs = ys'"
    using Cons.prems \<open>x = y\<close> ys by (intro Cons.IH) (auto simp: ordered_by_def)
  ultimately show ?case using ys by simp
qed

lemma SliceStable_unique:
  assumes "mset xs = mset ys"
    and "\<And>a b. a \<in> set xs \<Longrightarrow> b \<in> set xs \<Longrightarrow> \<not> lt a b \<Longrightarrow> \<not> lt b a \<Longrightarrow> a = b"
  shows "SliceStable lt xs = SliceStable lt ys"
  using assms by (intro ordered_unique) (auto simp: ordered_SliceStable)

lemma first_is_least:
  "SliceStable lt xs = y # ys \<Longrightarrow> z \<in> set xs \<Longrightarrow> \<not> lt z y"
proof -
  assume s: "SliceStable lt xs = y # ys" and z: "z \<in> set xs"
  have "ordered_by lt (y # ys)" using ordered_SliceStable [of xs] s by simp
  moreover have "z \<in> set (y # ys)" using z s by (metis set_SliceStable)
  ultimately show "\<not> lt z y" using lt_asym by (auto simp: ordered_by_def)
qed

end

text \<open>Sorting values by a printed form sorts the printed forms.\<close>

lemma map_insort_less:
  "map f (insort_less (\<lambda>a b. lt (f a) (f b)) x ys) = insort_less lt (f x) (map f ys)"
  by (induction ys) auto

lemma map_SliceStable:
  "map f (SliceStable (\<lambda>a b. lt (f a) (f b)) xs) = SliceStable lt (map f xs)"
  by (induction xs) (simp_all add: SliceStable_Cons map_insort_less)

text \<open>Comparisons by a key with a linear order are the common case.\<close>

lemma go_less_key: "go_less (\<lambda>a b. (f a :: 'b :: linorder) < f b)"
  by unfold_locales auto

interpretation by_string: go_less "\<lambda>a b :: string. a < b"
  by unfold_locales auto

end
