(* ===== verification/GoJson.thy ===== *)
theory GoJson
  imports MaasPrelude "HOL-Library.Word"
begin

text \<open>
  Kubernetes objects as the code sees them: values of Go's \<open>any\<close> that a JSON document
  decodes to, and the libraries outside the repository that read and check them. The
  helpers of \<open>k8s.io/apimachinery\<close> (\<open>unstructured.NestedMap\<close>, \<open>GetName\<close>, ...),
  \<open>github.com/google/uuid\<close>, \<open>golang.org/x/net/http/httpguts\<close>, the JSON decoder and the
  hash function are fields of the record \<open>libs\<close>, an argument of the definitions that
  call them: what is proved holds for every choice of them unless a hypothesis says more.
\<close>

datatype json =
    JNull
  | JBool bool
  | JInt int
  | JFloat "64 word"
  | JStr string
  | JArr "json list"
  | JObj "(string \<times> json) list"

type_synonym jobj = "(string \<times> json) list"

text \<open>Go's type assertions \<open>v.(string)\<close>, \<open>v.(map[string]any)\<close>, ... on a present value.\<close>

fun as_string :: "json \<Rightarrow> string option" where
  "as_string (JStr s) = Some s"
| "as_string _ = None"

fun as_bool :: "json \<Rightarrow> bool option" where
  "as_bool (JBool b) = Some b"
| "as_bool _ = None"

fun as_int64 :: "json \<Rightarrow> int option" where
  "as_int64 (JInt n) = Some n"
| "as_int64 _ = None"

fun as_arr :: "json \<Rightarrow> json list option" where
  "as_arr (JArr xs) = Some xs"
| "as_arr _ = None"

fun as_obj :: "json \<Rightarrow> jobj option" where
  "as_obj (JObj m) = Some m"
| "as_obj _ = None"

text \<open>
  \<open>m["k"].(T)\<close> with the comma-ok form: absent keys and values of another type fail.
  \<open>str_field m k\<close> is \<open>s, _ := m["k"].(string)\<close>, the zero value on failure.
\<close>

definition field :: "(json \<Rightarrow> 'a option) \<Rightarrow> jobj \<Rightarrow> string \<Rightarrow> 'a option" where
  "field as m k = Option.bind (map_of m k) as"

definition str_field :: "jobj \<Rightarrow> string \<Rightarrow> string" where
  "str_field m k = (case field as_string m k of None \<Rightarrow> [] | Some s \<Rightarrow> s)"

text \<open>
  The comma-ok helpers return \<open>(value, found, err)\<close>; the zero value where there is none.
\<close>

type_synonym 'a nested = "'a \<times> bool \<times> string option"

record libs =
  NestedMap :: "jobj \<Rightarrow> string list \<Rightarrow> jobj nested"
  NestedString :: "jobj \<Rightarrow> string list \<Rightarrow> string nested"
  NestedSlice :: "jobj \<Rightarrow> string list \<Rightarrow> json list nested"
  NestedStringSlice :: "jobj \<Rightarrow> string list \<Rightarrow> string list nested"
  NestedInt64 :: "jobj \<Rightarrow> string list \<Rightarrow> int nested"
  GetName :: "jobj \<Rightarrow> string"
  GetNamespace :: "jobj \<Rightarrow> string"
  GetUID :: "jobj \<Rightarrow> string"
  GetGeneration :: "jobj \<Rightarrow> int"
  GetAnnotations :: "jobj \<Rightarrow> (string \<rightharpoonup> string) option"
  uuidParse :: "string \<Rightarrow> string option"
  ValidHeaderFieldName :: "string \<Rightarrow> bool"
  ValidHeaderFieldValue :: "string \<Rightarrow> bool"
  unmarshalHeaders :: "string \<Rightarrow> string + (string \<times> string list option) list option"
  sha256hex :: "string \<Rightarrow> string"

definition found :: "'a nested \<Rightarrow> 'a option" where
  "found r = (case r of (v, f, e) \<Rightarrow> if f then Some v else None)"

definition value_of :: "'a nested \<Rightarrow> 'a" where
  "value_of r = fst r"

definition annotation :: "(string \<rightharpoonup> string) \<Rightarrow> string \<Rightarrow> string" where
  "annotation m k = (case m k of None \<Rightarrow> [] | Some v \<Rightarrow> v)"

text \<open>
  Map keys that the packages index their Go maps with: a namespace and a name.
\<close>

type_synonym nsname = "string \<times> string"

text \<open>
  A reading of these helpers that the concrete examples of the development use: field
  paths walk nested objects, a missing step is not found, a value of another type is an
  error, and metadata are read from \<open>metadata\<close>.
\<close>

fun walk :: "jobj \<Rightarrow> string list \<Rightarrow> json option" where
  "walk m [] = Some (JObj m)"
| "walk m [k] = map_of m k"
| "walk m (k # ks) = (case map_of m k of Some (JObj m') \<Rightarrow> walk m' ks | _ \<Rightarrow> None)"

definition walk_as :: "(json \<Rightarrow> 'a option) \<Rightarrow> 'a \<Rightarrow> jobj \<Rightarrow> string list \<Rightarrow> 'a nested" where
  "walk_as as zero m ks =
     (case walk m ks of None \<Rightarrow> (zero, False, None)
      | Some v \<Rightarrow> (case as v of None \<Rightarrow> (zero, False, Some ''type'') | Some x \<Rightarrow> (x, True, None)))"

definition as_strings :: "json \<Rightarrow> string list option" where
  "as_strings v = (case v of JArr xs \<Rightarrow>
      (if list_all (\<lambda>x. as_string x \<noteq> None) xs then Some (map (the \<circ> as_string) xs) else None)
    | _ \<Rightarrow> None)"

definition meta_string :: "string \<Rightarrow> jobj \<Rightarrow> string" where
  "meta_string k m = value_of (walk_as as_string [] m [''metadata'', k])"

definition meta_annotations :: "jobj \<Rightarrow> (string \<rightharpoonup> string) option" where
  "meta_annotations m =
     (case walk m [''metadata'', ''annotations''] of
        Some (JObj a) \<Rightarrow> Some (map_of (List.map_filter (\<lambda>(k, v). map_option (Pair k) (as_string v)) a))
      | _ \<Rightarrow> None)"

definition example_libs :: libs where
  "example_libs =
     \<lparr>NestedMap = walk_as as_obj [], NestedString = walk_as as_string [],
      NestedSlice = walk_as as_arr [], NestedStringSlice = walk_as as_strings [],
      NestedInt64 = walk_as as_int64 0,
      GetName = meta_string ''name'', GetNamespace = meta_string ''namespace'',
      GetUID = meta_string ''uid'',
      GetGeneration = (\<lambda>m. value_of (walk_as as_int64 0 m [''metadata'', ''generation''])),
      GetAnnotations = meta_annotations,
      uuidParse = (\<lambda>s. if s = [] then None else Some s),
      ValidHeaderFieldName = (\<lambda>s. s \<noteq> []), ValidHeaderFieldValue = (\<lambda>_. True),
      unmarshalHeaders = (\<lambda>s. Inr (Some [(s, Some [])])), sha256hex = (\<lambda>s. ''h'' @ s)\<rparr>"

end
