(* ===== verification/TokenIdentity.thy ===== *)
theory TokenIdentity
  imports GoJson
begin

text \<open>
  The trusted identity transport between the gateway and the API server:
  \<open>maas-api/internal/token/{identity,handler}.go\<close> and \<open>groupname/groupname.go\<close>. Go's JSON
  decoder is the record \<open>jsonDecoder\<close>: the token stream of \<open>json.Decoder\<close> and its typed
  decoding. A gin context is a record of the headers and of the values set on it; a
  middleware returns the context passed on, or the status it aborts with.
\<close>

section \<open>Claims\<close>

record audience =
  aud_Value :: string
  aud_Items :: "string list"

record verifiedClaims =
  cl_Issuer :: string
  cl_Subject :: string
  cl_Audience :: audience
  cl_AuthorizedParty :: string
  cl_Name :: string
  cl_GivenName :: string
  cl_FamilyName :: string
  cl_PreferredUsername :: string
  cl_Email :: string
  cl_Groups :: "string list"
  cl_OrgID :: string
  cl_OrgName :: string
  cl_Roles :: "string list"
  cl_orgIDPresent :: bool
  cl_orgNamePresent :: bool
  cl_rolesPresent :: bool

record verifiedIdentity =
  id_Source :: string
  id_Claims :: verifiedClaims

datatype identityError =
    errIdentityTooLarge
  | errIdentityDepth
  | errIdentityDuplicateKey
  | errIdentityTrailingData
  | errIdentityMalformed
  | InvalidClaim string

abbreviation MaxIdentityEnvelopeBytes :: nat where "MaxIdentityEnvelopeBytes \<equiv> 16384"
abbreviation maxIdentityJSONDepth :: nat where "maxIdentityJSONDepth \<equiv> 6"
abbreviation maxIdentityGroups :: nat where "maxIdentityGroups \<equiv> 128"
abbreviation maxOrganizationRoles :: nat where "maxOrganizationRoles \<equiv> 64"
abbreviation maxAudiences :: nat where "maxAudiences \<equiv> 16"

definition nonEmptyBoundedString :: "string \<Rightarrow> nat \<Rightarrow> bool" where
  "nonEmptyBoundedString value limit \<longleftrightarrow> value \<noteq> [] \<and> length value \<le> limit"

definition optionalBoundedString :: "string \<Rightarrow> nat \<Rightarrow> bool" where
  "optionalBoundedString value limit \<longleftrightarrow> value = [] \<or> length value \<le> limit"

fun has_duplicate :: "string list \<Rightarrow> string list \<Rightarrow> bool" where
  "has_duplicate seen [] = False"
| "has_duplicate seen (g # gs) = (if g \<in> set seen then True else has_duplicate (g # seen) gs)"

definition validateOrganizationClaims :: "libs \<Rightarrow> verifiedClaims \<Rightarrow> identityError option" where
  "validateOrganizationClaims L claims =
     (if \<not> cl_orgIDPresent claims
      then (if cl_orgNamePresent claims \<or> cl_rolesPresent claims
            then Some (InvalidClaim ''organization claims require org_id'') else None)
      else if uuidParse L (cl_OrgID claims) \<noteq> Some (cl_OrgID claims)
      then Some (InvalidClaim ''invalid organization id'')
      else if has_duplicate [] (cl_Groups claims)
      then Some (InvalidClaim ''duplicate organization group'')
      else if \<not> optionalBoundedString (cl_OrgName claims) 256
      then Some (InvalidClaim ''invalid organization name claim'')
      else if length (cl_Roles claims) > maxOrganizationRoles
      then Some (InvalidClaim ''too many organization roles'')
      else if \<exists>role\<in>set (cl_Roles claims). \<not> nonEmptyBoundedString role 128
      then Some (InvalidClaim ''invalid organization role'')
      else None)"

definition audiences_of :: "verifiedClaims \<Rightarrow> string list" where
  "audiences_of claims =
     (if aud_Value (cl_Audience claims) \<noteq> [] then [aud_Value (cl_Audience claims)]
      else aud_Items (cl_Audience claims))"

definition validate :: "libs \<Rightarrow> verifiedIdentity \<Rightarrow> identityError option" where
  "validate L identity =
     (if id_Source identity \<noteq> ''oidc'' then Some (InvalidClaim ''unsupported identity source'')
      else let claims = id_Claims identity in
      if \<not> nonEmptyBoundedString (cl_Issuer claims) 2048 then Some (InvalidClaim ''invalid issuer claim'')
      else if \<not> nonEmptyBoundedString (cl_Subject claims) 256 then Some (InvalidClaim ''invalid subject claim'')
      else if \<not> nonEmptyBoundedString (cl_AuthorizedParty claims) 256
      then Some (InvalidClaim ''invalid authorized party claim'')
      else if \<not> optionalBoundedString (cl_Name claims) 256 then Some (InvalidClaim ''invalid name claim'')
      else if \<not> optionalBoundedString (cl_GivenName claims) 256 then Some (InvalidClaim ''invalid given name claim'')
      else if \<not> optionalBoundedString (cl_FamilyName claims) 256 then Some (InvalidClaim ''invalid family name claim'')
      else if \<not> optionalBoundedString (cl_PreferredUsername claims) 256
      then Some (InvalidClaim ''invalid preferred username claim'')
      else if \<not> optionalBoundedString (cl_Email claims) 320 then Some (InvalidClaim ''invalid email claim'')
      else if aud_Value (cl_Audience claims) = [] \<and> aud_Items (cl_Audience claims) = []
      then Some (InvalidClaim ''missing audience claim'')
      else if aud_Value (cl_Audience claims) \<noteq> [] \<and> aud_Items (cl_Audience claims) \<noteq> []
      then Some (InvalidClaim ''audience claim has both representations'')
      else if length (audiences_of claims) > maxAudiences then Some (InvalidClaim ''too many audiences'')
      else if \<exists>a\<in>set (audiences_of claims). \<not> nonEmptyBoundedString a 256
      then Some (InvalidClaim ''invalid audience claim'')
      else if length (cl_Groups claims) > maxIdentityGroups then Some (InvalidClaim ''too many groups'')
      else if \<exists>g\<in>set (cl_Groups claims). \<not> nonEmptyBoundedString g 256
      then Some (InvalidClaim ''invalid group claim'')
      else validateOrganizationClaims L claims)"

definition QualifiedGroups :: "verifiedIdentity option \<Rightarrow> identityError + string list" where
  "QualifiedGroups identityP =
     (case identityP of
        None \<Rightarrow> Inl (InvalidClaim ''verified identity is required'')
      | Some identity \<Rightarrow>
        (let groups = cl_Groups (id_Claims identity)
         in if cl_OrgID (id_Claims identity) = [] then Inr groups
            else Inr (map (\<lambda>g. cl_OrgID (id_Claims identity) @ ''/'' @ g) groups)))"

section \<open>Shape of the envelope\<close>

text \<open>
  The tokens \<open>json.Decoder.Token\<close> returns; \<open>TError\<close> is a call that fails. The stream ends
  with \<open>io.EOF\<close>. \<open>More\<close> looks at the next token only.
\<close>

datatype jtoken = TDelim char | TString string | TScalar | TError

definition More :: "jtoken list \<Rightarrow> bool" where
  "More ts = (case ts of [] \<Rightarrow> False | t # _ \<Rightarrow> t \<noteq> TDelim (CHR '']'') \<and> t \<noteq> TDelim (CHR ''}''))"

definition Token :: "jtoken list \<Rightarrow> (jtoken \<times> jtoken list) option" where
  "Token ts = (case ts of [] \<Rightarrow> None | t # ts' \<Rightarrow> if t = TError then None else Some (t, ts'))"

text \<open>
  \<open>validateJSONValue\<close> and its two loops; every call consumes a token, so a bound of the
  recursion by the length of the stream is never reached (\<open>fuel_enough\<close> below). The result
  of an exhausted bound is \<open>None\<close>.
\<close>

fun validateJSONValue :: "nat \<Rightarrow> nat \<Rightarrow> jtoken list \<Rightarrow> (identityError + jtoken list) option"
  and object_loop :: "nat \<Rightarrow> nat \<Rightarrow> string list \<Rightarrow> jtoken list \<Rightarrow> (identityError + jtoken list) option"
  and array_loop :: "nat \<Rightarrow> nat \<Rightarrow> jtoken list \<Rightarrow> (identityError + jtoken list) option" where
  "validateJSONValue 0 depth ts = None"
| "validateJSONValue (Suc n) depth ts =
     (if depth > maxIdentityJSONDepth then Some (Inl errIdentityDepth)
      else case Token ts of
        None \<Rightarrow> Some (Inl errIdentityMalformed)
      | Some (t, ts1) \<Rightarrow>
        (case t of
           TDelim d \<Rightarrow>
             (case (if d = CHR ''{'' then object_loop n depth [] ts1
                    else if d = CHR ''['' then array_loop n depth ts1
                    else Some (Inl errIdentityMalformed)) of
                None \<Rightarrow> None
              | Some (Inl e) \<Rightarrow> Some (Inl e)
              | Some (Inr ts2) \<Rightarrow>
                (case Token ts2 of
                   None \<Rightarrow> Some (Inl errIdentityMalformed)
                 | Some (_, ts3) \<Rightarrow> Some (Inr ts3)))
         | _ \<Rightarrow> Some (Inr ts1)))"
| "object_loop 0 depth seenKeys ts = None"
| "object_loop (Suc n) depth seenKeys ts =
     (if \<not> More ts then Some (Inr ts)
      else case Token ts of
        None \<Rightarrow> Some (Inl errIdentityMalformed)
      | Some (t, ts1) \<Rightarrow>
        (case t of
           TString key \<Rightarrow>
             if key \<in> set seenKeys then Some (Inl errIdentityDuplicateKey)
             else (case validateJSONValue n (depth + 1) ts1 of
                     None \<Rightarrow> None
                   | Some (Inl e) \<Rightarrow> Some (Inl e)
                   | Some (Inr ts2) \<Rightarrow> object_loop n depth (key # seenKeys) ts2)
         | _ \<Rightarrow> Some (Inl errIdentityMalformed)))"
| "array_loop 0 depth ts = None"
| "array_loop (Suc n) depth ts =
     (if \<not> More ts then Some (Inr ts)
      else case validateJSONValue n (depth + 1) ts of
        None \<Rightarrow> None
      | Some (Inl e) \<Rightarrow> Some (Inl e)
      | Some (Inr ts2) \<Rightarrow> array_loop n depth ts2)"

definition shape_fuel :: "jtoken list \<Rightarrow> nat" where
  "shape_fuel ts = 2 * length ts + 2"

definition validateJSONShape :: "jtoken list \<Rightarrow> identityError option" where
  "validateJSONShape ts =
     (case validateJSONValue (shape_fuel ts) 0 ts of
        None \<Rightarrow> Some errIdentityMalformed
      | Some (Inl e) \<Rightarrow> Some e
      | Some (Inr rest) \<Rightarrow> if rest = [] then None else Some errIdentityTrailingData)"

section \<open>Decoding\<close>

record jsonDecoder =
  jd_tokens :: "string \<Rightarrow> jtoken list"
  jd_envelope :: "string \<Rightarrow> (string \<times> jobj) option"
  jd_claims :: "jobj \<Rightarrow> verifiedClaims option"
  jd_strings :: "string \<Rightarrow> string list option"

definition allowedClaims :: "string list" where
  "allowedClaims = [''iss'', ''sub'', ''aud'', ''azp'', ''name'', ''given_name'', ''family_name'',
     ''preferred_username'', ''email'', ''groups'', ''org_id'', ''org_name'', ''roles'']"

definition UnmarshalJSON :: "jsonDecoder \<Rightarrow> jobj \<Rightarrow> verifiedClaims option" where
  "UnmarshalJSON J rawClaims =
     (if \<exists>name\<in>fst ` set rawClaims. name \<notin> set allowedClaims then None
      else if \<exists>name\<in>{''org_id'', ''org_name'', ''roles''}. map_of rawClaims name = Some JNull then None
      else case jd_claims J rawClaims of
             None \<Rightarrow> None
           | Some decoded \<Rightarrow>
             Some (decoded\<lparr>cl_orgIDPresent := (map_of rawClaims ''org_id'' \<noteq> None),
                           cl_orgNamePresent := (map_of rawClaims ''org_name'' \<noteq> None),
                           cl_rolesPresent := (map_of rawClaims ''roles'' \<noteq> None)\<rparr>))"

definition ParseIdentityEnvelope :: "libs \<Rightarrow> jsonDecoder \<Rightarrow> string \<Rightarrow> identityError + verifiedIdentity" where
  "ParseIdentityEnvelope L J value =
     (if length value > MaxIdentityEnvelopeBytes then Inl errIdentityTooLarge
      else case validateJSONShape (jd_tokens J value) of
        Some e \<Rightarrow> Inl e
      | None \<Rightarrow>
        (case (case jd_envelope J value of
                 None \<Rightarrow> None
               | Some (source, rawClaims) \<Rightarrow>
                 map_option (\<lambda>claims. \<lparr>id_Source = source, id_Claims = claims\<rparr>) (UnmarshalJSON J rawClaims)) of
           None \<Rightarrow> Inl errIdentityMalformed
         | Some identity \<Rightarrow>
           (case validate L identity of Some e \<Rightarrow> Inl e | None \<Rightarrow> Inr identity)))"

section \<open>Group names and headers\<close>

definition group_char :: "char \<Rightarrow> bool" where
  "group_char c \<longleftrightarrow>
     (CHR ''A'' \<le> c \<and> c \<le> CHR ''Z'') \<or> (CHR ''a'' \<le> c \<and> c \<le> CHR ''z'') \<or> (CHR ''0'' \<le> c \<and> c \<le> CHR ''9'') \<or>
     c \<in> {CHR '':'', CHR ''#'', CHR ''.'', CHR ''_'', CHR ''/'', CHR '' '', CHR ''-''}"

definition Valid :: "string \<Rightarrow> bool" where
  "Valid name \<longleftrightarrow> name \<noteq> [] \<and> list_all group_char name"

definition AllValid :: "string list \<Rightarrow> bool" where
  "AllValid names = list_all Valid names"

datatype groupsError = HeaderEmpty | UnsupportedFormat string | NoGroups

definition ParseGroupsHeader :: "jsonDecoder \<Rightarrow> string \<Rightarrow> groupsError + string list" where
  "ParseGroupsHeader J header =
     (if header = [] then Inl HeaderEmpty
      else let trimmed = TrimSpace header in
      if trimmed = ''[]'' then Inr []
      else bind_res
        (case jd_strings J header of
           Some groups \<Rightarrow> Inr groups
         | None \<Rightarrow>
           if HasPrefix trimmed ''['' \<and> HasSuffix trimmed '']''
           then Inr (Fields (take (length trimmed - 2) (drop 1 trimmed)))
           else Inl (UnsupportedFormat header))
        (\<lambda>parsedGroups.
           let validGroups = filter (\<lambda>g. g \<noteq> []) parsedGroups
           in if validGroups = [] then Inl NoGroups else Inr validGroups))"

section \<open>Middleware\<close>

record userContext =
  uc_Username :: string
  uc_Groups :: "string list"
  uc_Tenant :: string
  uc_OrganizationID :: string

text \<open>
  \<open>cx_verified\<close> is the value of the context key \<open>verified_identity\<close>: \<open>Some None\<close> stands for
  a value that is nil or of another type.
\<close>

record ginContext =
  cx_Identity :: "string list"
  cx_Authorization :: "string list"
  cx_XApiKey :: "string list"
  cx_Username :: string
  cx_Group :: string
  cx_OrganizationID :: string
  cx_verified :: "verifiedIdentity option option"
  cx_user :: "userContext option"

datatype abort =
    Unauthorized identityError
  | AuthFailure string

definition header_first :: "string list \<Rightarrow> string" where
  "header_first vs = (case vs of [] \<Rightarrow> [] | v # _ \<Rightarrow> v)"

definition validateOptionalIdentityHeaders :: "string list \<Rightarrow> identityError option" where
  "validateOptionalIdentityHeaders vs =
     (if length vs > 1 then Some (InvalidClaim ''duplicate identity header'')
      else if length vs = 1 \<and> hd vs = [] then Some (InvalidClaim ''identity header is empty'')
      else None)"

definition validateTrustedIdentityHeaders :: "string list \<Rightarrow> identityError option" where
  "validateTrustedIdentityHeaders vs =
     (if length vs > 0 then Some (InvalidClaim ''identity header is not accepted'') else None)"

definition ExtractVerifiedIdentityOptional ::
  "libs \<Rightarrow> jsonDecoder \<Rightarrow> ginContext \<Rightarrow> abort + ginContext" where
  "ExtractVerifiedIdentityOptional L J c =
     (case validateOptionalIdentityHeaders (cx_Identity c) of
        Some err \<Rightarrow> Inl (Unauthorized err)
      | None \<Rightarrow>
        (let value = header_first (cx_Identity c)
         in if value = [] then Inr c
            else case ParseIdentityEnvelope L J value of
                   Inl err \<Rightarrow> Inl (Unauthorized err)
                 | Inr identity \<Rightarrow> Inr (c\<lparr>cx_verified := Some (Some identity)\<rparr>)))"

definition ExtractVerifiedIdentity ::
  "libs \<Rightarrow> jsonDecoder \<Rightarrow> ginContext \<Rightarrow> abort + ginContext" where
  "ExtractVerifiedIdentity L J c =
     (case validateOptionalIdentityHeaders (cx_Identity c) of
        Some err \<Rightarrow> Inl (Unauthorized err)
      | None \<Rightarrow>
        (let value = header_first (cx_Identity c)
         in if value = [] then Inl (Unauthorized (InvalidClaim ''trusted identity is required''))
            else case ParseIdentityEnvelope L J value of
                   Inl err \<Rightarrow> Inl (Unauthorized err)
                 | Inr identity \<Rightarrow> Inr (c\<lparr>cx_verified := Some (Some identity)\<rparr>)))"

definition RejectTrustedIdentityHeaders :: "ginContext \<Rightarrow> abort + ginContext" where
  "RejectTrustedIdentityHeaders c =
     (case validateTrustedIdentityHeaders (cx_Identity c) of
        Some err \<Rightarrow> Inl (Unauthorized err) | None \<Rightarrow> Inr c)"

definition setUserContextFromVerifiedIdentity ::
  "string \<Rightarrow> ginContext \<Rightarrow> verifiedIdentity option \<Rightarrow> abort + ginContext" where
  "setUserContextFromVerifiedIdentity tenantName c value =
     (case value of
        None \<Rightarrow> Inl (AuthFailure ''004'')
      | Some identity \<Rightarrow>
        (case QualifiedGroups (Some identity) of
           Inl err \<Rightarrow> Inl (Unauthorized err)
         | Inr qualified \<Rightarrow>
           (let claims = id_Claims identity;
                groups = ''system:authenticated'' #
                           (if \<not> AllValid (cl_Groups claims) then [] else qualified);
                username = (if cl_PreferredUsername claims = [] then cl_Subject claims
                            else cl_PreferredUsername claims)
            in Inr (c\<lparr>cx_user := Some \<lparr>uc_Username = username, uc_Groups = groups, uc_Tenant = tenantName,
                                         uc_OrganizationID = cl_OrgID claims\<rparr>\<rparr>))))"

definition header_user :: "string \<Rightarrow> ginContext \<Rightarrow> string list \<Rightarrow> ginContext" where
  "header_user tenantName c groups =
     c\<lparr>cx_user := Some \<lparr>uc_Username = TrimSpace (cx_Username c), uc_Groups = groups,
        uc_Tenant = tenantName, uc_OrganizationID = TrimSpace (cx_OrganizationID c)\<rparr>\<rparr>"

definition ExtractUserInfo :: "jsonDecoder \<Rightarrow> string \<Rightarrow> ginContext \<Rightarrow> abort + ginContext" where
  "ExtractUserInfo J tenantName c =
     (case cx_verified c of
        Some value \<Rightarrow> setUserContextFromVerifiedIdentity tenantName c value
      | None \<Rightarrow>
        if TrimSpace (cx_Username c) = [] then Inl (AuthFailure ''001'')
        else if cx_Group c = [] then Inl (AuthFailure ''002'')
        else case ParseGroupsHeader J (cx_Group c) of
               Inl _ \<Rightarrow> Inl (AuthFailure ''003'')
             | Inr groups \<Rightarrow> Inr (header_user tenantName c groups))"

definition ExtractUserInfoOptional :: "jsonDecoder \<Rightarrow> string \<Rightarrow> ginContext \<Rightarrow> abort + ginContext" where
  "ExtractUserInfoOptional J tenantName c =
     (case cx_verified c of
        Some value \<Rightarrow> setUserContextFromVerifiedIdentity tenantName c value
      | None \<Rightarrow>
        if TrimSpace (cx_Username c) = [] \<or> cx_Group c = [] then Inr c
        else case ParseGroupsHeader J (cx_Group c) of
               Inl _ \<Rightarrow> Inl (AuthFailure ''003'')
             | Inr groups \<Rightarrow> Inr (header_user tenantName c groups))"

definition APIKeyPrefix :: string where
  "APIKeyPrefix = ''sk-oai-''"

definition bearer_api_key :: "string \<Rightarrow> bool" where
  "bearer_api_key authorization =
     (case Fields authorization of
        scheme # rest \<Rightarrow> rest \<noteq> [] \<and> EqualFold scheme ''Bearer'' \<and> HasPrefix (Join rest '' '') APIKeyPrefix
      | [] \<Rightarrow> False)"

definition hasInferenceAPIKeyCredential :: "ginContext \<Rightarrow> bool" where
  "hasInferenceAPIKeyCredential c \<longleftrightarrow>
     (\<exists>a\<in>set (cx_Authorization c). bearer_api_key a) \<or>
     (\<exists>k\<in>set (cx_XApiKey c). HasPrefix (TrimSpace k) APIKeyPrefix)"

record identityResponse =
  ir_Issuer :: string
  ir_Subject :: string
  ir_Name :: string
  ir_GivenName :: string
  ir_FamilyName :: string
  ir_PreferredUsername :: string
  ir_Email :: string
  ir_Groups :: "string list"
  ir_OrgID :: string
  ir_OrgName :: string
  ir_Roles :: "string list"

definition GetMe :: "ginContext \<Rightarrow> abort + identityResponse" where
  "GetMe c =
     (if hasInferenceAPIKeyCredential c
      then Inl (Unauthorized (InvalidClaim ''inference API keys are not accepted''))
      else case cx_verified c of
        Some None \<Rightarrow> Inl (Unauthorized (InvalidClaim ''trusted identity is invalid''))
      | Some (Some identity) \<Rightarrow>
        (let cl = id_Claims identity
         in Inr \<lparr>ir_Issuer = cl_Issuer cl, ir_Subject = cl_Subject cl, ir_Name = cl_Name cl,
                 ir_GivenName = cl_GivenName cl, ir_FamilyName = cl_FamilyName cl,
                 ir_PreferredUsername = cl_PreferredUsername cl, ir_Email = cl_Email cl,
                 ir_Groups = cl_Groups cl, ir_OrgID = cl_OrgID cl, ir_OrgName = cl_OrgName cl,
                 ir_Roles = cl_Roles cl\<rparr>)
      | None \<Rightarrow>
        (case cx_user c of
           None \<Rightarrow> Inl (Unauthorized (InvalidClaim ''trusted identity is required''))
         | Some user \<Rightarrow>
           if uc_Username user = [] then Inl (Unauthorized (InvalidClaim ''trusted identity is required''))
           else Inr \<lparr>ir_Issuer = [], ir_Subject = uc_Username user, ir_Name = uc_Username user,
                     ir_GivenName = [], ir_FamilyName = [], ir_PreferredUsername = uc_Username user,
                     ir_Email = [], ir_Groups = uc_Groups user, ir_OrgID = [], ir_OrgName = [],
                     ir_Roles = []\<rparr>))"

section \<open>The shape pass\<close>

text \<open>The bound on the recursion is never reached: each call consumes a token.\<close>

lemma Token_length: "Token ts = Some (t, ts') \<Longrightarrow> length ts = Suc (length ts')"
  by (auto simp: Token_def split: list.splits if_splits)

lemma shape_consumes:
  "(\<forall>d ts r. validateJSONValue n d ts = Some (Inr r) \<longrightarrow> length r < length ts) \<and>
   (\<forall>d seen ts r. object_loop n d seen ts = Some (Inr r) \<longrightarrow> length r \<le> length ts) \<and>
   (\<forall>d ts r. array_loop n d ts = Some (Inr r) \<longrightarrow> length r \<le> length ts)"
proof (induction n)
  case (Suc n)
  have IH: "validateJSONValue n d ts = Some (Inr r) \<Longrightarrow> length r < length ts"
    "object_loop n d seen ts = Some (Inr r) \<Longrightarrow> length r \<le> length ts"
    "array_loop n d ts = Some (Inr r) \<Longrightarrow> length r \<le> length ts" for d seen ts r
    using Suc.IH by blast+
  have "length r < length ts" if "validateJSONValue (Suc n) d ts = Some (Inr r)" for d ts r
    using that
    by (auto split: if_splits option.splits jtoken.splits sum.splits dest!: Token_length dest: IH(2,3))
       (fastforce dest: IH(2,3))+
  moreover have "length r \<le> length ts" if "object_loop (Suc n) d seen ts = Some (Inr r)" for d seen ts r
    using that
    by (auto split: if_splits option.splits jtoken.splits sum.splits dest!: Token_length)
       (fastforce dest: IH(1,2))+
  moreover have "length r \<le> length ts" if "array_loop (Suc n) d ts = Some (Inr r)" for d ts r
    using that by (auto split: if_splits option.splits sum.splits) (fastforce dest: IH(1,3))
  ultimately show ?case by blast
qed simp

lemma fuel_enough:
  "(\<forall>d ts. 2 * length ts + 1 \<le> n \<longrightarrow> validateJSONValue n d ts \<noteq> None) \<and>
   (\<forall>d seen ts. 2 * length ts + 2 \<le> n \<longrightarrow> object_loop n d seen ts \<noteq> None) \<and>
   (\<forall>d ts. 2 * length ts + 2 \<le> n \<longrightarrow> array_loop n d ts \<noteq> None)"
proof (induction n)
  case (Suc n)
  have IH: "2 * length ts + 1 \<le> n \<Longrightarrow> validateJSONValue n d ts \<noteq> None"
    "2 * length ts + 2 \<le> n \<Longrightarrow> object_loop n d seen ts \<noteq> None"
    "2 * length ts + 2 \<le> n \<Longrightarrow> array_loop n d ts \<noteq> None" for d seen ts
    using Suc.IH by blast+
  have len: "validateJSONValue n d ts = Some (Inr r) \<Longrightarrow> length r < length ts" for d ts r
    using shape_consumes by blast
  have "validateJSONValue (Suc n) d ts \<noteq> None" if "2 * length ts + 1 \<le> Suc n" for d ts
  proof (cases "Token ts")
    case (Some tt)
    then obtain t ts1 where t: "Token ts = Some (t, ts1)" by (cases tt) auto
    with that have "2 * length ts1 + 2 \<le> n" by (auto dest: Token_length)
    then have "object_loop n d [] ts1 \<noteq> None" "array_loop n d ts1 \<noteq> None" by (rule IH)+
    then show ?thesis by (auto simp: t split: jtoken.splits sum.splits option.splits)
  qed simp
  moreover have "object_loop (Suc n) d seen ts \<noteq> None" if b: "2 * length ts + 2 \<le> Suc n" for d seen ts
  proof (cases "Token ts")
    case (Some tt)
    then obtain t ts1 where t: "Token ts = Some (t, ts1)" by (cases tt) auto
    then have l: "2 * length ts1 + 3 \<le> n" using b by (auto dest: Token_length)
    then have "validateJSONValue n (d + 1) ts1 \<noteq> None" by (intro IH) simp
    moreover have "object_loop n d sn r \<noteq> None" if "validateJSONValue n (d + 1) ts1 = Some (Inr r)" for sn r
      using len [OF that] l by (intro IH) simp
    ultimately show ?thesis by (auto simp: t split: jtoken.splits sum.splits option.splits)
  qed simp
  moreover have "array_loop (Suc n) d ts \<noteq> None" if b: "2 * length ts + 2 \<le> Suc n" for d ts
  proof -
    have "validateJSONValue n (d + 1) ts \<noteq> None" using b by (intro IH) simp
    moreover have "array_loop n d r \<noteq> None" if "validateJSONValue n (d + 1) ts = Some (Inr r)" for r
      using len [OF that] b by (intro IH) simp
    ultimately show ?thesis by (auto split: sum.splits option.splits)
  qed
  ultimately show ?case by blast
qed simp

text \<open>JSON documents, their token streams, nesting depth and freedom from repeated keys.\<close>

datatype jtree = Scalar | Text string | Arr "jtree list" | Obj "(string \<times> jtree) list"

fun toks :: "jtree \<Rightarrow> jtoken list" where
  "toks Scalar = [TScalar]"
| "toks (Text s) = [TString s]"
| "toks (Arr vs) = TDelim (CHR ''['') # concat (map toks vs) @ [TDelim (CHR '']'')]"
| "toks (Obj kvs) = TDelim (CHR ''{'') # concat (map (\<lambda>(k, v). TString k # toks v) kvs) @ [TDelim (CHR ''}'')]"

fun jdepth :: "jtree \<Rightarrow> nat" where
  "jdepth (Arr vs) = fold (\<lambda>v m. max (Suc (jdepth v)) m) vs 0"
| "jdepth (Obj kvs) = fold (\<lambda>(k, v) m. max (Suc (jdepth v)) m) kvs 0"
| "jdepth _ = 0"

fun unique_keys :: "jtree \<Rightarrow> bool" where
  "unique_keys (Arr vs) = (\<forall>v\<in>set vs. unique_keys v)"
| "unique_keys (Obj kvs) = (distinct (map fst kvs) \<and> (\<forall>(k, v)\<in>set kvs. unique_keys v))"
| "unique_keys _ = True"

lemma fold_max_le: "fold (\<lambda>v m. max (f v) m) vs b \<le> (c::nat) \<longleftrightarrow> b \<le> c \<and> (\<forall>v\<in>set vs. f v \<le> c)"
  by (induction vs arbitrary: b) auto

definition shape_ok :: "nat \<Rightarrow> jtree \<Rightarrow> bool" where
  "shape_ok d v \<longleftrightarrow> d + jdepth v \<le> maxIdentityJSONDepth \<and> unique_keys v"

lemma jdepth_le_iff: "d + m \<le> D \<longleftrightarrow> d \<le> D \<and> m \<le> D - d" for d m D :: nat
  by auto

lemma shape_ok_simps:
  "shape_ok d Scalar \<longleftrightarrow> d \<le> maxIdentityJSONDepth"
  "shape_ok d (Text s) \<longleftrightarrow> d \<le> maxIdentityJSONDepth"
  "shape_ok d (Arr vs) \<longleftrightarrow> d \<le> maxIdentityJSONDepth \<and> (\<forall>v\<in>set vs. shape_ok (d + 1) v)"
  "shape_ok d (Obj kvs) \<longleftrightarrow> d \<le> maxIdentityJSONDepth \<and> distinct (map fst kvs) \<and>
     (\<forall>(k, v)\<in>set kvs. shape_ok (d + 1) v)"
proof -
  have "jdepth (Obj kvs) \<le> c \<longleftrightarrow> (\<forall>(k, v)\<in>set kvs. Suc (jdepth v) \<le> c)" for c
    using fold_max_le [of "\<lambda>kv. Suc (jdepth (snd kv))" kvs 0 c] by (simp add: split_def)
  then show "shape_ok d (Obj kvs) \<longleftrightarrow> d \<le> maxIdentityJSONDepth \<and> distinct (map fst kvs) \<and>
      (\<forall>(k, v)\<in>set kvs. shape_ok (d + 1) v)"
    unfolding shape_ok_def jdepth_le_iff by fastforce
  have "jdepth (Arr vs) \<le> c \<longleftrightarrow> (\<forall>v\<in>set vs. Suc (jdepth v) \<le> c)" for c
    using fold_max_le [of "\<lambda>v. Suc (jdepth v)" vs 0 c] by simp
  then show "shape_ok d (Arr vs) \<longleftrightarrow> d \<le> maxIdentityJSONDepth \<and> (\<forall>v\<in>set vs. shape_ok (d + 1) v)"
    unfolding shape_ok_def jdepth_le_iff by fastforce
qed (simp_all add: shape_ok_def)

text \<open>What a run of the pass over the tokens of a document returns.\<close>

definition runs :: "bool \<Rightarrow> (identityError + jtoken list) option \<Rightarrow> jtoken list \<Rightarrow> bool" where
  "runs ok res rest \<longleftrightarrow> (if ok then res = Some (Inr rest) else \<exists>e. res = Some (Inl e))"

lemma toks_start: "\<exists>t ts. toks v = t # ts \<and> t \<noteq> TError \<and> More (toks v @ rest)"
  by (cases v) (auto simp: More_def)

lemma array_loop_runs:
  assumes IH: "\<And>v n d rest. v \<in> set vs \<Longrightarrow> 2 * length (toks v) \<le> n \<Longrightarrow>
      runs (shape_ok d v) (validateJSONValue n d (toks v @ rest)) rest"
    and "2 * length (concat (map toks vs)) + 1 \<le> n"
  shows "runs (\<forall>v\<in>set vs. shape_ok (d + 1) v)
     (array_loop n d (concat (map toks vs) @ TDelim (CHR '']'') # rest)) (TDelim (CHR '']'') # rest)"
  using assms
proof (induction vs arbitrary: n)
  case Nil
  then obtain m where "n = Suc m" by (cases n) auto
  then show ?case by (simp add: runs_def More_def)
next
  case (Cons v vs)
  then obtain m where n: "n = Suc m" by (cases n) auto
  let ?tail = "concat (map toks vs) @ TDelim (CHR '']'') # rest"
  have len: "1 \<le> length (toks v)" by (cases v) auto
  have v: "runs (shape_ok (d + 1) v) (validateJSONValue m (d + 1) (toks v @ ?tail)) ?tail"
    using Cons.prems(2) n by (intro Cons.prems(1)) auto
  have vs: "runs (\<forall>v\<in>set vs. shape_ok (d + 1) v) (array_loop m d ?tail) (TDelim (CHR '']'') # rest)"
    using Cons.prems n len by (intro Cons.IH) auto
  have "More (toks v @ ?tail)" using toks_start by blast
  then show ?case using v vs by (auto simp: n runs_def split: if_splits)
qed

lemma object_loop_runs:
  assumes IH: "\<And>k v n d rest. (k, v) \<in> set kvs \<Longrightarrow> 2 * length (toks v) \<le> n \<Longrightarrow>
      runs (shape_ok d v) (validateJSONValue n d (toks v @ rest)) rest"
    and "2 * length (concat (map (\<lambda>(k, v). TString k # toks v) kvs)) + 1 \<le> n"
  shows "runs (distinct (map fst kvs) \<and> set (map fst kvs) \<inter> set seen = {} \<and> (\<forall>(k, v)\<in>set kvs. shape_ok (d + 1) v))
     (object_loop n d seen (concat (map (\<lambda>(k, v). TString k # toks v) kvs) @ TDelim (CHR ''}'') # rest))
     (TDelim (CHR ''}'') # rest)"
  using assms
proof (induction kvs arbitrary: n seen)
  case Nil
  then obtain m where "n = Suc m" by (cases n) auto
  then show ?case by (simp add: runs_def More_def)
next
  case (Cons kv kvs)
  obtain k v where kv: "kv = (k, v)" by (cases kv)
  obtain m where n: "n = Suc m" using Cons.prems by (cases n) auto
  let ?tail = "concat (map (\<lambda>(k, v). TString k # toks v) kvs) @ TDelim (CHR ''}'') # rest"
  have v: "runs (shape_ok (d + 1) v) (validateJSONValue m (d + 1) (toks v @ ?tail)) ?tail"
    using Cons.prems(2) n kv by (intro Cons.prems(1)) auto
  have kvs: "runs (distinct (map fst kvs) \<and> set (map fst kvs) \<inter> set (k # seen) = {} \<and>
      (\<forall>(k, v)\<in>set kvs. shape_ok (d + 1) v)) (object_loop m d (k # seen) ?tail) (TDelim (CHR ''}'') # rest)"
  proof (rule Cons.IH)
    show "runs (shape_ok d v) (validateJSONValue n d (toks v @ rest)) rest"
      if "(k, v) \<in> set kvs" "2 * length (toks v) \<le> n" for k v n d rest
      using that by (intro Cons.prems(1)) auto
    show "2 * length (concat (map (\<lambda>(k, v). TString k # toks v) kvs)) + 1 \<le> m"
      using Cons.prems(2) n kv by simp
  qed
  have step: "object_loop n d seen (TString k # toks v @ ?tail) =
      (if k \<in> set seen then Some (Inl errIdentityDuplicateKey)
       else case validateJSONValue m (d + 1) (toks v @ ?tail) of
              None \<Rightarrow> None | Some (Inl e) \<Rightarrow> Some (Inl e) | Some (Inr ts2) \<Rightarrow> object_loop m d (k # seen) ts2)"
    by (simp add: n More_def Token_def)
  have "runs (k \<notin> set seen \<and> shape_ok (d + 1) v \<and> distinct (map fst kvs) \<and> set (map fst kvs) \<inter> set (k # seen) = {} \<and>
      (\<forall>(k, v)\<in>set kvs. shape_ok (d + 1) v)) (object_loop n d seen (TString k # toks v @ ?tail)) (TDelim (CHR ''}'') # rest)"
    using v kvs unfolding step by (auto simp: runs_def split: if_splits)
  moreover have "(k \<notin> set seen \<and> shape_ok (d + 1) v \<and> distinct (map fst kvs) \<and> set (map fst kvs) \<inter> set (k # seen) = {} \<and>
      (\<forall>(k, v)\<in>set kvs. shape_ok (d + 1) v)) \<longleftrightarrow>
      distinct (map fst (kv # kvs)) \<and> set (map fst (kv # kvs)) \<inter> set seen = {} \<and> (\<forall>(k, v)\<in>set (kv # kvs). shape_ok (d + 1) v)"
    by (auto simp: kv)
  ultimately show ?case by (simp add: kv)
qed

lemma validateJSONValue_runs:
  "2 * length (toks v) \<le> n \<Longrightarrow> runs (shape_ok d v) (validateJSONValue n d (toks v @ rest)) rest"
proof (induction v arbitrary: n d rest)
  case (Arr vs)
  then obtain m where n: "n = Suc m" by (cases n) auto
  have "runs (\<forall>v\<in>set vs. shape_ok (d + 1) v)
     (array_loop m d (concat (map toks vs) @ TDelim (CHR '']'') # rest)) (TDelim (CHR '']'') # rest)"
    using Arr.prems n by (intro array_loop_runs Arr.IH) auto
  then show ?case by (auto simp: n runs_def shape_ok_simps Token_def split: if_splits)
next
  case (Obj kvs)
  then obtain m where n: "n = Suc m" by (cases n) auto
  have "runs (distinct (map fst kvs) \<and> set (map fst kvs) \<inter> set [] = {} \<and> (\<forall>(k, v)\<in>set kvs. shape_ok (d + 1) v))
     (object_loop m d [] (concat (map (\<lambda>(k, v). TString k # toks v) kvs) @ TDelim (CHR ''}'') # rest))
     (TDelim (CHR ''}'') # rest)"
    using Obj.prems n by (intro object_loop_runs) (auto intro!: Obj.IH)
  then show ?case by (auto simp: n runs_def shape_ok_simps Token_def split: if_splits)
next
  case Scalar
  then obtain m where "n = Suc m" by (cases n) auto
  then show ?case by (simp add: runs_def shape_ok_simps Token_def)
next
  case (Text x)
  then obtain m where "n = Suc m" by (cases n) auto
  then show ?case by (simp add: runs_def shape_ok_simps Token_def)
qed

section \<open>Properties\<close>

lemma has_duplicate_iff: "has_duplicate seen gs \<longleftrightarrow> \<not> distinct gs \<or> set gs \<inter> set seen \<noteq> {}"
  by (induction gs arbitrary: seen) auto

definition bounded_claims :: "verifiedClaims \<Rightarrow> bool" where
  "bounded_claims cl \<longleftrightarrow>
     nonEmptyBoundedString (cl_Issuer cl) 2048 \<and> nonEmptyBoundedString (cl_Subject cl) 256 \<and>
     nonEmptyBoundedString (cl_AuthorizedParty cl) 256 \<and>
     length (cl_Name cl) \<le> 256 \<and> length (cl_GivenName cl) \<le> 256 \<and> length (cl_FamilyName cl) \<le> 256 \<and>
     length (cl_PreferredUsername cl) \<le> 256 \<and> length (cl_Email cl) \<le> 320 \<and>
     audiences_of cl \<noteq> [] \<and> length (audiences_of cl) \<le> maxAudiences \<and>
     length (cl_Groups cl) \<le> maxIdentityGroups \<and> list_all (\<lambda>g. nonEmptyBoundedString g 256) (cl_Groups cl)"

definition organization_claims :: "libs \<Rightarrow> verifiedClaims \<Rightarrow> bool" where
  "organization_claims L cl \<longleftrightarrow>
     (if cl_orgIDPresent cl
      then uuidParse L (cl_OrgID cl) = Some (cl_OrgID cl) \<and> distinct (cl_Groups cl) \<and>
           length (cl_OrgName cl) \<le> 256 \<and> length (cl_Roles cl) \<le> maxOrganizationRoles \<and>
           list_all (\<lambda>r. nonEmptyBoundedString r 128) (cl_Roles cl)
      else \<not> cl_orgNamePresent cl \<and> \<not> cl_rolesPresent cl)"

lemma validateOrganizationClaims_None_iff: "validateOrganizationClaims L cl = None \<longleftrightarrow> organization_claims L cl"
  by (auto simp: validateOrganizationClaims_def organization_claims_def has_duplicate_iff
      optionalBoundedString_def list_all_iff)

lemma validate_None_iff:
  "validate L identity = None \<longleftrightarrow>
     id_Source identity = ''oidc'' \<and> bounded_claims (id_Claims identity) \<and>
     (aud_Value (cl_Audience (id_Claims identity)) = [] \<or> aud_Items (cl_Audience (id_Claims identity)) = []) \<and>
     list_all (\<lambda>a. nonEmptyBoundedString a 256) (audiences_of (id_Claims identity)) \<and>
     organization_claims L (id_Claims identity)"
proof -
  have opt: "optionalBoundedString v n \<longleftrightarrow> length v \<le> n" for v n by (auto simp: optionalBoundedString_def)
  show ?thesis
    by (auto simp: validate_def bounded_claims_def validateOrganizationClaims_None_iff opt list_all_iff Let_def
        audiences_of_def split: if_splits)
qed

text \<open>An accepted identity envelope is at most 16 KiB long, comes from the OIDC source, and
  its claims are exactly within the bounds: required claims present, every claim bounded,
  exactly one audience representation, and organization data (name, roles) only together
  with a canonical organization UUID, in which case the groups are distinct.\<close>

theorem ParseIdentityEnvelope_sound:
  assumes "ParseIdentityEnvelope L J value = Inr identity"
  shows "length value \<le> MaxIdentityEnvelopeBytes \<and> validateJSONShape (jd_tokens J value) = None \<and>
     id_Source identity = ''oidc'' \<and> bounded_claims (id_Claims identity) \<and>
     (aud_Value (cl_Audience (id_Claims identity)) = [] \<or> aud_Items (cl_Audience (id_Claims identity)) = []) \<and>
     organization_claims L (id_Claims identity) \<and>
     (\<exists>raw. jd_envelope J value = Some (''oidc'', raw) \<and> fst ` set raw \<subseteq> set allowedClaims \<and>
        (cl_rolesPresent (id_Claims identity) \<longleftrightarrow> map_of raw ''roles'' \<noteq> None) \<and>
        (cl_orgIDPresent (id_Claims identity) \<longleftrightarrow> map_of raw ''org_id'' \<noteq> None))"
proof -
  have v: "validate L identity = None" and len: "length value \<le> MaxIdentityEnvelopeBytes"
    and shape: "validateJSONShape (jd_tokens J value) = None"
    using assms by (auto simp: ParseIdentityEnvelope_def split: if_splits option.splits)
  obtain src raw claims where env: "jd_envelope J value = Some (src, raw)" "UnmarshalJSON J raw = Some claims"
    "identity = \<lparr>id_Source = src, id_Claims = claims\<rparr>"
    using assms by (auto simp: ParseIdentityEnvelope_def split: if_splits option.splits)
  have "fst ` set raw \<subseteq> set allowedClaims" "cl_rolesPresent claims \<longleftrightarrow> map_of raw ''roles'' \<noteq> None"
    "cl_orgIDPresent claims \<longleftrightarrow> map_of raw ''org_id'' \<noteq> None"
    using env(2) by (auto simp: UnmarshalJSON_def split: if_splits option.splits)
  moreover have "src = ''oidc''" using v env(3) by (simp add: validate_None_iff)
  ultimately show ?thesis using v len shape env by (auto simp: validate_None_iff)
qed

text \<open>C24. The shape pass accepts the tokens of a document exactly when no value is nested more
  than six levels deep and no object repeats a key. It does not look at which keys there
  are.\<close>

theorem validateJSONShape_iff:
  "validateJSONShape (toks v) = None \<longleftrightarrow> jdepth v \<le> maxIdentityJSONDepth \<and> unique_keys v"
  using validateJSONValue_runs [of v "shape_fuel (toks v)" 0 "[]"]
  by (auto simp: validateJSONShape_def runs_def shape_ok_def shape_fuel_def split: if_splits)

text \<open>C25. The walk over any token stream ends with a verdict, well formed or not.\<close>

theorem validateJSONShape_terminates:
  "\<exists>r. validateJSONValue (shape_fuel ts) 0 ts = Some r"
proof -
  have "2 * length ts + 1 \<le> shape_fuel ts" by (simp add: shape_fuel_def)
  then have "validateJSONValue (shape_fuel ts) 0 ts \<noteq> None" using fuel_enough by blast
  then show ?thesis by simp
qed

lemma setUserContext_Inr:
  assumes "setUserContextFromVerifiedIdentity tenant c (Some identity) = Inr c'"
  shows "\<exists>user. cx_user c' = Some user \<and> uc_Tenant user = tenant \<and>
     uc_OrganizationID user = cl_OrgID (id_Claims identity) \<and>
     uc_Username user \<in> {cl_PreferredUsername (id_Claims identity), cl_Subject (id_Claims identity)} \<and>
     (\<forall>g\<in>set (uc_Groups user). g = ''system:authenticated'' \<or>
        (\<exists>h\<in>set (cl_Groups (id_Claims identity)). Valid h \<and>
           g = (if cl_OrgID (id_Claims identity) = [] then h else cl_OrgID (id_Claims identity) @ ''/'' @ h)))"
  using assms
  by (auto simp: setUserContextFromVerifiedIdentity_def QualifiedGroups_def Let_def AllValid_def list_all_iff
      split: if_splits)

text \<open>C23. When the identity header is present, nothing else can supply an identity: the request
  is refused unless there is exactly one value and it is an accepted envelope, and then
  user name, organization and groups come from its claims and the tenant from the
  deployment; groups of an identity with an organization are all qualified by it (besides
  the fixed authenticated group). The user name, group and organization headers are not
  consulted, with either variant of the user middleware.\<close>

theorem verified_identity_authoritative:
  assumes "cx_Identity c \<noteq> []"
    and "bind_res (ExtractVerifiedIdentityOptional L J c) extract = Inr c'"
    and "extract = ExtractUserInfo J tenant \<or> extract = ExtractUserInfoOptional J tenant"
  shows "\<exists>value identity user. cx_Identity c = [value] \<and> ParseIdentityEnvelope L J value = Inr identity \<and>
     cx_user c' = Some user \<and> uc_Tenant user = tenant \<and>
     uc_OrganizationID user = cl_OrgID (id_Claims identity) \<and>
     uc_Username user \<in> {cl_PreferredUsername (id_Claims identity), cl_Subject (id_Claims identity)} \<and>
     (\<forall>g\<in>set (uc_Groups user). g = ''system:authenticated'' \<or>
        (\<exists>h\<in>set (cl_Groups (id_Claims identity)). Valid h \<and>
           g = (if cl_OrgID (id_Claims identity) = [] then h else cl_OrgID (id_Claims identity) @ ''/'' @ h)))"
proof -
  from assms(1) obtain v rest where vs: "cx_Identity c = v # rest" by (cases "cx_Identity c") auto
  from assms(2) obtain c1 where c1: "ExtractVerifiedIdentityOptional L J c = Inr c1" "extract c1 = Inr c'"
    by (auto simp: bind_res_eq_Inr_iff)
  from c1(1) have rest: "rest = []" and ne: "v \<noteq> []"
    by (auto simp: ExtractVerifiedIdentityOptional_def validateOptionalIdentityHeaders_def vs split: if_splits)
  from c1(1) obtain identity where id: "ParseIdentityEnvelope L J v = Inr identity"
    "c1 = c\<lparr>cx_verified := Some (Some identity)\<rparr>"
    by (auto simp: ExtractVerifiedIdentityOptional_def validateOptionalIdentityHeaders_def vs rest ne header_first_def
        split: sum.splits)
  have "setUserContextFromVerifiedIdentity tenant c1 (Some identity) = Inr c'"
    using c1(2) assms(3) id(2) by (auto simp: ExtractUserInfo_def ExtractUserInfoOptional_def)
  from setUserContext_Inr [OF this] show ?thesis using vs rest id(1) by blast
qed

section \<open>Witnesses\<close>

definition ex_claims :: verifiedClaims where
  "ex_claims = \<lparr>cl_Issuer = ''https://idp'', cl_Subject = ''s1'', cl_Audience = \<lparr>aud_Value = ''maas'', aud_Items = []\<rparr>,
     cl_AuthorizedParty = ''cli'', cl_Name = [], cl_GivenName = [], cl_FamilyName = [],
     cl_PreferredUsername = ''ann'', cl_Email = [], cl_Groups = [''eng''], cl_OrgID = ''o1'', cl_OrgName = [],
     cl_Roles = [''admins''], cl_orgIDPresent = False, cl_orgNamePresent = False, cl_rolesPresent = False\<rparr>"

definition ex_decoder :: jsonDecoder where
  "ex_decoder = \<lparr>jd_tokens = (\<lambda>_. toks (Obj [(''source'', Text ''oidc''), (''claims'', Obj [(''iss'', Text ''i'')])])),
     jd_envelope = (\<lambda>_. Some (''oidc'', [(''org_id'', JStr ''o1''), (''roles'', JArr [JStr ''admins''])])),
     jd_claims = (\<lambda>_. Some ex_claims), jd_strings = (\<lambda>_. None)\<rparr>"

definition ex_identity :: verifiedIdentity where
  "ex_identity = \<lparr>id_Source = ''oidc'', id_Claims = ex_claims\<lparr>cl_orgIDPresent := True, cl_rolesPresent := True\<rparr>\<rparr>"

lemma ex_identity_parsed: "ParseIdentityEnvelope example_libs ex_decoder ''{}'' = Inr ex_identity"
  by code_simp

theorem ParseIdentityEnvelope_sound_witness:
  "id_Source ex_identity = ''oidc'' \<and> organization_claims example_libs (id_Claims ex_identity)"
  using ParseIdentityEnvelope_sound [OF ex_identity_parsed] by blast

definition ex_context :: ginContext where
  "ex_context = \<lparr>cx_Identity = [''{}''], cx_Authorization = [], cx_XApiKey = [], cx_Username = ''mallory'',
     cx_Group = ''[root]'', cx_OrganizationID = ''o2'', cx_verified = None, cx_user = None\<rparr>"

theorem verified_identity_authoritative_witness:
  "\<exists>c' user. bind_res (ExtractVerifiedIdentityOptional example_libs ex_decoder ex_context)
       (ExtractUserInfo ex_decoder ''t'') = Inr c' \<and>
     cx_user c' = Some user \<and> uc_OrganizationID user = ''o1'' \<and> uc_Groups user = [''system:authenticated'', ''o1/eng'']"
proof -
  have "case bind_res (ExtractVerifiedIdentityOptional example_libs ex_decoder ex_context)
      (ExtractUserInfo ex_decoder ''t'') of Inl _ \<Rightarrow> False
      | Inr c' \<Rightarrow> map_option uc_Groups (cx_user c') = Some [''system:authenticated'', ''o1/eng'']" by code_simp
  then obtain c' user where c': "bind_res (ExtractVerifiedIdentityOptional example_libs ex_decoder ex_context)
      (ExtractUserInfo ex_decoder ''t'') = Inr c'" "cx_user c' = Some user"
    "uc_Groups user = [''system:authenticated'', ''o1/eng'']"
    by (auto split: sum.splits)
  have "cx_Identity ex_context \<noteq> []" by (simp add: ex_context_def)
  from verified_identity_authoritative [OF this c'(1) disjI1 [OF refl]]
  have "uc_OrganizationID user = ''o1''"
    using c'(2) ex_identity_parsed by (auto simp: ex_context_def ex_identity_def ex_claims_def)
  with c' show ?thesis by blast
qed

end
