(* ===== verification/KeyFormat.thy ===== *)
theory KeyFormat
  imports TokenIdentity
begin

text \<open>
  The format of an API key, \<open>sk-oai-{key_id}_{secret}\<close>: \<open>keygen.go\<close> of
  \<open>maas-api/internal/api_keys\<close>. The bytes that \<open>crypto/rand\<close> returns are arguments of
  \<open>GenerateAPIKey\<close>, SHA-256 in hex is the field \<open>sha256hex\<close> of the libraries. The lemmas
  show that base62 encoding keeps the number it encodes, that a generated key parses back
  to its parts and validates against its hash, and that the salted hash of two different
  keys agrees only where SHA-256 itself collides.
\<close>

named_theorems key_format "facts on the format of API keys"

subsection \<open>Definitions\<close>

definition KeyPrefix :: string where
  "KeyPrefix = APIKeyPrefix"

definition KeyIDSeparator :: char where
  "KeyIDSeparator = CHR ''_''"

definition keyIDBytes :: nat where
  "keyIDBytes = 12"

definition entropyBytes :: nat where
  "entropyBytes = 32"

definition displayPrefixLength :: nat where
  "displayPrefixLength = 12"

definition alphabet :: string where
  "alphabet = ''0123456789ABCDEFGHIJKLMNOPQRSTUVWXYZabcdefghijklmnopqrstuvwxyz''"

text \<open>\<open>big.Int.SetBytes\<close>: the big-endian value of a byte slice.\<close>

definition SetBytes :: "8 word list \<Rightarrow> nat" where
  "SetBytes data = foldl (\<lambda>n b. 256 * n + unat b) 0 data"

fun base62_loop :: "nat \<Rightarrow> string \<Rightarrow> string" where
  "base62_loop n result =
     (if 0 < n then base62_loop (n div 62) (alphabet ! (n mod 62) # result) else result)"

declare base62_loop.simps [simp del]

definition encodeBase62 :: "8 word list \<Rightarrow> string" where
  "encodeBase62 data =
     (let result = base62_loop (SetBytes data) []
      in if length result = 0 then [alphabet ! 0] else result)"

definition base62_char :: "char \<Rightarrow> bool" where
  "base62_char c \<longleftrightarrow>
     \<not> ((c < CHR ''0'' \<or> c > CHR ''9'') \<and> (c < CHR ''A'' \<or> c > CHR ''Z'') \<and> (c < CHR ''a'' \<or> c > CHR ''z''))"

definition isBase62 :: "string \<Rightarrow> bool" where
  "isBase62 s = list_all base62_char s"

definition hashWithSalt :: "libs \<Rightarrow> string \<Rightarrow> string \<Rightarrow> string" where
  "hashWithSalt L keyID secret = sha256hex L (keyID @ [CHR 0x00] @ secret)"

datatype keyError = InvalidKeyPrefix | MissingSeparator | EmptyPart | EntropyFailed string

definition ParseAPIKey :: "string \<Rightarrow> keyError + string \<times> string" where
  "ParseAPIKey key =
     (if \<not> HasPrefix key KeyPrefix then Inl InvalidKeyPrefix
      else case SplitN2 KeyIDSeparator (drop (length KeyPrefix) key) of
        [keyID, secret] \<Rightarrow>
          if keyID = [] \<or> secret = [] then Inl EmptyPart else Inr (keyID, secret)
      | _ \<Rightarrow> Inl MissingSeparator)"

definition ValidateAPIKeyHash :: "libs \<Rightarrow> string \<Rightarrow> string \<Rightarrow> bool" where
  "ValidateAPIKeyHash L key storedHash =
     (case ParseAPIKey key of Inl _ \<Rightarrow> False
      | Inr (keyID, secret) \<Rightarrow> hashWithSalt L keyID secret = storedHash)"

definition HashAPIKey :: "libs \<Rightarrow> string \<Rightarrow> string" where
  "HashAPIKey L key =
     (case ParseAPIKey key of Inl _ \<Rightarrow> []
      | Inr (keyID, secret) \<Rightarrow> hashWithSalt L keyID secret)"

definition IsValidKeyFormat :: "string \<Rightarrow> bool" where
  "IsValidKeyFormat key =
     (if \<not> HasPrefix key KeyPrefix then False
      else case SplitN2 KeyIDSeparator (drop (length KeyPrefix) key) of
        [keyID, secret] \<Rightarrow>
          if keyID = [] \<or> secret = [] then False
          else if \<not> isBase62 keyID then False
          else if \<not> isBase62 secret then False
          else True
      | _ \<Rightarrow> False)"

text \<open>
  The result is \<open>(plaintext, hash, prefix)\<close>. The two arguments are what the two calls of
  \<open>rand.Read\<close> give: an error, or the bytes of the slice they fill.
\<close>

definition GenerateAPIKey ::
    "libs \<Rightarrow> string + 8 word list \<Rightarrow> string + 8 word list \<Rightarrow> keyError + string \<times> string \<times> string" where
  "GenerateAPIKey L readKeyID readSecret =
     (case readKeyID of Inl e \<Rightarrow> Inl (EntropyFailed e)
      | Inr keyIDEntropy \<Rightarrow>
        (let keyID = encodeBase62 keyIDEntropy
         in case readSecret of Inl e \<Rightarrow> Inl (EntropyFailed e)
            | Inr secretEntropy \<Rightarrow>
              (let secret = encodeBase62 secretEntropy;
                   plaintext = KeyPrefix @ keyID @ [KeyIDSeparator] @ secret;
                   hash = hashWithSalt L keyID secret;
                   prefix = (if displayPrefixLength \<le> length keyID
                             then KeyPrefix @ take displayPrefixLength keyID @ ''...''
                             else KeyPrefix @ keyID @ ''...'')
               in Inr (plaintext, hash, prefix))))"

subsection \<open>Base62\<close>

text \<open>The number a base62 string stands for, most significant digit first.\<close>

definition digit62 :: "char \<Rightarrow> nat" where
  "digit62 c = (let n = of_char c :: nat in
     if n \<le> 57 then n - 48 else if n \<le> 90 then n - 55 else n - 61)"

definition value62 :: "string \<Rightarrow> nat" where
  "value62 s = foldl (\<lambda>n c. 62 * n + digit62 c) 0 s"

lemma alphabet_facts:
  "length alphabet = 62"
  "map digit62 alphabet = [0..<62]"
  "list_all base62_char alphabet"
  by (simp_all add: alphabet_def digit62_def base62_char_def upt_rec less_char_def)

lemma digit62_alphabet [simp]: "d < 62 \<Longrightarrow> digit62 (alphabet ! d) = d"
  using alphabet_facts by (metis add_0 nth_map nth_upt)

lemma base62_alphabet [simp]: "d < 62 \<Longrightarrow> base62_char (alphabet ! d)"
  using alphabet_facts by (simp add: list_all_length)

lemma foldl_value62: "foldl (\<lambda>n c. 62 * n + digit62 c) k s = k * 62 ^ length s + value62 s"
proof (induction s rule: rev_induct)
  case (snoc c s)
  then show ?case by (simp add: value62_def algebra_simps)
qed (simp add: value62_def)

lemma value62_append: "value62 (s @ t) = value62 s * 62 ^ length t + value62 t"
  using foldl_value62 [of "value62 s" t] by (simp add: value62_def)

text \<open>The loop prepends the digits of its number, without leading zeros.\<close>

lemma base62_loop_split: "base62_loop n r = base62_loop n [] @ r"
proof (induction n arbitrary: r rule: less_induct)
  case (less n)
  show ?case
  proof (cases "0 < n")
    case True
    then have "n div 62 < n" by simp
    have "base62_loop n r = base62_loop (n div 62) (alphabet ! (n mod 62) # r)"
      using True by (simp add: base62_loop.simps [of n])
    also have "\<dots> = base62_loop (n div 62) [] @ alphabet ! (n mod 62) # r"
      by (rule less.IH) fact
    also have "\<dots> = base62_loop (n div 62) [alphabet ! (n mod 62)] @ r"
      using less.IH [OF \<open>n div 62 < n\<close>, of "[alphabet ! (n mod 62)]"] by simp
    also have "\<dots> = base62_loop n [] @ r"
      using True by (simp add: base62_loop.simps [of n "[]"])
    finally show ?thesis .
  qed (simp add: base62_loop.simps)
qed

lemma base62_loop_step:
  "0 < n \<Longrightarrow> base62_loop n [] = base62_loop (n div 62) [] @ [alphabet ! (n mod 62)]"
  using base62_loop_split [of "n div 62" "[alphabet ! (n mod 62)]"] by (simp add: base62_loop.simps [of n])

lemma base62_loop_0 [simp]: "base62_loop 0 r = r"
  by (simp add: base62_loop.simps)

lemma base62_loop_value: "value62 (base62_loop n []) = n"
proof (induction n rule: less_induct)
  case (less n)
  show ?case
  proof (cases "0 < n")
    case True
    then show ?thesis
      using less.IH [of "n div 62"] by (simp add: base62_loop_step value62_append) (simp add: value62_def)
  qed (simp add: value62_def)
qed

lemma base62_loop_chars: "isBase62 (base62_loop n [])"
proof (induction n rule: less_induct)
  case (less n)
  then show ?case
    by (cases "0 < n") (simp_all add: base62_loop_step isBase62_def)
qed

lemma base62_loop_Nil_iff [simp]: "base62_loop n [] = [] \<longleftrightarrow> n = 0"
  by (cases "0 < n") (auto simp: base62_loop_step)

lemma base62_loop_length: "n < 62 ^ k \<Longrightarrow> length (base62_loop n []) \<le> k"
proof (induction k arbitrary: n)
  case (Suc k)
  then have "n div 62 < 62 ^ k" by (simp add: less_mult_imp_div_less mult.commute)
  then show ?case using Suc.IH [of "n div 62"] by (cases "0 < n") (simp_all add: base62_loop_step)
qed simp

lemma encodeBase62_value: "value62 (encodeBase62 data) = SetBytes data"
proof (cases "SetBytes data = 0")
  case True
  then show ?thesis using digit62_alphabet [of 0] by (simp add: encodeBase62_def value62_def)
next
  case False
  then show ?thesis by (simp add: encodeBase62_def base62_loop_value)
qed

lemma encodeBase62_base62 [key_format]: "isBase62 (encodeBase62 data)"
  using base62_loop_chars [of "SetBytes data"] base62_alphabet [of 0]
  by (simp add: encodeBase62_def Let_def isBase62_def)

lemma encodeBase62_nonempty [key_format]: "encodeBase62 data \<noteq> []"
  by (simp add: encodeBase62_def Let_def)

lemma SetBytes_snoc: "SetBytes (data @ [b]) = 256 * SetBytes data + unat b"
  by (simp add: SetBytes_def)

lemma unat_byte: "unat (b :: 8 word) < 256"
  using unsigned_less [of b, where 'a = nat] by simp

lemma SetBytes_bound: "SetBytes data < 256 ^ length data"
proof (induction data rule: rev_induct)
  case (snoc b data)
  then have "256 * SetBytes data + 256 \<le> 256 * 256 ^ length data" by simp
  then show ?case using unat_byte [of b] by (simp add: SetBytes_snoc)
qed (simp add: SetBytes_def)

lemma SetBytes_inj:
  assumes "length d = length d'" and "SetBytes d = SetBytes d'"
  shows "d = d'"
  using assms
proof (induction d d' rule: rev_induct2)
  case (4 x xs y ys)
  then have eq: "256 * SetBytes xs + unat x = 256 * SetBytes ys + unat y" by (simp add: SetBytes_snoc)
  from arg_cong [OF this, of "\<lambda>n. n div 256"] have "SetBytes xs = SetBytes ys"
    using unat_byte [of x] unat_byte [of y] by simp
  moreover from this eq have "x = y" by (simp add: unsigned_word_eqI)
  ultimately show ?case using 4 by simp
qed auto

text \<open>
  Base62 encoding is exact: read back digit by digit, \<open>encodeBase62 data\<close> is the
  big-endian number of \<open>data\<close>; it is a non-empty base62 string, of at most 17 characters for
  the 12 bytes of a key id and of at most 43 for the 32 bytes of a secret; and two byte
  slices of the same length have the same encoding only if they are equal, so no entropy
  is lost. Fewer than 12 characters are possible: twelve zero bytes give \<open>"0"\<close>.
\<close>

theorem encodeBase62_exact:
  "value62 (encodeBase62 data) = SetBytes data \<and>
   isBase62 (encodeBase62 data) \<and> encodeBase62 data \<noteq> [] \<and>
   (length data = keyIDBytes \<longrightarrow> length (encodeBase62 data) \<le> 17) \<and>
   (length data = entropyBytes \<longrightarrow> length (encodeBase62 data) \<le> 43) \<and>
   (length data = length data' \<longrightarrow> encodeBase62 data = encodeBase62 data' \<longrightarrow> data = data') \<and>
   encodeBase62 (replicate keyIDBytes 0) = ''0''"
proof -
  have len: "length (encodeBase62 data) \<le> k" if "(256::nat) ^ length data \<le> 62 ^ k" and "1 \<le> k" for k
    using base62_loop_length [of "SetBytes data" k] SetBytes_bound [of data] that
    by (simp add: encodeBase62_def Let_def)
  have inj: "data = data'" if "length data = length data'" "encodeBase62 data = encodeBase62 data'"
    using SetBytes_inj [OF that(1)] that(2) encodeBase62_value [of data] encodeBase62_value [of data'] by simp
  have zero: "encodeBase62 (replicate keyIDBytes 0) = ''0''"
    by (simp add: encodeBase62_def SetBytes_def keyIDBytes_def alphabet_def eval_nat_numeral)
  show ?thesis
    using encodeBase62_value encodeBase62_base62 encodeBase62_nonempty len [of 17] len [of 43] inj zero
    by (simp add: keyIDBytes_def entropyBytes_def)
qed

theorem encodeBase62_exact_witness:
  "length (encodeBase62 (replicate 12 255)) \<le> 17 \<and> length (encodeBase62 (replicate 32 255)) \<le> 43 \<and>
   encodeBase62 [1, 2] = ''4A'' \<and> encodeBase62 [0, 1] \<noteq> encodeBase62 [1, 0]"
proof -
  have "length (encodeBase62 (replicate 12 255)) \<le> 17"
    using encodeBase62_exact [of "replicate 12 255" "[]"] by (simp add: keyIDBytes_def)
  moreover have "length (encodeBase62 (replicate 32 255)) \<le> 43"
    using encodeBase62_exact [of "replicate 32 255" "[]"] by (simp add: entropyBytes_def)
  moreover have "encodeBase62 [0, 1] \<noteq> encodeBase62 [1, 0]"
    using encodeBase62_exact [of "[0, 1]" "[1, 0]"] by auto
  moreover have "encodeBase62 [1, 2] = ''4A''"
    by (simp add: encodeBase62_def SetBytes_def base62_loop.simps alphabet_def)
  ultimately show ?thesis by simp
qed

subsection \<open>Parsing and hashing\<close>

lemma separator_not_base62: "isBase62 s \<Longrightarrow> KeyIDSeparator \<notin> set s"
  by (auto simp: isBase62_def list_all_iff base62_char_def KeyIDSeparator_def less_char_def)

lemma null_not_base62: "isBase62 s \<Longrightarrow> CHR 0x00 \<notin> set s"
  by (auto simp: isBase62_def list_all_iff base62_char_def less_char_def)

lemma ParseAPIKey_Inr_iff [key_format]:
  "ParseAPIKey key = Inr (keyID, secret) \<longleftrightarrow>
     key = KeyPrefix @ keyID @ [KeyIDSeparator] @ secret \<and>
     KeyIDSeparator \<notin> set keyID \<and> keyID \<noteq> [] \<and> secret \<noteq> []"
proof -
  have "ParseAPIKey key = Inr (keyID, secret) \<longleftrightarrow>
      (\<exists>body. key = KeyPrefix @ body \<and> Cut KeyIDSeparator body = Some (keyID, secret) \<and> keyID \<noteq> [] \<and> secret \<noteq> [])"
    by (auto simp: ParseAPIKey_def SplitN2_def HasPrefix_iff split: option.splits)
  then show ?thesis by (auto simp: Cut_Some_iff)
qed

lemma IsValidKeyFormat_iff [key_format]:
  "IsValidKeyFormat key \<longleftrightarrow>
     (\<exists>keyID secret. ParseAPIKey key = Inr (keyID, secret) \<and> isBase62 keyID \<and> isBase62 secret)"
  by (auto simp: IsValidKeyFormat_def ParseAPIKey_def split: list.splits)

lemma key_format_cases:
  assumes "IsValidKeyFormat key"
  obtains keyID secret where "key = KeyPrefix @ keyID @ [KeyIDSeparator] @ secret"
    and "isBase62 keyID" and "isBase62 secret" and "ParseAPIKey key = Inr (keyID, secret)"
  using assms by (auto simp: IsValidKeyFormat_iff ParseAPIKey_Inr_iff)

lemma hash_of_parts:
  assumes "ParseAPIKey key = Inr (keyID, secret)"
  shows "HashAPIKey L key = sha256hex L (keyID @ [CHR 0x00] @ secret)"
  using assms by (simp add: HashAPIKey_def hashWithSalt_def)

lemma generated_key_parses [key_format]:
  "ParseAPIKey (KeyPrefix @ encodeBase62 a @ [KeyIDSeparator] @ encodeBase62 b) = Inr (encodeBase62 a, encodeBase62 b)"
  using separator_not_base62 [OF encodeBase62_base62]
  by (simp add: ParseAPIKey_Inr_iff encodeBase62_nonempty)

text \<open>
  C38. A generated key is usable: whenever both reads of entropy succeed, generation
  succeeds; the plaintext has the valid format and parses back to its key id and secret;
  the returned hash is the hash a later lookup computes from the plaintext, and the
  plaintext validates against it; the display prefix holds at most twelve characters of
  the key id and no character of the secret.
\<close>

theorem GenerateAPIKey_roundtrip:
  "\<exists>plaintext hash prefix.
     GenerateAPIKey L (Inr a) (Inr b) = Inr (plaintext, hash, prefix) \<and>
     IsValidKeyFormat plaintext \<and>
     ParseAPIKey plaintext = Inr (encodeBase62 a, encodeBase62 b) \<and>
     HashAPIKey L plaintext = hash \<and>
     ValidateAPIKeyHash L plaintext hash \<and>
     prefix = KeyPrefix @ take displayPrefixLength (encodeBase62 a) @ ''...''"
proof -
  define key where "key = KeyPrefix @ encodeBase62 a @ [KeyIDSeparator] @ encodeBase62 b"
  have parse: "ParseAPIKey key = Inr (encodeBase62 a, encodeBase62 b)"
    unfolding key_def by (rule generated_key_parses)
  have "GenerateAPIKey L (Inr a) (Inr b) =
      Inr (key, hashWithSalt L (encodeBase62 a) (encodeBase62 b),
           KeyPrefix @ take displayPrefixLength (encodeBase62 a) @ ''...'')"
    by (simp add: GenerateAPIKey_def Let_def key_def)
  with parse show ?thesis
    by (auto simp: IsValidKeyFormat_iff ValidateAPIKeyHash_def HashAPIKey_def encodeBase62_base62)
qed

text \<open>
  The hash of a key identifies it up to collisions of SHA-256: if two keys of valid
  format have the same hash, either they are the same key or two different strings have
  the same digest. The null byte between key id and secret is what rules out the other
  way, two splits of one string.
\<close>

theorem HashAPIKey_separates:
  assumes "IsValidKeyFormat key" and "IsValidKeyFormat key'"
    and "HashAPIKey L key = HashAPIKey L key'"
  shows "key = key' \<or> (\<exists>x y. x \<noteq> y \<and> sha256hex L x = sha256hex L y)"
proof -
  obtain i s where k: "key = KeyPrefix @ i @ [KeyIDSeparator] @ s" "isBase62 i" "ParseAPIKey key = Inr (i, s)"
    using assms(1) by (rule key_format_cases)
  obtain i' s' where k': "key' = KeyPrefix @ i' @ [KeyIDSeparator] @ s'" "isBase62 i'" "ParseAPIKey key' = Inr (i', s')"
    using assms(2) by (rule key_format_cases)
  have digest: "sha256hex L (i @ [CHR 0x00] @ s) = sha256hex L (i' @ [CHR 0x00] @ s')"
    using assms(3) by (simp only: hash_of_parts [OF k(3)] hash_of_parts [OF k'(3)])
  have "i = i' \<and> s = s'" if eq: "i @ [CHR 0x00] @ s = i' @ [CHR 0x00] @ s'"
  proof -
    have "Cut (CHR 0x00) (i @ [CHR 0x00] @ s) = Some (i, s)"
      using null_not_base62 [OF k(2)] by (simp add: Cut_Some_iff)
    moreover have "Cut (CHR 0x00) (i' @ [CHR 0x00] @ s') = Some (i', s')"
      using null_not_base62 [OF k'(2)] by (simp add: Cut_Some_iff)
    ultimately have "Some (i, s) = Some (i', s')" by (simp only: eq)
    then show ?thesis by simp
  qed
  with digest k(1) k'(1) show ?thesis by blast
qed

theorem HashAPIKey_separates_witness:
  "HashAPIKey example_libs ''sk-oai-ab_c'' \<noteq> HashAPIKey example_libs ''sk-oai-a_bc''"
proof
  have fmt: "IsValidKeyFormat ''sk-oai-ab_c''" "IsValidKeyFormat ''sk-oai-a_bc''" by code_simp+
  assume "HashAPIKey example_libs ''sk-oai-ab_c'' = HashAPIKey example_libs ''sk-oai-a_bc''"
  from HashAPIKey_separates [OF fmt this] show False by (auto simp: example_libs_def)
qed

end
