(* ===== verification/KeyStore.thy ===== *)
theory KeyStore
  imports KeyFormat "HOL-Library.AList"
begin

text \<open>
  Storage of API keys: the types of \<open>types.go\<close> and \<open>store_interface.go\<close>, the contract of
  a \<open>MetadataStore\<close>, and \<open>MockStore\<close> of \<open>store_mock.go\<close>, all of
  \<open>maas-api/internal/api_keys\<close>.

  Instants are integers, in nanoseconds; the zero \<open>time.Time\<close> is 0. An RFC 3339 string
  in an \<open>ApiKey\<close> is represented by the second it denotes, the empty string by \<open>None\<close>.
  An operation that reads the clock has the instant as its argument \<open>now\<close>. A Go map is an
  association list with distinct keys, in the order in which a loop over it happens to
  run: what is proved holds for every order. A nil map or slice is the empty one.

  The contract is two locales. In \<open>key_history\<close> a store shows its keys as \<open>keyView\<close>s, and
  its operations may only move a key forward in its life cycle, remove it, or add a new one;
  it is shown once that a dead key stays dead along every sequence of operations. Its
  extension \<open>key_store\<close> adds the lookup by hash. The mock store and the Postgres store are
  interpretations of \<open>key_store\<close>, the primary of the latter alone one of \<open>key_history\<close>.
\<close>

named_theorems key_store_simps "facts on stored keys"

subsection \<open>Keys\<close>

type_synonym time = int

definition Second :: int where
  "Second = 1000000000"

definition Minute :: int where
  "Minute = 60 * Second"

definition Hour :: int where
  "Hour = 60 * Minute"

definition rfc3339 :: "time \<Rightarrow> int" where
  "rfc3339 t = t div Second"

datatype status = StatusActive | StatusRevoked | StatusExpired

fun status_string :: "status \<Rightarrow> string" where
  "status_string StatusActive = ''active''"
| "status_string StatusRevoked = ''revoked''"
| "status_string StatusExpired = ''expired''"

type_synonym labels = "(string \<times> string) list"

record apiKey =
  ak_ID :: string
  ak_Name :: string
  ak_Description :: string
  ak_Username :: string
  ak_Subscription :: string
  ak_Tenant :: string
  ak_Groups :: "string list"
  ak_CreationDate :: "int option"
  ak_ExpirationDate :: "int option"
  ak_Status :: status
  ak_LastUsedAt :: "int option"
  ak_Ephemeral :: bool
  ak_Labels :: labels

datatype storeError =
    ErrKeyNotFound
  | ErrInvalidKey
  | ErrEmptyJTI
  | ErrEmptyName
  | ErrTenantMismatch
  | HashRequired
  | SubscriptionRequired
  | EphemeralNeedsExpiration
  | AddKeyTenantMismatch
  | ScopeRequired
  | LimitOutOfRange
  | OffsetNegative
  | RetentionNegative
  | DatabaseError string

record searchFilters =
  sf_Status :: "string list"
  sf_Subscription :: "string option"
  sf_SubscriptionNames :: "string list"
  sf_IncludeEphemeral :: "bool option"
  sf_LabelsContain :: labels

record sortParams =
  so_By :: string
  so_Order :: string

record paginationParams =
  pp_Limit :: int
  pp_Offset :: int

record paginatedResult =
  pr_Keys :: "apiKey list"
  pr_HasMore :: bool

definition MaxLimit :: int where
  "MaxLimit = 100"

text \<open>The arguments of \<open>AddKey\<close>.\<close>

record newKey =
  nk_username :: string
  nk_keyID :: string
  nk_keyHash :: string
  nk_name :: string
  nk_description :: string
  nk_userGroups :: "string list"
  nk_subscription :: string
  nk_tenant :: string
  nk_expiresAt :: "time option"
  nk_ephemeral :: bool
  nk_labels :: labels

subsection \<open>The life cycle of a key\<close>

text \<open>What decides whether a key validates, and for whom: the same for every store.\<close>

record keyView =
  kv_id :: string
  kv_hash :: string
  kv_username :: string
  kv_groups :: "string list"
  kv_subscription :: string
  kv_tenant :: string
  kv_status :: status
  kv_expires :: "time option"
  kv_deleted :: bool

text \<open>
  One way only: an active key may become revoked or expired, a live one may become
  deleted; whom the key stands for, its hash and its expiration never change.
\<close>

definition advances :: "keyView \<Rightarrow> keyView \<Rightarrow> bool" where
  "advances k k' \<longleftrightarrow>
     (\<exists>s d. k' = k\<lparr>kv_status := s, kv_deleted := d\<rparr> \<and>
            (kv_status k \<noteq> StatusActive \<longrightarrow> s = kv_status k) \<and> (kv_deleted k \<longrightarrow> d))"

text \<open>A key that may still validate at some instant, and one that validates at \<open>now\<close>.\<close>

definition alive :: "keyView \<Rightarrow> bool" where
  "alive k \<longleftrightarrow> kv_status k = StatusActive \<and> \<not> kv_deleted k"

definition usable :: "time \<Rightarrow> keyView \<Rightarrow> bool" where
  "usable now k \<longleftrightarrow> alive k \<and> (case kv_expires k of None \<Rightarrow> True | Some t \<Rightarrow> now \<le> t)"

lemma advances_refl [simp, intro]: "advances k k"
  unfolding advances_def by (rule exI [of _ "kv_status k"], rule exI [of _ "kv_deleted k"]) simp

lemma advances_trans: "advances a b \<Longrightarrow> advances b c \<Longrightarrow> advances a c"
  unfolding advances_def by force

lemma advances_id: "advances k k' \<Longrightarrow> kv_id k' = kv_id k"
  by (auto simp: advances_def)

lemma advances_alive: "advances k k' \<Longrightarrow> alive k' \<Longrightarrow> alive k"
  by (auto simp: advances_def alive_def)

lemma advances_expires: "advances k k' \<Longrightarrow> kv_expires k' = kv_expires k"
  by (auto simp: advances_def)

lemma advances_usable: "advances k k' \<Longrightarrow> usable now k' \<Longrightarrow> usable now k"
  by (auto simp: usable_def advances_expires dest: advances_alive)

lemma advancesI:
  assumes "kv_status k \<noteq> StatusActive \<Longrightarrow> s = kv_status k" and "kv_deleted k \<Longrightarrow> d"
  shows "advances k (k\<lparr>kv_status := s, kv_deleted := d\<rparr>)"
  using assms unfolding advances_def by blast

locale key_history =
  fixes keys :: "'s \<Rightarrow> keyView list"
    and step :: "'op \<Rightarrow> 's \<Rightarrow> 's"
    and added :: "'op \<Rightarrow> string option"
  assumes step_advances:
      "k' \<in> set (keys (step op s)) \<Longrightarrow>
         added op = Some (kv_id k') \<or> (\<exists>k\<in>set (keys s). advances k k')"
begin

text \<open>No key of this identifier can validate any more.\<close>

definition dead :: "string \<Rightarrow> 's \<Rightarrow> bool" where
  "dead i s \<longleftrightarrow> (\<forall>k\<in>set (keys s). kv_id k = i \<longrightarrow> \<not> alive k)"

lemma dead_step:
  assumes "dead i s" and "added op \<noteq> Some i"
  shows "dead i (step op s)"
  unfolding dead_def
proof (intro ballI impI)
  fix k' assume k': "k' \<in> set (keys (step op s))" "kv_id k' = i"
  with step_advances [OF k'(1)] assms(2) obtain k where "k \<in> set (keys s)" "advances k k'" by auto
  with assms(1) k'(2) show "\<not> alive k'" unfolding dead_def by (metis advances_alive advances_id)
qed

lemma dead_run:
  "dead i s \<Longrightarrow> \<forall>op\<in>set ops. added op \<noteq> Some i \<Longrightarrow> dead i (fold step ops s)"
  by (induction ops arbitrary: s) (auto intro: dead_step)

text \<open>What a key stands for never changes while it is stored, and it does not come back.\<close>

lemma run_advances:
  assumes "k' \<in> set (keys (fold step ops s))" and "\<forall>op\<in>set ops. added op \<noteq> Some (kv_id k')"
  shows "\<exists>k\<in>set (keys s). advances k k'"
  using assms
proof (induction ops arbitrary: s)
  case (Cons op ops)
  then obtain k1 where k1: "k1 \<in> set (keys (step op s))" "advances k1 k'" by auto
  with Cons.prems(2) step_advances [OF k1(1)] show ?case
    by (auto dest: advances_id intro: advances_trans)
qed auto

lemma run_unusable:
  assumes "\<And>k. k \<in> set (keys s) \<Longrightarrow> kv_id k = i \<Longrightarrow> \<not> usable now k"
    and "\<forall>op\<in>set ops. added op \<noteq> Some i"
    and "k' \<in> set (keys (fold step ops s))" and "kv_id k' = i"
  shows "\<not> usable now k'"
proof -
  obtain k where "k \<in> set (keys s)" "advances k k'"
    using run_advances [OF assms(3)] assms(2,4) by auto
  with assms(1) [of k] assms(4) show ?thesis by (auto simp: advances_id dest: advances_usable)
qed

end

text \<open>With a lookup by hash, as the validation of a key uses it.\<close>

locale key_store = key_history keys step added
  for keys :: "'s \<Rightarrow> keyView list"
    and step :: "'op \<Rightarrow> 's \<Rightarrow> 's"
    and added :: "'op \<Rightarrow> string option" +
  fixes lookup :: "time \<Rightarrow> string \<Rightarrow> 's \<Rightarrow> storeError + apiKey"
  assumes lookup_usable:
      "lookup now h s = Inr a \<Longrightarrow>
         \<exists>k\<in>set (keys s). kv_hash k = h \<and> usable now k \<and>
           ak_ID a = kv_id k \<and> ak_Username a = kv_username k \<and> ak_Groups a = kv_groups k \<and>
           ak_Subscription a = kv_subscription k \<and> ak_Tenant a = kv_tenant k"
begin

lemma dead_never_validates:
  assumes "dead i s" and "\<forall>op\<in>set ops. added op \<noteq> Some i"
    and "lookup now h (fold step ops s) = Inr a"
  shows "ak_ID a \<noteq> i"
  using dead_run [OF assms(1,2)] lookup_usable [OF assms(3)] by (auto simp: dead_def usable_def)

lemma unusable_never_validates:
  assumes "\<And>k. k \<in> set (keys s) \<Longrightarrow> kv_id k = i \<Longrightarrow> \<not> usable now k"
    and "\<forall>op\<in>set ops. added op \<noteq> Some i" and "lookup now h (fold step ops s) = Inr a"
  shows "ak_ID a \<noteq> i"
  using lookup_usable [OF assms(3)] run_unusable [OF assms(1,2)] by auto

end

subsection \<open>The mock store\<close>

record storedKey =
  sk_metadata :: apiKey
  sk_groups :: "string list"
  sk_username :: string
  sk_keyHash :: string
  sk_expiresAt :: time
  sk_lastUsedAt :: "time option"
  sk_deletedAt :: "time option"
  sk_ephemeral :: bool

record mockStore =
  ms_keys :: "(string \<times> storedKey) list"
  ms_UpdateLastUsedCount :: nat

definition IsZero :: "time \<Rightarrow> bool" where
  "IsZero t \<longleftrightarrow> t = 0"

definition NewMockStore :: mockStore where
  "NewMockStore = \<lparr>ms_keys = [], ms_UpdateLastUsedCount = 0\<rparr>"

definition set_status :: "status \<Rightarrow> storedKey \<Rightarrow> storedKey" where
  "set_status st k = k\<lparr>sk_metadata := (sk_metadata k)\<lparr>ak_Status := st\<rparr>\<rparr>"

definition mock_AddKey :: "time \<Rightarrow> newKey \<Rightarrow> mockStore \<Rightarrow> storeError option \<times> mockStore" where
  "mock_AddKey now n m =
     (if nk_keyID n = [] then (Some ErrEmptyJTI, m)
      else if nk_name n = [] then (Some ErrEmptyName, m)
      else if nk_subscription n = [] then (Some SubscriptionRequired, m)
      else
        (let expiresAtTime = (case nk_expiresAt n of None \<Rightarrow> 0 | Some t \<Rightarrow> t);
             k = \<lparr>sk_metadata =
                    \<lparr>ak_ID = nk_keyID n, ak_Name = nk_name n, ak_Description = nk_description n,
                     ak_Username = [], ak_Subscription = nk_subscription n, ak_Tenant = nk_tenant n,
                     ak_Groups = nk_userGroups n, ak_CreationDate = Some (rfc3339 now),
                     ak_ExpirationDate = None, ak_Status = StatusActive, ak_LastUsedAt = None,
                     ak_Ephemeral = nk_ephemeral n, ak_Labels = nk_labels n\<rparr>,
                  sk_groups = nk_userGroups n, sk_username = nk_username n, sk_keyHash = nk_keyHash n,
                  sk_expiresAt = expiresAtTime, sk_lastUsedAt = None, sk_deletedAt = None,
                  sk_ephemeral = nk_ephemeral n\<rparr>
         in (None, m\<lparr>ms_keys := AList.update (nk_keyID n) k (ms_keys m)\<rparr>)))"

text \<open>The metadata as a caller sees them: user name, effective status, timestamps.\<close>

definition past :: "time \<Rightarrow> storedKey \<Rightarrow> bool" where
  "past now k \<longleftrightarrow> \<not> IsZero (sk_expiresAt k) \<and> sk_expiresAt k < now"

definition view_meta :: "time \<Rightarrow> storedKey \<Rightarrow> apiKey" where
  "view_meta now k =
     (let meta = (sk_metadata k)\<lparr>ak_Username := sk_username k\<rparr>;
          meta = (if ak_Status meta = StatusActive \<and> past now k then meta\<lparr>ak_Status := StatusExpired\<rparr> else meta);
          meta = (if \<not> IsZero (sk_expiresAt k)
                  then meta\<lparr>ak_ExpirationDate := Some (rfc3339 (sk_expiresAt k))\<rparr> else meta)
      in (case sk_lastUsedAt k of None \<Rightarrow> meta | Some t \<Rightarrow> meta\<lparr>ak_LastUsedAt := Some (rfc3339 t)\<rparr>))"

definition mock_Get :: "time \<Rightarrow> string \<Rightarrow> mockStore \<Rightarrow> storeError + apiKey" where
  "mock_Get now keyID m =
     (case map_of (ms_keys m) keyID of None \<Rightarrow> Inl ErrKeyNotFound
      | Some k \<Rightarrow> Inr ((view_meta now k)\<lparr>ak_Groups := sk_groups k\<rparr>))"

text \<open>
  The loop of \<open>GetByHash\<close> stops at the first live key with the hash; it records the
  expiration of that key.
\<close>

definition mock_expire :: "time \<Rightarrow> storedKey \<Rightarrow> storedKey" where
  "mock_expire now k =
     (if past now k \<and> ak_Status (sk_metadata k) = StatusActive then set_status StatusExpired k else k)"

fun mock_GetByHash_loop ::
    "time \<Rightarrow> string \<Rightarrow> (string \<times> storedKey) list \<Rightarrow> (storeError + apiKey) \<times> (string \<times> storedKey) list" where
  "mock_GetByHash_loop now keyHash [] = (Inl ErrKeyNotFound, [])"
| "mock_GetByHash_loop now keyHash ((i, k) # ks) =
     (if sk_keyHash k = keyHash \<and> sk_deletedAt k = None then
        (let k = mock_expire now k in
         if ak_Status (sk_metadata k) = StatusRevoked \<or> ak_Status (sk_metadata k) = StatusExpired
         then (Inl ErrInvalidKey, (i, k) # ks)
         else
           (let meta = (sk_metadata k)\<lparr>ak_Username := sk_username k, ak_Groups := sk_groups k\<rparr>;
                meta = (case sk_lastUsedAt k of None \<Rightarrow> meta | Some t \<Rightarrow> meta\<lparr>ak_LastUsedAt := Some (rfc3339 t)\<rparr>)
            in (Inr meta, (i, k) # ks)))
      else
        (case mock_GetByHash_loop now keyHash ks of (r, ks') \<Rightarrow> (r, (i, k) # ks')))"

definition mock_GetByHash :: "time \<Rightarrow> string \<Rightarrow> mockStore \<Rightarrow> (storeError + apiKey) \<times> mockStore" where
  "mock_GetByHash now keyHash m =
     (case mock_GetByHash_loop now keyHash (ms_keys m) of (r, ks) \<Rightarrow> (r, m\<lparr>ms_keys := ks\<rparr>))"

definition bulkRevokeMatch :: "time \<Rightarrow> storedKey \<Rightarrow> string \<Rightarrow> string \<Rightarrow> string \<Rightarrow> bool" where
  "bulkRevokeMatch now k username subscription tenant =
     (if sk_deletedAt k \<noteq> None \<or> ak_Status (sk_metadata k) \<noteq> StatusActive \<or> ak_Tenant (sk_metadata k) \<noteq> tenant
      then False
      else if \<not> IsZero (sk_expiresAt k) \<and> sk_expiresAt k < now then False
      else if username \<noteq> [] \<and> sk_username k \<noteq> username then False
      else if subscription \<noteq> [] \<and> ak_Subscription (sk_metadata k) \<noteq> subscription then False
      else True)"

text \<open>An update of every key that passes a test, and the number of them.\<close>

definition update_where ::
    "('a \<Rightarrow> bool) \<Rightarrow> ('a \<Rightarrow> 'a) \<Rightarrow> ('b \<times> 'a) list \<Rightarrow> ('b \<times> 'a) list" where
  "update_where P f = map (\<lambda>(i, k). (i, if P k then f k else k))"

definition count_where :: "('a \<Rightarrow> bool) \<Rightarrow> ('b \<times> 'a) list \<Rightarrow> nat" where
  "count_where P ks = length (filter (\<lambda>(i, k). P k) ks)"

definition mock_BulkRevoke ::
    "time \<Rightarrow> string \<Rightarrow> string \<Rightarrow> string \<Rightarrow> bool \<Rightarrow> mockStore \<Rightarrow> (storeError + nat) \<times> mockStore" where
  "mock_BulkRevoke now username subscription tenant dryRun m =
     (if username = [] \<and> subscription = [] then (Inl ScopeRequired, m)
      else
        (let matches = (\<lambda>k. bulkRevokeMatch now k username subscription tenant) in
         if dryRun then (Inr (count_where matches (ms_keys m)), m)
         else (Inr (count_where matches (ms_keys m)),
               m\<lparr>ms_keys := update_where matches (set_status StatusRevoked) (ms_keys m)\<rparr>)))"

definition soft_delete :: "time \<Rightarrow> storedKey \<Rightarrow> storedKey" where
  "soft_delete now k =
     (let k = k\<lparr>sk_deletedAt := Some now\<rparr>
      in if ak_Status (sk_metadata k) = StatusActive then set_status StatusRevoked k else k)"

definition mock_InvalidateTenant :: "time \<Rightarrow> string \<Rightarrow> mockStore \<Rightarrow> (storeError + nat) \<times> mockStore" where
  "mock_InvalidateTenant now tenant m =
     (let matches = (\<lambda>k. ak_Tenant (sk_metadata k) = tenant \<and> sk_deletedAt k = None)
      in (Inr (count_where matches (ms_keys m)),
          m\<lparr>ms_keys := update_where matches (soft_delete now) (ms_keys m)\<rparr>))"

definition mock_InvalidateSubscription ::
    "time \<Rightarrow> string \<Rightarrow> string \<Rightarrow> mockStore \<Rightarrow> (storeError + nat) \<times> mockStore" where
  "mock_InvalidateSubscription now tenant subscription m =
     (if TrimSpace subscription = [] then (Inl SubscriptionRequired, m)
      else
        (let matches = (\<lambda>k. ak_Tenant (sk_metadata k) = tenant \<and> ak_Subscription (sk_metadata k) = subscription
                            \<and> sk_deletedAt k = None)
         in (Inr (count_where matches (ms_keys m)),
             m\<lparr>ms_keys := update_where matches (soft_delete now) (ms_keys m)\<rparr>)))"

definition mock_Revoke :: "string \<Rightarrow> mockStore \<Rightarrow> storeError option \<times> mockStore" where
  "mock_Revoke keyID m =
     (case map_of (ms_keys m) keyID of None \<Rightarrow> (Some ErrKeyNotFound, m)
      | Some k \<Rightarrow>
        if ak_Status (sk_metadata k) \<noteq> StatusActive then (Some ErrKeyNotFound, m)
        else (None, m\<lparr>ms_keys := AList.update keyID (set_status StatusRevoked k) (ms_keys m)\<rparr>))"

definition mock_UpdateLastUsed :: "time \<Rightarrow> string \<Rightarrow> mockStore \<Rightarrow> storeError option \<times> mockStore" where
  "mock_UpdateLastUsed now keyID m =
     (case map_of (ms_keys m) keyID of None \<Rightarrow> (Some ErrKeyNotFound, m)
      | Some k \<Rightarrow>
        (None, m\<lparr>ms_keys := AList.update keyID (k\<lparr>sk_lastUsedAt := Some now\<rparr>) (ms_keys m),
                 ms_UpdateLastUsedCount := ms_UpdateLastUsedCount m + 1\<rparr>))"

definition ephemeral_garbage :: "time \<Rightarrow> storedKey \<Rightarrow> bool" where
  "ephemeral_garbage now k =
     (if \<not> sk_ephemeral k then False
      else if IsZero (sk_expiresAt k) then False
      else (ak_Status (sk_metadata k) = StatusExpired \<or> sk_expiresAt k < now) \<and>
           sk_expiresAt k < now - 30 * Minute)"

definition mock_DeleteExpiredEphemeral :: "time \<Rightarrow> mockStore \<Rightarrow> (storeError + nat) \<times> mockStore" where
  "mock_DeleteExpiredEphemeral now m =
     (Inr (count_where (ephemeral_garbage now) (ms_keys m)),
      m\<lparr>ms_keys := filter (\<lambda>(i, k). \<not> ephemeral_garbage now k) (ms_keys m)\<rparr>)"

definition retention_over :: "time \<Rightarrow> int \<Rightarrow> storedKey \<Rightarrow> bool" where
  "retention_over now retention k =
     (case sk_deletedAt k of None \<Rightarrow> False | Some t \<Rightarrow> t < now - retention)"

definition mock_DeleteSoftDeleted :: "time \<Rightarrow> int \<Rightarrow> mockStore \<Rightarrow> (storeError + nat) \<times> mockStore" where
  "mock_DeleteSoftDeleted now retention m =
     (if retention < 0 then (Inl RetentionNegative, m)
      else (Inr (count_where (retention_over now retention) (ms_keys m)),
            m\<lparr>ms_keys := filter (\<lambda>(i, k). \<not> retention_over now retention k) (ms_keys m)\<rparr>))"

subsection \<open>Searching the mock store\<close>

definition status_wanted :: "string list \<Rightarrow> status \<Rightarrow> bool" where
  "status_wanted statusFilters st \<longleftrightarrow>
     statusFilters = [] \<or> list_ex (\<lambda>s. TrimSpace s = status_string st) statusFilters"

definition filterKeys :: "string \<Rightarrow> string \<Rightarrow> string list \<Rightarrow> bool \<Rightarrow> time \<Rightarrow> mockStore \<Rightarrow> apiKey list" where
  "filterKeys username tenant statusFilters includeEphemeral now m =
     List.map_filter (\<lambda>(i, k).
       if ak_Tenant (sk_metadata k) \<noteq> tenant then None
       else if \<not> includeEphemeral \<and> sk_ephemeral k then None
       else if username \<noteq> [] \<and> sk_username k \<noteq> username then None
       else
         (let meta = view_meta now k
          in if \<not> status_wanted statusFilters (ak_Status meta) then None else Some meta)) (ms_keys m)"

definition compare_int :: "int \<Rightarrow> int \<Rightarrow> int" where
  "compare_int a b = (if a < b then -1 else if a = b then 0 else 1)"

definition Compare :: "string \<Rightarrow> string \<Rightarrow> int" where
  "Compare a b = (if a < b then -1 else if a = b then 0 else 1)"

definition compareTimestampFields :: "int option \<Rightarrow> int option \<Rightarrow> int \<times> bool" where
  "compareTimestampFields val1 val2 =
     (case val1 of
        None \<Rightarrow> (case val2 of None \<Rightarrow> (0, False) | Some _ \<Rightarrow> (0, True))
      | Some t1 \<Rightarrow> (case val2 of None \<Rightarrow> (0, True) | Some t2 \<Rightarrow> (compare_int t1 t2, False)))"

definition compare_nullable :: "int option \<Rightarrow> int option \<Rightarrow> string \<Rightarrow> bool + int" where
  "compare_nullable val1 val2 order =
     (case compareTimestampFields val1 val2 of (cmp, handleNull) \<Rightarrow>
        if handleNull then
          (if val1 = None then Inl (order = ''desc'') else Inl (order = ''asc''))
        else Inr cmp)"

definition compare_created :: "int option \<Rightarrow> int option \<Rightarrow> int" where
  "compare_created val1 val2 =
     (case (val1, val2) of
        (Some t1, Some t2) \<Rightarrow> compare_int t1 t2
      | (None, None) \<Rightarrow> 0 | (None, Some _) \<Rightarrow> -1 | (Some _, None) \<Rightarrow> 1)"

definition compareKeys :: "apiKey \<Rightarrow> apiKey \<Rightarrow> string \<Rightarrow> string \<Rightarrow> bool" where
  "compareKeys key1 key2 sortBy order =
     (let r = (if sortBy = ''created_at'' then Inr (compare_created (ak_CreationDate key1) (ak_CreationDate key2))
               else if sortBy = ''expires_at'' then compare_nullable (ak_ExpirationDate key1) (ak_ExpirationDate key2) order
               else if sortBy = ''last_used_at'' then compare_nullable (ak_LastUsedAt key1) (ak_LastUsedAt key2) order
               else if sortBy = ''name'' then Inr (Compare (ak_Name key1) (ak_Name key2))
               else Inr 0)
      in case r of Inl b \<Rightarrow> b
         | Inr cmp \<Rightarrow> if order = ''desc'' then cmp > 0 else cmp < 0)"

definition applyPagination :: "apiKey list \<Rightarrow> int \<Rightarrow> int \<Rightarrow> apiKey list \<times> bool" where
  "applyPagination keys offset limit =
     (if offset \<ge> int (length keys) then ([], False)
      else
        (let keys = drop (nat offset) keys;
             hasMore = int (length keys) > limit;
             keys = (if hasMore then take (nat limit) keys else keys)
         in (keys, hasMore)))"

definition labelsContain :: "labels \<Rightarrow> labels \<Rightarrow> bool" where
  "labelsContain have want =
     (if want = [] then True
      else if have = [] then False
      else list_all (\<lambda>(k, v). (case map_of have k of None \<Rightarrow> [] | Some x \<Rightarrow> x) = v) want)"

definition mock_Search ::
    "time \<Rightarrow> string \<Rightarrow> string \<Rightarrow> searchFilters \<Rightarrow> sortParams \<Rightarrow> paginationParams \<Rightarrow> mockStore
     \<Rightarrow> storeError + paginatedResult" where
  "mock_Search now username tenant filters sorting pagination m =
     (if pp_Limit pagination < 1 \<or> MaxLimit < pp_Limit pagination then Inl LimitOutOfRange
      else if pp_Offset pagination < 0 then Inl OffsetNegative
      else
        (let includeEphemeral = (sf_IncludeEphemeral filters = Some True);
             allKeys = filterKeys username tenant (sf_Status filters) includeEphemeral now m;
             allKeys = (case sf_Subscription filters of
                 None \<Rightarrow> allKeys
               | Some sub \<Rightarrow> if sub = [] then allKeys
                   else filter (\<lambda>k. ak_Subscription k = TrimSpace sub) allKeys);
             allKeys = (if sf_SubscriptionNames filters = [] then allKeys
                        else filter (\<lambda>k. ak_Subscription k \<in> set (map TrimSpace (sf_SubscriptionNames filters))) allKeys);
             allKeys = (if sf_LabelsContain filters = [] then allKeys
                        else filter (\<lambda>k. labelsContain (ak_Labels k) (sf_LabelsContain filters)) allKeys);
             allKeys = SliceStable (\<lambda>a b. compareKeys a b (so_By sorting) (so_Order sorting)) allKeys
         in case applyPagination allKeys (pp_Offset pagination) (pp_Limit pagination) of
              (keys, hasMore) \<Rightarrow> Inr \<lparr>pr_Keys = keys, pr_HasMore = hasMore\<rparr>))"

text \<open>
  In descending order the mock store puts keys without a timestamp first; the SQL text of
  the Postgres store has \<open>NULLS LAST\<close> in both orders.
\<close>

lemma descending_nulls_first:
  assumes "ak_ExpirationDate a = None" and "ak_ExpirationDate b = Some t"
  shows "compareKeys a b ''expires_at'' ''desc''"
  using assms by (simp add: compareKeys_def compare_nullable_def compareTimestampFields_def)

subsection \<open>The mock store keeps the contract\<close>

text \<open>The operations of the interface that may change the store, as data.\<close>

datatype storeOp =
    OpAddKey time newKey
  | OpGetByHash time string
  | OpBulkRevoke time string string string bool
  | OpInvalidateTenant time string
  | OpInvalidateSubscription time string string
  | OpRevoke string
  | OpUpdateLastUsed time string
  | OpDeleteExpiredEphemeral time
  | OpDeleteSoftDeleted time int

fun mock_step :: "storeOp \<Rightarrow> mockStore \<Rightarrow> mockStore" where
  "mock_step (OpAddKey now n) m = snd (mock_AddKey now n m)"
| "mock_step (OpGetByHash now h) m = snd (mock_GetByHash now h m)"
| "mock_step (OpBulkRevoke now u s t dry) m = snd (mock_BulkRevoke now u s t dry m)"
| "mock_step (OpInvalidateTenant now t) m = snd (mock_InvalidateTenant now t m)"
| "mock_step (OpInvalidateSubscription now t s) m = snd (mock_InvalidateSubscription now t s m)"
| "mock_step (OpRevoke i) m = snd (mock_Revoke i m)"
| "mock_step (OpUpdateLastUsed now i) m = snd (mock_UpdateLastUsed now i m)"
| "mock_step (OpDeleteExpiredEphemeral now) m = snd (mock_DeleteExpiredEphemeral now m)"
| "mock_step (OpDeleteSoftDeleted now r) m = snd (mock_DeleteSoftDeleted now r m)"

fun op_added :: "storeOp \<Rightarrow> string option" where
  "op_added (OpAddKey now n) = Some (nk_keyID n)"
| "op_added _ = None"

definition stored_view :: "string \<times> storedKey \<Rightarrow> keyView" where
  "stored_view ik =
     (let k = snd ik; a = sk_metadata k in
      \<lparr>kv_id = ak_ID a, kv_hash = sk_keyHash k, kv_username = sk_username k, kv_groups = sk_groups k,
       kv_subscription = ak_Subscription a, kv_tenant = ak_Tenant a, kv_status = ak_Status a,
       kv_expires = (if IsZero (sk_expiresAt k) then None else Some (sk_expiresAt k)),
       kv_deleted = (sk_deletedAt k \<noteq> None)\<rparr>)"

lemma stored_view_sel [simp]:
  "kv_id (stored_view (i, k)) = ak_ID (sk_metadata k)"
  "kv_hash (stored_view (i, k)) = sk_keyHash k"
  "kv_username (stored_view (i, k)) = sk_username k"
  "kv_groups (stored_view (i, k)) = sk_groups k"
  "kv_subscription (stored_view (i, k)) = ak_Subscription (sk_metadata k)"
  "kv_tenant (stored_view (i, k)) = ak_Tenant (sk_metadata k)"
  "kv_status (stored_view (i, k)) = ak_Status (sk_metadata k)"
  "kv_deleted (stored_view (i, k)) \<longleftrightarrow> sk_deletedAt k \<noteq> None"
  "kv_expires (stored_view (i, k)) = (if IsZero (sk_expiresAt k) then None else Some (sk_expiresAt k))"
  by (simp_all add: stored_view_def Let_def)

definition mock_keys :: "mockStore \<Rightarrow> keyView list" where
  "mock_keys m = map stored_view (ms_keys m)"

lemma set_AList_update: "x \<in> set (AList.update k v al) \<Longrightarrow> x = (k, v) \<or> x \<in> set al"
  by (induction al) (auto split: if_splits)

lemma set_update_where:
  "x \<in> set (update_where P f ks) \<Longrightarrow> \<exists>i k. (i, k) \<in> set ks \<and> x = (i, if P k then f k else k)"
  unfolding update_where_def by force

text \<open>Each change that an operation makes to a key moves it forward.\<close>

lemma advances_changes [key_store_simps]:
  "ak_Status (sk_metadata k) = StatusActive \<Longrightarrow> advances (stored_view (i, k)) (stored_view (i, set_status st k))"
  "advances (stored_view (i, k)) (stored_view (i, mock_expire now k))"
  "advances (stored_view (i, k)) (stored_view (i, soft_delete now k))"
  "advances (stored_view (i, k)) (stored_view (i, k\<lparr>sk_lastUsedAt := t\<rparr>))"
  by (auto simp: advances_def stored_view_def Let_def set_status_def mock_expire_def soft_delete_def)


text \<open>All keys of a store come from keys of another one.\<close>

definition all_advance :: "mockStore \<Rightarrow> mockStore \<Rightarrow> bool" where
  "all_advance m m' \<longleftrightarrow>
     (\<forall>x\<in>set (ms_keys m'). \<exists>y\<in>set (ms_keys m). advances (stored_view y) (stored_view x))"

lemma all_advance_refl [simp]: "all_advance m m"
  by (auto simp: all_advance_def)

lemma all_advance_subset:
  "set ks \<subseteq> set (ms_keys m) \<Longrightarrow> all_advance m (m\<lparr>ms_keys := ks\<rparr>)"
  by (auto simp: all_advance_def)

lemma all_advance_update_where:
  assumes "\<And>i k. P k \<Longrightarrow> advances (stored_view (i, k)) (stored_view (i, f k))"
  shows "all_advance m (m\<lparr>ms_keys := update_where P f (ms_keys m)\<rparr>)"
  unfolding all_advance_def
proof
  fix x assume "x \<in> set (ms_keys (m\<lparr>ms_keys := update_where P f (ms_keys m)\<rparr>))"
  then obtain i k where k: "(i, k) \<in> set (ms_keys m)" "x = (i, if P k then f k else k)"
    using set_update_where [of x P f "ms_keys m"] by auto
  with assms show "\<exists>y\<in>set (ms_keys m). advances (stored_view y) (stored_view x)"
    by (intro bexI [OF _ k(1)]) auto
qed

lemma all_advance_AList_update:
  assumes "map_of (ms_keys m) i = Some k" and "advances (stored_view (i, k)) (stored_view (i, k'))"
    and "ms_keys m' = AList.update i k' (ms_keys m)"
  shows "all_advance m m'"
  using map_of_SomeD [OF assms(1)] assms(2,3) by (auto simp: all_advance_def dest!: set_AList_update)

lemma mock_GetByHash_loop_advances:
  "x \<in> set (snd (mock_GetByHash_loop now h ks)) \<Longrightarrow> \<exists>y\<in>set ks. advances (stored_view y) (stored_view x)"
proof (induction now h ks rule: mock_GetByHash_loop.induct)
  case (2 now h i k ks)
  then show ?case
    by (auto simp: Let_def key_store_simps split: if_splits prod.splits)
qed simp

lemma bulkRevokeMatch_iff [key_store_simps]:
  "bulkRevokeMatch now k username subscription tenant \<longleftrightarrow>
     sk_deletedAt k = None \<and> ak_Status (sk_metadata k) = StatusActive \<and> ak_Tenant (sk_metadata k) = tenant \<and>
     \<not> past now k \<and> (username = [] \<or> sk_username k = username) \<and>
     (subscription = [] \<or> ak_Subscription (sk_metadata k) = subscription)"
  by (auto simp: bulkRevokeMatch_def past_def)

lemma mock_ops_advance [key_store_simps]:
  "all_advance m (snd (mock_GetByHash now h m))"
  "all_advance m (snd (mock_BulkRevoke now u sub t dry m))"
  "all_advance m (snd (mock_InvalidateTenant now t m))"
  "all_advance m (snd (mock_InvalidateSubscription now t sub m))"
  "all_advance m (snd (mock_Revoke i m))"
  "all_advance m (snd (mock_DeleteExpiredEphemeral now m))"
  "all_advance m (snd (mock_DeleteSoftDeleted now r m))"
proof -
  show "all_advance m (snd (mock_GetByHash now h m))"
    using mock_GetByHash_loop_advances [of _ now h "ms_keys m"]
    by (auto simp: mock_GetByHash_def all_advance_def split: prod.splits)
  show "all_advance m (snd (mock_BulkRevoke now u sub t dry m))"
    unfolding mock_BulkRevoke_def Let_def
    by (simp, intro impI all_advance_update_where) (simp add: key_store_simps)
  show "all_advance m (snd (mock_InvalidateTenant now t m))"
    by (auto simp: mock_InvalidateTenant_def Let_def key_store_simps intro!: all_advance_update_where)
  show "all_advance m (snd (mock_InvalidateSubscription now t sub m))"
    by (auto simp: mock_InvalidateSubscription_def Let_def key_store_simps intro!: all_advance_update_where)
  show "all_advance m (snd (mock_Revoke i m))"
  proof (cases "map_of (ms_keys m) i")
    case (Some k)
    show ?thesis
    proof (cases "ak_Status (sk_metadata k) = StatusActive")
      case True
      then show ?thesis
        using Some by (intro all_advance_AList_update [OF Some advances_changes(1)]) (simp_all add: mock_Revoke_def)
    qed (simp add: mock_Revoke_def Some)
  qed (simp add: mock_Revoke_def)
  show "all_advance m (snd (mock_DeleteExpiredEphemeral now m))"
    by (auto simp: mock_DeleteExpiredEphemeral_def intro!: all_advance_subset)
  show "all_advance m (snd (mock_DeleteSoftDeleted now r m))"
    by (auto simp: mock_DeleteSoftDeleted_def intro!: all_advance_subset)
qed

lemma mock_UpdateLastUsed_advances [key_store_simps]: "all_advance m (snd (mock_UpdateLastUsed now i m))"
proof (cases "map_of (ms_keys m) i")
  case (Some k)
  then show ?thesis
    by (intro all_advance_AList_update [OF Some advances_changes(4)]) (simp add: mock_UpdateLastUsed_def)
qed (simp add: mock_UpdateLastUsed_def)

lemma mock_step_advances:
  assumes "op_added op = None"
  shows "all_advance m (mock_step op m)"
  using assms by (cases op) (simp_all add: key_store_simps)

lemma mock_AddKey_new:
  assumes "x \<in> set (ms_keys (snd (mock_AddKey now n m)))"
  shows "nk_keyID n = kv_id (stored_view x) \<or> (\<exists>y\<in>set (ms_keys m). advances (stored_view y) (stored_view x))"
  using assms
  by (auto simp: mock_AddKey_def Let_def stored_view_def dest!: set_AList_update split: if_splits)

lemma mock_GetByHash_loop_usable:
  "fst (mock_GetByHash_loop now h ks) = Inr a \<Longrightarrow>
     \<exists>(i, k)\<in>set ks. sk_keyHash k = h \<and> usable now (stored_view (i, k)) \<and>
       ak_ID a = ak_ID (sk_metadata k) \<and> ak_Username a = sk_username k \<and> ak_Groups a = sk_groups k \<and>
       ak_Subscription a = ak_Subscription (sk_metadata k) \<and> ak_Tenant a = ak_Tenant (sk_metadata k)"
proof (induction now h ks rule: mock_GetByHash_loop.induct)
  case (2 now h i k ks)
  show ?case
  proof (cases "sk_keyHash k = h \<and> sk_deletedAt k = None")
    case False
    with 2 show ?thesis by (fastforce split: prod.splits)
  next
    case True
    have "ak_Status (sk_metadata k) = StatusActive \<and> \<not> past now k"
      using 2(2) True
      by (cases "ak_Status (sk_metadata k)")
        (auto simp: Let_def mock_expire_def set_status_def split: if_splits)
    with 2(2) True show ?thesis
      by (auto simp: Let_def mock_expire_def stored_view_def usable_def alive_def past_def split: option.splits)
  qed
qed simp

lemma mock_contract: "key_store mock_keys mock_step op_added (\<lambda>now h m. fst (mock_GetByHash now h m))"
proof
  fix k' op m
  assume k': "k' \<in> set (mock_keys (mock_step op m))"
  show "op_added op = Some (kv_id k') \<or> (\<exists>k\<in>set (mock_keys m). advances k k')"
  proof (cases "op_added op")
    case None
    with k' mock_step_advances [OF None, of m] show ?thesis by (auto simp: mock_keys_def all_advance_def)
  next
    case (Some i)
    then obtain now n where op: "op = OpAddKey now n" by (cases op) auto
    with k' show ?thesis by (auto simp: mock_keys_def dest: mock_AddKey_new)
  qed
next
  fix now h m a
  assume "fst (mock_GetByHash now h m) = Inr a"
  then have "fst (mock_GetByHash_loop now h (ms_keys m)) = Inr a"
    by (simp add: mock_GetByHash_def split: prod.splits)
  then obtain i k where ik: "(i, k) \<in> set (ms_keys m)" "sk_keyHash k = h" "usable now (stored_view (i, k))"
    "ak_ID a = ak_ID (sk_metadata k)" "ak_Username a = sk_username k" "ak_Groups a = sk_groups k"
    "ak_Subscription a = ak_Subscription (sk_metadata k)" "ak_Tenant a = ak_Tenant (sk_metadata k)"
    by (auto dest!: mock_GetByHash_loop_usable)
  then show "\<exists>k\<in>set (mock_keys m). kv_hash k = h \<and> usable now k \<and> ak_ID a = kv_id k \<and>
      ak_Username a = kv_username k \<and> ak_Groups a = kv_groups k \<and>
      ak_Subscription a = kv_subscription k \<and> ak_Tenant a = kv_tenant k"
    by (intro bexI [of _ "stored_view (i, k)"]) (simp_all add: mock_keys_def)
qed

interpretation mock: key_store mock_keys mock_step op_added "\<lambda>now h m. fst (mock_GetByHash now h m)"
  by (rule mock_contract)

end
