(* ===== verification/KeyStorePostgres.thy ===== *)
theory KeyStorePostgres
  imports KeyStore
begin

text \<open>
  \<open>PostgresStore\<close> of \<open>maas-api/internal/api_keys/store_postgres.go\<close>: the table
  \<open>api_keys\<close> of \<open>maas-api/db/schema\<close>, the statements that the store sends to it, and the
  routing of reads between the primary and a replica.

  A table is a list of rows. A statement that writes has an \<open>execOutcome\<close> argument: the
  database runs it, rejects it, or runs it and loses the acknowledgement. A query has a
  \<open>rowsFault\<close> for each pool: the error of the query, of reading its rows, or of closing
  them. Both are what \<open>database/sql\<close> can report; theorems hold for all of them unless they
  say otherwise. \<open>TIMESTAMPTZ\<close> keeps microseconds. The order of names in \<open>ORDER BY\<close> is that
  of the collation of the database, an argument of \<open>pg_Search\<close>.
\<close>

named_theorems pg_simps "facts on the Postgres store"

subsection \<open>State\<close>

record row =
  r_id :: string
  r_username :: string
  r_name :: string
  r_description :: "string option"
  r_key_hash :: string
  r_user_groups :: "string list"
  r_subscription :: string
  r_tenant :: string
  r_status :: status
  r_created_at :: time
  r_expires_at :: "time option"
  r_last_used_at :: "time option"
  r_deleted_at :: "time option"
  r_ephemeral :: bool
  r_labels :: "labels option"

datatype pool = ReadPool | WritePool

text \<open>\<open>pg_readDB\<close> is \<open>None\<close> where \<open>readDB\<close> is the same handle as \<open>writeDB\<close>.\<close>

record pgStore =
  pg_writeDB :: "row list"
  pg_readDB :: "row list option"
  pg_tenantName :: string
  pg_readHealthy :: bool
  pg_queries :: "(string \<times> string) list"
  pg_fallbacks :: nat

datatype execOutcome = Executed | Rejected string | Unacknowledged string

record rowsFault =
  rf_query :: "string option"
  rf_rows :: "string option"
  rf_close :: "string option"

definition no_fault :: rowsFault where
  "no_fault = \<lparr>rf_query = None, rf_rows = None, rf_close = None\<rparr>"

definition timestamptz :: "time \<Rightarrow> time" where
  "timestamptz t = t - t mod 1000"

definition NewPostgresStore :: "row list \<Rightarrow> string \<Rightarrow> pgStore" where
  "NewPostgresStore db tenantName =
     \<lparr>pg_writeDB = db, pg_readDB = None, pg_tenantName = tenantName, pg_readHealthy = True,
      pg_queries = [], pg_fallbacks = 0\<rparr>"

definition hasReadReplica :: "pgStore \<Rightarrow> bool" where
  "hasReadReplica s \<longleftrightarrow> pg_readDB s \<noteq> None"

definition recordQuery :: "string \<Rightarrow> string \<Rightarrow> pgStore \<Rightarrow> pgStore" where
  "recordQuery operation pl s = s\<lparr>pg_queries := pg_queries s @ [(operation, pl)]\<rparr>"

definition recordReadFallback :: "pgStore \<Rightarrow> pgStore" where
  "recordReadFallback s = s\<lparr>pg_fallbacks := pg_fallbacks s + 1\<rparr>"

definition pool_rows :: "pool \<Rightarrow> pgStore \<Rightarrow> row list" where
  "pool_rows p s =
     (case p of WritePool \<Rightarrow> pg_writeDB s
      | ReadPool \<Rightarrow> (case pg_readDB s of None \<Rightarrow> pg_writeDB s | Some t \<Rightarrow> t))"

subsection \<open>Routing of reads\<close>

definition isDomainReadResult :: "storeError \<Rightarrow> bool" where
  "isDomainReadResult err \<longleftrightarrow> err = ErrKeyNotFound \<or> err = ErrInvalidKey"

text \<open>\<open>cancelled\<close> is \<open>ctx.Err() != nil\<close> after the first attempt.\<close>

definition readWithFallback ::
    "bool \<Rightarrow> string \<Rightarrow> (pool \<Rightarrow> pgStore \<Rightarrow> (storeError + 'a) \<times> pgStore) \<Rightarrow> pgStore
     \<Rightarrow> (storeError + 'a) \<times> pgStore" where
  "readWithFallback cancelled operation run s =
     (if \<not> hasReadReplica s then run ReadPool (recordQuery operation ''write'' s)
      else
        (case run ReadPool (recordQuery operation ''read'' s) of (result, s) \<Rightarrow>
           if (case result of Inr _ \<Rightarrow> True | Inl err \<Rightarrow> isDomainReadResult err)
           then (result, s\<lparr>pg_readHealthy := True\<rparr>)
           else if cancelled then (result, s)
           else run WritePool
                  (recordQuery operation ''write'' (recordReadFallback (s\<lparr>pg_readHealthy := False\<rparr>)))))"

definition queryReadRowsWithFallback ::
    "bool \<Rightarrow> (pool \<Rightarrow> rowsFault) \<Rightarrow> string \<Rightarrow> (row list \<Rightarrow> row list)
     \<Rightarrow> (row list \<Rightarrow> pgStore \<Rightarrow> (storeError + 'a) \<times> pgStore) \<Rightarrow> pgStore \<Rightarrow> (storeError + 'a) \<times> pgStore" where
  "queryReadRowsWithFallback cancelled faults operation query consumeRows s =
     readWithFallback cancelled operation
       (\<lambda>p s. case rf_query (faults p) of
           Some e \<Rightarrow> (Inl (DatabaseError e), s)
         | None \<Rightarrow>
           (case rf_rows (faults p) of
              Some e \<Rightarrow> (Inl (DatabaseError e), s)
            | None \<Rightarrow>
              (case consumeRows (query (pool_rows p s)) s of (result, s) \<Rightarrow>
                 (case rf_close (faults p) of
                    Some e \<Rightarrow> (Inl (DatabaseError e), s)
                  | None \<Rightarrow> (result, s))))) s"

subsection \<open>Statements\<close>

text \<open>\<open>UPDATE ... WHERE\<close> and \<open>DELETE ... WHERE\<close> with the count of rows they report.\<close>

definition update_rows :: "(row \<Rightarrow> bool) \<Rightarrow> (row \<Rightarrow> row) \<Rightarrow> row list \<Rightarrow> row list" where
  "update_rows P f rs = map (\<lambda>r. if P r then f r else r) rs"

definition exec ::
    "execOutcome \<Rightarrow> (row \<Rightarrow> bool) \<Rightarrow> (row list \<Rightarrow> row list) \<Rightarrow> pgStore \<Rightarrow> (storeError + nat) \<times> pgStore" where
  "exec outcome P change s =
     (case outcome of
        Executed \<Rightarrow> (Inr (length (filter P (pg_writeDB s))), s\<lparr>pg_writeDB := change (pg_writeDB s)\<rparr>)
      | Rejected e \<Rightarrow> (Inl (DatabaseError e), s)
      | Unacknowledged e \<Rightarrow> (Inl (DatabaseError e), s\<lparr>pg_writeDB := change (pg_writeDB s)\<rparr>))"

text \<open>
  The primary key and the unique index on \<open>(key_hash, tenant)\<close> make the insertion fail.
\<close>

definition violates :: "row \<Rightarrow> row list \<Rightarrow> bool" where
  "violates n rs \<longleftrightarrow> (\<exists>r\<in>set rs. r_id r = r_id n \<or> (r_key_hash r = r_key_hash n \<and> r_tenant r = r_tenant n))"

definition new_row :: "time \<Rightarrow> newKey \<Rightarrow> row" where
  "new_row now n =
     \<lparr>r_id = nk_keyID n, r_username = nk_username n, r_name = nk_name n,
      r_description = Some (nk_description n), r_key_hash = nk_keyHash n,
      r_user_groups = nk_userGroups n, r_subscription = nk_subscription n, r_tenant = nk_tenant n,
      r_status = StatusActive, r_created_at = timestamptz now,
      r_expires_at = map_option timestamptz (nk_expiresAt n), r_last_used_at = None, r_deleted_at = None,
      r_ephemeral = nk_ephemeral n, r_labels = (if nk_labels n = [] then None else Some (nk_labels n))\<rparr>"

definition pg_AddKey :: "execOutcome \<Rightarrow> time \<Rightarrow> newKey \<Rightarrow> pgStore \<Rightarrow> storeError option \<times> pgStore" where
  "pg_AddKey outcome now n s =
     (if nk_keyID n = [] then (Some ErrEmptyJTI, s)
      else if nk_name n = [] then (Some ErrEmptyName, s)
      else if nk_keyHash n = [] then (Some HashRequired, s)
      else if nk_subscription n = [] then (Some SubscriptionRequired, s)
      else if nk_ephemeral n \<and> nk_expiresAt n = None then (Some EphemeralNeedsExpiration, s)
      else if nk_tenant n \<noteq> pg_tenantName s then (Some AddKeyTenantMismatch, s)
      else
        (let s = recordQuery ''add_key'' ''write'' s; r = new_row now n in
         if violates r (pg_writeDB s) then (Some (DatabaseError ''constraint violation''), s)
         else
           (case exec outcome (\<lambda>_. False) (\<lambda>rs. rs @ [r]) s of
              (Inl e, s) \<Rightarrow> (Some e, s) | (Inr _, s) \<Rightarrow> (None, s))))"

text \<open>The effective status that the \<open>CASE\<close> expression of the queries computes.\<close>

definition effective_status :: "time \<Rightarrow> row \<Rightarrow> status" where
  "effective_status now r =
     (if r_status r = StatusActive \<and> (case r_expires_at r of None \<Rightarrow> False | Some t \<Rightarrow> t < now)
      then StatusExpired else r_status r)"

definition scan_key :: "status \<Rightarrow> row \<Rightarrow> apiKey" where
  "scan_key st r =
     \<lparr>ak_ID = r_id r, ak_Name = r_name r,
      ak_Description = (case r_description r of None \<Rightarrow> [] | Some d \<Rightarrow> d),
      ak_Username = r_username r, ak_Subscription = r_subscription r, ak_Tenant = r_tenant r,
      ak_Groups = [], ak_CreationDate = Some (rfc3339 (r_created_at r)),
      ak_ExpirationDate = map_option rfc3339 (r_expires_at r), ak_Status = st,
      ak_LastUsedAt = map_option rfc3339 (r_last_used_at r), ak_Ephemeral = r_ephemeral r,
      ak_Labels = (case r_labels r of None \<Rightarrow> [] | Some l \<Rightarrow> l)\<rparr>"

text \<open>
  \<open>Get\<close> reads the row by \<open>id\<close> and tenant and applies the same fallback policy, spelled
  out in the code. A fault of a pool is an error of its \<open>Scan\<close> other than \<open>ErrNoRows\<close>.
\<close>

definition get_row :: "string \<Rightarrow> pgStore \<Rightarrow> row list \<Rightarrow> row option" where
  "get_row keyID s rs = find (\<lambda>r. r_id r = keyID \<and> r_tenant r = pg_tenantName s) rs"

definition pg_Get ::
    "bool \<Rightarrow> (pool \<Rightarrow> string option) \<Rightarrow> time \<Rightarrow> string \<Rightarrow> pgStore \<Rightarrow> (storeError + apiKey) \<times> pgStore" where
  "pg_Get cancelled faults now keyID s =
     (let s = recordQuery ''get'' (if hasReadReplica s then ''read'' else ''write'') s;
          view = (\<lambda>r. scan_key (effective_status now r) r)
      in case faults ReadPool of
           None \<Rightarrow>
             (let s' = (if hasReadReplica s then s\<lparr>pg_readHealthy := True\<rparr> else s)
              in case get_row keyID s (pool_rows ReadPool s) of
                   None \<Rightarrow> (Inl ErrKeyNotFound, s')
                 | Some r \<Rightarrow> (Inr (view r), s'))
         | Some e \<Rightarrow>
             if \<not> hasReadReplica s then (Inl (DatabaseError e), s)
             else if cancelled then (Inl (DatabaseError e), s)
             else
               (let s = recordQuery ''get'' ''write'' (recordReadFallback (s\<lparr>pg_readHealthy := False\<rparr>))
                in case faults WritePool of
                     Some e \<Rightarrow> (Inl (DatabaseError e), s)
                   | None \<Rightarrow>
                     (case get_row keyID s (pool_rows WritePool s) of
                        None \<Rightarrow> (Inl ErrKeyNotFound, s)
                      | Some r \<Rightarrow> (Inr (view r), s))))"

text \<open>
  The rows of \<open>GetByHash\<close>; its callback expires an active key whose time is over, on the
  primary, whatever becomes of that statement.
\<close>

definition hash_rows :: "string \<Rightarrow> string \<Rightarrow> row list \<Rightarrow> row list" where
  "hash_rows keyHash tenantName =
     filter (\<lambda>r. r_key_hash r = keyHash \<and> r_tenant r = tenantName \<and> r_deleted_at r = None)"

definition expire_row :: "execOutcome \<Rightarrow> string \<Rightarrow> pgStore \<Rightarrow> pgStore" where
  "expire_row outcome i s =
     (let P = (\<lambda>r. r_id r = i \<and> r_tenant r = pg_tenantName s \<and> r_status r = StatusActive)
      in snd (exec outcome P (update_rows P (\<lambda>r. r\<lparr>r_status := StatusExpired\<rparr>)) s))"

definition consume_hash :: "execOutcome \<Rightarrow> time \<Rightarrow> row list \<Rightarrow> pgStore \<Rightarrow> (storeError + apiKey) \<times> pgStore" where
  "consume_hash outcome now rows s =
     (case rows of
        [] \<Rightarrow> (Inl ErrKeyNotFound, s)
      | r # _ \<Rightarrow>
        (let over = (case r_expires_at r of None \<Rightarrow> False | Some t \<Rightarrow> now > t) \<and> r_status r = StatusActive;
             s = (if over then expire_row outcome (r_id r) s else s);
             st = (if over then StatusExpired else r_status r);
             k = (scan_key st r)\<lparr>ak_Groups := r_user_groups r, ak_CreationDate := None,
                                 ak_ExpirationDate := None, ak_Labels := []\<rparr>
         in if st = StatusRevoked \<or> st = StatusExpired then (Inl ErrInvalidKey, s)
            else (Inr k, s)))"

definition pg_GetByHash ::
    "bool \<Rightarrow> (pool \<Rightarrow> rowsFault) \<Rightarrow> execOutcome \<Rightarrow> time \<Rightarrow> string \<Rightarrow> pgStore \<Rightarrow> (storeError + apiKey) \<times> pgStore" where
  "pg_GetByHash cancelled faults outcome now keyHash s =
     queryReadRowsWithFallback cancelled faults ''get_by_hash'' (hash_rows keyHash (pg_tenantName s))
       (consume_hash outcome now) s"

definition bulkRevokeWhereClause :: "time \<Rightarrow> string \<Rightarrow> string \<Rightarrow> string \<Rightarrow> row \<Rightarrow> bool" where
  "bulkRevokeWhereClause now tenantName username subscription r \<longleftrightarrow>
     r_tenant r = tenantName \<and> r_status r = StatusActive \<and> r_deleted_at r = None \<and>
     (case r_expires_at r of None \<Rightarrow> True | Some t \<Rightarrow> t > now) \<and>
     (username \<noteq> [] \<longrightarrow> r_username r = username) \<and>
     (subscription \<noteq> [] \<longrightarrow> r_subscription r = subscription)"

definition pg_BulkRevoke ::
    "execOutcome \<Rightarrow> time \<Rightarrow> string \<Rightarrow> string \<Rightarrow> string \<Rightarrow> bool \<Rightarrow> pgStore \<Rightarrow> (storeError + nat) \<times> pgStore" where
  "pg_BulkRevoke outcome now username subscription tenant dryRun s =
     (if username = [] \<and> subscription = [] then (Inl ScopeRequired, s)
      else if tenant \<noteq> pg_tenantName s then (Inl ErrTenantMismatch, s)
      else
        (let P = bulkRevokeWhereClause now (pg_tenantName s) username subscription;
             s = recordQuery ''bulk_revoke'' ''write'' s
         in if dryRun then
              (case outcome of
                 Executed \<Rightarrow> (Inr (length (filter P (pg_writeDB s))), s)
               | Rejected e \<Rightarrow> (Inl (DatabaseError e), s)
               | Unacknowledged e \<Rightarrow> (Inl (DatabaseError e), s))
            else exec outcome P (update_rows P (\<lambda>r. r\<lparr>r_status := StatusRevoked\<rparr>)) s))"

definition soft_delete_row :: "time \<Rightarrow> row \<Rightarrow> row" where
  "soft_delete_row now r =
     r\<lparr>r_deleted_at := Some now,
       r_status := (if r_status r = StatusActive then StatusRevoked else r_status r)\<rparr>"

definition pg_InvalidateTenant ::
    "execOutcome \<Rightarrow> time \<Rightarrow> string \<Rightarrow> pgStore \<Rightarrow> (storeError + nat) \<times> pgStore" where
  "pg_InvalidateTenant outcome now tenant s =
     (if tenant \<noteq> pg_tenantName s then (Inl ErrTenantMismatch, s)
      else
        (let P = (\<lambda>r. r_tenant r = pg_tenantName s \<and> r_deleted_at r = None)
         in exec outcome P (update_rows P (soft_delete_row now)) (recordQuery ''invalidate_tenant'' ''write'' s)))"

definition pg_InvalidateSubscription ::
    "execOutcome \<Rightarrow> time \<Rightarrow> string \<Rightarrow> string \<Rightarrow> pgStore \<Rightarrow> (storeError + nat) \<times> pgStore" where
  "pg_InvalidateSubscription outcome now tenant subscription s =
     (if tenant \<noteq> pg_tenantName s then (Inl ErrTenantMismatch, s)
      else if TrimSpace subscription = [] then (Inl SubscriptionRequired, s)
      else
        (let P = (\<lambda>r. r_tenant r = tenant \<and> r_subscription r = subscription \<and> r_deleted_at r = None)
         in exec outcome P (update_rows P (soft_delete_row now))
              (recordQuery ''invalidate_subscription'' ''write'' s)))"

definition pg_Revoke :: "execOutcome \<Rightarrow> string \<Rightarrow> pgStore \<Rightarrow> storeError option \<times> pgStore" where
  "pg_Revoke outcome keyID s =
     (let P = (\<lambda>r. r_id r = keyID \<and> r_tenant r = pg_tenantName s \<and> r_status r = StatusActive)
      in case exec outcome P (update_rows P (\<lambda>r. r\<lparr>r_status := StatusRevoked\<rparr>))
                (recordQuery ''revoke'' ''write'' s) of
           (Inl e, s) \<Rightarrow> (Some e, s)
         | (Inr rows, s) \<Rightarrow> (if rows = 0 then Some ErrKeyNotFound else None, s))"

definition pg_UpdateLastUsed :: "execOutcome \<Rightarrow> time \<Rightarrow> string \<Rightarrow> pgStore \<Rightarrow> storeError option \<times> pgStore" where
  "pg_UpdateLastUsed outcome now keyID s =
     (let P = (\<lambda>r. r_id r = keyID \<and> r_tenant r = pg_tenantName s)
      in case exec outcome P (update_rows P (\<lambda>r. r\<lparr>r_last_used_at := Some (timestamptz now)\<rparr>))
                (recordQuery ''update_last_used'' ''write'' s) of
           (Inl e, s) \<Rightarrow> (Some e, s) | (Inr _, s) \<Rightarrow> (None, s))"

definition pg_DeleteExpiredEphemeral :: "execOutcome \<Rightarrow> time \<Rightarrow> pgStore \<Rightarrow> (storeError + nat) \<times> pgStore" where
  "pg_DeleteExpiredEphemeral outcome now s =
     (let P = (\<lambda>r. r_tenant r = pg_tenantName s \<and> r_deleted_at r = None \<and> r_ephemeral r \<and>
                   (case r_expires_at r of None \<Rightarrow> False | Some t \<Rightarrow> t < now - 30 * Minute))
      in exec outcome P (filter (\<lambda>r. \<not> P r)) (recordQuery ''delete_expired_ephemeral'' ''write'' s))"

definition pg_DeleteSoftDeleted :: "execOutcome \<Rightarrow> time \<Rightarrow> int \<Rightarrow> pgStore \<Rightarrow> (storeError + nat) \<times> pgStore" where
  "pg_DeleteSoftDeleted outcome now retention s =
     (if retention < 0 then (Inl RetentionNegative, s)
      else
        (let P = (\<lambda>r. r_tenant r = pg_tenantName s \<and>
                      (case r_deleted_at r of None \<Rightarrow> False | Some t \<Rightarrow> t < timestamptz (now - retention)))
         in exec outcome P (filter (\<lambda>r. \<not> P r)) (recordQuery ''delete_soft_deleted'' ''write'' s)))"

subsection \<open>Searching\<close>

text \<open>The conditions that \<open>Search\<close> collects in its \<open>WHERE\<close> clause.\<close>

definition appendSubscriptionSearchFilters :: "searchFilters \<Rightarrow> row \<Rightarrow> bool" where
  "appendSubscriptionSearchFilters filters r \<longleftrightarrow>
     (let subscription = (case sf_Subscription filters of None \<Rightarrow> [] | Some s \<Rightarrow> TrimSpace s)
      in (subscription \<noteq> [] \<longrightarrow> r_subscription r = subscription) \<and>
         (sf_SubscriptionNames filters \<noteq> [] \<longrightarrow>
            r_subscription r \<in> set (map TrimSpace (sf_SubscriptionNames filters))))"

definition labels_contained :: "labels option \<Rightarrow> labels \<Rightarrow> bool" where
  "labels_contained have want =
     (case have of None \<Rightarrow> False | Some l \<Rightarrow> list_all (\<lambda>(k, v). map_of l k = Some v) want)"

definition search_where :: "time \<Rightarrow> string \<Rightarrow> string \<Rightarrow> searchFilters \<Rightarrow> row \<Rightarrow> bool" where
  "search_where now tenantName username filters r \<longleftrightarrow>
     r_tenant r = tenantName \<and> r_deleted_at r = None \<and>
     (sf_IncludeEphemeral filters \<noteq> Some True \<longrightarrow> \<not> r_ephemeral r) \<and>
     (username \<noteq> [] \<longrightarrow> r_username r = username) \<and>
     (sf_Status filters \<noteq> [] \<longrightarrow>
        status_string (effective_status now r) \<in> set (map TrimSpace (sf_Status filters))) \<and>
     appendSubscriptionSearchFilters filters r \<and>
     (sf_LabelsContain filters \<noteq> [] \<longrightarrow> labels_contained (r_labels r) (sf_LabelsContain filters))"

definition ValidSortFields :: "string list" where
  "ValidSortFields = [''created_at'', ''expires_at'', ''last_used_at'', ''name'']"

definition ValidSortOrders :: "string list" where
  "ValidSortOrders = [''asc'', ''desc'']"

definition nulls_last :: "bool \<Rightarrow> time option \<Rightarrow> time option \<Rightarrow> bool" where
  "nulls_last asc a b =
     (case (a, b) of
        (Some x, Some y) \<Rightarrow> if asc then x < y else y < x
      | (Some _, None) \<Rightarrow> True
      | (None, _) \<Rightarrow> False)"

definition order_by :: "(string \<Rightarrow> string \<Rightarrow> bool) \<Rightarrow> string \<Rightarrow> string \<Rightarrow> row \<Rightarrow> row \<Rightarrow> bool" where
  "order_by collation by order a b =
     (let sortBy = (if by \<in> set ValidSortFields then by else ''created_at'');
          sortOrder = (if ToLower order \<in> set ValidSortOrders then ToLower order else ''desc'');
          asc = (sortOrder = ''asc'')
      in if sortBy = ''expires_at'' then nulls_last asc (r_expires_at a) (r_expires_at b)
         else if sortBy = ''last_used_at'' then nulls_last asc (r_last_used_at a) (r_last_used_at b)
         else if sortBy = ''name'' then
           (if asc then collation (r_name a) (r_name b) else collation (r_name b) (r_name a))
         else (if asc then r_created_at a < r_created_at b else r_created_at b < r_created_at a))"

definition search_query ::
    "(string \<Rightarrow> string \<Rightarrow> bool) \<Rightarrow> time \<Rightarrow> string \<Rightarrow> string \<Rightarrow> searchFilters \<Rightarrow> sortParams \<Rightarrow> paginationParams
     \<Rightarrow> row list \<Rightarrow> row list" where
  "search_query collation now tenantName username filters sorting pagination rs =
     take (nat (pp_Limit pagination + 1)) (drop (nat (pp_Offset pagination))
       (SliceStable (order_by collation (so_By sorting) (so_Order sorting))
         (filter (search_where now tenantName username filters) rs)))"

definition consume_search :: "time \<Rightarrow> paginationParams \<Rightarrow> row list \<Rightarrow> pgStore \<Rightarrow> (storeError + paginatedResult) \<times> pgStore" where
  "consume_search now pagination rows s =
     (let keys = map (\<lambda>r. scan_key (effective_status now r) r) rows;
          hasMore = int (length keys) > pp_Limit pagination;
          keys = (if hasMore then take (nat (pp_Limit pagination)) keys else keys)
      in (Inr \<lparr>pr_Keys = keys, pr_HasMore = hasMore\<rparr>, s))"

definition pg_Search ::
    "(string \<Rightarrow> string \<Rightarrow> bool) \<Rightarrow> bool \<Rightarrow> (pool \<Rightarrow> rowsFault) \<Rightarrow> time \<Rightarrow> string \<Rightarrow> searchFilters
     \<Rightarrow> sortParams \<Rightarrow> paginationParams \<Rightarrow> pgStore \<Rightarrow> (storeError + paginatedResult) \<times> pgStore" where
  "pg_Search collation cancelled faults now username filters sorting pagination s =
     (if pp_Limit pagination < 1 \<or> MaxLimit < pp_Limit pagination then (Inl LimitOutOfRange, s)
      else if pp_Offset pagination < 0 then (Inl OffsetNegative, s)
      else queryReadRowsWithFallback cancelled faults ''search''
             (search_query collation now (pg_tenantName s) username filters sorting pagination)
             (consume_search now pagination) s)"

subsection \<open>The operations as steps\<close>

text \<open>
  An operation together with what the database answers it; \<open>Replicate\<close> is the replica
  catching up with the primary.
\<close>

datatype pgOp =
    Store execOutcome storeOp
  | Lookup bool "pool \<Rightarrow> rowsFault" execOutcome time string
  | Replicate

fun pg_store :: "execOutcome \<Rightarrow> storeOp \<Rightarrow> pgStore \<Rightarrow> pgStore" where
  "pg_store out (OpAddKey now n) s = snd (pg_AddKey out now n s)"
| "pg_store out (OpGetByHash now h) s = snd (pg_GetByHash False (\<lambda>_. no_fault) out now h s)"
| "pg_store out (OpBulkRevoke now u sub t dry) s = snd (pg_BulkRevoke out now u sub t dry s)"
| "pg_store out (OpInvalidateTenant now t) s = snd (pg_InvalidateTenant out now t s)"
| "pg_store out (OpInvalidateSubscription now t sub) s = snd (pg_InvalidateSubscription out now t sub s)"
| "pg_store out (OpRevoke i) s = snd (pg_Revoke out i s)"
| "pg_store out (OpUpdateLastUsed now i) s = snd (pg_UpdateLastUsed out now i s)"
| "pg_store out (OpDeleteExpiredEphemeral now) s = snd (pg_DeleteExpiredEphemeral out now s)"
| "pg_store out (OpDeleteSoftDeleted now r) s = snd (pg_DeleteSoftDeleted out now r s)"

fun pg_step :: "pgOp \<Rightarrow> pgStore \<Rightarrow> pgStore" where
  "pg_step (Store out op) s = pg_store out op s"
| "pg_step (Lookup c f out now h) s = snd (pg_GetByHash c f out now h s)"
| "pg_step Replicate s = s\<lparr>pg_readDB := map_option (\<lambda>_. pg_writeDB s) (pg_readDB s)\<rparr>"

fun pg_added :: "pgOp \<Rightarrow> string option" where
  "pg_added (Store out op) = op_added op"
| "pg_added _ = None"

definition row_view :: "row \<Rightarrow> keyView" where
  "row_view r =
     \<lparr>kv_id = r_id r, kv_hash = r_key_hash r, kv_username = r_username r, kv_groups = r_user_groups r,
      kv_subscription = r_subscription r, kv_tenant = r_tenant r, kv_status = r_status r,
      kv_expires = r_expires_at r, kv_deleted = (r_deleted_at r \<noteq> None)\<rparr>"

text \<open>Every row that a lookup may read: those of the primary and those of the replica.\<close>

definition all_rows :: "pgStore \<Rightarrow> row list" where
  "all_rows s = pg_writeDB s @ (case pg_readDB s of None \<Rightarrow> [] | Some t \<Rightarrow> t)"

definition pg_keys :: "pgStore \<Rightarrow> keyView list" where
  "pg_keys s = map row_view (all_rows s)"

subsection \<open>What a statement may change\<close>

text \<open>
  Every operation other than the insertion keeps the tenant and the replica, moves rows of
  the primary forward or removes them, and leaves the rows of other tenants as they are.
\<close>

definition foreign :: "pgStore \<Rightarrow> row \<Rightarrow> bool" where
  "foreign s r \<longleftrightarrow> r_tenant r \<noteq> pg_tenantName s"

definition scoped :: "pgStore \<Rightarrow> pgStore \<Rightarrow> bool" where
  "scoped s s' \<longleftrightarrow>
     pg_tenantName s' = pg_tenantName s \<and> pg_readDB s' = pg_readDB s \<and>
     filter (foreign s) (pg_writeDB s') = filter (foreign s) (pg_writeDB s)"

definition only_forward :: "pgStore \<Rightarrow> pgStore \<Rightarrow> bool" where
  "only_forward s s' \<longleftrightarrow>
     (\<forall>r'\<in>set (pg_writeDB s'). \<exists>r\<in>set (pg_writeDB s). advances (row_view r) (row_view r'))"

lemma row_view_sel [simp]:
  "kv_id (row_view r) = r_id r" "kv_hash (row_view r) = r_key_hash r"
  "kv_username (row_view r) = r_username r" "kv_groups (row_view r) = r_user_groups r"
  "kv_subscription (row_view r) = r_subscription r" "kv_tenant (row_view r) = r_tenant r"
  "kv_status (row_view r) = r_status r" "kv_expires (row_view r) = r_expires_at r"
  "kv_deleted (row_view r) \<longleftrightarrow> r_deleted_at r \<noteq> None"
  by (simp_all add: row_view_def)

lemma record_sel [simp]:
  "pg_writeDB (recordQuery a b s) = pg_writeDB s" "pg_readDB (recordQuery a b s) = pg_readDB s"
  "pg_tenantName (recordQuery a b s) = pg_tenantName s" "pg_readHealthy (recordQuery a b s) = pg_readHealthy s"
  "pg_fallbacks (recordQuery a b s) = pg_fallbacks s"
  "pg_writeDB (recordReadFallback s) = pg_writeDB s" "pg_readDB (recordReadFallback s) = pg_readDB s"
  "pg_tenantName (recordReadFallback s) = pg_tenantName s"
  "pg_readHealthy (recordReadFallback s) = pg_readHealthy s"
  "pg_fallbacks (recordReadFallback s) = pg_fallbacks s + 1"
  "pg_queries (recordReadFallback s) = pg_queries s"
  "pg_queries (recordQuery a b s) = pg_queries s @ [(a, b)]"
  by (simp_all add: recordQuery_def recordReadFallback_def)

lemma hasReadReplica_record [simp]: "hasReadReplica (recordQuery a b s) = hasReadReplica s"
  by (simp add: hasReadReplica_def)

lemma pool_rows_record [simp]:
  "pool_rows p (recordQuery a b s) = pool_rows p s" "pool_rows p (recordReadFallback s) = pool_rows p s"
  "pool_rows p (s\<lparr>pg_readHealthy := x\<rparr>) = pool_rows p s"
  by (auto simp: pool_rows_def split: pool.splits option.splits)

lemma scoped_same [simp]:
  "pg_tenantName s' = pg_tenantName s \<Longrightarrow> pg_readDB s' = pg_readDB s \<Longrightarrow> pg_writeDB s' = pg_writeDB s \<Longrightarrow>
   scoped s s' \<and> only_forward s s'"
  by (auto simp: scoped_def only_forward_def)

lemma foreign_update_rows:
  assumes "\<And>r. P r \<Longrightarrow> r_tenant r = t" and "\<And>r. r_tenant (f r) = r_tenant r"
  shows "filter (\<lambda>r. r_tenant r \<noteq> t) (update_rows P f rs) = filter (\<lambda>r. r_tenant r \<noteq> t) rs"
  using assms by (induction rs) (auto simp: update_rows_def)

lemma exec_update_ok [pg_simps]:
  assumes "\<And>r. P r \<Longrightarrow> r_tenant r = pg_tenantName s" and "\<And>r. r_tenant (f r) = r_tenant r"
    and "\<And>r. P r \<Longrightarrow> advances (row_view r) (row_view (f r))"
  shows "scoped s (snd (exec outcome P (update_rows P f) s)) \<and>
         only_forward s (snd (exec outcome P (update_rows P f) s))"
proof -
  have fwd: "\<exists>r\<in>set rs. advances (row_view r) (row_view r')" if "r' \<in> set (update_rows P f rs)" for r' rs
    using that assms(3) by (auto simp: update_rows_def)
  show ?thesis
    using foreign_update_rows [of P "pg_tenantName s" f "pg_writeDB s", OF assms(1,2)] fwd
    by (auto simp: exec_def scoped_def only_forward_def foreign_def [abs_def] split: execOutcome.splits)
qed

lemma exec_delete_ok [pg_simps]:
  assumes "\<And>r. P r \<Longrightarrow> r_tenant r = pg_tenantName s"
  shows "scoped s (snd (exec outcome P (filter (\<lambda>r. \<not> P r)) s)) \<and>
         only_forward s (snd (exec outcome P (filter (\<lambda>r. \<not> P r)) s))"
proof -
  have "filter (foreign s) (filter (\<lambda>r. \<not> P r) rs) = filter (foreign s) rs" for rs
    using assms by (induction rs) (auto simp: foreign_def)
  then show ?thesis
    by (auto simp: exec_def scoped_def only_forward_def split: execOutcome.splits)
qed

lemma advances_rows [pg_simps]:
  "r_status r = StatusActive \<Longrightarrow> advances (row_view r) (row_view (r\<lparr>r_status := st\<rparr>))"
  "advances (row_view r) (row_view (soft_delete_row now r))"
  "advances (row_view r) (row_view (r\<lparr>r_last_used_at := t\<rparr>))"
  by (auto simp: advances_def row_view_def soft_delete_row_def)

text \<open>Queries recorded before a statement do not matter for these relations.\<close>

lemma scoped_record [simp]: "scoped (recordQuery a b s) s' = scoped s s'"
  by (simp add: scoped_def foreign_def [abs_def])

lemma only_forward_record [simp]: "only_forward (recordQuery a b s) s' = only_forward s s'"
  by (simp add: only_forward_def)

definition harmless :: "pgStore \<Rightarrow> pgStore \<Rightarrow> bool" where
  "harmless s s' \<longleftrightarrow> scoped s s' \<and> only_forward s s'"

lemma harmless_refl [simp]: "harmless s s"
  by (simp add: harmless_def)

lemma harmless_trans: "harmless a b \<Longrightarrow> harmless b c \<Longrightarrow> harmless a c"
  unfolding harmless_def scoped_def only_forward_def foreign_def [abs_def]
  by (auto intro: advances_trans) (meson advances_trans)

lemma harmless_record [simp]:
  "harmless (recordQuery a b s) s' = harmless s s'" "harmless s (recordQuery a b s') = harmless s s'"
  "harmless (recordReadFallback s) s' = harmless s s'" "harmless s (recordReadFallback s') = harmless s s'"
  "harmless (s\<lparr>pg_readHealthy := x\<rparr>) s' = harmless s s'" "harmless s (s'\<lparr>pg_readHealthy := x\<rparr>) = harmless s s'"
  by (simp_all add: harmless_def scoped_def only_forward_def foreign_def [abs_def])

lemma harmless_update:
  assumes "\<And>r. P r \<Longrightarrow> r_tenant r = pg_tenantName s" and "\<And>r. r_tenant (f r) = r_tenant r"
    and "\<And>r. P r \<Longrightarrow> advances (row_view r) (row_view (f r))"
  shows "harmless s (snd (exec outcome P (update_rows P f) s))"
  unfolding harmless_def by (rule exec_update_ok) (use assms in auto)

lemma harmless_delete:
  assumes "\<And>r. P r \<Longrightarrow> r_tenant r = pg_tenantName s"
  shows "harmless s (snd (exec outcome P (filter (\<lambda>r. \<not> P r)) s))"
  unfolding harmless_def by (rule exec_delete_ok) (use assms in auto)

text \<open>The operations, one by one.\<close>

lemma harmless_expire_row [pg_simps]: "harmless s (expire_row outcome i s)"
  unfolding expire_row_def Let_def by (rule harmless_update) (auto simp: pg_simps)

lemma harmless_consume_hash [pg_simps]: "harmless s (snd (consume_hash outcome now rows s))"
  by (auto simp: consume_hash_def Let_def pg_simps split: list.splits)

lemma harmless_readWithFallback:
  assumes "\<And>p s. harmless s (snd (run p s))"
  shows "harmless s (snd (readWithFallback cancelled operation run s))"
proof -
  have first: "harmless s (snd (run p (recordQuery operation x s)))" for p x s
    using assms [of "recordQuery operation x s" p] by simp
  obtain r t where rt: "run ReadPool (recordQuery operation ''read'' s) = (r, t)" by fastforce
  with first [of s ReadPool "''read''"] have st: "harmless s t" by simp
  have "harmless t (snd (run WritePool (recordQuery operation ''write'' (recordReadFallback (t\<lparr>pg_readHealthy := False\<rparr>)))))"
    using first [of "recordReadFallback (t\<lparr>pg_readHealthy := False\<rparr>)" WritePool "''write''"] by simp
  with st have "harmless s (snd (run WritePool (recordQuery operation ''write'' (recordReadFallback (t\<lparr>pg_readHealthy := False\<rparr>)))))"
    by (rule harmless_trans)
  with first st rt show ?thesis by (simp add: readWithFallback_def)
qed

lemma harmless_GetByHash [pg_simps]: "harmless s (snd (pg_GetByHash c f outcome now h s))"
proof -
  have run: "harmless s (snd (case consume_hash outcome now rows s of (result, s) \<Rightarrow>
      (case e of Some e \<Rightarrow> (Inl (DatabaseError e), s) | None \<Rightarrow> (result, s))))" for rows e s
    using harmless_consume_hash [of s outcome now rows] by (auto split: prod.splits option.splits)
  show ?thesis
    unfolding pg_GetByHash_def queryReadRowsWithFallback_def
    by (rule harmless_readWithFallback) (auto simp: run split: option.splits)
qed

lemma exec_snd_record: "snd (exec outcome P f (recordQuery a b s)) = recordQuery a b (snd (exec outcome P f s))"
  by (auto simp: exec_def recordQuery_def split: execOutcome.splits)

lemma snd_exec_error [simp]:
  "snd (case exec outcome P f s of (Inl e, s) \<Rightarrow> (Some e, s) | (Inr n, s) \<Rightarrow> (g n, s)) = snd (exec outcome P f s)"
  by (auto split: prod.splits sum.splits)

lemma harmless_ops [pg_simps]:
  "harmless s (snd (pg_BulkRevoke outcome now u sub t dry s))"
  "harmless s (snd (pg_InvalidateTenant outcome now t s))"
  "harmless s (snd (pg_InvalidateSubscription outcome now t sub s))"
  "harmless s (snd (pg_Revoke outcome i s))"
  "harmless s (snd (pg_UpdateLastUsed outcome now i s))"
  "harmless s (snd (pg_DeleteExpiredEphemeral outcome now s))"
  "harmless s (snd (pg_DeleteSoftDeleted outcome now ret s))"
proof -
  have dry: "harmless s (snd (case outcome of Executed \<Rightarrow> (Inr n, s) | Rejected e \<Rightarrow> (Inl (DatabaseError e), s)
      | Unacknowledged e \<Rightarrow> (Inl (DatabaseError e), s)))" for n :: nat and s :: pgStore
    by (cases outcome) simp_all
  show "harmless s (snd (pg_BulkRevoke outcome now u sub t dry s))"
    using dry [where s = "recordQuery ''bulk_revoke'' ''write'' s"]
    by (auto simp: pg_BulkRevoke_def Let_def exec_snd_record bulkRevokeWhereClause_def pg_simps
        intro!: harmless_update)
  show "harmless s (snd (pg_InvalidateTenant outcome now t s))"
    by (auto simp: pg_InvalidateTenant_def Let_def exec_snd_record soft_delete_row_def advances_rows(2) [unfolded soft_delete_row_def]
        intro!: harmless_update)
  show "harmless s (snd (pg_InvalidateSubscription outcome now t sub s))"
    by (auto simp: pg_InvalidateSubscription_def Let_def exec_snd_record soft_delete_row_def
        advances_rows(2) [unfolded soft_delete_row_def] intro!: harmless_update)
  show "harmless s (snd (pg_Revoke outcome i s))"
    by (auto simp: pg_Revoke_def Let_def exec_snd_record pg_simps intro!: harmless_update)
  show "harmless s (snd (pg_UpdateLastUsed outcome now i s))"
    by (auto simp: pg_UpdateLastUsed_def Let_def exec_snd_record pg_simps intro!: harmless_update)
  show "harmless s (snd (pg_DeleteExpiredEphemeral outcome now s))"
    unfolding pg_DeleteExpiredEphemeral_def Let_def exec_snd_record harmless_record
    by (rule harmless_delete) simp
  show "harmless s (snd (pg_DeleteSoftDeleted outcome now ret s))"
  proof (cases "ret < 0")
    case False
    then have "snd (pg_DeleteSoftDeleted outcome now ret s) =
        (let P = (\<lambda>r. r_tenant r = pg_tenantName s \<and>
              (case r_deleted_at r of None \<Rightarrow> False | Some t \<Rightarrow> t < timestamptz (now - ret)))
         in recordQuery ''delete_soft_deleted'' ''write'' (snd (exec outcome P (filter (\<lambda>r. \<not> P r)) s)))"
      by (simp add: pg_DeleteSoftDeleted_def Let_def exec_snd_record)
    then show ?thesis
      unfolding Let_def by (simp only: harmless_record) (rule harmless_delete, simp)
  qed (simp add: pg_DeleteSoftDeleted_def)
qed

text \<open>The insertion adds one active row of the tenant of the store, or nothing.\<close>

lemma pg_AddKey_rows:
  "\<exists>rs. pg_writeDB (snd (pg_AddKey outcome now n s)) = pg_writeDB s @ rs \<and>
     (rs = [] \<or> (rs = [new_row now n] \<and> nk_tenant n = pg_tenantName s \<and> \<not> violates (new_row now n) (pg_writeDB s))) \<and>
     pg_readDB (snd (pg_AddKey outcome now n s)) = pg_readDB s \<and>
     pg_tenantName (snd (pg_AddKey outcome now n s)) = pg_tenantName s"
  by (auto simp: pg_AddKey_def Let_def exec_def split: execOutcome.splits)

lemma new_row_sel [simp]:
  "r_id (new_row now n) = nk_keyID n" "r_tenant (new_row now n) = nk_tenant n"
  "r_key_hash (new_row now n) = nk_keyHash n" "r_status (new_row now n) = StatusActive"
  "r_deleted_at (new_row now n) = None"
  by (simp_all add: new_row_def)

lemma pg_store_harmless:
  assumes "op_added op = None"
  shows "harmless s (pg_store out op s)"
  using assms by (cases op) (simp_all add: pg_simps)

lemma pg_store_scoped: "scoped s (pg_store out op s)"
proof (cases "op_added op")
  case None
  then show ?thesis using pg_store_harmless by (simp add: harmless_def)
next
  case (Some i)
  then obtain now n where op: "op = OpAddKey now n" by (cases op) auto
  show ?thesis
    using pg_AddKey_rows [of out now n s] by (auto simp: op scoped_def foreign_def)
qed

text \<open>A lookup that succeeds has read a live row of the tenant with the hash.\<close>

lemma consume_hash_Inr:
  assumes "fst (consume_hash outcome now (hash_rows h t rs) s) = Inr a"
  shows "\<exists>r\<in>set rs. r_key_hash r = h \<and> r_tenant r = t \<and> usable now (row_view r) \<and>
     ak_ID a = r_id r \<and> ak_Username a = r_username r \<and> ak_Groups a = r_user_groups r \<and>
     ak_Subscription a = r_subscription r \<and> ak_Tenant a = r_tenant r"
proof -
  obtain r rest where r: "hash_rows h t rs = r # rest"
    using assms by (cases "hash_rows h t rs") (auto simp: consume_hash_def)
  then have "r \<in> set (hash_rows h t rs)" by simp
  then have mem: "r \<in> set rs" "r_key_hash r = h" "r_tenant r = t" "r_deleted_at r = None"
    by (simp_all add: hash_rows_def)
  have "r_status r = StatusActive \<and> \<not> (case r_expires_at r of None \<Rightarrow> False | Some e \<Rightarrow> now > e)"
    using assms r by (cases "r_status r") (auto simp: consume_hash_def Let_def split: if_splits option.splits)
  moreover from this assms r have "a = (scan_key StatusActive r)\<lparr>ak_Groups := r_user_groups r, ak_CreationDate := None,
      ak_ExpirationDate := None, ak_Labels := []\<rparr>"
    by (auto simp: consume_hash_def Let_def split: option.splits)
  ultimately show ?thesis
    using mem by (intro bexI [OF _ mem(1)]) (auto simp: usable_def alive_def scan_key_def split: option.splits)
qed

definition readable :: "time \<Rightarrow> string \<Rightarrow> pgStore \<Rightarrow> apiKey \<Rightarrow> row \<Rightarrow> bool" where
  "readable now h s a r \<longleftrightarrow>
     r_key_hash r = h \<and> r_tenant r = pg_tenantName s \<and> usable now (row_view r) \<and>
     ak_ID a = r_id r \<and> ak_Username a = r_username r \<and> ak_Groups a = r_user_groups r \<and>
     ak_Subscription a = r_subscription r \<and> ak_Tenant a = r_tenant r"

lemma readable_back:
  assumes "harmless s s'" and "r' \<in> set (pg_writeDB s')" and "readable now h s' a r'"
  shows "\<exists>r\<in>set (pg_writeDB s). readable now h s a r"
proof -
  obtain r where r: "r \<in> set (pg_writeDB s)" "advances (row_view r) (row_view r')"
    using assms(1,2) by (auto simp: harmless_def only_forward_def)
  have same: "kv_id (row_view r') = kv_id (row_view r)" "kv_hash (row_view r') = kv_hash (row_view r)"
    "kv_username (row_view r') = kv_username (row_view r)" "kv_groups (row_view r') = kv_groups (row_view r)"
    "kv_subscription (row_view r') = kv_subscription (row_view r)" "kv_tenant (row_view r') = kv_tenant (row_view r)"
    using r(2) unfolding advances_def by fastforce+
  show ?thesis
    using r assms(1,3) same
    by (intro bexI [OF _ r(1)]) (auto simp: readable_def harmless_def scoped_def dest: advances_usable)
qed

lemma pool_rows_all: "r \<in> set (pool_rows p s) \<Longrightarrow> r \<in> set (all_rows s)"
  by (auto simp: pool_rows_def all_rows_def split: pool.splits option.splits)

text \<open>One attempt of a lookup on a pool, as the routing runs it.\<close>

definition hash_attempt ::
    "(pool \<Rightarrow> rowsFault) \<Rightarrow> execOutcome \<Rightarrow> time \<Rightarrow> string \<Rightarrow> string \<Rightarrow> pool \<Rightarrow> pgStore \<Rightarrow> (storeError + apiKey) \<times> pgStore" where
  "hash_attempt faults outcome now keyHash t p s =
     (case rf_query (faults p) of
        Some e \<Rightarrow> (Inl (DatabaseError e), s)
      | None \<Rightarrow>
        (case rf_rows (faults p) of
           Some e \<Rightarrow> (Inl (DatabaseError e), s)
         | None \<Rightarrow>
           (case consume_hash outcome now (hash_rows keyHash t (pool_rows p s)) s of (result, s) \<Rightarrow>
              (case rf_close (faults p) of
                 Some e \<Rightarrow> (Inl (DatabaseError e), s)
               | None \<Rightarrow> (result, s)))))"

lemma pg_GetByHash_attempt:
  "pg_GetByHash c f outcome now h s =
     readWithFallback c ''get_by_hash'' (hash_attempt f outcome now h (pg_tenantName s)) s"
  by (simp add: pg_GetByHash_def queryReadRowsWithFallback_def hash_attempt_def [abs_def])

lemma hash_attempt_harmless [pg_simps]: "harmless s (snd (hash_attempt f outcome now h t p s))"
  using harmless_consume_hash [of s outcome now "hash_rows h t (pool_rows p s)"]
  by (auto simp: hash_attempt_def split: prod.splits option.splits)

lemma hash_attempt_Inr:
  assumes "fst (hash_attempt f outcome now h (pg_tenantName s) p s) = Inr a"
  shows "\<exists>r\<in>set (pool_rows p s). readable now h s a r"
proof -
  have "fst (consume_hash outcome now (hash_rows h (pg_tenantName s) (pool_rows p s)) s) = Inr a"
    using assms by (auto simp: hash_attempt_def split: option.splits prod.splits)
  from consume_hash_Inr [OF this] show ?thesis by (simp add: readable_def)
qed

lemma pg_GetByHash_Inr:
  assumes "fst (pg_GetByHash c f outcome now h s) = Inr a"
  shows "\<exists>r\<in>set (all_rows s). readable now h s a r"
proof -
  let ?run = "hash_attempt f outcome now h (pg_tenantName s)"
  let ?s1 = "recordQuery ''get_by_hash'' ''read'' s"
  let ?t = "snd (?run ReadPool ?s1)"
  let ?s2 = "recordQuery ''get_by_hash'' ''write'' (recordReadFallback (?t\<lparr>pg_readHealthy := False\<rparr>))"
  have here: ?thesis if "fst (?run p (recordQuery q x s)) = Inr a" for p q x
    using hash_attempt_Inr [of f outcome now h "recordQuery q x s" p a] that
    by (auto simp: readable_def dest: pool_rows_all)
  have fall: ?thesis if "fst (?run WritePool ?s2) = Inr a"
  proof -
    have t: "harmless s ?t" using hash_attempt_harmless [of ?s1] by simp
    then have tn: "pg_tenantName ?s2 = pg_tenantName s" by (simp add: harmless_def scoped_def)
    have "\<exists>r\<in>set (pool_rows WritePool ?s2). readable now h ?s2 a r"
      using hash_attempt_Inr [of f outcome now h ?s2 WritePool a] that tn by simp
    then obtain r' where "r' \<in> set (pg_writeDB ?s2)" "readable now h ?s2 a r'"
      by (auto simp: pool_rows_def)
    from readable_back [OF _ this, of s] t show ?thesis by (auto simp: all_rows_def)
  qed
  show ?thesis
  proof (cases "fst (?run ReadPool ?s1) = Inr a")
    case True
    then show ?thesis by (rule here)
  next
    case False
    then show ?thesis
      using assms here fall
      by (auto simp: pg_GetByHash_attempt readWithFallback_def split: if_splits prod.splits sum.splits)
  qed
qed

lemma pg_step_keys:
  assumes "k' \<in> set (pg_keys (pg_step op s))"
  shows "pg_added op = Some (kv_id k') \<or> (\<exists>k\<in>set (pg_keys s). advances k k')"
proof (cases "pg_added op")
  case None
  have hl: "\<exists>k\<in>set (pg_keys s). advances k k'" if "harmless s (pg_step op s)"
    using assms that
    by (fastforce simp: pg_keys_def all_rows_def harmless_def scoped_def only_forward_def)
  show ?thesis
  proof (cases op)
    case (Store out sop)
    then show ?thesis using hl pg_store_harmless None by auto
  next
    case (Lookup c f out now h)
    then show ?thesis using hl by (simp add: pg_simps)
  next
    case Replicate
    then show ?thesis using assms by (auto simp: pg_keys_def all_rows_def split: option.splits)
  qed
next
  case (Some i)
  then obtain out now n where op: "op = Store out (OpAddKey now n)"
    by (cases op rule: pg_added.cases) (auto elim!: op_added.elims)
  then obtain rs where rs: "all_rows (pg_step op s) = pg_writeDB s @ rs @ (case pg_readDB s of None \<Rightarrow> [] | Some t \<Rightarrow> t)"
    "rs = [] \<or> rs = [new_row now n]"
    using pg_AddKey_rows [of out now n s] by (auto simp: all_rows_def)
  from assms obtain r where r: "k' = row_view r" "r \<in> set (all_rows (pg_step op s))" by (auto simp: pg_keys_def)
  then have "r \<in> set rs \<or> r \<in> set (all_rows s)"
    unfolding rs(1) by (auto simp only: all_rows_def set_append)
  then have "r = new_row now n \<or> r \<in> set (all_rows s)" using rs(2) by auto
  then show ?thesis using r(1) op by (auto simp: pg_keys_def)
qed

lemma pg_step_primary:
  assumes "r' \<in> set (pg_writeDB (pg_step op s))"
  shows "pg_added op = Some (r_id r') \<or> (\<exists>r\<in>set (pg_writeDB s). advances (row_view r) (row_view r'))"
proof (cases "pg_added op")
  case None
  then have "op \<noteq> Replicate \<Longrightarrow> harmless s (pg_step op s)"
    by (cases op) (simp_all add: pg_store_harmless pg_simps)
  with assms show ?thesis by (cases "op = Replicate") (auto simp: harmless_def only_forward_def)
next
  case (Some i)
  then obtain out now n where op: "op = Store out (OpAddKey now n)"
    by (cases op rule: pg_added.cases) (auto elim!: op_added.elims)
  then have "r' \<in> set (pg_writeDB s) \<or> r' = new_row now n"
    using assms pg_AddKey_rows [of out now n s] by auto
  then show ?thesis using op advances_refl by fastforce
qed

lemma pg_step_replica: "op \<noteq> Replicate \<Longrightarrow> pg_readDB (pg_step op s) = pg_readDB s"
proof (cases op)
  case (Store out sop)
  then show ?thesis using pg_store_scoped [of s out sop] by (simp add: scoped_def)
next
  case (Lookup c f out now h)
  then show ?thesis using harmless_GetByHash [of s c f out now h] by (simp add: harmless_def scoped_def)
qed simp

lemma pg_run_replica: "Replicate \<notin> set ops \<Longrightarrow> pg_readDB (fold pg_step ops s) = pg_readDB s"
  by (induction ops arbitrary: s) (auto simp: pg_step_replica)

text \<open>The rows of the primary alone have such a history, whatever the replica holds.\<close>

interpretation primary: key_history "\<lambda>s. map row_view (pg_writeDB s)" pg_step pg_added
proof
  fix k' op s assume "k' \<in> set (map row_view (pg_writeDB (pg_step op s)))"
  then show "pg_added op = Some (kv_id k') \<or> (\<exists>k\<in>set (map row_view (pg_writeDB s)). advances k k')"
    by (auto dest!: pg_step_primary)
qed

interpretation pg: key_store pg_keys pg_step pg_added "\<lambda>now h s. fst (pg_GetByHash c f outcome now h s)"
  for c f outcome
proof
  fix k' op s assume "k' \<in> set (pg_keys (pg_step op s))"
  then show "pg_added op = Some (kv_id k') \<or> (\<exists>k\<in>set (pg_keys s). advances k k')" by (rule pg_step_keys)
next
  fix now h s a assume "fst (pg_GetByHash c f outcome now h s) = Inr a"
  from pg_GetByHash_Inr [OF this]
  show "\<exists>k\<in>set (pg_keys s). kv_hash k = h \<and> usable now k \<and> ak_ID a = kv_id k \<and> ak_Username a = kv_username k \<and>
      ak_Groups a = kv_groups k \<and> ak_Subscription a = kv_subscription k \<and> ak_Tenant a = kv_tenant k"
    unfolding pg_keys_def set_map readable_def by (auto intro: rev_image_eqI)
qed

subsection \<open>Properties\<close>

text \<open>
  Once the replica has caught up with a primary on which a key is dead, nothing brings the
  key back.
\<close>

lemma unusable_after_replicate:
  assumes "\<And>r. r \<in> set (pg_writeDB s) \<Longrightarrow> r_id r = i \<Longrightarrow> \<not> usable now (row_view r)"
    and "\<forall>op\<in>set (pre @ Replicate # post). pg_added op \<noteq> Some i"
    and "fst (pg_GetByHash c f outcome now h (fold pg_step (pre @ Replicate # post) s)) = Inr a"
  shows "ak_ID a \<noteq> i"
proof -
  let ?t = "fold pg_step pre s"
  have "\<not> usable now k" if "k \<in> set (pg_keys (pg_step Replicate ?t))" "kv_id k = i" for k
  proof (rule primary.run_unusable [of s i now pre])
    show "k \<in> set (map row_view (pg_writeDB ?t))"
      using that(1) by (auto simp: pg_keys_def all_rows_def split: option.splits)
  qed (use assms that in auto)
  then show ?thesis
    using pg.unusable_never_validates [of "pg_step Replicate ?t" i now post c f outcome h a] assms(2,3) by auto
qed

text \<open>
  C2. A key that the primary holds as invalid validates again only from a replica that lags
  behind. Take any state of the store in which every row with identifier \<open>i\<close> on the primary
  is revoked, marked expired, soft-deleted or past its expiration at \<open>now\<close>; nothing is
  assumed of the replica. Run any sequence of operations that does not insert a key \<open>i\<close>
  again, with any answers of the database, lost acknowledgements included. If a lookup at
  \<open>now\<close> then returns key \<open>i\<close>, there is a replica, it has not caught up since, and it still
  holds a live row of \<open>i\<close> with the hash looked up. So a store without a replica, or whose
  replica has caught up, never accepts the key again.
\<close>

theorem invalid_key_stays_invalid:
  assumes "\<forall>r\<in>set (pg_writeDB s). r_id r = i \<longrightarrow>
      r_status r \<noteq> StatusActive \<or> r_deleted_at r \<noteq> None \<or> (\<exists>t. r_expires_at r = Some t \<and> t < now)"
    and "\<forall>op\<in>set ops. pg_added op \<noteq> Some i"
    and "fst (pg_GetByHash cancelled faults outcome now h (fold pg_step ops s)) = Inr a" and "ak_ID a = i"
  shows "Replicate \<notin> set ops \<and>
    (\<exists>rows. pg_readDB s = Some rows \<and>
       (\<exists>r\<in>set rows. r_id r = i \<and> r_key_hash r = h \<and> r_status r = StatusActive \<and> r_deleted_at r = None \<and>
          (\<forall>t. r_expires_at r = Some t \<longrightarrow> now \<le> t)))"
proof -
  have dead: "\<not> usable now (row_view r)" if "r \<in> set (pg_writeDB s)" "r_id r = i" for r
    using assms(1) that by (auto simp: usable_def alive_def)
  have lag: "Replicate \<notin> set ops"
    using unusable_after_replicate [OF dead] assms(2-4) by (metis in_set_conv_decomp)
  obtain r where r: "r \<in> set (all_rows (fold pg_step ops s))" "readable now h (fold pg_step ops s) a r"
    using pg_GetByHash_Inr [OF assms(3)] by blast
  then have i: "r_id r = i" "usable now (row_view r)" "r_key_hash r = h"
    using assms(4) by (auto simp: readable_def)
  have "r \<notin> set (pg_writeDB (fold pg_step ops s))"
    using primary.run_unusable [of s i now ops "row_view r"] dead assms(2) i by force
  with r(1) lag obtain rows where "pg_readDB s = Some rows" "r \<in> set rows"
    by (cases "pg_readDB s") (auto simp: all_rows_def pg_run_replica)
  with lag i show ?thesis by (force simp: usable_def alive_def)
qed

definition example_row :: "string \<Rightarrow> string \<Rightarrow> status \<Rightarrow> row" where
  "example_row i h st =
     \<lparr>r_id = i, r_username = ''alice'', r_name = ''n'', r_description = None, r_key_hash = h,
      r_user_groups = [''g''], r_subscription = ''sub'', r_tenant = ''t'', r_status = st, r_created_at = 1,
      r_expires_at = Some 5000, r_last_used_at = None, r_deleted_at = None, r_ephemeral = False,
      r_labels = None\<rparr>"

text \<open>
  A key revoked on the primary while the replica lags is still accepted, which is the case
  the theorem leaves.
\<close>

definition example_lag :: pgStore where
  "example_lag =
     (NewPostgresStore [example_row ''k1'' ''h1'' StatusRevoked, example_row ''k2'' ''h2'' StatusActive] ''t'')
       \<lparr>pg_readDB := Some [example_row ''k1'' ''h1'' StatusActive]\<rparr>"

theorem invalid_key_stays_invalid_witness:
  "(\<exists>a. fst (pg_GetByHash False (\<lambda>_. no_fault) Executed 10 ''h1''
            (fold pg_step [Store Executed (OpUpdateLastUsed 9 ''k1''), Store (Unacknowledged ''eof'') (OpRevoke ''k1'')]
              example_lag)) = Inr a \<and> ak_ID a = ''k1'') \<and>
   (\<exists>rows. pg_readDB example_lag = Some rows \<and>
      (\<exists>r\<in>set rows. r_id r = ''k1'' \<and> r_key_hash r = ''h1'' \<and> r_status r = StatusActive \<and>
         r_deleted_at r = None \<and> (\<forall>t. r_expires_at r = Some t \<longrightarrow> 10 \<le> t)))"
proof -
  let ?ops = "[Store Executed (OpUpdateLastUsed 9 ''k1''), Store (Unacknowledged ''eof'') (OpRevoke ''k1'')]"
  have look: "\<exists>a. fst (pg_GetByHash False (\<lambda>_. no_fault) Executed 10 ''h1'' (fold pg_step ?ops example_lag)) = Inr a \<and>
      ak_ID a = ''k1''"
    by (simp add: example_lag_def NewPostgresStore_def example_row_def pg_UpdateLastUsed_def pg_Revoke_def pg_GetByHash_def
        queryReadRowsWithFallback_def readWithFallback_def hasReadReplica_def no_fault_def exec_def update_rows_def
        pool_rows_def hash_rows_def consume_hash_def recordQuery_def timestamptz_def scan_key_def)
  have dead: "\<forall>r\<in>set (pg_writeDB example_lag). r_id r = ''k1'' \<longrightarrow>
      r_status r \<noteq> StatusActive \<or> r_deleted_at r \<noteq> None \<or> (\<exists>t. r_expires_at r = Some t \<and> t < 10)"
    by (simp add: example_lag_def NewPostgresStore_def example_row_def)
  have ops: "\<forall>op\<in>set ?ops. pg_added op \<noteq> Some ''k1''" by simp
  from look obtain a where a: "fst (pg_GetByHash False (\<lambda>_. no_fault) Executed 10 ''h1'' (fold pg_step ?ops example_lag)) = Inr a"
    "ak_ID a = ''k1''" by blast
  from invalid_key_stays_invalid [OF dead ops a] look show ?thesis by blast
qed

text \<open>
  Reads, whatever the route, show rows of the tenant only.
\<close>

lemma pg_step_scoped:
  "pg_tenantName (pg_step op s) = pg_tenantName s \<and>
   filter (foreign s) (pg_writeDB (pg_step op s)) = filter (foreign s) (pg_writeDB s)"
proof (cases op)
  case (Store out sop)
  then show ?thesis using pg_store_scoped [of s out sop] by (simp add: scoped_def)
next
  case (Lookup c f out now h)
  then show ?thesis using harmless_GetByHash [of s c f out now h] by (simp add: harmless_def scoped_def)
qed simp

lemma pg_run_scoped:
  "pg_tenantName (fold pg_step ops s) = pg_tenantName s \<and>
   filter (foreign s) (pg_writeDB (fold pg_step ops s)) = filter (foreign s) (pg_writeDB s)"
proof (induction ops arbitrary: s)
  case (Cons op ops)
  have "foreign (pg_step op s) = foreign s"
    using pg_step_scoped [of op s] by (auto simp: foreign_def)
  with Cons [of "pg_step op s"] pg_step_scoped [of op s] show ?case by simp
qed simp

lemma scan_key_sel [simp]:
  "ak_ID (scan_key st r) = r_id r" "ak_Tenant (scan_key st r) = r_tenant r"
  "ak_Username (scan_key st r) = r_username r" "ak_Status (scan_key st r) = st"
  "ak_Subscription (scan_key st r) = r_subscription r"
  by (simp_all add: scan_key_def)

lemma get_row_tenant: "get_row i s rs = Some r \<Longrightarrow> r_id r = i \<and> r_tenant r = pg_tenantName s"
  by (auto simp: get_row_def dest: find_SomeD)

lemma pg_Get_tenant:
  "fst (pg_Get cancelled faults now i s) = Inr k \<Longrightarrow> ak_ID k = i \<and> ak_Tenant k = pg_tenantName s"
  by (auto simp: pg_Get_def Let_def split: option.splits if_splits dest!: get_row_tenant)

lemma readWithFallback_pure:
  assumes "\<And>p s r. fst (run p s) = Inr r \<Longrightarrow> Q r" and "fst (readWithFallback c operation run s) = Inr r"
  shows "Q r"
  using assms(2)
  by (auto simp: readWithFallback_def split: if_splits prod.splits sum.splits
      intro: assms(1) [of _ _ r] simp: prod_eq_iff)

lemma queryReadRows_pure:
  assumes "\<And>rows s r. fst (consume (query rows) s) = Inr r \<Longrightarrow> Q r"
    and "fst (queryReadRowsWithFallback c f operation query consume s) = Inr r"
  shows "Q r"
  using assms(2) unfolding queryReadRowsWithFallback_def
proof (rule readWithFallback_pure [rotated])
  fix p s r
  assume "fst (case rf_query (f p) of Some e \<Rightarrow> (Inl (DatabaseError e), s)
      | None \<Rightarrow> (case rf_rows (f p) of Some e \<Rightarrow> (Inl (DatabaseError e), s)
         | None \<Rightarrow> (case consume (query (pool_rows p s)) s of (result, s) \<Rightarrow>
              (case rf_close (f p) of Some e \<Rightarrow> (Inl (DatabaseError e), s) | None \<Rightarrow> (result, s))))) = Inr r"
  then have "fst (consume (query (pool_rows p s)) s) = Inr r" by (auto split: option.splits prod.splits)
  then show "Q r" by (rule assms(1))
qed

lemma search_query_rows:
  "r \<in> set (search_query col now t u fl so pa rs) \<Longrightarrow> r \<in> set rs \<and> search_where now t u fl r"
  by (auto simp: search_query_def dest!: in_set_takeD in_set_dropD)

lemma consume_search_keys:
  "fst (consume_search now pa rows s) = Inr p \<Longrightarrow> k \<in> set (pr_Keys p) \<Longrightarrow>
   \<exists>r\<in>set rows. k = scan_key (effective_status now r) r"
  by (auto simp: consume_search_def Let_def split: if_splits dest!: in_set_takeD) blast

lemma pg_Search_keys:
  assumes "fst (pg_Search col c f now u fl so pa s) = Inr p" and "k \<in> set (pr_Keys p)"
  shows "\<exists>r. search_where now (pg_tenantName s) u fl r \<and> k = scan_key (effective_status now r) r"
proof -
  have "fst (queryReadRowsWithFallback c f ''search'' (search_query col now (pg_tenantName s) u fl so pa)
      (consume_search now pa) s) = Inr p"
    using assms(1) by (simp add: pg_Search_def split: if_splits)
  then have "\<forall>k\<in>set (pr_Keys p). \<exists>r. search_where now (pg_tenantName s) u fl r \<and> k = scan_key (effective_status now r) r"
    by (rule queryReadRows_pure [rotated]) (blast dest: consume_search_keys search_query_rows)
  with assms(2) show ?thesis by blast
qed

text \<open>
  C3. Tenants are isolated. Along every sequence of operations, with any answers of the
  database, a store leaves the rows of all other tenants in the table exactly as they are
  and stays bound to its own tenant; and every key that a lookup by hash, a lookup by
  identifier or a search returns, from whichever pool, is one of its own tenant.
\<close>

theorem tenant_isolation:
  assumes "t = pg_tenantName s" and "s' = fold pg_step ops s"
  shows "filter (\<lambda>r. r_tenant r \<noteq> t) (pg_writeDB s') = filter (\<lambda>r. r_tenant r \<noteq> t) (pg_writeDB s) \<and>
    pg_tenantName s' = t \<and>
    (fst (pg_GetByHash cancelled faults outcome now h s') = Inr a \<longrightarrow> ak_Tenant a = t) \<and>
    (fst (pg_Get cancelled fault now i s') = Inr b \<longrightarrow> ak_Tenant b = t) \<and>
    (fst (pg_Search collation cancelled faults now u filters sorting pagination s') = Inr p \<longrightarrow>
       (\<forall>k\<in>set (pr_Keys p). ak_Tenant k = t))"
proof -
  have t: "pg_tenantName s' = t" and rows: "filter (foreign s) (pg_writeDB s') = filter (foreign s) (pg_writeDB s)"
    using pg_run_scoped [of ops s] by (simp_all add: assms)
  have "ak_Tenant a = t" if "fst (pg_GetByHash cancelled faults outcome now h s') = Inr a"
    using pg_GetByHash_Inr [OF that] t by (auto simp: readable_def)
  moreover have "ak_Tenant b = t" if "fst (pg_Get cancelled fault now i s') = Inr b"
    using pg_Get_tenant [OF that] t by simp
  moreover have "ak_Tenant k = t"
    if "fst (pg_Search collation cancelled faults now u filters sorting pagination s') = Inr p" "k \<in> set (pr_Keys p)" for k
    using pg_Search_keys [OF that] t by (auto simp: search_where_def)
  ultimately show ?thesis using t rows by (auto simp: foreign_def [abs_def] assms(1))
qed

theorem tenant_isolation_witness:
  "filter (\<lambda>r. r_tenant r \<noteq> ''t'')
     (pg_writeDB (fold pg_step [Store Executed (OpInvalidateTenant 9 ''t'')]
        (NewPostgresStore [example_row ''k1'' ''h1'' StatusActive,
           (example_row ''k2'' ''h2'' StatusActive)\<lparr>r_tenant := ''other''\<rparr>] ''t''))) =
   [(example_row ''k2'' ''h2'' StatusActive)\<lparr>r_tenant := ''other''\<rparr>]"
proof -
  let ?s = "NewPostgresStore [example_row ''k1'' ''h1'' StatusActive,
     (example_row ''k2'' ''h2'' StatusActive)\<lparr>r_tenant := ''other''\<rparr>] ''t''"
  from tenant_isolation [OF refl refl, of ?s "[Store Executed (OpInvalidateTenant 9 ''t'')]"]
  show ?thesis by (simp add: NewPostgresStore_def example_row_def)
qed

text \<open>
  Bulk revocation. A scope is required and the tenant has to be the one of the store;
  then the dry run reports exactly the number of rows that the revocation itself would
  change and changes no row, even if the database fails; the revocation changes the status
  of exactly the live, unexpired, active rows in scope and nothing else; and right after it
  there is nothing left to revoke.
\<close>

theorem BulkRevoke_exact:
  assumes "u \<noteq> [] \<or> sub \<noteq> []"
    and "P = (\<lambda>r. r_tenant r = pg_tenantName s \<and> r_status r = StatusActive \<and> r_deleted_at r = None \<and>
      (\<forall>t. r_expires_at r = Some t \<longrightarrow> now < t) \<and>
      (u = [] \<or> r_username r = u) \<and> (sub = [] \<or> r_subscription r = sub))"
    and "t = pg_tenantName s"
  shows "fst (pg_BulkRevoke Executed now u sub t True s) = Inr (length (filter P (pg_writeDB s))) \<and>
    pg_writeDB (snd (pg_BulkRevoke outcome now u sub t True s)) = pg_writeDB s \<and>
    fst (pg_BulkRevoke Executed now u sub t False s) = Inr (length (filter P (pg_writeDB s))) \<and>
    pg_writeDB (snd (pg_BulkRevoke Executed now u sub t False s)) =
      map (\<lambda>r. if P r then r\<lparr>r_status := StatusRevoked\<rparr> else r) (pg_writeDB s) \<and>
    fst (pg_BulkRevoke Executed now u sub t dry (snd (pg_BulkRevoke Executed now u sub t False s))) = Inr 0 \<and>
    (t' \<noteq> t \<longrightarrow> pg_BulkRevoke outcome now u sub t' dry s = (Inl ErrTenantMismatch, s)) \<and>
    pg_BulkRevoke outcome now [] [] t' dry s = (Inl ScopeRequired, s)"
proof -
  have P: "bulkRevokeWhereClause now (pg_tenantName s) u sub = P"
    by (auto simp: bulkRevokeWhereClause_def [abs_def] assms(2) fun_eq_iff split: option.splits)
  have "\<not> P (if P r then r\<lparr>r_status := StatusRevoked\<rparr> else r)" for r by (auto simp: assms(2))
  then have "filter P (map (\<lambda>r. if P r then r\<lparr>r_status := StatusRevoked\<rparr> else r) rs) = []" for rs
    by (simp add: filter_map o_def)
  then show ?thesis
    using assms(1)
    by (auto simp: pg_BulkRevoke_def Let_def P assms(3) exec_def update_rows_def split: execOutcome.splits)
qed

theorem BulkRevoke_exact_witness:
  "fst (pg_BulkRevoke Executed 9 ''alice'' [] ''t'' True
     (NewPostgresStore [example_row ''k1'' ''h1'' StatusActive, example_row ''k2'' ''h2'' StatusRevoked] ''t'')) = Inr 1"
proof -
  let ?s = "NewPostgresStore [example_row ''k1'' ''h1'' StatusActive, example_row ''k2'' ''h2'' StatusRevoked] ''t''"
  have "''alice'' \<noteq> [] \<or> ([] :: string) \<noteq> []" by simp
  from BulkRevoke_exact [OF this refl refl, where s = ?s and now = 9] show ?thesis
    by (simp add: NewPostgresStore_def example_row_def)
qed

text \<open>An attempt changes rows only: not the counters, the replica or the health flag.\<close>

lemma exec_counters [simp]:
  "pg_fallbacks (snd (exec outcome P f s)) = pg_fallbacks s" "pg_queries (snd (exec outcome P f s)) = pg_queries s"
  "pg_readHealthy (snd (exec outcome P f s)) = pg_readHealthy s" "pg_readDB (snd (exec outcome P f s)) = pg_readDB s"
  by (auto simp: exec_def split: execOutcome.splits)

lemma consume_hash_counters [simp]:
  "pg_fallbacks (snd (consume_hash outcome now rows s)) = pg_fallbacks s"
  "pg_queries (snd (consume_hash outcome now rows s)) = pg_queries s"
  "pg_readHealthy (snd (consume_hash outcome now rows s)) = pg_readHealthy s"
  by (auto simp: consume_hash_def expire_row_def Let_def split: list.splits)

lemma snd_close [simp]:
  "snd (case x of (result, s) \<Rightarrow> (case e of None \<Rightarrow> (result, s) | Some e \<Rightarrow> (g e, s))) = snd x"
  by (cases x, cases e) auto

lemma hash_attempt_counters [simp]:
  "pg_fallbacks (snd (hash_attempt f outcome now h t p s)) = pg_fallbacks s"
  "pg_queries (snd (hash_attempt f outcome now h t p s)) = pg_queries s"
  "pg_readHealthy (snd (hash_attempt f outcome now h t p s)) = pg_readHealthy s"
  by (simp_all add: hash_attempt_def split: option.splits)

definition broken :: "rowsFault \<Rightarrow> bool" where
  "broken f \<longleftrightarrow> rf_query f \<noteq> None \<or> rf_rows f \<noteq> None \<or> rf_close f \<noteq> None"

text \<open>The verdict of a lookup on a table: what its rows say, without the effects.\<close>

definition verdict :: "time \<Rightarrow> string \<Rightarrow> string \<Rightarrow> row list \<Rightarrow> storeError + apiKey" where
  "verdict now h t rs = fst (consume_hash Executed now (hash_rows h t rs) (NewPostgresStore [] t))"

lemma consume_hash_verdict: "fst (consume_hash outcome now (hash_rows h t rs) s) = verdict now h t rs"
  by (auto simp: verdict_def consume_hash_def Let_def split: list.splits)

lemma verdict_domain: "verdict now h t rs = Inl e \<Longrightarrow> isDomainReadResult e"
  by (auto simp: verdict_def consume_hash_def Let_def isDomainReadResult_def split: list.splits if_splits)

lemma hash_attempt_working:
  "\<not> broken (f p) \<Longrightarrow> fst (hash_attempt f outcome now h t p s) = verdict now h t (pool_rows p s)"
  using consume_hash_verdict [of outcome now h t "pool_rows p s" s]
  by (simp add: hash_attempt_def broken_def case_prod_beta)

lemma hash_attempt_broken:
  "broken (f p) \<Longrightarrow> \<exists>e. fst (hash_attempt f outcome now h t p s) = Inl (DatabaseError e)"
  by (auto simp: hash_attempt_def broken_def split: option.splits prod.splits)

lemma not_domain [simp]: "\<not> isDomainReadResult (DatabaseError e)"
  by (simp add: isDomainReadResult_def)

text \<open>
  Routing of the validation lookup with a replica. A working replica decides alone: its
  verdict is final, an unknown key included, whatever the primary holds; it is marked
  healthy and the primary is not asked. A broken replica makes the lookup ask the primary
  exactly once, counts one fallback and marks the replica unhealthy; the answer is then the
  verdict on rows of the primary, or an error if the primary fails too. A request
  cancelled meanwhile changes neither the health flag nor the number of fallbacks and fails.
\<close>

theorem GetByHash_routing:
  assumes "hasReadReplica s" and "res = pg_GetByHash cancelled faults outcome now h s"
  shows "(\<not> broken (faults ReadPool) \<longrightarrow>
      fst res = verdict now h (pg_tenantName s) (pool_rows ReadPool s) \<and>
      pg_queries (snd res) = pg_queries s @ [(''get_by_hash'', ''read'')] \<and>
      pg_fallbacks (snd res) = pg_fallbacks s \<and> pg_readHealthy (snd res)) \<and>
    (broken (faults ReadPool) \<and> \<not> cancelled \<longrightarrow>
      pg_queries (snd res) = pg_queries s @ [(''get_by_hash'', ''read''), (''get_by_hash'', ''write'')] \<and>
      pg_fallbacks (snd res) = pg_fallbacks s + 1 \<and> \<not> pg_readHealthy (snd res) \<and>
      (if broken (faults WritePool) then \<exists>e. fst res = Inl (DatabaseError e)
       else \<exists>rs. fst res = verdict now h (pg_tenantName s) rs \<and>
              (\<forall>r'\<in>set rs. \<exists>r\<in>set (pg_writeDB s). advances (row_view r) (row_view r')))) \<and>
    (broken (faults ReadPool) \<and> cancelled \<longrightarrow>
      (\<exists>e. fst res = Inl (DatabaseError e)) \<and>
      pg_fallbacks (snd res) = pg_fallbacks s \<and> pg_readHealthy (snd res) = pg_readHealthy s)"
proof -
  let ?run = "hash_attempt faults outcome now h (pg_tenantName s)"
  let ?s1 = "recordQuery ''get_by_hash'' ''read'' s"
  define r1 t where "r1 = fst (?run ReadPool ?s1)" and "t = snd (?run ReadPool ?s1)"
  then have run: "?run ReadPool ?s1 = (r1, t)" by simp
  let ?s2 = "recordQuery ''get_by_hash'' ''write'' (recordReadFallback (t\<lparr>pg_readHealthy := False\<rparr>))"
  have t: "pg_fallbacks t = pg_fallbacks s" "pg_queries t = pg_queries s @ [(''get_by_hash'', ''read'')]"
    "pg_readHealthy t = pg_readHealthy s"
    by (simp_all add: t_def)
  have forward: "\<forall>r'\<in>set (pg_writeDB t). \<exists>r\<in>set (pg_writeDB s). advances (row_view r) (row_view r')"
    using hash_attempt_harmless [of ?s1 faults outcome now h "pg_tenantName s" ReadPool]
    by (simp add: t_def harmless_def only_forward_def)
  have res: "res = (if (case r1 of Inr _ \<Rightarrow> True | Inl e \<Rightarrow> isDomainReadResult e) then (r1, t\<lparr>pg_readHealthy := True\<rparr>)
      else if cancelled then (r1, t) else ?run WritePool ?s2)"
    using assms(1) by (simp add: assms(2) pg_GetByHash_attempt readWithFallback_def run)
  have working: "r1 = verdict now h (pg_tenantName s) (pool_rows ReadPool s) \<and>
      (case r1 of Inr _ \<Rightarrow> True | Inl e \<Rightarrow> isDomainReadResult e)" if "\<not> broken (faults ReadPool)"
    using hash_attempt_working [of faults ReadPool outcome now h "pg_tenantName s" ?s1] that
    by (auto simp: r1_def dest: verdict_domain split: sum.splits)
  have failing: "\<exists>e. r1 = Inl (DatabaseError e)" if "broken (faults ReadPool)"
    using hash_attempt_broken [of faults ReadPool] that by (auto simp: r1_def)
  have primary: "if broken (faults WritePool) then \<exists>e. fst (?run WritePool ?s2) = Inl (DatabaseError e)
      else fst (?run WritePool ?s2) = verdict now h (pg_tenantName s) (pg_writeDB t)"
    using hash_attempt_broken [of faults WritePool] hash_attempt_working [of faults WritePool outcome now h "pg_tenantName s" ?s2]
    by (auto simp: pool_rows_def)
  show ?thesis
  proof (cases "broken (faults ReadPool)")
    case False
    have res1: "res = (r1, t\<lparr>pg_readHealthy := True\<rparr>)"
      using conjunct2 [OF working [OF False]] unfolding res by (rule if_P)
    show ?thesis using False working [OF False] t by (simp add: res1)
  next
    case True
    with failing obtain e where "r1 = Inl (DatabaseError e)" by blast
    then show ?thesis using True t primary forward by (auto simp: res)
  qed
qed

theorem GetByHash_routing_witness:
  "fst (pg_GetByHash False (\<lambda>_. no_fault) Executed 10 ''h''
     ((NewPostgresStore [example_row ''k'' ''h'' StatusActive] ''t'')\<lparr>pg_readDB := Some []\<rparr>)) = Inl ErrKeyNotFound"
proof -
  let ?s = "(NewPostgresStore [example_row ''k'' ''h'' StatusActive] ''t'')\<lparr>pg_readDB := Some []\<rparr>"
  have "hasReadReplica ?s" by (simp add: hasReadReplica_def)
  from GetByHash_routing [OF this refl, of "\<lambda>_. no_fault" False Executed 10 "''h''"]
  show ?thesis
    by (simp add: broken_def no_fault_def pool_rows_def verdict_def hash_rows_def consume_hash_def)
qed

subsection \<open>The mock store and the Postgres store\<close>

text \<open>
  The in-memory store stands in for the database in the tests of the service. The
  abstraction reads the rows of a single-tenant table as stored keys.
\<close>

definition mock_key :: "row \<Rightarrow> storedKey" where
  "mock_key r =
     \<lparr>sk_metadata =
        \<lparr>ak_ID = r_id r, ak_Name = r_name r,
         ak_Description = (case r_description r of None \<Rightarrow> [] | Some d \<Rightarrow> d),
         ak_Username = [], ak_Subscription = r_subscription r, ak_Tenant = r_tenant r,
         ak_Groups = r_user_groups r, ak_CreationDate = Some (rfc3339 (r_created_at r)),
         ak_ExpirationDate = None, ak_Status = r_status r, ak_LastUsedAt = None,
         ak_Ephemeral = r_ephemeral r, ak_Labels = (case r_labels r of None \<Rightarrow> [] | Some l \<Rightarrow> l)\<rparr>,
      sk_groups = r_user_groups r, sk_username = r_username r, sk_keyHash = r_key_hash r,
      sk_expiresAt = (case r_expires_at r of None \<Rightarrow> 0 | Some t \<Rightarrow> t), sk_lastUsedAt = r_last_used_at r,
      sk_deletedAt = r_deleted_at r, sk_ephemeral = r_ephemeral r\<rparr>"



lemma mock_key_sel [simp]:
  "ak_Tenant (sk_metadata (mock_key r)) = r_tenant r" "ak_Status (sk_metadata (mock_key r)) = r_status r"
  "ak_Subscription (sk_metadata (mock_key r)) = r_subscription r" "sk_deletedAt (mock_key r) = r_deleted_at r"
  "sk_username (mock_key r) = r_username r" "sk_keyHash (mock_key r) = r_key_hash r"
  "sk_groups (mock_key r) = r_user_groups r" "sk_lastUsedAt (mock_key r) = r_last_used_at r"
  "ak_ID (sk_metadata (mock_key r)) = r_id r" "ak_Ephemeral (sk_metadata (mock_key r)) = r_ephemeral r"
  by (simp_all add: mock_key_def)




lemma soft_delete_row_id [simp]: "r_id (soft_delete_row now r) = r_id r"
  by (simp add: soft_delete_row_def)
























end
