(* ===== verification/AuthPolicyChecker.thy ===== *)
theory AuthPolicyChecker
  imports GoJson
begin

text \<open>
  Model access from MaaSAuthPolicy resources: \<open>maas-api/internal/authpolicy/checker.go\<close>.
  The checker's lister is the content of the informer cache (\<open>None\<close> for a nil lister);
  a Go map is a partial function, and a lookup of an absent key is \<open>false\<close>.
\<close>

section \<open>Operations\<close>

type_synonym lister = "(string + jobj list) option"

record groupReference =
  grp_Name :: string

record modelAccessSubjects =
  mas_Groups :: "groupReference list"
  mas_Users :: "string list"

datatype checkerError = ListerNil | ListFailed string | OrganizationRequired | ModelRefRequired

definition policyMatchesSubject :: "jobj \<Rightarrow> string list \<Rightarrow> string \<Rightarrow> bool" where
  "policyMatchesSubject spec groups username =
     (case field as_obj spec ''subjects'' of
        None \<Rightarrow> False
      | Some subjects \<Rightarrow>
        if username \<noteq> [] \<and>
           (case field as_arr subjects ''users'' of
              None \<Rightarrow> False | Some users \<Rightarrow> \<exists>u\<in>set users. as_string u = Some username)
        then True
        else case field as_arr subjects ''groups'' of
               None \<Rightarrow> False
             | Some groupRefs \<Rightarrow>
               \<exists>g\<in>set groupRefs. case as_obj g of None \<Rightarrow> False
                  | Some gMap \<Rightarrow> str_field gMap ''name'' \<in> set groups)"

definition authorize_ref :: "json \<Rightarrow> (nsname \<rightharpoonup> bool) \<Rightarrow> (nsname \<rightharpoonup> bool)" where
  "authorize_ref ref authorized =
     (case as_obj ref of
        None \<Rightarrow> authorized
      | Some refMap \<Rightarrow>
        (let name = str_field refMap ''name''; ns = str_field refMap ''namespace''
         in if name \<noteq> [] then authorized((ns, name) \<mapsto> True) else authorized))"

definition authorize_policy ::
  "string list \<Rightarrow> string \<Rightarrow> jobj \<Rightarrow> (nsname \<rightharpoonup> bool) \<Rightarrow> (nsname \<rightharpoonup> bool)" where
  "authorize_policy groups username policy authorized =
     (case field as_obj policy ''spec'' of
        None \<Rightarrow> authorized
      | Some spec \<Rightarrow>
        if \<not> policyMatchesSubject spec groups username then authorized
        else case field as_arr spec ''modelRefs'' of
               None \<Rightarrow> authorized
             | Some modelRefs \<Rightarrow> fold authorize_ref modelRefs authorized)"

definition AuthorizedModels ::
  "lister \<Rightarrow> string list \<Rightarrow> string \<Rightarrow> checkerError + (nsname \<rightharpoonup> bool)" where
  "AuthorizedModels l groups username =
     (case l of
        None \<Rightarrow> Inl ListerNil
      | Some listed \<Rightarrow>
        (case listed of
           Inl e \<Rightarrow> Inl (ListFailed e)
         | Inr policies \<Rightarrow> Inr (fold (authorize_policy groups username) policies Map.empty)))"

definition map_lookup :: "('k \<rightharpoonup> bool) \<Rightarrow> 'k \<Rightarrow> bool" where
  "map_lookup m k = (case m k of None \<Rightarrow> False | Some b \<Rightarrow> b)"

definition IsModelAccessible ::
  "lister \<Rightarrow> string list \<Rightarrow> string \<Rightarrow> string \<Rightarrow> string \<Rightarrow> bool" where
  "IsModelAccessible l groups username modelName modelNamespace =
     (case AuthorizedModels l groups username of
        Inl _ \<Rightarrow> False
      | Inr authorized \<Rightarrow> map_lookup authorized (modelNamespace, modelName))"

definition parse_ref :: "json \<Rightarrow> nsname list" where
  "parse_ref rawRef =
     (case as_obj rawRef of
        None \<Rightarrow> []
      | Some refMap \<Rightarrow>
        (let name = str_field refMap ''name''; namespace = str_field refMap ''namespace''
         in if name \<noteq> [] \<and> namespace \<noteq> [] then [(namespace, name)] else []))"

definition parseModelRefs :: "jobj \<Rightarrow> nsname list" where
  "parseModelRefs spec =
     (case field as_arr spec ''modelRefs'' of
        None \<Rightarrow> [] | Some rawRefs \<Rightarrow> concat (map parse_ref rawRefs))"

definition parse_group :: "string \<Rightarrow> json \<Rightarrow> groupReference list" where
  "parse_group organizationPrefix rawGroup =
     (case as_obj rawGroup of
        None \<Rightarrow> []
      | Some groupMap \<Rightarrow>
        (let name = str_field groupMap ''name''
         in if name = [] then []
            else if HasPrefix name organizationPrefix then [\<lparr>grp_Name = name\<rparr>] else []))"

definition parsePolicyGroups :: "jobj \<Rightarrow> string \<Rightarrow> groupReference list" where
  "parsePolicyGroups spec organizationPrefix =
     (case field as_obj spec ''subjects'' of
        None \<Rightarrow> []
      | Some subjects \<Rightarrow>
        (case field as_arr subjects ''groups'' of
           None \<Rightarrow> [] | Some rawGroups \<Rightarrow> concat (map (parse_group organizationPrefix) rawGroups)))"

definition parse_user :: "string \<Rightarrow> json \<Rightarrow> string list" where
  "parse_user organizationPrefix rawUser =
     (case as_string rawUser of
        None \<Rightarrow> [] | Some user \<Rightarrow> if HasPrefix user organizationPrefix then [user] else [])"

definition parsePolicyUsers :: "jobj \<Rightarrow> string \<Rightarrow> string list" where
  "parsePolicyUsers spec organizationPrefix =
     (case field as_obj spec ''subjects'' of
        None \<Rightarrow> []
      | Some subjects \<Rightarrow>
        (case field as_arr subjects ''users'' of
           None \<Rightarrow> []
         | Some rawUsers \<Rightarrow> concat (map (parse_user organizationPrefix) rawUsers)))"

fun appendUniqueGroups :: "groupReference list \<Rightarrow> groupReference list \<Rightarrow> groupReference list" where
  "appendUniqueGroups values [] = values"
| "appendUniqueGroups values (addition # additions) =
     (if \<exists>v\<in>set values. grp_Name v = grp_Name addition then appendUniqueGroups values additions
      else appendUniqueGroups (values @ [addition]) additions)"

fun appendUniqueStrings :: "string list \<Rightarrow> string list \<Rightarrow> string list" where
  "appendUniqueStrings values [] = values"
| "appendUniqueStrings values (addition # additions) =
     (if addition \<in> set values then appendUniqueStrings values additions
      else appendUniqueStrings (values @ [addition]) additions)"

definition noSubjects :: modelAccessSubjects where
  "noSubjects = \<lparr>mas_Groups = [], mas_Users = []\<rparr>"

definition add_subjects ::
  "nsname list \<Rightarrow> groupReference list \<Rightarrow> string list \<Rightarrow> nsname
     \<Rightarrow> (nsname \<rightharpoonup> modelAccessSubjects) \<Rightarrow> (nsname \<rightharpoonup> modelAccessSubjects)" where
  "add_subjects requested policyGroups policyUsers ref inventory =
     (if ref \<notin> set requested then inventory
      else let subjects = (case inventory ref of None \<Rightarrow> noSubjects | Some s \<Rightarrow> s)
           in inventory(ref \<mapsto> subjects\<lparr>
                mas_Groups := appendUniqueGroups (mas_Groups subjects) policyGroups,
                mas_Users := appendUniqueStrings (mas_Users subjects) policyUsers\<rparr>))"

definition inventory_policy ::
  "nsname list \<Rightarrow> string \<Rightarrow> jobj \<Rightarrow> (nsname \<rightharpoonup> modelAccessSubjects) \<Rightarrow> (nsname \<rightharpoonup> modelAccessSubjects)" where
  "inventory_policy requested organizationPrefix policy inventory =
     (case field as_obj policy ''spec'' of
        None \<Rightarrow> inventory
      | Some spec \<Rightarrow>
        (let policyGroups = parsePolicyGroups spec organizationPrefix;
             policyUsers = parsePolicyUsers spec organizationPrefix
         in fold (add_subjects requested policyGroups policyUsers) (parseModelRefs spec) inventory))"

definition groupLess :: "groupReference \<Rightarrow> groupReference \<Rightarrow> bool" where
  "groupLess a b \<longleftrightarrow> grp_Name a < grp_Name b"

definition sort_subjects :: "modelAccessSubjects \<Rightarrow> modelAccessSubjects" where
  "sort_subjects subjects = subjects\<lparr>mas_Groups := SliceStable groupLess (mas_Groups subjects),
     mas_Users := SliceStable (<) (mas_Users subjects)\<rparr>"

definition ModelAccessSubjects ::
  "lister \<Rightarrow> nsname list \<Rightarrow> string \<Rightarrow> checkerError + (nsname \<rightharpoonup> modelAccessSubjects)" where
  "ModelAccessSubjects l modelRefs organizationID =
     (case l of
        None \<Rightarrow> Inl ListerNil
      | Some listed \<Rightarrow>
        if organizationID = [] then Inl OrganizationRequired
        else if \<exists>ref\<in>set modelRefs. fst ref = [] \<or> snd ref = [] then Inl ModelRefRequired
        else if modelRefs = [] then Inr Map.empty
        else case listed of
               Inl e \<Rightarrow> Inl (ListFailed e)
             | Inr policies \<Rightarrow>
               Inr (\<lambda>ref. map_option sort_subjects
                      (fold (inventory_policy modelRefs (organizationID @ ''/'')) policies Map.empty ref)))"

section \<open>What a policy says\<close>

text \<open>The subjects and models that a policy object lists, read off its JSON.\<close>

definition lists_user :: "jobj \<Rightarrow> string \<Rightarrow> bool" where
  "lists_user spec u \<longleftrightarrow> (\<exists>subjects users. field as_obj spec ''subjects'' = Some subjects \<and>
     field as_arr subjects ''users'' = Some users \<and> JStr u \<in> set users)"

definition lists_group :: "jobj \<Rightarrow> string \<Rightarrow> bool" where
  "lists_group spec g \<longleftrightarrow> (\<exists>subjects groups m. field as_obj spec ''subjects'' = Some subjects \<and>
     field as_arr subjects ''groups'' = Some groups \<and> JObj m \<in> set groups \<and> str_field m ''name'' = g)"

definition lists_model :: "jobj \<Rightarrow> nsname \<Rightarrow> bool" where
  "lists_model spec k \<longleftrightarrow> (\<exists>refs m. field as_arr spec ''modelRefs'' = Some refs \<and> JObj m \<in> set refs \<and>
     str_field m ''namespace'' = fst k \<and> str_field m ''name'' = snd k \<and> snd k \<noteq> [])"

definition spec_of :: "jobj \<Rightarrow> jobj option" where
  "spec_of policy = field as_obj policy ''spec''"

lemma as_string_iff [simp]: "as_string v = Some s \<longleftrightarrow> v = JStr s"
  by (cases v) auto

lemma as_obj_iff [simp]: "as_obj v = Some m \<longleftrightarrow> v = JObj m"
  by (cases v) auto

lemma policyMatchesSubject_iff:
  "policyMatchesSubject spec groups u \<longleftrightarrow>
     (u \<noteq> [] \<and> lists_user spec u) \<or> (\<exists>g\<in>set groups. lists_group spec g)"
proof -
  have ex: "(\<exists>g\<in>set gs. case as_obj g of None \<Rightarrow> False | Some m \<Rightarrow> str_field m ''name'' \<in> set groups) \<longleftrightarrow>
      (\<exists>m. JObj m \<in> set gs \<and> str_field m ''name'' \<in> set groups)" for gs
    by (auto split: option.splits)
  show ?thesis
    unfolding policyMatchesSubject_def lists_user_def lists_group_def ex
    by (auto split: option.splits)
qed

lemma fold_authorize_ref:
  "fold authorize_ref refs m k = (if \<exists>r. JObj r \<in> set refs \<and> str_field r ''namespace'' = fst k \<and>
      str_field r ''name'' = snd k \<and> snd k \<noteq> [] then Some True else m k)"
proof (induction refs arbitrary: m)
  case (Cons x refs)
  then show ?case
    by (cases "as_obj x"; cases k) (auto simp: authorize_ref_def Let_def)
qed simp

lemma authorize_policy_apply:
  "authorize_policy groups u policy m k =
     (if \<exists>spec. spec_of policy = Some spec \<and> policyMatchesSubject spec groups u \<and> lists_model spec k
      then Some True else m k)"
  by (auto simp: authorize_policy_def spec_of_def fold_authorize_ref lists_model_def split: option.splits)

lemma fold_authorize_policy:
  "fold (authorize_policy groups u) policies m k =
     (if \<exists>policy\<in>set policies. \<exists>spec. spec_of policy = Some spec \<and> policyMatchesSubject spec groups u \<and>
          lists_model spec k
      then Some True else m k)"
  by (induction policies arbitrary: m) (auto simp: authorize_policy_apply)

section \<open>The subject inventory\<close>

lemma grp_Name_inject [simp]: "grp_Name a = grp_Name b \<longleftrightarrow> a = (b :: groupReference)"
  by (cases a; cases b) auto

lemma set_appendUniqueGroups: "set (appendUniqueGroups vs as) = set vs \<union> set as"
  by (induction vs as rule: appendUniqueGroups.induct) auto

lemma distinct_appendUniqueGroups: "distinct vs \<Longrightarrow> distinct (appendUniqueGroups vs as)"
  by (induction vs as rule: appendUniqueGroups.induct) auto

lemma set_appendUniqueStrings: "set (appendUniqueStrings vs as) = set vs \<union> set as"
  by (induction vs as rule: appendUniqueStrings.induct) auto

lemma distinct_appendUniqueStrings: "distinct vs \<Longrightarrow> distinct (appendUniqueStrings vs as)"
  by (induction vs as rule: appendUniqueStrings.induct) auto

lemmas append_unique =
  set_appendUniqueGroups distinct_appendUniqueGroups set_appendUniqueStrings distinct_appendUniqueStrings

text \<open>An entry of the inventory, up to the order of its lists.\<close>

definition entry_sets :: "modelAccessSubjects option \<Rightarrow> groupReference set \<times> string set" where
  "entry_sets e = (case e of None \<Rightarrow> ({}, {}) | Some s \<Rightarrow> (set (mas_Groups s), set (mas_Users s)))"

definition no_repeats :: "modelAccessSubjects option \<Rightarrow> bool" where
  "no_repeats e \<longleftrightarrow> (case e of None \<Rightarrow> True | Some s \<Rightarrow> distinct (mas_Groups s) \<and> distinct (mas_Users s))"

lemma fold_add_subjects:
  "entry_sets (fold (add_subjects req G U) refs invy k) =
     (if k \<in> set req \<and> k \<in> set refs
      then (fst (entry_sets (invy k)) \<union> set G, snd (entry_sets (invy k)) \<union> set U) else entry_sets (invy k))"
  "no_repeats (invy k) \<Longrightarrow> no_repeats (fold (add_subjects req G U) refs invy k)"
  "fold (add_subjects req G U) refs invy k = None \<longleftrightarrow> invy k = None \<and> (k \<notin> set req \<or> k \<notin> set refs)"
proof -
  have one: "entry_sets (add_subjects req G U r invy k) =
      (if k \<in> set req \<and> k = r
       then (fst (entry_sets (invy k)) \<union> set G, snd (entry_sets (invy k)) \<union> set U) else entry_sets (invy k))"
    "no_repeats (invy k) \<Longrightarrow> no_repeats (add_subjects req G U r invy k)"
    "add_subjects req G U r invy k = None \<longleftrightarrow> invy k = None \<and> (k \<notin> set req \<or> k \<noteq> r)" for r invy
    by (auto simp: add_subjects_def entry_sets_def no_repeats_def noSubjects_def Let_def append_unique
        split: option.splits)
  show "entry_sets (fold (add_subjects req G U) refs invy k) =
     (if k \<in> set req \<and> k \<in> set refs
      then (fst (entry_sets (invy k)) \<union> set G, snd (entry_sets (invy k)) \<union> set U) else entry_sets (invy k))"
    by (induction refs arbitrary: invy) (auto simp: one(1))
  show "no_repeats (invy k) \<Longrightarrow> no_repeats (fold (add_subjects req G U) refs invy k)"
    by (induction refs arbitrary: invy) (simp_all add: one(2))
  show "fold (add_subjects req G U) refs invy k = None \<longleftrightarrow> invy k = None \<and> (k \<notin> set req \<or> k \<notin> set refs)"
    by (induction refs arbitrary: invy) (auto simp: one(3))
qed

definition granting :: "jobj list \<Rightarrow> nsname \<Rightarrow> jobj set" where
  "granting policies k = {spec. \<exists>policy\<in>set policies. spec_of policy = Some spec \<and> k \<in> set (parseModelRefs spec)}"

lemma granting_Cons:
  "granting (p # ps) k =
     (case spec_of p of None \<Rightarrow> {} | Some spec \<Rightarrow> if k \<in> set (parseModelRefs spec) then {spec} else {}) \<union> granting ps k"
  by (auto simp: granting_def split: option.splits)

lemma fold_inventory:
  "k \<in> set req \<Longrightarrow> entry_sets (fold (inventory_policy req pre) ps invy k) =
     (fst (entry_sets (invy k)) \<union> (\<Union>spec\<in>granting ps k. set (parsePolicyGroups spec pre)),
      snd (entry_sets (invy k)) \<union> (\<Union>spec\<in>granting ps k. set (parsePolicyUsers spec pre)))"
  "no_repeats (invy k) \<Longrightarrow> no_repeats (fold (inventory_policy req pre) ps invy k)"
  "fold (inventory_policy req pre) ps invy k = None \<longleftrightarrow> invy k = None \<and> (k \<notin> set req \<or> granting ps k = {})"
proof (induction ps arbitrary: invy)
  case (Cons p ps)
  {
    case 1
    then show ?case
      using Cons.IH(1)
      by (auto simp: inventory_policy_def fold_add_subjects granting_Cons spec_of_def Let_def split: option.splits)
  next
    case 2
    then show ?case
      using Cons.IH(2)
      by (simp add: inventory_policy_def fold_add_subjects Let_def split: option.splits)
  next
    case 3
    show ?case
      using Cons.IH(3)
      by (auto simp: inventory_policy_def fold_add_subjects granting_Cons spec_of_def Let_def split: option.splits)
  }
qed (simp_all add: granting_def)

lemma in_parse_ref:
  "k \<in> set (parse_ref v) \<longleftrightarrow> (\<exists>m. v = JObj m \<and> str_field m ''namespace'' = fst k \<and>
     str_field m ''name'' = snd k \<and> snd k \<noteq> [] \<and> fst k \<noteq> [])"
  by (cases v; cases k) (auto simp: parse_ref_def Let_def)

lemma in_parse_group:
  "x \<in> set (parse_group pre v) \<longleftrightarrow> (\<exists>m. v = JObj m \<and> str_field m ''name'' = grp_Name x \<and>
     grp_Name x \<noteq> [] \<and> HasPrefix (grp_Name x) pre)"
  by (cases v; cases x) (auto simp: parse_group_def Let_def)

lemma in_parseModelRefs: "k \<in> set (parseModelRefs spec) \<longleftrightarrow> lists_model spec k \<and> fst k \<noteq> []"
  by (cases "field as_arr spec ''modelRefs''")
     (simp_all add: parseModelRefs_def lists_model_def in_parse_ref, blast)

lemma in_parsePolicyGroups:
  "x \<in> set (parsePolicyGroups spec pre) \<longleftrightarrow>
     lists_group spec (grp_Name x) \<and> grp_Name x \<noteq> [] \<and> HasPrefix (grp_Name x) pre"
proof (cases "field as_obj spec ''subjects''")
  case (Some subjects)
  then show ?thesis
    by (cases "field as_arr subjects ''groups''")
       (simp_all add: parsePolicyGroups_def lists_group_def in_parse_group, blast)
qed (simp add: parsePolicyGroups_def lists_group_def)

lemma in_parse_user: "u \<in> set (parse_user pre v) \<longleftrightarrow> v = JStr u \<and> HasPrefix u pre"
  by (cases v) (auto simp: parse_user_def)

lemma in_parsePolicyUsers:
  "u \<in> set (parsePolicyUsers spec pre) \<longleftrightarrow> lists_user spec u \<and> HasPrefix u pre"
proof (cases "field as_obj spec ''subjects''")
  case (Some subjects)
  then show ?thesis
    by (cases "field as_arr subjects ''users''")
       (simp_all add: parsePolicyUsers_def lists_user_def in_parse_user)
qed (simp add: parsePolicyUsers_def lists_user_def)

interpretation group_order: go_less groupLess
  by unfold_locales (auto simp: groupLess_def)

lemma ModelAccessSubjects_in_org:
  assumes "ModelAccessSubjects (Some (Inr policies)) refs org = Inr inventory" and "inventory k = Some s"
  shows "(\<forall>g\<in>set (mas_Groups s). HasPrefix (grp_Name g) (org @ ''/'')) \<and>
     (\<forall>u\<in>set (mas_Users s). HasPrefix u (org @ ''/''))"
proof (cases "refs = []")
  case True
  then show ?thesis using assms by (auto simp: ModelAccessSubjects_def split: if_splits)
next
  case False
  let ?im = "fold (inventory_policy refs (org @ ''/'')) policies Map.empty"
  from assms False obtain s0 where s0: "?im k = Some s0" "s = sort_subjects s0"
    by (auto simp: ModelAccessSubjects_def split: if_splits)
  then have "k \<in> set refs" using fold_inventory(3) [of refs "org @ ''/''" policies Map.empty k] by auto
  from fold_inventory(1) [OF this, of "org @ ''/''" policies Map.empty] show ?thesis
    by (auto simp: s0 sort_subjects_def entry_sets_def in_parsePolicyGroups in_parsePolicyUsers)
qed

section \<open>Properties\<close>

text \<open>C40. A user may access exactly the models that some policy of the cache lists together
  with the user's name or one of the user's groups; a missing or failing cache grants
  nothing.\<close>

theorem IsModelAccessible_iff:
  "IsModelAccessible l groups u name ns \<longleftrightarrow>
     (\<exists>policies. l = Some (Inr policies) \<and>
       (\<exists>policy\<in>set policies. \<exists>spec. spec_of policy = Some spec \<and> lists_model spec (ns, name) \<and>
          ((u \<noteq> [] \<and> lists_user spec u) \<or> (\<exists>g\<in>set groups. lists_group spec g))))"
proof (cases "\<exists>policies. l = Some (Inr policies)")
  case True
  then show ?thesis
    by (elim exE, unfold policyMatchesSubject_iff [symmetric])
       (auto simp: IsModelAccessible_def AuthorizedModels_def map_lookup_def fold_authorize_policy)
next
  case False
  then show ?thesis
    by (auto simp: IsModelAccessible_def AuthorizedModels_def split: option.splits sum.splits)
qed

text \<open>The subject inventory of an organization holds exactly the requested models that a
  policy lists, and for each, without repetition and in order, exactly the groups and users
  of those policies whose names start with the organization id and a slash: no subject of
  another organization is disclosed.\<close>

theorem ModelAccessSubjects_exact:
  assumes "ModelAccessSubjects (Some (Inr policies)) refs org = Inr inventory"
  shows "dom inventory = {k \<in> set refs. \<exists>policy\<in>set policies. \<exists>spec. spec_of policy = Some spec \<and> lists_model spec k} \<and>
    (\<forall>k s. inventory k = Some s \<longrightarrow>
       set (mas_Groups s) = {g. HasPrefix (grp_Name g) (org @ ''/'') \<and>
          (\<exists>policy\<in>set policies. \<exists>spec. spec_of policy = Some spec \<and> lists_model spec k \<and> lists_group spec (grp_Name g))} \<and>
       set (mas_Users s) = {u. HasPrefix u (org @ ''/'') \<and>
          (\<exists>policy\<in>set policies. \<exists>spec. spec_of policy = Some spec \<and> lists_model spec k \<and> lists_user spec u)} \<and>
       sorted_wrt groupLess (mas_Groups s) \<and> sorted_wrt (<) (mas_Users s))"
proof -
  let ?im = "fold (inventory_policy refs (org @ ''/'')) policies Map.empty"
  have wf: "k \<in> set refs \<Longrightarrow> fst k \<noteq> []" for k
    using assms by (auto simp: ModelAccessSubjects_def split: if_splits)
  have invy: "inventory k = map_option sort_subjects (?im k)" for k
    using assms by (auto simp: ModelAccessSubjects_def fold_inventory split: if_splits)
  have gr: "granting policies k = {spec. \<exists>policy\<in>set policies. spec_of policy = Some spec \<and> lists_model spec k}"
    if "k \<in> set refs" for k
    using wf [OF that] by (auto simp: granting_def in_parseModelRefs)
  have prefix_ne: "HasPrefix n (org @ ''/'') \<Longrightarrow> n \<noteq> []" for n by (auto simp: HasPrefix_def)
  have "dom inventory = {k \<in> set refs. granting policies k \<noteq> {}}"
    using fold_inventory(3) [of refs "org @ ''/''" policies Map.empty] by (auto simp: dom_def invy)
  then have dom: "dom inventory = {k \<in> set refs. \<exists>policy\<in>set policies. \<exists>spec. spec_of policy = Some spec \<and> lists_model spec k}"
    using gr by blast
  have entry: "set (mas_Groups s) = (\<Union>spec\<in>granting policies k. set (parsePolicyGroups spec (org @ ''/'')))"
    "set (mas_Users s) = (\<Union>spec\<in>granting policies k. set (parsePolicyUsers spec (org @ ''/'')))"
    "sorted_wrt groupLess (mas_Groups s)" "sorted_wrt (<) (mas_Users s)" "k \<in> set refs"
    if s: "inventory k = Some s" for k s
  proof -
    have k: "k \<in> set refs" using s dom by blast
    obtain s0 where s0: "?im k = Some s0" "s = sort_subjects s0" using s invy by auto
    note sets = fold_inventory(1) [OF k, of "org @ ''/''" policies Map.empty, unfolded s0(1)]
    have dist: "distinct (mas_Groups s0)" "distinct (mas_Users s0)"
      using fold_inventory(2) [of Map.empty k refs "org @ ''/''" policies, unfolded s0(1)]
      by (simp_all add: no_repeats_def)
    show "set (mas_Groups s) = (\<Union>spec\<in>granting policies k. set (parsePolicyGroups spec (org @ ''/'')))"
      "set (mas_Users s) = (\<Union>spec\<in>granting policies k. set (parsePolicyUsers spec (org @ ''/'')))"
      using sets by (simp_all add: s0(2) sort_subjects_def entry_sets_def)
    show "sorted_wrt groupLess (mas_Groups s)"
      using dist group_order.ordered_SliceStable [of "mas_Groups s0"]
      by (intro ordered_strict) (auto simp: s0(2) sort_subjects_def groupLess_def)
    show "sorted_wrt (<) (mas_Users s)"
      using dist by_string.ordered_SliceStable [of "mas_Users s0"]
      by (intro ordered_strict) (auto simp: s0(2) sort_subjects_def)
    show "k \<in> set refs" by (rule k)
  qed
  show ?thesis
  proof (intro conjI dom allI impI)
    fix k s assume s: "inventory k = Some s"
    show "set (mas_Groups s) = {g. HasPrefix (grp_Name g) (org @ ''/'') \<and>
        (\<exists>policy\<in>set policies. \<exists>spec. spec_of policy = Some spec \<and> lists_model spec k \<and> lists_group spec (grp_Name g))}"
      unfolding entry(1) [OF s] gr [OF entry(5) [OF s]] using prefix_ne in_parsePolicyGroups by blast
    show "set (mas_Users s) = {u. HasPrefix u (org @ ''/'') \<and>
        (\<exists>policy\<in>set policies. \<exists>spec. spec_of policy = Some spec \<and> lists_model spec k \<and> lists_user spec u)}"
      unfolding entry(2) [OF s] gr [OF entry(5) [OF s]] using in_parsePolicyUsers by blast
  qed (rule entry, assumption)+
qed

section \<open>Witness\<close>

definition ex_group :: "string \<Rightarrow> json" where
  "ex_group n = JObj [(''name'', JStr n)]"

definition ex_authPolicy :: jobj where
  "ex_authPolicy = [(''spec'', JObj
     [(''modelRefs'', JArr [JObj [(''namespace'', JStr ''llm''), (''name'', JStr ''m'')]]),
      (''subjects'', JObj [(''groups'', JArr [ex_group ''o1/eng'', ex_group ''o2/eng'', ex_group ''o1/dev'']),
                           (''users'', JArr [JStr ''o1/ann'', JStr ''bob''])])])]"

definition ex_inventory :: "nsname \<rightharpoonup> modelAccessSubjects" where
  "ex_inventory = (case ModelAccessSubjects (Some (Inr [ex_authPolicy])) [(''llm'', ''m'')] ''o1'' of
     Inl _ \<Rightarrow> Map.empty | Inr m \<Rightarrow> m)"

lemma ex_inventory_value:
  "ex_inventory (''llm'', ''m'') = Some \<lparr>mas_Groups = [\<lparr>grp_Name = ''o1/dev''\<rparr>, \<lparr>grp_Name = ''o1/eng''\<rparr>],
     mas_Users = [''o1/ann'']\<rparr>"
  by code_simp

theorem ModelAccessSubjects_exact_witness:
  "ModelAccessSubjects (Some (Inr [ex_authPolicy])) [(''llm'', ''m'')] ''o1'' = Inr ex_inventory \<and>
   (''llm'', ''m'') \<in> dom ex_inventory \<and> dom ex_inventory \<subseteq> {(''llm'', ''m'')} \<and>
   (\<exists>s. ex_inventory (''llm'', ''m'') = Some s \<and> sorted_wrt (<) (mas_Users s))"
proof -
  have res: "ModelAccessSubjects (Some (Inr [ex_authPolicy])) [(''llm'', ''m'')] ''o1'' = Inr ex_inventory"
    by (simp add: ex_inventory_def ModelAccessSubjects_def)
  have "dom ex_inventory \<subseteq> {(''llm'', ''m'')}"
    and "\<forall>s. ex_inventory (''llm'', ''m'') = Some s \<longrightarrow> sorted_wrt (<) (mas_Users s)"
    using ModelAccessSubjects_exact [OF res] by auto
  with res ex_inventory_value show ?thesis by blast
qed

end
