(* ===== verification/SubscriptionModel.thy ===== *)
theory SubscriptionModel
  imports AuthPolicyChecker
begin

text \<open>
  The data of \<open>maas-api/internal/subscription/types.go\<close> and the parsing half of
  \<open>selector.go\<close>: how a cached MaaSSubscription object becomes a \<open>subscription\<close> value,
  with the headers annotation (\<open>subscription_headers.go\<close>) and the rate-limit identity
  (\<open>ratelimit_id.go\<close>). A nil Go map is \<open>None\<close> where the code tells it from an empty one.
\<close>

section \<open>Data\<close>

record tokenRateLimit =
  trl_Limit :: int
  trl_Window :: string

record subjectInventory =
  si_Groups :: "groupReference list"
  si_Users :: "string list"

record modelRefInfo =
  mr_Name :: string
  mr_Namespace :: string
  mr_ModelName :: string
  mr_DisplayName :: string
  mr_Description :: string
  mr_Source :: string
  mr_TokenRateLimits :: "tokenRateLimit list"
  mr_Unlimited :: bool
  mr_BillingRate :: "string option"
  mr_Subjects :: "subjectInventory option"

record tokenRateLimitStatus =
  trls_Model :: string
  trls_Name :: string
  trls_Namespace :: string
  trls_Ready :: bool
  trls_Reason :: string
  trls_Message :: string

record subscription =
  sub_Object :: jobj
  sub_Name :: string
  sub_Namespace :: string
  sub_DisplayName :: string
  sub_Description :: string
  sub_Groups :: "string list"
  sub_Users :: "string list"
  sub_Priority :: int
  sub_MaxLimit :: int
  sub_AssociatedOrganizationID :: string
  sub_OrganizationID :: string
  sub_CostCenter :: string
  sub_Labels :: "(string \<rightharpoonup> string) option"
  sub_Headers :: "(string \<rightharpoonup> string list) option"
  sub_ModelRefs :: "modelRefInfo list"
  sub_Phase :: string
  sub_Ready :: bool
  sub_DeletionTimestamp :: "string option"
  sub_TokenRateLimitStatuses :: "tokenRateLimitStatus list"
  sub_UseShortRateLimitID :: bool
  sub_Objectives :: "string \<rightharpoonup> string"

definition zeroSubscription :: "string \<Rightarrow> string \<Rightarrow> subscription" where
  "zeroSubscription name namespace =
     \<lparr>sub_Object = [], sub_Name = name, sub_Namespace = namespace, sub_DisplayName = [],
      sub_Description = [], sub_Groups = [], sub_Users = [], sub_Priority = 0, sub_MaxLimit = 0,
      sub_AssociatedOrganizationID = [], sub_OrganizationID = [], sub_CostCenter = [],
      sub_Labels = None, sub_Headers = None, sub_ModelRefs = [], sub_Phase = [], sub_Ready = False,
      sub_DeletionTimestamp = None, sub_TokenRateLimitStatuses = [], sub_UseShortRateLimitID = False,
      sub_Objectives = Map.empty\<rparr>"

abbreviation PhasePending :: string where "PhasePending \<equiv> ''Pending''"
abbreviation PhaseActive :: string where "PhaseActive \<equiv> ''Active''"
abbreviation PhaseDegraded :: string where "PhaseDegraded \<equiv> ''Degraded''"
abbreviation PhaseFailed :: string where "PhaseFailed \<equiv> ''Failed''"

abbreviation AnnotationDisplayName :: string where
  "AnnotationDisplayName \<equiv> ''openshift.io/display-name''"
abbreviation AnnotationDescription :: string where
  "AnnotationDescription \<equiv> ''openshift.io/description''"
abbreviation AnnotationRateLimitIdentity :: string where
  "AnnotationRateLimitIdentity \<equiv> ''maas.opendatahub.io/rate-limit-identity''"
abbreviation AnnotationSubscriptionHeaders :: string where
  "AnnotationSubscriptionHeaders \<equiv> ''experimental.maas.opendatahub.io/headers''"

section \<open>Headers annotation\<close>

datatype headersError =
    UnmarshalFailed string
  | NotAnObject
  | InvalidHeaderName string
  | NullHeaderValues string
  | InvalidHeaderValue string
  | DuplicateHeader string

definition validSubscriptionHeaderName :: "libs \<Rightarrow> string \<Rightarrow> bool" where
  "validSubscriptionHeaderName L name \<longleftrightarrow>
     ValidHeaderFieldName L name \<and> HasPrefix (ToLower name) ''x-grid-''"

definition validSubscriptionHeaderValue :: "libs \<Rightarrow> string \<Rightarrow> bool" where
  "validSubscriptionHeaderValue L v = ValidHeaderFieldValue L v"

definition check_header :: "libs \<Rightarrow> string \<times> string list option \<Rightarrow> headersError + (string \<times> string list)" where
  "check_header L nv =
     (case nv of (name, values) \<Rightarrow>
        if \<not> validSubscriptionHeaderName L name then Inl (InvalidHeaderName name)
        else case values of
               None \<Rightarrow> Inl (NullHeaderValues name)
             | Some vs \<Rightarrow>
               if \<exists>v\<in>set vs. \<not> validSubscriptionHeaderValue L v then Inl (InvalidHeaderValue name)
               else Inr (name, vs))"

definition normalize_header ::
  "string \<times> string list \<Rightarrow> (string \<rightharpoonup> string list) \<Rightarrow> headersError + (string \<rightharpoonup> string list)" where
  "normalize_header nv normalized =
     (case nv of (name, values) \<Rightarrow>
        let lowerName = ToLower name
        in if normalized lowerName \<noteq> None then Inl (DuplicateHeader lowerName)
           else Inr (normalized(lowerName \<mapsto> values)))"

definition parseSubscriptionHeaders ::
  "libs \<Rightarrow> string \<Rightarrow> headersError + (string \<rightharpoonup> string list) option" where
  "parseSubscriptionHeaders L value =
     (if value = [] then Inr None
      else case unmarshalHeaders L value of
             Inl e \<Rightarrow> Inl (UnmarshalFailed e)
           | Inr None \<Rightarrow> Inl NotAnObject
           | Inr (Some headers) \<Rightarrow>
             bind_res (traverse (check_header L) headers) (\<lambda>checked.
             bind_res (fold_res normalize_header checked Map.empty) (\<lambda>normalized.
             Inr (Some normalized))))"

section \<open>Rate-limit identity\<close>

definition ModelScopedKey :: "string \<Rightarrow> string \<Rightarrow> string \<Rightarrow> string \<Rightarrow> string" where
  "ModelScopedKey subNamespace subName modelNamespace modelName =
     subNamespace @ ''/'' @ subName @ ''@'' @ modelNamespace @ ''/'' @ modelName"

definition RateLimitID :: "libs \<Rightarrow> string \<Rightarrow> string" where
  "RateLimitID L modelScopedKey =
     (if modelScopedKey = [] then [] else take 16 (sha256hex L modelScopedKey))"

definition RateLimitIDFor :: "libs \<Rightarrow> string \<Rightarrow> string \<Rightarrow> string \<Rightarrow> string" where
  "RateLimitIDFor L subNamespace subName resolvedModel =
     (if subNamespace = [] \<or> subName = [] \<or> resolvedModel = [] then []
      else RateLimitID L (subNamespace @ ''/'' @ subName @ ''@'' @ resolvedModel))"

definition UsesShortRateLimitID :: "string \<Rightarrow> bool" where
  "UsesShortRateLimitID identity \<longleftrightarrow> identity = ''short''"

section \<open>Parsing\<close>

definition parse_limit :: "json \<Rightarrow> tokenRateLimit list" where
  "parse_limit limitRaw =
     (case as_obj limitRaw of
        None \<Rightarrow> []
      | Some limitMap \<Rightarrow>
        [\<lparr>trl_Limit = (case field as_int64 limitMap ''limit'' of None \<Rightarrow> 0 | Some n \<Rightarrow> n),
          trl_Window = str_field limitMap ''window''\<rparr>])"

definition parseModelRef :: "libs \<Rightarrow> jobj \<Rightarrow> modelRefInfo" where
  "parseModelRef L modelMap =
     (let limits = (case found (NestedSlice L modelMap [''tokenRateLimits'']) of
                      None \<Rightarrow> [] | Some ls \<Rightarrow> concat (map parse_limit ls))
      in \<lparr>mr_Name = str_field modelMap ''name'', mr_Namespace = str_field modelMap ''namespace'',
          mr_ModelName = [], mr_DisplayName = [], mr_Description = [], mr_Source = [],
          mr_TokenRateLimits = limits,
          mr_Unlimited = (field as_bool modelMap ''unlimited'' = Some True \<and> limits = []),
          mr_BillingRate = map_option (\<lambda>br. str_field br ''perToken'')
             (found (NestedMap L modelMap [''billingRate''])),
          mr_Subjects = None\<rparr>)"

definition MaxInt64 :: int where
  "MaxInt64 = 9223372036854775807"

definition raise_limit :: "tokenRateLimit \<Rightarrow> int \<Rightarrow> int" where
  "raise_limit trl m = (if trl_Limit trl > m then trl_Limit trl else m)"

definition add_modelRef :: "libs \<Rightarrow> json \<Rightarrow> subscription \<Rightarrow> subscription" where
  "add_modelRef L modelRef sub =
     (case as_obj modelRef of
        None \<Rightarrow> sub
      | Some modelMap \<Rightarrow>
        (let ref = parseModelRef L modelMap;
             m = (if mr_Unlimited ref then MaxInt64 else sub_MaxLimit sub)
         in sub\<lparr>sub_MaxLimit := fold raise_limit (mr_TokenRateLimits ref) m,
                sub_ModelRefs := sub_ModelRefs sub @ [ref]\<rparr>))"

definition parseTokenMetadata :: "libs \<Rightarrow> jobj \<Rightarrow> subscription \<Rightarrow> subscription" where
  "parseTokenMetadata L spec sub =
     (case found (NestedMap L spec [''tokenMetadata'']) of
        None \<Rightarrow> sub
      | Some metadata \<Rightarrow>
        sub\<lparr>sub_OrganizationID :=
              (case field as_string metadata ''organizationId'' of
                 None \<Rightarrow> sub_OrganizationID sub | Some s \<Rightarrow> s),
            sub_CostCenter :=
              (case field as_string metadata ''costCenter'' of None \<Rightarrow> sub_CostCenter sub | Some s \<Rightarrow> s),
            sub_Labels :=
              (case field as_obj metadata ''labels'' of
                 None \<Rightarrow> sub_Labels sub
               | Some labelsRaw \<Rightarrow> Some (\<lambda>k. Option.bind (map_of labelsRaw k) as_string))\<rparr>)"

definition add_objective :: "json \<Rightarrow> (string \<rightharpoonup> string) \<Rightarrow> (string \<rightharpoonup> string)" where
  "add_objective raw objectives =
     (case as_obj raw of
        None \<Rightarrow> objectives
      | Some m \<Rightarrow>
        (let name = str_field m ''name''; objective = str_field m ''objectiveName''
         in if name = [] \<or> objective = [] \<or> str_field m ''reason'' = ''ObjectiveConflict'' then objectives
            else objectives(str_field m ''namespace'' @ ''/'' @ name \<mapsto> objective)))"

definition parseFlowControlStatuses :: "libs \<Rightarrow> jobj \<Rightarrow> subscription \<Rightarrow> subscription" where
  "parseFlowControlStatuses L status sub =
     (case found (NestedSlice L status [''flowControlStatuses'']) of
        None \<Rightarrow> sub
      | Some statuses \<Rightarrow> sub\<lparr>sub_Objectives := fold add_objective statuses (sub_Objectives sub)\<rparr>)"

fun parse_ready :: "json list \<Rightarrow> bool" where
  "parse_ready [] = False"
| "parse_ready (condRaw # conds) =
     (case as_obj condRaw of
        None \<Rightarrow> parse_ready conds
      | Some condMap \<Rightarrow>
        if str_field condMap ''type'' = ''Ready'' then str_field condMap ''status'' = ''True''
        else parse_ready conds)"

definition parse_trlp :: "json \<Rightarrow> tokenRateLimitStatus list" where
  "parse_trlp statusRaw =
     (case as_obj statusRaw of
        None \<Rightarrow> []
      | Some m \<Rightarrow>
        [\<lparr>trls_Model = str_field m ''model'', trls_Name = str_field m ''name'',
          trls_Namespace = str_field m ''namespace'',
          trls_Ready = (field as_bool m ''ready'' = Some True),
          trls_Reason = str_field m ''reason'', trls_Message = str_field m ''message''\<rparr>])"

definition parse_status :: "libs \<Rightarrow> jobj \<Rightarrow> subscription \<Rightarrow> subscription" where
  "parse_status L obj sub =
     (case found (NestedMap L obj [''status'']) of
        None \<Rightarrow> sub
      | Some status \<Rightarrow>
        (let sub1 = sub\<lparr>sub_Phase := (case field as_string status ''phase'' of
                          None \<Rightarrow> sub_Phase sub | Some phase \<Rightarrow> TrimSpace phase),
                        sub_Ready := (case found (NestedSlice L status [''conditions'']) of
                          None \<Rightarrow> sub_Ready sub | Some conditions \<Rightarrow> parse_ready conditions)\<rparr>;
             sub2 = parseFlowControlStatuses L status sub1
         in case found (NestedSlice L status [''tokenRateLimitStatuses'']) of
              None \<Rightarrow> sub2
            | Some statuses \<Rightarrow>
              sub2\<lparr>sub_TokenRateLimitStatuses :=
                     sub_TokenRateLimitStatuses sub2 @ concat (map parse_trlp statuses)\<rparr>))"

definition parse_owner_group :: "json \<Rightarrow> string list" where
  "parse_owner_group g =
     (case as_obj g of None \<Rightarrow> []
      | Some groupMap \<Rightarrow> (case field as_string groupMap ''name'' of None \<Rightarrow> [] | Some name \<Rightarrow> [name]))"

definition parse_owner :: "libs \<Rightarrow> jobj \<Rightarrow> subscription \<Rightarrow> subscription" where
  "parse_owner L spec sub =
     (case found (NestedMap L spec [''owner'']) of
        None \<Rightarrow> sub
      | Some owner \<Rightarrow>
        sub\<lparr>sub_Groups := (case found (NestedSlice L owner [''groups'']) of
               None \<Rightarrow> sub_Groups sub | Some gs \<Rightarrow> sub_Groups sub @ concat (map parse_owner_group gs)),
            sub_Users := (case found (NestedStringSlice L owner [''users'']) of
               None \<Rightarrow> sub_Users sub | Some us \<Rightarrow> us)\<rparr>)"

definition rate_limit_identity :: "libs \<Rightarrow> jobj \<Rightarrow> string" where
  "rate_limit_identity L obj =
     (let i1 = value_of (NestedString L obj [''spec'', ''rateLimitIdentity'']);
          i2 = (if i1 = [] then value_of (NestedString L obj [''status'', ''rateLimitIdentity'']) else i1)
      in if i2 = []
         then (case GetAnnotations L obj of
                 None \<Rightarrow> i2 | Some annotations \<Rightarrow> annotation annotations AnnotationRateLimitIdentity)
         else i2)"

datatype parseError = SpecNotFound | HeadersAnnotation headersError

definition parse_annotations :: "libs \<Rightarrow> jobj \<Rightarrow> subscription \<Rightarrow> parseError + subscription" where
  "parse_annotations L obj sub =
     (case GetAnnotations L obj of
        None \<Rightarrow> Inr sub
      | Some annotations \<Rightarrow>
        (case parseSubscriptionHeaders L (annotation annotations AnnotationSubscriptionHeaders) of
           Inl err \<Rightarrow> Inl (HeadersAnnotation err)
         | Inr headers \<Rightarrow>
           Inr (sub\<lparr>sub_DisplayName := annotation annotations AnnotationDisplayName,
                    sub_Description := annotation annotations AnnotationDescription,
                    sub_Headers := headers\<rparr>)))"

definition parse_priority :: "libs \<Rightarrow> jobj \<Rightarrow> subscription \<Rightarrow> subscription" where
  "parse_priority L spec sub =
     (case found (NestedInt64 L spec [''priority'']) of
        None \<Rightarrow> sub
      | Some p \<Rightarrow> if 0 \<le> p \<and> p \<le> 2147483647 then sub\<lparr>sub_Priority := p\<rparr> else sub)"

definition parse_modelRefs :: "libs \<Rightarrow> jobj \<Rightarrow> subscription \<Rightarrow> subscription" where
  "parse_modelRefs L spec sub =
     (case found (NestedSlice L spec [''modelRefs'']) of
        None \<Rightarrow> sub | Some modelRefs \<Rightarrow> fold (add_modelRef L) modelRefs sub)"

definition parse_organization :: "libs \<Rightarrow> jobj \<Rightarrow> subscription \<Rightarrow> subscription" where
  "parse_organization L spec sub =
     (case found (NestedMap L spec [''organization'']) of
        None \<Rightarrow> sub
      | Some organization \<Rightarrow>
        (case field as_string organization ''id'' of
           None \<Rightarrow> sub | Some organizationID \<Rightarrow> sub\<lparr>sub_AssociatedOrganizationID := organizationID\<rparr>))"

definition parse_deletion :: "jobj \<Rightarrow> subscription \<Rightarrow> subscription" where
  "parse_deletion obj sub =
     (case field as_obj obj ''metadata'' of
        None \<Rightarrow> sub
      | Some metadataMap \<Rightarrow>
        (case field as_string metadataMap ''deletionTimestamp'' of
           None \<Rightarrow> sub | Some t \<Rightarrow> if t \<noteq> [] then sub\<lparr>sub_DeletionTimestamp := Some t\<rparr> else sub))"

definition parseSubscription :: "libs \<Rightarrow> jobj \<Rightarrow> parseError + subscription" where
  "parseSubscription L obj =
     (case NestedMap L obj [''spec''] of (spec, ok, err) \<Rightarrow>
        if err \<noteq> None \<or> \<not> ok then Inl SpecNotFound
        else bind_res (parse_annotations L obj (zeroSubscription (GetName L obj) (GetNamespace L obj)))
          (\<lambda>sub. Inr
             (parse_deletion obj
             (parse_status L obj
             (parse_organization L spec
             (parseTokenMetadata L spec
             (parse_modelRefs L spec
             (parse_priority L spec
             (parse_owner L spec
               (sub\<lparr>sub_UseShortRateLimitID := UsesShortRateLimitID (rate_limit_identity L obj)\<rparr>))))))))))"

definition effectiveOrganizationID :: "subscription \<Rightarrow> string" where
  "effectiveOrganizationID sub =
     (if sub_AssociatedOrganizationID sub \<noteq> [] then sub_AssociatedOrganizationID sub
      else sub_OrganizationID sub)"

section \<open>Well-formed subscriptions\<close>

text \<open>
  What the rest of the package relies on: the priority fits an int32, a model is unlimited
  only without declared limits, and \<open>MaxLimit\<close>, the tie-break of the priority order, is the
  most generous budget of the subscription.
\<close>

definition ref_limits :: "modelRefInfo \<Rightarrow> int set" where
  "ref_limits r = (if mr_Unlimited r then {MaxInt64} else {}) \<union> trl_Limit ` set (mr_TokenRateLimits r)"

definition wf_subscription :: "subscription \<Rightarrow> bool" where
  "wf_subscription sub \<longleftrightarrow>
     0 \<le> sub_Priority sub \<and> sub_Priority sub < 2 ^ 31 \<and>
     (\<forall>r\<in>set (sub_ModelRefs sub). mr_Unlimited r \<longrightarrow> mr_TokenRateLimits r = []) \<and>
     sub_DeletionTimestamp sub \<noteq> Some [] \<and>
     ((\<forall>r\<in>set (sub_ModelRefs sub). \<forall>t\<in>set (mr_TokenRateLimits r). trl_Limit t \<le> MaxInt64) \<longrightarrow>
        sub_MaxLimit sub = Max (insert 0 (\<Union>r\<in>set (sub_ModelRefs sub). ref_limits r)))"

lemma fold_raise_limit: "fold raise_limit ts m = Max (insert m (trl_Limit ` set ts))"
proof (induction ts arbitrary: m)
  case (Cons t ts)
  have "fold raise_limit (t # ts) m = Max (insert (max m (trl_Limit t)) (trl_Limit ` set ts))"
    by (simp add: Cons raise_limit_def max_def)
  also have "\<dots> = Max (insert m (trl_Limit ` set (t # ts)))"
    by (cases "ts = []") (simp_all add: max.assoc)
  finally show ?case .
qed simp

lemma Max_absorb: "finite A \<Longrightarrow> A \<noteq> {} \<Longrightarrow> finite B \<Longrightarrow> Max (insert (Max A) B) = Max (A \<union> B)" for A :: "int set"
  by (cases "B = {}") (simp_all add: Max_Un)

lemma finite_ref_limits [simp]: "finite (ref_limits r)"
  by (simp add: ref_limits_def)

text \<open>One step of the loop over \<open>modelRefs\<close> keeps the limit maximal.\<close>

definition limit_inv :: "subscription \<Rightarrow> bool" where
  "limit_inv sub \<longleftrightarrow>
     (\<forall>r\<in>set (sub_ModelRefs sub). mr_Unlimited r \<longrightarrow> mr_TokenRateLimits r = []) \<and>
     ((\<forall>r\<in>set (sub_ModelRefs sub). \<forall>t\<in>set (mr_TokenRateLimits r). trl_Limit t \<le> MaxInt64) \<longrightarrow>
        sub_MaxLimit sub = Max (insert 0 (\<Union>r\<in>set (sub_ModelRefs sub). ref_limits r)))"

lemma parseModelRef_unlimited: "mr_Unlimited (parseModelRef L m) \<Longrightarrow> mr_TokenRateLimits (parseModelRef L m) = []"
  by (simp add: parseModelRef_def Let_def)

lemma limits_le_MaxInt64:
  assumes "\<forall>r\<in>set refs. \<forall>t\<in>set (mr_TokenRateLimits r). trl_Limit t \<le> MaxInt64"
  shows "Max (insert 0 (\<Union>r\<in>set refs. ref_limits r)) \<le> MaxInt64"
  using assms by (auto simp: ref_limits_def MaxInt64_def split: if_splits)

lemma add_modelRef_inv:
  assumes inv: "limit_inv sub"
  shows "limit_inv (add_modelRef L j sub)"
proof (cases "as_obj j")
  case None
  then show ?thesis using inv by (simp add: add_modelRef_def)
next
  case (Some m)
  define ref where "ref = parseModelRef L m"
  let ?old = "insert 0 (\<Union>r\<in>set (sub_ModelRefs sub). ref_limits r)"
  have refs: "sub_ModelRefs (add_modelRef L j sub) = sub_ModelRefs sub @ [ref]"
    and lim: "sub_MaxLimit (add_modelRef L j sub) =
      Max (insert (if mr_Unlimited ref then MaxInt64 else sub_MaxLimit sub) (trl_Limit ` set (mr_TokenRateLimits ref)))"
    using Some by (simp_all add: add_modelRef_def Let_def ref_def fold_raise_limit)
  have excl: "mr_Unlimited ref \<Longrightarrow> mr_TokenRateLimits ref = []"
    by (simp add: ref_def parseModelRef_unlimited)
  have "sub_MaxLimit (add_modelRef L j sub) = Max (?old \<union> ref_limits ref)"
    if b: "\<forall>r\<in>set (sub_ModelRefs sub). \<forall>t\<in>set (mr_TokenRateLimits r). trl_Limit t \<le> MaxInt64"
  proof -
    have old: "sub_MaxLimit sub = Max ?old" using inv b by (simp add: limit_inv_def)
    show ?thesis
    proof (cases "mr_Unlimited ref")
      case True
      have "Max (insert MaxInt64 ?old) = MaxInt64"
        using limits_le_MaxInt64 [OF b] by (subst Max_insert) auto
      then show ?thesis using True excl by (simp add: lim ref_limits_def Un_insert_right insert_commute)
    next
      case False
      then show ?thesis by (simp add: lim old ref_limits_def Max_absorb Un_insert_left)
    qed
  qed
  then show ?thesis
    using inv excl unfolding limit_inv_def refs by (simp add: Un_commute Un_insert_right)
qed

lemma fold_add_modelRef_inv: "limit_inv sub \<Longrightarrow> limit_inv (fold (add_modelRef L) js sub)"
  by (induction js arbitrary: sub) (simp_all add: add_modelRef_inv)

text \<open>Each stage of the parser writes its own fields only.\<close>

lemma fold_add_modelRef_frame [simp]:
  "sub_Priority (fold (add_modelRef L) js sub) = sub_Priority sub"
  "sub_DeletionTimestamp (fold (add_modelRef L) js sub) = sub_DeletionTimestamp sub"
  "sub_Name (fold (add_modelRef L) js sub) = sub_Name sub"
  "sub_Namespace (fold (add_modelRef L) js sub) = sub_Namespace sub"
  "sub_Users (fold (add_modelRef L) js sub) = sub_Users sub"
  "sub_Groups (fold (add_modelRef L) js sub) = sub_Groups sub"
  by (induction js arbitrary: sub) (simp_all add: add_modelRef_def Let_def split: option.splits)

lemmas parse_stage_defs =
  parse_deletion_def parse_status_def parse_organization_def parseTokenMetadata_def
  parse_modelRefs_def parse_priority_def parse_owner_def parseFlowControlStatuses_def

lemma parse_stages_frame:
  assumes "f \<in> {parse_status L obj, parse_organization L spec, parseTokenMetadata L spec, parse_deletion obj}"
  shows "sub_ModelRefs (f sub) = sub_ModelRefs sub" "sub_MaxLimit (f sub) = sub_MaxLimit sub"
    "sub_Priority (f sub) = sub_Priority sub" "sub_Name (f sub) = sub_Name sub"
    "sub_Namespace (f sub) = sub_Namespace sub" "sub_Users (f sub) = sub_Users sub"
    "sub_Groups (f sub) = sub_Groups sub"
  using assms by (auto simp: parse_stage_defs Let_def split: option.splits)

lemmas parse_frame =
  parse_stages_frame [where f = "parse_status L obj" and L = L and obj = obj for L obj, simplified]
  parse_stages_frame [where f = "parse_organization L spec" and L = L and spec = spec for L spec, simplified]
  parse_stages_frame [where f = "parseTokenMetadata L spec" and L = L and spec = spec for L spec, simplified]
  parse_stages_frame [where f = "parse_deletion obj" and obj = obj for obj, simplified]

definition owner_names :: "libs \<Rightarrow> jobj \<Rightarrow> string list \<times> string list" where
  "owner_names L spec =
     (case found (NestedMap L spec [''owner'']) of
        None \<Rightarrow> ([], [])
      | Some owner \<Rightarrow>
        (case found (NestedSlice L owner [''groups'']) of None \<Rightarrow> [] | Some gs \<Rightarrow> concat (map parse_owner_group gs),
         case found (NestedStringSlice L owner [''users'']) of None \<Rightarrow> [] | Some us \<Rightarrow> us))"

lemma parse_stages_deletion:
  "sub_DeletionTimestamp (parse_status L obj sub) = sub_DeletionTimestamp sub"
  "sub_DeletionTimestamp (parse_organization L spec sub) = sub_DeletionTimestamp sub"
  "sub_DeletionTimestamp (parseTokenMetadata L spec sub) = sub_DeletionTimestamp sub"
  "sub_DeletionTimestamp sub \<noteq> Some [] \<Longrightarrow> sub_DeletionTimestamp (parse_deletion obj sub) \<noteq> Some []"
  by (auto simp: parse_stage_defs Let_def split: option.splits)

lemma fold_add_modelRef_no_subjects:
  "\<forall>r\<in>set (sub_ModelRefs sub). mr_Subjects r = None \<Longrightarrow>
     \<forall>r\<in>set (sub_ModelRefs (fold (add_modelRef L) js sub)). mr_Subjects r = None"
proof (induction js arbitrary: sub)
  case (Cons j js)
  have "\<forall>r\<in>set (sub_ModelRefs (add_modelRef L j sub)). mr_Subjects r = None"
    using Cons.prems by (auto simp: add_modelRef_def parseModelRef_def Let_def split: option.splits)
  from Cons.IH [OF this] show ?case by simp
qed simp

text \<open>The parser never fills in subjects; they belong to the administrative inventory.\<close>

lemma parseSubscription_no_subjects:
  assumes "parseSubscription L obj = Inr sub" and "r \<in> set (sub_ModelRefs sub)"
  shows "mr_Subjects r = None"
proof -
  from assms(1) obtain spec s0 where s0: "parse_annotations L obj (zeroSubscription (GetName L obj) (GetNamespace L obj)) = Inr s0"
    and sub: "sub = parse_deletion obj (parse_status L obj (parse_organization L spec
      (parseTokenMetadata L spec (parse_modelRefs L spec (parse_priority L spec (parse_owner L spec
      (s0\<lparr>sub_UseShortRateLimitID := UsesShortRateLimitID (rate_limit_identity L obj)\<rparr>)))))))"
    by (auto simp: parseSubscription_def res_inv)
  define s1 where "s1 = parse_priority L spec (parse_owner L spec
      (s0\<lparr>sub_UseShortRateLimitID := UsesShortRateLimitID (rate_limit_identity L obj)\<rparr>))"
  have "sub_ModelRefs s0 = []"
    using s0 by (auto simp: parse_annotations_def zeroSubscription_def res_inv split: option.splits)
  then have "sub_ModelRefs s1 = []"
    by (auto simp: s1_def parse_priority_def parse_owner_def split: option.splits)
  then have "\<forall>r\<in>set (sub_ModelRefs (parse_modelRefs L spec s1)). mr_Subjects r = None"
    using fold_add_modelRef_no_subjects [of s1 L] by (auto simp: parse_modelRefs_def split: option.splits)
  then show ?thesis using assms(2) by (simp add: sub s1_def [symmetric] parse_frame)
qed

section \<open>Properties\<close>

text \<open>C39. Every parsed subscription is well formed: the priority fits an int32 and is not
  negative, a model with declared limits is never unlimited, the deletion timestamp is
  set only when non-empty, and \<open>MaxLimit\<close> is the largest declared limit, or the largest
  int64 when a model is unlimited. Name, namespace and owners are those of the object.\<close>

theorem parseSubscription_wf:
  assumes "parseSubscription L obj = Inr sub"
  shows "wf_subscription sub \<and> sub_Name sub = GetName L obj \<and> sub_Namespace sub = GetNamespace L obj \<and>
         (\<exists>spec. NestedMap L obj [''spec''] = (spec, True, None) \<and>
            sub_Groups sub = fst (owner_names L spec) \<and> sub_Users sub = snd (owner_names L spec))"
proof -
  from assms obtain spec s0 where spec: "NestedMap L obj [''spec''] = (spec, True, None)"
    and s0: "parse_annotations L obj (zeroSubscription (GetName L obj) (GetNamespace L obj)) = Inr s0"
    and sub: "sub = parse_deletion obj (parse_status L obj (parse_organization L spec
      (parseTokenMetadata L spec (parse_modelRefs L spec (parse_priority L spec (parse_owner L spec
      (s0\<lparr>sub_UseShortRateLimitID := UsesShortRateLimitID (rate_limit_identity L obj)\<rparr>)))))))"
    by (auto simp: parseSubscription_def res_inv)
  have z: "sub_Priority s0 = 0" "sub_MaxLimit s0 = 0" "sub_ModelRefs s0 = []" "sub_DeletionTimestamp s0 = None"
    "sub_Name s0 = GetName L obj" "sub_Namespace s0 = GetNamespace L obj" "sub_Groups s0 = []" "sub_Users s0 = []"
    using s0 by (auto simp: parse_annotations_def zeroSubscription_def res_inv split: option.splits)
  define s1 where "s1 = parse_priority L spec (parse_owner L spec
      (s0\<lparr>sub_UseShortRateLimitID := UsesShortRateLimitID (rate_limit_identity L obj)\<rparr>))"
  have s1: "0 \<le> sub_Priority s1" "sub_Priority s1 < 2 ^ 31" "sub_MaxLimit s1 = 0" "sub_ModelRefs s1 = []"
    "sub_DeletionTimestamp s1 = None" "sub_Name s1 = GetName L obj" "sub_Namespace s1 = GetNamespace L obj"
    "sub_Groups s1 = fst (owner_names L spec)" "sub_Users s1 = snd (owner_names L spec)"
    using z by (auto simp: s1_def parse_priority_def parse_owner_def owner_names_def split: option.splits)
  have "limit_inv s1" by (simp add: limit_inv_def s1)
  then have inv: "limit_inv (parse_modelRefs L spec s1)"
    by (auto simp: parse_modelRefs_def fold_add_modelRef_inv split: option.splits)
  have s2: "sub_Priority (parse_modelRefs L spec s1) = sub_Priority s1"
    "sub_DeletionTimestamp (parse_modelRefs L spec s1) = None"
    "sub_Name (parse_modelRefs L spec s1) = GetName L obj"
    "sub_Namespace (parse_modelRefs L spec s1) = GetNamespace L obj"
    "sub_Groups (parse_modelRefs L spec s1) = fst (owner_names L spec)"
    "sub_Users (parse_modelRefs L spec s1) = snd (owner_names L spec)"
    by (simp_all add: parse_modelRefs_def s1 split: option.split)
  have "sub_DeletionTimestamp sub \<noteq> Some []"
    unfolding sub s1_def [symmetric] by (intro parse_stages_deletion(4)) (simp add: parse_stages_deletion s2)
  moreover have "limit_inv sub" using inv by (simp add: limit_inv_def sub s1_def [symmetric] parse_frame)
  ultimately have "wf_subscription sub"
    using s1(1,2) by (simp add: wf_subscription_def limit_inv_def sub s1_def [symmetric] parse_frame s2)
  then show ?thesis
    using spec by (simp add: sub s1_def [symmetric] parse_frame s2)
qed

lemma check_header_Inr_iff:
  "check_header L nv = Inr r \<longleftrightarrow>
     (case nv of (name, vs) \<Rightarrow> validSubscriptionHeaderName L name \<and>
        (\<exists>us. vs = Some us \<and> (\<forall>u\<in>set us. validSubscriptionHeaderValue L u))) \<and>
     r = (fst nv, the (snd nv))"
  by (cases nv; cases "snd nv") (auto simp: check_header_def)

lemma fold_normalize_Inr_iff:
  "fold_res normalize_header hs m = Inr m' \<longleftrightarrow>
     distinct (map (ToLower \<circ> fst) hs) \<and> (\<forall>h\<in>set hs. m (ToLower (fst h)) = None) \<and>
     m' = m ++ map_of (map (\<lambda>(n, vs). (ToLower n, vs)) hs)"
proof (induction hs arbitrary: m)
  case (Cons h hs)
  obtain n vs where h: "h = (n, vs)" by (cases h)
  let ?k = "ToLower n" and ?rest = "map_of (map (\<lambda>(n, vs). (ToLower n, vs)) hs)"
  have dom: "?rest ?k = None \<longleftrightarrow> ?k \<notin> (ToLower \<circ> fst) ` set hs"
    by (force simp: map_of_eq_None_iff)
  have step: "fold_res normalize_header (h # hs) m =
      (if m ?k \<noteq> None then Inl (DuplicateHeader ?k) else fold_res normalize_header hs (m(?k \<mapsto> vs)))"
    by (simp add: h normalize_header_def Let_def)
  show ?case
  proof (cases "m ?k = None \<and> ?k \<notin> (ToLower \<circ> fst) ` set hs")
    case True
    have add: "m ++ map_of (map (\<lambda>(n, vs). (ToLower n, vs)) (h # hs)) = m(?k \<mapsto> vs) ++ ?rest"
      using True dom by (auto simp: h map_add_def fun_eq_iff split: option.splits)
    have "(\<forall>h\<in>set hs. (m(?k \<mapsto> vs)) (ToLower (fst h)) = None) \<longleftrightarrow> (\<forall>h\<in>set hs. m (ToLower (fst h)) = None)"
      using True by (intro ball_cong refl) force
    then show ?thesis unfolding step add using True by (simp add: Cons.IH h del: fun_upd_apply)
  next
    case False
    then show ?thesis unfolding step by (auto simp: Cons.IH h)
  qed
qed auto

text \<open>The headers annotation is accepted exactly when it decodes to an object whose names
  are valid, start with \<open>x-grid-\<close> up to case and stay distinct in lower case, and whose
  values are all valid; the result then has every header under its lower-case name and
  nothing else.\<close>

theorem parseSubscriptionHeaders_iff:
  "parseSubscriptionHeaders L value = Inr result \<longleftrightarrow>
     (if value = [] then result = None
      else \<exists>headers. unmarshalHeaders L value = Inr (Some headers) \<and>
        (\<forall>(name, vs)\<in>set headers. validSubscriptionHeaderName L name \<and>
           (\<exists>us. vs = Some us \<and> (\<forall>u\<in>set us. validSubscriptionHeaderValue L u))) \<and>
        distinct (map (ToLower \<circ> fst) headers) \<and>
        result = Some (map_of (map (\<lambda>(name, vs). (ToLower name, the vs)) headers)))"
proof (cases "unmarshalHeaders L value")
  case (Inr hs)
  show ?thesis
    unfolding parseSubscriptionHeaders_def Inr
    by (cases hs)
       (auto simp: bind_res_eq_Inr_iff traverse_map_Inr_iff [OF check_header_Inr_iff] fold_normalize_Inr_iff
          split_def comp_def)
qed (auto simp: parseSubscriptionHeaders_def)

lemma split_at:
  fixes c :: char
  assumes "c \<notin> set a" and "c \<notin> set a'" and "a @ c # b = a' @ c # b'"
  shows "a = a' \<and> b = b'"
proof -
  have "Some (a, b) = Cut c (a @ c # b)" by (rule Cut_append [OF assms(1), symmetric])
  also have "\<dots> = Some (a', b')" unfolding assms(3) by (rule Cut_append [OF assms(2)])
  finally show ?thesis by simp
qed

text \<open>The key a rate limit is matched on names one subscription and one model: two model
  scoped keys are equal only for the same subscription namespace and name and the same
  model namespace and name (none of which contains a slash or an at sign, as Kubernetes
  names do not), and the id of a resolved model \<open>namespace/name\<close> is the id of that key.\<close>

theorem ModelScopedKey_unambiguous:
  assumes "CHR ''/'' \<notin> set ns" "CHR ''/'' \<notin> set ns'" "CHR ''@'' \<notin> set n" "CHR ''@'' \<notin> set n'"
    and "CHR ''/'' \<notin> set mns" "CHR ''/'' \<notin> set mns'" and "ns \<noteq> []" "n \<noteq> []"
  shows "(ModelScopedKey ns n mns mn = ModelScopedKey ns' n' mns' mn' \<longleftrightarrow>
            (ns, n, mns, mn) = (ns', n', mns', mn')) \<and>
         RateLimitIDFor L ns n (mns @ ''/'' @ mn) = RateLimitID L (ModelScopedKey ns n mns mn)"
proof -
  have "(ns, n, mns, mn) = (ns', n', mns', mn')"
    if eq: "ModelScopedKey ns n mns mn = ModelScopedKey ns' n' mns' mn'"
  proof -
    have "ns = ns' \<and> n @ CHR ''@'' # mns @ CHR ''/'' # mn = n' @ CHR ''@'' # mns' @ CHR ''/'' # mn'"
      using eq by (intro split_at [OF assms(1,2)]) (simp add: ModelScopedKey_def)
    moreover from this have "n = n' \<and> mns @ CHR ''/'' # mn = mns' @ CHR ''/'' # mn'"
      by (intro split_at [OF assms(3,4)]) simp
    moreover from this have "mns = mns' \<and> mn = mn'" by (intro split_at [OF assms(5,6)]) simp
    ultimately show ?thesis by simp
  qed
  then show ?thesis using assms(7,8) by (auto simp: RateLimitIDFor_def ModelScopedKey_def)
qed

section \<open>Witnesses\<close>

definition ex_subObject :: jobj where
  "ex_subObject =
     [(''metadata'', JObj [(''name'', JStr ''gold''), (''namespace'', JStr ''tn'')]),
      (''spec'', JObj [(''owner'', JObj [(''groups'', JArr [ex_group ''eng'']), (''users'', JArr [JStr ''ann''])]),
         (''priority'', JInt 7),
         (''modelRefs'', JArr [JObj [(''namespace'', JStr ''llm''), (''name'', JStr ''m''),
            (''tokenRateLimits'', JArr [JObj [(''limit'', JInt 100), (''window'', JStr ''1m'')]])]])]),
      (''status'', JObj [(''phase'', JStr '' Active '')])]"

definition ex_sub :: subscription where
  "ex_sub = (case parseSubscription example_libs ex_subObject of Inl _ \<Rightarrow> zeroSubscription [] [] | Inr s \<Rightarrow> s)"

lemma ex_sub_parsed: "parseSubscription example_libs ex_subObject = Inr ex_sub"
proof -
  have "case parseSubscription example_libs ex_subObject of Inl _ \<Rightarrow> False | Inr s \<Rightarrow> True" by code_simp
  then show ?thesis by (auto simp: ex_sub_def split: sum.splits)
qed

theorem parseSubscription_wf_witness:
  "wf_subscription ex_sub \<and> sub_Name ex_sub = ''gold'' \<and> sub_Priority ex_sub = 7 \<and>
   sub_MaxLimit ex_sub = 100 \<and> sub_Phase ex_sub = PhaseActive"
proof -
  have "wf_subscription ex_sub" using parseSubscription_wf [OF ex_sub_parsed] by blast
  moreover have "sub_Name ex_sub = ''gold''" "sub_Priority ex_sub = 7" "sub_MaxLimit ex_sub = 100"
    "sub_Phase ex_sub = PhaseActive" by code_simp+
  ultimately show ?thesis by blast
qed

theorem parseSubscriptionHeaders_iff_witness:
  "parseSubscriptionHeaders example_libs ''X-Grid-A'' = Inr (Some [''x-grid-a'' \<mapsto> []]) \<and>
   parseSubscriptionHeaders example_libs ''Cookie'' \<noteq> Inr (Some [''cookie'' \<mapsto> []])"
proof -
  have "ToLower ''X-Grid-A'' = ''x-grid-a''" by code_simp
  moreover have "validSubscriptionHeaderName example_libs ''X-Grid-A''"
    "\<not> validSubscriptionHeaderName example_libs ''Cookie''" by code_simp+
  moreover have "unmarshalHeaders example_libs s = Inr (Some [(s, Some [])])" for s
    by (simp add: example_libs_def)
  ultimately show ?thesis by (simp add: parseSubscriptionHeaders_iff)
qed

theorem ModelScopedKey_unambiguous_witness:
  "ModelScopedKey ''tn'' ''gold'' ''llm'' ''m'' \<noteq> ModelScopedKey ''tn'' ''gold'' ''llm'' ''n'' \<and>
   RateLimitIDFor example_libs ''tn'' ''gold'' ''llm/m'' = ''htn/gold@llm/m''"
  using ModelScopedKey_unambiguous [of "''tn''" "''tn''" "''gold''" "''gold''" "''llm''" "''llm''" "''m''" "''n''" example_libs]
  by (simp add: RateLimitID_def ModelScopedKey_def example_libs_def)

end
