(* ===== verification/GuardrailMerge.thy ===== *)
theory GuardrailMerge
  imports MaasPrelude "HOL-Library.AList"
begin

text \<open>
  The merge core of \<open>maas-common/pkg/guardrail/merge.go\<close>: resolved guardrail
  selections are combined into one execution plan. The resolved policies come from the
  AI gateway controller's \<open>AttachmentResolver\<close>, outside the repository; the phases its
  API knows are the argument \<open>known\<close>. Go iterates over the map \<open>index\<close> in an unspecified
  order: the argument \<open>iter\<close> of \<open>Merge\<close> is that order, an arbitrary rearrangement of
  the entries.
\<close>

section \<open>Data\<close>

record check =
  ck_Name :: string
  ck_SpecIndex :: int
  ck_Phases :: "string list"

record resolvedPolicy =
  rp_Namespace :: string
  rp_Name :: string
  rp_UID :: string
  rp_Generation :: int
  rp_BindingRevision :: string
  rp_Checks :: "check list"

record policyIdentity =
  pi_Namespace :: string
  pi_Name :: string
  pi_UID :: string
  pi_Generation :: int
  pi_BindingRevision :: string

definition identityOf :: "resolvedPolicy \<Rightarrow> policyIdentity" where
  "identityOf p =
     \<lparr>pi_Namespace = rp_Namespace p, pi_Name = rp_Name p, pi_UID = rp_UID p,
      pi_Generation = rp_Generation p, pi_BindingRevision = rp_BindingRevision p\<rparr>"

record source =
  src_Kind :: string
  src_Namespace :: string
  src_Name :: string
  src_UID :: string
  src_AttachmentPath :: string

record resolvedSelection =
  rs_Policy :: resolvedPolicy
  rs_Source :: source

record selectedCheck =
  sc_Policy :: policyIdentity
  sc_Check :: check
  sc_Sources :: "source list"

record executionPlan =
  Checks :: "selectedCheck list"

datatype phaseError = PhasesEmpty | UnknownPhase string | DuplicatePhase string

datatype mergeError =
    ErrPolicySnapshotConflict
  | InvalidPhases phaseError
  | NegativeSpecIndex
  | SharedSpecIndex
  | ConflictingMetadata

section \<open>Operations\<close>

fun adjacent_dup :: "'a list \<Rightarrow> 'a option" where
  "adjacent_dup (x # y # zs) = (if y = x then Some y else adjacent_dup (y # zs))"
| "adjacent_dup _ = None"

definition validateAndSortPhases :: "string list \<Rightarrow> string list \<Rightarrow> phaseError + string list" where
  "validateAndSortPhases known phases =
     (if phases = [] then Inl PhasesEmpty
      else case find (\<lambda>ph. ph \<notin> set known) phases of
        Some ph \<Rightarrow> Inl (UnknownPhase ph)
      | None \<Rightarrow>
         (let out = SliceStable (<) phases
          in case adjacent_dup out of Some ph \<Rightarrow> Inl (DuplicatePhase ph) | None \<Rightarrow> Inr out))"

definition sourceLess :: "source \<Rightarrow> source \<Rightarrow> bool" where
  "sourceLess a b =
     (if src_Kind a \<noteq> src_Kind b then src_Kind a < src_Kind b
      else if src_Namespace a \<noteq> src_Namespace b then src_Namespace a < src_Namespace b
      else if src_Name a \<noteq> src_Name b then src_Name a < src_Name b
      else if src_UID a \<noteq> src_UID b then src_UID a < src_UID b
      else src_AttachmentPath a < src_AttachmentPath b)"

fun dedupe_from :: "source list \<Rightarrow> source list \<Rightarrow> source list" where
  "dedupe_from seen [] = []"
| "dedupe_from seen (s # ss) =
     (if s \<in> set seen then dedupe_from seen ss else s # dedupe_from (s # seen) ss)"

definition dedupeSources :: "source list \<Rightarrow> source list" where
  "dedupeSources sources = SliceStable sourceLess (dedupe_from [] sources)"

definition checkLess :: "selectedCheck \<Rightarrow> selectedCheck \<Rightarrow> bool" where
  "checkLess a b =
     (if pi_Name (sc_Policy a) \<noteq> pi_Name (sc_Policy b)
      then pi_Name (sc_Policy a) < pi_Name (sc_Policy b)
      else if pi_Namespace (sc_Policy a) \<noteq> pi_Namespace (sc_Policy b)
      then pi_Namespace (sc_Policy a) < pi_Namespace (sc_Policy b)
      else if ck_SpecIndex (sc_Check a) \<noteq> ck_SpecIndex (sc_Check b)
      then ck_SpecIndex (sc_Check a) < ck_SpecIndex (sc_Check b)
      else False)"

definition sortChecks :: "selectedCheck list \<Rightarrow> selectedCheck list" where
  "sortChecks checks = SliceStable checkLess checks"

fun snapshot_loop ::
  "resolvedSelection list \<Rightarrow> (string \<times> string \<rightharpoonup> policyIdentity) \<Rightarrow> mergeError + unit" where
  "snapshot_loop [] seen = Inr ()"
| "snapshot_loop (sel # sels) seen =
     (let key = (rp_Namespace (rs_Policy sel), rp_Name (rs_Policy sel));
          identity = identityOf (rs_Policy sel)
      in case seen key of
           None \<Rightarrow> snapshot_loop sels (seen(key \<mapsto> identity))
         | Some prev \<Rightarrow>
             if prev \<noteq> identity then Inl ErrPolicySnapshotConflict
             else snapshot_loop sels seen)"

definition checkSnapshotConsistency :: "resolvedSelection list \<Rightarrow> mergeError + unit" where
  "checkSnapshotConsistency selections = snapshot_loop selections Map.empty"

type_synonym checkKey = "string \<times> string \<times> string"
type_synonym mergeState = "(checkKey \<times> selectedCheck) list \<times> (string \<times> string \<times> int \<rightharpoonup> string)"

definition mergeCheck ::
  "string list \<Rightarrow> resolvedSelection \<times> check \<Rightarrow> mergeState \<Rightarrow> mergeError + mergeState" where
  "mergeCheck known sc st =
     (case (sc, st) of ((sel, c0), (index, indexOwners)) \<Rightarrow>
      (case validateAndSortPhases known (ck_Phases c0) of
         Inl e \<Rightarrow> Inl (InvalidPhases e)
       | Inr phases \<Rightarrow>
         (let c = c0\<lparr>ck_Phases := phases\<rparr>;
              ns = rp_Namespace (rs_Policy sel); nm = rp_Name (rs_Policy sel);
              ownerKey = (ns, nm, ck_SpecIndex c);
              key = (ns, nm, ck_Name c)
          in if ck_SpecIndex c < 0 then Inl NegativeSpecIndex
             else if (case indexOwners ownerKey of None \<Rightarrow> False | Some owner \<Rightarrow> owner \<noteq> ck_Name c)
             then Inl SharedSpecIndex
             else let owners' = indexOwners(ownerKey \<mapsto> ck_Name c)
             in case map_of index key of
                  None \<Rightarrow>
                    Inr ((key, \<lparr>sc_Policy = identityOf (rs_Policy sel), sc_Check = c,
                                sc_Sources = [rs_Source sel]\<rparr>) # index, owners')
                | Some existing \<Rightarrow>
                    if ck_SpecIndex (sc_Check existing) \<noteq> ck_SpecIndex c
                       \<or> ck_Phases (sc_Check existing) \<noteq> ck_Phases c
                    then Inl ConflictingMetadata
                    else Inr (AList.update key
                           (existing\<lparr>sc_Sources := sc_Sources existing @ [rs_Source sel]\<rparr>) index,
                         owners'))))"

definition selection_checks :: "resolvedSelection \<Rightarrow> (resolvedSelection \<times> check) list" where
  "selection_checks sel = map (Pair sel) (rp_Checks (rs_Policy sel))"

definition finish_check :: "selectedCheck \<Rightarrow> selectedCheck" where
  "finish_check sc = sc\<lparr>sc_Sources := dedupeSources (sc_Sources sc)\<rparr>"

definition Merge ::
  "string list \<Rightarrow> ((checkKey \<times> selectedCheck) list \<Rightarrow> (checkKey \<times> selectedCheck) list)
     \<Rightarrow> resolvedSelection list \<Rightarrow> mergeError + executionPlan" where
  "Merge known iter selections =
     (case checkSnapshotConsistency selections of
        Inl e \<Rightarrow> Inl e
      | Inr _ \<Rightarrow>
        (case fold_res (\<lambda>sel. fold_res (mergeCheck known) (selection_checks sel))
                selections ([], Map.empty) of
           Inl e \<Rightarrow> Inl e
         | Inr (index, owners) \<Rightarrow>
             Inr \<lparr>Checks = sortChecks (map (finish_check \<circ> snd) (iter index))\<rparr>))"

definition ChecksForPhase :: "executionPlan \<Rightarrow> string \<Rightarrow> selectedCheck list" where
  "ChecksForPhase p phase = filter (\<lambda>sc. phase \<in> set (ck_Phases (sc_Check sc))) (Checks p)"

section \<open>The two comparison functions\<close>

definition source_key :: "source \<Rightarrow> string list" where
  "source_key s = [src_Kind s, src_Namespace s, src_Name s, src_UID s, src_AttachmentPath s]"

lemma sourceLess_key: "sourceLess a b \<longleftrightarrow> source_key a < source_key b"
  by (auto simp: sourceLess_def source_key_def)

lemma source_key_inject: "source_key a = source_key b \<Longrightarrow> a = b"
  by (simp add: source_key_def)

interpretation source_order: go_less sourceLess
  by unfold_locales (auto simp: sourceLess_key)

lemma sourceLess_total: "\<not> sourceLess a b \<Longrightarrow> \<not> sourceLess b a \<Longrightarrow> a = b"
  by (auto simp: sourceLess_key intro: source_key_inject)

interpretation check_order: go_less checkLess
  by unfold_locales (auto simp: checkLess_def split: if_splits)

lemma checkLess_tie:
  "\<not> checkLess a b \<Longrightarrow> \<not> checkLess b a \<Longrightarrow>
     pi_Name (sc_Policy a) = pi_Name (sc_Policy b) \<and>
     pi_Namespace (sc_Policy a) = pi_Namespace (sc_Policy b) \<and>
     ck_SpecIndex (sc_Check a) = ck_SpecIndex (sc_Check b)"
  by (auto simp: checkLess_def split: if_splits)

section \<open>Phases and sources\<close>

lemma adjacent_dup_None_sorted:
  "sorted_wrt (\<le>) (xs :: 'a :: linorder list) \<Longrightarrow> adjacent_dup xs = None \<longleftrightarrow> distinct xs"
  by (induction xs rule: adjacent_dup.induct) force+

lemma ordered_by_less_sorted: "ordered_by (<) xs = sorted_wrt (\<le>) (xs :: 'a :: linorder list)"
  by (simp add: ordered_by_def not_less)

definition valid_phases :: "string list \<Rightarrow> string list \<Rightarrow> bool" where
  "valid_phases known phases \<longleftrightarrow> phases \<noteq> [] \<and> set phases \<subseteq> set known \<and> distinct phases"

lemma validateAndSortPhases_Inr_iff:
  "validateAndSortPhases known phases = Inr out \<longleftrightarrow>
     valid_phases known phases \<and> out = SliceStable (<) phases"
proof -
  have "adjacent_dup (SliceStable (<) phases) = None \<longleftrightarrow> distinct phases"
    using by_string.ordered_SliceStable [of phases]
    by (simp add: ordered_by_less_sorted adjacent_dup_None_sorted)
  then show ?thesis
    by (auto simp: validateAndSortPhases_def valid_phases_def Let_def find_None_iff_all
             split: option.splits dest: find_SomeD)
qed

lemma set_dedupe_from: "set (dedupe_from seen ss) = set ss - set seen"
  by (induction ss arbitrary: seen) auto

lemma distinct_dedupe_from: "distinct (dedupe_from seen ss)"
  by (induction ss arbitrary: seen) (auto simp: set_dedupe_from)

lemma set_dedupeSources [simp]: "set (dedupeSources ss) = set ss"
  by (simp add: dedupeSources_def set_dedupe_from)

lemma distinct_dedupeSources: "distinct (dedupeSources ss)"
  by (simp add: dedupeSources_def distinct_dedupe_from)

lemma dedupeSources_cong: "set ss = set ts \<Longrightarrow> dedupeSources ss = dedupeSources ts"
  unfolding dedupeSources_def
  by (rule source_order.SliceStable_unique)
     (auto simp: set_eq_iff_mset_eq_distinct [symmetric] distinct_dedupe_from set_dedupe_from
           intro: sourceLess_total)

section \<open>What the merge computes\<close>

text \<open>
  The declarative reading of \<open>Merge\<close>. \<open>selection_pairs\<close> are the (selection, check) pairs the
  loop visits. They are \<open>consistent\<close> when same-named policies agree on their identity, every
  check is well formed, no spec index of a policy has two owners, and two occurrences of a
  check agree on index and phases. \<open>is_entry\<close> says which selected check a key has.
\<close>

definition selection_pairs :: "resolvedSelection list \<Rightarrow> (resolvedSelection \<times> check) list" where
  "selection_pairs sels = concat (map selection_checks sels)"

definition pair_key :: "resolvedSelection \<times> check \<Rightarrow> checkKey" where
  "pair_key p = (rp_Namespace (rs_Policy (fst p)), rp_Name (rs_Policy (fst p)), ck_Name (snd p))"

definition pair_slot :: "resolvedSelection \<times> check \<Rightarrow> string \<times> string \<times> int" where
  "pair_slot p = (rp_Namespace (rs_Policy (fst p)), rp_Name (rs_Policy (fst p)), ck_SpecIndex (snd p))"

definition norm_check :: "check \<Rightarrow> check" where
  "norm_check c = c\<lparr>ck_Phases := SliceStable (<) (ck_Phases c)\<rparr>"

definition well_formed_check :: "string list \<Rightarrow> check \<Rightarrow> bool" where
  "well_formed_check known c \<longleftrightarrow> valid_phases known (ck_Phases c) \<and> 0 \<le> ck_SpecIndex c"

definition pairs_agree :: "resolvedSelection \<times> check \<Rightarrow> resolvedSelection \<times> check \<Rightarrow> bool" where
  "pairs_agree p q \<longleftrightarrow>
     (pair_slot p = pair_slot q \<longrightarrow> ck_Name (snd p) = ck_Name (snd q)) \<and>
     (pair_key p = pair_key q \<longrightarrow> norm_check (snd p) = norm_check (snd q))"

definition pairs_consistent :: "string list \<Rightarrow> (resolvedSelection \<times> check) list \<Rightarrow> bool" where
  "pairs_consistent known ps \<longleftrightarrow>
     (\<forall>p\<in>set ps. well_formed_check known (snd p)) \<and>
     (\<forall>p\<in>set ps. \<forall>q\<in>set ps. pairs_agree p q)"

definition snapshots_agree :: "resolvedSelection list \<Rightarrow> bool" where
  "snapshots_agree sels \<longleftrightarrow>
     (\<forall>a\<in>set sels. \<forall>b\<in>set sels.
        rp_Namespace (rs_Policy a) = rp_Namespace (rs_Policy b) \<longrightarrow>
        rp_Name (rs_Policy a) = rp_Name (rs_Policy b) \<longrightarrow>
        identityOf (rs_Policy a) = identityOf (rs_Policy b))"

definition sources_for :: "(resolvedSelection \<times> check) list \<Rightarrow> checkKey \<Rightarrow> source list" where
  "sources_for ps k = map (rs_Source \<circ> fst) (filter (\<lambda>p. pair_key p = k) ps)"

definition is_entry :: "(resolvedSelection \<times> check) list \<Rightarrow> checkKey \<Rightarrow> selectedCheck \<Rightarrow> bool" where
  "is_entry ps k e \<longleftrightarrow>
     (\<exists>p\<in>set ps. pair_key p = k \<and> sc_Policy e = identityOf (rs_Policy (fst p)) \<and>
        sc_Check e = norm_check (snd p)) \<and>
     sc_Sources e = sources_for ps k"

text \<open>The state of the loop after the pairs \<open>ps\<close>.\<close>

definition loop_inv :: "(resolvedSelection \<times> check) list \<Rightarrow> mergeState \<Rightarrow> bool" where
  "loop_inv ps st \<longleftrightarrow>
     distinct (map fst (fst st)) \<and>
     fst ` set (fst st) = pair_key ` set ps \<and>
     (\<forall>k e. map_of (fst st) k = Some e \<longrightarrow> is_entry ps k e) \<and>
     (\<forall>slot n. snd st slot = Some n \<longleftrightarrow> (\<exists>p\<in>set ps. pair_slot p = slot \<and> ck_Name (snd p) = n))"

lemma loop_inv_init: "loop_inv [] ([], Map.empty)"
  by (simp add: loop_inv_def)

lemma loop_invI:
  assumes "distinct (map fst index)" and "fst ` set index = pair_key ` set ps"
    and "\<And>k e. map_of index k = Some e \<Longrightarrow> is_entry ps k e"
    and "\<And>slot n. owners slot = Some n \<longleftrightarrow> (\<exists>p\<in>set ps. pair_slot p = slot \<and> ck_Name (snd p) = n)"
  shows "loop_inv ps (index, owners)"
  using assms unfolding loop_inv_def fst_conv snd_conv by blast

lemma loop_invD:
  assumes "loop_inv ps (index, owners)"
  shows "distinct (map fst index)" and "fst ` set index = pair_key ` set ps"
    and "map_of index k = Some e \<Longrightarrow> is_entry ps k e"
    and "owners slot = Some n \<longleftrightarrow> (\<exists>p\<in>set ps. pair_slot p = slot \<and> ck_Name (snd p) = n)"
  using assms unfolding loop_inv_def fst_conv snd_conv by blast+

lemma loop_inv_lookup:
  assumes "loop_inv ps (index, owners)" and "q \<in> set ps"
  obtains e where "map_of index (pair_key q) = Some e" "is_entry ps (pair_key q) e"
proof -
  have "pair_key q \<in> fst ` set index" using assms by (simp add: loop_invD(2))
  then obtain e where "map_of index (pair_key q) = Some e"
    by (meson map_of_eq_None_iff not_Some_eq)
  with assms that show thesis by (blast dest: loop_invD(3))
qed

lemma norm_check_eq_iff:
  "norm_check c = norm_check d \<longleftrightarrow>
     ck_Name c = ck_Name d \<and> ck_SpecIndex c = ck_SpecIndex d \<and>
     SliceStable (<) (ck_Phases c) = SliceStable (<) (ck_Phases d)"
  by (cases c; cases d) (auto simp: norm_check_def)

lemma is_entry_D:
  assumes "is_entry ps k e"
  obtains q where "q \<in> set ps" "pair_key q = k" "sc_Policy e = identityOf (rs_Policy (fst q))"
    "sc_Check e = norm_check (snd q)" "sc_Sources e = sources_for ps k"
  using assms by (auto simp: is_entry_def)

lemma sources_for_snoc:
  "sources_for (ps @ [p]) k = sources_for ps k @ (if pair_key p = k then [rs_Source (fst p)] else [])"
  by (simp add: sources_for_def)

lemma is_entry_snoc_other: "is_entry ps k e \<Longrightarrow> pair_key p \<noteq> k \<Longrightarrow> is_entry (ps @ [p]) k e"
  by (auto simp: is_entry_def sources_for_snoc)

lemma pairs_agree_refl: "pairs_agree p p"
  by (simp add: pairs_agree_def)

lemma pairs_agree_sym: "pairs_agree p q \<longleftrightarrow> pairs_agree q p"
  unfolding pairs_agree_def by metis

lemma pairs_consistent_snoc:
  "pairs_consistent known (ps @ [p]) \<longleftrightarrow>
     pairs_consistent known ps \<and> well_formed_check known (snd p) \<and>
     (\<forall>q\<in>set ps. pairs_agree p q)"
  unfolding pairs_consistent_def using pairs_agree_refl pairs_agree_sym by auto

lemma mergeCheck_Inr_iff:
  "mergeCheck known (sel, c) (index, owners) = Inr st' \<longleftrightarrow>
     well_formed_check known c \<and>
     (\<forall>n. owners (pair_slot (sel, c)) = Some n \<longrightarrow> n = ck_Name c) \<and>
     (case map_of index (pair_key (sel, c)) of
        None \<Rightarrow> st' = ((pair_key (sel, c), \<lparr>sc_Policy = identityOf (rs_Policy sel),
                   sc_Check = norm_check c, sc_Sources = [rs_Source sel]\<rparr>) # index,
                 owners(pair_slot (sel, c) \<mapsto> ck_Name c))
      | Some ex \<Rightarrow> ck_SpecIndex (sc_Check ex) = ck_SpecIndex c \<and>
          ck_Phases (sc_Check ex) = SliceStable (<) (ck_Phases c) \<and>
          st' = (AList.update (pair_key (sel, c))
                   (ex\<lparr>sc_Sources := sc_Sources ex @ [rs_Source sel]\<rparr>) index,
                 owners(pair_slot (sel, c) \<mapsto> ck_Name c)))"
proof (cases "validateAndSortPhases known (ck_Phases c)")
  case (Inl e)
  then have "\<not> valid_phases known (ck_Phases c)"
    by (metis validateAndSortPhases_Inr_iff Inl_Inr_False)
  with Inl show ?thesis by (simp add: mergeCheck_def well_formed_check_def)
next
  case (Inr out)
  then have out: "out = SliceStable (<) (ck_Phases c)" and v: "valid_phases known (ck_Phases c)"
    by (simp_all add: validateAndSortPhases_Inr_iff)
  show ?thesis
  proof (cases "0 \<le> ck_SpecIndex c \<and> (\<forall>n. owners (pair_slot (sel, c)) = Some n \<longrightarrow> n = ck_Name c)")
    case True
    then have "(case owners (pair_slot (sel, c)) of None \<Rightarrow> False | Some n \<Rightarrow> n \<noteq> ck_Name c) = False"
      by (auto split: option.split)
    with True Inr out v show ?thesis
      by (auto simp: mergeCheck_def well_formed_check_def pair_slot_def pair_key_def norm_check_def
               Let_def split: option.split)
  next
    case False
    with Inr v show ?thesis
      by (auto simp: mergeCheck_def well_formed_check_def pair_slot_def Let_def split: option.split)
  qed
qed

lemma loop_inv_owners:
  assumes "loop_inv ps (index, owners)" and "\<forall>q\<in>set ps. pairs_agree p q"
  shows "(owners(pair_slot p \<mapsto> ck_Name (snd p))) slot = Some n \<longleftrightarrow>
      (\<exists>q\<in>set (ps @ [p]). pair_slot q = slot \<and> ck_Name (snd q) = n)"
  using loop_invD(4) [OF assms(1)] assms(2) by (auto simp: pairs_agree_def)

lemma mergeCheck_new_inv:
  assumes inv: "loop_inv ps (index, owners)" and new: "map_of index (pair_key p) = None"
    and agree: "\<forall>q\<in>set ps. pairs_agree p q"
  shows "loop_inv (ps @ [p])
     ((pair_key p, \<lparr>sc_Policy = identityOf (rs_Policy (fst p)), sc_Check = norm_check (snd p),
                    sc_Sources = [rs_Source (fst p)]\<rparr>) # index,
      owners(pair_slot p \<mapsto> ck_Name (snd p)))"
proof (rule loop_invI)
  have fresh: "pair_key p \<notin> pair_key ` set ps"
    using new by (simp add: loop_invD(2) [OF inv, symmetric] map_of_eq_None_iff)
  then have "sources_for ps (pair_key p) = []"
    by (simp add: sources_for_def filter_empty_conv) (metis image_eqI)
  then have entry: "is_entry (ps @ [p]) (pair_key p)
      \<lparr>sc_Policy = identityOf (rs_Policy (fst p)), sc_Check = norm_check (snd p),
       sc_Sources = [rs_Source (fst p)]\<rparr>" (is "is_entry _ _ ?e")
    by (auto simp: is_entry_def sources_for_snoc)
  show "is_entry (ps @ [p]) k e" if "map_of ((pair_key p, ?e) # index) k = Some e" for k e
    using that entry loop_invD(3) [OF inv, of k e]
    by (cases "k = pair_key p") (simp_all add: is_entry_snoc_other)
  show "distinct (map fst ((pair_key p, ?e) # index))"
    using fresh loop_invD(1) [OF inv] by (simp add: loop_invD(2) [OF inv])
  show "fst ` set ((pair_key p, ?e) # index) = pair_key ` set (ps @ [p])"
    by (simp add: loop_invD(2) [OF inv])
qed (rule loop_inv_owners [OF inv agree])

lemma mergeCheck_old_inv:
  assumes inv: "loop_inv ps (index, owners)" and old: "map_of index (pair_key p) = Some ex"
    and agree: "\<forall>q\<in>set ps. pairs_agree p q"
  shows "loop_inv (ps @ [p])
     (AList.update (pair_key p) (ex\<lparr>sc_Sources := sc_Sources ex @ [rs_Source (fst p)]\<rparr>) index,
      owners(pair_slot p \<mapsto> ck_Name (snd p)))"
proof (rule loop_invI)
  let ?ex = "ex\<lparr>sc_Sources := sc_Sources ex @ [rs_Source (fst p)]\<rparr>"
  have e: "is_entry ps (pair_key p) ex" using old by (rule loop_invD(3) [OF inv])
  then have entry: "is_entry (ps @ [p]) (pair_key p) ?ex"
    by (auto simp: is_entry_def sources_for_snoc)
  show "is_entry (ps @ [p]) k e"
    if "map_of (AList.update (pair_key p) ?ex index) k = Some e" for k e
    using that entry loop_invD(3) [OF inv, of k e]
    by (cases "k = pair_key p") (simp_all add: update_conv' is_entry_snoc_other)
  show "distinct (map fst (AList.update (pair_key p) ?ex index))"
    using loop_invD(1) [OF inv] by (rule distinct_update)
  from e have "pair_key p \<in> pair_key ` set ps" by (elim is_entry_D) (metis imageI)
  then show "fst ` set (AList.update (pair_key p) ?ex index) = pair_key ` set (ps @ [p])"
    by (auto simp: dom_map_of_conv_image_fst [symmetric] update_conv' loop_invD(2) [OF inv, folded dom_map_of_conv_image_fst])
qed (rule loop_inv_owners [OF inv agree])

text \<open>One pair is accepted exactly when it is well formed and agrees with those before it.\<close>

lemma mergeCheck_ok:
  assumes inv: "loop_inv ps st" and wf: "well_formed_check known (snd p)"
    and agree: "\<forall>q\<in>set ps. pairs_agree p q"
  shows "\<exists>st'. mergeCheck known p st = Inr st' \<and> loop_inv (ps @ [p]) st'"
proof -
  obtain sel c where p: "p = (sel, c)" by (cases p)
  obtain index owners where st: "st = (index, owners)" by (cases st)
  note inv = inv [unfolded st]
  have own: "\<forall>n. owners (pair_slot p) = Some n \<longrightarrow> n = ck_Name c"
    using agree unfolding loop_invD(4) [OF inv] by (auto simp: pairs_agree_def p)
  show ?thesis
  proof (cases "map_of index (pair_key p)")
    case None
    with mergeCheck_new_inv [OF inv None agree] wf own p st show ?thesis
      by (simp add: mergeCheck_Inr_iff)
  next
    case (Some ex)
    then have "is_entry ps (pair_key p) ex" by (rule loop_invD(3) [OF inv])
    then obtain q where "q \<in> set ps" "pair_key q = pair_key p" "sc_Check ex = norm_check (snd q)"
      by (rule is_entry_D)
    with agree have "sc_Check ex = norm_check c" by (auto simp: pairs_agree_def p)
    with Some mergeCheck_old_inv [OF inv Some agree] wf own p st show ?thesis
      by (simp add: mergeCheck_Inr_iff norm_check_def)
  qed
qed

lemma mergeCheck_only_ok:
  assumes inv: "loop_inv ps st" and cons: "pairs_consistent known ps"
    and ok: "mergeCheck known p st = Inr st'"
  shows "well_formed_check known (snd p) \<and> (\<forall>q\<in>set ps. pairs_agree p q)"
proof -
  obtain sel c where p: "p = (sel, c)" by (cases p)
  obtain index owners where st: "st = (index, owners)" by (cases st)
  note inv = inv [unfolded st]
  note ok' = ok [unfolded p st mergeCheck_Inr_iff, folded p]
  have "pairs_agree p q" if q: "q \<in> set ps" for q
  proof -
    have slot: "ck_Name c = ck_Name (snd q)" if "pair_slot p = pair_slot q"
      using ok' loop_invD(4) [OF inv, of "pair_slot p" "ck_Name (snd q)"] q that by auto
    have "norm_check c = norm_check (snd q)" if k: "pair_key p = pair_key q"
    proof -
      obtain ex where ex: "map_of index (pair_key p) = Some ex" "is_entry ps (pair_key p) ex"
        using loop_inv_lookup [OF inv q] k by metis
      from ex(2) obtain r where r: "r \<in> set ps" "pair_key r = pair_key p"
        "sc_Check ex = norm_check (snd r)"
        by (rule is_entry_D)
      have "norm_check (snd r) = norm_check (snd q)"
          using cons r(1,2) q k unfolding pairs_consistent_def pairs_agree_def by metis
      moreover have "norm_check c = norm_check (snd r)"
        using ok' ex(1) r(2,3) p by (simp add: norm_check_eq_iff) (simp add: norm_check_def pair_key_def)
      ultimately show ?thesis by simp
    qed
    with slot show ?thesis by (simp add: pairs_agree_def p)
  qed
  with ok' show ?thesis by (simp add: p)
qed

text \<open>Hence the whole loop succeeds exactly on consistent pairs.\<close>

lemma merge_loop:
  "(pairs_consistent known ps \<longrightarrow>
      (\<exists>st. fold_res (mergeCheck known) ps ([], Map.empty) = Inr st \<and> loop_inv ps st)) \<and>
   (\<not> pairs_consistent known ps \<longrightarrow>
      (\<exists>e. fold_res (mergeCheck known) ps ([], Map.empty) = Inl e))"
proof (induction ps rule: rev_induct)
  case Nil
  show ?case using loop_inv_init by (simp add: pairs_consistent_def)
next
  case (snoc p ps)
  show ?case
  proof (cases "pairs_consistent known ps")
    case False
    with snoc.IH show ?thesis by (auto simp: fold_res_append pairs_consistent_snoc)
  next
    case True
    with snoc.IH obtain st where st: "fold_res (mergeCheck known) ps ([], Map.empty) = Inr st"
      and inv: "loop_inv ps st" by auto
    have step: "fold_res (mergeCheck known) (ps @ [p]) ([], Map.empty) = mergeCheck known p st"
      by (simp add: fold_res_append st split: sum.split)
    show ?thesis
    proof (cases "mergeCheck known p st")
      case (Inl e)
      then have "\<not> pairs_consistent known (ps @ [p])"
        using mergeCheck_ok [OF inv, of known p] by (auto simp: pairs_consistent_snoc)
      with Inl show ?thesis by (simp add: step)
    next
      case (Inr st')
      note ok = mergeCheck_only_ok [OF inv True Inr]
      then have "loop_inv (ps @ [p]) st'"
        using mergeCheck_ok [OF inv, of known p] Inr by auto
      with ok Inr show ?thesis by (simp add: step pairs_consistent_snoc True)
    qed
  qed
qed

text \<open>The snapshot pass accepts exactly the selections whose same-named policies agree.\<close>

definition policy_key :: "resolvedSelection \<Rightarrow> string \<times> string" where
  "policy_key sel = (rp_Namespace (rs_Policy sel), rp_Name (rs_Policy sel))"

lemma snapshots_agree_key:
  "snapshots_agree sels \<longleftrightarrow>
     (\<forall>a\<in>set sels. \<forall>b\<in>set sels. policy_key a = policy_key b \<longrightarrow>
        identityOf (rs_Policy a) = identityOf (rs_Policy b))"
  unfolding snapshots_agree_def policy_key_def by auto

lemma agree_insert:
  "(\<forall>a\<in>insert x A. \<forall>b\<in>insert x A. f a = f b \<longrightarrow> g a = g b) \<longleftrightarrow>
   (\<forall>a\<in>A. \<forall>b\<in>A. f a = f b \<longrightarrow> g a = g b) \<and> (\<forall>s\<in>A. f s = f x \<longrightarrow> g x = g s)"
proof (intro iffI conjI ballI impI)
  fix a b
  assume split: "(\<forall>a\<in>A. \<forall>b\<in>A. f a = f b \<longrightarrow> g a = g b) \<and> (\<forall>s\<in>A. f s = f x \<longrightarrow> g x = g s)"
    and ab: "a \<in> insert x A" "b \<in> insert x A" "f a = f b"
  consider "a = x" "b = x" | "a = x" "b \<in> A" | "a \<in> A" "b = x" | "a \<in> A" "b \<in> A" using ab by blast
  then show "g a = g b" using split ab(3) by cases (fastforce simp: eq_commute)+
qed (blast intro: sym)+

lemma map_upd_all_iff:
  "m k = None \<Longrightarrow>
     (\<forall>s\<in>A. \<forall>i. (m(k \<mapsto> d)) (f s) = Some i \<longrightarrow> i = g s) \<longleftrightarrow>
     (\<forall>s\<in>A. f s = k \<longrightarrow> d = g s) \<and> (\<forall>s\<in>A. \<forall>i. m (f s) = Some i \<longrightarrow> i = g s)"
  by (auto split: if_splits)

lemma snapshot_loop_Inr_iff:
  "snapshot_loop sels seen = Inr () \<longleftrightarrow>
     snapshots_agree sels \<and>
     (\<forall>s\<in>set sels. \<forall>i. seen (policy_key s) = Some i \<longrightarrow> i = identityOf (rs_Policy s))"
proof (induction sels arbitrary: seen)
  case Nil
  show ?case by (simp add: snapshots_agree_def)
next
  case (Cons sel sels)
  have agree: "snapshots_agree (sel # sels) \<longleftrightarrow> snapshots_agree sels \<and>
      (\<forall>s\<in>set sels. policy_key s = policy_key sel \<longrightarrow> identityOf (rs_Policy sel) = identityOf (rs_Policy s))"
    unfolding snapshots_agree_key list.set by (rule agree_insert)
  show ?case
  proof (cases "seen (policy_key sel)")
    case None
    have "snapshot_loop (sel # sels) seen = snapshot_loop sels (seen(policy_key sel \<mapsto> identityOf (rs_Policy sel)))"
      using None by (simp add: policy_key_def)
    then have "snapshot_loop (sel # sels) seen = Inr () \<longleftrightarrow> snapshots_agree (sel # sels) \<and>
        (\<forall>s\<in>set sels. \<forall>i. seen (policy_key s) = Some i \<longrightarrow> i = identityOf (rs_Policy s))"
      unfolding agree by (simp only: Cons.IH map_upd_all_iff [where m = seen and k = "policy_key sel", OF None] conj_assoc)
    with None show ?thesis by simp
  next
    case (Some i)
    then have "snapshot_loop (sel # sels) seen =
        (if i \<noteq> identityOf (rs_Policy sel) then Inl ErrPolicySnapshotConflict else snapshot_loop sels seen)"
      by (simp add: policy_key_def)
    with Some show ?thesis by (auto simp: Cons.IH agree)
  qed
qed

lemma checkSnapshotConsistency_Inr_iff:
  "checkSnapshotConsistency sels = Inr u \<longleftrightarrow> snapshots_agree sels"
  using snapshot_loop_Inr_iff [of sels Map.empty] by (simp add: checkSnapshotConsistency_def)

definition consistent :: "string list \<Rightarrow> resolvedSelection list \<Rightarrow> bool" where
  "consistent known sels \<longleftrightarrow> snapshots_agree sels \<and> pairs_consistent known (selection_pairs sels)"

lemma Merge_unfold:
  "Merge known iter sels = Inr plan \<longleftrightarrow>
     consistent known sels \<and>
     (\<exists>index owners. fold_res (mergeCheck known) (selection_pairs sels) ([], Map.empty) = Inr (index, owners) \<and>
        loop_inv (selection_pairs sels) (index, owners) \<and>
        plan = \<lparr>Checks = sortChecks (map (finish_check \<circ> snd) (iter index))\<rparr>)"
proof -
  have fold: "fold_res (\<lambda>sel. fold_res (mergeCheck known) (selection_checks sel)) sels ([], Map.empty) =
      fold_res (mergeCheck known) (selection_pairs sels) ([], Map.empty)"
    by (simp add: fold_res_concat_map selection_pairs_def)
  show ?thesis
  proof (cases "consistent known sels")
    case True
    then obtain st where "fold_res (mergeCheck known) (selection_pairs sels) ([], Map.empty) = Inr st"
      "loop_inv (selection_pairs sels) st"
      using merge_loop [of known "selection_pairs sels"] by (auto simp: consistent_def)
    with True checkSnapshotConsistency_Inr_iff [of sels "()"] show ?thesis
      by (cases st) (auto simp: Merge_def fold consistent_def)
  next
    case False
    then have "Merge known iter sels \<noteq> Inr plan"
      using merge_loop [of known "selection_pairs sels"] checkSnapshotConsistency_Inr_iff [of sels]
      by (auto simp: Merge_def fold consistent_def split: sum.splits)
    with False show ?thesis by blast
  qed
qed

lemma Merge_total: "consistent known sels \<Longrightarrow> \<exists>plan. Merge known iter sels = Inr plan"
  using merge_loop [of known "selection_pairs sels"] by (auto simp: Merge_unfold consistent_def)

text \<open>The entries a plan has to have, one per distinct check key.\<close>

definition entry_key :: "selectedCheck \<Rightarrow> checkKey" where
  "entry_key e = (pi_Namespace (sc_Policy e), pi_Name (sc_Policy e), ck_Name (sc_Check e))"

definition plan_entry :: "resolvedSelection list \<Rightarrow> selectedCheck \<Rightarrow> bool" where
  "plan_entry sels e \<longleftrightarrow>
     (\<exists>p\<in>set (selection_pairs sels).
        sc_Policy e = identityOf (rs_Policy (fst p)) \<and> sc_Check e = norm_check (snd p) \<and>
        sc_Sources e = dedupeSources (sources_for (selection_pairs sels) (pair_key p)))"

lemma entry_key_pair:
  "sc_Policy e = identityOf (rs_Policy (fst p)) \<Longrightarrow> sc_Check e = norm_check (snd p) \<Longrightarrow>
     entry_key e = pair_key p"
  by (simp add: entry_key_def pair_key_def identityOf_def norm_check_def)

lemma pair_in_selections: "p \<in> set (selection_pairs sels) \<Longrightarrow> fst p \<in> set sels"
  by (auto simp: selection_pairs_def selection_checks_def)

lemma plan_entry_unique:
  assumes "consistent known sels" and "plan_entry sels a" and "plan_entry sels b"
    and "entry_key a = entry_key b"
  shows "a = b"
proof -
  obtain p where p: "p \<in> set (selection_pairs sels)" "sc_Policy a = identityOf (rs_Policy (fst p))"
    "sc_Check a = norm_check (snd p)" "sc_Sources a = dedupeSources (sources_for (selection_pairs sels) (pair_key p))"
    using assms(2) by (auto simp: plan_entry_def)
  obtain q where q: "q \<in> set (selection_pairs sels)" "sc_Policy b = identityOf (rs_Policy (fst q))"
    "sc_Check b = norm_check (snd q)" "sc_Sources b = dedupeSources (sources_for (selection_pairs sels) (pair_key q))"
    using assms(3) by (auto simp: plan_entry_def)
  have k: "pair_key p = pair_key q" using p q assms(4) by (metis entry_key_pair)
  then have "policy_key (fst p) = policy_key (fst q)" by (simp add: pair_key_def policy_key_def)
  then have "sc_Policy a = sc_Policy b"
    using p q assms(1) pair_in_selections unfolding consistent_def snapshots_agree_key by metis
  moreover have "sc_Check a = sc_Check b"
    using p q k assms(1) unfolding consistent_def pairs_consistent_def pairs_agree_def by metis
  ultimately show ?thesis using p(4) q(4) k by simp
qed

lemma plan_entry_tie:
  assumes cons: "consistent known sels" and a: "plan_entry sels a" and b: "plan_entry sels b"
    and "\<not> checkLess a b" and "\<not> checkLess b a"
  shows "a = b"
proof -
  obtain p where p: "p \<in> set (selection_pairs sels)" "sc_Policy a = identityOf (rs_Policy (fst p))"
    "sc_Check a = norm_check (snd p)" using a by (auto simp: plan_entry_def)
  obtain q where q: "q \<in> set (selection_pairs sels)" "sc_Policy b = identityOf (rs_Policy (fst q))"
    "sc_Check b = norm_check (snd q)" using b by (auto simp: plan_entry_def)
  have "pair_slot p = pair_slot q"
    using checkLess_tie [OF assms(4,5)] p q
    by (simp add: pair_slot_def identityOf_def norm_check_def)
  then have "ck_Name (snd p) = ck_Name (snd q)"
    using cons p(1) q(1) unfolding consistent_def pairs_consistent_def pairs_agree_def by metis
  with \<open>pair_slot p = pair_slot q\<close> have "pair_key p = pair_key q"
    by (simp add: pair_slot_def pair_key_def)
  with p q have "entry_key a = entry_key b" by (metis entry_key_pair)
  with cons a b show ?thesis by (rule plan_entry_unique)
qed

text \<open>The entries of the index are the plan's entries, each once, whatever the map order.\<close>

lemma index_entry_plan:
  assumes inv: "loop_inv (selection_pairs sels) (index, owners)" and "(k, e) \<in> set index"
  shows "plan_entry sels (finish_check e)" and "entry_key (finish_check e) = k"
proof -
  have "map_of index k = Some e" using assms loop_invD(1) [OF inv] by (simp add: map_of_is_SomeI)
  then have e: "is_entry (selection_pairs sels) k e" by (rule loop_invD(3) [OF inv])
  then show "plan_entry sels (finish_check e)"
    by (elim is_entry_D) (auto simp: plan_entry_def finish_check_def)
  from e show "entry_key (finish_check e) = k"
    by (elim is_entry_D) (simp add: finish_check_def entry_key_def pair_key_def identityOf_def norm_check_def)
qed

lemma index_entries:
  assumes inv: "loop_inv (selection_pairs sels) (index, owners)" and cons: "consistent known sels"
  shows "set (map (finish_check \<circ> snd) index) = {e. plan_entry sels e}" (is "?S = ?P")
proof
  show "?S \<subseteq> ?P" using index_entry_plan(1) [OF inv] by auto
  show "?P \<subseteq> ?S"
  proof
    fix e assume "e \<in> ?P"
    then have e: "plan_entry sels e" by simp
    then obtain p where p: "p \<in> set (selection_pairs sels)" "entry_key e = pair_key p"
      by (auto simp: plan_entry_def dest: entry_key_pair)
    then obtain e0 where "map_of index (pair_key p) = Some e0"
      using loop_inv_lookup [OF inv] by metis
    then have e0: "(pair_key p, e0) \<in> set index" by (rule map_of_SomeD)
    then have "finish_check e0 = e"
      using index_entry_plan [OF inv e0] p(2) plan_entry_unique [OF cons _ e] by simp
    with e0 show "e \<in> ?S" by force
  qed
qed

lemma index_entries_distinct:
  assumes inv: "loop_inv (selection_pairs sels) (index, owners)"
  shows "distinct (map (finish_check \<circ> snd) index)"
proof -
  have "map entry_key (map (finish_check \<circ> snd) index) = map fst index"
    using index_entry_plan(2) [OF inv] by auto
  then show ?thesis using loop_invD(1) [OF inv] by (metis distinct_map)
qed

text \<open>The contract of a successful merge, from which its properties follow.\<close>

lemma Merge_result:
  assumes m: "Merge known iter sels = Inr plan" and iter: "\<And>xs. mset (iter xs) = mset xs"
  shows "consistent known sels" and "set (Checks plan) = {e. plan_entry sels e}"
    and "distinct (Checks plan)" and "ordered_by checkLess (Checks plan)"
proof -
  from m obtain index owners where inv: "loop_inv (selection_pairs sels) (index, owners)"
    and plan: "Checks plan = sortChecks (map (finish_check \<circ> snd) (iter index))"
    and cons: "consistent known sels" by (auto simp: Merge_unfold)
  have ms: "mset (Checks plan) = mset (map (finish_check \<circ> snd) index)"
    by (simp add: plan sortChecks_def iter mset_map)
  show "consistent known sels" by (rule cons)
  show "set (Checks plan) = {e. plan_entry sels e}"
    using mset_eq_setD [OF ms] index_entries [OF inv cons] by simp
  show "distinct (Checks plan)"
    using mset_eq_imp_distinct_iff [OF ms] index_entries_distinct [OF inv] by simp
  show "ordered_by checkLess (Checks plan)"
    by (simp add: plan sortChecks_def check_order.ordered_SliceStable)
qed

lemma consistent_cong:
  assumes "mset sels = mset sels'"
  shows "consistent known sels \<longleftrightarrow> consistent known sels'"
proof -
  have "set sels = set sels'" using assms by (rule mset_eq_setD)
  moreover then have "set (selection_pairs sels) = set (selection_pairs sels')"
    by (simp add: selection_pairs_def)
  ultimately show ?thesis
    by (simp add: consistent_def snapshots_agree_def pairs_consistent_def)
qed

lemma plan_entry_cong:
  assumes "mset sels = mset sels'"
  shows "plan_entry sels = plan_entry sels'"
proof -
  have "set sels = set sels'" using assms by (rule mset_eq_setD)
  then have pairs: "set (selection_pairs sels) = set (selection_pairs sels')"
    by (simp add: selection_pairs_def)
  then have "set (sources_for (selection_pairs sels) k) = set (sources_for (selection_pairs sels') k)" for k
    by (simp add: sources_for_def)
  then have "dedupeSources (sources_for (selection_pairs sels) k) =
      dedupeSources (sources_for (selection_pairs sels') k)" for k
    by (rule dedupeSources_cong)
  with pairs show ?thesis by (simp add: plan_entry_def fun_eq_iff)
qed

lemma plan_entry_source_iff:
  assumes "plan_entry sels e"
  shows "x \<in> set (sc_Sources e) \<longleftrightarrow>
     (\<exists>p\<in>set (selection_pairs sels). pair_key p = entry_key e \<and> x = rs_Source (fst p))"
proof -
  obtain p where "entry_key e = pair_key p"
    "sc_Sources e = dedupeSources (sources_for (selection_pairs sels) (pair_key p))"
    using assms by (auto simp: plan_entry_def dest: entry_key_pair)
  then show ?thesis by (auto simp: sources_for_def)
qed

lemma plan_entry_key:
  assumes "plan_entry sels e"
  shows "\<exists>sel c. entry_key e = pair_key (sel, c) \<and> sel \<in> set sels \<and> c \<in> set (rp_Checks (rs_Policy sel))"
proof -
  obtain sel c where "(sel, c) \<in> set (selection_pairs sels)" "entry_key e = pair_key (sel, c)"
    using assms entry_key_pair unfolding plan_entry_def by (metis surj_pair)
  then show ?thesis by (auto simp: selection_pairs_def selection_checks_def)
qed

lemma plan_entry_exists:
  assumes "p \<in> set (selection_pairs sels)"
  shows "\<exists>e. plan_entry sels e \<and> entry_key e = pair_key p"
proof (intro exI conjI)
  let ?e = "\<lparr>sc_Policy = identityOf (rs_Policy (fst p)), sc_Check = norm_check (snd p),
      sc_Sources = dedupeSources (sources_for (selection_pairs sels) (pair_key p))\<rparr>"
  show "plan_entry sels ?e" using assms by (auto simp: plan_entry_def)
  show "entry_key ?e = pair_key p" by (rule entry_key_pair) simp_all
qed

lemma plan_entry_well_formed:
  "consistent known sels \<Longrightarrow> plan_entry sels e \<Longrightarrow>
     ck_Phases (sc_Check e) \<noteq> [] \<and> set (ck_Phases (sc_Check e)) \<subseteq> set known"
  unfolding plan_entry_def consistent_def pairs_consistent_def well_formed_check_def valid_phases_def
  by (fastforce simp: norm_check_def)

lemma Merge_sorted:
  assumes m: "Merge known iter sels = Inr plan" and iter: "\<And>xs. mset (iter xs) = mset xs"
  shows "sorted_wrt checkLess (Checks plan)"
  using Merge_result [OF assms] plan_entry_tie
  by (intro ordered_strict) blast+

lemma Merge_keys_inj:
  assumes m: "Merge known iter sels = Inr plan" and iter: "\<And>xs. mset (iter xs) = mset xs"
  shows "distinct (map entry_key (Checks plan))"
  using Merge_result [OF assms] plan_entry_unique
  by (auto simp: distinct_map inj_on_def)

lemma Merge_entries:
  assumes m: "Merge known iter sels = Inr plan" and iter: "\<And>xs. mset (iter xs) = mset xs"
  shows "sel \<in> set sels \<Longrightarrow> c \<in> set (rp_Checks (rs_Policy sel)) \<Longrightarrow>
           \<exists>e\<in>set (Checks plan). entry_key e = pair_key (sel, c) \<and> rs_Source sel \<in> set (sc_Sources e)"
    and "e \<in> set (Checks plan) \<Longrightarrow> x \<in> set (sc_Sources e) \<Longrightarrow>
           \<exists>sel\<in>set sels. \<exists>c\<in>set (rp_Checks (rs_Policy sel)). entry_key e = pair_key (sel, c) \<and> x = rs_Source sel"
proof -
  note res = Merge_result [OF assms]
  have pairs: "p \<in> set (selection_pairs sels) \<longleftrightarrow>
      fst p \<in> set sels \<and> snd p \<in> set (rp_Checks (rs_Policy (fst p)))" for p
    by (cases p) (auto simp: selection_pairs_def selection_checks_def)
  {
    assume "sel \<in> set sels" "c \<in> set (rp_Checks (rs_Policy sel))"
    then have p: "(sel, c) \<in> set (selection_pairs sels)" by (simp add: pairs)
    then obtain e where e: "plan_entry sels e" "entry_key e = pair_key (sel, c)"
      using plan_entry_exists by blast
    with p have "rs_Source sel \<in> set (sc_Sources e)" by (force simp: plan_entry_source_iff)
    with e show "\<exists>e\<in>set (Checks plan). entry_key e = pair_key (sel, c) \<and> rs_Source sel \<in> set (sc_Sources e)"
      using res(2) by blast
  next
    assume "e \<in> set (Checks plan)" "x \<in> set (sc_Sources e)"
    then obtain p where "p \<in> set (selection_pairs sels)" "pair_key p = entry_key e" "x = rs_Source (fst p)"
      using res(2) plan_entry_source_iff by blast
    then show "\<exists>sel\<in>set sels. \<exists>c\<in>set (rp_Checks (rs_Policy sel)). entry_key e = pair_key (sel, c) \<and> x = rs_Source sel"
      unfolding pairs by (metis prod.collapse)
  }
qed

lemma Merge_keys:
  assumes m: "Merge known iter sels = Inr plan" and iter: "\<And>xs. mset (iter xs) = mset xs"
  shows "entry_key ` set (Checks plan) =
    {pair_key (sel, c) | sel c. sel \<in> set sels \<and> c \<in> set (rp_Checks (rs_Policy sel))}"
proof
  show "entry_key ` set (Checks plan) \<subseteq> {pair_key (sel, c) | sel c. sel \<in> set sels \<and> c \<in> set (rp_Checks (rs_Policy sel))}"
    using Merge_result(2) [OF assms] plan_entry_key by blast
  show "{pair_key (sel, c) | sel c. sel \<in> set sels \<and> c \<in> set (rp_Checks (rs_Policy sel))} \<subseteq> entry_key ` set (Checks plan)"
    using Merge_entries(1) [OF assms] by force
qed

section \<open>Properties\<close>

text \<open>C19. \<open>Merge\<close> fails closed and only on a conflict: it returns a plan exactly when the
  selections of the same policy carry the same identity, every check has a non-empty,
  duplicate-free set of known phases and a non-negative spec index, no spec index of a
  policy belongs to two check names, and repeated checks agree on their metadata.\<close>

theorem Merge_succeeds_iff_consistent:
  "(\<exists>plan. Merge known iter sels = Inr plan) \<longleftrightarrow> consistent known sels"
  using Merge_total Merge_unfold by blast

text \<open>C20. Selection is additive and nothing is invented: the plan has exactly one entry per
  selected (policy, check), carrying the identity of the policy and the sorted phases; its
  sources are, without repetition, exactly the sources of the selections that contain the
  check; and the plan is strictly ordered by policy name, namespace and spec index. This
  holds whatever order Go's map iteration yields.\<close>

theorem Merge_additive:
  assumes "Merge known iter sels = Inr plan" and "\<And>xs. mset (iter xs) = mset xs"
  shows "(\<forall>sel\<in>set sels. \<forall>c\<in>set (rp_Checks (rs_Policy sel)).
            \<exists>!e. e \<in> set (Checks plan) \<and> entry_key e = pair_key (sel, c)) \<and>
         (\<forall>e\<in>set (Checks plan). \<exists>sel\<in>set sels. \<exists>c\<in>set (rp_Checks (rs_Policy sel)).
            sc_Policy e = identityOf (rs_Policy sel) \<and> sc_Check e = norm_check c) \<and>
         (\<forall>e\<in>set (Checks plan). distinct (sc_Sources e) \<and>
            set (sc_Sources e) = {rs_Source sel | sel c. sel \<in> set sels \<and>
               c \<in> set (rp_Checks (rs_Policy sel)) \<and> entry_key e = pair_key (sel, c)}) \<and>
         sorted_wrt checkLess (Checks plan)"
proof (intro conjI)
  note res = Merge_result [OF assms]
  have pairs: "(sel, c) \<in> set (selection_pairs sels) \<longleftrightarrow>
      sel \<in> set sels \<and> c \<in> set (rp_Checks (rs_Policy sel))" for sel c
    by (auto simp: selection_pairs_def selection_checks_def)
  show "\<forall>sel\<in>set sels. \<forall>c\<in>set (rp_Checks (rs_Policy sel)).
      \<exists>!e. e \<in> set (Checks plan) \<and> entry_key e = pair_key (sel, c)"
  proof (intro ballI)
    fix sel c assume "sel \<in> set sels" "c \<in> set (rp_Checks (rs_Policy sel))"
    then obtain e where "plan_entry sels e" "entry_key e = pair_key (sel, c)"
      using plan_entry_exists [of "(sel, c)" sels] pairs by blast
    then show "\<exists>!e. e \<in> set (Checks plan) \<and> entry_key e = pair_key (sel, c)"
      unfolding res(2) mem_Collect_eq using plan_entry_unique [OF res(1)] by metis
  qed
  show "\<forall>e\<in>set (Checks plan). \<exists>sel\<in>set sels. \<exists>c\<in>set (rp_Checks (rs_Policy sel)).
      sc_Policy e = identityOf (rs_Policy sel) \<and> sc_Check e = norm_check c"
    unfolding res(2) by (force simp: plan_entry_def pairs)
  show "\<forall>e\<in>set (Checks plan). distinct (sc_Sources e) \<and>
      set (sc_Sources e) = {rs_Source sel | sel c. sel \<in> set sels \<and>
         c \<in> set (rp_Checks (rs_Policy sel)) \<and> entry_key e = pair_key (sel, c)}"
  proof (intro ballI conjI)
    fix e assume "e \<in> set (Checks plan)"
    then have e: "plan_entry sels e" by (simp add: res(2))
    then show "distinct (sc_Sources e)" by (auto simp: plan_entry_def distinct_dedupeSources)
    show "set (sc_Sources e) = {rs_Source sel | sel c. sel \<in> set sels \<and>
        c \<in> set (rp_Checks (rs_Policy sel)) \<and> entry_key e = pair_key (sel, c)}"
      unfolding set_eq_iff plan_entry_source_iff [OF e] by (force simp: pairs)
  qed
  show "sorted_wrt checkLess (Checks plan)" by (rule Merge_sorted [OF assms])
qed

text \<open>The plan is deterministic: rearranging the selections, or iterating over the map in
  another order, gives the same plan, and a conflict in one order is a conflict in every
  order.\<close>

theorem Merge_order_irrelevant:
  assumes "mset sels = mset sels'"
    and "\<And>xs. mset (iter xs) = mset xs" and "\<And>xs. mset (iter' xs) = mset xs"
  shows "(\<exists>plan. Merge known iter sels = Inr plan \<and> Merge known iter' sels' = Inr plan) \<or>
         (\<exists>e e'. Merge known iter sels = Inl e \<and> Merge known iter' sels' = Inl e')"
proof (cases "Merge known iter sels")
  case (Inl e)
  then have "\<not> consistent known sels'"
    using Merge_total [of known sels iter] consistent_cong [OF assms(1)] by auto
  then have "Merge known iter' sels' \<noteq> Inr plan" for plan by (simp add: Merge_unfold)
  then show ?thesis using Inl by (metis sum.exhaust)
next
  case (Inr plan)
  note r = Merge_result [OF Inr assms(2)]
  obtain plan' where plan': "Merge known iter' sels' = Inr plan'"
    using Merge_total [of known sels' iter'] r(1) consistent_cong [OF assms(1)] by blast
  note r' = Merge_result [OF plan' assms(3)]
  have "set (Checks plan) = set (Checks plan')" by (simp add: r(2) r'(2) plan_entry_cong [OF assms(1)])
  then have ms: "mset (Checks plan) = mset (Checks plan')"
    using r(3) r'(3) by (simp add: set_eq_iff_mset_eq_distinct)
  have "Checks plan = Checks plan'"
    by (rule check_order.ordered_unique [OF r(4) r'(4) ms]) (use plan_entry_tie [OF r(1)] r(2) in blast)
  then show ?thesis using Inr plan' by simp
qed

text \<open>Every check of a plan runs: it is returned for at least one known phase, in plan
  order, and only for its own phases.\<close>

theorem ChecksForPhase_covers:
  assumes "Merge known iter sels = Inr plan" and "\<And>xs. mset (iter xs) = mset xs"
  shows "set (Checks plan) = (\<Union>ph\<in>set known. set (ChecksForPhase plan ph)) \<and>
         sorted_wrt checkLess (ChecksForPhase plan ph) \<and>
         (e \<in> set (ChecksForPhase plan ph) \<longleftrightarrow>
            e \<in> set (Checks plan) \<and> ph \<in> set (ck_Phases (sc_Check e)))"
proof (intro conjI)
  note res = Merge_result [OF assms]
  have "\<exists>ph\<in>set known. e \<in> set (ChecksForPhase plan ph)" if "e \<in> set (Checks plan)" for e
    using plan_entry_well_formed [OF res(1), of e] that res(2)
    by (cases "ck_Phases (sc_Check e)") (auto simp: ChecksForPhase_def)
  then show "set (Checks plan) = (\<Union>ph\<in>set known. set (ChecksForPhase plan ph))"
    by (auto simp: ChecksForPhase_def)
  show "sorted_wrt checkLess (ChecksForPhase plan ph)"
    using Merge_sorted [OF assms] by (simp add: ChecksForPhase_def sorted_wrt_filter)
  show "e \<in> set (ChecksForPhase plan ph) \<longleftrightarrow> e \<in> set (Checks plan) \<and> ph \<in> set (ck_Phases (sc_Check e))"
    by (auto simp: ChecksForPhase_def)
qed

section \<open>Witnesses\<close>

definition ex_known :: "string list" where "ex_known = [''input'', ''output'']"

definition ex_policy :: resolvedPolicy where
  "ex_policy = \<lparr>rp_Namespace = ''ns'', rp_Name = ''pii'', rp_UID = ''u1'', rp_Generation = 3,
     rp_BindingRevision = ''r'', rp_Checks =
       [\<lparr>ck_Name = ''b'', ck_SpecIndex = 1, ck_Phases = [''output'', ''input'']\<rparr>,
        \<lparr>ck_Name = ''a'', ck_SpecIndex = 0, ck_Phases = [''input'']\<rparr>]\<rparr>"

definition ex_source :: "string \<Rightarrow> source" where
  "ex_source k = \<lparr>src_Kind = k, src_Namespace = ''ns'', src_Name = ''n'', src_UID = ''u2'',
     src_AttachmentPath = ''spec.guardrails[0]''\<rparr>"

definition ex_selections :: "resolvedSelection list" where
  "ex_selections = [\<lparr>rs_Policy = ex_policy, rs_Source = ex_source ''Tenant''\<rparr>,
                    \<lparr>rs_Policy = ex_policy, rs_Source = ex_source ''MaaSSubscription''\<rparr>]"

definition ex_plan :: executionPlan where
  "ex_plan = \<lparr>Checks =
     [\<lparr>sc_Policy = identityOf ex_policy,
       sc_Check = \<lparr>ck_Name = ''a'', ck_SpecIndex = 0, ck_Phases = [''input'']\<rparr>,
       sc_Sources = [ex_source ''MaaSSubscription'', ex_source ''Tenant'']\<rparr>,
      \<lparr>sc_Policy = identityOf ex_policy,
       sc_Check = \<lparr>ck_Name = ''b'', ck_SpecIndex = 1, ck_Phases = [''input'', ''output'']\<rparr>,
       sc_Sources = [ex_source ''MaaSSubscription'', ex_source ''Tenant'']\<rparr>]\<rparr>"

lemma ex_Merge: "Merge ex_known id ex_selections = Inr ex_plan"
  by code_simp

lemma ex_Merge_rev: "Merge ex_known rev (rev ex_selections) = Inr ex_plan"
  by code_simp

theorem Merge_additive_witness:
  "Merge ex_known rev (rev ex_selections) = Inr ex_plan \<and> sorted_wrt checkLess (Checks ex_plan) \<and>
   (\<exists>!e. e \<in> set (Checks ex_plan) \<and>
      entry_key e = pair_key (hd ex_selections, hd (rp_Checks ex_policy)))"
proof -
  have "hd ex_selections \<in> set (rev ex_selections)"
    "hd (rp_Checks ex_policy) \<in> set (rp_Checks (rs_Policy (hd ex_selections)))"
    by (simp_all add: ex_selections_def ex_policy_def)
  with Merge_additive [OF ex_Merge_rev mset_rev] ex_Merge_rev show ?thesis by blast
qed

theorem Merge_order_irrelevant_witness:
  "Merge ex_known id ex_selections = Merge ex_known rev (rev ex_selections)"
  using Merge_order_irrelevant [of ex_selections "rev ex_selections" id rev ex_known] ex_Merge
  by auto

theorem ChecksForPhase_covers_witness:
  "ChecksForPhase ex_plan ''output'' = tl (Checks ex_plan) \<and>
   set (Checks ex_plan) = (\<Union>ph\<in>set ex_known. set (ChecksForPhase ex_plan ph))"
proof
  show "ChecksForPhase ex_plan ''output'' = tl (Checks ex_plan)" by code_simp
  show "set (Checks ex_plan) = (\<Union>ph\<in>set ex_known. set (ChecksForPhase ex_plan ph))"
    using ChecksForPhase_covers [OF ex_Merge_rev mset_rev] by blast
qed

end
