(* ===== verification/GuardrailCompose.thy ===== *)
theory GuardrailCompose
  imports GuardrailMerge GoJson
begin

text \<open>
  Composition of the guardrail plan of a subscription/model pair:
  \<open>maas-common/pkg/guardrail/{types,compose}.go\<close> and its caller
  \<open>maas-api/internal/subscription/guardrail.go\<close>, which reads the attachments out of the
  cached resources. The AI gateway controller's package (\<open>NewAttachmentResolver\<close>,
  \<open>CheckID\<close>, the phases of its API) is outside the repository: the record \<open>aigateway\<close>
  is an argument of the definitions that call it.
\<close>

section \<open>Composition\<close>

record resourceRef =
  ref_Namespace :: string
  ref_Name :: string
  ref_UID :: string

record attachment =
  at_Name :: string
  at_Checks :: "string list"

record tenantSelection = resourceRef +
  ts_Guardrails :: "attachment list"

record tenantConfigSelection = resourceRef +
  tcs_Guardrails :: "attachment list"

record modelEntrySelection =
  me_Namespace :: string
  me_Name :: string
  me_Guardrails :: "attachment list"

record subscriptionSelection = resourceRef +
  ss_Guardrails :: "attachment list"
  ss_ModelRefs :: "modelEntrySelection list"

record modelSelection = resourceRef +
  ms_Guardrails :: "attachment list"

record subscriptionModelKey =
  smk_SubscriptionNamespace :: string
  smk_SubscriptionName :: string
  smk_ModelNamespace :: string
  smk_ModelName :: string

definition emptyKey :: subscriptionModelKey where
  "emptyKey = \<lparr>smk_SubscriptionNamespace = [], smk_SubscriptionName = [],
     smk_ModelNamespace = [], smk_ModelName = []\<rparr>"

datatype composeError =
    ErrInvalidCompositionInput string
  | ErrModelEntryNotFound
  | ErrModelEntryAmbiguous
  | ResolveFailed string string
  | MergeFailed mergeError

type_synonym resolver = "string \<Rightarrow> attachment \<Rightarrow> string + resolvedPolicy"

definition resolveAttachment ::
  "resolver \<Rightarrow> string \<Rightarrow> (nat \<Rightarrow> source) \<Rightarrow> nat \<times> attachment \<Rightarrow> composeError + resolvedSelection" where
  "resolveAttachment resolver policyNamespace sourceFn ia =
     (case ia of (i, a) \<Rightarrow>
        let source = sourceFn i
        in case resolver policyNamespace a of
             Inl err \<Rightarrow> Inl (ResolveFailed (src_AttachmentPath source) err)
           | Inr resolved \<Rightarrow> Inr \<lparr>rs_Policy = resolved, rs_Source = source\<rparr>)"

definition resolveAttachments ::
  "resolver \<Rightarrow> string \<Rightarrow> attachment list \<Rightarrow> (nat \<Rightarrow> source) \<Rightarrow> composeError + resolvedSelection list" where
  "resolveAttachments resolver policyNamespace attachments sourceFn =
     traverse (resolveAttachment resolver policyNamespace sourceFn) (enumerate 0 attachments)"

fun find_entry ::
  "string \<Rightarrow> string \<Rightarrow> modelEntrySelection option \<Rightarrow> modelEntrySelection list
     \<Rightarrow> composeError + modelEntrySelection" where
  "find_entry namespace name match [] =
     (case match of None \<Rightarrow> Inl ErrModelEntryNotFound | Some m \<Rightarrow> Inr m)"
| "find_entry namespace name match (ref # refs) =
     (if me_Namespace ref = namespace \<and> me_Name ref = name
      then (case match of Some _ \<Rightarrow> Inl ErrModelEntryAmbiguous
            | None \<Rightarrow> find_entry namespace name (Some ref) refs)
      else find_entry namespace name match refs)"

definition findSubscriptionModelEntry ::
  "subscriptionSelection \<Rightarrow> string \<Rightarrow> string \<Rightarrow> composeError + modelEntrySelection" where
  "findSubscriptionModelEntry sub namespace name = find_entry namespace name None (ss_ModelRefs sub)"

text \<open>The five \<open>sourceFn\<close> closures.\<close>

definition spec_guardrails :: "string \<Rightarrow> string \<Rightarrow> nat \<Rightarrow> string" where
  "spec_guardrails kind name i = kind @ ''/'' @ name @ ''.spec.guardrails['' @ Itoa i @ '']''"

definition resourceSource :: "string \<Rightarrow> ('a resourceRef_scheme) \<Rightarrow> nat \<Rightarrow> source" where
  "resourceSource kind r i =
     \<lparr>src_Kind = kind, src_Namespace = ref_Namespace r, src_Name = ref_Name r, src_UID = ref_UID r,
      src_AttachmentPath = spec_guardrails kind (ref_Name r) i\<rparr>"

definition modelEntrySource :: "subscriptionSelection \<Rightarrow> string \<Rightarrow> string \<Rightarrow> nat \<Rightarrow> source" where
  "modelEntrySource sub modelNamespace modelName i =
     \<lparr>src_Kind = ''MaaSSubscription'', src_Namespace = ref_Namespace sub, src_Name = ref_Name sub,
      src_UID = ref_UID sub,
      src_AttachmentPath = ''MaaSSubscription/'' @ ref_Name sub @ ''.spec.modelRefs['' @ modelNamespace
        @ ''/'' @ modelName @ ''].guardrails['' @ Itoa i @ '']''\<rparr>"

definition composeSelections ::
  "resolver \<Rightarrow> string \<Rightarrow> tenantSelection \<Rightarrow> tenantConfigSelection \<Rightarrow> subscriptionSelection
     \<Rightarrow> modelEntrySelection \<Rightarrow> modelSelection \<Rightarrow> string \<Rightarrow> string
     \<Rightarrow> composeError + resolvedSelection list" where
  "composeSelections resolver targetNamespace tenant tenantConfig sub entry model modelNamespace modelName =
     bind_res (resolveAttachments resolver targetNamespace (ts_Guardrails tenant)
                 (resourceSource ''AITenant'' tenant)) (\<lambda>tenantSels.
     bind_res (resolveAttachments resolver targetNamespace (tcs_Guardrails tenantConfig)
                 (resourceSource ''MaasTenantConfig'' tenantConfig)) (\<lambda>tenantConfigSels.
     bind_res (resolveAttachments resolver targetNamespace (ss_Guardrails sub)
                 (resourceSource ''MaaSSubscription'' sub)) (\<lambda>subSels.
     bind_res (resolveAttachments resolver targetNamespace (me_Guardrails entry)
                 (modelEntrySource sub modelNamespace modelName)) (\<lambda>modelSels.
     bind_res (resolveAttachments resolver (ref_Namespace model) (ms_Guardrails model)
                 (resourceSource ''MaaSModelRef'' model)) (\<lambda>modelResourceSels.
     Inr (tenantSels @ tenantConfigSels @ subSels @ modelSels @ modelResourceSels))))))"

definition ComposeSubscriptionModelPlan ::
  "string list \<Rightarrow> ((checkKey \<times> selectedCheck) list \<Rightarrow> (checkKey \<times> selectedCheck) list)
     \<Rightarrow> resolver option \<Rightarrow> string \<Rightarrow> tenantSelection option \<Rightarrow> tenantConfigSelection option
     \<Rightarrow> subscriptionSelection option \<Rightarrow> modelSelection option \<Rightarrow> string \<Rightarrow> string
     \<Rightarrow> subscriptionModelKey \<times> (composeError + executionPlan)" where
  "ComposeSubscriptionModelPlan known iter resolverP targetNamespace tenantP tenantConfigP subP modelP
       modelNamespace modelName =
     (case subP of
        None \<Rightarrow> (emptyKey, Inl (ErrInvalidCompositionInput ''subscription is required''))
      | Some sub \<Rightarrow>
        let key = \<lparr>smk_SubscriptionNamespace = ref_Namespace sub, smk_SubscriptionName = ref_Name sub,
                   smk_ModelNamespace = modelNamespace, smk_ModelName = modelName\<rparr>
        in (key,
         case resolverP of
           None \<Rightarrow> Inl (ErrInvalidCompositionInput ''resolver is required'')
         | Some resolver \<Rightarrow>
        if ref_Namespace sub \<noteq> targetNamespace
        then Inl (ErrInvalidCompositionInput ''MaaSSubscription namespace'')
        else case tenantP of
           None \<Rightarrow> Inl (ErrInvalidCompositionInput ''AITenant is required'')
         | Some tenant \<Rightarrow>
         (case tenantConfigP of
           None \<Rightarrow> Inl (ErrInvalidCompositionInput ''MaasTenantConfig is required'')
         | Some tenantConfig \<Rightarrow>
        if ref_Namespace tenantConfig \<noteq> targetNamespace
        then Inl (ErrInvalidCompositionInput ''MaasTenantConfig namespace'')
        else case modelP of
           None \<Rightarrow> Inl (ErrInvalidCompositionInput ''MaaSModelRef is required'')
         | Some model \<Rightarrow>
        if ref_Namespace model \<noteq> modelNamespace \<or> ref_Name model \<noteq> modelName
        then Inl (ErrInvalidCompositionInput ''MaaSModelRef does not match'')
        else bind_res (findSubscriptionModelEntry sub modelNamespace modelName) (\<lambda>entry.
             bind_res (composeSelections resolver targetNamespace tenant tenantConfig sub entry model
                         modelNamespace modelName) (\<lambda>selections.
             case Merge known iter selections of
               Inl err \<Rightarrow> Inl (MergeFailed err)
             | Inr plan \<Rightarrow> Inr plan)))))"

section \<open>Reading attachments and policies from cached resources\<close>

datatype getError = NotFound | GetError string

type_synonym getter = "string \<Rightarrow> string \<Rightarrow> getError + jobj"

record policyCondition =
  pc_Type :: string
  pc_Status :: bool
  pc_ObservedGeneration :: int

record policy =
  pol_Namespace :: string
  pol_Name :: string
  pol_UID :: string
  pol_Generation :: int
  pol_BindingRevision :: string
  pol_Conditions :: "policyCondition list"
  pol_Checks :: "check list"

datatype readError = ErrPolicyNotFound | ErrReadFailure

record aigateway =
  NewAttachmentResolver :: "(string \<Rightarrow> string \<Rightarrow> readError + policy) \<Rightarrow> resolver"
  CheckID :: "string \<Rightarrow> string \<Rightarrow> string \<Rightarrow> string"
  KnownPhases :: "string list"

datatype guardrailError =
    NotConfigured
  | MissingArgument
  | GetFailed getError
  | NoTenantNamespace
  | OutsideTenant
  | NotResolvedToTenant
  | BadAttachments string
  | NoModelEntries
  | DuplicateModelEntry
  | ModelNotIncluded
  | ComposeFailed composeError

record guardrailPlanResolver =
  gr_tenantNamespace :: string
  gr_tenantName :: string
  gr_tenantGetter :: "getter option"
  gr_tenantConfig :: "getter option"
  gr_policyGetter :: "getter option"

definition resourceRef_of :: "libs \<Rightarrow> jobj \<Rightarrow> resourceRef" where
  "resourceRef_of L obj =
     \<lparr>ref_Namespace = GetNamespace L obj, ref_Name = GetName L obj, ref_UID = GetUID L obj\<rparr>"

definition check_name :: "json \<Rightarrow> guardrailError + string" where
  "check_name c = (case as_string c of Some s \<Rightarrow> Inr s | None \<Rightarrow> Inl (BadAttachments ''check''))"

definition parse_attachment :: "json \<Rightarrow> guardrailError + attachment" where
  "parse_attachment item =
     (case as_obj item of
        None \<Rightarrow> Inl (BadAttachments ''invalid'')
      | Some att \<Rightarrow>
        (case field as_obj att ''ref'' of
           None \<Rightarrow> Inl (BadAttachments ''no reference'')
         | Some ref \<Rightarrow>
           let name = str_field ref ''name''
           in if name = [] then Inl (BadAttachments ''empty reference'')
              else case map_of att ''checks'' of
                     None \<Rightarrow> Inr \<lparr>at_Name = name, at_Checks = []\<rparr>
                   | Some raw \<Rightarrow>
                     (case as_arr raw of
                        None \<Rightarrow> Inl (BadAttachments ''checks'')
                      | Some checks \<Rightarrow>
                        bind_res (traverse check_name checks) (\<lambda>cs. Inr \<lparr>at_Name = name, at_Checks = cs\<rparr>))))"

definition attachments :: "libs \<Rightarrow> jobj \<Rightarrow> guardrailError + attachment list" where
  "attachments L obj =
     (case NestedSlice L obj [''spec'', ''guardrails''] of (items, ok, err) \<Rightarrow>
        (case err of Some e \<Rightarrow> Inl (BadAttachments e)
         | None \<Rightarrow> if \<not> ok then Inr [] else traverse parse_attachment items))"

fun entry_loop ::
  "libs \<Rightarrow> string \<Rightarrow> string \<Rightarrow> json list \<Rightarrow> modelEntrySelection option
     \<Rightarrow> guardrailError + modelEntrySelection" where
  "entry_loop L namespace name [] match =
     (case match of None \<Rightarrow> Inl ModelNotIncluded | Some m \<Rightarrow> Inr m)"
| "entry_loop L namespace name (item # items) match =
     (case as_obj item of
        None \<Rightarrow> entry_loop L namespace name items match
      | Some entry \<Rightarrow>
        if str_field entry ''namespace'' \<noteq> namespace \<or> str_field entry ''name'' \<noteq> name
        then entry_loop L namespace name items match
        else case match of
               Some _ \<Rightarrow> Inl DuplicateModelEntry
             | None \<Rightarrow>
               (let spec = (case map_of entry ''guardrails'' of
                              None \<Rightarrow> [] | Some raw \<Rightarrow> [(''guardrails'', raw)])
                in case attachments L [(''spec'', JObj spec)] of
                     Inl err \<Rightarrow> Inl err
                   | Inr guardrails \<Rightarrow>
                     entry_loop L namespace name items
                       (Some \<lparr>me_Namespace = namespace, me_Name = name, me_Guardrails = guardrails\<rparr>)))"

definition modelEntry_of :: "libs \<Rightarrow> jobj \<Rightarrow> string \<Rightarrow> string \<Rightarrow> guardrailError + modelEntrySelection" where
  "modelEntry_of L subscription namespace name =
     (case NestedSlice L subscription [''spec'', ''modelRefs''] of (items, ok, err) \<Rightarrow>
        if err \<noteq> None \<or> \<not> ok then Inl NoModelEntries
        else entry_loop L namespace name items None)"

definition phase_value :: "json \<Rightarrow> unit + string" where
  "phase_value p = (case as_string p of Some s \<Rightarrow> Inr s | None \<Rightarrow> Inl ())"

definition parse_check :: "nat \<times> json \<Rightarrow> unit + check" where
  "parse_check ii =
     (case ii of (index, item) \<Rightarrow>
      (case as_obj item of
         None \<Rightarrow> Inl ()
       | Some entry \<Rightarrow>
         (let name = str_field entry ''name''
          in case field as_arr entry ''phases'' of
               None \<Rightarrow> Inl ()
             | Some phases \<Rightarrow>
               if name = [] then Inl ()
               else bind_res (traverse phase_value phases) (\<lambda>ps.
                      Inr \<lparr>ck_Name = name, ck_SpecIndex = int index, ck_Phases = ps\<rparr>))))"

definition policyChecks :: "libs \<Rightarrow> jobj \<Rightarrow> unit + check list" where
  "policyChecks L obj =
     (case NestedSlice L obj [''spec'', ''checks''] of (items, ok, err) \<Rightarrow>
        if err \<noteq> None \<or> \<not> ok then Inl () else traverse parse_check (enumerate 0 items))"

definition parse_condition :: "libs \<Rightarrow> json \<Rightarrow> unit + policyCondition" where
  "parse_condition L item =
     (case as_obj item of
        None \<Rightarrow> Inl ()
      | Some entry \<Rightarrow>
        (case NestedInt64 L entry [''observedGeneration''] of (og, ok, err) \<Rightarrow>
           if err \<noteq> None \<or> \<not> ok \<or> str_field entry ''type'' = [] then Inl ()
           else Inr \<lparr>pc_Type = str_field entry ''type'', pc_Status = (str_field entry ''status'' = ''True''),
                     pc_ObservedGeneration = og\<rparr>))"

definition policyConditions :: "libs \<Rightarrow> jobj \<Rightarrow> unit + policyCondition list" where
  "policyConditions L obj =
     (case NestedSlice L obj [''status'', ''conditions''] of (items, ok, err) \<Rightarrow>
        if err \<noteq> None then Inl ()
        else if \<not> ok then Inr [] else traverse (parse_condition L) items)"

definition GetPolicy :: "libs \<Rightarrow> getter option \<Rightarrow> string \<Rightarrow> string \<Rightarrow> readError + policy" where
  "GetPolicy L getterP namespace name =
     (case getterP of
        None \<Rightarrow> Inl ErrReadFailure
      | Some get \<Rightarrow>
        (case get namespace name of
           Inl NotFound \<Rightarrow> Inl ErrPolicyNotFound
         | Inl (GetError _) \<Rightarrow> Inl ErrReadFailure
         | Inr obj \<Rightarrow>
           (case policyChecks L obj of
              Inl _ \<Rightarrow> Inl ErrReadFailure
            | Inr checks \<Rightarrow>
              (case policyConditions L obj of
                 Inl _ \<Rightarrow> Inl ErrReadFailure
               | Inr conditions \<Rightarrow>
                 (case NestedString L obj [''status'', ''bindingRevision''] of (revision, _, err) \<Rightarrow>
                    if err \<noteq> None then Inl ErrReadFailure
                    else Inr \<lparr>pol_Namespace = GetNamespace L obj, pol_Name = GetName L obj,
                              pol_UID = GetUID L obj, pol_Generation = GetGeneration L obj,
                              pol_BindingRevision = revision, pol_Conditions = conditions,
                              pol_Checks = checks\<rparr>)))))"

definition defaultTenantConfigName :: string where
  "defaultTenantConfigName = ''default-tenant''"

definition check_ids :: "aigateway \<Rightarrow> executionPlan \<Rightarrow> string \<rightharpoonup> bool" where
  "check_ids G plan =
     fold (\<lambda>c m. m(CheckID G (pi_Namespace (sc_Policy c)) (pi_Name (sc_Policy c)) (ck_Name (sc_Check c)) \<mapsto> True))
       (Checks plan) Map.empty"

definition SelectedChecks ::
  "libs \<Rightarrow> aigateway \<Rightarrow> ((checkKey \<times> selectedCheck) list \<Rightarrow> (checkKey \<times> selectedCheck) list)
     \<Rightarrow> guardrailPlanResolver option \<Rightarrow> jobj option \<Rightarrow> jobj option
     \<Rightarrow> guardrailError + (string \<rightharpoonup> bool)" where
  "SelectedChecks L G iter rP subscriptionP modelP =
     (case rP of
        None \<Rightarrow> Inl NotConfigured
      | Some r \<Rightarrow>
     (case (gr_tenantGetter r, gr_tenantConfig r) of
        (Some tenantGet, Some configGet) \<Rightarrow>
     (case (subscriptionP, modelP) of
        (Some subscription, Some model) \<Rightarrow>
     (case tenantGet (gr_tenantNamespace r) (gr_tenantName r) of
        Inl e \<Rightarrow> Inl (GetFailed e)
      | Inr tenant \<Rightarrow>
     (case NestedString L tenant [''status'', ''tenantNamespace''] of (targetNamespace, found1, err1) \<Rightarrow>
      if err1 \<noteq> None \<or> \<not> found1 \<or> targetNamespace = [] then Inl NoTenantNamespace
      else if GetNamespace L subscription \<noteq> targetNamespace then Inl OutsideTenant
      else
     (case NestedString L model [''status'', ''resolvedTenantRef''] of (resolvedTenant, found2, err2) \<Rightarrow>
      if err2 \<noteq> None \<or> \<not> found2 \<or> resolvedTenant \<noteq> gr_tenantName r then Inl NotResolvedToTenant
      else
     (case configGet targetNamespace defaultTenantConfigName of
        Inl e \<Rightarrow> Inl (GetFailed e)
      | Inr tenantConfig \<Rightarrow>
      bind_res (modelEntry_of L subscription (GetNamespace L model) (GetName L model)) (\<lambda>modelEntry.
      let resolver = NewAttachmentResolver G (GetPolicy L (gr_policyGetter r)) in
      bind_res (attachments L tenant) (\<lambda>tenantAttachments.
      bind_res (attachments L tenantConfig) (\<lambda>tenantConfigAttachments.
      bind_res (attachments L subscription) (\<lambda>subscriptionAttachments.
      bind_res (attachments L model) (\<lambda>modelAttachments.
      case snd (ComposeSubscriptionModelPlan (KnownPhases G) iter (Some resolver) targetNamespace
             (Some (resourceRef.extend (resourceRef_of L tenant) (tenantSelection.fields tenantAttachments)))
             (Some (resourceRef.extend (resourceRef_of L tenantConfig)
                (tenantConfigSelection.fields tenantConfigAttachments)))
             (Some (resourceRef.extend (resourceRef_of L subscription)
                (subscriptionSelection.fields subscriptionAttachments [modelEntry])))
             (Some (resourceRef.extend (resourceRef_of L model) (modelSelection.fields modelAttachments)))
             (GetNamespace L model) (GetName L model)) of
         Inl err \<Rightarrow> Inl (ComposeFailed err)
       | Inr plan \<Rightarrow> Inr (check_ids G plan))))))))))
      | _ \<Rightarrow> Inl MissingArgument)
      | _ \<Rightarrow> Inl NotConfigured))"

section \<open>What composition selects\<close>

lemma find_entry_Inr_iff:
  "find_entry ns n match refs = Inr e \<longleftrightarrow>
     (let hits = filter (\<lambda>r. me_Namespace r = ns \<and> me_Name r = n) refs
      in case match of None \<Rightarrow> hits = [e] | Some m \<Rightarrow> hits = [] \<and> e = m)"
  by (induction ns n match refs rule: find_entry.induct) (auto simp: Let_def split: option.splits)

lemma findSubscriptionModelEntry_Inr_iff:
  "findSubscriptionModelEntry sub ns n = Inr e \<longleftrightarrow>
     filter (\<lambda>r. me_Namespace r = ns \<and> me_Name r = n) (ss_ModelRefs sub) = [e]"
  by (simp add: findSubscriptionModelEntry_def find_entry_Inr_iff)

text \<open>
  The attachments of a pair, level by level: the namespace each is looked up in, the
  attachment, and the provenance of its position.
\<close>

type_synonym attached = "string \<times> attachment \<times> source"

definition attached_at :: "string \<Rightarrow> attachment list \<Rightarrow> (nat \<Rightarrow> source) \<Rightarrow> attached list" where
  "attached_at ns as sf = map (\<lambda>(i, a). (ns, a, sf i)) (enumerate 0 as)"

definition all_attached ::
  "string \<Rightarrow> tenantSelection \<Rightarrow> tenantConfigSelection \<Rightarrow> subscriptionSelection
     \<Rightarrow> modelEntrySelection \<Rightarrow> modelSelection \<Rightarrow> string \<Rightarrow> string \<Rightarrow> attached list" where
  "all_attached ns tenant tenantConfig sub entry model mns mn =
     attached_at ns (ts_Guardrails tenant) (resourceSource ''AITenant'' tenant) @
     attached_at ns (tcs_Guardrails tenantConfig) (resourceSource ''MaasTenantConfig'' tenantConfig) @
     attached_at ns (ss_Guardrails sub) (resourceSource ''MaaSSubscription'' sub) @
     attached_at ns (me_Guardrails entry) (modelEntrySource sub mns mn) @
     attached_at (ref_Namespace model) (ms_Guardrails model) (resourceSource ''MaaSModelRef'' model)"

definition resolves_to :: "resolver \<Rightarrow> attached \<Rightarrow> resolvedSelection \<Rightarrow> bool" where
  "resolves_to resolver att sel \<longleftrightarrow>
     resolver (fst att) (fst (snd att)) = Inr (rs_Policy sel) \<and> rs_Source sel = snd (snd att)"

lemma resolveAttachments_Inr_iff:
  "resolveAttachments resolver ns as sf = Inr sels \<longleftrightarrow>
     list_all2 (resolves_to resolver) (attached_at ns as sf) sels"
proof -
  have "(resolveAttachment resolver ns sf ia = Inr sel) =
      resolves_to resolver ((\<lambda>(i, a). (ns, a, sf i)) ia) sel" for ia sel
    by (cases ia; cases sel)
      (auto simp: resolveAttachment_def resolves_to_def Let_def split: sum.splits)
  then show ?thesis
    by (simp add: resolveAttachments_def traverse_Inr_iff attached_at_def list_all2_map1)
qed

lemma list_all2_split:
  "list_all2 P (xs @ ys) zs \<longleftrightarrow> (\<exists>us. list_all2 P xs us \<and> (\<exists>vs. list_all2 P ys vs \<and> us @ vs = zs))"
  by (metis list_all2_append1 list_all2_appendI)

lemma composeSelections_Inr_iff:
  "composeSelections resolver ns tenant tenantConfig sub entry model mns mn = Inr sels \<longleftrightarrow>
     list_all2 (resolves_to resolver) (all_attached ns tenant tenantConfig sub entry model mns mn) sels"
  unfolding composeSelections_def all_attached_def bind_res_eq_Inr_iff resolveAttachments_Inr_iff
    list_all2_split
  by (intro iffI; elim exE conjE; simp) blast+

text \<open>The inputs the function accepts, and the whole result as one equivalence.\<close>

definition valid_input ::
  "string \<Rightarrow> tenantConfigSelection \<Rightarrow> subscriptionSelection \<Rightarrow> modelSelection
     \<Rightarrow> string \<Rightarrow> string \<Rightarrow> bool" where
  "valid_input ns tenantConfig sub model mns mn \<longleftrightarrow>
     ref_Namespace sub = ns \<and> ref_Namespace tenantConfig = ns \<and>
     ref_Namespace model = mns \<and> ref_Name model = mn"

lemma Compose_plan_iff:
  "snd (ComposeSubscriptionModelPlan known iter (Some resolver) ns (Some tenant) (Some tenantConfig)
          (Some sub) (Some model) mns mn) = Inr plan \<longleftrightarrow>
     valid_input ns tenantConfig sub model mns mn \<and>
     (\<exists>entry sels. filter (\<lambda>r. me_Namespace r = mns \<and> me_Name r = mn) (ss_ModelRefs sub) = [entry] \<and>
        list_all2 (resolves_to resolver) (all_attached ns tenant tenantConfig sub entry model mns mn) sels \<and>
        Merge known iter sels = Inr plan)"
  unfolding ComposeSubscriptionModelPlan_def valid_input_def
    findSubscriptionModelEntry_Inr_iff [symmetric] composeSelections_Inr_iff [symmetric]
  by (auto simp: Let_def bind_res_eq_Inr_iff)

lemma Compose_plan_inputs:
  assumes "snd (ComposeSubscriptionModelPlan known iter r ns t tc sub m mns mn) = Inr plan"
  obtains resolver tenant tenantConfig subscription model
  where "r = Some resolver" "t = Some tenant" "tc = Some tenantConfig" "sub = Some subscription" "m = Some model"
  using assms unfolding ComposeSubscriptionModelPlan_def
  by (auto simp: Let_def split: option.splits if_splits)

section \<open>Properties of the composition\<close>

text \<open>C21. Composition returns a plan exactly when its inputs are all present, agree on the
  tenant namespace and on the model, the subscription has exactly one entry for the model,
  every attachment of the five levels resolves (tenant, tenant config, subscription and
  model entry in the tenant namespace, the model's own in the model namespace), and the
  resolved selections are consistent. In every other case it returns an error and no plan.\<close>

theorem Compose_fails_closed:
  "(\<exists>plan. snd (ComposeSubscriptionModelPlan known iter r ns t tc s m mns mn) = Inr plan) \<longleftrightarrow>
     (\<exists>resolver tenant tenantConfig sub model entry sels.
        r = Some resolver \<and> t = Some tenant \<and> tc = Some tenantConfig \<and> s = Some sub \<and> m = Some model \<and>
        valid_input ns tenantConfig sub model mns mn \<and>
        filter (\<lambda>r. me_Namespace r = mns \<and> me_Name r = mn) (ss_ModelRefs sub) = [entry] \<and>
        list_all2 (resolves_to resolver) (all_attached ns tenant tenantConfig sub entry model mns mn) sels \<and>
        consistent known sels)" (is "?L \<longleftrightarrow> ?R")
proof
  assume ?L
  then obtain plan where p: "snd (ComposeSubscriptionModelPlan known iter r ns t tc s m mns mn) = Inr plan" ..
  then obtain resolver tenant tenantConfig sub model
    where inputs: "r = Some resolver" "t = Some tenant" "tc = Some tenantConfig" "s = Some sub" "m = Some model"
    by (rule Compose_plan_inputs)
  with p obtain entry sels where "valid_input ns tenantConfig sub model mns mn"
    "filter (\<lambda>r. me_Namespace r = mns \<and> me_Name r = mn) (ss_ModelRefs sub) = [entry]"
    "list_all2 (resolves_to resolver) (all_attached ns tenant tenantConfig sub entry model mns mn) sels"
    "Merge known iter sels = Inr plan"
    unfolding inputs Compose_plan_iff by blast
  moreover from this(4) have "consistent known sels" by (simp add: Merge_unfold)
  ultimately show ?R using inputs by blast
next
  assume ?R
  then show ?L using Merge_total [of known _ iter] by (elim exE conjE) (simp add: Compose_plan_iff, blast)
qed

text \<open>C1. No level can be left out and none can remove what another selected: in a returned
  plan every check of every attachment of the five levels is present and lists that
  attachment among its sources, and every source of every check of the plan is such an
  attachment.\<close>

theorem Compose_covers_every_level:
  assumes "snd (ComposeSubscriptionModelPlan known iter (Some resolver) ns (Some tenant)
             (Some tenantConfig) (Some sub) (Some model) mns mn) = Inr plan"
    and "\<And>xs. mset (iter xs) = mset xs"
    and "filter (\<lambda>r. me_Namespace r = mns \<and> me_Name r = mn) (ss_ModelRefs sub) = [entry]"
  shows "(\<forall>(pns, a, src)\<in>set (all_attached ns tenant tenantConfig sub entry model mns mn).
            \<exists>p. resolver pns a = Inr p \<and>
              (\<forall>c\<in>set (rp_Checks p). \<exists>e\<in>set (Checks plan).
                 entry_key e = (rp_Namespace p, rp_Name p, ck_Name c) \<and> src \<in> set (sc_Sources e))) \<and>
         (\<forall>e\<in>set (Checks plan). \<forall>src\<in>set (sc_Sources e). \<exists>pns a p.
            (pns, a, src) \<in> set (all_attached ns tenant tenantConfig sub entry model mns mn) \<and>
            resolver pns a = Inr p \<and> (\<exists>c\<in>set (rp_Checks p).
              entry_key e = (rp_Namespace p, rp_Name p, ck_Name c)))"
proof -
  obtain sels where sels: "list_all2 (resolves_to resolver)
      (all_attached ns tenant tenantConfig sub entry model mns mn) sels"
    and m: "Merge known iter sels = Inr plan"
    using assms(1,3) unfolding Compose_plan_iff by auto
  note entries = Merge_entries [OF m assms(2)]
  show ?thesis
  proof (intro conjI ballI)
    fix att assume "att \<in> set (all_attached ns tenant tenantConfig sub entry model mns mn)"
    then obtain sel where sel: "sel \<in> set sels" "resolves_to resolver att sel"
      using sels by (metis list_all2_in_left)
    then show "case att of (pns, a, src) \<Rightarrow> \<exists>p. resolver pns a = Inr p \<and>
        (\<forall>c\<in>set (rp_Checks p). \<exists>e\<in>set (Checks plan).
           entry_key e = (rp_Namespace p, rp_Name p, ck_Name c) \<and> src \<in> set (sc_Sources e))"
      using entries(1) [OF sel(1)] by (cases att) (auto simp: resolves_to_def pair_key_def)
  next
    fix e src assume "e \<in> set (Checks plan)" and "src \<in> set (sc_Sources e)"
    then obtain sel c where sel: "sel \<in> set sels" "c \<in> set (rp_Checks (rs_Policy sel))"
      "entry_key e = (rp_Namespace (rs_Policy sel), rp_Name (rs_Policy sel), ck_Name c)" "src = rs_Source sel"
      using entries(2) by (fastforce simp: pair_key_def)
    then obtain pns a x where "(pns, a, x) \<in> set (all_attached ns tenant tenantConfig sub entry model mns mn)"
      "resolves_to resolver (pns, a, x) sel"
      using sels by (metis list_all2_in_right prod_cases3)
    then show "\<exists>pns a p. (pns, a, src) \<in> set (all_attached ns tenant tenantConfig sub entry model mns mn) \<and>
        resolver pns a = Inr p \<and>
        (\<exists>c\<in>set (rp_Checks p). entry_key e = (rp_Namespace p, rp_Name p, ck_Name c))"
      using sel unfolding resolves_to_def by auto
  qed
qed

section \<open>What the resolver of the API server returns\<close>

lemma check_ids_dom:
  "check_ids G plan i = (if i \<in> (\<lambda>(ns, n, c). CheckID G ns n c) ` entry_key ` set (Checks plan)
     then Some True else None)"
proof -
  have "fold (\<lambda>c m. m(CheckID G (pi_Namespace (sc_Policy c)) (pi_Name (sc_Policy c)) (ck_Name (sc_Check c)) \<mapsto> True))
      cs m0 i = (if i \<in> (\<lambda>(ns, n, c). CheckID G ns n c) ` entry_key ` set cs then Some True else m0 i)" for cs m0
    by (induction cs arbitrary: m0) (auto simp: entry_key_def)
  then show ?thesis by (simp add: check_ids_def)
qed

definition policy_ids :: "aigateway \<Rightarrow> string + resolvedPolicy \<Rightarrow> string set" where
  "policy_ids G r =
     (case r of Inl _ \<Rightarrow> {} | Inr p \<Rightarrow> (\<lambda>c. CheckID G (rp_Namespace p) (rp_Name p) (ck_Name c)) ` set (rp_Checks p))"

lemma Compose_ids:
  assumes "snd (ComposeSubscriptionModelPlan known iter (Some resolver) ns (Some tenant)
             (Some tenantConfig) (Some sub) (Some model) mns mn) = Inr plan"
    and iter: "\<And>xs. mset (iter xs) = mset xs" and one: "ss_ModelRefs sub = [entry]"
  shows "dom (check_ids G plan) =
           (\<Union>(pns, a, src)\<in>set (all_attached ns tenant tenantConfig sub entry model mns mn). policy_ids G (resolver pns a))"
    and "(pns, a, src) \<in> set (all_attached ns tenant tenantConfig sub entry model mns mn) \<Longrightarrow> \<exists>p. resolver pns a = Inr p"
proof -
  obtain sels where sels: "list_all2 (resolves_to resolver)
      (all_attached ns tenant tenantConfig sub entry model mns mn) sels"
    and m: "Merge known iter sels = Inr plan"
    using assms(1) one unfolding Compose_plan_iff by (auto split: if_splits)
  have "entry_key ` set (Checks plan) = (\<lambda>(sel, c). pair_key (sel, c)) ` {(sel, c). sel \<in> set sels \<and> c \<in> set (rp_Checks (rs_Policy sel))}"
    using Merge_keys [OF m iter] by auto
  then have "dom (check_ids G plan) = (\<Union>sel\<in>set sels. policy_ids G (Inr (rs_Policy sel)))"
    by (auto simp: check_ids_dom dom_def policy_ids_def pair_key_def image_iff split: if_splits)
  also have "\<dots> = (\<Union>(pns, a, src)\<in>set (all_attached ns tenant tenantConfig sub entry model mns mn). policy_ids G (resolver pns a))"
    using list_all2_in_left [OF sels] list_all2_in_right [OF sels]
    by (fastforce simp: resolves_to_def)
  finally show "dom (check_ids G plan) = \<dots>" .
  show "(pns, a, src) \<in> set (all_attached ns tenant tenantConfig sub entry model mns mn) \<Longrightarrow> \<exists>p. resolver pns a = Inr p"
    using list_all2_in_left [OF sels] by (fastforce simp: resolves_to_def)
qed

lemma entry_loop_matches:
  "entry_loop L ns n items match = Inr e \<Longrightarrow> (\<And>m. match = Some m \<Longrightarrow> me_Namespace m = ns \<and> me_Name m = n) \<Longrightarrow>
     me_Namespace e = ns \<and> me_Name e = n"
  by (induction L ns n items match rule: entry_loop.induct)
     (auto simp: Let_def split: option.splits if_splits sum.splits)

lemma modelEntry_of_matches:
  "modelEntry_of L s ns n = Inr e \<Longrightarrow> me_Namespace e = ns \<and> me_Name e = n"
  by (auto simp: modelEntry_of_def split: prod.splits if_splits dest: entry_loop_matches)

lemma attached_at_pairs: "(\<lambda>(pns, a, src). (pns, a)) ` set (attached_at ns as sf) = Pair ns ` set as"
proof -
  have "map (\<lambda>(pns, a, src). (pns, a)) (attached_at ns as sf) = map (Pair ns) (map snd (enumerate 0 as))"
    by (simp add: attached_at_def split_def comp_def del: map_snd_enumerate)
  then show ?thesis by (metis map_snd_enumerate set_map)
qed

lemma all_attached_pairs:
  "(\<lambda>(pns, a, src). (pns, a)) ` set (all_attached ns tenant tenantConfig sub entry model mns mn) =
     Pair ns ` (set (ts_Guardrails tenant) \<union> set (tcs_Guardrails tenantConfig) \<union> set (ss_Guardrails sub) \<union>
                set (me_Guardrails entry)) \<union> Pair (ref_Namespace model) ` set (ms_Guardrails model)"
  unfolding all_attached_def set_append image_Un attached_at_pairs by blast

lemmas selection_record_defs =
  resourceRef.defs tenantSelection.defs tenantConfigSelection.defs subscriptionSelection.defs
  modelSelection.defs resourceRef_of_def

text \<open>The API server's resolver answers only for a subscription in the tenant's target
  namespace and a model resolved to that tenant, and its answer is the set of ids of all
  the checks that the attachments of the AITenant, the tenant config, the subscription,
  the subscription's one entry for the model, and the model resolve to; every one of these
  attachments has resolved.\<close>

theorem SelectedChecks_sound_complete:
  assumes "SelectedChecks L G iter (Some r) (Some sub) (Some model) = Inr selected"
    and "\<And>xs. mset (iter xs) = mset xs"
  shows "\<exists>tget cget tenant ns cfg entry ta ca sa ma.
    gr_tenantGetter r = Some tget \<and> tget (gr_tenantNamespace r) (gr_tenantName r) = Inr tenant \<and>
    NestedString L tenant [''status'', ''tenantNamespace''] = (ns, True, None) \<and> ns \<noteq> [] \<and>
    GetNamespace L sub = ns \<and>
    NestedString L model [''status'', ''resolvedTenantRef''] = (gr_tenantName r, True, None) \<and>
    gr_tenantConfig r = Some cget \<and> cget ns defaultTenantConfigName = Inr cfg \<and>
    modelEntry_of L sub (GetNamespace L model) (GetName L model) = Inr entry \<and>
    attachments L tenant = Inr ta \<and> attachments L cfg = Inr ca \<and>
    attachments L sub = Inr sa \<and> attachments L model = Inr ma \<and>
    (let resolve = NewAttachmentResolver G (GetPolicy L (gr_policyGetter r));
         used = Pair ns ` (set ta \<union> set ca \<union> set sa \<union> set (me_Guardrails entry)) \<union>
                Pair (GetNamespace L model) ` set ma
     in (\<forall>(pns, a)\<in>used. \<exists>p. resolve pns a = Inr p) \<and>
        dom selected = (\<Union>(pns, a)\<in>used. policy_ids G (resolve pns a)) \<and>
        (\<forall>i\<in>dom selected. selected i = Some True))"
proof -
  from assms(1) obtain tget cget tenant ns cfg entry ta ca sa ma plan where
    ctx: "gr_tenantGetter r = Some tget" "tget (gr_tenantNamespace r) (gr_tenantName r) = Inr tenant"
      "NestedString L tenant [''status'', ''tenantNamespace''] = (ns, True, None)" "ns \<noteq> []"
      "GetNamespace L sub = ns"
      "NestedString L model [''status'', ''resolvedTenantRef''] = (gr_tenantName r, True, None)"
      "gr_tenantConfig r = Some cget" "cget ns defaultTenantConfigName = Inr cfg"
      "modelEntry_of L sub (GetNamespace L model) (GetName L model) = Inr entry"
      "attachments L tenant = Inr ta" "attachments L cfg = Inr ca"
      "attachments L sub = Inr sa" "attachments L model = Inr ma" and
    plan: "snd (ComposeSubscriptionModelPlan (KnownPhases G) iter
             (Some (NewAttachmentResolver G (GetPolicy L (gr_policyGetter r)))) ns
             (Some (resourceRef.extend (resourceRef_of L tenant) (tenantSelection.fields ta)))
             (Some (resourceRef.extend (resourceRef_of L cfg) (tenantConfigSelection.fields ca)))
             (Some (resourceRef.extend (resourceRef_of L sub) (subscriptionSelection.fields sa [entry])))
             (Some (resourceRef.extend (resourceRef_of L model) (modelSelection.fields ma)))
             (GetNamespace L model) (GetName L model)) = Inr plan" "selected = check_ids G plan"
    unfolding SelectedChecks_def
    by (auto simp: res_inv Let_def)
  let ?all = "all_attached ns (resourceRef.extend (resourceRef_of L tenant) (tenantSelection.fields ta))
    (resourceRef.extend (resourceRef_of L cfg) (tenantConfigSelection.fields ca))
    (resourceRef.extend (resourceRef_of L sub) (subscriptionSelection.fields sa [entry])) entry
    (resourceRef.extend (resourceRef_of L model) (modelSelection.fields ma)) (GetNamespace L model) (GetName L model)"
  have one: "ss_ModelRefs (resourceRef.extend (resourceRef_of L sub) (subscriptionSelection.fields sa [entry])) = [entry]"
    by (simp add: selection_record_defs)
  note ids = Compose_ids [OF plan(1) assms(2) one]
  have used: "Pair ns ` (set ta \<union> set ca \<union> set sa \<union> set (me_Guardrails entry)) \<union>
      Pair (GetNamespace L model) ` set ma = (\<lambda>(pns, a, src). (pns, a)) ` set ?all"
    unfolding all_attached_pairs by (simp add: selection_record_defs)
  have v3: "\<forall>i\<in>dom selected. selected i = Some True"
    by (auto simp: plan(2) check_ids_dom split: if_splits)
  have v2: "dom selected = (\<Union>(pns, a)\<in>(\<lambda>(pns, a, src). (pns, a)) ` set ?all.
      policy_ids G (NewAttachmentResolver G (GetPolicy L (gr_policyGetter r)) pns a))"
    by (simp add: plan(2) ids(1) split_def)
  have v1: "\<forall>(pns, a)\<in>(\<lambda>(pns, a, src). (pns, a)) ` set ?all.
      \<exists>p. NewAttachmentResolver G (GetPolicy L (gr_policyGetter r)) pns a = Inr p"
    using ids(2) by fastforce
  show ?thesis
    by (intro exI conjI, (rule ctx)+) (unfold Let_def used, intro conjI v1 v2 v3)
qed

section \<open>Witnesses\<close>

text \<open>
  A tenant whose AITenant and subscription attach the same policy, and a model that
  attaches another; policies are read from a table of objects.
\<close>

definition ex_meta :: "string \<Rightarrow> string \<Rightarrow> string \<times> json" where
  "ex_meta ns n = (''metadata'', JObj [(''namespace'', JStr ns), (''name'', JStr n), (''uid'', JStr (''u-'' @ n))])"

definition ex_attach :: "string list \<Rightarrow> string \<times> json" where
  "ex_attach names =
     (''guardrails'', JArr (map (\<lambda>n. JObj [(''ref'', JObj [(''name'', JStr n)])]) names))"

definition ex_object :: "string \<Rightarrow> string \<Rightarrow> jobj \<Rightarrow> jobj \<Rightarrow> jobj" where
  "ex_object ns n spec status = [ex_meta ns n, (''spec'', JObj spec), (''status'', JObj status)]"

definition ex_checks :: "string list \<Rightarrow> string \<times> json" where
  "ex_checks names = (''checks'', JArr (map (\<lambda>n. JObj [(''name'', JStr n), (''phases'', JArr [JStr ''input''])]) names))"

definition ex_get :: "jobj list \<Rightarrow> getter" where
  "ex_get objs ns n =
     (case find (\<lambda>m. GetNamespace example_libs m = ns \<and> GetName example_libs m = n) objs of
        None \<Rightarrow> Inl NotFound | Some m \<Rightarrow> Inr m)"

definition ex_gateway :: aigateway where
  "ex_gateway = \<lparr>NewAttachmentResolver = (\<lambda>get ns a. case get ns (at_Name a) of
        Inl _ \<Rightarrow> Inl ''unresolved''
      | Inr p \<Rightarrow> Inr \<lparr>rp_Namespace = pol_Namespace p, rp_Name = pol_Name p, rp_UID = pol_UID p,
          rp_Generation = pol_Generation p, rp_BindingRevision = pol_BindingRevision p,
          rp_Checks = pol_Checks p\<rparr>),
     CheckID = (\<lambda>ns n c. ns @ ''/'' @ n @ ''/'' @ c), KnownPhases = [''input'', ''output'']\<rparr>"

definition ex_tenant :: jobj where
  "ex_tenant = ex_object ''ai'' ''t'' [ex_attach [''pii'']] [(''tenantNamespace'', JStr ''tn'')]"

definition ex_subscription :: jobj where
  "ex_subscription = ex_object ''tn'' ''gold''
     [ex_attach [''pii''], (''modelRefs'', JArr [JObj [(''namespace'', JStr ''llm''), (''name'', JStr ''m'')]])] []"

definition ex_model :: jobj where
  "ex_model = ex_object ''llm'' ''m'' [ex_attach [''tox'']] [(''resolvedTenantRef'', JStr ''t'')]"

definition ex_planResolver :: guardrailPlanResolver where
  "ex_planResolver = \<lparr>gr_tenantNamespace = ''ai'', gr_tenantName = ''t'',
     gr_tenantGetter = Some (ex_get [ex_tenant]),
     gr_tenantConfig = Some (ex_get [ex_object ''tn'' ''default-tenant'' [] []]),
     gr_policyGetter = Some (ex_get [ex_object ''tn'' ''pii'' [ex_checks [''a'', ''b'']] [],
                                     ex_object ''llm'' ''tox'' [ex_checks [''x'']] []])\<rparr>"

definition ex_result :: "guardrailError + (string \<rightharpoonup> bool)" where
  "ex_result = SelectedChecks example_libs ex_gateway id (Some ex_planResolver)
     (Some ex_subscription) (Some ex_model)"

lemma ex_result_ids:
  "case ex_result of Inl _ \<Rightarrow> False | Inr m \<Rightarrow>
     map m [''tn/pii/a'', ''tn/pii/b'', ''llm/tox/x'', ''tn/tox/x''] = [Some True, Some True, Some True, None]"
  by code_simp

theorem SelectedChecks_sound_complete_witness:
  "\<exists>m. ex_result = Inr m \<and> m ''llm/tox/x'' = Some True \<and>
     GetNamespace example_libs ex_subscription = ''tn'' \<and>
     (\<exists>pns a. ''llm/tox/x'' \<in> policy_ids ex_gateway
        (NewAttachmentResolver ex_gateway (GetPolicy example_libs (gr_policyGetter ex_planResolver)) pns a))"
proof -
  obtain m where m: "ex_result = Inr m" "m ''llm/tox/x'' = Some True"
    using ex_result_ids by (auto split: sum.splits)
  have res: "SelectedChecks example_libs ex_gateway id (Some ex_planResolver) (Some ex_subscription) (Some ex_model) = Inr m"
    using m(1) by (simp add: ex_result_def)
  obtain used where used: "dom m = (\<Union>(pns, a)\<in>used. policy_ids ex_gateway
      (NewAttachmentResolver ex_gateway (GetPolicy example_libs (gr_policyGetter ex_planResolver)) pns a))"
    using SelectedChecks_sound_complete [OF res arg_cong [where f = mset, OF id_apply]]
    unfolding Let_def by (elim exE conjE)
  have "''llm/tox/x'' \<in> dom m" using m(2) by (rule domI)
  then have "\<exists>pns a. ''llm/tox/x'' \<in> policy_ids ex_gateway
      (NewAttachmentResolver ex_gateway (GetPolicy example_libs (gr_policyGetter ex_planResolver)) pns a)"
    unfolding used by (elim UN_E) (auto split: prod.splits)
  moreover have "GetNamespace example_libs ex_subscription = ''tn''" by code_simp
  ultimately show ?thesis using m by blast
qed

definition ex_tenantSel :: tenantSelection where
  "ex_tenantSel = \<lparr>ref_Namespace = ''ai'', ref_Name = ''t'', ref_UID = ''u'',
     ts_Guardrails = [\<lparr>at_Name = ''pii'', at_Checks = []\<rparr>]\<rparr>"

definition ex_configSel :: tenantConfigSelection where
  "ex_configSel = \<lparr>ref_Namespace = ''ns'', ref_Name = ''default-tenant'', ref_UID = ''u'', tcs_Guardrails = []\<rparr>"

definition ex_subSel :: subscriptionSelection where
  "ex_subSel = \<lparr>ref_Namespace = ''ns'', ref_Name = ''gold'', ref_UID = ''u'',
     ss_Guardrails = [\<lparr>at_Name = ''pii'', at_Checks = []\<rparr>],
     ss_ModelRefs = [\<lparr>me_Namespace = ''llm'', me_Name = ''m'', me_Guardrails = []\<rparr>]\<rparr>"

definition ex_modelSel :: modelSelection where
  "ex_modelSel = \<lparr>ref_Namespace = ''llm'', ref_Name = ''m'', ref_UID = ''u'', ms_Guardrails = []\<rparr>"

definition ex_resolver :: resolver where
  "ex_resolver ns a = (if ns = ''ns'' \<and> at_Name a = ''pii'' then Inr ex_policy else Inl ''not found'')"

definition ex_composed :: "composeError + executionPlan" where
  "ex_composed = snd (ComposeSubscriptionModelPlan ex_known rev (Some ex_resolver) ''ns'' (Some ex_tenantSel)
     (Some ex_configSel) (Some ex_subSel) (Some ex_modelSel) ''llm'' ''m'')"

lemma ex_composed_sources:
  "case ex_composed of Inl _ \<Rightarrow> False | Inr plan \<Rightarrow>
     map (map src_AttachmentPath \<circ> sc_Sources) (Checks plan) =
       replicate 2 [''AITenant/t.spec.guardrails[0]'', ''MaaSSubscription/gold.spec.guardrails[0]'']"
  by code_simp

theorem Compose_covers_every_level_witness:
  "\<exists>plan. ex_composed = Inr plan \<and>
     (\<exists>e\<in>set (Checks plan). ck_Name (sc_Check e) = ''b'' \<and>
        resourceSource ''AITenant'' ex_tenantSel 0 \<in> set (sc_Sources e))"
proof -
  obtain plan where plan: "ex_composed = Inr plan"
    using ex_composed_sources by (auto split: sum.splits)
  define att where "att = (''ns'', \<lparr>at_Name = ''pii'', at_Checks = []\<rparr>, resourceSource ''AITenant'' ex_tenantSel 0)"
  have att: "att \<in> set (all_attached ''ns'' ex_tenantSel ex_configSel ex_subSel (hd (ss_ModelRefs ex_subSel))
      ex_modelSel ''llm'' ''m'')"
    by (simp add: all_attached_def attached_at_def att_def ex_tenantSel_def)
  have one: "filter (\<lambda>r. me_Namespace r = ''llm'' \<and> me_Name r = ''m'') (ss_ModelRefs ex_subSel) = [hd (ss_ModelRefs ex_subSel)]"
    by (simp add: ex_subSel_def)
  have "\<exists>e\<in>set (Checks plan). entry_key e = (''ns'', ''pii'', ''b'') \<and>
      resourceSource ''AITenant'' ex_tenantSel 0 \<in> set (sc_Sources e)"
    using conjunct1 [OF Compose_covers_every_level [OF plan [unfolded ex_composed_def] mset_rev one], THEN bspec, OF att]
    by (auto simp: att_def ex_resolver_def ex_policy_def)
  then show ?thesis using plan by (auto simp: entry_key_def)
qed

end
