(* ===== verification/SubscriptionSelect.thy ===== *)
theory SubscriptionSelect
  imports SubscriptionModel GuardrailCompose
begin

text \<open>
  Subscription selection, \<open>maas-api/internal/subscription/selector.go\<close>. A \<open>selector\<close> holds
  what the informer caches return at the time of the request and the interfaces it was
  constructed with: the access checker, the subject inventory and the guardrail resolver
  are functions, \<open>None\<close> where the Go interface value is nil. The authorized set of a request
  is \<open>None\<close> when authorization is not configured (the nil map of the source).
\<close>

section \<open>Data\<close>

record modelLister =
  ml_List :: "string + jobj list"
  ml_Get :: "getter option"

type_synonym authSet = "(nsname \<rightharpoonup> bool) option"

record selector =
  sel_lister :: "string + jobj list"
  sel_modelLister :: "modelLister option"
  sel_accessChecker :: "(string list \<Rightarrow> string \<Rightarrow> checkerError + authSet) option"
  sel_subjectInventory ::
    "(nsname list \<Rightarrow> string \<Rightarrow> checkerError + (nsname \<rightharpoonup> modelAccessSubjects)) option"
  sel_guardrailResolver :: "(jobj \<Rightarrow> jobj \<Rightarrow> guardrailError + (string \<rightharpoonup> bool)) option"
  sel_tenantName :: string
  sel_subscriptionNamespace :: string

record selectResponse =
  r_Name :: string
  r_Namespace :: string
  r_DisplayName :: string
  r_Description :: string
  r_Priority :: int
  r_ModelRefs :: "modelRefInfo list"
  r_OrganizationID :: string
  r_AssociatedOrganizationID :: string
  r_CostCenter :: string
  r_Labels :: "(string \<rightharpoonup> string) option"
  r_Headers :: "(string \<rightharpoonup> string list) option"
  r_ResolvedModel :: string
  r_RateLimitID :: string
  r_Objective :: string
  r_FairnessID :: string
  r_SelectedGuardrailChecks :: "(string \<rightharpoonup> bool) option"
  r_AccessAllowed :: bool
  r_Phase :: string
  r_Ready :: bool
  r_DeletionTimestamp :: string

record subscriptionInfo =
  in_SubscriptionIDHeader :: string
  in_Namespace :: string
  in_SubscriptionDescription :: string
  in_DisplayName :: string
  in_Priority :: int
  in_ModelRefs :: "modelRefInfo list"
  in_Roles :: "string list"
  in_OrganizationID :: string
  in_CostCenter :: string
  in_Labels :: "(string \<rightharpoonup> string) option"
  in_Owner :: "subjectInventory option"

datatype modelByKeyError = ModelListerNil | GetModelFailed getError | ListModelsFailed string | ModelRefNotFound

datatype guardrailCause = NotInSubscription string | ModelLookup modelByKeyError | ResolverError guardrailError

datatype selectError =
    GroupsOrUsernameRequired
  | LoadFailed string
  | AuthorizedModelsFailed checkerError
  | CheckerReturnedNil
  | NoSubscriptionError
  | SubscriptionNotFoundError string
  | AccessDeniedError string
  | MultipleSubscriptionsError "string list"
  | ModelNotInSubscriptionError string string
  | ModelUnhealthyError string string string string
  | GuardrailResolutionError guardrailCause
  | InventoryUnavailable
  | InventoryFailed checkerError

section \<open>Helpers of the selection\<close>

definition authorizedModels :: "selector \<Rightarrow> string list \<Rightarrow> string \<Rightarrow> selectError + authSet" where
  "authorizedModels s groups username =
     (case sel_accessChecker s of
        None \<Rightarrow> Inr None
      | Some check \<Rightarrow>
        (case check groups username of
           Inl e \<Rightarrow> Inl (AuthorizedModelsFailed e)
         | Inr None \<Rightarrow> Inl CheckerReturnedNil
         | Inr (Some authorized) \<Rightarrow> Inr (Some authorized)))"

definition buildModelIndex :: "libs \<Rightarrow> selector \<Rightarrow> (string \<rightharpoonup> jobj) option" where
  "buildModelIndex L s =
     (case sel_modelLister s of
        None \<Rightarrow> None
      | Some ml \<Rightarrow>
        (case ml_List ml of
           Inl _ \<Rightarrow> None
         | Inr items \<Rightarrow>
           Some (fold (\<lambda>u index. index(GetNamespace L u @ ''/'' @ GetName L u \<mapsto> u)) items Map.empty)))"

fun alias_loop :: "libs \<Rightarrow> string \<Rightarrow> string \<Rightarrow> jobj list \<Rightarrow> string" where
  "alias_loop L requestedModel resolved [] = (if resolved \<noteq> [] then resolved else requestedModel)"
| "alias_loop L requestedModel resolved (u # items) =
     (if found (NestedString L u [''status'', ''resolvedModelAlias'']) \<noteq> Some requestedModel
      then alias_loop L requestedModel resolved items
      else if resolved \<noteq> [] then requestedModel
      else alias_loop L requestedModel (GetNamespace L u @ ''/'' @ GetName L u) items)"

definition resolveModelAlias :: "libs \<Rightarrow> selector \<Rightarrow> string \<Rightarrow> string" where
  "resolveModelAlias L s requestedModel =
     (case sel_modelLister s of
        None \<Rightarrow> requestedModel
      | Some ml \<Rightarrow>
        if requestedModel = [] then requestedModel
        else case ml_List ml of
               Inl _ \<Rightarrow> requestedModel
             | Inr items \<Rightarrow> alias_loop L requestedModel [] items)"

definition enrich_ref :: "libs \<Rightarrow> (string \<rightharpoonup> jobj) \<Rightarrow> modelRefInfo \<Rightarrow> modelRefInfo" where
  "enrich_ref L index ref =
     (case index (mr_Namespace ref @ ''/'' @ mr_Name ref) of
        None \<Rightarrow> ref
      | Some u \<Rightarrow>
        (let ref1 = (case GetAnnotations L u of
                       None \<Rightarrow> ref
                     | Some annotations \<Rightarrow>
                       ref\<lparr>mr_DisplayName := annotation annotations AnnotationDisplayName,
                           mr_Description := annotation annotations AnnotationDescription\<rparr>);
             kind = value_of (NestedString L u [''spec'', ''modelRef'', ''kind'']);
             ref2 = (if kind = ''ExternalModel'' then ref1\<lparr>mr_Source := ''external''\<rparr>
                     else if kind = ''LLMInferenceService'' then ref1\<lparr>mr_Source := ''internal''\<rparr>
                     else ref1)
         in case found (NestedString L u [''status'', ''resolvedModelAlias'']) of
              None \<Rightarrow> ref2
            | Some alias \<Rightarrow> if alias \<noteq> [] then ref2\<lparr>mr_ModelName := alias\<rparr> else ref2))"

definition enrichModelRefs :: "libs \<Rightarrow> modelRefInfo list \<Rightarrow> (string \<rightharpoonup> jobj) option \<Rightarrow> modelRefInfo list" where
  "enrichModelRefs L refs index =
     (case index of None \<Rightarrow> refs | Some idx \<Rightarrow> map (enrich_ref L idx) refs)"

definition load_one :: "libs \<Rightarrow> (string \<rightharpoonup> jobj) option \<Rightarrow> jobj \<Rightarrow> subscription list" where
  "load_one L modelIndex obj =
     (case parseSubscription L obj of
        Inl _ \<Rightarrow> []
      | Inr sub \<Rightarrow> [sub\<lparr>sub_ModelRefs := enrichModelRefs L (sub_ModelRefs sub) modelIndex, sub_Object := obj\<rparr>])"

definition loadSubscriptions :: "libs \<Rightarrow> selector \<Rightarrow> string + subscription list" where
  "loadSubscriptions L s =
     (case sel_lister s of
        Inl e \<Rightarrow> Inl e
      | Inr objects \<Rightarrow> Inr (concat (map (load_one L (buildModelIndex L s)) objects)))"

definition userHasAccess :: "subscription \<Rightarrow> string \<Rightarrow> string list \<Rightarrow> bool" where
  "userHasAccess sub username groups \<longleftrightarrow>
     username \<in> set (sub_Users sub) \<or> (\<exists>g\<in>set (sub_Groups sub). g \<in> set groups)"

definition subscriptionIsDeleting :: "subscription \<Rightarrow> bool" where
  "subscriptionIsDeleting sub \<longleftrightarrow> sub_DeletionTimestamp sub \<noteq> None"

fun alias_match ::
  "string \<Rightarrow> string \<Rightarrow> modelRefInfo option \<Rightarrow> modelRefInfo list \<Rightarrow> unit + modelRefInfo option" where
  "alias_match ns name m [] = Inr m"
| "alias_match ns name m (ref # refs) =
     (if mr_ModelName ref = [] \<or> mr_Namespace ref \<noteq> ns \<or> mr_ModelName ref \<noteq> name
      then alias_match ns name m refs
      else if (case m of None \<Rightarrow> False | Some r \<Rightarrow> mr_Name r \<noteq> mr_Name ref) then Inl ()
      else alias_match ns name (Some ref) refs)"

definition raw_match :: "string \<Rightarrow> modelRefInfo list \<Rightarrow> modelRefInfo option" where
  "raw_match requestedModel refs =
     find (\<lambda>ref. (mr_ModelName ref \<noteq> [] \<and> mr_ModelName ref = requestedModel) \<or> mr_Name ref = requestedModel) refs"

definition exact_match :: "string \<Rightarrow> string \<Rightarrow> modelRefInfo list \<Rightarrow> modelRefInfo option" where
  "exact_match ns name refs = find (\<lambda>ref. mr_Namespace ref = ns \<and> mr_Name ref = name) refs"

definition findModelRef :: "subscription \<Rightarrow> string \<Rightarrow> modelRefInfo option" where
  "findModelRef sub requestedModel =
     (case SplitN2 (CHR ''/'') requestedModel of
        [ns, name] \<Rightarrow>
          (case exact_match ns name (sub_ModelRefs sub) of
             Some ref \<Rightarrow> Some ref
           | None \<Rightarrow>
             (case alias_match ns name None (sub_ModelRefs sub) of
                Inl _ \<Rightarrow> None
              | Inr (Some ref) \<Rightarrow> Some ref
              | Inr None \<Rightarrow> raw_match requestedModel (sub_ModelRefs sub)))
      | _ \<Rightarrow> raw_match requestedModel (sub_ModelRefs sub))"

definition subscriptionIncludesModel :: "subscription \<Rightarrow> string \<Rightarrow> bool" where
  "subscriptionIncludesModel sub requestedModel \<longleftrightarrow>
     requestedModel = [] \<or> findModelRef sub requestedModel \<noteq> None"

definition ref_key :: "modelRefInfo \<Rightarrow> nsname" where
  "ref_key ref = (mr_Namespace ref, mr_Name ref)"

definition filterAuthorizedModels :: "modelRefInfo list \<Rightarrow> authSet \<Rightarrow> modelRefInfo list" where
  "filterAuthorizedModels refs authorizedSet =
     filter (\<lambda>ref. case authorizedSet of None \<Rightarrow> False | Some m \<Rightarrow> map_lookup m (ref_key ref)) refs"

definition authorizedSelectionSubscription :: "subscription \<Rightarrow> authSet \<Rightarrow> subscription" where
  "authorizedSelectionSubscription sub authorizedSet =
     (case authorizedSet of
        None \<Rightarrow> sub
      | Some _ \<Rightarrow> sub\<lparr>sub_ModelRefs := filterAuthorizedModels (sub_ModelRefs sub) authorizedSet\<rparr>)"

definition isResolvedModelAuthorized :: "subscription \<Rightarrow> string \<Rightarrow> authSet \<Rightarrow> bool" where
  "isResolvedModelAuthorized sub requestedModel authorizedSet =
     (if requestedModel = [] then True
      else case authorizedSet of
        None \<Rightarrow> False
      | Some authorized \<Rightarrow>
        (case (case Cut (CHR ''/'') requestedModel of
                 None \<Rightarrow> None | Some (ns, name) \<Rightarrow> exact_match ns name (sub_ModelRefs sub)) of
           Some ref \<Rightarrow> map_lookup authorized (ref_key ref)
         | None \<Rightarrow>
           (case findModelRef (authorizedSelectionSubscription sub authorizedSet) requestedModel of
              None \<Rightarrow> False
            | Some ref \<Rightarrow> map_lookup authorized (ref_key ref))))"

definition checkModelHealth :: "subscription \<Rightarrow> string \<Rightarrow> selectError option" where
  "checkModelHealth sub requestedModel =
     (let unhealthy = (\<lambda>reason msg. Some (ModelUnhealthyError (sub_Name sub) (sub_Phase sub) reason msg)) in
      if requestedModel = [] then
        (if sub_Phase sub = [] then unhealthy ''SubscriptionNotReady'' ''subscription is unreconciled (no status.phase set)''
         else if sub_Phase sub = PhaseFailed
         then unhealthy ''SubscriptionNotReady'' ''subscription is in Failed phase (cannot create API keys)''
         else None)
      else if sub_Phase sub \<noteq> PhaseActive \<and> sub_Phase sub \<noteq> PhaseDegraded
      then unhealthy ''SubscriptionNotReady''
             (''subscription is in '' @ (if sub_Phase sub = [] then ''unreconciled'' else sub_Phase sub)
                @ '' phase (allowed: Active, Degraded)'')
      else if sub_Phase sub \<noteq> PhaseDegraded then None
      else case findModelRef sub requestedModel of
             None \<Rightarrow> unhealthy ''InvalidModelFormat'' ''requested model does not match any model in the subscription''
           | Some ref \<Rightarrow>
             if \<not> (mr_Unlimited ref \<or> mr_TokenRateLimits ref \<noteq> []) then None
             else case find (\<lambda>trlp. trls_Model trlp = mr_Name ref) (sub_TokenRateLimitStatuses sub) of
                    Some trlp \<Rightarrow>
                      if \<not> trls_Ready trlp
                      then unhealthy ''RateLimitNotEnforced'' ''subscription rate limiting policies are not ready''
                      else None
                  | None \<Rightarrow> unhealthy ''RateLimitNotEnforced'' ''subscription rate limiting policies are not ready'')"

definition priorityLess :: "subscription \<Rightarrow> subscription \<Rightarrow> bool" where
  "priorityLess a b =
     (if sub_Priority a \<noteq> sub_Priority b then sub_Priority a > sub_Priority b
      else if sub_MaxLimit a \<noteq> sub_MaxLimit b then sub_MaxLimit a > sub_MaxLimit b
      else sub_Name a < sub_Name b)"

definition sortSubscriptionsByPriority :: "subscription list \<Rightarrow> subscription list" where
  "sortSubscriptionsByPriority subs = SliceStable priorityLess subs"

section \<open>Responses\<close>

definition toResponse :: "subscription \<Rightarrow> selectResponse" where
  "toResponse sub =
     \<lparr>r_Name = sub_Name sub, r_Namespace = sub_Namespace sub, r_DisplayName = sub_DisplayName sub,
      r_Description = sub_Description sub, r_Priority = sub_Priority sub, r_ModelRefs = sub_ModelRefs sub,
      r_OrganizationID = effectiveOrganizationID sub,
      r_AssociatedOrganizationID = sub_AssociatedOrganizationID sub, r_CostCenter = sub_CostCenter sub,
      r_Labels = sub_Labels sub, r_Headers = sub_Headers sub, r_ResolvedModel = [], r_RateLimitID = [],
      r_Objective = [], r_FairnessID = [], r_SelectedGuardrailChecks = None, r_AccessAllowed = False,
      r_Phase = sub_Phase sub, r_Ready = sub_Ready sub,
      r_DeletionTimestamp = (case sub_DeletionTimestamp sub of None \<Rightarrow> [] | Some t \<Rightarrow> t)\<rparr>"

definition toResponseWithResolvedModel ::
  "libs \<Rightarrow> selector \<Rightarrow> subscription \<Rightarrow> string \<Rightarrow> selectResponse" where
  "toResponseWithResolvedModel L s sub requestedModel =
     (let resp0 = (toResponse sub)\<lparr>r_ResolvedModel := requestedModel, r_FairnessID := sel_tenantName s\<rparr>;
          (resolvedModel, resp1) =
            (case findModelRef sub requestedModel of
               None \<Rightarrow> (requestedModel, resp0)
             | Some ref \<Rightarrow>
               (let rm = mr_Namespace ref @ ''/'' @ mr_Name ref
                in (rm, resp0\<lparr>r_ResolvedModel := rm,
                              r_Objective := (case sub_Objectives sub rm of None \<Rightarrow> [] | Some ob \<Rightarrow> ob)\<rparr>)))
      in if sub_UseShortRateLimitID sub
         then resp1\<lparr>r_RateLimitID := RateLimitIDFor L (sub_Namespace sub) (sub_Name sub) resolvedModel\<rparr>
         else resp1)"

definition buildAuthorizedResponse ::
  "libs \<Rightarrow> selector \<Rightarrow> subscription \<Rightarrow> string \<Rightarrow> authSet \<Rightarrow> selectError + selectResponse" where
  "buildAuthorizedResponse L s sub requestedModel authorizedSet =
     (let selectionSub = authorizedSelectionSubscription sub authorizedSet;
          resp0 = (toResponseWithResolvedModel L s selectionSub requestedModel)
                    \<lparr>r_AccessAllowed := isResolvedModelAuthorized sub requestedModel authorizedSet\<rparr>;
          resp = (if authorizedSet \<noteq> None
                  then resp0\<lparr>r_ModelRefs := filterAuthorizedModels (r_ModelRefs resp0) authorizedSet\<rparr>
                  else resp0)
      in if authorizedSet = None \<or> r_AccessAllowed resp \<or> requestedModel = []
         then (case checkModelHealth selectionSub requestedModel of
                 Some err \<Rightarrow> Inl err | None \<Rightarrow> Inr resp)
         else Inr resp)"

definition modelByKey :: "libs \<Rightarrow> selector \<Rightarrow> string \<Rightarrow> string \<Rightarrow> modelByKeyError + jobj" where
  "modelByKey L s namespace name =
     (case sel_modelLister s of
        None \<Rightarrow> Inl ModelListerNil
      | Some ml \<Rightarrow>
        (case ml_Get ml of
           Some get \<Rightarrow> (case get namespace name of Inl e \<Rightarrow> Inl (GetModelFailed e) | Inr item \<Rightarrow> Inr item)
         | None \<Rightarrow>
           (case ml_List ml of
              Inl e \<Rightarrow> Inl (ListModelsFailed e)
            | Inr items \<Rightarrow>
              (case find (\<lambda>item. GetNamespace L item = namespace \<and> GetName L item = name) items of
                 Some item \<Rightarrow> Inr item | None \<Rightarrow> Inl ModelRefNotFound))))"

definition completeSelection ::
  "libs \<Rightarrow> selector \<Rightarrow> subscription \<Rightarrow> string \<Rightarrow> authSet \<Rightarrow> selectError + selectResponse" where
  "completeSelection L s sub requestedModel authorizedSet =
     (case buildAuthorizedResponse L s sub requestedModel authorizedSet of
        Inl err \<Rightarrow> Inl err
      | Inr response \<Rightarrow>
        if requestedModel = [] \<or> \<not> r_AccessAllowed response then Inr response
        else case sel_guardrailResolver s of
               None \<Rightarrow> Inr response
             | Some resolver \<Rightarrow>
        (case findModelRef (authorizedSelectionSubscription sub authorizedSet) requestedModel of
           None \<Rightarrow> Inl (GuardrailResolutionError (NotInSubscription requestedModel))
         | Some modelRef \<Rightarrow>
           (case modelByKey L s (mr_Namespace modelRef) (mr_Name modelRef) of
              Inl err \<Rightarrow> Inl (GuardrailResolutionError (ModelLookup err))
            | Inr model \<Rightarrow>
              (case resolver (sub_Object sub) model of
                 Inl err \<Rightarrow> Inl (GuardrailResolutionError (ResolverError err))
               | Inr checks \<Rightarrow> Inr (response\<lparr>r_SelectedGuardrailChecks := Some checks\<rparr>)))))"

section \<open>Operations\<close>

definition select_match ::
  "libs \<Rightarrow> selector \<Rightarrow> string \<Rightarrow> string \<Rightarrow> string \<Rightarrow> string list \<Rightarrow> authSet \<Rightarrow> subscription
     \<Rightarrow> selectError + selectResponse" where
  "select_match L s requestedSubscription requestedModel username groups authorizedSet sub =
     (if \<not> userHasAccess sub username groups then Inl (AccessDeniedError requestedSubscription)
      else if requestedModel \<noteq> [] \<and> authorizedSet = None \<and> \<not> subscriptionIncludesModel sub requestedModel
      then Inl (ModelNotInSubscriptionError requestedSubscription requestedModel)
      else completeSelection L s sub requestedModel authorizedSet)"

definition selectExplicit ::
  "libs \<Rightarrow> selector \<Rightarrow> subscription list \<Rightarrow> string \<Rightarrow> string \<Rightarrow> string \<Rightarrow> string list \<Rightarrow> authSet
     \<Rightarrow> selectError + selectResponse" where
  "selectExplicit L s subscriptions requestedSubscription requestedModel username groups authorizedSet =
     (case find (\<lambda>sub. sub_Namespace sub @ ''/'' @ sub_Name sub = requestedSubscription \<and>
                       \<not> subscriptionIsDeleting sub) subscriptions of
        Some sub \<Rightarrow> select_match L s requestedSubscription requestedModel username groups authorizedSet sub
      | None \<Rightarrow>
        (case (if CHR ''/'' \<notin> set requestedSubscription
               then find (\<lambda>sub. sub_Name sub = requestedSubscription \<and> \<not> subscriptionIsDeleting sub) subscriptions
               else None) of
           Some sub \<Rightarrow> select_match L s requestedSubscription requestedModel username groups authorizedSet sub
         | None \<Rightarrow> Inl (SubscriptionNotFoundError requestedSubscription)))"

definition auto_candidates ::
  "subscription list \<Rightarrow> string \<Rightarrow> string \<Rightarrow> string list \<Rightarrow> authSet \<Rightarrow> subscription list" where
  "auto_candidates subscriptions requestedModel username groups authorizedSet =
     filter (\<lambda>sub. \<not> subscriptionIsDeleting sub \<and> userHasAccess sub username groups \<and>
       \<not> (requestedModel \<noteq> [] \<and> \<not> subscriptionIncludesModel sub requestedModel \<and>
          \<not> subscriptionIncludesModel (authorizedSelectionSubscription sub authorizedSet) requestedModel))
       subscriptions"

definition SelectWithContext ::
  "libs \<Rightarrow> selector \<Rightarrow> string list \<Rightarrow> string \<Rightarrow> string \<Rightarrow> string \<Rightarrow> selectError + selectResponse" where
  "SelectWithContext L s groups username requestedSubscription requestedModel0 =
     (if groups = [] \<and> username = [] then Inl GroupsOrUsernameRequired
      else let requestedModel = resolveModelAlias L s requestedModel0 in
      (case loadSubscriptions L s of
         Inl e \<Rightarrow> Inl (LoadFailed e)
       | Inr loaded \<Rightarrow>
         if loaded = [] then Inl NoSubscriptionError
         else let subscriptions = sortSubscriptionsByPriority loaded in
         bind_res (authorizedModels s groups username) (\<lambda>authorizedSet.
         if requestedSubscription \<noteq> []
         then selectExplicit L s subscriptions requestedSubscription requestedModel username groups authorizedSet
         else
         let accessibleSubs = auto_candidates subscriptions requestedModel username groups authorizedSet;
             filtering = (requestedModel \<noteq> [] \<and> authorizedSet \<noteq> None);
             authorizedSubs = filter (\<lambda>sub. isResolvedModelAuthorized sub requestedModel authorizedSet) accessibleSubs
         in if filtering \<and> accessibleSubs \<noteq> [] \<and> authorizedSubs = [] then Inl (AccessDeniedError [])
            else case (if filtering then authorizedSubs else accessibleSubs) of
                   [] \<Rightarrow> Inl NoSubscriptionError
                 | [sub] \<Rightarrow> completeSelection L s sub requestedModel authorizedSet
                 | subs \<Rightarrow> Inl (MultipleSubscriptionsError (map sub_Name subs)))))"

definition Select ::
  "libs \<Rightarrow> selector \<Rightarrow> string list \<Rightarrow> string \<Rightarrow> string \<Rightarrow> string \<Rightarrow> selectError + selectResponse" where
  "Select L s groups username requestedSubscription requestedModel =
     SelectWithContext L s groups username requestedSubscription requestedModel"

definition SelectHighestPriority ::
  "libs \<Rightarrow> selector \<Rightarrow> string list \<Rightarrow> string \<Rightarrow> selectError + selectResponse" where
  "SelectHighestPriority L s groups username =
     (if groups = [] \<and> username = [] then Inl GroupsOrUsernameRequired
      else case loadSubscriptions L s of
         Inl e \<Rightarrow> Inl (LoadFailed e)
       | Inr subscriptions \<Rightarrow>
         if subscriptions = [] then Inl NoSubscriptionError
         else (case sortSubscriptionsByPriority
                      (filter (\<lambda>sub. \<not> subscriptionIsDeleting sub \<and> userHasAccess sub username groups) subscriptions) of
                 [] \<Rightarrow> Inl NoSubscriptionError
               | best # _ \<Rightarrow>
                 (let resp = toResponse best in
                  if sel_accessChecker s \<noteq> None
                  then bind_res (authorizedModels s groups username) (\<lambda>authorizedSet.
                         Inr (resp\<lparr>r_ModelRefs := filterAuthorizedModels (r_ModelRefs resp) authorizedSet\<rparr>))
                  else Inr resp)))"

definition nameLess :: "selectResponse \<Rightarrow> selectResponse \<Rightarrow> bool" where
  "nameLess a b \<longleftrightarrow> r_Name a < r_Name b"

definition ownerInventoryVisible :: "subscription \<Rightarrow> bool" where
  "ownerInventoryVisible sub \<longleftrightarrow>
     (sub_Phase sub = PhaseActive \<or> sub_Phase sub = PhaseDegraded) \<and> \<not> subscriptionIsDeleting sub"

definition GetAllAccessible ::
  "libs \<Rightarrow> selector \<Rightarrow> string list \<Rightarrow> string \<Rightarrow> selectError + selectResponse list" where
  "GetAllAccessible L s groups username =
     (if groups = [] \<and> username = [] then Inl GroupsOrUsernameRequired
      else case loadSubscriptions L s of
         Inl e \<Rightarrow> Inl (LoadFailed e)
       | Inr subscriptions \<Rightarrow>
         (let accessible = map toResponse (filter (\<lambda>sub. userHasAccess sub username groups \<and>
                (sub_Phase sub = PhaseActive \<or> sub_Phase sub = PhaseDegraded) \<and>
                \<not> subscriptionIsDeleting sub) subscriptions)
          in bind_res
               (if sel_accessChecker s \<noteq> None
                then bind_res (authorizedModels s groups username) (\<lambda>authorizedSet.
                       Inr (filter (\<lambda>r. r_ModelRefs r \<noteq> [])
                         (map (\<lambda>r. r\<lparr>r_ModelRefs := filterAuthorizedModels (r_ModelRefs r) authorizedSet\<rparr>) accessible)))
                else Inr accessible)
               (\<lambda>acc. Inr (SliceStable nameLess acc))))"

definition findModelNamespaces :: "subscription \<Rightarrow> string \<Rightarrow> string list" where
  "findModelNamespaces sub modelID =
     map mr_Namespace (filter (\<lambda>ref. mr_Name ref = modelID) (sub_ModelRefs sub))"

definition toSubscriptionInfo :: "subscription \<Rightarrow> subscriptionInfo" where
  "toSubscriptionInfo sub =
     \<lparr>in_SubscriptionIDHeader = sub_Name sub, in_Namespace = [],
      in_SubscriptionDescription = sub_Description sub, in_DisplayName = sub_DisplayName sub,
      in_Priority = sub_Priority sub, in_ModelRefs = sub_ModelRefs sub, in_Roles = [],
      in_OrganizationID = effectiveOrganizationID sub, in_CostCenter = sub_CostCenter sub,
      in_Labels = sub_Labels sub, in_Owner = None\<rparr>"

definition inventoryOrganizationID :: "selectResponse \<Rightarrow> string" where
  "inventoryOrganizationID r =
     (if r_AssociatedOrganizationID r \<noteq> [] then r_AssociatedOrganizationID r else r_OrganizationID r)"

definition ResponseToSubscriptionInfo :: "selectResponse \<Rightarrow> subscriptionInfo" where
  "ResponseToSubscriptionInfo r =
     \<lparr>in_SubscriptionIDHeader = r_Name r, in_Namespace = r_Namespace r,
      in_SubscriptionDescription = r_Description r, in_DisplayName = r_DisplayName r,
      in_Priority = r_Priority r, in_ModelRefs = r_ModelRefs r, in_Roles = [],
      in_OrganizationID = inventoryOrganizationID r, in_CostCenter = r_CostCenter r,
      in_Labels = r_Labels r, in_Owner = None\<rparr>"

definition infoLess :: "subscriptionInfo \<Rightarrow> subscriptionInfo \<Rightarrow> bool" where
  "infoLess a b \<longleftrightarrow> in_SubscriptionIDHeader a < in_SubscriptionIDHeader b"

definition ListAccessibleForModel ::
  "libs \<Rightarrow> selector \<Rightarrow> string \<Rightarrow> string list \<Rightarrow> string \<Rightarrow> selectError + subscriptionInfo list" where
  "ListAccessibleForModel L s username groups modelID =
     (case loadSubscriptions L s of
        Inl e \<Rightarrow> Inl (LoadFailed e)
      | Inr subscriptions \<Rightarrow>
        bind_res (authorizedModels s groups username) (\<lambda>authorizedSet.
        let kept = filter (\<lambda>sub.
               userHasAccess sub username groups \<and> findModelNamespaces sub modelID \<noteq> [] \<and>
               (sel_accessChecker s \<noteq> None \<longrightarrow>
                  (\<exists>ns\<in>set (findModelNamespaces sub modelID).
                     case authorizedSet of None \<Rightarrow> False | Some m \<Rightarrow> map_lookup m (ns, modelID)))) subscriptions;
            info = (\<lambda>sub. let i = toSubscriptionInfo sub
                          in if authorizedSet \<noteq> None
                             then i\<lparr>in_ModelRefs := filterAuthorizedModels (in_ModelRefs i) authorizedSet\<rparr> else i)
        in Inr (SliceStable infoLess (map info kept))))"

definition listOwnerInventory ::
  "libs \<Rightarrow> selector \<Rightarrow> string list \<Rightarrow> string \<Rightarrow> selectError + subscriptionInfo list" where
  "listOwnerInventory L s groups username =
     bind_res (GetAllAccessible L s groups username) (\<lambda>accessible. Inr (map ResponseToSubscriptionInfo accessible))"

section \<open>Finding a model\<close>

text \<open>
  How a request names a model of a subscription: by the pair of a modelRef, by the pair of
  its namespace and its resolved alias, or by a raw name. \<open>alias_match\<close> fails when two
  modelRefs of different names claim the same pair.
\<close>

definition pair_alias :: "string \<Rightarrow> string \<Rightarrow> modelRefInfo \<Rightarrow> bool" where
  "pair_alias ns name ref \<longleftrightarrow> mr_ModelName ref = name \<and> name \<noteq> [] \<and> mr_Namespace ref = ns"

lemma alias_match_step:
  "alias_match ns name m (ref # refs) =
     (if pair_alias ns name ref
      then (if (\<exists>x. m = Some x \<and> mr_Name x \<noteq> mr_Name ref) then Inl () else alias_match ns name (Some ref) refs)
      else alias_match ns name m refs)"
  by (auto simp: pair_alias_def split: option.splits)

lemma alias_match_Inr:
  "alias_match ns name m refs = Inr r \<Longrightarrow>
     mr_Name ` (set (filter (pair_alias ns name) refs) \<union> set_option m) = mr_Name ` set_option r \<and>
     set_option r \<subseteq> set (filter (pair_alias ns name) refs) \<union> set_option m"
proof (induction refs arbitrary: m)
  case Nil
  then show ?case by simp
next
  case (Cons ref refs)
  show ?case
  proof (cases "pair_alias ns name ref")
    case True
    have same: "mr_Name ` set_option m \<subseteq> {mr_Name ref}"
      and rec: "alias_match ns name (Some ref) refs = Inr r"
      using Cons.prems True unfolding alias_match_step by (cases m; simp split: if_splits)+
    let ?H = "set (filter (pair_alias ns name) refs)"
    have "mr_Name ` (insert ref ?H \<union> set_option m) = mr_Name ` (?H \<union> set_option (Some ref))"
      using same by auto
    with Cons.IH [OF rec] True show ?thesis by (simp, blast)
  next
    case False
    with Cons.prems have "alias_match ns name m refs = Inr r" unfolding alias_match_step by simp
    with Cons.IH [of m] False show ?thesis by simp
  qed
qed

lemma alias_match_Inl:
  "alias_match ns name m refs = Inl u \<Longrightarrow>
     \<exists>a b. {a, b} \<subseteq> set (filter (pair_alias ns name) refs) \<union> set_option m \<and> mr_Name a \<noteq> mr_Name b"
proof (induction refs arbitrary: m)
  case Nil
  then show ?case by simp
next
  case (Cons ref refs)
  show ?case
  proof (cases "pair_alias ns name ref")
    case True
    consider x where "m = Some x" "mr_Name x \<noteq> mr_Name ref" | "alias_match ns name (Some ref) refs = Inl u"
      using Cons.prems True unfolding alias_match_step by (auto split: if_splits)
    then show ?thesis
    proof cases
      case 1
      then show ?thesis using True by (intro exI [of _ x] exI [of _ ref]) simp
    next
      case 2
      from Cons.IH [OF 2] True show ?thesis by fastforce
    qed
  next
    case False
    with Cons.prems have "alias_match ns name m refs = Inl u" unfolding alias_match_step by simp
    with Cons.IH [of m] False show ?thesis by simp
  qed
qed

lemma SplitN2_pair: "c \<notin> set a \<Longrightarrow> SplitN2 c (a @ c # b) = [a, b]"
  by (simp add: SplitN2_def)

lemma SplitN2_single: "c \<notin> set s \<Longrightarrow> SplitN2 c s = [s]"
  by (simp add: SplitN2_def Cut_None_iff [THEN iffD2])

lemma SplitN2_cases:
  obtains "SplitN2 c s = [s]" "c \<notin> set s"
  | a b where "SplitN2 c s = [a, b]" "s = a @ c # b" "c \<notin> set a"
  using SplitN2_single SplitN2_pair split_list_first [of c s] by metis

lemma raw_match_SomeD:
  "raw_match m refs = Some ref \<Longrightarrow> ref \<in> set refs \<and> (mr_ModelName ref = m \<or> mr_Name ref = m)"
  by (auto simp: raw_match_def dest: find_SomeD)

lemma filterAuthorizedModels_iff:
  "ref \<in> set (filterAuthorizedModels refs (Some m)) \<longleftrightarrow> ref \<in> set refs \<and> map_lookup m (ref_key ref)"
  by (simp add: filterAuthorizedModels_def)

lemma exact_match_SomeD:
  "exact_match ns name refs = Some ref \<Longrightarrow> ref \<in> set refs \<and> mr_Namespace ref = ns \<and> mr_Name ref = name"
  by (auto simp: exact_match_def dest: find_SomeD)

text \<open>The three ways in which a lookup succeeds.\<close>

lemma findModelRef_cases:
  assumes "findModelRef sub m = Some ref"
  obtains (exact) ns name where "m = ns @ CHR ''/'' # name" "CHR ''/'' \<notin> set ns"
      "exact_match ns name (sub_ModelRefs sub) = Some ref"
    | (pair) ns name where "m = ns @ CHR ''/'' # name" "CHR ''/'' \<notin> set ns"
      "exact_match ns name (sub_ModelRefs sub) = None" "alias_match ns name None (sub_ModelRefs sub) = Inr (Some ref)"
    | (raw) "raw_match m (sub_ModelRefs sub) = Some ref"
proof (cases rule: SplitN2_cases [of "CHR ''/''" m])
  case 1
  with assms raw show ?thesis by (simp add: findModelRef_def)
next
  case (2 ns name)
  show ?thesis
  proof (cases "exact_match ns name (sub_ModelRefs sub)")
    case None
    show ?thesis
    proof (cases "alias_match ns name None (sub_ModelRefs sub)")
      case (Inl u)
      with assms 2 None show ?thesis by (simp add: findModelRef_def)
    next
      case (Inr r)
      with assms 2 None raw pair [OF 2(2,3) None] show ?thesis
        by (cases r) (simp_all add: findModelRef_def)
    qed
  next
    case (Some e)
    with assms 2 exact [OF 2(2,3)] show ?thesis by (simp add: findModelRef_def)
  qed
qed

lemma findModelRef_in:
  assumes "findModelRef sub m = Some ref"
  shows "ref \<in> set (sub_ModelRefs sub)"
  using assms
proof (cases rule: findModelRef_cases)
  case (pair ns name)
  then show ?thesis using alias_match_Inr [OF pair(4)] by auto
qed (auto dest: exact_match_SomeD raw_match_SomeD)

lemma findModelRef_pair:
  assumes "CHR ''/'' \<notin> set ns"
  shows "findModelRef sub (ns @ CHR ''/'' # name) =
     (case exact_match ns name (sub_ModelRefs sub) of
        Some ref \<Rightarrow> Some ref
      | None \<Rightarrow> (case alias_match ns name None (sub_ModelRefs sub) of
                   Inl _ \<Rightarrow> None
                 | Inr (Some ref) \<Rightarrow> Some ref
                 | Inr None \<Rightarrow> raw_match (ns @ CHR ''/'' # name) (sub_ModelRefs sub)))"
  using assms by (simp add: findModelRef_def SplitN2_pair)

section \<open>Authorization of the resolved model\<close>

abbreviation authorizes :: "(nsname \<rightharpoonup> bool) \<Rightarrow> modelRefInfo \<Rightarrow> bool" where
  "authorizes A ref \<equiv> map_lookup A (ref_key ref)"

lemma authorizedSelection_simps [simp]:
  "sub_ModelRefs (authorizedSelectionSubscription sub (Some A)) = filter (authorizes A) (sub_ModelRefs sub)"
  "authorizedSelectionSubscription sub None = sub"
  "sub_Name (authorizedSelectionSubscription sub a) = sub_Name sub"
  "sub_Namespace (authorizedSelectionSubscription sub a) = sub_Namespace sub"
  "sub_Phase (authorizedSelectionSubscription sub a) = sub_Phase sub"
  "sub_TokenRateLimitStatuses (authorizedSelectionSubscription sub a) = sub_TokenRateLimitStatuses sub"
  by (auto simp: authorizedSelectionSubscription_def filterAuthorizedModels_def split: option.splits)

lemma exact_match_authorized:
  "exact_match ns name refs = Some ref \<Longrightarrow> authorizes A ref \<Longrightarrow>
     exact_match ns name (filter (authorizes A) refs) = Some ref"
proof -
  assume m: "exact_match ns name refs = Some ref" and "authorizes A ref"
  then have "map_lookup A (ns, name)" by (auto simp: ref_key_def dest: exact_match_SomeD)
  then have "(\<lambda>r. authorizes A r \<and> mr_Namespace r = ns \<and> mr_Name r = name) =
      (\<lambda>r. mr_Namespace r = ns \<and> mr_Name r = name)"
    by (auto simp: ref_key_def)
  with m show ?thesis by (simp add: exact_match_def find_filter)
qed

lemma isResolvedModelAuthorized_ref:
  assumes "isResolvedModelAuthorized sub m a" and "m \<noteq> []"
  obtains A ref where "a = Some A" "findModelRef (authorizedSelectionSubscription sub a) m = Some ref"
    "ref \<in> set (sub_ModelRefs sub)" "authorizes A ref"
proof -
  from assms obtain A where a: "a = Some A" by (auto simp: isResolvedModelAuthorized_def split: option.splits)
  have "\<exists>ref. findModelRef (authorizedSelectionSubscription sub a) m = Some ref"
  proof (cases "case Cut (CHR ''/'') m of None \<Rightarrow> None | Some (ns, name) \<Rightarrow> exact_match ns name (sub_ModelRefs sub)")
    case None
    then show ?thesis using assms a by (auto simp: isResolvedModelAuthorized_def split: option.splits)
  next
    case (Some ref)
    then obtain ns name where m: "m = ns @ CHR ''/'' # name" "CHR ''/'' \<notin> set ns"
      and ref: "exact_match ns name (sub_ModelRefs sub) = Some ref"
      by (auto simp: Cut_Some_iff split: option.splits)
    have "authorizes A ref" using assms a Some by (auto simp: isResolvedModelAuthorized_def)
    then have "exact_match ns name (filter (authorizes A) (sub_ModelRefs sub)) = Some ref"
      by (rule exact_match_authorized [OF ref])
    then show ?thesis by (simp add: a m findModelRef_pair)
  qed
  then obtain ref where ref: "findModelRef (authorizedSelectionSubscription sub a) m = Some ref" ..
  then have "ref \<in> set (filter (authorizes A) (sub_ModelRefs sub))"
    using findModelRef_in [OF ref] by (simp add: a)
  with that [OF a ref] show ?thesis by simp
qed

section \<open>Health\<close>

definition budget_enforced :: "subscription \<Rightarrow> modelRefInfo \<Rightarrow> bool" where
  "budget_enforced sub ref \<longleftrightarrow>
     (\<not> mr_Unlimited ref \<and> mr_TokenRateLimits ref = []) \<or>
     (\<exists>trlp. find (\<lambda>t. trls_Model t = mr_Name ref) (sub_TokenRateLimitStatuses sub) = Some trlp \<and> trls_Ready trlp)"

lemma checkModelHealth_None_iff:
  "checkModelHealth sub m = None \<longleftrightarrow>
     (if m = [] then sub_Phase sub \<noteq> [] \<and> sub_Phase sub \<noteq> PhaseFailed
      else sub_Phase sub = PhaseActive \<or>
           (sub_Phase sub = PhaseDegraded \<and>
            (\<exists>ref. findModelRef sub m = Some ref \<and> budget_enforced sub ref)))"
proof (cases "m = []")
  case False
  show ?thesis
  proof (cases "sub_Phase sub = PhaseDegraded")
    case True
    show ?thesis
      by (cases "findModelRef sub m") (auto simp: checkModelHealth_def True False budget_enforced_def split: option.splits)
  qed (auto simp: checkModelHealth_def False)
qed (simp add: checkModelHealth_def)

section \<open>The response of a selection\<close>

lemma toResponseWithResolvedModel_simps:
  "r_Name (toResponseWithResolvedModel L s sub m) = sub_Name sub"
  "r_Namespace (toResponseWithResolvedModel L s sub m) = sub_Namespace sub"
  "r_ModelRefs (toResponseWithResolvedModel L s sub m) = sub_ModelRefs sub"
  "r_SelectedGuardrailChecks (toResponseWithResolvedModel L s sub m) = None"
  "findModelRef sub m = Some ref \<Longrightarrow>
     r_ResolvedModel (toResponseWithResolvedModel L s sub m) = mr_Namespace ref @ ''/'' @ mr_Name ref"
  by (auto simp: toResponseWithResolvedModel_def toResponse_def Let_def split: option.splits)

definition response_refs :: "subscription \<Rightarrow> authSet \<Rightarrow> modelRefInfo list" where
  "response_refs sub a = (case a of None \<Rightarrow> sub_ModelRefs sub | Some A \<Rightarrow> filter (authorizes A) (sub_ModelRefs sub))"

lemma buildAuthorizedResponse_Inr:
  assumes "buildAuthorizedResponse L s sub m a = Inr r"
  shows "r_Name r = sub_Name sub" "r_Namespace r = sub_Namespace sub" "r_ModelRefs r = response_refs sub a"
    "r_SelectedGuardrailChecks r = None"
    "r_AccessAllowed r \<longleftrightarrow> isResolvedModelAuthorized sub m a"
    "findModelRef (authorizedSelectionSubscription sub a) m = Some ref \<Longrightarrow>
       r_ResolvedModel r = mr_Namespace ref @ ''/'' @ mr_Name ref"
    "a = None \<or> r_AccessAllowed r \<or> m = [] \<Longrightarrow>
       checkModelHealth (authorizedSelectionSubscription sub a) m = None"
  using assms
  by (auto simp: buildAuthorizedResponse_def Let_def toResponseWithResolvedModel_simps response_refs_def
      filterAuthorizedModels_def split: if_splits option.splits)

lemma completeSelection_Inr:
  assumes "completeSelection L s sub m a = Inr r"
  obtains r0 where "buildAuthorizedResponse L s sub m a = Inr r0"
    "r = r0 \<and> (m = [] \<or> \<not> r_AccessAllowed r0 \<or> sel_guardrailResolver s = None) \<or>
     (\<exists>resolver ref model checks. m \<noteq> [] \<and> r = r0\<lparr>r_SelectedGuardrailChecks := Some checks\<rparr> \<and>
        sel_guardrailResolver s = Some resolver \<and>
        findModelRef (authorizedSelectionSubscription sub a) m = Some ref \<and>
        modelByKey L s (mr_Namespace ref) (mr_Name ref) = Inr model \<and>
        resolver (sub_Object sub) model = Inr checks)"
  using assms by (auto simp: completeSelection_def split: sum.splits option.splits if_splits)

lemma completeSelection_base:
  assumes "completeSelection L s sub m a = Inr r"
  shows "r_Name r = sub_Name sub \<and> r_Namespace r = sub_Namespace sub \<and>
    (m = [] \<longrightarrow> r_SelectedGuardrailChecks r = None)"
proof -
  from assms obtain r0 where r0: "buildAuthorizedResponse L s sub m a = Inr r0"
    and fin: "r = r0 \<or> (\<exists>checks. m \<noteq> [] \<and> r = r0\<lparr>r_SelectedGuardrailChecks := Some checks\<rparr>)"
    by (rule completeSelection_Inr) blast
  show ?thesis using fin buildAuthorizedResponse_Inr(1,2,4) [OF r0] by auto
qed

section \<open>Which subscription is selected\<close>

definition names_subscription :: "string \<Rightarrow> subscription \<Rightarrow> bool" where
  "names_subscription requested sub \<longleftrightarrow>
     requested = sub_Namespace sub @ ''/'' @ sub_Name sub \<or>
     (CHR ''/'' \<notin> set requested \<and> requested = sub_Name sub)"

definition eligible :: "string \<Rightarrow> string \<Rightarrow> string list \<Rightarrow> authSet \<Rightarrow> subscription \<Rightarrow> bool" where
  "eligible m username groups a sub \<longleftrightarrow>
     \<not> subscriptionIsDeleting sub \<and> userHasAccess sub username groups \<and>
     (m \<noteq> [] \<longrightarrow> (case a of None \<Rightarrow> findModelRef sub m \<noteq> None | Some A \<Rightarrow> isResolvedModelAuthorized sub m a))"

interpretation priority_order: go_less priorityLess
  by unfold_locales (auto simp: priorityLess_def split: if_splits)

lemma set_sortSubscriptions [simp]: "set (sortSubscriptionsByPriority subs) = set subs"
  by (simp add: sortSubscriptionsByPriority_def)

lemma selectExplicit_Inr:
  assumes "selectExplicit L s subs req m u gs a = Inr r"
  obtains sub where "sub \<in> set subs" "names_subscription req sub" "\<not> subscriptionIsDeleting sub"
    "userHasAccess sub u gs" "completeSelection L s sub m a = Inr r"
  using assms
  by (auto simp: selectExplicit_def select_match_def names_subscription_def
      split: option.splits if_splits dest!: find_SomeD)

text \<open>
  An authorized model is included in the subscription, so the candidates that survive the
  authorization filter are exactly the eligible subscriptions.
\<close>

lemma authorized_included:
  assumes "isResolvedModelAuthorized sub m a"
  shows "subscriptionIncludesModel (authorizedSelectionSubscription sub a) m"
proof (cases "m = []")
  case False
  then show ?thesis using isResolvedModelAuthorized_ref [OF assms False]
    by (metis option.distinct(1) subscriptionIncludesModel_def)
qed (simp add: subscriptionIncludesModel_def)

lemma eligible_candidates:
  "(if m \<noteq> [] \<and> a \<noteq> None
    then filter (\<lambda>sub. isResolvedModelAuthorized sub m a) (auto_candidates subs m u gs a)
    else auto_candidates subs m u gs a) = filter (eligible m u gs a) subs"
proof (cases a)
  case None
  then show ?thesis
    by (auto simp: auto_candidates_def eligible_def subscriptionIncludesModel_def intro!: filter_cong)
next
  case (Some A)
  show ?thesis
  proof (cases "m = []")
    case True
    then show ?thesis by (auto simp: auto_candidates_def eligible_def intro!: filter_cong)
  next
    case False
    then show ?thesis
      using authorized_included [of _ m a] Some
      by (auto simp: auto_candidates_def eligible_def intro!: filter_cong)
  qed
qed

lemma filter_sortSubscriptions_length:
  "length (filter P (sortSubscriptionsByPriority subs)) = length (filter P subs)"
  by (metis mset_SliceStable mset_filter size_mset sortSubscriptionsByPriority_def)

lemma SelectWithContext_Inr:
  assumes "SelectWithContext L s gs u req m0 = Inr r"
  obtains loaded a sub where "loadSubscriptions L s = Inr loaded" "authorizedModels s gs u = Inr a"
    "sub \<in> set loaded" "\<not> subscriptionIsDeleting sub" "userHasAccess sub u gs"
    "completeSelection L s sub (resolveModelAlias L s m0) a = Inr r"
    "req \<noteq> [] \<Longrightarrow> names_subscription req sub"
    "req = [] \<Longrightarrow> filter (eligible (resolveModelAlias L s m0) u gs a) loaded = [sub]"
proof -
  let ?m = "resolveModelAlias L s m0"
  from assms obtain loaded a where load: "loadSubscriptions L s = Inr loaded" and a: "authorizedModels s gs u = Inr a"
    by (auto simp: SelectWithContext_def Let_def res_inv)
  show ?thesis
  proof (cases "req = []")
    case False
    then have "selectExplicit L s (sortSubscriptionsByPriority loaded) req ?m u gs a = Inr r"
      using assms by (simp add: SelectWithContext_def Let_def load a res_inv)
    then obtain sub where "sub \<in> set loaded" "names_subscription req sub" "\<not> subscriptionIsDeleting sub"
      "userHasAccess sub u gs" "completeSelection L s sub ?m a = Inr r"
      by (rule selectExplicit_Inr) simp
    with that [OF load a] False show ?thesis by blast
  next
    case True
    let ?el = "filter (eligible ?m u gs a) (sortSubscriptionsByPriority loaded)"
    have "(case ?el of [] \<Rightarrow> Inl NoSubscriptionError | [sub] \<Rightarrow> completeSelection L s sub ?m a
        | subs \<Rightarrow> Inl (MultipleSubscriptionsError (map sub_Name subs))) = Inr r"
      using assms True
      by (simp only: eligible_candidates [symmetric])
         (simp add: SelectWithContext_def Let_def load a res_inv)
    then obtain sub where el: "?el = [sub]" and c: "completeSelection L s sub ?m a = Inr r"
      by (auto split: list.splits)
    have "sub \<in> set ?el" by (simp add: el)
    then have sub: "sub \<in> set loaded" "eligible ?m u gs a sub" by simp_all
    have "length (filter (eligible ?m u gs a) loaded) = 1"
      using arg_cong [OF el, of length] by (simp add: filter_sortSubscriptions_length)
    then obtain x where x: "filter (eligible ?m u gs a) loaded = [x]" by (auto simp: length_Suc_conv)
    moreover have "sub \<in> set (filter (eligible ?m u gs a) loaded)" using sub by simp
    ultimately have "filter (eligible ?m u gs a) loaded = [sub]" by simp
    with that [OF load a sub(1)] c sub(2) True show ?thesis by (simp add: eligible_def)
  qed
qed

text \<open>What stands behind a completed selection that allows access to a model.\<close>

lemma allowed_model_sound:
  assumes c: "completeSelection L s sub m a = Inr r" and "r_AccessAllowed r" and m: "m \<noteq> []"
  shows "\<exists>A ref. a = Some A \<and> ref \<in> set (sub_ModelRefs sub) \<and> authorizes A ref \<and>
     r_ResolvedModel r = mr_Namespace ref @ ''/'' @ mr_Name ref \<and>
     (sub_Phase sub = PhaseActive \<or> (sub_Phase sub = PhaseDegraded \<and> budget_enforced sub ref)) \<and>
     (\<forall>resolver. sel_guardrailResolver s = Some resolver \<longrightarrow>
        (\<exists>model checks. modelByKey L s (mr_Namespace ref) (mr_Name ref) = Inr model \<and>
           resolver (sub_Object sub) model = Inr checks \<and> r_SelectedGuardrailChecks r = Some checks))"
proof -
  from c obtain r0 where r0: "buildAuthorizedResponse L s sub m a = Inr r0"
    and fin: "r = r0 \<and> (m = [] \<or> \<not> r_AccessAllowed r0 \<or> sel_guardrailResolver s = None) \<or>
      (\<exists>resolver ref model checks. m \<noteq> [] \<and> r = r0\<lparr>r_SelectedGuardrailChecks := Some checks\<rparr> \<and>
         sel_guardrailResolver s = Some resolver \<and>
         findModelRef (authorizedSelectionSubscription sub a) m = Some ref \<and>
         modelByKey L s (mr_Namespace ref) (mr_Name ref) = Inr model \<and>
         resolver (sub_Object sub) model = Inr checks)"
    by (rule completeSelection_Inr)
  note b = buildAuthorizedResponse_Inr [OF r0]
  have acc: "r_AccessAllowed r0" and eqs: "r_ResolvedModel r = r_ResolvedModel r0"
    using fin assms(2) by auto
  then have "isResolvedModelAuthorized sub m a" using b(5) by simp
  then obtain A ref where A: "a = Some A" and ref: "findModelRef (authorizedSelectionSubscription sub a) m = Some ref"
    "ref \<in> set (sub_ModelRefs sub)" "authorizes A ref"
    using m by (rule isResolvedModelAuthorized_ref)
  have "checkModelHealth (authorizedSelectionSubscription sub a) m = None" using b(7) acc by blast
  then have health: "sub_Phase sub = PhaseActive \<or> (sub_Phase sub = PhaseDegraded \<and> budget_enforced sub ref)"
    using m ref(1) by (auto simp: checkModelHealth_None_iff budget_enforced_def)
  have guard: "\<forall>resolver. sel_guardrailResolver s = Some resolver \<longrightarrow>
      (\<exists>model checks. modelByKey L s (mr_Namespace ref) (mr_Name ref) = Inr model \<and>
         resolver (sub_Object sub) model = Inr checks \<and> r_SelectedGuardrailChecks r = Some checks)"
    using fin acc m ref(1) by auto
  show ?thesis
    using A ref eqs b(6) [OF ref(1)] health guard by (intro exI conjI) simp_all
qed

section \<open>Properties\<close>

text \<open>C4. A selection that allows access is backed by everything access needs. Always, the
  response describes a loaded subscription that is not being deleted and that the user or
  one of the user's groups owns. When the request names a model: some model of that
  subscription is authorized for the user, is the model the response resolves to and
  rate-limits, and is healthy (the subscription is Active, or it is Degraded and the model's
  token budget is enforced); and the guardrail checks of the response, when a resolver is
  configured, are those of that very model. A request without a model is a lookup of the
  subscription only: it is not tied to any model and its response carries no guardrail
  checks.\<close>

theorem Select_access_allowed_sound:
  assumes "SelectWithContext L s gs u req m0 = Inr r" and "r_AccessAllowed r"
    and "resolveModelAlias L s m0 = m"
  shows "\<exists>loaded sub. loadSubscriptions L s = Inr loaded \<and> sub \<in> set loaded \<and>
     r_Name r = sub_Name sub \<and> r_Namespace r = sub_Namespace sub \<and>
     \<not> subscriptionIsDeleting sub \<and> userHasAccess sub u gs \<and>
     (m = [] \<longrightarrow> r_SelectedGuardrailChecks r = None) \<and>
     (m \<noteq> [] \<longrightarrow>
       (\<exists>A ref. authorizedModels s gs u = Inr (Some A) \<and> ref \<in> set (sub_ModelRefs sub) \<and> authorizes A ref \<and>
         r_ResolvedModel r = mr_Namespace ref @ ''/'' @ mr_Name ref \<and>
         (sub_Phase sub = PhaseActive \<or> (sub_Phase sub = PhaseDegraded \<and> budget_enforced sub ref)) \<and>
         (\<forall>resolver. sel_guardrailResolver s = Some resolver \<longrightarrow>
            (\<exists>model checks. modelByKey L s (mr_Namespace ref) (mr_Name ref) = Inr model \<and>
               resolver (sub_Object sub) model = Inr checks \<and> r_SelectedGuardrailChecks r = Some checks))))"
proof -
  from assms(1) obtain loaded a sub where base: "loadSubscriptions L s = Inr loaded"
    "authorizedModels s gs u = Inr a" "sub \<in> set loaded" "\<not> subscriptionIsDeleting sub"
    "userHasAccess sub u gs" and c: "completeSelection L s sub m a = Inr r"
    unfolding assms(3) [symmetric] by (rule SelectWithContext_Inr)
  have names: "r_Name r = sub_Name sub" "r_Namespace r = sub_Namespace sub"
    and lookup: "m = [] \<Longrightarrow> r_SelectedGuardrailChecks r = None"
    using completeSelection_base [OF c] by simp_all
  from base names lookup allowed_model_sound [OF c assms(2)] show ?thesis by auto
qed

text \<open>A request for the exact pair of a subscription's modelRef is decided by the
  authorization of that very pair: an authorized alias carrier never stands in for an
  unauthorized exact reference, and an authorized one is never refused.\<close>

theorem exact_pair_decides:
  assumes "CHR ''/'' \<notin> set ns" and "ref \<in> set (sub_ModelRefs sub)" and "ref_key ref = (ns, name)"
  shows "isResolvedModelAuthorized sub (ns @ ''/'' @ name) (Some A) = map_lookup A (ns, name)"
proof -
  obtain e where e: "exact_match ns name (sub_ModelRefs sub) = Some e"
    using assms(2,3) by (cases "exact_match ns name (sub_ModelRefs sub)")
      (auto simp: exact_match_def ref_key_def find_None_iff_all)
  moreover have "ref_key e = (ns, name)" using exact_match_SomeD [OF e] by (simp add: ref_key_def)
  ultimately show ?thesis
    using assms(1) by (simp add: isResolvedModelAuthorized_def)
qed

text \<open>An ambiguous client-facing name fails closed: when no modelRef has the requested
  pair itself and two modelRefs of different names carry it as alias in the same
  namespace, no model is found. Otherwise a carrier of the pair is found by it.\<close>

theorem ambiguous_alias_fails_closed:
  assumes "CHR ''/'' \<notin> set ns" and "name \<noteq> []"
    and "\<forall>r\<in>set (sub_ModelRefs sub). ref_key r \<noteq> (ns, name)"
    and "r1 \<in> set (sub_ModelRefs sub)" and "pair_alias ns name r1"
  shows "if \<exists>r2\<in>set (sub_ModelRefs sub). pair_alias ns name r2 \<and> mr_Name r2 \<noteq> mr_Name r1
         then findModelRef sub (ns @ ''/'' @ name) = None
         else \<exists>ref\<in>set (sub_ModelRefs sub). findModelRef sub (ns @ ''/'' @ name) = Some ref \<and>
                pair_alias ns name ref \<and> mr_Name ref = mr_Name r1"
proof -
  let ?H = "set (filter (pair_alias ns name) (sub_ModelRefs sub))"
  have ex: "exact_match ns name (sub_ModelRefs sub) = None"
    using assms(3) by (auto simp: exact_match_def ref_key_def find_None_iff_all)
  have find: "findModelRef sub (ns @ ''/'' @ name) =
      (case alias_match ns name None (sub_ModelRefs sub) of Inl _ \<Rightarrow> None | Inr (Some ref) \<Rightarrow> Some ref
       | Inr None \<Rightarrow> raw_match (ns @ ''/'' @ name) (sub_ModelRefs sub))"
    using assms(1) ex by (simp add: findModelRef_pair split: sum.split option.split)
  have r1: "r1 \<in> ?H" using assms(4,5) by simp
  show ?thesis
  proof (cases "alias_match ns name None (sub_ModelRefs sub)")
    case (Inl u)
    then obtain a b where "a \<in> ?H" "b \<in> ?H" "mr_Name a \<noteq> mr_Name b"
      using alias_match_Inl [OF Inl] by auto
    then have "\<exists>r2\<in>?H. mr_Name r2 \<noteq> mr_Name r1" by (cases "mr_Name a = mr_Name r1") metis+
    moreover have "findModelRef sub (ns @ ''/'' @ name) = None" by (simp only: find Inl sum.case)
    ultimately show ?thesis by auto
  next
    case (Inr res)
    note img = alias_match_Inr [OF Inr, simplified]
    from img r1 obtain ref where ref: "res = Some ref" by (cases res) auto
    have mem: "ref \<in> ?H" using img unfolding ref by simp
    have "mr_Name ` ?H = {mr_Name ref}" using img unfolding ref by simp
    then have all: "\<And>x. x \<in> ?H \<Longrightarrow> mr_Name x = mr_Name ref" by blast
    then have same: "\<not> (\<exists>r2\<in>set (sub_ModelRefs sub). pair_alias ns name r2 \<and> mr_Name r2 \<noteq> mr_Name r1)"
      unfolding all [OF r1] by (auto dest: all [simplified])
    have "mr_Name ref = mr_Name r1" using all [OF r1] by simp
    moreover have "findModelRef sub (ns @ ''/'' @ name) = Some ref"
      by (simp only: find Inr ref sum.case option.case)
    ultimately show ?thesis unfolding if_not_P [OF same] using mem by auto
  qed
qed

text \<open>Without a requested subscription nothing is guessed: a selection succeeds only when
  exactly one loaded subscription is eligible (not deleting, owned by the user, including
  the requested model and authorized for it), and that one is selected; with two or more
  the names of all of them are reported.\<close>

theorem auto_selection_unique:
  assumes "loadSubscriptions L s = Inr loaded" and "authorizedModels s gs u = Inr a"
    and "gs \<noteq> [] \<or> u \<noteq> []" and "resolveModelAlias L s m0 = m"
  shows "case filter (eligible m u gs a) loaded of
       [] \<Rightarrow> SelectWithContext L s gs u [] m0 \<in> {Inl NoSubscriptionError, Inl (AccessDeniedError [])}
     | [sub] \<Rightarrow> SelectWithContext L s gs u [] m0 = completeSelection L s sub m a
     | subs \<Rightarrow> \<exists>names. SelectWithContext L s gs u [] m0 = Inl (MultipleSubscriptionsError names) \<and>
                mset names = mset (map sub_Name subs)"
proof -
  let ?el = "filter (eligible m u gs a) (sortSubscriptionsByPriority loaded)"
  let ?cand = "auto_candidates (sortSubscriptionsByPriority loaded) m u gs a"
  have ms: "mset ?el = mset (filter (eligible m u gs a) loaded)"
    by (simp add: sortSubscriptionsByPriority_def mset_filter)
  have sel: "SelectWithContext L s gs u [] m0 =
      (if loaded = [] then Inl NoSubscriptionError
       else if (m \<noteq> [] \<and> a \<noteq> None) \<and> ?cand \<noteq> [] \<and> ?el = [] then Inl (AccessDeniedError [])
       else case ?el of [] \<Rightarrow> Inl NoSubscriptionError | [sub] \<Rightarrow> completeSelection L s sub m a
            | subs \<Rightarrow> Inl (MultipleSubscriptionsError (map sub_Name subs)))"
    using assms(3) unfolding eligible_candidates [symmetric]
    by (auto simp: SelectWithContext_def Let_def assms(1,2,4))
  show ?thesis
  proof (cases ?el)
    case Nil
    then have "filter (eligible m u gs a) loaded = []" using ms by simp
    then show ?thesis by (simp add: sel Nil)
  next
    case (Cons x xs)
    then have ne: "loaded \<noteq> []" by (auto simp: sortSubscriptionsByPriority_def)
    show ?thesis
    proof (cases xs)
      case Nil
      then have "mset (filter (eligible m u gs a) loaded) = {#x#}" using ms Cons by (simp del: mset_filter)
      then have "filter (eligible m u gs a) loaded = [x]" by (simp only: mset_single_iff)
      then show ?thesis by (simp add: sel ne Cons Nil)
    next
      case more: (Cons y ys)
      have "length (filter (eligible m u gs a) loaded) = Suc (Suc (length ys))"
        using filter_sortSubscriptions_length [of "eligible m u gs a" loaded] Cons more by simp
      then obtain x' y' ys' where el: "filter (eligible m u gs a) loaded = x' # y' # ys'"
        by (metis length_Suc_conv)
      have "mset (map sub_Name (x # xs)) = mset (map sub_Name (x' # y' # ys'))"
        using ms unfolding Cons el by (metis mset_map)
      then show ?thesis by (simp add: sel ne Cons more el del: mset.simps mset_map)
    qed
  qed
qed

text \<open>The default subscription for a key is one of the user's loaded subscriptions that is
  not being deleted, and none of the others comes before it in priority, then largest
  token limit, then name; the models it lists are the authorized ones.\<close>

theorem SelectHighestPriority_maximal:
  assumes "SelectHighestPriority L s gs u = Inr r"
  shows "\<exists>loaded sub. loadSubscriptions L s = Inr loaded \<and> sub \<in> set loaded \<and>
     r_Name r = sub_Name sub \<and> r_Namespace r = sub_Namespace sub \<and>
     \<not> subscriptionIsDeleting sub \<and> userHasAccess sub u gs \<and>
     (\<forall>other\<in>set loaded. \<not> subscriptionIsDeleting other \<longrightarrow> userHasAccess other u gs \<longrightarrow> \<not> priorityLess other sub) \<and>
     (\<exists>a. authorizedModels s gs u = Inr a \<and> r_ModelRefs r = response_refs sub a)"
proof -
  let ?mine = "\<lambda>sub. \<not> subscriptionIsDeleting sub \<and> userHasAccess sub u gs"
  from assms obtain loaded where load: "loadSubscriptions L s = Inr loaded"
    by (auto simp: SelectHighestPriority_def res_inv)
  from assms obtain best rest where best: "sortSubscriptionsByPriority (filter ?mine loaded) = best # rest"
    by (auto simp: SelectHighestPriority_def load split: if_splits list.splits)
  have "best \<in> set (filter ?mine loaded)"
    using best by (metis list.set_intros(1) set_sortSubscriptions)
  moreover have "\<not> priorityLess other best" if "other \<in> set (filter ?mine loaded)" for other
    using priority_order.first_is_least [OF best [unfolded sortSubscriptionsByPriority_def] that] .
  moreover have "\<exists>a. authorizedModels s gs u = Inr a \<and> r_ModelRefs r = response_refs best a \<and>
      r_Name r = sub_Name best \<and> r_Namespace r = sub_Namespace best"
  proof -
    have "bind_res (authorizedModels s gs u) (\<lambda>a. Inr (if sel_accessChecker s \<noteq> None
        then (toResponse best)\<lparr>r_ModelRefs := filterAuthorizedModels (r_ModelRefs (toResponse best)) a\<rparr>
        else toResponse best)) = Inr r"
      using assms by (cases "sel_accessChecker s")
        (simp_all add: SelectHighestPriority_def load best authorizedModels_def Let_def split: if_splits)
    then obtain a where a: "authorizedModels s gs u = Inr a" "r = (if sel_accessChecker s \<noteq> None
        then (toResponse best)\<lparr>r_ModelRefs := filterAuthorizedModels (r_ModelRefs (toResponse best)) a\<rparr>
        else toResponse best)"
      by (auto simp: bind_res_eq_Inr_iff)
    moreover have "a = None \<longleftrightarrow> sel_accessChecker s = None"
      using a(1) by (auto simp: authorizedModels_def split: option.splits sum.splits)
    ultimately show ?thesis
      by (cases a) (auto simp: toResponse_def response_refs_def filterAuthorizedModels_def)
  qed
  ultimately show ?thesis using load by auto
qed

interpretation name_order: go_less nameLess
  by unfold_locales (auto simp: nameLess_def)

interpretation info_order: go_less infoLess
  by unfold_locales (auto simp: infoLess_def)

text \<open>The list of accessible subscriptions holds exactly the user's own Active or Degraded
  subscriptions that are not being deleted, each with exactly its authorized models and
  only when there is one (all models when authorization is not configured), ordered by
  name.\<close>

theorem GetAllAccessible_exact:
  assumes "GetAllAccessible L s gs u = Inr rs"
  shows "\<exists>loaded a. loadSubscriptions L s = Inr loaded \<and> authorizedModels s gs u = Inr a \<and>
     set rs = {(toResponse sub)\<lparr>r_ModelRefs := response_refs sub a\<rparr> | sub.
        sub \<in> set loaded \<and> userHasAccess sub u gs \<and> ownerInventoryVisible sub \<and>
        (a \<noteq> None \<longrightarrow> response_refs sub a \<noteq> [])} \<and>
     sorted_wrt (\<lambda>x y. r_Name x \<le> r_Name y) rs"
proof -
  from assms obtain loaded where load: "loadSubscriptions L s = Inr loaded"
    by (auto simp: GetAllAccessible_def res_inv)
  let ?vis = "filter (\<lambda>sub. userHasAccess sub u gs \<and> ownerInventoryVisible sub) loaded"
  have vis: "filter (\<lambda>sub. userHasAccess sub u gs \<and> (sub_Phase sub = PhaseActive \<or> sub_Phase sub = PhaseDegraded) \<and>
      \<not> subscriptionIsDeleting sub) loaded = ?vis"
    by (simp add: ownerInventoryVisible_def)
  obtain a acc where a: "authorizedModels s gs u = Inr a" and rs: "rs = SliceStable nameLess acc"
    and acc: "set acc = (\<lambda>sub. (toResponse sub)\<lparr>r_ModelRefs := response_refs sub a\<rparr>) `
      {sub \<in> set ?vis. a \<noteq> None \<longrightarrow> response_refs sub a \<noteq> []}"
  proof (cases "sel_accessChecker s")
    case None
    then have "authorizedModels s gs u = Inr None" "rs = SliceStable nameLess (map toResponse ?vis)"
      using assms by (auto simp: GetAllAccessible_def load vis authorizedModels_def Let_def split: if_splits)
    moreover have "(toResponse sub)\<lparr>r_ModelRefs := response_refs sub None\<rparr> = toResponse sub" for sub
      by (simp add: toResponse_def response_refs_def)
    ultimately show ?thesis by (intro that) auto
  next
    case (Some chk)
    then obtain A where A: "authorizedModels s gs u = Inr (Some A)"
      using assms by (auto simp: GetAllAccessible_def load authorizedModels_def Let_def bind_res_eq_Inr_iff
          split: if_splits sum.splits option.splits)
    have upd: "(toResponse sub)\<lparr>r_ModelRefs := filterAuthorizedModels (r_ModelRefs (toResponse sub)) (Some A)\<rparr> =
        (toResponse sub)\<lparr>r_ModelRefs := response_refs sub (Some A)\<rparr>" for sub
      by (simp add: toResponse_def response_refs_def filterAuthorizedModels_def)
    have "rs = SliceStable nameLess (filter (\<lambda>r. r_ModelRefs r \<noteq> [])
        (map (\<lambda>sub. (toResponse sub)\<lparr>r_ModelRefs := response_refs sub (Some A)\<rparr>) ?vis))"
      using assms by (auto simp: GetAllAccessible_def load vis Some A Let_def upd comp_def split: if_splits)
    then show ?thesis using A by (intro that) auto
  qed
  have "sorted_wrt (\<lambda>x y. r_Name x \<le> r_Name y) rs"
    using name_order.ordered_SliceStable [of acc] by (simp add: rs ordered_by_def nameLess_def not_less)
  moreover have "set rs = {(toResponse sub)\<lparr>r_ModelRefs := response_refs sub a\<rparr> | sub.
      sub \<in> set loaded \<and> userHasAccess sub u gs \<and> ownerInventoryVisible sub \<and>
      (a \<noteq> None \<longrightarrow> response_refs sub a \<noteq> [])}"
    by (auto simp: rs acc)
  ultimately show ?thesis using load a by blast
qed

section \<open>Witnesses\<close>

text \<open>
  One subscription of the group \<open>eng\<close> with one model, a policy that grants the model to the
  group, and a cached MaaSModelRef whose alias is \<open>chat\<close>. The access checker is the one of
  \<open>AuthPolicyChecker\<close>.
\<close>

definition policyChecker :: "lister \<Rightarrow> string list \<Rightarrow> string \<Rightarrow> checkerError + authSet" where
  "policyChecker l groups username =
     (case AuthorizedModels l groups username of Inl e \<Rightarrow> Inl e | Inr m \<Rightarrow> Inr (Some m))"

definition ex_grant :: jobj where
  "ex_grant = [(''spec'', JObj
     [(''modelRefs'', JArr [JObj [(''namespace'', JStr ''llm''), (''name'', JStr ''m'')]]),
      (''subjects'', JObj [(''groups'', JArr [ex_group ''eng''])])])]"

definition ex_modelRef :: jobj where
  "ex_modelRef = ex_object ''llm'' ''m'' [] [(''resolvedModelAlias'', JStr ''chat'')]"

definition ex_selector :: selector where
  "ex_selector = \<lparr>sel_lister = Inr [ex_subObject],
     sel_modelLister = Some \<lparr>ml_List = Inr [ex_modelRef], ml_Get = None\<rparr>,
     sel_accessChecker = Some (policyChecker (Some (Inr [ex_grant]))),
     sel_subjectInventory = None, sel_guardrailResolver = None,
     sel_tenantName = ''t'', sel_subscriptionNamespace = ''tn''\<rparr>"

definition ex_response :: selectResponse where
  "ex_response = (case SelectWithContext example_libs ex_selector [''eng''] ''ann'' [] ''chat'' of
     Inl _ \<Rightarrow> toResponse ex_sub | Inr r \<Rightarrow> r)"

lemma ex_response_selected:
  "SelectWithContext example_libs ex_selector [''eng''] ''ann'' [] ''chat'' = Inr ex_response"
proof -
  have "case SelectWithContext example_libs ex_selector [''eng''] ''ann'' [] ''chat'' of Inl _ \<Rightarrow> False | Inr r \<Rightarrow> True"
    by code_simp
  then show ?thesis by (auto simp: ex_response_def split: sum.splits)
qed

lemma ex_alias: "resolveModelAlias example_libs ex_selector ''chat'' = ''llm/m''"
  by code_simp

lemma ex_loaded:
  "loadSubscriptions example_libs ex_selector =
     Inr [hd (load_one example_libs (buildModelIndex example_libs ex_selector) ex_subObject)]"
proof -
  have "length (load_one example_libs (buildModelIndex example_libs ex_selector) ex_subObject) = 1"
    by code_simp
  then show ?thesis by (auto simp: loadSubscriptions_def ex_selector_def length_Suc_conv)
qed

theorem Select_access_allowed_sound_witness:
  "r_AccessAllowed ex_response \<and> r_ResolvedModel ex_response = ''llm/m'' \<and>
   (\<exists>A ref. authorizedModels ex_selector [''eng''] ''ann'' = Inr (Some A) \<and> authorizes A ref \<and>
      ''llm/m'' = mr_Namespace ref @ ''/'' @ mr_Name ref)"
proof -
  have acc: "r_AccessAllowed ex_response" and res: "r_ResolvedModel ex_response = ''llm/m''" by code_simp+
  from Select_access_allowed_sound [OF ex_response_selected acc ex_alias] res acc show ?thesis by auto
qed

definition ex_ref :: "string \<Rightarrow> string \<Rightarrow> modelRefInfo" where
  "ex_ref name alias = (parseModelRef example_libs [(''namespace'', JStr ''llm''), (''name'', JStr name)])
     \<lparr>mr_ModelName := alias\<rparr>"

definition ex_shared :: subscription where
  "ex_shared = (zeroSubscription ''gold'' ''tn'')\<lparr>sub_ModelRefs := [ex_ref ''a'' ''chat'', ex_ref ''b'' ''chat'']\<rparr>"

lemma ex_ref_simps: "mr_Namespace (ex_ref n a) = ''llm''" "mr_Name (ex_ref n a) = n" "mr_ModelName (ex_ref n a) = a"
  by (simp_all add: ex_ref_def parseModelRef_def Let_def str_field_def field_def)

theorem exact_pair_decides_witness:
  "\<not> isResolvedModelAuthorized ex_shared ''llm/a'' (Some [(''llm'', ''b'') \<mapsto> True]) \<and>
   isResolvedModelAuthorized ex_shared ''llm/b'' (Some [(''llm'', ''b'') \<mapsto> True])"
  using exact_pair_decides [of "''llm''" "ex_ref ''a'' ''chat''" ex_shared "''a''" "[(''llm'', ''b'') \<mapsto> True]"]
    exact_pair_decides [of "''llm''" "ex_ref ''b'' ''chat''" ex_shared "''b''" "[(''llm'', ''b'') \<mapsto> True]"]
  by (simp add: ex_shared_def ref_key_def ex_ref_simps map_lookup_def)

theorem ambiguous_alias_fails_closed_witness:
  "findModelRef ex_shared ''llm/chat'' = None"
  using ambiguous_alias_fails_closed [of "''llm''" "''chat''" ex_shared "ex_ref ''a'' ''chat''"]
  by (simp add: ex_shared_def ref_key_def ex_ref_simps pair_alias_def)

theorem auto_selection_unique_witness:
  "\<exists>sub a. SelectWithContext example_libs ex_selector [''eng''] ''ann'' [] ''chat'' =
     completeSelection example_libs ex_selector sub ''llm/m'' a \<and> sub_Name sub = ''gold''"
proof -
  let ?sub = "hd (load_one example_libs (buildModelIndex example_libs ex_selector) ex_subObject)"
  obtain a where a: "authorizedModels ex_selector [''eng''] ''ann'' = Inr a"
    by (simp add: ex_selector_def authorizedModels_def policyChecker_def AuthorizedModels_def)
  have "case authorizedModels ex_selector [''eng''] ''ann'' of Inl _ \<Rightarrow> False
      | Inr a \<Rightarrow> eligible ''llm/m'' ''ann'' [''eng''] a ?sub" by code_simp
  then have "filter (eligible ''llm/m'' ''ann'' [''eng''] a) [?sub] = [?sub]" by (simp add: a)
  moreover have "sub_Name ?sub = ''gold''" by code_simp
  ultimately show ?thesis
    using auto_selection_unique [OF ex_loaded a _ ex_alias] by auto
qed

definition ex_best :: selectResponse where
  "ex_best = (case SelectHighestPriority example_libs ex_selector [''eng''] ''ann'' of
     Inl _ \<Rightarrow> toResponse ex_sub | Inr r \<Rightarrow> r)"

lemma ex_best_selected: "SelectHighestPriority example_libs ex_selector [''eng''] ''ann'' = Inr ex_best"
proof -
  have "case SelectHighestPriority example_libs ex_selector [''eng''] ''ann'' of Inl _ \<Rightarrow> False | Inr r \<Rightarrow> True"
    by code_simp
  then show ?thesis by (auto simp: ex_best_def split: sum.splits)
qed

theorem SelectHighestPriority_maximal_witness:
  "r_Name ex_best = ''gold'' \<and>
   (\<exists>loaded sub. loadSubscriptions example_libs ex_selector = Inr loaded \<and> sub \<in> set loaded \<and>
      sub_Name sub = ''gold'' \<and> userHasAccess sub ''ann'' [''eng''])"
proof -
  have "r_Name ex_best = ''gold''" by code_simp
  with SelectHighestPriority_maximal [OF ex_best_selected] show ?thesis by auto
qed

definition ex_list :: "selectResponse list" where
  "ex_list = (case GetAllAccessible example_libs ex_selector [''eng''] ''ann'' of Inl _ \<Rightarrow> [] | Inr rs \<Rightarrow> rs)"

lemma ex_list_selected: "GetAllAccessible example_libs ex_selector [''eng''] ''ann'' = Inr ex_list"
proof -
  have "case GetAllAccessible example_libs ex_selector [''eng''] ''ann'' of Inl _ \<Rightarrow> False | Inr r \<Rightarrow> True"
    by code_simp
  then show ?thesis by (auto simp: ex_list_def split: sum.splits)
qed

theorem GetAllAccessible_exact_witness:
  "map r_Name ex_list = [''gold''] \<and> sorted_wrt (\<lambda>x y. r_Name x \<le> r_Name y) ex_list"
proof
  show "map r_Name ex_list = [''gold'']" by code_simp
  show "sorted_wrt (\<lambda>x y. r_Name x \<le> r_Name y) ex_list"
    using GetAllAccessible_exact [OF ex_list_selected] by auto
qed

end
