(* ===== verification/KeyService.thy ===== *)
theory KeyService
  imports KeyStorePostgres SubscriptionSelect
begin

text \<open>
  \<open>Service\<close> of \<open>maas-api/internal/api_keys/service.go\<close>: creation, validation and
  invalidation of API keys on top of a \<open>MetadataStore\<close> and a \<open>SubscriptionSelector\<close>, and
  the debouncing of \<open>last_used_at\<close> writes.

  The two interfaces are records of functions, as a Go interface value is; \<open>mock_iface\<close> and
  \<open>pg_iface\<close> are the values for the two stores. The clock, the UUID generator and the
  random bytes are arguments. Durations are \<open>int64\<close> nanoseconds: \<open>wrap64\<close> is the
  wrap-around of their multiplication. The goroutine that \<open>ValidateAPIKey\<close> starts is a
  pending write that the validation returns and \<open>finishLastUsed\<close> carries out. For its
  concurrent use the atomic actions of \<open>shouldUpdateLastUsed\<close>, \<open>clearDebounceSlot\<close> and the
  sweep on the shared \<open>sync.Map\<close> are steps of the relation \<open>debounce_step\<close>, interleaved in
  any order.
\<close>

subsection \<open>Interfaces and state\<close>

definition wrap64 :: "int \<Rightarrow> int" where
  "wrap64 n = (n + 2 ^ 63) mod 2 ^ 64 - 2 ^ 63"

record 's metadataStore =
  st_AddKey :: "time \<Rightarrow> newKey \<Rightarrow> 's \<Rightarrow> storeError option \<times> 's"
  st_Get :: "time \<Rightarrow> string \<Rightarrow> 's \<Rightarrow> (storeError + apiKey) \<times> 's"
  st_GetByHash :: "time \<Rightarrow> string \<Rightarrow> 's \<Rightarrow> (storeError + apiKey) \<times> 's"
  st_Search :: "time \<Rightarrow> string \<Rightarrow> string \<Rightarrow> searchFilters \<Rightarrow> sortParams \<Rightarrow> paginationParams \<Rightarrow> 's
                 \<Rightarrow> (storeError + paginatedResult) \<times> 's"
  st_BulkRevoke :: "time \<Rightarrow> string \<Rightarrow> string \<Rightarrow> string \<Rightarrow> bool \<Rightarrow> 's \<Rightarrow> (storeError + nat) \<times> 's"
  st_InvalidateTenant :: "time \<Rightarrow> string \<Rightarrow> 's \<Rightarrow> (storeError + nat) \<times> 's"
  st_InvalidateSubscription :: "time \<Rightarrow> string \<Rightarrow> string \<Rightarrow> 's \<Rightarrow> (storeError + nat) \<times> 's"
  st_Revoke :: "string \<Rightarrow> 's \<Rightarrow> storeError option \<times> 's"
  st_UpdateLastUsed :: "time \<Rightarrow> string \<Rightarrow> 's \<Rightarrow> storeError option \<times> 's"
  st_DeleteExpiredEphemeral :: "time \<Rightarrow> 's \<Rightarrow> (storeError + nat) \<times> 's"
  st_DeleteSoftDeleted :: "time \<Rightarrow> int \<Rightarrow> 's \<Rightarrow> (storeError + nat) \<times> 's"

definition mock_iface :: "mockStore metadataStore" where
  "mock_iface =
     \<lparr>st_AddKey = mock_AddKey, st_Get = (\<lambda>now i m. (mock_Get now i m, m)), st_GetByHash = mock_GetByHash,
      st_Search = (\<lambda>now u t f so p m. (mock_Search now u t f so p m, m)), st_BulkRevoke = mock_BulkRevoke,
      st_InvalidateTenant = mock_InvalidateTenant, st_InvalidateSubscription = mock_InvalidateSubscription,
      st_Revoke = mock_Revoke, st_UpdateLastUsed = mock_UpdateLastUsed,
      st_DeleteExpiredEphemeral = mock_DeleteExpiredEphemeral, st_DeleteSoftDeleted = mock_DeleteSoftDeleted\<rparr>"

definition pg_iface ::
    "(string \<Rightarrow> string \<Rightarrow> bool) \<Rightarrow> bool \<Rightarrow> (pool \<Rightarrow> rowsFault) \<Rightarrow> execOutcome \<Rightarrow> pgStore metadataStore" where
  "pg_iface collation cancelled faults outcome =
     \<lparr>st_AddKey = pg_AddKey outcome,
      st_Get = pg_Get cancelled (\<lambda>p. case rf_query (faults p) of Some e \<Rightarrow> Some e | None \<Rightarrow> rf_rows (faults p)),
      st_GetByHash = pg_GetByHash cancelled faults outcome,
      st_Search = (\<lambda>now u t f so p s. pg_Search collation cancelled faults now u f so p s),
      st_BulkRevoke = pg_BulkRevoke outcome, st_InvalidateTenant = pg_InvalidateTenant outcome,
      st_InvalidateSubscription = pg_InvalidateSubscription outcome, st_Revoke = pg_Revoke outcome,
      st_UpdateLastUsed = pg_UpdateLastUsed outcome,
      st_DeleteExpiredEphemeral = pg_DeleteExpiredEphemeral outcome, st_DeleteSoftDeleted = pg_DeleteSoftDeleted outcome\<rparr>"

record config =
  cfg_TenantName :: string
  cfg_APIKeyMaxExpirationDays :: int
  cfg_LastUsedDebounceSecs :: int
  cfg_APIKeyDeletionRetentionDays :: int

record subscriptionSelector =
  ss_Select :: "string list \<Rightarrow> string \<Rightarrow> string \<Rightarrow> string \<Rightarrow> selectError + selectResponse"
  ss_SelectHighestPriority :: "string list \<Rightarrow> string \<Rightarrow> selectError + selectResponse"

record 's service =
  sv_store :: 's
  sv_iface :: "'s metadataStore"
  sv_config :: "config option"
  sv_subSelector :: subscriptionSelector
  sv_lastUsedDebounce :: "(string \<times> time) list"
  sv_lastUsedDebounceTTL :: int

definition DefaultAPIKeyMaxExpirationDays :: int where
  "DefaultAPIKeyMaxExpirationDays = 90"

definition DefaultEphemeralKeyMaxExpiration :: int where
  "DefaultEphemeralKeyMaxExpiration = Hour"

datatype serviceError =
    ErrInvalidGroupName string
  | ErrExpirationNotPositive
  | ErrExpirationExceedsMax
  | GenerateFailed keyError
  | SelectFailed selectError
  | StoreFailed storeError
  | InvalidKeyIDFormat
  | ErrTenantRequired
  | TenantMismatch
  | SubscriptionIsRequired
  | UsernameOrSubscriptionRequired

record createAPIKeyResponse =
  cr_Key :: string
  cr_KeyPrefix :: string
  cr_ID :: string
  cr_Name :: string
  cr_Subscription :: string
  cr_CreatedAt :: int
  cr_ExpiresAt :: int
  cr_Ephemeral :: bool
  cr_Labels :: labels

record validationResult =
  vr_Valid :: bool
  vr_UserID :: string
  vr_Username :: string
  vr_KeyID :: string
  vr_KeyName :: string
  vr_Groups :: "string list"
  vr_GroupsJSON :: string
  vr_Subscription :: string
  vr_Tenant :: string
  vr_Reason :: string

subsection \<open>Operations\<close>

definition GetTenantName :: "'s service \<Rightarrow> string" where
  "GetTenantName s = (case sv_config s of Some c \<Rightarrow> cfg_TenantName c | None \<Rightarrow> [])"

definition GetMaxExpirationDays :: "'s service \<Rightarrow> int" where
  "GetMaxExpirationDays s =
     (case sv_config s of
        Some c \<Rightarrow> if cfg_APIKeyMaxExpirationDays c > 0 then cfg_APIKeyMaxExpirationDays c
                  else DefaultAPIKeyMaxExpirationDays
      | None \<Rightarrow> DefaultAPIKeyMaxExpirationDays)"

definition NewServiceWithLogger ::
    "'s \<Rightarrow> 's metadataStore \<Rightarrow> config option \<Rightarrow> subscriptionSelector \<Rightarrow> 's service" where
  "NewServiceWithLogger store iface cfg sub =
     (let debounceTTL = (case cfg of
            Some c \<Rightarrow> if cfg_LastUsedDebounceSecs c \<ge> 0 then wrap64 (cfg_LastUsedDebounceSecs c * Second) else 60 * Second
          | None \<Rightarrow> 60 * Second)
      in \<lparr>sv_store = store, sv_iface = iface, sv_config = cfg, sv_subSelector = sub,
          sv_lastUsedDebounce = [], sv_lastUsedDebounceTTL = debounceTTL\<rparr>)"

definition validateGroupNames :: "string list \<Rightarrow> serviceError option" where
  "validateGroupNames groups = map_option ErrInvalidGroupName (find (\<lambda>g. \<not> Valid g) groups)"

text \<open>\<open>time.Duration(maxDays) * 24 * time.Hour\<close>.\<close>

definition max_duration :: "int \<Rightarrow> int" where
  "max_duration maxDays = wrap64 (wrap64 (maxDays * 24) * Hour)"

definition checked_expiry :: "int \<Rightarrow> bool \<Rightarrow> int option \<Rightarrow> serviceError + int" where
  "checked_expiry maxDays ephemeral expiresIn =
     (let maxRegularDuration = max_duration maxDays;
          d = (case expiresIn of Some d \<Rightarrow> d
               | None \<Rightarrow> if ephemeral then DefaultEphemeralKeyMaxExpiration else maxRegularDuration)
      in if d \<le> 0 then Inl ErrExpirationNotPositive
         else if ephemeral then
           (if d > DefaultEphemeralKeyMaxExpiration then Inl ErrExpirationExceedsMax else Inr d)
         else if d > maxRegularDuration then Inl ErrExpirationExceedsMax
         else Inr d)"

record createRequest =
  rq_username :: string
  rq_userGroups :: "string list"
  rq_name :: string
  rq_description :: string
  rq_expiresIn :: "int option"
  rq_ephemeral :: bool
  rq_requestedSubscription :: string
  rq_tenant :: string
  rq_labels :: labels

text \<open>What the outside world provides to a creation: the clock, random bytes, a UUID.\<close>

record creationInput =
  ci_now :: time
  ci_readKeyID :: "string + 8 word list"
  ci_readSecret :: "string + 8 word list"
  ci_uuid :: string

definition CreateAPIKey ::
    "libs \<Rightarrow> creationInput \<Rightarrow> createRequest \<Rightarrow> 's service \<Rightarrow> (serviceError + createAPIKeyResponse) \<times> 's service" where
  "CreateAPIKey L inp q s =
     (case validateGroupNames (rq_userGroups q) of Some e \<Rightarrow> (Inl e, s)
      | None \<Rightarrow>
        (case checked_expiry (GetMaxExpirationDays s) (rq_ephemeral q) (rq_expiresIn q) of Inl e \<Rightarrow> (Inl e, s)
         | Inr expiresIn \<Rightarrow>
           (let expiresAt = ci_now inp + expiresIn in
            case GenerateAPIKey L (ci_readKeyID inp) (ci_readSecret inp) of Inl e \<Rightarrow> (Inl (GenerateFailed e), s)
            | Inr (plaintext, hash, prefix) \<Rightarrow>
              (case (if rq_requestedSubscription q \<noteq> []
                     then ss_Select (sv_subSelector s) (rq_userGroups q) (rq_username q) (rq_requestedSubscription q) []
                     else ss_SelectHighestPriority (sv_subSelector s) (rq_userGroups q) (rq_username q)) of
                 Inl e \<Rightarrow> (Inl (SelectFailed e), s)
               | Inr subResp \<Rightarrow>
                 (let n = \<lparr>nk_username = rq_username q, nk_keyID = ci_uuid inp, nk_keyHash = hash, nk_name = rq_name q,
                           nk_description = rq_description q, nk_userGroups = rq_userGroups q,
                           nk_subscription = r_Name subResp, nk_tenant = rq_tenant q, nk_expiresAt = Some expiresAt,
                           nk_ephemeral = rq_ephemeral q, nk_labels = rq_labels q\<rparr>
                  in case st_AddKey (sv_iface s) (ci_now inp) n (sv_store s) of
                       (Some e, st) \<Rightarrow> (Inl (StoreFailed e), s\<lparr>sv_store := st\<rparr>)
                     | (None, st) \<Rightarrow>
                       (Inr \<lparr>cr_Key = plaintext, cr_KeyPrefix = prefix, cr_ID = ci_uuid inp, cr_Name = rq_name q,
                             cr_Subscription = r_Name subResp, cr_CreatedAt = rfc3339 (ci_now inp),
                             cr_ExpiresAt = rfc3339 expiresAt, cr_Ephemeral = rq_ephemeral q, cr_Labels = rq_labels q\<rparr>,
                        s\<lparr>sv_store := st\<rparr>))))))"

definition GetAPIKey :: "time \<Rightarrow> string \<Rightarrow> 's service \<Rightarrow> (storeError + apiKey) \<times> 's service" where
  "GetAPIKey now i s =
     (case st_Get (sv_iface s) now i (sv_store s) of (r, st) \<Rightarrow> (r, s\<lparr>sv_store := st\<rparr>))"

text \<open>The debounce map, used by one goroutine: the atomic actions follow each other.\<close>

definition shouldUpdateLastUsed :: "time \<Rightarrow> string \<Rightarrow> 's service \<Rightarrow> (bool \<times> time) \<times> 's service" where
  "shouldUpdateLastUsed now keyID s =
     (if sv_lastUsedDebounceTTL s = 0 then ((True, 0), s)
      else
        (case map_of (sv_lastUsedDebounce s) keyID of
           None \<Rightarrow> ((True, now), s\<lparr>sv_lastUsedDebounce := AList.update keyID now (sv_lastUsedDebounce s)\<rparr>)
         | Some lastTime \<Rightarrow>
           if now - lastTime \<ge> sv_lastUsedDebounceTTL s
           then ((True, now), s\<lparr>sv_lastUsedDebounce := AList.update keyID now (sv_lastUsedDebounce s)\<rparr>)
           else ((False, 0), s)))"

definition clearDebounceSlot :: "string \<Rightarrow> time \<Rightarrow> 's service \<Rightarrow> 's service" where
  "clearDebounceSlot keyID slotTime s =
     (if sv_lastUsedDebounceTTL s = 0 then s
      else if map_of (sv_lastUsedDebounce s) keyID = Some slotTime
      then s\<lparr>sv_lastUsedDebounce := AList.delete keyID (sv_lastUsedDebounce s)\<rparr>
      else s)"

text \<open>One sweep of the background goroutine.\<close>

definition debounce_sweep :: "time \<Rightarrow> 's service \<Rightarrow> 's service" where
  "debounce_sweep now s =
     (if sv_lastUsedDebounceTTL s = 0 then s
      else s\<lparr>sv_lastUsedDebounce :=
               filter (\<lambda>(k, t). \<not> t < now - sv_lastUsedDebounceTTL s) (sv_lastUsedDebounce s)\<rparr>)"

definition invalid_result :: "string \<Rightarrow> validationResult" where
  "invalid_result reason =
     \<lparr>vr_Valid = False, vr_UserID = [], vr_Username = [], vr_KeyID = [], vr_KeyName = [], vr_Groups = [],
      vr_GroupsJSON = [], vr_Subscription = [], vr_Tenant = [], vr_Reason = reason\<rparr>"

text \<open>
  The result, the service, and the write of \<open>last_used_at\<close> left to do. \<open>marshal\<close> is the
  JSON encoding of a list of strings, which does not fail.
\<close>

definition ValidateAPIKey ::
    "libs \<Rightarrow> (string list \<Rightarrow> string) \<Rightarrow> time \<Rightarrow> string \<Rightarrow> 's service
     \<Rightarrow> (serviceError + validationResult) \<times> 's service \<times> (string \<times> time) option" where
  "ValidateAPIKey L marshal now key s =
     (if \<not> IsValidKeyFormat key then (Inr (invalid_result ''invalid key format''), s, None)
      else
        (let hash = HashAPIKey L key in
         if hash = [] then (Inr (invalid_result ''invalid key format''), s, None)
         else
           (case st_GetByHash (sv_iface s) now hash (sv_store s) of
              (Inl e, st) \<Rightarrow>
                (let s = s\<lparr>sv_store := st\<rparr> in
                 if e = ErrKeyNotFound then (Inr (invalid_result ''key not found''), s, None)
                 else if e = ErrInvalidKey then (Inr (invalid_result ''key revoked or expired''), s, None)
                 else (Inl (StoreFailed e), s, None))
            | (Inr metadata, st) \<Rightarrow>
                (case shouldUpdateLastUsed now (ak_ID metadata) (s\<lparr>sv_store := st\<rparr>) of
                   ((proceed, slot), s) \<Rightarrow>
                   (let pending = (if proceed then Some (ak_ID metadata, slot) else None);
                        groups = ak_Groups metadata
                    in if TrimSpace (ak_Subscription metadata) = []
                       then (Inr (invalid_result ''key has no subscription bound''), s, pending)
                       else if uuidParse L (ak_ID metadata) = None then (Inl InvalidKeyIDFormat, s, pending)
                       else
                         (Inr \<lparr>vr_Valid = True, vr_UserID = ak_ID metadata, vr_Username = ak_Username metadata,
                               vr_KeyID = ak_ID metadata, vr_KeyName = ak_Name metadata, vr_Groups = groups,
                               vr_GroupsJSON = marshal groups, vr_Subscription = ak_Subscription metadata,
                               vr_Tenant = ak_Tenant metadata, vr_Reason = []\<rparr>, s, pending))))))"

text \<open>The goroutine: it writes, and gives its slot back if the write fails.\<close>

definition finishLastUsed :: "time \<Rightarrow> string \<times> time \<Rightarrow> 's service \<Rightarrow> 's service" where
  "finishLastUsed now p s =
     (case p of (keyID, slot) \<Rightarrow>
        (case st_UpdateLastUsed (sv_iface s) now keyID (sv_store s) of
           (None, st) \<Rightarrow> s\<lparr>sv_store := st\<rparr>
         | (Some e, st) \<Rightarrow> clearDebounceSlot keyID slot (s\<lparr>sv_store := st\<rparr>)))"

definition on_store ::
    "('s \<Rightarrow> (storeError + 'a) \<times> 's) \<Rightarrow> 's service \<Rightarrow> (serviceError + 'a) \<times> 's service" where
  "on_store f s =
     (case f (sv_store s) of
        (Inl e, st) \<Rightarrow> (Inl (StoreFailed e), s\<lparr>sv_store := st\<rparr>) | (Inr x, st) \<Rightarrow> (Inr x, s\<lparr>sv_store := st\<rparr>))"

definition svc_RevokeAPIKey :: "string \<Rightarrow> 's service \<Rightarrow> storeError option \<times> 's service" where
  "svc_RevokeAPIKey keyID s =
     (case st_Revoke (sv_iface s) keyID (sv_store s) of (r, st) \<Rightarrow> (r, s\<lparr>sv_store := st\<rparr>))"

definition svc_Search ::
    "time \<Rightarrow> string \<Rightarrow> string \<Rightarrow> searchFilters \<Rightarrow> sortParams \<Rightarrow> paginationParams \<Rightarrow> 's service
     \<Rightarrow> (serviceError + paginatedResult) \<times> 's service" where
  "svc_Search now username tenant filters sorting pagination s =
     on_store (st_Search (sv_iface s) now username tenant filters sorting pagination) s"

definition svc_BulkRevokeAPIKeys ::
    "time \<Rightarrow> string \<Rightarrow> string \<Rightarrow> string \<Rightarrow> bool \<Rightarrow> 's service \<Rightarrow> (serviceError + nat) \<times> 's service" where
  "svc_BulkRevokeAPIKeys now username subscription tenant dryRun s =
     (if username = [] \<and> subscription = [] then (Inl UsernameOrSubscriptionRequired, s)
      else on_store (st_BulkRevoke (sv_iface s) now username subscription tenant dryRun) s)"

definition tenant_mismatch :: "string \<Rightarrow> 's service \<Rightarrow> bool" where
  "tenant_mismatch tenant s \<longleftrightarrow> GetTenantName s \<noteq> [] \<and> tenant \<noteq> GetTenantName s"

definition svc_RevokeTenantAPIKeys :: "time \<Rightarrow> string \<Rightarrow> 's service \<Rightarrow> (serviceError + nat) \<times> 's service" where
  "svc_RevokeTenantAPIKeys now tenant0 s =
     (let tenant = TrimSpace tenant0 in
      if tenant = [] then (Inl ErrTenantRequired, s)
      else if tenant_mismatch tenant s then (Inl TenantMismatch, s)
      else on_store (st_InvalidateTenant (sv_iface s) now tenant) s)"

definition svc_RevokeSubscriptionAPIKeys ::
    "time \<Rightarrow> string \<Rightarrow> string \<Rightarrow> 's service \<Rightarrow> (serviceError + nat) \<times> 's service" where
  "svc_RevokeSubscriptionAPIKeys now tenant0 subscription0 s =
     (let tenant = TrimSpace tenant0; subscription = TrimSpace subscription0 in
      if tenant = [] then (Inl ErrTenantRequired, s)
      else if subscription = [] then (Inl SubscriptionIsRequired, s)
      else if tenant_mismatch tenant s then (Inl TenantMismatch, s)
      else on_store (st_InvalidateSubscription (sv_iface s) now tenant subscription) s)"

definition svc_CleanupExpiredEphemeral :: "time \<Rightarrow> 's service \<Rightarrow> (serviceError + nat) \<times> 's service" where
  "svc_CleanupExpiredEphemeral now s = on_store (st_DeleteExpiredEphemeral (sv_iface s) now) s"

definition retention :: "'s service \<Rightarrow> int" where
  "retention s =
     (let retentionDays = (case sv_config s of
            Some c \<Rightarrow> if cfg_APIKeyDeletionRetentionDays c > 0 then cfg_APIKeyDeletionRetentionDays c else 90
          | None \<Rightarrow> 90)
      in wrap64 (wrap64 (retentionDays * 24) * Hour))"

definition svc_CleanupSoftDeleted :: "time \<Rightarrow> 's service \<Rightarrow> (serviceError + nat) \<times> 's service" where
  "svc_CleanupSoftDeleted now s = on_store (st_DeleteSoftDeleted (sv_iface s) now (retention s)) s"

subsection \<open>Expiration\<close>

lemma wrap64_id: "- (2 ^ 63) \<le> n \<Longrightarrow> n < 2 ^ 63 \<Longrightarrow> wrap64 n = n"
  by (simp add: wrap64_def)

lemma max_duration_exact:
  assumes "1 \<le> days" and "days \<le> 106751"
  shows "max_duration days = days * 24 * Hour"
proof -
  have "wrap64 (days * 24) = days * 24" using assms by (intro wrap64_id) simp_all
  moreover have "wrap64 (days * 24 * Hour) = days * 24 * Hour"
    using assms by (intro wrap64_id) (simp_all add: Hour_def Minute_def Second_def)
  ultimately show ?thesis by (simp add: max_duration_def)
qed

text \<open>
  C31. Expiration of a new key. For every configured maximum of at least one day and at most
  106751 days a lifetime is accepted exactly if it is the requested one, or the default
  where none is requested, is positive and is within the maximum: one hour for an ephemeral
  key, the configured days for another; whatever else is an error. With a maximum of one day
  more the product of the days in nanoseconds no longer fits \<open>int64\<close>: it wraps to a negative
  number, and every request for a regular key is refused, whatever lifetime it asks for and
  also when it asks for none; ephemeral keys are not affected.
\<close>

theorem checked_expiry_bounds:
  "(1 \<le> days \<and> days \<le> 106751 \<longrightarrow>
      (checked_expiry days ephemeral expiresIn = Inr d \<longleftrightarrow>
         d = (case expiresIn of Some x \<Rightarrow> x | None \<Rightarrow> if ephemeral then Hour else days * 24 * Hour) \<and>
         0 < d \<and> d \<le> (if ephemeral then Hour else days * 24 * Hour))) \<and>
   (\<forall>x. checked_expiry 106752 False x =
      Inl (if \<exists>n>0. x = Some n then ErrExpirationExceedsMax else ErrExpirationNotPositive)) \<and>
   (\<forall>x. checked_expiry 106752 True x = checked_expiry 106751 True x)"
proof -
  have neg: "max_duration 106752 < 0"
    by (simp add: max_duration_def wrap64_def Hour_def Minute_def Second_def)
  have "checked_expiry 106752 False x =
      Inl (if \<exists>n>0. x = Some n then ErrExpirationExceedsMax else ErrExpirationNotPositive)" for x
    using neg by (cases x) (auto simp: checked_expiry_def Let_def)
  moreover have "checked_expiry 106752 True x = checked_expiry 106751 True x" for x
    by (cases x) (simp_all add: checked_expiry_def Let_def)
  moreover have "1 \<le> days \<and> days \<le> 106751 \<longrightarrow>
      (checked_expiry days ephemeral expiresIn = Inr d \<longleftrightarrow>
         d = (case expiresIn of Some x \<Rightarrow> x | None \<Rightarrow> if ephemeral then Hour else days * 24 * Hour) \<and>
         0 < d \<and> d \<le> (if ephemeral then Hour else days * 24 * Hour))"
    by (auto simp: checked_expiry_def Let_def max_duration_exact DefaultEphemeralKeyMaxExpiration_def
        split: option.splits if_splits)
  ultimately show ?thesis by blast
qed

theorem checked_expiry_bounds_witness:
  "checked_expiry 90 False None = Inr (90 * 24 * Hour) \<and> checked_expiry 90 True (Some (2 * Hour)) \<noteq> Inr (2 * Hour)"
  using checked_expiry_bounds [of 90 False None "90 * 24 * Hour"] checked_expiry_bounds [of 90 True "Some (2 * Hour)" "2 * Hour"]
  by (simp add: Hour_def Minute_def Second_def)

subsection \<open>From creation to validation\<close>

lemma CreateAPIKey_Inr:
  assumes "CreateAPIKey L inp q s = (Inr resp, s')"
  obtains d a b subResp st where
    "checked_expiry (GetMaxExpirationDays s) (rq_ephemeral q) (rq_expiresIn q) = Inr d"
    and "ci_readKeyID inp = Inr a" and "ci_readSecret inp = Inr b"
    and "\<forall>g\<in>set (rq_userGroups q). Valid g"
    and "cr_Key resp = KeyPrefix @ encodeBase62 a @ [KeyIDSeparator] @ encodeBase62 b"
    and "cr_ID resp = ci_uuid inp" and "cr_Subscription resp = r_Name subResp"
    and "cr_ExpiresAt resp = rfc3339 (ci_now inp + d)"
    and "(if rq_requestedSubscription q \<noteq> []
          then ss_Select (sv_subSelector s) (rq_userGroups q) (rq_username q) (rq_requestedSubscription q) []
          else ss_SelectHighestPriority (sv_subSelector s) (rq_userGroups q) (rq_username q)) = Inr subResp"
    and "st_AddKey (sv_iface s) (ci_now inp)
           \<lparr>nk_username = rq_username q, nk_keyID = ci_uuid inp,
            nk_keyHash = hashWithSalt L (encodeBase62 a) (encodeBase62 b), nk_name = rq_name q,
            nk_description = rq_description q, nk_userGroups = rq_userGroups q,
            nk_subscription = r_Name subResp, nk_tenant = rq_tenant q, nk_expiresAt = Some (ci_now inp + d),
            nk_ephemeral = rq_ephemeral q, nk_labels = rq_labels q\<rparr> (sv_store s) = (None, st)"
    and "s' = s\<lparr>sv_store := st\<rparr>"
proof -
  have groups: "\<forall>g\<in>set gs. Valid g" if "validateGroupNames gs = None" for gs
    using that by (auto simp: validateGroupNames_def find_None_iff_all)
  show thesis
    using assms that
    by (auto simp: CreateAPIKey_def Let_def GenerateAPIKey_def groups
        split: option.splits sum.splits if_splits prod.splits)
qed

lemma pg_AddKey_None:
  assumes "pg_AddKey Executed now n st0 = (None, st)"
  shows "pg_writeDB st = pg_writeDB st0 @ [new_row now n]" "\<not> violates (new_row now n) (pg_writeDB st0)"
    "pg_readDB st = pg_readDB st0" "pg_tenantName st = nk_tenant n" "nk_tenant n = pg_tenantName st0"
  using assms by (auto simp: pg_AddKey_def Let_def exec_def split: if_splits)

text \<open>Right after an insertion the lookup by its hash finds the new row and nothing else.\<close>

lemma lookup_after_insert:
  assumes "pg_AddKey Executed now n st0 = (None, st)" and "pg_readDB st0 = None"
  shows "hash_rows (nk_keyHash n) (nk_tenant n) (pool_rows ReadPool st) = [new_row now n]"
proof -
  have "hash_rows (nk_keyHash n) (nk_tenant n) (pg_writeDB st0) = []"
    using pg_AddKey_None(2) [OF assms(1)] by (auto simp: violates_def hash_rows_def filter_empty_conv)
  then show ?thesis
    using pg_AddKey_None [OF assms(1)] assms(2) by (simp add: pool_rows_def hash_rows_def)
qed

lemma pg_GetByHash_direct:
  assumes "pg_readDB st = None"
  shows "pg_GetByHash c (\<lambda>_. no_fault) outcome now h st =
    consume_hash outcome now (hash_rows h (pg_tenantName st) (pool_rows ReadPool st))
      (recordQuery ''get_by_hash'' ''write'' st)"
  using assms
  by (simp add: pg_GetByHash_def queryReadRowsWithFallback_def readWithFallback_def hasReadReplica_def no_fault_def
      case_prod_beta)

lemma consume_new_row:
  "fst (consume_hash outcome now [new_row now0 n] st) =
     (case nk_expiresAt n of
        Some t \<Rightarrow> if now > timestamptz t then Inl ErrInvalidKey
                  else Inr ((scan_key StatusActive (new_row now0 n))\<lparr>ak_Groups := nk_userGroups n, ak_CreationDate := None,
                        ak_ExpirationDate := None, ak_Labels := []\<rparr>)
      | None \<Rightarrow> Inr ((scan_key StatusActive (new_row now0 n))\<lparr>ak_Groups := nk_userGroups n, ak_CreationDate := None,
                        ak_ExpirationDate := None, ak_Labels := []\<rparr>))"
  by (auto simp: consume_hash_def Let_def new_row_def split: option.splits)

lemma ValidateAPIKey_fst:
  assumes "IsValidKeyFormat key" and "HashAPIKey L key \<noteq> []"
    and "fst (st_GetByHash (sv_iface s) now (HashAPIKey L key) (sv_store s)) = r"
  shows "fst (ValidateAPIKey L marshal now key s) =
    (case r of
       Inl e \<Rightarrow> if e = ErrKeyNotFound then Inr (invalid_result ''key not found'')
                else if e = ErrInvalidKey then Inr (invalid_result ''key revoked or expired'')
                else Inl (StoreFailed e)
     | Inr k \<Rightarrow> if TrimSpace (ak_Subscription k) = [] then Inr (invalid_result ''key has no subscription bound'')
                else if uuidParse L (ak_ID k) = None then Inl InvalidKeyIDFormat
                else Inr \<lparr>vr_Valid = True, vr_UserID = ak_ID k, vr_Username = ak_Username k, vr_KeyID = ak_ID k,
                          vr_KeyName = ak_Name k, vr_Groups = ak_Groups k, vr_GroupsJSON = marshal (ak_Groups k),
                          vr_Subscription = ak_Subscription k, vr_Tenant = ak_Tenant k, vr_Reason = []\<rparr>)"
  using assms by (auto simp: ValidateAPIKey_def Let_def case_prod_beta split: sum.splits prod.splits)

definition selector_iface :: "libs \<Rightarrow> selector \<Rightarrow> subscriptionSelector" where
  "selector_iface L sel = \<lparr>ss_Select = Select L sel, ss_SelectHighestPriority = SelectHighestPriority L sel\<rparr>"

text \<open>
  C30. From creation to validation. Suppose the service runs on the Postgres store without
  a replica, the database answers, and creating a key has succeeded. Then the key that the
  response shows once, validated on the state that the creation leaves (no revocation or
  invalidation in between), is accepted until its expiration, as the user, with
  the groups, the tenant and the identifier it was created for, bound to the subscription
  the selector chose; from then on it is reported as revoked or expired. The hypotheses on
  the libraries: a SHA-256 digest in hex is not empty, the generator returns a
  parseable UUID; and the chosen subscription has a name that is not blank.
\<close>

theorem created_key_validates:
  assumes "sv_iface s = pg_iface collation cancelled (\<lambda>_. no_fault) Executed"
    and "pg_readDB (sv_store s) = None"
    and "CreateAPIKey L inp q s = (Inr resp, s')"
    and "\<And>x. sha256hex L x \<noteq> []" and "uuidParse L (ci_uuid inp) \<noteq> None"
    and "TrimSpace (cr_Subscription resp) \<noteq> []"
  shows "\<exists>d r. checked_expiry (GetMaxExpirationDays s) (rq_ephemeral q) (rq_expiresIn q) = Inr d \<and>
      cr_ExpiresAt resp = rfc3339 (ci_now inp + d) \<and> cr_Subscription resp = r_Name r \<and>
      (if rq_requestedSubscription q \<noteq> []
       then ss_Select (sv_subSelector s) (rq_userGroups q) (rq_username q) (rq_requestedSubscription q) []
       else ss_SelectHighestPriority (sv_subSelector s) (rq_userGroups q) (rq_username q)) = Inr r \<and>
      (if now \<le> timestamptz (ci_now inp + d)
       then fst (ValidateAPIKey L marshal now (cr_Key resp) s') =
         Inr \<lparr>vr_Valid = True, vr_UserID = cr_ID resp, vr_Username = rq_username q, vr_KeyID = cr_ID resp,
              vr_KeyName = rq_name q, vr_Groups = rq_userGroups q, vr_GroupsJSON = marshal (rq_userGroups q),
              vr_Subscription = cr_Subscription resp, vr_Tenant = rq_tenant q, vr_Reason = []\<rparr>
       else fst (ValidateAPIKey L marshal now (cr_Key resp) s') = Inr (invalid_result ''key revoked or expired''))"
  using assms(3)
proof (rule CreateAPIKey_Inr)
  fix d a b st and subResp :: selectResponse
  define n where "n = \<lparr>nk_username = rq_username q, nk_keyID = ci_uuid inp,
      nk_keyHash = hashWithSalt L (encodeBase62 a) (encodeBase62 b), nk_name = rq_name q,
      nk_description = rq_description q, nk_userGroups = rq_userGroups q,
      nk_subscription = r_Name subResp, nk_tenant = rq_tenant q, nk_expiresAt = Some (ci_now inp + d),
      nk_ephemeral = rq_ephemeral q, nk_labels = rq_labels q\<rparr>"
  assume d: "checked_expiry (GetMaxExpirationDays s) (rq_ephemeral q) (rq_expiresIn q) = Inr d"
    and key: "cr_Key resp = KeyPrefix @ encodeBase62 a @ [KeyIDSeparator] @ encodeBase62 b"
    and resp: "cr_ID resp = ci_uuid inp" "cr_Subscription resp = r_Name subResp"
      "cr_ExpiresAt resp = rfc3339 (ci_now inp + d)"
    and sel: "(if rq_requestedSubscription q \<noteq> []
       then ss_Select (sv_subSelector s) (rq_userGroups q) (rq_username q) (rq_requestedSubscription q) []
       else ss_SelectHighestPriority (sv_subSelector s) (rq_userGroups q) (rq_username q)) = Inr subResp"
    and "st_AddKey (sv_iface s) (ci_now inp)
           \<lparr>nk_username = rq_username q, nk_keyID = ci_uuid inp,
            nk_keyHash = hashWithSalt L (encodeBase62 a) (encodeBase62 b), nk_name = rq_name q,
            nk_description = rq_description q, nk_userGroups = rq_userGroups q,
            nk_subscription = r_Name subResp, nk_tenant = rq_tenant q, nk_expiresAt = Some (ci_now inp + d),
            nk_ephemeral = rq_ephemeral q, nk_labels = rq_labels q\<rparr> (sv_store s) = (None, st)"
    and s': "s' = s\<lparr>sv_store := st\<rparr>"
  then have add: "pg_AddKey Executed (ci_now inp) n (sv_store s) = (None, st)"
    using assms(1) by (simp add: pg_iface_def n_def)
  have parse: "ParseAPIKey (cr_Key resp) = Inr (encodeBase62 a, encodeBase62 b)"
    unfolding key by (rule generated_key_parses)
  then have fmt: "IsValidKeyFormat (cr_Key resp)" by (auto simp: IsValidKeyFormat_iff encodeBase62_base62)
  have hash: "HashAPIKey L (cr_Key resp) = nk_keyHash n" using parse by (simp add: HashAPIKey_def n_def)
  have nonempty: "HashAPIKey L (cr_Key resp) \<noteq> []" using parse assms(4) by (simp add: HashAPIKey_def hashWithSalt_def)
  have read: "pg_readDB st = None" and tn: "pg_tenantName st = nk_tenant n"
    using pg_AddKey_None [OF add] assms(2) by simp_all
  let ?k = "(scan_key StatusActive (new_row (ci_now inp) n))\<lparr>ak_Groups := nk_userGroups n, ak_CreationDate := None,
      ak_ExpirationDate := None, ak_Labels := []\<rparr>"
  have "fst (st_GetByHash (sv_iface s') now (HashAPIKey L (cr_Key resp)) (sv_store s')) =
      (if now > timestamptz (ci_now inp + d) then Inl ErrInvalidKey else Inr ?k)"
    using lookup_after_insert [OF add assms(2)]
    by (simp add: s' assms(1) pg_iface_def pg_GetByHash_direct [OF read] tn hash consume_new_row) (simp add: n_def)
  from ValidateAPIKey_fst [OF fmt nonempty this, of marshal]
  have "if now \<le> timestamptz (ci_now inp + d)
      then fst (ValidateAPIKey L marshal now (cr_Key resp) s') =
         Inr \<lparr>vr_Valid = True, vr_UserID = cr_ID resp, vr_Username = rq_username q, vr_KeyID = cr_ID resp,
              vr_KeyName = rq_name q, vr_Groups = rq_userGroups q, vr_GroupsJSON = marshal (rq_userGroups q),
              vr_Subscription = cr_Subscription resp, vr_Tenant = rq_tenant q, vr_Reason = []\<rparr>
      else fst (ValidateAPIKey L marshal now (cr_Key resp) s') = Inr (invalid_result ''key revoked or expired'')"
    using assms(5,6) resp by (auto simp: n_def new_row_def scan_key_def)
  then show ?thesis using d resp sel by blast
qed

definition ex_service :: "pgStore service" where
  "ex_service = NewServiceWithLogger (NewPostgresStore [] ''t'') (pg_iface (<) False (\<lambda>_. no_fault) Executed) None
     (selector_iface example_libs ex_selector)"

definition ex_request :: createRequest where
  "ex_request = \<lparr>rq_username = ''ann'', rq_userGroups = [''eng''], rq_name = ''laptop'', rq_description = [],
     rq_expiresIn = None, rq_ephemeral = False, rq_requestedSubscription = [], rq_tenant = ''t'', rq_labels = []\<rparr>"

definition ex_input :: creationInput where
  "ex_input = \<lparr>ci_now = 5000, ci_readKeyID = Inr [7], ci_readSecret = Inr [9], ci_uuid = ''u1''\<rparr>"

lemma ex_best_name: "r_Name ex_best = ''gold''"
  by code_simp

theorem created_key_validates_witness:
  "\<exists>resp s'. CreateAPIKey example_libs ex_input ex_request ex_service = (Inr resp, s') \<and>
     (\<exists>v. fst (ValidateAPIKey example_libs concat 6000 (cr_Key resp) s') = Inr v \<and> vr_Valid v \<and>
          vr_Username v = ''ann'' \<and> vr_Subscription v = ''gold'')"
proof -
  let ?c = "CreateAPIKey example_libs ex_input ex_request ex_service"
  have "Valid ''eng''" by code_simp
  moreover have exp: "checked_expiry 90 False None = Inr (90 * 24 * Hour)"
    by (simp add: checked_expiry_def max_duration_exact Hour_def Minute_def Second_def)
  moreover have "sha256hex example_libs x = ''h'' @ x" for x by (simp add: example_libs_def)
  ultimately have "\<exists>resp s'. ?c = (Inr resp, s') \<and> cr_Subscription resp = ''gold''"
    by (simp add: CreateAPIKey_def ex_input_def ex_request_def ex_service_def NewServiceWithLogger_def
        validateGroupNames_def GetMaxExpirationDays_def DefaultAPIKeyMaxExpirationDays_def GenerateAPIKey_def Let_def
        selector_iface_def ex_best_selected ex_best_name pg_iface_def pg_AddKey_def NewPostgresStore_def
        violates_def exec_def hashWithSalt_def)
  then obtain resp s' where c: "?c = (Inr resp, s')" and sub: "cr_Subscription resp = ''gold''" by blast
  have "sv_iface ex_service = pg_iface (<) False (\<lambda>_. no_fault) Executed" "pg_readDB (sv_store ex_service) = None"
    by (simp_all add: ex_service_def NewServiceWithLogger_def NewPostgresStore_def)
  moreover have "sha256hex example_libs x \<noteq> []" "uuidParse example_libs (ci_uuid ex_input) \<noteq> None" for x
    by (simp_all add: example_libs_def ex_input_def)
  moreover have "TrimSpace (cr_Subscription resp) \<noteq> []" unfolding sub by code_simp
  ultimately obtain d where d: "checked_expiry (GetMaxExpirationDays ex_service) (rq_ephemeral ex_request) (rq_expiresIn ex_request) = Inr d"
    and v: "if 6000 \<le> timestamptz (ci_now ex_input + d) then fst (ValidateAPIKey example_libs concat 6000 (cr_Key resp) s') =
         Inr \<lparr>vr_Valid = True, vr_UserID = cr_ID resp, vr_Username = rq_username ex_request, vr_KeyID = cr_ID resp,
              vr_KeyName = rq_name ex_request, vr_Groups = rq_userGroups ex_request, vr_GroupsJSON = concat (rq_userGroups ex_request),
              vr_Subscription = cr_Subscription resp, vr_Tenant = rq_tenant ex_request, vr_Reason = []\<rparr>
       else fst (ValidateAPIKey example_libs concat 6000 (cr_Key resp) s') = Inr (invalid_result ''key revoked or expired'')"
    using created_key_validates [OF _ _ c, of "(<)" False 6000 concat] by blast
  have "d = 90 * 24 * Hour"
    using d exp by (simp add: ex_service_def ex_request_def NewServiceWithLogger_def GetMaxExpirationDays_def DefaultAPIKeyMaxExpirationDays_def)
  then have "6000 \<le> timestamptz (ci_now ex_input + d)"
    by (simp add: timestamptz_def ex_input_def Hour_def Minute_def Second_def)
  with v c sub show ?thesis by (auto simp: ex_request_def)
qed

subsection \<open>Debouncing under concurrency\<close>

text \<open>
  Any number of goroutines run \<open>shouldUpdateLastUsed\<close> for one key, with debouncing
  enabled. Each reads the clock, then does \<open>LoadOrStore\<close>, and if the entry it loaded is old
  enough a \<open>CompareAndSwap\<close>; the goroutine of a granted write that fails does
  \<open>CompareAndDelete\<close> once. The sweep of \<open>StartDebounceCleanup\<close> reads the entry in its
  \<open>Range\<close> callback and, if it was old then, deletes the entry unconditionally in a second
  step: \<open>armed\<close> is the sweep between the two. Each of these actions is atomic; they
  interleave in any order, with any clock readings. \<open>history\<close> is everything that ever
  happened to the entry, the latest first: the slots granted, the slots given up by a failed
  write, and the slots the sweep deleted.
\<close>

datatype goroutine =
    Started
  | Loaded time time
  | Proceed time
  | Finished

datatype slotEvent =
    Granted time
  | WriteFailed time
  | Swept time

record debounceState =
  slot :: "time option"
  threads :: "nat \<Rightarrow> goroutine"
  armed :: bool
  history :: "slotEvent list"

inductive debounce_step :: "int \<Rightarrow> debounceState \<Rightarrow> debounceState \<Rightarrow> bool" for ttl where
  store: "threads s i = Started \<Longrightarrow> slot s = None \<Longrightarrow>
    debounce_step ttl s
      (s\<lparr>slot := Some now, threads := (threads s)(i := Proceed now), history := Granted now # history s\<rparr>)"
| load_stale: "threads s i = Started \<Longrightarrow> slot s = Some t \<Longrightarrow> now - t \<ge> ttl \<Longrightarrow>
    debounce_step ttl s (s\<lparr>threads := (threads s)(i := Loaded now t)\<rparr>)"
| load_recent: "threads s i = Started \<Longrightarrow> slot s = Some t \<Longrightarrow> \<not> now - t \<ge> ttl \<Longrightarrow>
    debounce_step ttl s (s\<lparr>threads := (threads s)(i := Finished)\<rparr>)"
| swap: "threads s i = Loaded now t \<Longrightarrow> slot s = Some t \<Longrightarrow>
    debounce_step ttl s
      (s\<lparr>slot := Some now, threads := (threads s)(i := Proceed now), history := Granted now # history s\<rparr>)"
| swap_lost: "threads s i = Loaded now t \<Longrightarrow> slot s \<noteq> Some t \<Longrightarrow>
    debounce_step ttl s (s\<lparr>threads := (threads s)(i := Finished)\<rparr>)"
| clear: "threads s i = Proceed t \<Longrightarrow> slot s = Some t \<Longrightarrow>
    debounce_step ttl s
      (s\<lparr>slot := None, threads := (threads s)(i := Finished), history := WriteFailed t # history s\<rparr>)"
| clear_lost: "threads s i = Proceed t \<Longrightarrow> slot s \<noteq> Some t \<Longrightarrow>
    debounce_step ttl s (s\<lparr>threads := (threads s)(i := Finished)\<rparr>)"
| sweep_check: "\<not> armed s \<Longrightarrow> slot s = Some t \<Longrightarrow> t < now - ttl \<Longrightarrow>
    debounce_step ttl s (s\<lparr>armed := True\<rparr>)"
| sweep_delete: "armed s \<Longrightarrow> slot s = Some t \<Longrightarrow>
    debounce_step ttl s (s\<lparr>armed := False, slot := None, history := Swept t # history s\<rparr>)"
| sweep_nothing: "armed s \<Longrightarrow> slot s = None \<Longrightarrow> debounce_step ttl s (s\<lparr>armed := False\<rparr>)"

definition debounce_start :: debounceState where
  "debounce_start = \<lparr>slot = None, threads = (\<lambda>_. Started), armed = False, history = []\<rparr>"

inductive debounce_run :: "int \<Rightarrow> debounceState \<Rightarrow> bool" for ttl where
  init: "debounce_run ttl debounce_start"
| step: "debounce_run ttl s \<Longrightarrow> debounce_step ttl s s' \<Longrightarrow> debounce_run ttl s'"

inductive_cases debounce_stepE: "debounce_step ttl s s'"

text \<open>
  What a history says of the entry, and the histories that respect the debounce time: a slot
  granted over another one comes late enough, and only the present entry is deleted.
\<close>

fun last_slot :: "slotEvent list \<Rightarrow> time option" where
  "last_slot (Granted t # _) = Some t"
| "last_slot _ = None"

fun spaced :: "int \<Rightarrow> slotEvent list \<Rightarrow> bool" where
  "spaced ttl [] = True"
| "spaced ttl (Granted t # h) = ((case last_slot h of None \<Rightarrow> True | Some t1 \<Rightarrow> t1 + ttl \<le> t) \<and> spaced ttl h)"
| "spaced ttl (WriteFailed t # h) = (last_slot h = Some t \<and> spaced ttl h)"
| "spaced ttl (Swept t # h) = (last_slot h = Some t \<and> spaced ttl h)"

lemma last_slot_Some: "last_slot h = Some t \<Longrightarrow> \<exists>h'. h = Granted t # h'"
  by (cases h rule: last_slot.cases) auto

lemma spaced_append: "spaced ttl (later @ h) \<Longrightarrow> spaced ttl h"
proof (induction later)
  case (Cons e later)
  then show ?case by (cases e) auto
qed simp

lemma spaced_grants:
  assumes "spaced ttl (Granted t2 # between @ Granted t1 # earlier)" and "\<forall>e\<in>set between. \<exists>t. e = Granted t"
    and "0 \<le> ttl"
  shows "t1 + ttl \<le> t2"
  using assms
proof (induction between arbitrary: t2)
  case (Cons e between)
  then obtain t where e: "e = Granted t" by auto
  with Cons have "t1 + ttl \<le> t" by auto
  moreover have "t + ttl \<le> t2" using Cons.prems(1) e by simp
  ultimately show ?case using Cons.prems(3) by simp
qed simp

text \<open>The entry is what the history says, and loaded entries were old enough when loaded.\<close>

definition debounce_inv :: "int \<Rightarrow> debounceState \<Rightarrow> bool" where
  "debounce_inv ttl s \<longleftrightarrow>
     slot s = last_slot (history s) \<and> spaced ttl (history s) \<and>
     (\<forall>i now t. threads s i = Loaded now t \<longrightarrow> t + ttl \<le> now)"

lemma debounce_inv_step:
  assumes "debounce_step ttl s s'" and "debounce_inv ttl s"
  shows "debounce_inv ttl s'"
  using assms by (induction rule: debounce_step.induct) (auto simp: debounce_inv_def split: option.splits)

lemma debounce_run_inv: "debounce_run ttl s \<Longrightarrow> debounce_inv ttl s"
proof (induction rule: debounce_run.induct)
  case init
  then show ?case by (simp add: debounce_inv_def debounce_start_def)
next
  case (step s s')
  then show ?case by (blast intro: debounce_inv_step)
qed

lemma alone_proceeds: "threads s i = Started \<Longrightarrow> (\<And>t. slot s = Some t \<Longrightarrow> t + ttl \<le> now) \<Longrightarrow>
    \<exists>s'. (debounce_step ttl s s' \<or> (\<exists>m. debounce_step ttl s m \<and> debounce_step ttl m s')) \<and> threads s' i = Proceed now"
proof (cases "slot s")
  case None
  assume "threads s i = Started"
  from debounce_step.store [OF this None, of ttl now] show ?thesis by fastforce
next
  case (Some t)
  assume i: "threads s i = Started" and old: "\<And>t. slot s = Some t \<Longrightarrow> t + ttl \<le> now"
  let ?m = "s\<lparr>threads := (threads s)(i := Loaded now t)\<rparr>"
  have "debounce_step ttl s ?m" using i Some old [OF Some] by (intro debounce_step.load_stale) auto
  moreover have "debounce_step ttl ?m
      (?m\<lparr>slot := Some now, threads := (threads ?m)(i := Proceed now), history := Granted now # history ?m\<rparr>)"
    (is "debounce_step ttl ?m ?s'")
    using Some by (intro debounce_step.swap) auto
  ultimately show ?thesis by (intro exI [of _ ?s']) auto
qed

text \<open>
  C32. Debouncing under concurrency. However many goroutines ask for a slot for one key and
  however their atomic actions, failed writes and sweeps interleave: of any two slots granted
  one after the other, with only grants in between, the later one is at least the debounce
  time after the earlier one; so slots come closer together only if the entry was deleted in
  between, by a failed write or by the sweep. A failed write deletes nothing but its own
  slot, and only while that is the latest. And nobody is shut out: a goroutine that finds no
  entry, or one at least as old as the debounce time, and is not overtaken, is granted its
  slot.
\<close>

theorem debounce_spacing:
  assumes "debounce_run ttl s" and "0 < ttl"
  shows "(history s = later @ Granted t2 # between @ Granted t1 # earlier \<and> (\<forall>e\<in>set between. \<exists>t. e = Granted t) \<longrightarrow>
       t1 + ttl \<le> t2) \<and>
    (history s = after @ WriteFailed t # before \<longrightarrow> (\<exists>rest. before = Granted t # rest)) \<and>
    (threads s i = Started \<and> (\<forall>t. slot s = Some t \<longrightarrow> t + ttl \<le> now) \<longrightarrow>
       (\<exists>s'. (debounce_step ttl s s' \<or> (\<exists>m. debounce_step ttl s m \<and> debounce_step ttl m s')) \<and>
             threads s' i = Proceed now))"
proof -
  have h: "spaced ttl (history s)" using debounce_run_inv [OF assms(1)] by (simp add: debounce_inv_def)
  have "t1 + ttl \<le> t2"
    if "history s = later @ Granted t2 # between @ Granted t1 # earlier" "\<forall>e\<in>set between. \<exists>t. e = Granted t"
    using h assms(2) that by (intro spaced_grants) (auto dest: spaced_append)
  moreover have "\<exists>rest. before = Granted t # rest" if "history s = after @ WriteFailed t # before"
    using h that by (auto dest!: spaced_append last_slot_Some)
  ultimately show ?thesis using alone_proceeds [of s i ttl now] by blast
qed

definition ex_granted :: debounceState where
  "ex_granted = \<lparr>slot = Some 170, threads = (\<lambda>_. Started)(0 := Proceed 100, 1 := Proceed 170), armed = False,
     history = [Granted 170, Granted 100]\<rparr>"

lemma ex_stale_run:
  "debounce_run 60 \<lparr>slot = Some 100, threads = (\<lambda>_. Started)(0 := Proceed 100, 1 := Loaded 170 100), armed = False,
     history = [Granted 100]\<rparr>"
proof -
  let ?s1 = "\<lparr>slot = Some 100, threads = (\<lambda>_. Started)(0 := Proceed 100), armed = False, history = [Granted 100]\<rparr>"
  have "debounce_step 60 debounce_start ?s1"
    using debounce_step.store [of debounce_start 0 60 100] by (simp add: debounce_start_def)
  moreover have "debounce_step 60 ?s1 (?s1\<lparr>threads := (threads ?s1)(1 := Loaded 170 100)\<rparr>)"
    by (rule debounce_step.load_stale) simp_all
  ultimately have "debounce_run 60 (?s1\<lparr>threads := (threads ?s1)(1 := Loaded 170 100)\<rparr>)"
    using debounce_run.intros by blast
  then show ?thesis by simp
qed

lemma ex_granted_run: "debounce_run 60 ex_granted"
proof -
  let ?s = "\<lparr>slot = Some 100, threads = (\<lambda>_. Started)(0 := Proceed 100, 1 := Loaded 170 100), armed = False,
     history = [Granted 100]\<rparr>"
  have "debounce_step 60 ?s ex_granted"
    using debounce_step.swap [of ?s 1 170 100 60] by (simp add: ex_granted_def)
  with ex_stale_run show ?thesis by (rule debounce_run.step)
qed

theorem debounce_spacing_witness:
  "debounce_run 60 ex_granted \<and> (100 :: int) + 60 \<le> 170 \<and>
   (\<exists>s'. (debounce_step 60 ex_granted s' \<or> (\<exists>m. debounce_step 60 ex_granted m \<and> debounce_step 60 m s')) \<and>
         threads s' 2 = Proceed 300)"
  using debounce_spacing [OF ex_granted_run, of "[]" 170 "[]" 100 "[]" "[]" 0 "[]" 2 300] ex_granted_run
  by (simp add: ex_granted_def)

text \<open>
  The sweep is not harmless: between its check and its deletion the old entry can be replaced,
  and then it deletes the new one, so that the next slot follows at once.
\<close>

lemma sweep_breaks_spacing:
  "\<exists>s. debounce_run 60 s \<and> history s = [Granted 171, Swept 170, Granted 170, Granted 100]"
proof -
  let ?s = "\<lparr>slot = Some 100, threads = (\<lambda>_. Started)(0 := Proceed 100, 1 := Loaded 170 100), armed = False,
     history = [Granted 100]\<rparr>"
  let ?a = "?s\<lparr>armed := True\<rparr>"
  let ?b = "?a\<lparr>slot := Some 170, threads := (threads ?a)(1 := Proceed 170), history := Granted 170 # history ?a\<rparr>"
  let ?c = "?b\<lparr>armed := False, slot := None, history := Swept 170 # history ?b\<rparr>"
  let ?d = "?c\<lparr>slot := Some 171, threads := (threads ?c)(2 := Proceed 171), history := Granted 171 # history ?c\<rparr>"
  have "debounce_step 60 ?s ?a" by (rule debounce_step.sweep_check [where now = 170 and t = 100]) simp_all
  moreover have "debounce_step 60 ?a ?b" by (rule debounce_step.swap) simp_all
  moreover have "debounce_step 60 ?b ?c" by (rule debounce_step.sweep_delete) simp_all
  moreover have "debounce_step 60 ?c ?d" by (rule debounce_step.store) simp_all
  ultimately have "debounce_run 60 ?d" using ex_stale_run by (blast intro: debounce_run.step)
  then show ?thesis by (intro exI [of _ ?d]) simp
qed

text \<open>The sequential definition is what the steps do for a goroutine that runs alone.\<close>

lemma shouldUpdateLastUsed_steps:
  assumes "sv_lastUsedDebounceTTL s \<noteq> 0"
  shows "fst (fst (shouldUpdateLastUsed now keyID s)) \<longleftrightarrow>
    (case map_of (sv_lastUsedDebounce s) keyID of None \<Rightarrow> True | Some t \<Rightarrow> sv_lastUsedDebounceTTL s \<le> now - t)"
  and "fst (fst (shouldUpdateLastUsed now keyID s)) \<Longrightarrow>
    map_of (sv_lastUsedDebounce (snd (shouldUpdateLastUsed now keyID s))) keyID = Some now"
  and "i \<noteq> keyID \<Longrightarrow> map_of (sv_lastUsedDebounce (snd (shouldUpdateLastUsed now keyID s))) i = map_of (sv_lastUsedDebounce s) i"
  using assms by (auto simp: shouldUpdateLastUsed_def update_conv split: option.splits)

end
