(* ===== verification/SubscriptionAdmin.thy ===== *)
theory SubscriptionAdmin
  imports SubscriptionSelect TokenIdentity
begin

text \<open>
  Organization administration of subscriptions (\<open>subscription/admin_resolver.go\<close>), the
  inventory listing of \<open>selector.go\<close>, and the HTTP handlers of \<open>subscription/handler.go\<close>.
  The subject inventory a listing relies on is the locale \<open>org_subjects\<close>; the policy
  checker of \<open>AuthPolicyChecker\<close> provides it.
\<close>

section \<open>Administration\<close>

record adminScope =
  as_Tenant :: string
  as_Namespace :: string
  as_Subscription :: string
  as_OrganizationID :: string

text \<open>A \<open>SubscriptionAdminError\<close> is its code; other errors stay errors of the cache.\<close>

datatype adminError = SubscriptionAdminError string | AdminLoadFailed string | NotCanonical

definition organizationAdminRole :: string where
  "organizationAdminRole = ''admins''"

definition canonicalOrganizationID :: "libs \<Rightarrow> string \<Rightarrow> adminError + string" where
  "canonicalOrganizationID L organizationID =
     (case uuidParse L organizationID of
        None \<Rightarrow> Inl NotCanonical
      | Some parsed \<Rightarrow> if parsed \<noteq> organizationID then Inl NotCanonical else Inr parsed)"

definition identityHasOrganizationAdmin :: "verifiedIdentity option \<Rightarrow> string \<Rightarrow> bool" where
  "identityHasOrganizationAdmin identityP organizationID =
     (case identityP of
        None \<Rightarrow> False
      | Some identity \<Rightarrow>
        id_Source identity = ''oidc'' \<and> cl_OrgID (id_Claims identity) = organizationID \<and>
        organizationAdminRole \<in> set (cl_Roles (id_Claims identity)))"

definition parseSubscriptionTarget :: "string \<Rightarrow> (string \<times> string \<times> bool) option" where
  "parseSubscriptionTarget requested =
     (if requested = [] \<or> TrimSpace requested \<noteq> requested then None
      else if Count requested (CHR ''/'') > 1 then None
      else case Cut (CHR ''/'') requested of
             Some (namespace, name) \<Rightarrow>
               if namespace = [] \<or> name = [] then None else Some (namespace, name, True)
           | None \<Rightarrow> Some ([], requested, False))"

definition load_admin_one :: "libs \<Rightarrow> selector \<Rightarrow> jobj \<Rightarrow> subscription list" where
  "load_admin_one L s object =
     (if sel_subscriptionNamespace s \<noteq> [] \<and> GetNamespace L object \<noteq> sel_subscriptionNamespace s then []
      else case parseSubscription L object of Inl _ \<Rightarrow> [] | Inr parsed \<Rightarrow> [parsed])"

definition loadAdminSubscriptions :: "libs \<Rightarrow> selector \<Rightarrow> string + subscription list" where
  "loadAdminSubscriptions L s =
     (case sel_lister s of
        Inl e \<Rightarrow> Inl e
      | Inr objects \<Rightarrow> Inr (concat (map (load_admin_one L s) objects)))"

definition target_matches :: "string \<times> string \<times> bool \<Rightarrow> subscription \<Rightarrow> bool" where
  "target_matches t candidate =
     (case t of (namespace, name, qualified) \<Rightarrow>
        if qualified then sub_Namespace candidate = namespace \<and> sub_Name candidate = name
        else sub_Name candidate = name)"

definition adminSubscriptionTarget :: "libs \<Rightarrow> selector \<Rightarrow> string \<Rightarrow> adminError + subscription" where
  "adminSubscriptionTarget L s requested =
     (if requested = [] then Inl (SubscriptionAdminError ''bad_request'')
      else case parseSubscriptionTarget requested of
             None \<Rightarrow> Inl (SubscriptionAdminError ''bad_request'')
           | Some t \<Rightarrow>
             (case loadAdminSubscriptions L s of
                Inl e \<Rightarrow> Inl (AdminLoadFailed e)
              | Inr subscriptions \<Rightarrow>
                (case filter (target_matches t) subscriptions of
                   [] \<Rightarrow> Inl (SubscriptionAdminError ''not_found'')
                 | [m] \<Rightarrow> Inr m
                 | _ \<Rightarrow> Inl (SubscriptionAdminError ''ambiguous_subscription''))))"

definition ResolveSubscriptionAdmin ::
  "libs \<Rightarrow> selector \<Rightarrow> verifiedIdentity option \<Rightarrow> string \<Rightarrow> adminError + adminScope" where
  "ResolveSubscriptionAdmin L s identityP requested =
     (case identityP of
        None \<Rightarrow> Inl (SubscriptionAdminError ''invalid_identity'')
      | Some identity \<Rightarrow>
        bind_res (adminSubscriptionTarget L s requested) (\<lambda>target.
        if sub_AssociatedOrganizationID target = [] then Inl (SubscriptionAdminError ''unresolved_association'')
        else case canonicalOrganizationID L (sub_AssociatedOrganizationID target) of
               Inl _ \<Rightarrow> Inl (SubscriptionAdminError ''unresolved_association'')
             | Inr organizationID \<Rightarrow>
               if \<not> identityHasOrganizationAdmin identityP organizationID
               then Inl (SubscriptionAdminError ''access_denied'')
               else if sel_tenantName s = [] then Inl (SubscriptionAdminError ''internal_error'')
               else Inr \<lparr>as_Tenant = sel_tenantName s, as_Namespace = sub_Namespace target,
                         as_Subscription = sub_Name target, as_OrganizationID = organizationID\<rparr>))"

definition scope_of :: "libs \<Rightarrow> selector \<Rightarrow> verifiedIdentity \<Rightarrow> subscription \<Rightarrow> adminScope list" where
  "scope_of L s identity candidate =
     (if sub_AssociatedOrganizationID candidate = [] then []
      else case canonicalOrganizationID L (sub_AssociatedOrganizationID candidate) of
             Inl _ \<Rightarrow> []
           | Inr organizationID \<Rightarrow>
             if \<not> identityHasOrganizationAdmin (Some identity) organizationID then []
             else [\<lparr>as_Tenant = sel_tenantName s, as_Namespace = sub_Namespace candidate,
                    as_Subscription = sub_Name candidate, as_OrganizationID = organizationID\<rparr>])"

definition ResolveSubscriptionAdminScopes ::
  "libs \<Rightarrow> selector \<Rightarrow> verifiedIdentity option \<Rightarrow> adminError + adminScope list" where
  "ResolveSubscriptionAdminScopes L s identityP =
     (case identityP of
        None \<Rightarrow> Inr []
      | Some identity \<Rightarrow>
        if id_Source identity \<noteq> ''oidc'' then Inr []
        else if cl_OrgID (id_Claims identity) = [] then Inr []
        else bind_res (canonicalOrganizationID L (cl_OrgID (id_Claims identity))) (\<lambda>organizationID.
          if \<not> identityHasOrganizationAdmin identityP organizationID then Inr []
          else if sel_tenantName s = [] then Inl (SubscriptionAdminError ''internal_error'')
          else case loadAdminSubscriptions L s of
                 Inl e \<Rightarrow> Inl (AdminLoadFailed e)
               | Inr subscriptions \<Rightarrow> Inr (concat (map (scope_of L s identity) subscriptions))))"

definition CanonicalizeSubscription :: "libs \<Rightarrow> selector \<Rightarrow> string \<Rightarrow> adminError + string" where
  "CanonicalizeSubscription L s requested =
     bind_res (adminSubscriptionTarget L s requested) (\<lambda>target. Inr (sub_Name target))"

section \<open>Inventory\<close>

definition administeredOrganizationID :: "libs \<Rightarrow> subscription \<Rightarrow> verifiedIdentity option \<Rightarrow> string" where
  "administeredOrganizationID L sub identity =
     (if sub_AssociatedOrganizationID sub = [] then []
      else case canonicalOrganizationID L (sub_AssociatedOrganizationID sub) of
             Inl _ \<Rightarrow> []
           | Inr organizationID \<Rightarrow>
             if \<not> identityHasOrganizationAdmin identity organizationID then [] else organizationID)"

definition administeredOrganizationIDs ::
  "libs \<Rightarrow> subscription list \<Rightarrow> verifiedIdentity option \<Rightarrow> string list" where
  "administeredOrganizationIDs L subscriptions identity =
     remdups (filter (\<lambda>i. i \<noteq> []) (map (\<lambda>sub. administeredOrganizationID L sub identity) subscriptions))"

definition hasOwnerInventoryCandidates ::
  "libs \<Rightarrow> subscription list \<Rightarrow> string \<Rightarrow> string list \<Rightarrow> verifiedIdentity option \<Rightarrow> bool" where
  "hasOwnerInventoryCandidates L subscriptions username groups identity \<longleftrightarrow>
     (\<exists>sub\<in>set subscriptions. userHasAccess sub username groups \<and>
        administeredOrganizationID L sub identity = [] \<and> ownerInventoryVisible sub)"

definition load_inventory_one :: "libs \<Rightarrow> selector \<Rightarrow> jobj \<Rightarrow> subscription list" where
  "load_inventory_one L s object =
     (if sel_subscriptionNamespace s \<noteq> [] \<and> GetNamespace L object \<noteq> sel_subscriptionNamespace s then []
      else case parseSubscription L object of
             Inl _ \<Rightarrow> []
           | Inr parsed \<Rightarrow>
             [parsed\<lparr>sub_ModelRefs := enrichModelRefs L (sub_ModelRefs parsed) (buildModelIndex L s)\<rparr>])"

definition loadInventorySubscriptions :: "libs \<Rightarrow> selector \<Rightarrow> string + subscription list" where
  "loadInventorySubscriptions L s =
     (case sel_lister s of
        Inl e \<Rightarrow> Inl e
      | Inr objects \<Rightarrow> Inr (concat (map (load_inventory_one L s) objects)))"

definition organization_refs :: "libs \<Rightarrow> subscription list \<Rightarrow> string \<Rightarrow> nsname list" where
  "organization_refs L subscriptions organizationID =
     concat (map (\<lambda>sub.
       case canonicalOrganizationID L (sub_AssociatedOrganizationID sub) of
         Inl _ \<Rightarrow> []
       | Inr i \<Rightarrow> if i \<noteq> organizationID then []
                  else map ref_key (filter (\<lambda>ref. mr_Namespace ref \<noteq> [] \<and> mr_Name ref \<noteq> []) (sub_ModelRefs sub)))
       subscriptions)"

type_synonym subjectMap = "nsname \<rightharpoonup> modelAccessSubjects"

definition buildAdminInventories ::
  "libs \<Rightarrow> selector \<Rightarrow> subscription list \<Rightarrow> string list \<Rightarrow> selectError + (string \<rightharpoonup> subjectMap)" where
  "buildAdminInventories L s subscriptions adminOrganizationIDs =
     (if adminOrganizationIDs = [] then Inr Map.empty
      else case sel_subjectInventory s of
             None \<Rightarrow> Inl InventoryUnavailable
           | Some provider \<Rightarrow>
             fold_res (\<lambda>organizationID inventories.
               case provider (organization_refs L subscriptions organizationID) organizationID of
                 Inl e \<Rightarrow> Inl (InventoryFailed e)
               | Inr inventory \<Rightarrow> Inr (inventories(organizationID \<mapsto> inventory)))
               adminOrganizationIDs Map.empty)"

definition sortedSubjects :: "groupReference list \<Rightarrow> string list \<Rightarrow> subjectInventory option" where
  "sortedSubjects groups users =
     (if groups = [] \<and> users = [] then None
      else Some \<lparr>si_Groups = SliceStable groupLess groups, si_Users = SliceStable (<) users\<rparr>)"

definition ref_subjects :: "subscription \<Rightarrow> subjectMap \<Rightarrow> modelRefInfo \<Rightarrow> modelRefInfo" where
  "ref_subjects sub inventory ref =
     (let subjects = (case inventory (ref_key ref) of None \<Rightarrow> noSubjects | Some s \<Rightarrow> s);
          groups = filter (\<lambda>g. grp_Name g \<in> set (sub_Groups sub)) (mas_Groups subjects);
          users = filter (\<lambda>u. u \<in> set (sub_Users sub)) (mas_Users subjects)
      in case sortedSubjects groups users of
           None \<Rightarrow> ref
         | Some si \<Rightarrow> ref\<lparr>mr_Subjects := Some si\<rparr>)"

definition modelRefSubjects :: "subscription \<Rightarrow> subjectMap \<Rightarrow> modelRefInfo list" where
  "modelRefSubjects sub inventory = map (ref_subjects sub inventory) (sub_ModelRefs sub)"

definition collect_subjects ::
  "modelRefInfo \<Rightarrow> groupReference list \<times> string list \<Rightarrow> groupReference list \<times> string list" where
  "collect_subjects ref gu =
     (case mr_Subjects ref of
        None \<Rightarrow> gu
      | Some si \<Rightarrow> (appendUniqueGroups (fst gu) (si_Groups si), appendUniqueStrings (snd gu) (si_Users si)))"

definition ownerInventory :: "modelRefInfo list \<Rightarrow> subjectInventory option" where
  "ownerInventory refs =
     (case fold collect_subjects refs ([], []) of (groups, users) \<Rightarrow> sortedSubjects groups users)"

definition inventory_entry ::
  "libs \<Rightarrow> selector \<Rightarrow> string \<Rightarrow> string list \<Rightarrow> verifiedIdentity option \<Rightarrow> (string \<rightharpoonup> subjectMap) \<Rightarrow> authSet
     \<Rightarrow> subscription \<Rightarrow> subscriptionInfo option" where
  "inventory_entry L s username groups identity adminInventories authorized sub =
     (let owner = userHasAccess sub username groups;
          ownerVisible = (owner \<and> ownerInventoryVisible sub);
          adminOrg = administeredOrganizationID L sub identity
      in if \<not> ownerVisible \<and> adminOrg = [] then None
         else let info0 = (ResponseToSubscriptionInfo (toResponse sub))\<lparr>in_Namespace := sub_Namespace sub\<rparr>;
                  info1 = (if owner \<and> adminOrg \<noteq> [] then info0\<lparr>in_Roles := [''owner'', ''admin'']\<rparr>
                           else if adminOrg \<noteq> [] then info0\<lparr>in_Roles := [''admin'']\<rparr> else info0)
              in if adminOrg \<noteq> []
                 then let refs = modelRefSubjects sub
                            (case adminInventories adminOrg of None \<Rightarrow> Map.empty | Some m \<Rightarrow> m)
                      in Some (info1\<lparr>in_OrganizationID := adminOrg, in_ModelRefs := refs,
                                     in_Owner := ownerInventory refs\<rparr>)
                 else if sel_accessChecker s \<noteq> None
                 then let refs = filterAuthorizedModels (sub_ModelRefs sub) authorized
                      in if refs = [] then None else Some (info1\<lparr>in_ModelRefs := refs\<rparr>)
                 else Some info1)"

fun inventory_loop ::
  "(subscription \<Rightarrow> subscriptionInfo option) \<Rightarrow> string list \<Rightarrow> subscription list \<Rightarrow> subscriptionInfo list" where
  "inventory_loop entry seen [] = []"
| "inventory_loop entry seen (sub # subs) =
     (let key = sub_Namespace sub @ CHR 0x00 # sub_Name sub
      in if key \<in> set seen then inventory_loop entry seen subs
         else case entry sub of
                None \<Rightarrow> inventory_loop entry seen subs
              | Some info \<Rightarrow> info # inventory_loop entry (key # seen) subs)"

definition inventoryLess :: "subscriptionInfo \<Rightarrow> subscriptionInfo \<Rightarrow> bool" where
  "inventoryLess a b =
     (if in_Namespace a \<noteq> in_Namespace b then in_Namespace a < in_Namespace b
      else in_SubscriptionIDHeader a < in_SubscriptionIDHeader b)"

definition buildInventoryResponse ::
  "libs \<Rightarrow> selector \<Rightarrow> subscription list \<Rightarrow> string \<Rightarrow> string list \<Rightarrow> verifiedIdentity option
     \<Rightarrow> (string \<rightharpoonup> subjectMap) \<Rightarrow> authSet \<Rightarrow> subscriptionInfo list" where
  "buildInventoryResponse L s subscriptions username groups identity adminInventories authorized =
     SliceStable inventoryLess
       (inventory_loop (inventory_entry L s username groups identity adminInventories authorized) [] subscriptions)"

definition ListInventory ::
  "libs \<Rightarrow> selector \<Rightarrow> string list \<Rightarrow> string \<Rightarrow> verifiedIdentity option \<Rightarrow> selectError + subscriptionInfo list" where
  "ListInventory L s groups username identity =
     (case identity of
        None \<Rightarrow> listOwnerInventory L s groups username
      | Some _ \<Rightarrow>
        (case loadInventorySubscriptions L s of
           Inl e \<Rightarrow> Inl (LoadFailed e)
         | Inr subscriptions \<Rightarrow>
           bind_res (if hasOwnerInventoryCandidates L subscriptions username groups identity
                     then authorizedModels s groups username else Inr None) (\<lambda>authorized.
           bind_res (buildAdminInventories L s subscriptions
                       (administeredOrganizationIDs L subscriptions identity)) (\<lambda>adminInventories.
           Inr (buildInventoryResponse L s subscriptions username groups identity adminInventories authorized)))))"

section \<open>Handlers\<close>

record selectRequest =
  rq_Purpose :: string
  rq_Groups :: "string list"
  rq_Username :: string
  rq_RequestedSubscription :: string
  rq_RequestedModel :: string
  rq_Identity :: string

text \<open>
  The answers of the callback, always sent with status 200: a selection, an error code with
  the phase of an unhealthy subscription, or a decision on administration. The rejection
  reason is what the metrics recorder counts.
\<close>

datatype adminDecision = AdminAllowed adminScope | AdminDenied string

datatype callback =
    Selected selectResponse
  | SelectionError string string "string option"
  | AdminResult adminDecision

definition unhealthy_rejection :: "string \<Rightarrow> string \<Rightarrow> string" where
  "unhealthy_rejection phase reason =
     (if reason = ''RateLimitNotEnforced'' then ''rate-limited''
      else if phase = PhaseFailed then ''quota-exceeded'' else ''no-capacity'')"

definition error_response :: "selectError \<Rightarrow> callback" where
  "error_response err =
     (case err of
        NoSubscriptionError \<Rightarrow> SelectionError ''not_found'' [] (Some ''no-capacity'')
      | SubscriptionNotFoundError _ \<Rightarrow> SelectionError ''not_found'' [] (Some ''no-capacity'')
      | AccessDeniedError _ \<Rightarrow> SelectionError ''access_denied'' [] (Some ''unauthorized'')
      | MultipleSubscriptionsError _ \<Rightarrow> SelectionError ''multiple_subscriptions'' [] None
      | ModelNotInSubscriptionError _ _ \<Rightarrow> SelectionError ''model_not_in_subscription'' [] (Some ''no-capacity'')
      | ModelUnhealthyError _ phase reason _ \<Rightarrow>
          SelectionError ''model_unhealthy'' phase (Some (unhealthy_rejection phase reason))
      | GuardrailResolutionError _ \<Rightarrow> SelectionError ''guardrail_unavailable'' [] (Some ''guardrail-unavailable'')
      | _ \<Rightarrow> SelectionError ''internal_error'' [] None)"

definition handleSubscriptionAdmin :: "libs \<Rightarrow> jsonDecoder \<Rightarrow> selector \<Rightarrow> selectRequest \<Rightarrow> callback" where
  "handleSubscriptionAdmin L J s request =
     (if rq_Username request \<noteq> [] \<or> rq_Groups request \<noteq> [] \<or> rq_RequestedModel request \<noteq> []
      then AdminResult (AdminDenied ''bad_request'')
      else if rq_Identity request = [] then AdminResult (AdminDenied ''invalid_identity'')
      else if length (rq_Identity request) > MaxIdentityEnvelopeBytes
      then AdminResult (AdminDenied ''invalid_identity'')
      else case ParseIdentityEnvelope L J (rq_Identity request) of
             Inl _ \<Rightarrow> AdminResult (AdminDenied ''invalid_identity'')
           | Inr identity \<Rightarrow>
             if rq_RequestedSubscription request = [] then AdminResult (AdminDenied ''bad_request'')
             else case ResolveSubscriptionAdmin L s (Some identity) (rq_RequestedSubscription request) of
                    Inl (SubscriptionAdminError code) \<Rightarrow> AdminResult (AdminDenied code)
                  | Inl _ \<Rightarrow> AdminResult (AdminDenied ''internal_error'')
                  | Inr scope \<Rightarrow> AdminResult (AdminAllowed scope))"

definition SelectSubscription ::
  "libs \<Rightarrow> jsonDecoder \<Rightarrow> selector \<Rightarrow> selectRequest option \<Rightarrow> callback" where
  "SelectSubscription L J s decoded =
     (case decoded of
        None \<Rightarrow> SelectionError ''bad_request'' [] None
      | Some req \<Rightarrow>
        if rq_Purpose req = [] \<or> rq_Purpose req = ''select''
        then (if rq_Username req = [] then SelectionError ''bad_request'' [] None
              else if rq_Identity req \<noteq> [] then SelectionError ''bad_request'' [] None
              else case SelectWithContext L s (rq_Groups req) (rq_Username req)
                          (rq_RequestedSubscription req) (rq_RequestedModel req) of
                     Inl err \<Rightarrow> error_response err
                   | Inr response \<Rightarrow> Selected response)
        else if rq_Purpose req = ''subscription-admin'' then handleSubscriptionAdmin L J s req
        else SelectionError ''bad_purpose'' [] None)"

datatype listResult = Listed "subscriptionInfo list" | ServerError | BadRequest

definition ListSubscriptions :: "libs \<Rightarrow> selector \<Rightarrow> ginContext \<Rightarrow> listResult" where
  "ListSubscriptions L s c =
     (case cx_verified c of
        Some None \<Rightarrow> ServerError
      | v \<Rightarrow>
        if v = None \<and> cx_user c = None then Listed []
        else let identity = (case v of Some (Some i) \<Rightarrow> Some i | _ \<Rightarrow> None);
                 groups = (case cx_user c of None \<Rightarrow> [] | Some u \<Rightarrow> uc_Groups u);
                 username = (case cx_user c of None \<Rightarrow> [] | Some u \<Rightarrow> uc_Username u)
             in case ListInventory L s groups username identity of
                  Inl _ \<Rightarrow> ServerError | Inr accessible \<Rightarrow> Listed accessible)"

definition ListSubscriptionsForModel :: "libs \<Rightarrow> selector \<Rightarrow> ginContext \<Rightarrow> string \<Rightarrow> listResult" where
  "ListSubscriptionsForModel L s c modelID =
     (case cx_user c of
        None \<Rightarrow> Listed []
      | Some user \<Rightarrow>
        if modelID = [] then BadRequest
        else case ListAccessibleForModel L s (uc_Username user) (uc_Groups user) modelID of
               Inl _ \<Rightarrow> ServerError | Inr subs \<Rightarrow> Listed subs)"

section \<open>The administration decision\<close>

lemma canonicalOrganizationID_Inr_iff:
  "canonicalOrganizationID L i = Inr j \<longleftrightarrow> uuidParse L i = Some i \<and> j = i"
  by (auto simp: canonicalOrganizationID_def split: option.splits)

lemma adminSubscriptionTarget_Inr_iff:
  "adminSubscriptionTarget L s req = Inr target \<longleftrightarrow>
     (\<exists>t subs. parseSubscriptionTarget req = Some t \<and> loadAdminSubscriptions L s = Inr subs \<and>
        filter (target_matches t) subs = [target])"
proof (cases "parseSubscriptionTarget req")
  case None
  then show ?thesis by (simp add: adminSubscriptionTarget_def)
next
  case (Some t)
  then have "req \<noteq> []" by (auto simp: parseSubscriptionTarget_def)
  then show ?thesis
    by (cases "loadAdminSubscriptions L s") (auto simp: adminSubscriptionTarget_def Some split: list.splits)
qed

definition administers :: "libs \<Rightarrow> verifiedIdentity \<Rightarrow> subscription \<Rightarrow> bool" where
  "administers L identity sub \<longleftrightarrow>
     id_Source identity = ''oidc'' \<and> organizationAdminRole \<in> set (cl_Roles (id_Claims identity)) \<and>
     sub_AssociatedOrganizationID sub \<noteq> [] \<and>
     cl_OrgID (id_Claims identity) = sub_AssociatedOrganizationID sub \<and>
     uuidParse L (sub_AssociatedOrganizationID sub) = Some (sub_AssociatedOrganizationID sub)"


lemma scope_of_iff:
  "scope \<in> set (scope_of L s identity sub) \<longleftrightarrow>
     administers L identity sub \<and>
     scope = \<lparr>as_Tenant = sel_tenantName s, as_Namespace = sub_Namespace sub,
              as_Subscription = sub_Name sub, as_OrganizationID = sub_AssociatedOrganizationID sub\<rparr>"
  by (auto simp: scope_of_def canonicalOrganizationID_def administers_def identityHasOrganizationAdmin_def
      split: option.splits)

section \<open>Properties\<close>

text \<open>C26. Organization administration of one subscription is granted exactly when the request
  names exactly one subscription of the tenant's namespace, that subscription is
  associated with a canonical organization UUID, and the verified OIDC identity carries
  that very organization and the admin role; the granted scope is that subscription.
  Inference ownership, groups and model access play no part.\<close>

theorem ResolveSubscriptionAdmin_iff:
  "ResolveSubscriptionAdmin L s identityP req = Inr scope \<longleftrightarrow>
     (\<exists>identity t subs target. identityP = Some identity \<and>
        parseSubscriptionTarget req = Some t \<and> loadAdminSubscriptions L s = Inr subs \<and>
        filter (target_matches t) subs = [target] \<and> administers L identity target \<and> sel_tenantName s \<noteq> [] \<and>
        scope = \<lparr>as_Tenant = sel_tenantName s, as_Namespace = sub_Namespace target,
                 as_Subscription = sub_Name target, as_OrganizationID = cl_OrgID (id_Claims identity)\<rparr>)"
proof -
  have "ResolveSubscriptionAdmin L s identityP req = Inr scope \<longleftrightarrow>
      (\<exists>identity target. identityP = Some identity \<and> adminSubscriptionTarget L s req = Inr target \<and>
        administers L identity target \<and> sel_tenantName s \<noteq> [] \<and>
        scope = \<lparr>as_Tenant = sel_tenantName s, as_Namespace = sub_Namespace target,
                 as_Subscription = sub_Name target, as_OrganizationID = cl_OrgID (id_Claims identity)\<rparr>)"
    by (auto simp: ResolveSubscriptionAdmin_def res_inv canonicalOrganizationID_Inr_iff administers_def
        identityHasOrganizationAdmin_def split: option.splits)
  then show ?thesis unfolding adminSubscriptionTarget_Inr_iff by blast
qed

text \<open>Listing the administered scopes agrees with resolving them one by one: the list holds
  exactly the subscriptions of the tenant's namespace that the identity administers, and
  whatever a single resolution grants is in the list.\<close>

theorem admin_scopes_agree:
  assumes "ResolveSubscriptionAdminScopes L s (Some identity) = Inr scopes"
    and "loadAdminSubscriptions L s = Inr subs"
  shows "set scopes = {\<lparr>as_Tenant = sel_tenantName s, as_Namespace = sub_Namespace sub,
            as_Subscription = sub_Name sub, as_OrganizationID = cl_OrgID (id_Claims identity)\<rparr> | sub.
            sub \<in> set subs \<and> administers L identity sub} \<and>
         (\<forall>req scope. ResolveSubscriptionAdmin L s (Some identity) req = Inr scope \<longrightarrow> scope \<in> set scopes)"
proof -
  have "set scopes = (\<Union>sub\<in>set subs. set (scope_of L s identity sub))"
  proof (cases "identityHasOrganizationAdmin (Some identity) (cl_OrgID (id_Claims identity)) \<and> cl_OrgID (id_Claims identity) \<noteq> []")
    case True
    then show ?thesis
      using assms by (auto simp: ResolveSubscriptionAdminScopes_def res_inv canonicalOrganizationID_Inr_iff
          identityHasOrganizationAdmin_def split: if_splits)
  next
    case False
    then have "\<not> administers L identity sub" for sub
      by (auto simp: administers_def identityHasOrganizationAdmin_def)
    then have "scope \<notin> set (scope_of L s identity sub)" for sub scope by (simp add: scope_of_iff)
    then have "set (scope_of L s identity sub) = {}" for sub by (intro equals0I) simp
    moreover have "scopes = []"
      using False assms(1) by (auto simp: ResolveSubscriptionAdminScopes_def bind_res_eq_Inr_iff
          canonicalOrganizationID_Inr_iff identityHasOrganizationAdmin_def split: if_splits)
    ultimately show ?thesis by simp
  qed
  then have eq: "set scopes = {\<lparr>as_Tenant = sel_tenantName s, as_Namespace = sub_Namespace sub,
            as_Subscription = sub_Name sub, as_OrganizationID = cl_OrgID (id_Claims identity)\<rparr> | sub.
            sub \<in> set subs \<and> administers L identity sub}"
    by (auto simp: scope_of_iff administers_def)
  have "scope \<in> set scopes" if r: "ResolveSubscriptionAdmin L s (Some identity) req = Inr scope" for req scope
  proof -
    from r obtain target where "adminSubscriptionTarget L s req = Inr target" "administers L identity target"
      "scope = \<lparr>as_Tenant = sel_tenantName s, as_Namespace = sub_Namespace target,
         as_Subscription = sub_Name target, as_OrganizationID = cl_OrgID (id_Claims identity)\<rparr>"
      by (auto simp: ResolveSubscriptionAdmin_def res_inv canonicalOrganizationID_Inr_iff administers_def
          identityHasOrganizationAdmin_def)
    moreover from this(1) have "target \<in> set subs"
      unfolding adminSubscriptionTarget_Inr_iff assms(2) by (auto dest!: filter_eq_ConsD)
    ultimately show ?thesis unfolding eq by blast
  qed
  with eq show ?thesis by blast
qed

section \<open>Disclosure of subjects\<close>

















text \<open>The two purposes of the gateway callback stay apart: a selection is answered only in
  select mode, for a named user and without an identity envelope; administration is
  granted only in subscription-admin mode, on an accepted envelope and without any legacy
  selection field; any other purpose is refused. The answer is then that of the selector or
  of the admin resolver.\<close>

theorem SelectSubscription_purposes:
  "(SelectSubscription L J s decoded = Selected r \<longleftrightarrow>
      (\<exists>req. decoded = Some req \<and> rq_Purpose req \<in> {[], ''select''} \<and> rq_Username req \<noteq> [] \<and> rq_Identity req = [] \<and>
         SelectWithContext L s (rq_Groups req) (rq_Username req) (rq_RequestedSubscription req) (rq_RequestedModel req) = Inr r)) \<and>
   (SelectSubscription L J s decoded = AdminResult (AdminAllowed scope) \<longleftrightarrow>
      (\<exists>req identity. decoded = Some req \<and> rq_Purpose req = ''subscription-admin'' \<and> rq_Username req = [] \<and>
         rq_Groups req = [] \<and> rq_RequestedModel req = [] \<and> rq_Identity req \<noteq> [] \<and>
         ParseIdentityEnvelope L J (rq_Identity req) = Inr identity \<and>
         ResolveSubscriptionAdmin L s (Some identity) (rq_RequestedSubscription req) = Inr scope))"
proof (cases decoded)
  case None
  then show ?thesis by (simp add: SelectSubscription_def)
next
  case (Some req)
  have err: "error_response e \<noteq> Selected r" "error_response e \<noteq> AdminResult d" for e d
    by (auto simp: error_response_def split: selectError.splits)
  have empty: "ResolveSubscriptionAdmin L s (Some identity) [] \<noteq> Inr sc" for identity sc
    by (simp add: ResolveSubscriptionAdmin_def adminSubscriptionTarget_def)
  have long: "ParseIdentityEnvelope L J v = Inr i \<Longrightarrow> length v \<le> MaxIdentityEnvelopeBytes" for v i
    by (simp add: ParseIdentityEnvelope_def split: if_splits)
  have adm: "handleSubscriptionAdmin L J s req \<noteq> Selected r"
    by (simp add: handleSubscriptionAdmin_def split: sum.splits adminError.splits)
  have admin: "handleSubscriptionAdmin L J s req = AdminResult (AdminAllowed scope) \<longleftrightarrow>
      (\<exists>identity. rq_Username req = [] \<and> rq_Groups req = [] \<and> rq_RequestedModel req = [] \<and> rq_Identity req \<noteq> [] \<and>
         ParseIdentityEnvelope L J (rq_Identity req) = Inr identity \<and>
         ResolveSubscriptionAdmin L s (Some identity) (rq_RequestedSubscription req) = Inr scope)"
    using empty by (auto simp: handleSubscriptionAdmin_def dest: long split: sum.splits adminError.splits)
  consider "rq_Purpose req \<in> {[], ''select''}" | "rq_Purpose req = ''subscription-admin''"
    | "rq_Purpose req \<notin> {[], ''select'', ''subscription-admin''}" by blast
  then show ?thesis
  proof cases
    case 1
    then show ?thesis using err by (auto simp: SelectSubscription_def Some split: sum.splits)
  next
    case 2
    then show ?thesis using adm admin by (simp add: SelectSubscription_def Some)
  next
    case 3
    then show ?thesis by (simp add: SelectSubscription_def Some)
  qed
qed

section \<open>Witnesses\<close>

definition ex_orgObject :: jobj where
  "ex_orgObject =
     [(''metadata'', JObj [(''name'', JStr ''gold''), (''namespace'', JStr ''tn'')]),
      (''spec'', JObj [(''owner'', JObj [(''groups'', JArr [ex_group ''o1/eng''])]),
         (''organization'', JObj [(''id'', JStr ''o1'')]),
         (''modelRefs'', JArr [JObj [(''namespace'', JStr ''llm''), (''name'', JStr ''m'')]])])]"

definition ex_adminSelector :: selector where
  "ex_adminSelector = \<lparr>sel_lister = Inr [ex_orgObject, ex_subObject], sel_modelLister = None,
     sel_accessChecker = Some (policyChecker (Some (Inr [ex_authPolicy]))),
     sel_subjectInventory = Some (ModelAccessSubjects (Some (Inr [ex_authPolicy]))),
     sel_guardrailResolver = None, sel_tenantName = ''t'', sel_subscriptionNamespace = ''tn''\<rparr>"

definition ex_scope :: adminScope where
  "ex_scope = \<lparr>as_Tenant = ''t'', as_Namespace = ''tn'', as_Subscription = ''gold'', as_OrganizationID = ''o1''\<rparr>"

lemma ex_scopes: "ResolveSubscriptionAdminScopes example_libs ex_adminSelector (Some ex_identity) = Inr [ex_scope]"
  by code_simp

theorem admin_scopes_agree_witness:
  "ResolveSubscriptionAdminScopes example_libs ex_adminSelector (Some ex_identity) = Inr [ex_scope] \<and>
   (\<exists>sub. administers example_libs ex_identity sub \<and> sub_Name sub = ''gold'')"
proof -
  obtain subs where subs: "loadAdminSubscriptions example_libs ex_adminSelector = Inr subs"
    by (simp add: loadAdminSubscriptions_def ex_adminSelector_def)
  have "ex_scope \<in> set [ex_scope]" by simp
  then obtain sub where sub: "administers example_libs ex_identity sub"
    "ex_scope = \<lparr>as_Tenant = sel_tenantName ex_adminSelector, as_Namespace = sub_Namespace sub,
       as_Subscription = sub_Name sub, as_OrganizationID = cl_OrgID (id_Claims ex_identity)\<rparr>"
    unfolding conjunct1 [OF admin_scopes_agree [OF ex_scopes subs]] by blast
  have "sub_Name sub = ''gold''" using arg_cong [OF sub(2), of as_Subscription] by (simp add: ex_scope_def)
  with ex_scopes sub(1) show ?thesis by blast
qed




end
