(* ===== verification/KeyHandler.thy ===== *)
theory KeyHandler
  imports KeyService SubscriptionAdmin
begin

text \<open>
  The HTTP handlers of \<open>maas-api/internal/api_keys/handler.go\<close>: who may create, read,
  search and revoke API keys, and what is answered and audited.

  A request is what the handlers read of the Gin context: the first \<open>Authorization\<close> and
  \<open>X-API-Key\<close> header, the user that the middleware stored and the verified identity
  (\<open>Some None\<close> is a stored value that is nil or of another type). A body that does not
  decode or lacks a required field is \<open>None\<close>. An answer is a status code and a body; texts of messages are left out
  where a code identifies them. Audit events that a handler emits are part of its result.
\<close>

subsection \<open>State and messages\<close>

record keyRequest =
  kr_Authorization :: string
  kr_XAPIKey :: string
  kr_user :: "userContext option option"
  kr_identity :: "verifiedIdentity option option"

record adminResolver =
  ar_Resolve :: "verifiedIdentity option \<Rightarrow> string \<Rightarrow> adminError + adminScope"
  ar_Scopes :: "verifiedIdentity option \<Rightarrow> adminError + adminScope list"
  ar_Canonicalize :: "string \<Rightarrow> adminError + string"

definition resolver_iface :: "libs \<Rightarrow> selector \<Rightarrow> adminResolver" where
  "resolver_iface L sel =
     \<lparr>ar_Resolve = ResolveSubscriptionAdmin L sel, ar_Scopes = ResolveSubscriptionAdminScopes L sel,
      ar_Canonicalize = CanonicalizeSubscription L sel\<rparr>"

record 's handler =
  hd_service :: "'s service"
  hd_adminChecker :: "userContext \<Rightarrow> string + bool"
  hd_adminResolver :: "adminResolver option"

record auditEvent =
  ae_AuthorizationPath :: string
  ae_Action :: string
  ae_Outcome :: string
  ae_Reason :: string
  ae_DryRun :: bool
  ae_User :: userContext
  ae_Scope :: "adminScope option"
  ae_Scopes :: "adminScope list"
  ae_KeyID :: string
  ae_TargetUsername :: string
  ae_TargetSubscription :: string

datatype keyBody =
    ErrorBody string
  | KeyBody apiKey
  | CreatedBody createAPIKeyResponse
  | ListBody "apiKey list" bool
  | ConfigBody int
  | ValidationBody validationResult
  | BulkRevokeBody nat bool
  | RevokeCountBody nat
  | CleanupBody nat

type_synonym answer = "nat \<times> keyBody"

text \<open>The three results \<open>(scope, adminErr, err)\<close> of resolving administration.\<close>

datatype adminResolution = NoScope | Scope adminScope | AdminErr string | ResolveErr

subsection \<open>Credentials and administrators\<close>

definition isAPIKeyBearer :: "string \<Rightarrow> bool" where
  "isAPIKeyBearer authorization =
     (let parts = Fields authorization in
      length parts > 1 \<and> EqualFold (hd parts) ''Bearer'' \<and> HasPrefix (Join (tl parts) '' '') KeyPrefix)"

definition hasAPIKeyCredential :: "keyRequest \<Rightarrow> bool" where
  "hasAPIKeyCredential c \<longleftrightarrow>
     isAPIKeyBearer (kr_Authorization c) \<or> HasPrefix (TrimSpace (kr_XAPIKey c)) KeyPrefix"

definition getUserContext :: "keyRequest \<Rightarrow> answer + userContext" where
  "getUserContext c =
     (case kr_user c of
        None \<Rightarrow> Inl (500, ErrorBody ''User context not found'')
      | Some None \<Rightarrow> Inl (500, ErrorBody ''Invalid user context type'')
      | Some (Some user) \<Rightarrow> Inr user)"

text \<open>\<open>(identity, ok)\<close>: without a stored identity the identity is nil and the result ok.\<close>

definition requestIdentity :: "keyRequest \<Rightarrow> verifiedIdentity option \<times> bool" where
  "requestIdentity c =
     (case kr_identity c of
        None \<Rightarrow> (None, True) | Some None \<Rightarrow> (None, False) | Some (Some identity) \<Rightarrow> (Some identity, True))"

definition isAdmin :: "'s handler \<Rightarrow> userContext \<Rightarrow> string + bool" where
  "isAdmin h user = hd_adminChecker h user"

definition resolveSubscriptionAdmin ::
    "'s handler \<Rightarrow> verifiedIdentity option \<Rightarrow> string \<Rightarrow> userContext \<Rightarrow> adminResolution" where
  "resolveSubscriptionAdmin h identity requestedSubscription user =
     (case hd_adminResolver h of
        None \<Rightarrow> ResolveErr
      | Some r \<Rightarrow>
        if identity = None \<or> requestedSubscription = [] then NoScope
        else
          (case ar_Resolve r identity requestedSubscription of
             Inl (SubscriptionAdminError code) \<Rightarrow> AdminErr code
           | Inl _ \<Rightarrow> ResolveErr
           | Inr scope \<Rightarrow>
             if as_Tenant scope \<noteq> uc_Tenant user \<or> as_Subscription scope = [] then AdminErr ''access_denied''
             else Scope scope))"

datatype scopesResolution = Scopes "adminScope list" | ScopesAdminErr string | ScopesErr

definition resolveSubscriptionAdminScopes ::
    "'s handler \<Rightarrow> verifiedIdentity option \<Rightarrow> userContext \<Rightarrow> scopesResolution" where
  "resolveSubscriptionAdminScopes h identity user =
     (case hd_adminResolver h of
        None \<Rightarrow> ScopesErr
      | Some r \<Rightarrow>
        if identity = None then Scopes []
        else
          (case ar_Scopes r identity of
             Inl _ \<Rightarrow> ScopesErr
           | Inr scopes \<Rightarrow>
             if list_ex (\<lambda>scope. as_Tenant scope \<noteq> uc_Tenant user \<or> as_Subscription scope = []) scopes
             then ScopesAdminErr ''access_denied'' else Scopes scopes))"

definition canonicalizeSubscription :: "'s handler \<Rightarrow> string \<Rightarrow> string option + string" where
  "canonicalizeSubscription h requestedSubscription =
     (case hd_adminResolver h of
        None \<Rightarrow> Inl None
      | Some r \<Rightarrow>
        (case ar_Canonicalize r requestedSubscription of
           Inl (SubscriptionAdminError code) \<Rightarrow> Inl (Some code)
         | Inl _ \<Rightarrow> Inl None
         | Inr canonical \<Rightarrow> if canonical = [] then Inl (Some ''internal_error'') else Inr canonical))"

definition audit :: "string \<Rightarrow> userContext \<Rightarrow> string \<Rightarrow> string \<Rightarrow> auditEvent" where
  "audit action user outcome reason =
     \<lparr>ae_AuthorizationPath = [], ae_Action = action, ae_Outcome = outcome, ae_Reason = reason, ae_DryRun = False,
      ae_User = user, ae_Scope = None, ae_Scopes = [], ae_KeyID = [], ae_TargetUsername = [], ae_TargetSubscription = []\<rparr>"

text \<open>\<open>emitDelegatedAdminAuditResult\<close>: nothing for a nil event, else the adjusted event.\<close>

definition emitDelegatedAdminAuditResult :: "auditEvent option \<Rightarrow> string \<Rightarrow> string \<Rightarrow> auditEvent list" where
  "emitDelegatedAdminAuditResult event outcome reason =
     (case event of None \<Rightarrow> []
      | Some e \<Rightarrow> [e\<lparr>ae_Outcome := (if outcome \<noteq> [] then outcome else ae_Outcome e),
                    ae_Reason := (if reason \<noteq> [] then reason else ae_Reason e)\<rparr>])"

definition emitDelegatedAdminAudit :: "auditEvent option \<Rightarrow> auditEvent list" where
  "emitDelegatedAdminAudit event = (case event of None \<Rightarrow> [] | Some e \<Rightarrow> [e])"

definition isAuthorizedForKey ::
    "'s handler \<Rightarrow> userContext \<Rightarrow> verifiedIdentity option \<Rightarrow> apiKey \<Rightarrow> string \<Rightarrow> (string + bool) \<times> auditEvent option" where
  "isAuthorizedForKey h user identity key action =
     (if uc_Tenant user \<noteq> ak_Tenant key then (Inr False, None)
      else if uc_Username user = ak_Username key then (Inr True, None)
      else
        (let about = (\<lambda>e. e\<lparr>ae_KeyID := ak_ID key, ae_TargetUsername := ak_Username key\<rparr>);
             fallback = (\<lambda>delegatedAudit.
               (case isAdmin h user of
                  Inl e \<Rightarrow> (Inl e, map_option (\<lambda>a. a\<lparr>ae_Outcome := ''error'', ae_Reason := ''admin_status_error''\<rparr>) delegatedAudit)
                | Inr admin \<Rightarrow>
                  (Inr admin,
                   map_option (\<lambda>a. if admin then a\<lparr>ae_Outcome := ''allowed'', ae_Reason := ''platform_admin_fallback'',
                                                  ae_AuthorizationPath := ''platform-admin-fallback''\<rparr> else a) delegatedAudit)))
         in if identity \<noteq> None \<and> ak_Subscription key \<noteq> [] then
              (let denied = (about (audit action user ''denied'' ''subscription_scope_denied''))
                              \<lparr>ae_TargetSubscription := ak_Subscription key\<rparr>
               in case resolveSubscriptionAdmin h identity (ak_Subscription key) user of
                    ResolveErr \<Rightarrow>
                      (Inl ''resolution_error'',
                       Some (denied\<lparr>ae_Outcome := ''error'', ae_Reason := ''resolution_error''\<rparr>))
                  | Scope scope \<Rightarrow>
                      if as_Subscription scope = ak_Subscription key
                      then (Inr True, Some ((about (audit action user ''allowed'' []))\<lparr>ae_Scope := Some scope\<rparr>))
                      else fallback (Some denied)
                  | _ \<Rightarrow> fallback (Some denied))
            else fallback None))"

subsection \<open>Reading, revoking and validating one key\<close>

definition not_found :: answer where
  "not_found = (404, ErrorBody ''API key not found'')"

definition rejectAPIKeyManagement :: "keyRequest \<Rightarrow> answer option" where
  "rejectAPIKeyManagement c =
     (if hasAPIKeyCredential c then Some (403, ErrorBody ''API keys cannot manage API keys'') else None)"

definition h_GetAPIKey ::
    "time \<Rightarrow> keyRequest \<Rightarrow> string \<Rightarrow> 's handler \<Rightarrow> answer \<times> auditEvent list \<times> 's handler" where
  "h_GetAPIKey now c tokenID h =
     (case rejectAPIKeyManagement c of Some a \<Rightarrow> (a, [], h)
      | None \<Rightarrow>
        if tokenID = [] then ((400, ErrorBody ''Token ID required''), [], h)
        else
          (case getUserContext c of Inl a \<Rightarrow> (a, [], h)
           | Inr user \<Rightarrow>
             (case requestIdentity c of
                (identity, False) \<Rightarrow> ((500, ErrorBody ''Invalid verified identity context type''), [], h)
              | (identity, True) \<Rightarrow>
                (case GetAPIKey now tokenID (hd_service h) of
                   (r, sv) \<Rightarrow>
                   (let h = h\<lparr>hd_service := sv\<rparr> in
                    case r of
                      Inl e \<Rightarrow> if e = ErrKeyNotFound then (not_found, [], h)
                               else ((500, ErrorBody ''Failed to retrieve API key''), [], h)
                    | Inr tok \<Rightarrow>
                      (case isAuthorizedForKey h user identity tok ''api-key-get'' of
                         (Inl _, delegatedAudit) \<Rightarrow> (not_found, emitDelegatedAdminAudit delegatedAudit, h)
                       | (Inr authorized, delegatedAudit) \<Rightarrow>
                         if \<not> authorized then (not_found, emitDelegatedAdminAudit delegatedAudit, h)
                         else ((200, KeyBody tok), emitDelegatedAdminAudit delegatedAudit, h)))))))"

definition h_RevokeAPIKey ::
    "time \<Rightarrow> keyRequest \<Rightarrow> string \<Rightarrow> 's handler \<Rightarrow> answer \<times> auditEvent list \<times> 's handler" where
  "h_RevokeAPIKey now c keyID h =
     (case rejectAPIKeyManagement c of Some a \<Rightarrow> (a, [], h)
      | None \<Rightarrow>
        if keyID = [] then ((400, ErrorBody ''API key ID required''), [], h)
        else
          (case getUserContext c of Inl a \<Rightarrow> (a, [], h)
           | Inr user \<Rightarrow>
             (case requestIdentity c of
                (identity, False) \<Rightarrow> ((500, ErrorBody ''Invalid verified identity context type''), [], h)
              | (identity, True) \<Rightarrow>
                (case GetAPIKey now keyID (hd_service h) of
                   (r, sv) \<Rightarrow>
                   (let h = h\<lparr>hd_service := sv\<rparr> in
                    case r of
                      Inl e \<Rightarrow> if e = ErrKeyNotFound then (not_found, [], h)
                               else ((500, ErrorBody ''Failed to retrieve API key''), [], h)
                    | Inr keyMetadata \<Rightarrow>
                      (case isAuthorizedForKey h user identity keyMetadata ''api-key-revoke'' of
                         (Inl _, delegatedAudit) \<Rightarrow> (not_found, emitDelegatedAdminAudit delegatedAudit, h)
                       | (Inr authorized, delegatedAudit) \<Rightarrow>
                         if \<not> authorized then (not_found, emitDelegatedAdminAudit delegatedAudit, h)
                         else
                           (case svc_RevokeAPIKey keyID (hd_service h) of
                              (Some e, sv) \<Rightarrow>
                                (let h = h\<lparr>hd_service := sv\<rparr>;
                                     audits = emitDelegatedAdminAuditResult delegatedAudit ''error'' ''request_failed''
                                 in if e = ErrKeyNotFound then (not_found, audits, h)
                                    else ((500, ErrorBody ''Failed to revoke API key''), audits, h))
                            | (None, sv) \<Rightarrow>
                              (let delegatedAudit = map_option (\<lambda>a. a\<lparr>ae_Outcome := ''allowed''\<rparr>) delegatedAudit
                               in case GetAPIKey now keyID sv of
                                    (Inl e, sv) \<Rightarrow>
                                      ((500, ErrorBody ''Key revoked but failed to retrieve metadata''),
                                       emitDelegatedAdminAuditResult delegatedAudit ''allowed'' ''metadata_retrieval_failed'',
                                       h\<lparr>hd_service := sv\<rparr>)
                                  | (Inr revokedKey, sv) \<Rightarrow>
                                      ((200, KeyBody revokedKey), emitDelegatedAdminAudit delegatedAudit,
                                       h\<lparr>hd_service := sv\<rparr>)))))))))"

definition h_GetAPIKeyConfig :: "keyRequest \<Rightarrow> 's handler \<Rightarrow> answer" where
  "h_GetAPIKeyConfig c h =
     (case rejectAPIKeyManagement c of Some a \<Rightarrow> a
      | None \<Rightarrow> (200, ConfigBody (GetMaxExpirationDays (hd_service h))))"

text \<open>
  The metrics of a validation are \<open>(tenant, result)\<close> and whether an unauthorized rejection is
  counted.
\<close>

definition h_ValidateAPIKeyHandler ::
    "libs \<Rightarrow> (string list \<Rightarrow> string) \<Rightarrow> time \<Rightarrow> string option \<Rightarrow> 's handler
     \<Rightarrow> answer \<times> (string \<times> string \<times> bool) option \<times> 's handler \<times> (string \<times> time) option" where
  "h_ValidateAPIKeyHandler L marshal now req h =
     (case req of None \<Rightarrow> ((400, ErrorBody ''key is required''), None, h, None)
      | Some key \<Rightarrow>
        (case ValidateAPIKey L marshal now key (hd_service h) of
           (r, sv, pending) \<Rightarrow>
           (case r of
              Inl e \<Rightarrow> ((500, ErrorBody ''validation failed''),
                       Some (GetTenantName (hd_service h), ''error'', False), h\<lparr>hd_service := sv\<rparr>, pending)
            | Inr result \<Rightarrow>
              ((200, ValidationBody result),
               Some (vr_Tenant result, if vr_Valid result then ''valid'' else ''invalid'', \<not> vr_Valid result),
               h\<lparr>hd_service := sv\<rparr>, pending))))"

subsection \<open>Creating a key\<close>

definition control_char :: "char \<Rightarrow> bool" where
  "control_char c \<longleftrightarrow> (of_char c :: nat) \<le> 0x1F \<or> (of_char c :: nat) = 0x7F"

definition alnum :: "char \<Rightarrow> bool" where
  "alnum c \<longleftrightarrow> base62_char c"

text \<open>
  One part of a label key: it begins and ends with an alphanumeric character, in between
  the extra characters are allowed too.
\<close>

definition label_part :: "string \<Rightarrow> string \<Rightarrow> bool" where
  "label_part extra s \<longleftrightarrow>
     s \<noteq> [] \<and> alnum (hd s) \<and> alnum (last s) \<and> list_all (\<lambda>c. alnum c \<or> c \<in> set extra) s"

definition validLabelKeyPattern :: "string \<Rightarrow> bool" where
  "validLabelKeyPattern key =
     (case Cut (CHR ''/'') key of
        None \<Rightarrow> label_part ''._-'' key
      | Some (prefix, name) \<Rightarrow> label_part ''.-'' prefix \<and> label_part ''._-'' name)"

definition MaxLabelsEntries :: nat where "MaxLabelsEntries = 50"
definition MaxLabelKeyLength :: nat where "MaxLabelKeyLength = 128"
definition MaxLabelValueLength :: nat where "MaxLabelValueLength = 1024"

datatype labelError = TooManyLabels | EmptyLabelKey | LabelKeyTooLong | LabelKeyChars | EmptyLabelValue | LabelValueTooLong | LabelValueChars

definition label_error :: "string \<times> string \<Rightarrow> labelError option" where
  "label_error kv =
     (let key = fst kv; val = snd kv in
      if key = [] then Some EmptyLabelKey
      else if length key > MaxLabelKeyLength then Some LabelKeyTooLong
      else if \<not> validLabelKeyPattern key then Some LabelKeyChars
      else if val = [] then Some EmptyLabelValue
      else if length val > MaxLabelValueLength then Some LabelValueTooLong
      else if list_ex control_char val then Some LabelValueChars
      else None)"

definition validateLabels :: "labels \<Rightarrow> labelError option" where
  "validateLabels labels =
     (if length labels > MaxLabelsEntries then Some TooManyLabels
      else Option.bind (find (\<lambda>kv. label_error kv \<noteq> None) labels) label_error)"

text \<open>
  \<open>utf8.RuneCountInString\<close>: the bytes of a valid encoding count once, any other byte counts
  by itself.
\<close>

definition cont :: "nat list \<Rightarrow> nat \<Rightarrow> nat \<Rightarrow> nat \<Rightarrow> bool" where
  "cont bs i lo hi \<longleftrightarrow> i < length bs \<and> lo \<le> bs ! i \<and> bs ! i \<le> hi"

definition rune_length :: "nat list \<Rightarrow> nat" where
  "rune_length bs =
     (case bs of [] \<Rightarrow> 1
      | b # _ \<Rightarrow>
        let c = (\<lambda>i. cont bs i 0x80 0xBF) in
        if 0xC2 \<le> b \<and> b \<le> 0xDF \<and> c 1 then 2
        else if b = 0xE0 \<and> cont bs 1 0xA0 0xBF \<and> c 2 then 3
        else if b = 0xED \<and> cont bs 1 0x80 0x9F \<and> c 2 then 3
        else if 0xE1 \<le> b \<and> b \<le> 0xEF \<and> b \<noteq> 0xED \<and> c 1 \<and> c 2 then 3
        else if b = 0xF0 \<and> cont bs 1 0x90 0xBF \<and> c 2 \<and> c 3 then 4
        else if 0xF1 \<le> b \<and> b \<le> 0xF3 \<and> c 1 \<and> c 2 \<and> c 3 then 4
        else if b = 0xF4 \<and> cont bs 1 0x80 0x8F \<and> c 2 \<and> c 3 then 4
        else 1)"

lemma rune_length_pos: "0 < rune_length bs"
  by (simp add: rune_length_def Let_def split: list.splits)

function rune_count :: "nat list \<Rightarrow> nat" where
  "rune_count bs = (if bs = [] then 0 else 1 + rune_count (drop (rune_length bs) bs))"
  by auto
termination
  by (relation "measure length") (auto simp: rune_length_pos)

declare rune_count.simps [simp del]

definition RuneCountInString :: "string \<Rightarrow> nat" where
  "RuneCountInString s = rune_count (map of_char s)"

lemma rune_count_le: "rune_count bs \<le> length bs"
proof (induction bs rule: rune_count.induct)
  case (1 bs)
  then show ?case using rune_length_pos [of bs]
    by (cases "bs = []") (auto simp: rune_count.simps [of bs] rune_count.simps [of "[]"] Suc_le_eq neq_Nil_conv)
qed

definition UnixNano :: "time \<Rightarrow> int" where
  "UnixNano t = t - 62135596800 * Second"

record createBody =
  cb_Name :: string
  cb_Description :: string
  cb_Subscription :: string
  cb_ExpiresIn :: "int option"
  cb_Ephemeral :: bool
  cb_Labels :: labels

definition key_name :: "time \<Rightarrow> createBody \<Rightarrow> answer + string" where
  "key_name now req =
     (if cb_Ephemeral req \<and> cb_Name req = [] then Inr (''ephemeral-'' @ format_int (UnixNano now))
      else
        (let name = TrimSpace (cb_Name req) in
         if length name = 0 then Inl (400, ErrorBody ''key name cannot be whitespace only'')
         else if RuneCountInString name > 128 then Inl (400, ErrorBody ''key name cannot exceed 128 characters'')
         else if list_ex control_char name then Inl (400, ErrorBody ''key name contains invalid control characters'')
         else Inr name))"

definition create_error :: "serviceError \<Rightarrow> string \<times> answer" where
  "create_error err =
     (case err of
        ErrExpirationNotPositive \<Rightarrow> (''rejected'', 400, ErrorBody ''expiration'')
      | ErrExpirationExceedsMax \<Rightarrow> (''rejected'', 400, ErrorBody ''expiration'')
      | ErrInvalidGroupName _ \<Rightarrow> (''rejected'', 400, ErrorBody ''group name'')
      | SelectFailed (SubscriptionNotFoundError _) \<Rightarrow> (''rejected'', 400, ErrorBody ''invalid_subscription'')
      | SelectFailed (AccessDeniedError _) \<Rightarrow> (''rejected'', 400, ErrorBody ''invalid_subscription'')
      | SelectFailed NoSubscriptionError \<Rightarrow> (''rejected'', 400, ErrorBody ''invalid_subscription'')
      | SelectFailed (MultipleSubscriptionsError _) \<Rightarrow> (''rejected'', 400, ErrorBody ''invalid_subscription'')
      | SelectFailed (ModelNotInSubscriptionError _ _) \<Rightarrow> (''rejected'', 400, ErrorBody ''invalid_subscription'')
      | SelectFailed (ModelUnhealthyError _ phase _ _) \<Rightarrow>
          (''rejected'', if phase = ''Failed'' then 403 else 400, ErrorBody ''subscription_not_ready'')
      | _ \<Rightarrow> (''failure'', 500, ErrorBody ''Failed to create API key''))"

text \<open>The answer, the recorded mint metric \<open>(tenant, result)\<close>, the handler.\<close>

definition h_CreateAPIKey ::
    "libs \<Rightarrow> creationInput \<Rightarrow> keyRequest \<Rightarrow> createBody option \<Rightarrow> 's handler
     \<Rightarrow> answer \<times> (string \<times> string) option \<times> 's handler" where
  "h_CreateAPIKey L inp c body h =
     (if hasAPIKeyCredential c then
        ((403, ErrorBody ''API keys cannot create API keys''), Some (GetTenantName (hd_service h), ''rejected''), h)
      else case body of None \<Rightarrow> ((400, ErrorBody ''invalid body''), None, h)
      | Some req \<Rightarrow>
        (case getUserContext c of Inl a \<Rightarrow> (a, None, h)
         | Inr user \<Rightarrow>
           if \<not> cb_Ephemeral req \<and> cb_Name req = [] then
             ((400, ErrorBody ''name is required for non-ephemeral keys''), None, h)
           else if validateLabels (cb_Labels req) \<noteq> None then ((400, ErrorBody ''invalid label''), None, h)
           else
             (case key_name (ci_now inp) req of Inl a \<Rightarrow> (a, None, h)
              | Inr name \<Rightarrow>
                (let expiresIn = (case cb_ExpiresIn req of Some d \<Rightarrow> Some d
                                  | None \<Rightarrow> if cb_Ephemeral req then Some Hour else None)
                 in case CreateAPIKey L inp
                      \<lparr>rq_username = uc_Username user, rq_userGroups = uc_Groups user, rq_name = name,
                       rq_description = cb_Description req, rq_expiresIn = expiresIn, rq_ephemeral = cb_Ephemeral req,
                       rq_requestedSubscription = TrimSpace (cb_Subscription req), rq_tenant = uc_Tenant user,
                       rq_labels = cb_Labels req\<rparr> (hd_service h) of
                      (Inl e, sv) \<Rightarrow>
                        (case create_error e of (metric, a) \<Rightarrow> (a, Some (uc_Tenant user, metric), h\<lparr>hd_service := sv\<rparr>))
                    | (Inr result, sv) \<Rightarrow>
                        ((201, CreatedBody result), Some (uc_Tenant user, ''success''), h\<lparr>hd_service := sv\<rparr>)))))"

subsection \<open>Searching\<close>

record searchBody =
  sb_Filters :: "(string \<times> searchFilters) option"
  sb_Sort :: "sortParams option"
  sb_Pagination :: "paginationParams option"

definition no_filters :: searchFilters where
  "no_filters = \<lparr>sf_Status = [], sf_Subscription = None, sf_SubscriptionNames = [], sf_IncludeEphemeral = None,
     sf_LabelsContain = []\<rparr>"

text \<open>The request after defaults: user name, filters, sorting, pagination.\<close>

type_synonym searchRequest = "string \<times> searchFilters \<times> sortParams \<times> paginationParams"

definition applySearchAPIKeysDefaults :: "searchBody \<Rightarrow> searchRequest" where
  "applySearchAPIKeysDefaults req =
     (case (case sb_Filters req of None \<Rightarrow> ([], no_filters) | Some f \<Rightarrow> f) of
        (username, filters) \<Rightarrow>
        (username, filters,
         (case sb_Sort req of None \<Rightarrow> \<lparr>so_By = ''created_at'', so_Order = ''desc''\<rparr> | Some x \<Rightarrow> x),
         (case sb_Pagination req of None \<Rightarrow> \<lparr>pp_Limit = 50, pp_Offset = 0\<rparr> | Some x \<Rightarrow> x)))"

definition ValidStatuses :: "string list" where
  "ValidStatuses = [''active'', ''revoked'', ''expired'']"

definition validateSearchAPIKeysRequest :: "searchRequest \<Rightarrow> answer + searchRequest" where
  "validateSearchAPIKeysRequest req =
     (case req of (username, filters, sorting, pagination) \<Rightarrow>
        if list_ex (\<lambda>st. TrimSpace st \<notin> set ValidStatuses) (sf_Status filters) then Inl (400, ErrorBody ''invalid status'')
        else if so_By sorting \<noteq> [] \<and> so_By sorting \<notin> set ValidSortFields then Inl (400, ErrorBody ''invalid sort.by'')
        else
          (let orderLower = ToLower (TrimSpace (so_Order sorting)) in
           if so_Order sorting \<noteq> [] \<and> orderLower \<notin> set ValidSortOrders then Inl (400, ErrorBody ''invalid sort.order'')
           else
             (let sorting = (if so_Order sorting \<noteq> [] then sorting\<lparr>so_Order := orderLower\<rparr> else sorting) in
              if pp_Limit pagination < 1 then Inl (400, ErrorBody ''pagination.limit'')
              else
                (let pagination = (if pp_Limit pagination > MaxLimit then pagination\<lparr>pp_Limit := MaxLimit\<rparr> else pagination) in
                 if pp_Offset pagination < 0 then Inl (400, ErrorBody ''pagination.offset'')
                 else if validateLabels (sf_LabelsContain filters) \<noteq> None then Inl (400, ErrorBody ''invalid label'')
                 else Inr (username, filters, sorting, pagination)))))"

text \<open>\<open>(delegatedAdmin, audit, filters)\<close>, or an error of the resolution.\<close>

definition applyExplicitSubscriptionAdmin ::
    "'s handler \<Rightarrow> verifiedIdentity option \<Rightarrow> userContext \<Rightarrow> string \<Rightarrow> string \<Rightarrow> searchFilters
     \<Rightarrow> unit + bool \<times> auditEvent option \<times> searchFilters" where
  "applyExplicitSubscriptionAdmin h identity user targetUsername requestedSubscription filters =
     (let denied = (\<lambda>reason. (audit ''api-key-search'' user ''denied'' reason)
            \<lparr>ae_TargetUsername := targetUsername, ae_TargetSubscription := requestedSubscription\<rparr>)
      in case resolveSubscriptionAdmin h identity requestedSubscription user of
           ResolveErr \<Rightarrow> Inl ()
         | Scope scope \<Rightarrow>
             Inr (True, Some ((audit ''api-key-search'' user ''allowed'' [])
                    \<lparr>ae_Scope := Some scope, ae_TargetUsername := targetUsername\<rparr>),
                  filters\<lparr>sf_Subscription := Some (as_Subscription scope)\<rparr>)
         | AdminErr code \<Rightarrow> Inr (False, Some (denied code), filters)
         | NoScope \<Rightarrow> Inr (False, Some (denied ''subscription_admin_denied''), filters))"

definition first_occurrences :: "string list \<Rightarrow> string list" where
  "first_occurrences xs = rev (remdups (rev xs))"

definition applySubscriptionAdminUnion ::
    "'s handler \<Rightarrow> verifiedIdentity option \<Rightarrow> userContext \<Rightarrow> string \<Rightarrow> searchFilters
     \<Rightarrow> string option + bool \<times> auditEvent option \<times> searchFilters" where
  "applySubscriptionAdminUnion h identity user targetUsername filters =
     (case resolveSubscriptionAdminScopes h identity user of
        ScopesErr \<Rightarrow> Inl None
      | ScopesAdminErr code \<Rightarrow> Inl (Some code)
      | Scopes scopes \<Rightarrow>
        if scopes = [] then Inr (False, None, filters)
        else Inr (True, Some ((audit ''api-key-search'' user ''allowed'' [])
                    \<lparr>ae_Scopes := scopes, ae_TargetUsername := targetUsername\<rparr>),
                  filters\<lparr>sf_SubscriptionNames := first_occurrences (map as_Subscription scopes)\<rparr>))"

definition applySelfServiceSearchScope :: "bool \<Rightarrow> bool \<Rightarrow> string \<Rightarrow> userContext \<Rightarrow> string option" where
  "applySelfServiceSearchScope delegatedAdmin admin targetUsername user =
     (if delegatedAdmin \<or> admin then Some targetUsername
      else if targetUsername \<noteq> [] \<and> targetUsername \<noteq> uc_Username user then None
      else Some (uc_Username user))"

definition run_search ::
    "time \<Rightarrow> string \<Rightarrow> userContext \<Rightarrow> searchFilters \<Rightarrow> sortParams \<Rightarrow> paginationParams \<Rightarrow> auditEvent option \<Rightarrow> 's handler
     \<Rightarrow> answer \<times> auditEvent list \<times> 's handler" where
  "run_search now targetUsername user filters sorting pagination delegatedAudit h =
     (case svc_Search now targetUsername (uc_Tenant user) filters sorting pagination (hd_service h) of
        (Inl e, sv) \<Rightarrow> ((500, ErrorBody ''Failed to search API keys''),
                       emitDelegatedAdminAuditResult delegatedAudit ''error'' ''request_failed'', h\<lparr>hd_service := sv\<rparr>)
      | (Inr result, sv) \<Rightarrow>
          ((200, ListBody (pr_Keys result) (pr_HasMore result)), emitDelegatedAdminAudit delegatedAudit,
           h\<lparr>hd_service := sv\<rparr>))"

definition check_failed :: answer where
  "check_failed = (500, ErrorBody ''Failed to check authorization'')"

text \<open>The part after the scope is known: self-service, canonical subscription, the search.\<close>

definition search_scoped ::
    "time \<Rightarrow> userContext \<Rightarrow> bool \<Rightarrow> bool \<Rightarrow> string \<Rightarrow> string \<Rightarrow> searchFilters \<Rightarrow> sortParams \<Rightarrow> paginationParams
     \<Rightarrow> auditEvent option \<Rightarrow> 's handler \<Rightarrow> answer \<times> auditEvent list \<times> 's handler" where
  "search_scoped now user delegatedAdmin admin targetUsername requestedSubscription filters sorting pagination delegatedAudit h =
     (case applySelfServiceSearchScope delegatedAdmin admin targetUsername user of
        None \<Rightarrow> ((403, ErrorBody ''non-admin users can only search their own API keys''),
                 emitDelegatedAdminAudit delegatedAudit, h)
      | Some targetUsername \<Rightarrow>
        if \<not> delegatedAdmin \<and> requestedSubscription \<noteq> [] then
          (case canonicalizeSubscription h requestedSubscription of
             Inl None \<Rightarrow> (check_failed,
                emitDelegatedAdminAuditResult delegatedAudit ''error'' ''subscription_canonicalization_error'', h)
           | Inl (Some _) \<Rightarrow>
             if \<not> admin then ((200, ListBody [] False), emitDelegatedAdminAudit delegatedAudit, h)
             else ((400, ErrorBody ''invalid_subscription''),
                   emitDelegatedAdminAuditResult delegatedAudit ''error'' ''subscription_canonicalization_failed'', h)
           | Inr canonical \<Rightarrow>
             run_search now targetUsername user (filters\<lparr>sf_Subscription := Some canonical\<rparr>) sorting pagination
               (map_option (\<lambda>a. a\<lparr>ae_TargetSubscription := canonical, ae_Outcome := ''allowed'',
                   ae_Reason := (if admin then ''platform_admin_fallback'' else ''owner_fallback''),
                   ae_AuthorizationPath := (if admin then ''platform-admin-fallback'' else ''owner-fallback'')\<rparr>) delegatedAudit) h)
        else run_search now targetUsername user filters sorting pagination delegatedAudit h)"

text \<open>The authorization of a search: by explicit subscription, as platform administrator, by the union.\<close>

definition search_authorized ::
    "time \<Rightarrow> userContext \<Rightarrow> verifiedIdentity option \<Rightarrow> searchRequest \<Rightarrow> 's handler
     \<Rightarrow> answer \<times> auditEvent list \<times> 's handler" where
  "search_authorized now user identity req h =
     (case req of (username, filters0, sorting, pagination) \<Rightarrow>
        (let targetUsername = TrimSpace username;
             requestedSubscription = (case sf_Subscription filters0 of None \<Rightarrow> [] | Some x \<Rightarrow> TrimSpace x);
             filters = (if requestedSubscription = [] then filters0\<lparr>sf_Subscription := None\<rparr> else filters0);
             failed = (\<lambda>reason sub. (audit ''api-key-search'' user ''error'' reason)
                \<lparr>ae_TargetUsername := targetUsername, ae_TargetSubscription := sub\<rparr>)
         in case (if identity \<noteq> None \<and> requestedSubscription \<noteq> []
                  then applyExplicitSubscriptionAdmin h identity user targetUsername requestedSubscription filters
                  else Inr (False, None, filters)) of
              Inl _ \<Rightarrow> (check_failed, [failed ''resolution_error'' requestedSubscription], h)
            | Inr (delegatedAdmin, delegatedAudit, filters) \<Rightarrow>
              (case (if delegatedAdmin then Inr False else isAdmin h user) of
                 Inl _ \<Rightarrow> (check_failed, emitDelegatedAdminAuditResult delegatedAudit ''error'' ''admin_status_error'', h)
               | Inr admin \<Rightarrow>
                 if identity \<noteq> None \<and> requestedSubscription = [] \<and> \<not> admin then
                   (case applySubscriptionAdminUnion h identity user targetUsername filters of
                      Inl None \<Rightarrow> (check_failed, [failed ''resolution_error'' []], h)
                    | Inl (Some code) \<Rightarrow>
                        ((403, ErrorBody ''Failed to check authorization''),
                         [(failed code [])\<lparr>ae_Outcome := ''denied''\<rparr>], h)
                    | Inr (delegatedAdmin, delegatedAudit, filters) \<Rightarrow>
                        search_scoped now user delegatedAdmin admin targetUsername requestedSubscription filters
                          sorting pagination delegatedAudit h)
                 else search_scoped now user delegatedAdmin admin targetUsername requestedSubscription filters
                        sorting pagination delegatedAudit h)))"

definition h_SearchAPIKeys ::
    "time \<Rightarrow> keyRequest \<Rightarrow> searchBody option \<Rightarrow> 's handler \<Rightarrow> answer \<times> auditEvent list \<times> 's handler" where
  "h_SearchAPIKeys now c body h =
     (case rejectAPIKeyManagement c of Some a \<Rightarrow> (a, [], h)
      | None \<Rightarrow>
        (case kr_user c of
           None \<Rightarrow> ((200, ListBody [] False), [], h)
         | Some u \<Rightarrow>
           (case body of None \<Rightarrow> ((400, ErrorBody ''invalid body''), [], h)
            | Some req \<Rightarrow>
              (case u of None \<Rightarrow> ((500, ErrorBody ''Invalid user context type''), [], h)
               | Some user \<Rightarrow>
                 (case requestIdentity c of
                    (identity, False) \<Rightarrow> ((500, ErrorBody ''Invalid verified identity context type''), [], h)
                  | (identity, True) \<Rightarrow>
                    (case validateSearchAPIKeysRequest (applySearchAPIKeysDefaults req) of
                       Inl a \<Rightarrow> (a, [], h)
                     | Inr req \<Rightarrow> search_authorized now user identity req h))))))"

subsection \<open>Bulk revocation and lifecycle\<close>

record bulkRevokeRequest =
  br_Username :: string
  br_Subscription :: string
  br_DryRun :: bool

definition run_bulk_revoke ::
    "time \<Rightarrow> userContext \<Rightarrow> string \<Rightarrow> string \<Rightarrow> bool \<Rightarrow> auditEvent option \<Rightarrow> 's handler
     \<Rightarrow> answer \<times> auditEvent list \<times> 's handler" where
  "run_bulk_revoke now user username subscription dryRun delegatedAudit h =
     (case svc_BulkRevokeAPIKeys now username subscription (uc_Tenant user) dryRun (hd_service h) of
        (Inl e, sv) \<Rightarrow>
          ((500, ErrorBody (if dryRun then ''Failed to perform dry-run'' else ''Failed to revoke API keys'')),
           emitDelegatedAdminAuditResult delegatedAudit ''error'' ''request_failed'', h\<lparr>hd_service := sv\<rparr>)
      | (Inr n, sv) \<Rightarrow>
          if dryRun then
            ((200, BulkRevokeBody n True),
             emitDelegatedAdminAuditResult (map_option (\<lambda>a. a\<lparr>ae_DryRun := True\<rparr>) delegatedAudit) ''allowed'' [],
             h\<lparr>hd_service := sv\<rparr>)
          else ((200, BulkRevokeBody n False), emitDelegatedAdminAudit delegatedAudit, h\<lparr>hd_service := sv\<rparr>))"

definition bulk_revoke_as_admin ::
    "time \<Rightarrow> userContext \<Rightarrow> string \<Rightarrow> string \<Rightarrow> bool \<Rightarrow> auditEvent option \<Rightarrow> 's handler
     \<Rightarrow> answer \<times> auditEvent list \<times> 's handler" where
  "bulk_revoke_as_admin now user username subscription dryRun delegatedAudit h =
     (case isAdmin h user of
        Inl _ \<Rightarrow> (check_failed, emitDelegatedAdminAuditResult delegatedAudit ''error'' ''admin_status_error'', h)
      | Inr admin \<Rightarrow>
        if \<not> admin then ((403, ErrorBody ''Access denied: admin privileges required''),
                         emitDelegatedAdminAudit delegatedAudit, h)
        else if subscription \<noteq> [] then
          (case canonicalizeSubscription h subscription of
             Inl None \<Rightarrow> (check_failed,
                emitDelegatedAdminAuditResult delegatedAudit ''error'' ''subscription_canonicalization_error'', h)
           | Inl (Some code) \<Rightarrow> ((400, ErrorBody code),
                emitDelegatedAdminAuditResult delegatedAudit ''error'' ''subscription_canonicalization_failed'', h)
           | Inr canonical \<Rightarrow>
             run_bulk_revoke now user username canonical dryRun
               (map_option (\<lambda>a. a\<lparr>ae_TargetSubscription := canonical, ae_Outcome := ''allowed'',
                   ae_Reason := ''platform_admin_fallback'', ae_AuthorizationPath := ''platform-admin-fallback''\<rparr>)
                 delegatedAudit) h)
        else run_bulk_revoke now user username subscription dryRun delegatedAudit h)"

definition h_BulkRevokeAPIKeys ::
    "time \<Rightarrow> keyRequest \<Rightarrow> bulkRevokeRequest option \<Rightarrow> 's handler \<Rightarrow> answer \<times> auditEvent list \<times> 's handler" where
  "h_BulkRevokeAPIKeys now c body h =
     (case rejectAPIKeyManagement c of Some a \<Rightarrow> (a, [], h)
      | None \<Rightarrow>
        (case body of None \<Rightarrow> ((400, ErrorBody ''invalid body''), [], h)
         | Some req \<Rightarrow>
           (let username = TrimSpace (br_Username req); subscription = TrimSpace (br_Subscription req) in
            if username = [] \<and> subscription = [] then
              ((400, ErrorBody ''at least one of username or subscription is required''), [], h)
            else
              (case getUserContext c of Inl a \<Rightarrow> (a, [], h)
               | Inr user \<Rightarrow>
                 (case requestIdentity c of
                    (identity, False) \<Rightarrow> ((500, ErrorBody ''Invalid verified identity context type''), [], h)
                  | (identity, True) \<Rightarrow>
                    (let needsAdmin = (subscription \<noteq> [] \<or> (username \<noteq> [] \<and> username \<noteq> uc_Username user));
                         event = (\<lambda>outcome reason sub. (audit ''api-key-bulk-revoke'' user outcome reason)
                            \<lparr>ae_TargetUsername := username, ae_TargetSubscription := sub\<rparr>)
                     in if \<not> needsAdmin then run_bulk_revoke now user username subscription (br_DryRun req) None h
                        else if identity \<noteq> None \<and> subscription \<noteq> [] then
                          (case resolveSubscriptionAdmin h identity subscription user of
                             ResolveErr \<Rightarrow> (check_failed, [event ''error'' ''resolution_error'' subscription], h)
                           | Scope scope \<Rightarrow>
                               run_bulk_revoke now user username (as_Subscription scope) (br_DryRun req)
                                 (Some ((event ''allowed'' [] (as_Subscription scope))\<lparr>ae_Scope := Some scope\<rparr>)) h
                           | _ \<Rightarrow>
                               bulk_revoke_as_admin now user username subscription (br_DryRun req)
                                 (Some (event ''denied'' ''subscription_admin_denied'' subscription)) h)
                        else bulk_revoke_as_admin now user username subscription (br_DryRun req) None h))))))"

definition h_CleanupExpiredEphemeralKeys :: "time \<Rightarrow> 's handler \<Rightarrow> answer \<times> 's handler" where
  "h_CleanupExpiredEphemeralKeys now h =
     (case svc_CleanupExpiredEphemeral now (hd_service h) of
        (Inl e, sv) \<Rightarrow> ((500, ErrorBody ''Failed to cleanup expired ephemeral keys''), h\<lparr>hd_service := sv\<rparr>)
      | (Inr n, sv) \<Rightarrow>
        (case svc_CleanupSoftDeleted now sv of
           (Inl e, sv) \<Rightarrow> ((500, ErrorBody ''Failed to cleanup retained API keys''), h\<lparr>hd_service := sv\<rparr>)
         | (Inr retained, sv) \<Rightarrow> ((200, CleanupBody (n + retained)), h\<lparr>hd_service := sv\<rparr>)))"

definition h_RevokeTenantAPIKeys :: "time \<Rightarrow> string \<Rightarrow> 's handler \<Rightarrow> answer \<times> 's handler" where
  "h_RevokeTenantAPIKeys now tenant h =
     (case svc_RevokeTenantAPIKeys now (TrimSpace tenant) (hd_service h) of
        (Inl e, sv) \<Rightarrow>
          (if e = ErrTenantRequired then (400, ErrorBody ''tenant is required'')
           else if e = TenantMismatch \<or> e = StoreFailed ErrTenantMismatch then (400, ErrorBody ''tenant mismatch'')
           else (500, ErrorBody ''Failed to revoke tenant API keys''), h\<lparr>hd_service := sv\<rparr>)
      | (Inr n, sv) \<Rightarrow> ((200, RevokeCountBody n), h\<lparr>hd_service := sv\<rparr>))"

definition h_RevokeSubscriptionAPIKeys :: "time \<Rightarrow> string \<Rightarrow> string \<Rightarrow> 's handler \<Rightarrow> answer \<times> 's handler" where
  "h_RevokeSubscriptionAPIKeys now tenant subscription h =
     (case svc_RevokeSubscriptionAPIKeys now (TrimSpace tenant) (TrimSpace subscription) (hd_service h) of
        (Inl e, sv) \<Rightarrow>
          (if e = ErrTenantRequired \<or> e = TenantMismatch \<or> e = StoreFailed ErrTenantMismatch
           then (400, ErrorBody ''tenant'')
           else (500, ErrorBody ''Failed to revoke subscription API keys''), h\<lparr>hd_service := sv\<rparr>)
      | (Inr n, sv) \<Rightarrow> ((200, RevokeCountBody n), h\<lparr>hd_service := sv\<rparr>))"

subsection \<open>Who may do what\<close>

text \<open>
  Three ways to administer a key: to own it, to administer its subscription, or to be a
  platform administrator; always within the tenant.
\<close>

definition may_manage :: "'s handler \<Rightarrow> userContext \<Rightarrow> verifiedIdentity option \<Rightarrow> apiKey \<Rightarrow> bool" where
  "may_manage h user identity key \<longleftrightarrow>
     uc_Tenant user = ak_Tenant key \<and>
     (uc_Username user = ak_Username key \<or>
      (\<exists>scope. resolveSubscriptionAdmin h identity (ak_Subscription key) user = Scope scope \<and>
               as_Subscription scope = ak_Subscription key) \<or>
      isAdmin h user = Inr True)"

lemma isAuthorizedForKey_sound:
  assumes "isAuthorizedForKey h user identity key action = (Inr True, a)"
  shows "may_manage h user identity key"
  using assms
  by (auto simp: isAuthorizedForKey_def may_manage_def Let_def
      split: if_splits adminResolution.splits sum.splits)

lemma resolveSubscriptionAdmin_service [simp]:
  "resolveSubscriptionAdmin (h\<lparr>hd_service := sv\<rparr>) = resolveSubscriptionAdmin h"
  "isAdmin (h\<lparr>hd_service := sv\<rparr>) = isAdmin h"
  "may_manage (h\<lparr>hd_service := sv\<rparr>) = may_manage h"
  "canonicalizeSubscription (h\<lparr>hd_service := sv\<rparr>) = canonicalizeSubscription h"
  by (auto simp: fun_eq_iff resolveSubscriptionAdmin_def isAdmin_def may_manage_def canonicalizeSubscription_def
      split: option.splits sum.splits)

definition signed_in :: "keyRequest \<Rightarrow> userContext \<Rightarrow> verifiedIdentity option \<Rightarrow> bool" where
  "signed_in c user identity \<longleftrightarrow>
     \<not> hasAPIKeyCredential c \<and> kr_user c = Some (Some user) \<and> requestIdentity c = (identity, True)"

lemma getUserContext_Inr: "getUserContext c = Inr user \<longleftrightarrow> kr_user c = Some (Some user)"
  by (auto simp: getUserContext_def split: option.splits)

lemma rejectAPIKeyManagement_None: "rejectAPIKeyManagement c = None \<longleftrightarrow> \<not> hasAPIKeyCredential c"
  by (simp add: rejectAPIKeyManagement_def)

lemma signed_inD:
  assumes "signed_in c user identity"
  shows "rejectAPIKeyManagement c = None" "getUserContext c = Inr user" "requestIdentity c = (identity, True)"
  using assms by (simp_all add: signed_in_def rejectAPIKeyManagement_None getUserContext_Inr)

lemma h_GetAPIKey_signed_in:
  assumes "signed_in c user identity" and "i \<noteq> []" and "GetAPIKey now i (hd_service h) = (r, sv)"
  shows "fst (h_GetAPIKey now c i h) =
    (case r of Inl e \<Rightarrow> if e = ErrKeyNotFound then not_found else (500, ErrorBody ''Failed to retrieve API key'')
     | Inr k \<Rightarrow> if \<exists>a. isAuthorizedForKey h user identity k ''api-key-get'' = (Inr True, a) then (200, KeyBody k) else not_found)"
proof -
  have iso: "isAuthorizedForKey (h\<lparr>hd_service := sv\<rparr>) = isAuthorizedForKey h"
    by (simp add: fun_eq_iff isAuthorizedForKey_def)
  show ?thesis
    using assms(2,3)
    by (cases "isAuthorizedForKey h user identity (projr r) ''api-key-get''")
      (auto simp: h_GetAPIKey_def signed_inD [OF assms(1)] iso Let_def split: sum.splits)
qed

lemma not_signed_in:
  assumes "\<nexists>user identity. signed_in c user identity"
  shows "\<exists>a. fst a \<noteq> 200 \<and> h_GetAPIKey now c i h = (a, [], h)"
    and "\<exists>a. fst a \<noteq> 200 \<and> h_RevokeAPIKey now c i h = (a, [], h)"
    and "\<exists>a. fst a \<noteq> 200 \<and> h_BulkRevokeAPIKeys now c b h = (a, [], h)"
proof -
  consider a where "rejectAPIKeyManagement c = Some a" "fst a \<noteq> 200"
    | a where "rejectAPIKeyManagement c = None" "getUserContext c = Inl a" "fst a \<noteq> 200"
    | user x where "rejectAPIKeyManagement c = None" "getUserContext c = Inr user" "requestIdentity c = (x, False)"
  proof (cases "rejectAPIKeyManagement c")
    case None
    show ?thesis
    proof (cases "getUserContext c")
      case (Inl a)
      then have "fst a \<noteq> 200" by (auto simp: getUserContext_def split: option.splits)
      with None Inl that(2) show ?thesis by blast
    next
      case (Inr user)
      with None assms have "snd (requestIdentity c) = False"
        by (cases "requestIdentity c") (auto simp: signed_in_def rejectAPIKeyManagement_None getUserContext_Inr)
      with None Inr that(3) show ?thesis by (metis prod.collapse)
    qed
  next
    case (Some a)
    with that(1) show ?thesis by (auto simp: rejectAPIKeyManagement_def split: if_splits)
  qed
  note cases = this
  show "\<exists>a. fst a \<noteq> 200 \<and> h_GetAPIKey now c i h = (a, [], h)"
    by (rule cases) (auto simp: h_GetAPIKey_def)
  show "\<exists>a. fst a \<noteq> 200 \<and> h_RevokeAPIKey now c i h = (a, [], h)"
    by (rule cases) (auto simp: h_RevokeAPIKey_def)
  show "\<exists>a. fst a \<noteq> 200 \<and> h_BulkRevokeAPIKeys now c b h = (a, [], h)"
    by (rule cases) (auto simp: h_BulkRevokeAPIKeys_def Let_def split: option.splits)
qed

lemma h_RevokeAPIKey_signed_in:
  assumes "signed_in c user identity" and "i \<noteq> []" and "GetAPIKey now i (hd_service h) = (r, sv)"
  shows "(\<exists>k a. r = Inr k \<and> isAuthorizedForKey h user identity k ''api-key-revoke'' = (Inr True, a)) \<or>
    hd_service (snd (snd (h_RevokeAPIKey now c i h))) = sv \<and>
    fst (h_RevokeAPIKey now c i h) =
      (case r of Inl e \<Rightarrow> if e = ErrKeyNotFound then not_found else (500, ErrorBody ''Failed to retrieve API key'')
       | Inr k \<Rightarrow> not_found)"
proof -
  have iso: "isAuthorizedForKey (h\<lparr>hd_service := sv\<rparr>) = isAuthorizedForKey h"
    by (simp add: fun_eq_iff isAuthorizedForKey_def)
  show ?thesis
    using assms(2,3)
    by (cases "isAuthorizedForKey h user identity (projr r) ''api-key-revoke''")
      (auto simp: h_RevokeAPIKey_def signed_inD [OF assms(1)] iso Let_def split: sum.splits)
qed

text \<open>
  C10. Access to a single key. Reading or revoking a key by its identifier succeeds only for
  a request that carries no API key itself, has a user, and whose user may manage the key:
  same tenant, and the owner, an administrator of the key's subscription, or a platform
  administrator. A request that is refused is answered exactly as if the key did not exist,
  so that identifiers cannot be probed, and it does not revoke anything: the service is left
  as the lookup of the key left it.
\<close>

theorem single_key_access:
  assumes "GetAPIKey now i (hd_service h) = (r, sv)"
  shows "(fst (h_GetAPIKey now c i h) = (200, KeyBody k) \<longrightarrow>
      (\<exists>user identity. signed_in c user identity \<and> r = Inr k \<and> may_manage h user identity k)) \<and>
    (signed_in c user identity \<and> i \<noteq> [] \<and> r = Inr k' \<and> \<not> may_manage h user identity k' \<longrightarrow>
      fst (h_GetAPIKey now c i h) = not_found \<and> fst (h_RevokeAPIKey now c i h) = not_found \<and>
      hd_service (snd (snd (h_RevokeAPIKey now c i h))) = sv) \<and>
    (signed_in c user identity \<and> i \<noteq> [] \<and> r = Inl ErrKeyNotFound \<longrightarrow>
      fst (h_GetAPIKey now c i h) = not_found \<and> fst (h_RevokeAPIKey now c i h) = not_found) \<and>
    (hd_service (snd (snd (h_RevokeAPIKey now c i h))) \<notin> {hd_service h, sv} \<longrightarrow>
      (\<exists>user identity k. signed_in c user identity \<and> r = Inr k \<and> may_manage h user identity k))"
proof -
  have get: "\<exists>user identity. signed_in c user identity \<and> r = Inr k \<and> may_manage h user identity k"
    if g: "fst (h_GetAPIKey now c i h) = (200, KeyBody k)"
  proof -
    obtain user identity where si: "signed_in c user identity"
      using not_signed_in(1) [of c now i h] g by fastforce
    have "i \<noteq> []" using g by (auto simp: h_GetAPIKey_def signed_inD [OF si])
    from h_GetAPIKey_signed_in [OF si this assms] g si show ?thesis
      by (auto simp: not_found_def split: sum.splits if_splits dest: isAuthorizedForKey_sound)
  qed
  have refused: "fst (h_GetAPIKey now c i h) = not_found \<and> fst (h_RevokeAPIKey now c i h) = not_found \<and>
      hd_service (snd (snd (h_RevokeAPIKey now c i h))) = sv"
    if "signed_in c user identity" "i \<noteq> []" "r = Inr k'" "\<not> may_manage h user identity k'"
    using h_GetAPIKey_signed_in [OF that(1,2) assms] h_RevokeAPIKey_signed_in [OF that(1,2) assms] that(3,4)
    by (auto dest: isAuthorizedForKey_sound)
  have missing: "fst (h_GetAPIKey now c i h) = not_found \<and> fst (h_RevokeAPIKey now c i h) = not_found"
    if "signed_in c user identity" "i \<noteq> []" "r = Inl ErrKeyNotFound"
    using h_GetAPIKey_signed_in [OF that(1,2) assms] h_RevokeAPIKey_signed_in [OF that(1,2) assms] that(3) by simp
  have revoke: "\<exists>user identity k. signed_in c user identity \<and> r = Inr k \<and> may_manage h user identity k"
    if g: "hd_service (snd (snd (h_RevokeAPIKey now c i h))) \<notin> {hd_service h, sv}"
  proof -
    obtain user identity where si: "signed_in c user identity"
      using not_signed_in(2) [of c now i h] g by fastforce
    have "i \<noteq> []" using g by (auto simp: h_RevokeAPIKey_def signed_inD [OF si])
    from h_RevokeAPIKey_signed_in [OF si this assms] g si show ?thesis
      by (auto dest: isAuthorizedForKey_sound)
  qed
  show ?thesis using get refused missing revoke by blast
qed

definition ex_handler :: "mockStore handler" where
  "ex_handler =
     \<lparr>hd_service = NewServiceWithLogger
        (snd (mock_AddKey 1 \<lparr>nk_username = ''bob'', nk_keyID = ''k1'', nk_keyHash = ''h'', nk_name = ''n'',
           nk_description = [], nk_userGroups = [], nk_subscription = ''sub'', nk_tenant = ''t'', nk_expiresAt = None,
           nk_ephemeral = False, nk_labels = []\<rparr> NewMockStore))
        mock_iface None (selector_iface example_libs ex_selector),
      hd_adminChecker = (\<lambda>user. Inr (uc_Username user = ''root'')), hd_adminResolver = None\<rparr>"

definition ex_user :: "string \<Rightarrow> userContext" where
  "ex_user name = \<lparr>uc_Username = name, uc_Groups = [], uc_Tenant = ''t'', uc_OrganizationID = []\<rparr>"

definition ex_request_of :: "string \<Rightarrow> keyRequest" where
  "ex_request_of name = \<lparr>kr_Authorization = [], kr_XAPIKey = [], kr_user = Some (Some (ex_user name)), kr_identity = None\<rparr>"

lemma ex_signed_in: "signed_in (ex_request_of name) (ex_user name) None"
proof -
  have "\<not> isAPIKeyBearer []" by code_simp
  then show ?thesis
    by (simp add: signed_in_def ex_request_of_def hasAPIKeyCredential_def requestIdentity_def HasPrefix_def
        KeyPrefix_def APIKeyPrefix_def)
qed

lemma ex_key:
  "\<exists>k sv. GetAPIKey 2 ''k1'' (hd_service ex_handler) = (Inr k, sv) \<and> ak_Username k = ''bob''"
  by (simp add: GetAPIKey_def ex_handler_def NewServiceWithLogger_def mock_iface_def mock_Get_def mock_AddKey_def
      NewMockStore_def view_meta_def past_def IsZero_def)

theorem single_key_access_witness:
  "fst (h_GetAPIKey 2 (ex_request_of ''eve'') ''k1'' ex_handler) = not_found \<and>
   fst (h_RevokeAPIKey 2 (ex_request_of ''eve'') ''k1'' ex_handler) = not_found"
proof -
  obtain k sv where g: "GetAPIKey 2 ''k1'' (hd_service ex_handler) = (Inr k, sv)" "ak_Username k = ''bob''"
    using ex_key by blast
  have "\<not> may_manage ex_handler (ex_user ''eve'') None k"
    using g(2) by (simp add: may_manage_def ex_handler_def ex_user_def resolveSubscriptionAdmin_def isAdmin_def)
  with single_key_access [OF g(1), of "ex_request_of ''eve''" k "ex_user ''eve''" None k] ex_signed_in [of "''eve''"]
  show ?thesis by simp
qed

text \<open>What a bulk revocation runs, if it runs, and what entitles the caller to it.\<close>

definition bulk_entitled ::
    "'s handler \<Rightarrow> userContext \<Rightarrow> verifiedIdentity option \<Rightarrow> bulkRevokeRequest \<Rightarrow> string \<Rightarrow> string \<Rightarrow> bool" where
  "bulk_entitled h user identity req u sub \<longleftrightarrow>
     u = TrimSpace (br_Username req) \<and>
     (TrimSpace (br_Subscription req) = [] \<and> sub = [] \<and> (u = uc_Username user \<or> isAdmin h user = Inr True) \<or>
      (\<exists>scope. resolveSubscriptionAdmin h identity (TrimSpace (br_Subscription req)) user = Scope scope \<and>
               sub = as_Subscription scope) \<or>
      canonicalizeSubscription h (TrimSpace (br_Subscription req)) = Inr sub \<and> isAdmin h user = Inr True)"

lemma run_bulk_revoke_service:
  "hd_service (snd (snd (run_bulk_revoke now user u sub dry ev h))) =
     snd (svc_BulkRevokeAPIKeys now u sub (uc_Tenant user) dry (hd_service h))"
  by (auto simp: run_bulk_revoke_def split: prod.splits sum.splits)

lemma bulk_revoke_as_admin_service:
  "hd_service (snd (snd (bulk_revoke_as_admin now user u sub dry ev h))) = hd_service h \<or>
   isAdmin h user = Inr True \<and>
   (\<exists>sub'. (if sub = [] then sub' = [] else canonicalizeSubscription h sub = Inr sub') \<and>
      hd_service (snd (snd (bulk_revoke_as_admin now user u sub dry ev h))) =
      snd (svc_BulkRevokeAPIKeys now u sub' (uc_Tenant user) dry (hd_service h)))"
  by (auto simp: bulk_revoke_as_admin_def run_bulk_revoke_service split: sum.splits option.splits)

text \<open>The administrative part of a bulk revocation, reduced to the three ways in which it can go.\<close>

lemma h_BulkRevoke_admin_part:
  assumes si: "signed_in c user identity" and b: "b = Some req"
    and no_scope: "\<nexists>scope. identity \<noteq> None \<and> TrimSpace (br_Subscription req) \<noteq> [] \<and>
      resolveSubscriptionAdmin h identity (TrimSpace (br_Subscription req)) user = Scope scope"
    and needs: "TrimSpace (br_Subscription req) \<noteq> [] \<or> TrimSpace (br_Username req) \<notin> {[], uc_Username user}"
  shows "\<exists>ev. hd_service (snd (snd (h_BulkRevokeAPIKeys now c b h))) = hd_service h \<or>
    hd_service (snd (snd (h_BulkRevokeAPIKeys now c b h))) = hd_service (snd (snd (bulk_revoke_as_admin now user
      (TrimSpace (br_Username req)) (TrimSpace (br_Subscription req)) (br_DryRun req) ev h)))"
proof (cases "identity \<noteq> None \<and> TrimSpace (br_Subscription req) \<noteq> []")
  case True
  with no_scope show ?thesis
    by (cases "resolveSubscriptionAdmin h identity (TrimSpace (br_Subscription req)) user")
      (auto simp: h_BulkRevokeAPIKeys_def b signed_inD [OF si] Let_def)
next
  case False
  with needs show ?thesis
    by (intro exI [of _ None]) (auto simp: h_BulkRevokeAPIKeys_def b signed_inD [OF si] Let_def)
qed

lemma h_BulkRevoke_entitled:
  assumes "hd_service (snd (snd (h_BulkRevokeAPIKeys now c b h))) \<noteq> hd_service h"
  shows "\<exists>user identity req u sub. signed_in c user identity \<and> b = Some req \<and> bulk_entitled h user identity req u sub \<and>
    hd_service (snd (snd (h_BulkRevokeAPIKeys now c b h))) =
      snd (svc_BulkRevokeAPIKeys now u sub (uc_Tenant user) (br_DryRun req) (hd_service h))"
proof -
  obtain user identity where si: "signed_in c user identity"
    using not_signed_in(3) [of c now b h] assms by fastforce
  obtain req where b: "b = Some req"
    using assms by (cases b) (auto simp: h_BulkRevokeAPIKeys_def signed_inD [OF si])
  let ?u = "TrimSpace (br_Username req)" and ?sub = "TrimSpace (br_Subscription req)"
  let ?h' = "snd (snd (h_BulkRevokeAPIKeys now c b h))"
  have "\<exists>sub. bulk_entitled h user identity req ?u sub \<and>
      hd_service ?h' = snd (svc_BulkRevokeAPIKeys now ?u sub (uc_Tenant user) (br_DryRun req) (hd_service h))"
  proof (cases "?sub = [] \<and> ?u \<in> {[], uc_Username user}")
    case True
    then show ?thesis
      using assms
      by (intro exI [of _ ?sub])
        (auto simp: h_BulkRevokeAPIKeys_def b signed_inD [OF si] Let_def run_bulk_revoke_service bulk_entitled_def)
  next
    case needs: False
    show ?thesis
    proof (cases "\<exists>scope. identity \<noteq> None \<and> ?sub \<noteq> [] \<and> resolveSubscriptionAdmin h identity ?sub user = Scope scope")
      case True
      then obtain scope where sc: "identity \<noteq> None" "?sub \<noteq> []" "resolveSubscriptionAdmin h identity ?sub user = Scope scope"
        by blast
      then have "hd_service ?h' = snd (svc_BulkRevokeAPIKeys now ?u (as_Subscription scope) (uc_Tenant user) (br_DryRun req) (hd_service h))"
        by (auto simp: h_BulkRevokeAPIKeys_def b signed_inD [OF si] Let_def run_bulk_revoke_service)
      with sc(3) show ?thesis by (auto simp: bulk_entitled_def)
    next
      case False
      from h_BulkRevoke_admin_part [OF si b False] needs obtain ev where "hd_service ?h' = hd_service h \<or>
          hd_service ?h' = hd_service (snd (snd (bulk_revoke_as_admin now user ?u ?sub (br_DryRun req) ev h)))" by blast
      with assms bulk_revoke_as_admin_service [of now user ?u ?sub "br_DryRun req" ev h] show ?thesis
        by (auto simp: bulk_entitled_def split: if_splits)
    qed
  qed
  with si b show ?thesis by blast
qed

text \<open>
  What a search may list: keys of the user, of a subscription the user administers, or
  any key of the tenant for a platform administrator.
\<close>

definition may_list :: "'s handler \<Rightarrow> userContext \<Rightarrow> verifiedIdentity option \<Rightarrow> apiKey \<Rightarrow> bool" where
  "may_list h user identity k \<longleftrightarrow>
     ak_Username k = uc_Username user \<or> isAdmin h user = Inr True \<or>
     (\<exists>requested scope. resolveSubscriptionAdmin h identity requested user = Scope scope \<and>
        ak_Subscription k = as_Subscription scope) \<or>
     (\<exists>scopes scope. resolveSubscriptionAdminScopes h identity user = Scopes scopes \<and> scope \<in> set scopes \<and>
        ak_Subscription k = as_Subscription scope)"

text \<open>Names of subscriptions are object names: no white space to trim.\<close>

definition names_trimmed :: "'s handler \<Rightarrow> bool" where
  "names_trimmed h \<longleftrightarrow>
     (\<forall>user identity requested scope. resolveSubscriptionAdmin h identity requested user = Scope scope \<longrightarrow>
        TrimSpace (as_Subscription scope) = as_Subscription scope) \<and>
     (\<forall>user identity scopes scope. resolveSubscriptionAdminScopes h identity user = Scopes scopes \<longrightarrow> scope \<in> set scopes \<longrightarrow>
        TrimSpace (as_Subscription scope) = as_Subscription scope)"

lemma Scope_nonempty: "resolveSubscriptionAdmin h identity requested user = Scope scope \<Longrightarrow> as_Subscription scope \<noteq> []"
  by (auto simp: resolveSubscriptionAdmin_def split: option.splits if_splits sum.splits adminError.splits)

lemma run_search_keys:
  assumes "sv_iface (hd_service h) = pg_iface collation cancelled faults outcome"
    and "fst (run_search now u user filters sorting pagination ev h) = (200, ListBody ks hm)" and "k \<in> set ks"
  shows "\<exists>r. search_where now (pg_tenantName (sv_store (hd_service h))) u filters r \<and> k = scan_key (effective_status now r) r"
proof -
  obtain p where "fst (pg_Search collation cancelled faults now u filters sorting pagination (sv_store (hd_service h))) = Inr p"
    and "pr_Keys p = ks"
    using assms(1,2)
    by (auto simp: run_search_def svc_Search_def on_store_def pg_iface_def split: prod.splits sum.splits)
  from pg_Search_keys [OF this(1)] this(2) assms(3) show ?thesis by blast
qed

lemma search_scoped_keys:
  assumes "sv_iface (hd_service h) = pg_iface collation cancelled faults outcome"
    and "fst (search_scoped now user delegated admin u sub filters sorting pagination ev h) = (200, ListBody ks hm)"
    and "k \<in> set ks" and "uc_Username user \<noteq> []"
  shows "ak_Tenant k = pg_tenantName (sv_store (hd_service h)) \<and>
    (ak_Username k = uc_Username user \<or> admin \<or>
     (delegated \<and> (\<exists>r. appendSubscriptionSearchFilters filters r \<and> r_subscription r = ak_Subscription k)))"
proof (cases "applySelfServiceSearchScope delegated admin u user")
  case None
  then show ?thesis using assms(2) by (simp add: search_scoped_def)
next
  case (Some target)
  obtain f ev' where run: "fst (run_search now target user f sorting pagination ev' h) = (200, ListBody ks hm)"
    and f: "delegated \<Longrightarrow> f = filters"
    using assms(2,3) Some
    by (auto simp: search_scoped_def check_failed_def split: if_splits sum.splits option.splits)
  from run_search_keys [OF assms(1) run assms(3)] obtain r
    where r: "search_where now (pg_tenantName (sv_store (hd_service h))) target f r" "k = scan_key (effective_status now r) r"
    by blast
  have "ak_Username k = uc_Username user" if "\<not> delegated" "\<not> admin"
    using Some that r assms(4) by (auto simp: applySelfServiceSearchScope_def search_where_def split: if_splits)
  moreover have "appendSubscriptionSearchFilters filters r" if delegated
    using r(1) f [OF that] by (simp add: search_where_def)
  ultimately show ?thesis using r by (auto simp: search_where_def)
qed

lemma explicit_scope_filter:
  assumes "applyExplicitSubscriptionAdmin h identity user target requested filters = Inr (True, ev, f)"
    and "names_trimmed h" and "appendSubscriptionSearchFilters f r"
  shows "\<exists>scope. resolveSubscriptionAdmin h identity requested user = Scope scope \<and> r_subscription r = as_Subscription scope"
  using assms
  by (auto simp: applyExplicitSubscriptionAdmin_def Let_def appendSubscriptionSearchFilters_def names_trimmed_def
      split: adminResolution.splits dest: Scope_nonempty)

lemma union_scope_filter:
  assumes "applySubscriptionAdminUnion h identity user target filters = Inr (True, ev, f)"
    and "names_trimmed h" and "appendSubscriptionSearchFilters f r"
  shows "\<exists>scopes scope. resolveSubscriptionAdminScopes h identity user = Scopes scopes \<and> scope \<in> set scopes \<and>
           r_subscription r = as_Subscription scope"
proof -
  obtain scopes where sc: "resolveSubscriptionAdminScopes h identity user = Scopes scopes" "scopes \<noteq> []"
    "f = filters\<lparr>sf_SubscriptionNames := first_occurrences (map as_Subscription scopes)\<rparr>"
    using assms(1) by (auto simp: applySubscriptionAdminUnion_def split: scopesResolution.splits if_splits)
  then have "r_subscription r \<in> TrimSpace ` as_Subscription ` set scopes"
    using assms(3) by (auto simp: appendSubscriptionSearchFilters_def first_occurrences_def Let_def)
  then obtain scope where "scope \<in> set scopes" "r_subscription r = TrimSpace (as_Subscription scope)" by blast
  moreover from this(1) sc(1) assms(2) have "TrimSpace (as_Subscription scope) = as_Subscription scope"
    unfolding names_trimmed_def by blast
  ultimately show ?thesis using sc(1) by auto
qed

lemma search_authorized_keys:
  assumes "sv_iface (hd_service h) = pg_iface collation cancelled faults outcome" and "names_trimmed h"
    and "uc_Username user \<noteq> []" and "fst (search_authorized now user identity req h) = (200, ListBody ks hm)"
    and "k \<in> set ks"
  shows "ak_Tenant k = pg_tenantName (sv_store (hd_service h)) \<and> may_list h user identity k"
proof -
  obtain username filters0 sorting pagination where req: "req = (username, filters0, sorting, pagination)" by (cases req)
  let ?t = "TrimSpace username"
  let ?sub = "case sf_Subscription filters0 of None \<Rightarrow> [] | Some x \<Rightarrow> TrimSpace x"
  let ?f = "if ?sub = [] then filters0\<lparr>sf_Subscription := None\<rparr> else filters0"
  have listed: ?thesis
    if "fst (search_scoped now user d a ?t ?sub f sorting pagination ev h) = (200, ListBody ks hm)"
      and "a \<Longrightarrow> isAdmin h user = Inr True"
      and "\<And>r. d \<Longrightarrow> appendSubscriptionSearchFilters f r \<Longrightarrow> r_subscription r = ak_Subscription k \<Longrightarrow> may_list h user identity k"
    for d a f ev
    using search_scoped_keys [OF assms(1) that(1) assms(5,3)] that(2,3) by (auto simp: may_list_def)
  let ?e = "if identity \<noteq> None \<and> ?sub \<noteq> [] then applyExplicitSubscriptionAdmin h identity user ?t ?sub ?f
      else Inr (False, None, ?f)"
  obtain d ev f where e: "?e = Inr (d, ev, f)"
    using assms(4) by (cases ?e) (auto simp: search_authorized_def req Let_def check_failed_def)
  have explicit: "may_list h user identity k" if d "appendSubscriptionSearchFilters f r" "r_subscription r = ak_Subscription k" for r
  proof -
    from e \<open>d\<close> have "applyExplicitSubscriptionAdmin h identity user ?t ?sub ?f = Inr (True, ev, f)"
      by (auto split: if_splits)
    from explicit_scope_filter [OF this assms(2) that(2)] that(3) show ?thesis by (auto simp: may_list_def)
  qed
  let ?a = "if d then Inr False else isAdmin h user"
  obtain a where a: "?a = Inr a"
    using assms(4) e by (cases ?a) (auto simp: search_authorized_def req Let_def check_failed_def)
  then have admin: "a \<Longrightarrow> isAdmin h user = Inr True" by (auto split: if_splits)
  note unfolded = assms(4) [unfolded search_authorized_def req prod.case Let_def e sum.case a]
  show ?thesis
  proof (cases "identity \<noteq> None \<and> ?sub = [] \<and> \<not> a")
    case True
    let ?un = "applySubscriptionAdminUnion h identity user ?t f"
    obtain d' ev' f' where un: "?un = Inr (d', ev', f')"
      using unfolded [unfolded if_P [OF True]] by (cases ?un) (auto simp: check_failed_def split: option.splits)
    have scoped: "fst (search_scoped now user d' a ?t ?sub f' sorting pagination ev' h) = (200, ListBody ks hm)"
      using unfolded [unfolded if_P [OF True] un] by simp
    have union: "may_list h user identity k"
      if d' "appendSubscriptionSearchFilters f' r" "r_subscription r = ak_Subscription k" for r
      using union_scope_filter [OF _ assms(2) that(2)] un that(1,3) unfolding may_list_def by metis
    show ?thesis by (rule listed [OF scoped admin union])
  next
    case False
    from unfolded [unfolded if_not_P [OF False]]
    have scoped: "fst (search_scoped now user d a ?t ?sub f sorting pagination ev h) = (200, ListBody ks hm)" .
    show ?thesis by (rule listed [OF scoped admin explicit])
  qed
qed

lemma h_SearchAPIKeys_signed_in:
  assumes "fst (h_SearchAPIKeys now c b h) = (200, ListBody ks hm)" and "k \<in> set ks"
  obtains user identity req where "signed_in c user identity" "fst (search_authorized now user identity req h) = (200, ListBody ks hm)"
proof -
  have "rejectAPIKeyManagement c = None"
    using assms(1) by (auto simp: h_SearchAPIKeys_def rejectAPIKeyManagement_def split: if_splits)
  moreover from this obtain user where "kr_user c = Some (Some user)"
    using assms by (auto simp: h_SearchAPIKeys_def split: option.splits)
  ultimately show thesis
    using assms(1) that
    by (auto simp: h_SearchAPIKeys_def signed_in_def rejectAPIKeyManagement_None rejectAPIKeyManagement_def validateSearchAPIKeysRequest_def Let_def
        split: option.splits prod.splits bool.splits sum.splits if_splits)
qed

text \<open>The middleware lets no request with an empty user name through.\<close>

definition has_name :: "keyRequest \<Rightarrow> bool" where
  "has_name c \<longleftrightarrow> (\<forall>user. kr_user c = Some (Some user) \<longrightarrow> uc_Username user \<noteq> [])"

text \<open>
  C11. The scope of the operations on many keys. A bulk revocation changes the service only
  for a signed-in user, and then runs exactly one revocation, in the tenant of the user, of
  the keys of the requested user name within the subscription that entitles the caller:
  their own keys, those of a subscription they administer, or any as a platform
  administrator. A search over the Postgres store lists only keys of the tenant of the store
  that the signed-in user owns, administers through a subscription, or sees as a platform
  administrator.
\<close>

theorem management_scope:
  assumes "sv_iface (hd_service h) = pg_iface collation cancelled faults outcome" and "names_trimmed h" and "has_name c"
  shows "(hd_service (snd (snd (h_BulkRevokeAPIKeys now c b h))) \<noteq> hd_service h \<longrightarrow>
      (\<exists>user identity req u sub. signed_in c user identity \<and> b = Some req \<and> bulk_entitled h user identity req u sub \<and>
         hd_service (snd (snd (h_BulkRevokeAPIKeys now c b h))) =
           snd (svc_BulkRevokeAPIKeys now u sub (uc_Tenant user) (br_DryRun req) (hd_service h)))) \<and>
    (fst (h_SearchAPIKeys now c sb h) = (200, ListBody ks hm) \<and> k \<in> set ks \<longrightarrow>
      (\<exists>user identity. signed_in c user identity \<and> ak_Tenant k = pg_tenantName (sv_store (hd_service h)) \<and>
         may_list h user identity k))"
proof -
  have "\<exists>user identity. signed_in c user identity \<and> ak_Tenant k = pg_tenantName (sv_store (hd_service h)) \<and>
      may_list h user identity k"
    if listed: "fst (h_SearchAPIKeys now c sb h) = (200, ListBody ks hm)" and k: "k \<in> set ks"
  proof -
    obtain user identity req where si: "signed_in c user identity"
      and s: "fst (search_authorized now user identity req h) = (200, ListBody ks hm)"
      by (rule h_SearchAPIKeys_signed_in [OF listed k])
    have "uc_Username user \<noteq> []" using assms(3) si by (simp add: has_name_def signed_in_def)
    from search_authorized_keys [OF assms(1,2) this s k] si show ?thesis by blast
  qed
  with h_BulkRevoke_entitled [of now c b h] show ?thesis by blast
qed

definition ex_pg_handler :: "pgStore handler" where
  "ex_pg_handler = \<lparr>hd_service = ex_service, hd_adminChecker = (\<lambda>user. Inr (uc_Username user = ''root'')), hd_adminResolver = None\<rparr>"

theorem management_scope_witness:
  "hd_service (snd (snd (h_BulkRevokeAPIKeys 2 (ex_request_of ''eve'')
     (Some \<lparr>br_Username = ''bob'', br_Subscription = [], br_DryRun = False\<rparr>) ex_pg_handler))) = hd_service ex_pg_handler"
proof -
  let ?b = "\<lparr>br_Username = ''bob'', br_Subscription = [], br_DryRun = False\<rparr>"
  have "sv_iface (hd_service ex_pg_handler) = pg_iface (<) False (\<lambda>_. no_fault) Executed"
    by (simp add: ex_pg_handler_def ex_service_def NewServiceWithLogger_def)
  moreover have "names_trimmed ex_pg_handler"
    by (simp add: names_trimmed_def ex_pg_handler_def resolveSubscriptionAdmin_def resolveSubscriptionAdminScopes_def)
  moreover have "has_name (ex_request_of ''eve'')" by (simp add: has_name_def ex_request_of_def ex_user_def)
  moreover have "TrimSpace ''bob'' = ''bob''" "TrimSpace [] = []" by code_simp+
  then have "\<not> bulk_entitled ex_pg_handler user identity ?b u sub" if "signed_in (ex_request_of ''eve'') user identity" for user identity u sub
    using that by (auto simp: bulk_entitled_def ex_pg_handler_def resolveSubscriptionAdmin_def canonicalizeSubscription_def
        isAdmin_def signed_in_def ex_request_of_def ex_user_def)
  ultimately show ?thesis
    using management_scope [of ex_pg_handler "(<)" False "\<lambda>_. no_fault" Executed "ex_request_of ''eve''" 2 "Some ?b"] by blast
qed

end
