(* ===== verification/LokiProxy.thy ===== *)
theory LokiProxy
  imports TokenIdentity
begin

text \<open>
  The read-only Loki proxy of \<open>maas-api\<close> (\<open>lokiproxy/enforcer.go\<close>, \<open>lokiproxy/handler.go\<close>):
  who may query, and the rewriting that confines the LogQL expression of a request to the
  caller's organization. The LogQL parser and printer (\<open>github.com/observatorium/api/logql/v2\<close>) are
  the record \<open>logql\<close>, an argument; \<open>iter\<close> is the order in which Go iterates a map. The model
  ends with the request that is sent upstream; the response is passed through.
\<close>

section \<open>Matchers\<close>

datatype matchType = MatchEqual | MatchNotEqual | MatchRegexp | MatchNotRegexp

record matcher =
  mt_Type :: matchType
  mt_Name :: string
  mt_Value :: string

text \<open>
  \<open>lq_Walk f\<close> replaces the matchers of every stream selector by \<open>f\<close> of them, \<open>lq_selectors\<close>
  reads them, \<open>lq_Stream\<close> is a bare selector.
\<close>

record 'e logql =
  lq_Parse :: "string \<Rightarrow> 'e option"
  lq_String :: "'e \<Rightarrow> string"
  lq_Walk :: "(matcher list \<Rightarrow> matcher list) \<Rightarrow> 'e \<Rightarrow> 'e"
  lq_selectors :: "'e \<Rightarrow> matcher list list"
  lq_Stream :: "matcher list \<Rightarrow> 'e"

text \<open>The map from label names to matchers: the last matcher of a name wins.\<close>

definition put_matcher :: "matcher \<Rightarrow> (string \<rightharpoonup> matcher) \<Rightarrow> (string \<rightharpoonup> matcher)" where
  "put_matcher m f = f(mt_Name m \<mapsto> m)"

definition matcher_map :: "matcher list \<Rightarrow> matcher list \<Rightarrow> (string \<rightharpoonup> matcher)" where
  "matcher_map queryMatchers requiredMatchers = fold put_matcher (queryMatchers @ requiredMatchers) Map.empty"

definition combineLabelMatchers :: "(string list \<Rightarrow> string list) \<Rightarrow> matcher list \<Rightarrow> matcher list \<Rightarrow> matcher list" where
  "combineLabelMatchers iter queryMatchers requiredMatchers =
     List.map_filter (matcher_map queryMatchers requiredMatchers)
       (iter (remdups (map mt_Name (queryMatchers @ requiredMatchers))))"

section \<open>Rewriting the query\<close>

text \<open>\<open>url.Values\<close>: the values of each parameter in order, none when it is absent.\<close>

type_synonym urlValues = "string \<Rightarrow> string list"

definition values_Get :: "urlValues \<Rightarrow> string \<Rightarrow> string" where
  "values_Get v k = (case v k of [] \<Rightarrow> [] | x # _ \<Rightarrow> x)"

definition values_Set :: "urlValues \<Rightarrow> string \<Rightarrow> string \<Rightarrow> urlValues" where
  "values_Set v k x = v(k := [x])"

definition values_Del :: "urlValues \<Rightarrow> string \<Rightarrow> urlValues" where
  "values_Del v k = v(k := [])"

abbreviation queryParam :: string where "queryParam \<equiv> ''query''"

definition enforceQueryMatchers ::
    "'e logql \<Rightarrow> (string list \<Rightarrow> string list) \<Rightarrow> urlValues \<Rightarrow> matcher list \<Rightarrow> bool \<Rightarrow> urlValues option" where
  "enforceQueryMatchers Q iter v required queryEndpoint =
     (let paramValue = values_Get v queryParam in
      if paramValue = [] then
        (if queryEndpoint then Some v else Some (values_Set v queryParam (lq_String Q (lq_Stream Q required))))
      else
        (case lq_Parse Q paramValue of
           None \<Rightarrow> None
         | Some expr \<Rightarrow>
           Some (values_Set v queryParam (lq_String Q (lq_Walk Q (\<lambda>ms. combineLabelMatchers iter ms required) expr)))))"

section \<open>The handler\<close>

record lokiHandler =
  lh_upstreamPath :: string
  lh_token :: string

datatype lokiResponse =
    LokiError nat string
  | Forward string urlValues "string option"

definition isAlpha :: "char \<Rightarrow> bool" where
  "isAlpha r \<longleftrightarrow> (r \<ge> CHR ''a'' \<and> r \<le> CHR ''z'') \<or> (r \<ge> CHR ''A'' \<and> r \<le> CHR ''Z'')"

definition isDigit :: "char \<Rightarrow> bool" where
  "isDigit r \<longleftrightarrow> r \<ge> CHR ''0'' \<and> r \<le> CHR ''9''"

definition isLabelNameRune :: "char \<Rightarrow> bool \<Rightarrow> bool" where
  "isLabelNameRune c allowDigit =
     (if c = CHR ''_'' \<or> isAlpha c then True else if isDigit c then allowDigit else False)"

text \<open>A rune outside ASCII has only bytes from 128 on, none of which is accepted.\<close>

definition isValidLabelName :: "string \<Rightarrow> bool" where
  "isValidLabelName name =
     (case name of [] \<Rightarrow> False | c # cs \<Rightarrow> isLabelNameRune c False \<and> list_all (\<lambda>c. isLabelNameRune c True) cs)"

abbreviation organizationLabel :: string where "organizationLabel \<equiv> ''organization_id''"
abbreviation userLabel :: string where "userLabel \<equiv> ''user_id''"
abbreviation adminGroupSuffix :: string where "adminGroupSuffix \<equiv> ''/ai-grid-admins''"
abbreviation userGroupSuffix :: string where "userGroupSuffix \<equiv> ''/ai-grid-users''"
abbreviation onlyUserParam :: string where "onlyUserParam \<equiv> ''only_user''"

definition containsGroup :: "string list \<Rightarrow> string \<Rightarrow> bool" where
  "containsGroup groups want \<longleftrightarrow> want \<in> set groups"

text \<open>The first argument is the value of the context key \<open>user\<close>: \<open>Some None\<close> is nil or of another type.\<close>

definition authorize :: "userContext option option \<Rightarrow> bool \<Rightarrow> lokiResponse + string \<times> string" where
  "authorize user onlyUser =
     (case user of
        None \<Rightarrow> Inl (LokiError 401 ''AUTH_FAILURE'')
      | Some None \<Rightarrow> Inl (LokiError 401 ''AUTH_FAILURE'')
      | Some (Some u) \<Rightarrow>
        if uc_OrganizationID u = [] then Inl (LokiError 401 ''AUTH_FAILURE'')
        else
          (let isAdmin = containsGroup (uc_Groups u) (uc_OrganizationID u @ adminGroupSuffix) in
           if onlyUser then
             (if \<not> isAdmin \<and> \<not> containsGroup (uc_Groups u) (uc_OrganizationID u @ userGroupSuffix)
              then Inl (LokiError 403 ''AUTHZ_FAILURE'')
              else Inr (uc_OrganizationID u, uc_Username u))
           else if \<not> isAdmin then Inl (LokiError 403 ''AUTHZ_FAILURE'')
           else Inr (uc_OrganizationID u, [])))"

text \<open>\<open>strconv.ParseBool\<close>.\<close>

definition ParseBool :: "string \<Rightarrow> bool option" where
  "ParseBool s =
     (if s \<in> {''1'', ''t'', ''T'', ''true'', ''TRUE'', ''True''} then Some True
      else if s \<in> {''0'', ''f'', ''F'', ''false'', ''FALSE'', ''False''} then Some False
      else None)"

definition TrimSuffix_slash :: "string \<Rightarrow> string" where
  "TrimSuffix_slash s = (if s \<noteq> [] \<and> last s = CHR ''/'' then butlast s else s)"

definition required_matchers :: "string \<Rightarrow> bool \<Rightarrow> string \<Rightarrow> matcher list" where
  "required_matchers organizationID onlyUser username =
     \<lparr>mt_Type = MatchEqual, mt_Name = organizationLabel, mt_Value = organizationID\<rparr> #
     (if onlyUser then [\<lparr>mt_Type = MatchEqual, mt_Name = userLabel, mt_Value = username\<rparr>] else [])"

definition proxyHandler ::
    "'e logql \<Rightarrow> (string list \<Rightarrow> string list) \<Rightarrow> lokiHandler \<Rightarrow> string \<Rightarrow> bool \<Rightarrow> userContext option option \<Rightarrow> urlValues \<Rightarrow> lokiResponse" where
  "proxyHandler Q iter h upstreamPath queryEndpoint user params =
     (let raw = values_Get params onlyUserParam in
      case (if raw = [] then Some False else ParseBool raw) of
        None \<Rightarrow> LokiError 400 ''INVALID_PARAMETER''
      | Some onlyUser \<Rightarrow>
        (case authorize user onlyUser of
           Inl response \<Rightarrow> response
         | Inr (organizationID, scopedUsername) \<Rightarrow>
           (case enforceQueryMatchers Q iter (values_Del params onlyUserParam) (required_matchers organizationID onlyUser scopedUsername) queryEndpoint of
              None \<Rightarrow> LokiError 400 ''INVALID_QUERY''
            | Some values \<Rightarrow>
              Forward (TrimSuffix_slash (lh_upstreamPath h) @ upstreamPath) values
                (if lh_token h = [] then None else Some (''Bearer '' @ lh_token h)))))"

definition proxyToLabelValues ::
    "'e logql \<Rightarrow> (string list \<Rightarrow> string list) \<Rightarrow> lokiHandler \<Rightarrow> string \<Rightarrow> userContext option option \<Rightarrow> urlValues \<Rightarrow> lokiResponse" where
  "proxyToLabelValues Q iter h name user params =
     (if \<not> isValidLabelName name then LokiError 400 ''INVALID_LABEL_NAME''
      else proxyHandler Q iter h (''/loki/api/v1/label/'' @ name @ ''/values'') False user params)"

text \<open>The three routes.\<close>

datatype lokiRoute = QueryRange | Labels | LabelValues string

definition loki_serve ::
    "'e logql \<Rightarrow> (string list \<Rightarrow> string list) \<Rightarrow> lokiHandler \<Rightarrow> lokiRoute \<Rightarrow> userContext option option \<Rightarrow> urlValues \<Rightarrow> lokiResponse" where
  "loki_serve Q iter h route user params =
     (case route of
        QueryRange \<Rightarrow> proxyHandler Q iter h ''/loki/api/v1/query_range'' True user params
      | Labels \<Rightarrow> proxyHandler Q iter h ''/loki/api/v1/labels'' False user params
      | LabelValues name \<Rightarrow> proxyToLabelValues Q iter h name user params)"

section \<open>A LogQL of bare selectors\<close>

text \<open>
  An expression is one selector; each matcher is printed as its type and its two strings, every
  character marked. It is the instance on which the hypotheses about the library are discharged.
\<close>

fun enc_str :: "string \<Rightarrow> string" where
  "enc_str [] = ''.''"
| "enc_str (c # cs) = CHR ''+'' # c # enc_str cs"

fun dec_str :: "string \<Rightarrow> (string \<times> string) option" where
  "dec_str (x # s) =
     (if x = CHR ''.'' then Some ([], s)
      else case s of [] \<Rightarrow> None
           | c # s' \<Rightarrow> (case dec_str s' of None \<Rightarrow> None | Some (cs, r) \<Rightarrow> Some (c # cs, r)))"
| "dec_str [] = None"

definition enc_type :: "matchType \<Rightarrow> char" where
  "enc_type t = (case t of MatchEqual \<Rightarrow> CHR ''='' | MatchNotEqual \<Rightarrow> CHR ''!'' | MatchRegexp \<Rightarrow> CHR ''~'' | MatchNotRegexp \<Rightarrow> CHR ''^'')"

definition dec_type :: "char \<Rightarrow> matchType option" where
  "dec_type c = (if c = CHR ''='' then Some MatchEqual else if c = CHR ''!'' then Some MatchNotEqual
     else if c = CHR ''~'' then Some MatchRegexp else if c = CHR ''^'' then Some MatchNotRegexp else None)"

fun enc_selector :: "matcher list \<Rightarrow> string" where
  "enc_selector [] = ''}''"
| "enc_selector (m # ms) = enc_type (mt_Type m) # enc_str (mt_Name m) @ enc_str (mt_Value m) @ enc_selector ms"

fun dec_selector :: "nat \<Rightarrow> string \<Rightarrow> matcher list option" where
  "dec_selector 0 s = None"
| "dec_selector (Suc n) [] = None"
| "dec_selector (Suc n) (c # s) =
     (if c = CHR ''}'' then Some []
      else (case (dec_type c, dec_str s) of
              (Some t, Some (name, s')) \<Rightarrow>
                (case dec_str s' of
                   Some (v, s'') \<Rightarrow> map_option (\<lambda>ms. \<lparr>mt_Type = t, mt_Name = name, mt_Value = v\<rparr> # ms) (dec_selector n s'')
                 | None \<Rightarrow> None)
            | _ \<Rightarrow> None))"

definition selector_logql :: "matcher list logql" where
  "selector_logql = \<lparr>lq_Parse = (\<lambda>s. dec_selector (length s) s), lq_String = enc_selector, lq_Walk = (\<lambda>f. f),
     lq_selectors = (\<lambda>ms. [ms]), lq_Stream = (\<lambda>ms. ms)\<rparr>"

definition demo_caller :: userContext where
  "demo_caller = \<lparr>uc_Username = ''ann'', uc_Groups = [''org1/ai-grid-users''], uc_Tenant = ''t1'', uc_OrganizationID = ''org1''\<rparr>"

definition demo_params :: urlValues where
  "demo_params = (\<lambda>k. if k = onlyUserParam then [''true''] else if k = queryParam
     then [enc_selector [\<lparr>mt_Type = MatchNotEqual, mt_Name = organizationLabel, mt_Value = ''org1''\<rparr>]] else [])"

section \<open>What is confined\<close>

text \<open>
  What the proxy relies on in the LogQL library: \<open>Walk\<close> visits every stream selector of an
  expression, and an expression made of a bare selector has that selector. Nothing is assumed
  of the parser and the printer.
\<close>

definition logql_laws :: "'e logql \<Rightarrow> bool" where
  "logql_laws Q \<longleftrightarrow>
     (\<forall>f e. lq_selectors Q (lq_Walk Q f e) = map f (lq_selectors Q e)) \<and>
     (\<forall>ms. lq_selectors Q (lq_Stream Q ms) = [ms])"

text \<open>A selector that the required matcher decides on its label.\<close>

definition confined :: "matcher list \<Rightarrow> matcher list \<Rightarrow> bool" where
  "confined required ms \<longleftrightarrow> (\<forall>r\<in>set required. r \<in> set ms \<and> (\<forall>m\<in>set ms. mt_Name m = mt_Name r \<longrightarrow> m = r))"

lemma fold_put_matcher:
  "fold put_matcher ms f k = (case find (\<lambda>m. mt_Name m = k) (rev ms) of None \<Rightarrow> f k | Some m \<Rightarrow> Some m)"
  by (induction ms rule: rev_induct) (auto simp: put_matcher_def)

lemma matcher_map_name: "matcher_map q r k = Some m \<Longrightarrow> mt_Name m = k"
  by (auto simp: matcher_map_def fold_put_matcher split: option.splits dest: find_SomeD)

lemma matcher_map_required:
  assumes "distinct (map mt_Name required)" and "r \<in> set required"
  shows "matcher_map q required (mt_Name r) = Some r"
proof -
  have "find (\<lambda>m. mt_Name m = mt_Name r) (rev required) = Some r"
  proof (cases "find (\<lambda>m. mt_Name m = mt_Name r) (rev required)")
    case None
    with assms(2) show ?thesis by (auto simp: find_None_iff)
  next
    case (Some m)
    then have "m \<in> set required" "mt_Name m = mt_Name r" by (auto dest: find_SomeD)
    with assms Some show ?thesis by (auto simp: distinct_map inj_on_def)
  qed
  then show ?thesis by (simp add: matcher_map_def fold_put_matcher)
qed

lemma combine_member:
  assumes "m \<in> set (combineLabelMatchers iter q required)"
  shows "matcher_map q required (mt_Name m) = Some m"
proof -
  from assms obtain k where "matcher_map q required k = Some m"
    by (auto simp: combineLabelMatchers_def List.map_filter_def)
  with matcher_map_name [OF this] show ?thesis by simp
qed

text \<open>A required matcher always wins, whatever the client sends for its label.\<close>

lemma combine_confined:
  assumes "distinct (map mt_Name required)" and "\<And>ks. set (iter ks) = set ks"
  shows "confined required (combineLabelMatchers iter q required)"
  unfolding confined_def
proof (intro ballI conjI impI)
  fix r assume r: "r \<in> set required"
  then have "mt_Name r \<in> set (iter (remdups (map mt_Name (q @ required))))" by (simp add: assms(2))
  then show "r \<in> set (combineLabelMatchers iter q required)"
    using matcher_map_required [OF assms(1) r, of q]
    by (force simp: combineLabelMatchers_def List.map_filter_def)
  fix m assume "m \<in> set (combineLabelMatchers iter q required)" "mt_Name m = mt_Name r"
  then have "matcher_map q required (mt_Name r) = Some m" using combine_member by metis
  with matcher_map_required [OF assms(1) r, of q] show "m = r" by simp
qed

text \<open>Of the client's own matchers on one label only the last is kept.\<close>

lemma client_matcher_kept:
  assumes "m \<in> set (combineLabelMatchers iter q required)" and "mt_Name m \<notin> mt_Name ` set required"
  shows "find (\<lambda>x. mt_Name x = mt_Name m) (rev q) = Some m"
proof -
  have "find (\<lambda>x. mt_Name x = mt_Name m) (rev required) = None"
    unfolding find_None_iff using assms(2) by (metis image_eqI set_rev)
  with combine_member [OF assms(1)] show ?thesis
    by (simp add: matcher_map_def fold_put_matcher split: option.splits)
qed

lemma required_distinct: "distinct (map mt_Name (required_matchers org onlyUser username))"
  by (simp add: required_matchers_def)

text \<open>
  The expression that is sent: the bare selector of the required matchers when the client
  sent no query, otherwise the client's expression with the matchers of each selector combined
  with the required ones.
\<close>

definition rewritten :: "'e logql \<Rightarrow> (string list \<Rightarrow> string list) \<Rightarrow> matcher list \<Rightarrow> string \<Rightarrow> 'e \<Rightarrow> bool" where
  "rewritten Q iter required query e \<longleftrightarrow>
     (if query = [] then e = lq_Stream Q required
      else \<exists>sent. lq_Parse Q query = Some sent \<and> e = lq_Walk Q (\<lambda>ms. combineLabelMatchers iter ms required) sent)"

lemma rewritten_confined:
  assumes "logql_laws Q" and "\<And>ks. set (iter ks) = set ks"
    and "rewritten Q iter (required_matchers org onlyUser username) query e"
    and "ms \<in> set (lq_selectors Q e)"
  shows "confined (required_matchers org onlyUser username) ms"
proof -
  let ?r = "required_matchers org onlyUser username"
  have "confined ?r ?r"
    using required_distinct [of org onlyUser username] by (auto simp: confined_def distinct_map inj_on_def)
  then show ?thesis
    using assms(1,3,4) combine_confined [OF required_distinct assms(2)]
    by (auto simp: rewritten_def logql_laws_def split: if_splits)
qed

lemma enforce_rewrites:
  "enforceQueryMatchers Q iter v required queryEndpoint = Some v' \<longleftrightarrow>
     (if values_Get v queryParam = [] \<and> queryEndpoint then v' = v
      else \<exists>e. rewritten Q iter required (values_Get v queryParam) e \<and> v' = v(queryParam := [lq_String Q e]))"
  by (auto simp: enforceQueryMatchers_def Let_def values_Set_def rewritten_def split: option.splits)

lemma authorize_Inr:
  assumes "authorize user onlyUser = Inr (org, name)"
  shows "\<exists>u. user = Some (Some u) \<and> uc_OrganizationID u \<noteq> [] \<and> org = uc_OrganizationID u \<and>
    (onlyUser \<longrightarrow> name = uc_Username u) \<and>
    (org @ adminGroupSuffix \<in> set (uc_Groups u) \<or> onlyUser \<and> org @ userGroupSuffix \<in> set (uc_Groups u))"
  using assms by (auto simp: authorize_def containsGroup_def Let_def split: option.splits if_splits)

lemma authorize_not_forward: "authorize user onlyUser \<noteq> Inl (Forward p v a)"
  by (auto simp: authorize_def Let_def split: option.splits)

lemma required_only: "(onlyUser \<Longrightarrow> n = n') \<Longrightarrow> required_matchers org onlyUser n = required_matchers org onlyUser n'"
  by (simp add: required_matchers_def)

text \<open>What one proxied path sends, over the authorization and the rewriting.\<close>

lemma proxyHandler_forward:
  assumes "proxyHandler Q iter h upath queryEndpoint user params = Forward path vals auth"
  shows "\<exists>u own. user = Some (Some u) \<and> uc_OrganizationID u \<noteq> [] \<and>
    own = (ParseBool (values_Get params onlyUserParam) = Some True) \<and>
    (uc_OrganizationID u @ adminGroupSuffix \<in> set (uc_Groups u) \<or> own \<and> uc_OrganizationID u @ userGroupSuffix \<in> set (uc_Groups u)) \<and>
    auth = (if lh_token h = [] then None else Some (''Bearer '' @ lh_token h)) \<and>
    path = TrimSuffix_slash (lh_upstreamPath h) @ upath \<and>
    enforceQueryMatchers Q iter (values_Del params onlyUserParam)
      (required_matchers (uc_OrganizationID u) own (uc_Username u)) queryEndpoint = Some vals"
proof -
  let ?raw = "values_Get params onlyUserParam"
  from assms obtain own org name where
    own: "(if ?raw = [] then Some False else ParseBool ?raw) = Some own" and
    a: "authorize user own = Inr (org, name)" and
    e: "enforceQueryMatchers Q iter (values_Del params onlyUserParam) (required_matchers org own name) queryEndpoint = Some vals" and
    f: "path = TrimSuffix_slash (lh_upstreamPath h) @ upath" "auth = (if lh_token h = [] then None else Some (''Bearer '' @ lh_token h))"
    by (auto simp: proxyHandler_def Let_def authorize_not_forward split: option.splits sum.splits)
  have b: "own = (ParseBool ?raw = Some True)"
  proof (cases "?raw = []")
    case True
    then have "ParseBool ?raw = None" by (simp add: ParseBool_def)
    with own True show ?thesis by simp
  qed (use own in auto)
  from authorize_Inr [OF a] obtain u where u: "user = Some (Some u)" "uc_OrganizationID u \<noteq> []"
    "org = uc_OrganizationID u" "own \<longrightarrow> name = uc_Username u"
    "org @ adminGroupSuffix \<in> set (uc_Groups u) \<or> own \<and> org @ userGroupSuffix \<in> set (uc_Groups u)" by blast
  have "required_matchers org own name = required_matchers org own (uc_Username u)"
    using u(4) by (intro required_only) simp
  with e have e': "enforceQueryMatchers Q iter (values_Del params onlyUserParam)
    (required_matchers (uc_OrganizationID u) own (uc_Username u)) queryEndpoint = Some vals" by (simp add: u(3))
  show ?thesis
    by (rule exI [of _ u], rule exI [of _ own]) (use b u(1,2,5) e' f in \<open>simp add: u(3)\<close>)
qed

lemma loki_serve_forward:
  assumes "loki_serve Q iter h route user params = Forward path vals auth"
  shows "\<exists>upath. proxyHandler Q iter h upath (route = QueryRange) user params = Forward path vals auth \<and>
    upath \<in> {''/loki/api/v1/query_range'', ''/loki/api/v1/labels''} \<union>
       {''/loki/api/v1/label/'' @ name @ ''/values'' |name. name \<noteq> [] \<and> (\<forall>ch\<in>set name. isLabelNameRune ch True)}"
proof (cases route)
  case (LabelValues name)
  with assms have "isValidLabelName name"
    "proxyHandler Q iter h (''/loki/api/v1/label/'' @ name @ ''/values'') False user params = Forward path vals auth"
    by (auto simp: loki_serve_def proxyToLabelValues_def split: if_splits)
  moreover from this(1) have "name \<noteq> [] \<and> (\<forall>ch\<in>set name. isLabelNameRune ch True)"
    by (auto simp: isValidLabelName_def isLabelNameRune_def list_all_iff split: list.splits if_splits)
  ultimately show ?thesis
    by (intro exI [of _ "''/loki/api/v1/label/'' @ name @ ''/values''"]) (use LabelValues in auto)
qed (use assms in \<open>auto simp: loki_serve_def\<close>)

text \<open>
  C28. What the proxy sends. A request is sent upstream only for an authenticated
  caller with an organization who is an administrator of it, or asks for the own logs and is
  one of its users; the credentials sent are the proxy's own, \<open>only_user\<close> is not forwarded, and
  the path is one of the three read paths. On the label paths, and on the query path when the
  first value of the \<open>query\<close> parameter is not empty, the parameters sent are the client's with
  exactly one value of \<open>query\<close>: the printed form of the client's expression, or of the bare
  required selector when there is none, in which each selector has exactly the
  equality matcher for the caller's organization on its label, and for the caller's user name
  when only the own logs were asked for. On the query path with an empty first value nothing
  is rewritten: the parameters are sent as they came, further values of \<open>query\<close> included.
\<close>

theorem loki_queries_confined:
  assumes "loki_serve Q iter h route user params = Forward path vals auth" and "logql_laws Q"
    and "\<And>ks. set (iter ks) = set ks"
  shows "\<exists>u own. user = Some (Some u) \<and> uc_OrganizationID u \<noteq> [] \<and>
    own = (ParseBool (values_Get params onlyUserParam) = Some True) \<and>
    (uc_OrganizationID u @ adminGroupSuffix \<in> set (uc_Groups u) \<or> own \<and> uc_OrganizationID u @ userGroupSuffix \<in> set (uc_Groups u)) \<and>
    vals onlyUserParam = [] \<and> auth = (if lh_token h = [] then None else Some (''Bearer '' @ lh_token h)) \<and>
    path \<in> (\<lambda>p. TrimSuffix_slash (lh_upstreamPath h) @ p) `
      ({''/loki/api/v1/query_range'', ''/loki/api/v1/labels''} \<union>
       {''/loki/api/v1/label/'' @ name @ ''/values'' |name. name \<noteq> [] \<and> (\<forall>ch\<in>set name. isLabelNameRune ch True)}) \<and>
    (if values_Get params queryParam = [] \<and> route = QueryRange then vals = params(onlyUserParam := [])
     else \<exists>e. vals = params(onlyUserParam := [], queryParam := [lq_String Q e]) \<and>
       rewritten Q iter (required_matchers (uc_OrganizationID u) own (uc_Username u)) (values_Get params queryParam) e \<and>
       (\<forall>ms\<in>set (lq_selectors Q e). confined (required_matchers (uc_OrganizationID u) own (uc_Username u)) ms))"
proof -
  from loki_serve_forward [OF assms(1)] obtain upath where
    up: "proxyHandler Q iter h upath (route = QueryRange) user params = Forward path vals auth" and
    paths: "upath \<in> {''/loki/api/v1/query_range'', ''/loki/api/v1/labels''} \<union>
       {''/loki/api/v1/label/'' @ name @ ''/values'' |name. name \<noteq> [] \<and> (\<forall>ch\<in>set name. isLabelNameRune ch True)}"
    by blast
  from proxyHandler_forward [OF up] obtain u own where u: "user = Some (Some u)" "uc_OrganizationID u \<noteq> []"
    "own = (ParseBool (values_Get params onlyUserParam) = Some True)"
    "uc_OrganizationID u @ adminGroupSuffix \<in> set (uc_Groups u) \<or> own \<and> uc_OrganizationID u @ userGroupSuffix \<in> set (uc_Groups u)"
    "auth = (if lh_token h = [] then None else Some (''Bearer '' @ lh_token h))"
    "path = TrimSuffix_slash (lh_upstreamPath h) @ upath" and
    e: "enforceQueryMatchers Q iter (values_Del params onlyUserParam)
      (required_matchers (uc_OrganizationID u) own (uc_Username u)) (route = QueryRange) = Some vals" by blast
  let ?r = "required_matchers (uc_OrganizationID u) own (uc_Username u)"
  have get: "values_Get (params(onlyUserParam := [])) queryParam = values_Get params queryParam"
    by (simp add: values_Get_def)
  have q: "if values_Get params queryParam = [] \<and> route = QueryRange then vals = params(onlyUserParam := [])
     else \<exists>e. rewritten Q iter ?r (values_Get params queryParam) e \<and> vals = params(onlyUserParam := [], queryParam := [lq_String Q e])"
    using e unfolding enforce_rewrites values_Del_def get .
  then have "vals onlyUserParam = []" by (auto split: if_splits)
  moreover have "if values_Get params queryParam = [] \<and> route = QueryRange then vals = params(onlyUserParam := [])
     else \<exists>e. vals = params(onlyUserParam := [], queryParam := [lq_String Q e]) \<and>
       rewritten Q iter ?r (values_Get params queryParam) e \<and> (\<forall>ms\<in>set (lq_selectors Q e). confined ?r ms)"
    using q rewritten_confined [OF assms(2,3)] by (auto split: if_splits)
  ultimately show ?thesis using u paths by blast
qed

lemma selector_logql_laws: "logql_laws selector_logql"
  by (simp add: logql_laws_def selector_logql_def)

theorem loki_queries_confined_witness:
  "\<exists>path vals auth e. loki_serve selector_logql id \<lparr>lh_upstreamPath = ''/api/'', lh_token = ''t''\<rparr> Labels (Some (Some demo_caller)) demo_params = Forward path vals auth \<and>
     vals onlyUserParam = [] \<and> auth = Some ''Bearer t'' \<and> vals queryParam = [enc_selector e] \<and>
     confined (required_matchers ''org1'' True ''ann'') e"
proof -
  let ?h = "\<lparr>lh_upstreamPath = ''/api/'', lh_token = ''t''\<rparr>"
  have "\<exists>path vals auth. loki_serve selector_logql id ?h Labels (Some (Some demo_caller)) demo_params = Forward path vals auth"
    by (simp add: loki_serve_def proxyHandler_def demo_params_def demo_caller_def values_Get_def ParseBool_def authorize_def
        containsGroup_def Let_def enforceQueryMatchers_def values_Del_def selector_logql_def enc_type_def dec_type_def)
  then obtain path vals auth where f: "loki_serve selector_logql id ?h Labels (Some (Some demo_caller)) demo_params = Forward path vals auth"
    by blast
  have "ParseBool (values_Get demo_params onlyUserParam) = Some True"
    by (simp add: demo_params_def values_Get_def ParseBool_def)
  with loki_queries_confined [OF f selector_logql_laws, simplified]
  obtain e where "vals onlyUserParam = []" "auth = Some ''Bearer t''" "vals queryParam = [lq_String selector_logql e]"
    "\<forall>ms\<in>set (lq_selectors selector_logql e). confined (required_matchers ''org1'' True ''ann'') ms"
    by (auto simp: demo_caller_def)
  with f show ?thesis by (auto simp: selector_logql_def)
qed

section \<open>Queries that are not examined\<close>

text \<open>
  On the query endpoint an empty first value of \<open>query\<close> lets every further value through as
  the client sent it.
\<close>

lemma second_query_forwarded:
  assumes "uc_OrganizationID u \<noteq> []" and "uc_OrganizationID u @ adminGroupSuffix \<in> set (uc_Groups u)"
    and "params queryParam = [] # qs" and "params onlyUserParam = []"
  shows "\<exists>path auth. loki_serve Q iter h QueryRange (Some (Some u)) params = Forward path params auth"
proof -
  have "params(onlyUserParam := []) = params" using assms(4) by auto
  with assms show ?thesis
    by (simp add: loki_serve_def proxyHandler_def values_Get_def authorize_def containsGroup_def Let_def
        enforceQueryMatchers_def values_Del_def)
qed

text \<open>A selector with two matchers on one label loses the first.\<close>

lemma first_matcher_lost:
  assumes "\<And>ks. set (iter ks) = set ks" and "m1 \<noteq> m2" and "mt_Name m1 = mt_Name m2"
    and "mt_Name m2 \<notin> mt_Name ` set required"
  shows "m1 \<notin> set (combineLabelMatchers iter [m1, m2] required)"
  using client_matcher_kept [of m1 iter "[m1, m2]" required] assms by auto

end
