(* ===== verification/AdminAuth.thy ===== *)
theory AdminAuth
  imports TokenIdentity "HOL-Library.AList"
begin

text \<open>
  Who is an administrator and who may call the internal endpoints of \<open>maas-api\<close>
  (\<open>internal/auth\<close>): the check by SubjectAccessReview, its cache
  (\<open>cached_admin_checker.go\<close>) and the two middlewares that review a bearer token. The answers
  of the Kubernetes API are arguments. The cache is shared by all requests and its lock is not
  held while the delegate is asked, so a call is two atomic parts and runs are their
  interleavings.
\<close>

section \<open>The reviews\<close>

record reviewStatus =
  rs_Authenticated :: bool
  rs_Username :: string
  rs_Groups :: "string list"

record resourceAttributes =
  ra_Namespace :: string
  ra_Verb :: string
  ra_Group :: string
  ra_Resource :: string

text \<open>\<open>None\<close> is a failed call.\<close>

record kubeClient =
  kc_TokenReview :: "string \<Rightarrow> reviewStatus option"
  kc_SubjectAccessReview :: "string \<Rightarrow> string list \<Rightarrow> resourceAttributes \<Rightarrow> bool option"

definition sar_IsAdmin :: "kubeClient \<Rightarrow> string \<Rightarrow> userContext option \<Rightarrow> bool option" where
  "sar_IsAdmin k ns user =
     (case user of
        None \<Rightarrow> Some False
      | Some u \<Rightarrow>
        if uc_Username u = [] then Some False
        else kc_SubjectAccessReview k (uc_Username u) (uc_Groups u)
               \<lparr>ra_Namespace = ns, ra_Verb = ''create'', ra_Group = ''maas.opendatahub.io'', ra_Resource = ''maasauthpolicies''\<rparr>)"

section \<open>The middlewares\<close>

datatype gate = Proceed | Rejected nat

definition CleanupAuthMiddleware :: "kubeClient \<Rightarrow> string \<Rightarrow> string \<Rightarrow> string \<Rightarrow> gate" where
  "CleanupAuthMiddleware k serviceAccountName ns header =
     (let expectedUsername = ''system:serviceaccount:'' @ ns @ '':'' @ serviceAccountName in
      case Cut (CHR '' '') (TrimSpace header) of
        None \<Rightarrow> Rejected 401
      | Some (scheme, bearerToken) \<Rightarrow>
        if \<not> EqualFold scheme ''Bearer'' \<or> TrimSpace bearerToken = [] then Rejected 401
        else
          (case kc_TokenReview k (TrimSpace bearerToken) of
             None \<Rightarrow> Rejected 401
           | Some review \<Rightarrow>
             if \<not> rs_Authenticated review then Rejected 401
             else if rs_Username review \<noteq> expectedUsername then Rejected 403
             else Proceed))"

definition TenantAuthMiddleware :: "kubeClient \<Rightarrow> string \<Rightarrow> gate" where
  "TenantAuthMiddleware k header =
     (if header = [] \<or> \<not> HasPrefix header ''Bearer '' then Rejected 401
      else
        (case kc_TokenReview k (drop (length ''Bearer '') header) of
           None \<Rightarrow> Rejected 401
         | Some result \<Rightarrow>
           if \<not> rs_Authenticated result then Rejected 401
           else
             (case kc_SubjectAccessReview k (rs_Username result) (rs_Groups result)
                     \<lparr>ra_Namespace = [], ra_Verb = ''create'', ra_Group = ''authorization.k8s.io'', ra_Resource = ''selfsubjectaccessreviews''\<rparr> of
                None \<Rightarrow> Rejected 500
              | Some allowed \<Rightarrow> if \<not> allowed then Rejected 403 else Proceed)))"

section \<open>The cached checker\<close>

record cacheEntry =
  ce_isAdmin :: bool
  ce_expiresAt :: int

record cachedAdminChecker =
  ca_ttl :: int
  ca_negativeTTL :: int
  ca_maxSize :: nat
  ca_cache :: "(string \<times> cacheEntry) list"
  ca_hits :: nat
  ca_misses :: nat

text \<open>The constructor panics on a limit that is not positive.\<close>

definition NewCachedAdminChecker :: "int \<Rightarrow> int \<Rightarrow> int \<Rightarrow> cachedAdminChecker option" where
  "NewCachedAdminChecker ttl negativeTTL maxSize =
     (if ttl \<le> 0 \<or> negativeTTL \<le> 0 \<or> maxSize \<le> 0 then None
      else Some \<lparr>ca_ttl = ttl, ca_negativeTTL = negativeTTL, ca_maxSize = nat maxSize, ca_cache = [], ca_hits = 0, ca_misses = 0\<rparr>)"

abbreviation NUL :: char where "NUL \<equiv> CHR 0x00"

definition cacheKey :: "userContext \<Rightarrow> string" where
  "cacheKey user = uc_Username user @ [NUL] @ Join (sort (uc_Groups user)) [NUL]"

definition evictExpiredLocked :: "int \<Rightarrow> (string \<times> cacheEntry) list \<Rightarrow> (string \<times> cacheEntry) list" where
  "evictExpiredLocked now cache = filter (\<lambda>(k, v). \<not> now > ce_expiresAt v) cache"

text \<open>The part before the delegate: a hit ends the call.\<close>

definition lookup_cached :: "cachedAdminChecker \<Rightarrow> userContext \<Rightarrow> int \<Rightarrow> bool option" where
  "lookup_cached c user now =
     (case map_of (ca_cache c) (cacheKey user) of
        Some entry \<Rightarrow> if now < ce_expiresAt entry then Some (ce_isAdmin entry) else None
      | None \<Rightarrow> None)"

text \<open>The part after it, for an answer without error.\<close>

definition ttl_of :: "cachedAdminChecker \<Rightarrow> bool \<Rightarrow> int" where
  "ttl_of c result = (if \<not> result then ca_negativeTTL c else ca_ttl c)"

definition store_answer :: "cachedAdminChecker \<Rightarrow> userContext \<Rightarrow> bool \<Rightarrow> int \<Rightarrow> cachedAdminChecker" where
  "store_answer c user result storeTime =
     (let kept = evictExpiredLocked storeTime (ca_cache c) in
      c\<lparr>ca_cache := (if length kept < ca_maxSize c
           then AList.update (cacheKey user) \<lparr>ce_isAdmin = result, ce_expiresAt = storeTime + ttl_of c result\<rparr> kept
           else kept),
        ca_misses := ca_misses c + 1\<rparr>)"

text \<open>
  One call on its own: \<open>canceled\<close> and \<open>canceledAfter\<close> are the context's state before and after
  the delegate answers, \<open>None\<close> is an error.
\<close>

definition cached_IsAdmin ::
    "cachedAdminChecker option \<Rightarrow> userContext option \<Rightarrow> bool \<Rightarrow> int \<Rightarrow> bool option \<Rightarrow> bool \<Rightarrow> int \<Rightarrow> bool option \<times> cachedAdminChecker option" where
  "cached_IsAdmin checker user canceled now answer canceledAfter storeTime =
     (case (checker, user) of
        (Some c, Some u) \<Rightarrow>
          if uc_Username u = [] then (Some False, checker)
          else if canceled then (None, checker)
          else
            (case lookup_cached c u now of
               Some isAdmin \<Rightarrow> (Some isAdmin, Some (c\<lparr>ca_hits := ca_hits c + 1\<rparr>))
             | None \<Rightarrow>
               (case answer of
                  None \<Rightarrow> (None, Some (c\<lparr>ca_misses := ca_misses c + 1\<rparr>))
                | Some result \<Rightarrow>
                  if canceledAfter then (None, Some (c\<lparr>ca_misses := ca_misses c + 1\<rparr>))
                  else (Some result, Some (store_answer c u result storeTime))))
      | _ \<Rightarrow> (Some False, checker))"

section \<open>Runs\<close>

text \<open>
  The atomic parts of any number of concurrent calls, in the order in which they take the lock.
  \<open>Answered user result t\<close> stores what the delegate said for \<open>user\<close>, with the clock at \<open>t\<close>;
  \<open>Failed\<close> is a call that ends in an error after a miss.
\<close>

datatype adminEvent = Hit userContext int | Answered userContext bool int | Failed

fun admin_step :: "adminEvent \<Rightarrow> cachedAdminChecker \<Rightarrow> cachedAdminChecker" where
  "admin_step (Hit user now) c = c\<lparr>ca_hits := ca_hits c + 1\<rparr>"
| "admin_step (Answered user result t) c = store_answer c user result t"
| "admin_step Failed c = c\<lparr>ca_misses := ca_misses c + 1\<rparr>"

definition admin_run :: "adminEvent list \<Rightarrow> cachedAdminChecker \<Rightarrow> cachedAdminChecker" where
  "admin_run es c = fold admin_step es c"

text \<open>One call alone is one of these steps, or none.\<close>

lemma cached_IsAdmin_steps:
  assumes "cached_IsAdmin (Some c) user canceled now answer canceledAfter t = (r, c')"
  shows "\<exists>es. length es \<le> 1 \<and> c' = Some (admin_run es c) \<and>
    (\<forall>u b t'. Answered u b t' \<in> set es \<longrightarrow> user = Some u \<and> answer = Some b \<and> t' = t \<and> r = Some b)"
proof -
  consider (none) "c' = Some c" | (hit) u where "c' = Some (admin_step (Hit u now) c)"
    | (err) "c' = Some (admin_step Failed c)"
    | (ans) u b where "user = Some u" "answer = Some b" "r = Some b" "c' = Some (admin_step (Answered u b t) c)"
    using assms by (auto simp: cached_IsAdmin_def split: option.splits if_splits)
  then show ?thesis
  proof cases
    case none then show ?thesis by (intro exI [of _ "[]"]) (simp add: admin_run_def)
  next
    case (hit u) then show ?thesis by (intro exI [of _ "[Hit u now]"]) (simp add: admin_run_def)
  next
    case err then show ?thesis by (intro exI [of _ "[Failed]"]) (simp add: admin_run_def)
  next
    case (ans u b) then show ?thesis by (intro exI [of _ "[Answered u b t]"]) (simp add: admin_run_def)
  qed
qed

section \<open>The key\<close>

text \<open>Names the key separates: no NUL byte and no empty group.\<close>

definition plain_user :: "userContext \<Rightarrow> bool" where
  "plain_user u \<longleftrightarrow> NUL \<notin> set (uc_Username u) \<and> (\<forall>g\<in>set (uc_Groups u). g \<noteq> [] \<and> NUL \<notin> set g)"

lemma cacheKey_inject:
  assumes "cacheKey u = cacheKey v" and "plain_user u" and "plain_user v"
  shows "uc_Username u = uc_Username v \<and> mset (uc_Groups u) = mset (uc_Groups v)"
proof -
  have "uc_Username u = uc_Username v" and j: "Join (sort (uc_Groups u)) [NUL] = Join (sort (uc_Groups v)) [NUL]"
    using split_first [of "uc_Username u" NUL _ "uc_Username v"] assms by (auto simp: cacheKey_def plain_user_def)
  moreover have "sort (uc_Groups u) = sort (uc_Groups v)"
    by (rule Join_inject [OF j]) (use assms in \<open>auto simp: plain_user_def\<close>)
  then have "mset (uc_Groups u) = mset (uc_Groups v)" by (metis mset_sort)
  ultimately show ?thesis by simp
qed

section \<open>What the cache may say\<close>

text \<open>Every entry is a stored answer with its expiry, keys are distinct and there is room.\<close>

definition stored :: "adminEvent list \<Rightarrow> cachedAdminChecker \<Rightarrow> string \<Rightarrow> cacheEntry \<Rightarrow> bool" where
  "stored es c k v \<longleftrightarrow> (\<exists>u t. Answered u (ce_isAdmin v) t \<in> set es \<and> cacheKey u = k \<and>
     ce_expiresAt v = t + ttl_of c (ce_isAdmin v))"

definition cache_inv :: "adminEvent list \<Rightarrow> cachedAdminChecker \<Rightarrow> bool" where
  "cache_inv es c \<longleftrightarrow> distinct (map fst (ca_cache c)) \<and> length (ca_cache c) \<le> ca_maxSize c \<and>
     (\<forall>k v. (k, v) \<in> set (ca_cache c) \<longrightarrow> stored es c k v)"

lemma stored_mono:
  assumes "stored es c k v" and "ca_ttl c' = ca_ttl c" and "ca_negativeTTL c' = ca_negativeTTL c"
  shows "stored (es @ fs) c' k v"
  using assms by (auto simp: stored_def ttl_of_def)

lemma evict_keeps:
  "set (evictExpiredLocked t xs) \<subseteq> set xs" "distinct (map fst xs) \<Longrightarrow> distinct (map fst (evictExpiredLocked t xs))"
  "length (evictExpiredLocked t xs) \<le> length xs"
  by (auto simp: evictExpiredLocked_def distinct_map_filter)

lemma length_AList_update: "length (AList.update k v xs) \<le> Suc (length xs)"
  by (induction xs) auto

lemma in_AList_update: "kv \<in> set (AList.update k v xs) \<Longrightarrow> kv = (k, v) \<or> kv \<in> set xs"
  by (induction xs) (auto split: if_splits)

lemma store_answer_same: "ca_ttl (store_answer c u b t) = ca_ttl c" "ca_negativeTTL (store_answer c u b t) = ca_negativeTTL c"
  "ca_maxSize (store_answer c u b t) = ca_maxSize c"
  by (simp_all add: store_answer_def Let_def)

lemma store_answer_inv:
  assumes "cache_inv es c"
  shows "cache_inv (es @ [Answered u b t]) (store_answer c u b t)"
proof -
  let ?kept = "evictExpiredLocked t (ca_cache c)" and ?c = "store_answer c u b t"
  let ?e = "\<lparr>ce_isAdmin = b, ce_expiresAt = t + ttl_of c b\<rparr>"
  have d: "distinct (map fst ?kept)" "length ?kept \<le> ca_maxSize c"
    using assms evict_keeps(2) [of "ca_cache c" t] evict_keeps(3) [of t "ca_cache c"] by (auto simp: cache_inv_def)
  have cache: "ca_cache ?c = (if length ?kept < ca_maxSize c then AList.update (cacheKey u) ?e ?kept else ?kept)"
    by (simp add: store_answer_def Let_def)
  have "stored (es @ [Answered u b t]) ?c k v" if "(k, v) \<in> set (ca_cache ?c)" for k v
  proof (cases "(k, v) \<in> set ?kept")
    case True
    then have "stored es c k v" using assms evict_keeps(1) [of t "ca_cache c"] by (auto simp: cache_inv_def)
    then show ?thesis by (rule stored_mono) (simp_all add: store_answer_same)
  next
    case False
    with that have "k = cacheKey u" "v = ?e" by (auto simp: cache split: if_splits dest: in_AList_update)
    then show ?thesis by (auto simp: stored_def ttl_of_def store_answer_same)
  qed
  moreover have "distinct (map fst (ca_cache ?c))" using d(1) by (simp add: cache distinct_update)
  moreover have "length (ca_cache ?c) \<le> ca_maxSize ?c"
    using d(2) length_AList_update [of "cacheKey u" ?e ?kept] by (simp add: cache store_answer_same)
  ultimately show ?thesis by (simp add: cache_inv_def)
qed

lemma cache_inv_counters:
  assumes "cache_inv es c"
  shows "cache_inv (es @ fs) (c\<lparr>ca_hits := h\<rparr>)" "cache_inv (es @ fs) (c\<lparr>ca_misses := n\<rparr>)"
  using assms stored_mono [of es c] by (simp_all add: cache_inv_def)

lemma admin_run_snoc: "admin_run (es @ [e]) c = admin_step e (admin_run es c)"
  by (simp add: admin_run_def)

lemma admin_run_inv:
  assumes "NewCachedAdminChecker ttl neg m = Some c"
  shows "cache_inv es (admin_run es c) \<and> ca_ttl (admin_run es c) = ttl \<and> ca_negativeTTL (admin_run es c) = neg \<and>
    ca_maxSize (admin_run es c) = nat m"
proof (induction es rule: rev_induct)
  case Nil
  show ?case using assms by (auto simp: NewCachedAdminChecker_def cache_inv_def admin_run_def split: if_splits)
next
  case (snoc e es)
  show ?case
  proof (cases e)
    case (Answered u b t)
    with snoc store_answer_inv [of es "admin_run es c" u b t] show ?thesis
      by (simp add: admin_run_snoc store_answer_same)
  qed (use snoc in \<open>simp_all add: admin_run_snoc cache_inv_counters\<close>)
qed

text \<open>
  C29. The cache is sound and bounded. After any interleaving of any number of calls, the cache
  holds at most the configured number of entries, and an answer read from it for a user is one
  the delegate gave for a user of the same name and the same groups, stored less than the
  lifetime of such an answer ago (a denial has its own, shorter one). The names are those the
  key separates.
\<close>

theorem cached_admin_answers:
  assumes "NewCachedAdminChecker ttl neg m = Some c" and "lookup_cached (admin_run es c) u now = Some b"
    and "plain_user u" and "\<forall>v r t. Answered v r t \<in> set es \<longrightarrow> plain_user v"
  shows "int (length (ca_cache (admin_run es c))) \<le> m \<and>
    (\<exists>v t. Answered v b t \<in> set es \<and> uc_Username v = uc_Username u \<and> mset (uc_Groups v) = mset (uc_Groups u) \<and>
       now < t + (if b then ttl else neg))"
proof -
  note run = admin_run_inv [OF assms(1), of es]
  from assms(2) obtain e where e: "map_of (ca_cache (admin_run es c)) (cacheKey u) = Some e" "now < ce_expiresAt e" "b = ce_isAdmin e"
    by (auto simp: lookup_cached_def split: option.splits if_splits)
  from map_of_SomeD [OF e(1)] run obtain v t where v: "Answered v b t \<in> set es" "cacheKey v = cacheKey u"
    "ce_expiresAt e = t + ttl_of (admin_run es c) b"
    unfolding cache_inv_def stored_def e(3) by blast
  have "uc_Username v = uc_Username u \<and> mset (uc_Groups v) = mset (uc_Groups u)"
    using cacheKey_inject [OF v(2)] v(1) assms(3,4) by blast
  moreover have "int (length (ca_cache (admin_run es c))) \<le> m"
    using run assms(1) by (auto simp: cache_inv_def NewCachedAdminChecker_def split: if_splits)
  moreover have "now < t + (if b then ttl else neg)" using v(3) e(2) run by (simp add: ttl_of_def split: if_splits)
  ultimately show ?thesis using v(1) by blast
qed

definition demo_admin :: userContext where
  "demo_admin = \<lparr>uc_Username = ''ann'', uc_Groups = [''b'', ''a''], uc_Tenant = ''t'', uc_OrganizationID = []\<rparr>"

theorem cached_admin_answers_witness:
  "\<exists>c v t. NewCachedAdminChecker 60 2 8 = Some c \<and>
     lookup_cached (admin_run [Answered demo_admin True 100, Failed] c) (demo_admin\<lparr>uc_Groups := [''a'', ''b'']\<rparr>) 159 = Some True \<and>
     Answered v True t \<in> set [Answered demo_admin True 100, Failed] \<and> uc_Username v = ''ann'' \<and> 159 < t + 60"
proof -
  obtain c where c: "NewCachedAdminChecker 60 2 8 = Some c" by (simp add: NewCachedAdminChecker_def)
  then have "c = \<lparr>ca_ttl = 60, ca_negativeTTL = 2, ca_maxSize = 8, ca_cache = [], ca_hits = 0, ca_misses = 0\<rparr>"
    by (simp add: NewCachedAdminChecker_def)
  then have l: "lookup_cached (admin_run [Answered demo_admin True 100, Failed] c) (demo_admin\<lparr>uc_Groups := [''a'', ''b'']\<rparr>) 159 = Some True"
    by (simp add: lookup_cached_def admin_run_def store_answer_def evictExpiredLocked_def cacheKey_def demo_admin_def ttl_of_def)
  have "plain_user (demo_admin\<lparr>uc_Groups := [''a'', ''b'']\<rparr>)"
    "\<forall>v r t. Answered v r t \<in> set [Answered demo_admin True 100, Failed] \<longrightarrow> plain_user v"
    by (auto simp: plain_user_def demo_admin_def)
  from cached_admin_answers [OF c l this] c l show ?thesis by (auto simp: demo_admin_def)
qed

section \<open>The middlewares let only reviewed callers through\<close>

lemma cleanup_proceeds_iff:
  "CleanupAuthMiddleware k sa ns header = Proceed \<longleftrightarrow>
     (\<exists>scheme rest review. Cut (CHR '' '') (TrimSpace header) = Some (scheme, rest) \<and> EqualFold scheme ''Bearer'' \<and>
        TrimSpace rest \<noteq> [] \<and> kc_TokenReview k (TrimSpace rest) = Some review \<and> rs_Authenticated review \<and>
        rs_Username review = ''system:serviceaccount:'' @ ns @ '':'' @ sa)"
  by (auto simp: CleanupAuthMiddleware_def Let_def split: option.splits)

lemma tenant_proceeds:
  assumes "TenantAuthMiddleware k header = Proceed"
  shows "\<exists>tok review. header = ''Bearer '' @ tok \<and> kc_TokenReview k tok = Some review \<and> rs_Authenticated review"
  using assms by (auto simp: TenantAuthMiddleware_def HasPrefix_iff split: option.splits if_splits)

end
