(* ===== verification/RateTier.thy ===== *)
theory RateTier
  imports SubscriptionModel
begin

text \<open>
  How the controller turns the token budgets of a model's subscriptions into the limits of
  one TokenRateLimitPolicy: \<open>ratetier.go\<close> and \<open>subscription_ratelimit_id.go\<close> of
  \<open>maas-controller/pkg/controller/maas\<close>, and the budget checks of
  \<open>maassubscription_controller.go\<close>. The predicates of the limits are CEL expressions; the
  code prints them, the model builds the expression (\<open>cel\<close>) and \<open>cel_string\<close> prints it as
  the code does, so that what a limit matches can be stated.
\<close>

section \<open>Budgets\<close>

record modelSubscriptionRef =
  msr_Name :: string
  msr_Namespace :: string
  msr_TokenRateLimits :: "tokenRateLimit list"
  msr_Unlimited :: bool

datatype rateError =
    LimitNotPositive int
  | LimitTooLarge int
  | InvalidWindow string
  | WindowTooLong string int
  | ErrNoTokenBudget

definition maxTokenRateLimit :: int where
  "maxTokenRateLimit = 1000000000"

definition maxWindowSeconds :: int where
  "maxWindowSeconds = 366 * 24 * 3600"

text \<open>\<open>^[1-9]\d{0,3}(s|m|h)$\<close>, with the number and the unit of a match.\<close>

definition windowPattern :: "string \<Rightarrow> (string \<times> char) option" where
  "windowPattern window =
     (if window = [] then None
      else
        (let num = butlast window; unit = last window in
         if num \<noteq> [] \<and> length num \<le> 4 \<and> list_all digit num \<and> hd num \<noteq> CHR ''0'' \<and>
            unit \<in> {CHR ''s'', CHR ''m'', CHR ''h''}
         then Some (num, unit) else None))"

definition validateTokenRateLimit :: "int \<Rightarrow> string \<Rightarrow> rateError option" where
  "validateTokenRateLimit limit window =
     (if limit \<le> 0 then Some (LimitNotPositive limit)
      else if limit > maxTokenRateLimit then Some (LimitTooLarge limit)
      else
        (case windowPattern window of
           None \<Rightarrow> Some (InvalidWindow window)
         | Some (numStr, unit) \<Rightarrow>
           (let val = int (Atoi numStr);
                seconds = (if unit = CHR ''s'' then val else if unit = CHR ''m'' then val * 60 else val * 3600)
            in if seconds > maxWindowSeconds then Some (WindowTooLong window seconds) else None)))"

definition rate_of :: "tokenRateLimit \<Rightarrow> json" where
  "rate_of trl = JObj [(''limit'', JInt (trl_Limit trl)), (''window'', JStr (trl_Window trl))]"

definition modelRefTokenRates :: "modelSubscriptionRef \<Rightarrow> rateError + json list \<times> bool" where
  "modelRefTokenRates mRef =
     (if msr_TokenRateLimits mRef = [] then
        (if msr_Unlimited mRef then Inr ([], True) else Inl ErrNoTokenBudget)
      else
        bind_res
          (traverse (\<lambda>trl. case validateTokenRateLimit (trl_Limit trl) (trl_Window trl) of
               Some e \<Rightarrow> Inl e | None \<Rightarrow> Inr (rate_of trl)) (msr_TokenRateLimits mRef))
          (\<lambda>rates. Inr (rates, False)))"

section \<open>Rate groups\<close>

definition rate_key :: "jobj \<Rightarrow> string" where
  "rate_key m =
     format_int (case field as_int64 m ''limit'' of None \<Rightarrow> 0 | Some l \<Rightarrow> l) @ ''/'' @ str_field m ''window''"

fun canonical_loop :: "(string \<times> json) list \<Rightarrow> json list \<Rightarrow> (string \<times> json) list" where
  "canonical_loop byKey [] = byKey"
| "canonical_loop byKey (r # rs) =
     (case as_obj r of
        None \<Rightarrow> canonical_loop byKey rs
      | Some m \<Rightarrow>
        if map_of byKey (rate_key m) \<noteq> None then canonical_loop byKey rs
        else canonical_loop (byKey @ [(rate_key m, r)]) rs)"

definition canonicalizeRates :: "json list \<Rightarrow> string \<times> json list" where
  "canonicalizeRates rates =
     (let byKey = canonical_loop [] rates;
          keys = SliceStable (<) (map fst byKey)
      in (Join keys '','', map (\<lambda>k. the (map_of byKey k)) keys))"

definition rateGroupKey :: "json list \<Rightarrow> string" where
  "rateGroupKey rates = fst (canonicalizeRates rates)"

definition canonicalRates :: "json list \<Rightarrow> json list" where
  "canonicalRates rates = snd (canonicalizeRates rates)"

definition rateGroupLimitName :: "string \<Rightarrow> string" where
  "rateGroupLimitName key =
     ''tokens-'' @ concat (map (\<lambda>c. if c = CHR ''/'' then ''-per-'' else if c = CHR '','' then ''-'' else [c]) key)"

section \<open>Identity of a subscription at the gateway\<close>

definition ModelScopedSubscriptionKey :: "string \<Rightarrow> string \<Rightarrow> string \<Rightarrow> string \<Rightarrow> string" where
  "ModelScopedSubscriptionKey subNamespace subName modelNamespace modelName =
     subNamespace @ ''/'' @ subName @ ''@'' @ modelNamespace @ ''/'' @ modelName"

definition SubscriptionRateLimitID :: "libs \<Rightarrow> string \<Rightarrow> string" where
  "SubscriptionRateLimitID L modelScopedKey = take 16 (sha256hex L modelScopedKey)"

record subInfo =
  si_subNamespace :: string
  si_subName :: string
  si_rates :: "json list"
  si_unlimited :: bool
  si_modelScoped :: string
  si_groupKey :: string
  si_legacy :: bool

datatype cel =
    FieldEq string string
  | AnyOf "cel list"
  | UnlessPathEndsWith cel string

fun cel_string :: "cel \<Rightarrow> string" where
  "cel_string (FieldEq f v) = f @ '' == '' @ [CHR 0x22] @ v @ [CHR 0x22]"
| "cel_string (AnyOf cs) = ''('' @ Join (map cel_string cs) '' || '' @ '')''"
| "cel_string (UnlessPathEndsWith c suffix) =
     cel_string c @ '' && !request.path.endsWith('' @ [CHR 0x22] @ suffix @ [CHR 0x22] @ '')''"

abbreviation key_field :: string where "key_field \<equiv> ''auth.identity.selected_subscription_key''"
abbreviation id_field :: string where "id_field \<equiv> ''auth.identity.selected_subscription_id''"
abbreviation user_field :: string where "user_field \<equiv> ''auth.identity.userid''"

definition subscriptionSelectClause :: "libs \<Rightarrow> subInfo \<Rightarrow> cel" where
  "subscriptionSelectClause L si =
     (if si_legacy si then FieldEq key_field (si_modelScoped si)
      else FieldEq id_field (SubscriptionRateLimitID L (si_modelScoped si)))"

definition subscriptionCounterExpression :: "bool \<Rightarrow> string" where
  "subscriptionCounterExpression legacy = (if legacy then key_field else id_field)"

section \<open>Limits\<close>

text \<open>An absent \<open>rates\<close> or \<open>counters\<close> key is \<open>None\<close>.\<close>

record tokenLimit =
  tl_rates :: "json list option"
  tl_when :: cel
  tl_counters :: "string list option"

definition sorted_clauses :: "libs \<Rightarrow> subInfo list \<Rightarrow> cel list" where
  "sorted_clauses L members =
     SliceStable (\<lambda>a b. cel_string a < cel_string b) (map (subscriptionSelectClause L) members)"

definition buildGroupLimit :: "libs \<Rightarrow> subInfo list \<Rightarrow> tokenLimit" where
  "buildGroupLimit L members =
     (let clauses = sorted_clauses L members;
          predicate = (if length clauses > 1 then AnyOf clauses else hd clauses)
      in \<lparr>tl_rates = Some (canonicalRates (si_rates (hd members))),
          tl_when = UnlessPathEndsWith predicate ''/v1/models'',
          tl_counters = Some [subscriptionCounterExpression (si_legacy (hd members)), user_field]\<rparr>)"

definition unlimitedLimitName :: string where
  "unlimitedLimitName = ''tokens-unlimited''"

definition unlimitedTokenLimit :: "libs \<Rightarrow> subInfo list \<Rightarrow> tokenLimit" where
  "unlimitedTokenLimit L members =
     \<lparr>tl_rates = None, tl_when = UnlessPathEndsWith (AnyOf (sorted_clauses L members)) ''/v1/models'',
      tl_counters = None\<rparr>"

text \<open>The \<open>map[string]any\<close> that is written to the policy.\<close>

definition limit_object :: "tokenLimit \<Rightarrow> json" where
  "limit_object l =
     JObj ((case tl_rates l of None \<Rightarrow> [] | Some rs \<Rightarrow> [(''rates'', JArr rs)])
       @ [(''when'', JArr [JObj [(''predicate'', JStr (cel_string (tl_when l)))]])]
       @ (case tl_counters l of None \<Rightarrow> []
          | Some es \<Rightarrow> [(''counters'', JArr (map (\<lambda>e. JObj [(''expression'', JStr e)]) es))]))"

definition addRateGroupLimits ::
    "libs \<Rightarrow> string \<Rightarrow> subInfo list \<Rightarrow> (string \<rightharpoonup> tokenLimit) \<Rightarrow> (string \<rightharpoonup> tokenLimit)" where
  "addRateGroupLimits L key members limitsMap =
     (let legacy = filter si_legacy members; short = filter (\<lambda>m. \<not> si_legacy m) members;
          name = rateGroupLimitName key
      in if short \<noteq> [] \<and> legacy \<noteq> []
         then limitsMap(name \<mapsto> buildGroupLimit L legacy, name @ ''-id'' \<mapsto> buildGroupLimit L short)
         else if legacy \<noteq> [] then limitsMap(name \<mapsto> buildGroupLimit L legacy)
         else if short \<noteq> [] then limitsMap(name \<mapsto> buildGroupLimit L short)
         else limitsMap)"

definition qualifiedName :: "string \<Rightarrow> string \<Rightarrow> string" where
  "qualifiedName namespace name = (if namespace = [] then name else namespace @ ''/'' @ name)"

text \<open>The groups in the order of their first member, the names, the unlimited members.\<close>

type_synonym groupState = "(string \<times> subInfo list) list \<times> string list \<times> subInfo list"

fun append_group :: "string \<Rightarrow> subInfo \<Rightarrow> (string \<times> subInfo list) list \<Rightarrow> (string \<times> subInfo list) list" where
  "append_group key si [] = [(key, [si])]"
| "append_group key si ((k, ms) # gs) = (if k = key then (k, ms @ [si]) # gs else (k, ms) # append_group key si gs)"

definition group_step :: "subInfo \<Rightarrow> groupState \<Rightarrow> groupState" where
  "group_step si st =
     (case st of (byGroup, subNames, unlimited) \<Rightarrow>
        (let name = qualifiedName (si_subNamespace si) (si_subName si);
             subNames = (if name \<in> set subNames then subNames else subNames @ [name])
         in if si_unlimited si then (byGroup, subNames, unlimited @ [si])
            else (append_group (si_groupKey si) si byGroup, subNames, unlimited)))"

definition buildGroupedLimits :: "libs \<Rightarrow> subInfo list \<Rightarrow> (string \<rightharpoonup> tokenLimit) \<times> string list" where
  "buildGroupedLimits L subs =
     (case fold group_step subs ([], [], []) of
        (byGroup, subNames, unlimited) \<Rightarrow>
          (let groupKeys = SliceStable (<) (map fst byGroup);
               limitsMap = fold (\<lambda>key. addRateGroupLimits L key (the (map_of byGroup key))) groupKeys Map.empty;
               limitsMap = (if unlimited \<noteq> []
                            then limitsMap(unlimitedLimitName \<mapsto> unlimitedTokenLimit L unlimited) else limitsMap)
           in (limitsMap, SliceStable (<) subNames)))"

section \<open>Valid budgets\<close>

definition valid_limit :: "tokenRateLimit \<Rightarrow> bool" where
  "valid_limit t \<longleftrightarrow> validateTokenRateLimit (trl_Limit t) (trl_Window t) = None"

lemma modelRefTokenRates_Inr:
  assumes "modelRefTokenRates r = Inr (rates, unlimited)"
  shows "if unlimited then rates = [] \<and> msr_TokenRateLimits r = [] \<and> msr_Unlimited r
    else msr_TokenRateLimits r \<noteq> [] \<and> list_all valid_limit (msr_TokenRateLimits r) \<and>
         rates = map rate_of (msr_TokenRateLimits r)"
proof (cases "msr_TokenRateLimits r = []")
  case True
  then show ?thesis using assms by (auto simp: modelRefTokenRates_def split: if_splits)
next
  case False
  then have t: "traverse (\<lambda>trl. case validateTokenRateLimit (trl_Limit trl) (trl_Window trl) of
      Some e \<Rightarrow> Inl e | None \<Rightarrow> Inr (rate_of trl)) (msr_TokenRateLimits r) = Inr rates" and u: "\<not> unlimited"
    using assms by (auto simp: modelRefTokenRates_def bind_res_eq_Inr_iff)
  from t have "list_all2 (\<lambda>x y. valid_limit x \<and> y = rate_of x) (msr_TokenRateLimits r) rates"
    by (auto simp: traverse_Inr_iff valid_limit_def split: option.splits elim: list_all2_mono)
  then have "list_all valid_limit (msr_TokenRateLimits r) \<and> rates = map rate_of (msr_TokenRateLimits r)"
    by (induction rule: list_all2_induct) auto
  with u False show ?thesis by simp
qed

text \<open>The bytes of a window and of a group key.\<close>

definition key_char :: "char \<Rightarrow> bool" where
  "key_char c \<longleftrightarrow> digit c \<or> c \<in> {CHR ''s'', CHR ''m'', CHR ''h'', CHR ''/'', CHR '',''}"

lemma key_char_not:
  "\<not> key_char (CHR ''-'')" "\<not> key_char (CHR ''p'')" "\<not> key_char (CHR ''d'')" "\<not> key_char (CHR ''u'')"
  "\<not> digit (CHR ''/'')" "\<not> digit (CHR '','')"
  by code_simp+

lemma windowPattern_chars:
  assumes "windowPattern w = Some (num, unit)"
  shows "\<forall>c\<in>set w. digit c \<or> c \<in> {CHR ''s'', CHR ''m'', CHR ''h''}"
proof -
  have "w \<noteq> []" "list_all digit (butlast w)" "last w \<in> {CHR ''s'', CHR ''m'', CHR ''h''}"
    using assms by (auto simp: windowPattern_def Let_def split: if_splits)
  then show ?thesis
    by (metis append_butlast_last_id in_set_butlastD in_set_conv_decomp list_all_iff rotate1.simps(2) set_ConsD set_rotate1)
qed

lemma valid_limitD:
  assumes "valid_limit t"
  shows "0 < trl_Limit t \<and> trl_Limit t \<le> maxTokenRateLimit \<and>
    (\<forall>c\<in>set (trl_Window t). digit c \<or> c \<in> {CHR ''s'', CHR ''m'', CHR ''h''})"
  using assms windowPattern_chars [of "trl_Window t"]
  by (auto simp: valid_limit_def validateTokenRateLimit_def split: if_splits option.splits prod.splits)

definition limit_key :: "tokenRateLimit \<Rightarrow> string" where
  "limit_key t = Itoa (nat (trl_Limit t)) @ ''/'' @ trl_Window t"

lemma rate_key_rate_of: "valid_limit t \<Longrightarrow> rate_of t = JObj m \<Longrightarrow> rate_key m = limit_key t"
  by (auto simp: rate_of_def rate_key_def limit_key_def field_def str_field_def format_int_def dest: valid_limitD)

lemma limit_key_inject:
  assumes "valid_limit s" and "valid_limit t" and "limit_key s = limit_key t"
  shows "rate_of s = rate_of t"
proof -
  have "CHR ''/'' \<notin> set (Itoa n)" for n using Itoa_digits [of n] key_char_not(5) by blast
  with split_first [of "Itoa (nat (trl_Limit s))" "CHR ''/''" "trl_Window s" "Itoa (nat (trl_Limit t))" "trl_Window t"]
  have "nat (trl_Limit s) = nat (trl_Limit t) \<and> trl_Window s = trl_Window t"
    using assms(3) by (simp add: limit_key_def Itoa_inject)
  moreover from this valid_limitD [OF assms(1)] valid_limitD [OF assms(2)] have "trl_Limit s = trl_Limit t" by linarith
  ultimately show ?thesis by (simp add: rate_of_def)
qed

lemma limit_key_chars:
  assumes "valid_limit t"
  shows "limit_key t \<noteq> []" and "CHR '','' \<notin> set (limit_key t)" and "\<forall>c\<in>set (limit_key t). key_char c"
proof -
  show "limit_key t \<noteq> []" by (simp add: limit_key_def)
  show "CHR '','' \<notin> set (limit_key t)"
    using Itoa_digits [of "nat (trl_Limit t)"] valid_limitD [OF assms] key_char_not(6) by (auto simp: limit_key_def)
  show "\<forall>c\<in>set (limit_key t). key_char c"
    using Itoa_digits [of "nat (trl_Limit t)"] valid_limitD [OF assms] by (auto simp: limit_key_def key_char_def)
qed

section \<open>Canonical rates\<close>

definition rates_by_key :: "(string \<times> json) list \<Rightarrow> bool" where
  "rates_by_key byKey \<longleftrightarrow> distinct (map fst byKey) \<and>
     (\<forall>(k, r)\<in>set byKey. \<exists>t. valid_limit t \<and> k = limit_key t \<and> r = rate_of t)"

lemma canonical_loop_spec:
  assumes "list_all valid_limit ts" and "rates_by_key byKey"
  shows "rates_by_key (canonical_loop byKey (map rate_of ts)) \<and>
    fst ` set (canonical_loop byKey (map rate_of ts)) = fst ` set byKey \<union> limit_key ` set ts"
  using assms
proof (induction ts arbitrary: byKey)
  case Nil
  then show ?case by simp
next
  case (Cons t ts)
  obtain m where m: "rate_of t = JObj m" by (simp add: rate_of_def)
  define b where "b = (if map_of byKey (limit_key t) \<noteq> None then byKey else byKey @ [(limit_key t, rate_of t)])"
  have "valid_limit t" and vs: "list_all valid_limit ts" using Cons.prems(1) by simp_all
  have step: "canonical_loop byKey (map rate_of (t # ts)) = canonical_loop b (map rate_of ts)"
    using rate_key_rate_of [OF \<open>valid_limit t\<close> m] by (simp add: m b_def)
  have keys: "fst ` set b = insert (limit_key t) (fst ` set byKey)"
    by (auto simp: b_def map_of_eq_None_iff image_iff dest!: map_of_SomeD)
  have "rates_by_key b"
    using Cons.prems(2) \<open>valid_limit t\<close> by (auto simp: rates_by_key_def b_def map_of_eq_None_iff)
  from Cons.IH [OF vs this] show ?case unfolding step by (simp add: keys)
qed

lemma sorted_keys_eq:
  "distinct xs \<Longrightarrow> distinct ys \<Longrightarrow> set xs = set ys \<Longrightarrow> SliceStable (<) xs = SliceStable (<) (ys :: string list)"
  by (rule by_string.SliceStable_unique) (auto simp: set_eq_iff_mset_eq_distinct [symmetric])

definition limit_keys :: "tokenRateLimit list \<Rightarrow> string list" where
  "limit_keys ts = SliceStable (<) (map fst (canonical_loop [] (map rate_of ts)))"

lemma limit_keys:
  assumes "list_all valid_limit ts"
  shows "distinct (limit_keys ts)" and "set (limit_keys ts) = limit_key ` set ts"
  using canonical_loop_spec [OF assms, of "[]"] by (auto simp: limit_keys_def rates_by_key_def)

lemma rateGroupKey_eq: "rateGroupKey (map rate_of ts) = Join (limit_keys ts) '',''"
  by (simp add: rateGroupKey_def canonicalizeRates_def limit_keys_def Let_def)

lemma canonicalRates_map:
  assumes "list_all valid_limit ts"
  obtains f where "canonicalRates (map rate_of ts) = map f (limit_keys ts)"
    and "\<And>t. valid_limit t \<Longrightarrow> limit_key t \<in> set (limit_keys ts) \<Longrightarrow> f (limit_key t) = rate_of t"
proof
  let ?b = "canonical_loop [] (map rate_of ts)"
  let ?f = "\<lambda>k. the (map_of ?b k)"
  show "canonicalRates (map rate_of ts) = map ?f (limit_keys ts)"
    by (simp add: canonicalRates_def canonicalizeRates_def limit_keys_def Let_def)
  show "?f (limit_key t) = rate_of t" if t: "valid_limit t" "limit_key t \<in> set (limit_keys ts)" for t
  proof -
    from t(2) obtain r where r: "map_of ?b (limit_key t) = Some r"
      by (auto simp: limit_keys_def dest: weak_map_of_SomeI)
    with canonical_loop_spec [OF assms, of "[]"] obtain u
      where "valid_limit u" "limit_key t = limit_key u" "r = rate_of u"
      by (auto simp: rates_by_key_def dest!: map_of_SomeD)
    with r limit_key_inject [OF t(1)] show ?thesis by simp
  qed
qed

lemma set_canonicalRates:
  assumes "list_all valid_limit ts"
  shows "set (canonicalRates (map rate_of ts)) = set (map rate_of ts)" and "distinct (canonicalRates (map rate_of ts))"
proof -
  obtain f where f: "canonicalRates (map rate_of ts) = map f (limit_keys ts)"
    "\<And>t. valid_limit t \<Longrightarrow> limit_key t \<in> set (limit_keys ts) \<Longrightarrow> f (limit_key t) = rate_of t"
    using canonicalRates_map [OF assms] by blast
  have on: "f (limit_key t) = rate_of t" if "t \<in> set ts" for t
    using f(2) [of t] assms that by (auto simp: limit_keys(2) [OF assms] list_all_iff)
  then show "set (canonicalRates (map rate_of ts)) = set (map rate_of ts)"
    by (auto simp: f(1) limit_keys(2) [OF assms] image_iff)
  have "inj_on f (set (limit_keys ts))"
  proof (rule inj_onI)
    fix a b assume "a \<in> set (limit_keys ts)" "b \<in> set (limit_keys ts)" "f a = f b"
    then obtain s t where "s \<in> set ts" "t \<in> set ts" "a = limit_key s" "b = limit_key t" "rate_of s = rate_of t"
      using on by (auto simp: limit_keys(2) [OF assms])
    then show "a = b" by (simp add: rate_of_def limit_key_def)
  qed
  with limit_keys(1) [OF assms] show "distinct (canonicalRates (map rate_of ts))"
    by (simp add: f(1) distinct_map)
qed

text \<open>Budgets with the same group key have the same canonical rates.\<close>

lemma same_group_same_rates:
  assumes "list_all valid_limit ss" and "list_all valid_limit ts"
    and "rateGroupKey (map rate_of ss) = rateGroupKey (map rate_of ts)"
  shows "canonicalRates (map rate_of ss) = canonicalRates (map rate_of ts)"
proof -
  have parts: "\<forall>x\<in>set (limit_keys us). CHR '','' \<notin> set x \<and> x \<noteq> []" if "list_all valid_limit us" for us
    using that limit_key_chars(1,2) by (auto simp: limit_keys(2) [OF that] list_all_iff)
  from assms(3) have keys: "limit_keys ss = limit_keys ts"
    unfolding rateGroupKey_eq by (rule Join_inject) (use parts assms in auto)
  obtain f where f: "canonicalRates (map rate_of ss) = map f (limit_keys ss)"
    "\<And>t. valid_limit t \<Longrightarrow> limit_key t \<in> set (limit_keys ss) \<Longrightarrow> f (limit_key t) = rate_of t"
    using canonicalRates_map [OF assms(1)] by blast
  obtain g where g: "canonicalRates (map rate_of ts) = map g (limit_keys ts)"
    "\<And>t. valid_limit t \<Longrightarrow> limit_key t \<in> set (limit_keys ts) \<Longrightarrow> g (limit_key t) = rate_of t"
    using canonicalRates_map [OF assms(2)] by blast
  have "f k = g k" if "k \<in> set (limit_keys ts)" for k
    using that f(2) g(2) assms(2) by (auto simp: limit_keys(2) [OF assms(2)] keys list_all_iff)
  then show ?thesis by (simp add: f(1) g(1) keys)
qed

lemma rateGroupKey_chars:
  assumes "list_all valid_limit ts"
  shows "\<forall>c\<in>set (rateGroupKey (map rate_of ts)). key_char c"
proof -
  have "\<forall>c\<in>set (Join xs '',''). key_char c" if "\<forall>x\<in>set xs. \<forall>c\<in>set x. key_char c" for xs
    using that by (induction xs "'',''" rule: Join.induct) (auto simp: key_char_def)
  moreover have "\<forall>x\<in>set (limit_keys ts). \<forall>c\<in>set x. key_char c"
    using limit_key_chars(3) assms by (auto simp: limit_keys(2) [OF assms] list_all_iff)
  ultimately show ?thesis by (simp add: rateGroupKey_eq)
qed

section \<open>Names of limits\<close>

definition slug :: "string \<Rightarrow> string" where
  "slug key = concat (map (\<lambda>c. if c = CHR ''/'' then ''-per-'' else if c = CHR '','' then ''-'' else [c]) key)"

lemma slug_Cons [simp]: "slug [] = []"
  "slug (c # cs) = (if c = CHR ''/'' then ''-per-'' else if c = CHR '','' then ''-'' else [c]) @ slug cs"
  by (simp_all add: slug_def)

lemma slug_hd_p: "\<forall>c\<in>set key. key_char c \<Longrightarrow> slug key \<noteq> CHR ''p'' # xs"
  using key_char_not(2) by (cases key) auto

lemma slug_step:
  assumes "slug (c # a) = slug (d # b)" and "c \<noteq> CHR ''-''" and "d \<noteq> CHR ''-''"
    and "\<And>xs. slug a \<noteq> CHR ''p'' # xs" and "\<And>xs. slug b \<noteq> CHR ''p'' # xs"
  shows "c = d \<and> slug a = slug b"
  using assms(1-3) assms(4) [of "''er-'' @ slug b"] assms(5) [of "''er-'' @ slug a"]
  by (simp split: if_splits)

lemma slug_inject:
  "\<forall>c\<in>set a. key_char c \<Longrightarrow> \<forall>c\<in>set b. key_char c \<Longrightarrow> slug a = slug b \<Longrightarrow> a = b"
proof (induction a arbitrary: b)
  case Nil
  then show ?case by (cases b) (auto split: if_splits)
next
  case (Cons x a)
  from Cons.prems(3) obtain y b' where b: "b = y # b'" by (cases b) (simp_all split: if_splits)
  have dash: "x \<noteq> CHR ''-''" "y \<noteq> CHR ''-''" using Cons.prems(1,2) b key_char_not(1) by force+
  have p: "slug a \<noteq> CHR ''p'' # xs" "slug b' \<noteq> CHR ''p'' # xs" for xs
    by (rule slug_hd_p, use Cons.prems(1,2) b in simp)+
  have "x = y \<and> slug a = slug b'"
    by (rule slug_step [OF Cons.prems(3) [unfolded b] dash p])
  moreover from this have "a = b'" using Cons.IH [of b'] Cons.prems(1,2) b by simp
  ultimately show ?case by (simp add: b)
qed

lemma slug_no_d: "\<forall>c\<in>set key. key_char c \<Longrightarrow> CHR ''d'' \<notin> set (slug key) \<and> CHR ''u'' \<notin> set (slug key)"
  using key_char_not(3,4) by (induction key) auto

text \<open>
  Two groups never share a name, whether or not one of them is split, and none takes the
  name of the unlimited subscriptions.
\<close>

lemma limit_names_distinct:
  assumes "\<forall>c\<in>set a. key_char c" and "\<forall>c\<in>set b. key_char c"
  shows "rateGroupLimitName a = rateGroupLimitName b \<longleftrightarrow> a = b"
    and "rateGroupLimitName a @ ''-id'' \<noteq> rateGroupLimitName b"
    and "rateGroupLimitName a \<noteq> unlimitedLimitName" and "rateGroupLimitName a @ ''-id'' \<noteq> unlimitedLimitName"
proof -
  have n: "rateGroupLimitName k = ''tokens-'' @ slug k" for k by (simp add: rateGroupLimitName_def slug_def)
  show "rateGroupLimitName a = rateGroupLimitName b \<longleftrightarrow> a = b"
    using slug_inject [OF assms] by (auto simp: n)
  show "rateGroupLimitName a @ ''-id'' \<noteq> rateGroupLimitName b"
  proof
    assume "rateGroupLimitName a @ ''-id'' = rateGroupLimitName b"
    then have "slug a @ ''-id'' = slug b" by (simp add: n)
    then have "CHR ''d'' \<in> set (slug b)" by (metis in_set_conv_decomp append.assoc append_Cons append_Nil)
    with slug_no_d [OF assms(2)] show False by simp
  qed
  have "slug a @ xs \<noteq> ''unlimited''" if "set xs \<subseteq> {CHR ''-'', CHR ''i'', CHR ''d''}" for xs
  proof
    assume "slug a @ xs = ''unlimited''"
    then have "CHR ''u'' \<in> set (slug a) \<union> set xs" by (metis list.set_intros(1) set_append)
    with slug_no_d [OF assms(1)] that show False by auto
  qed
  from this [of "[]"] this [of "''-id''"]
  show "rateGroupLimitName a \<noteq> unlimitedLimitName" "rateGroupLimitName a @ ''-id'' \<noteq> unlimitedLimitName"
    by (auto simp: n unlimitedLimitName_def)
qed

section \<open>Grouping\<close>

lemma map_of_append_group:
  "map_of (append_group key si gs) = (map_of gs)(key \<mapsto> (case map_of gs key of None \<Rightarrow> [si] | Some ms \<Rightarrow> ms @ [si]))"
  by (induction gs) (auto simp: fun_eq_iff)

lemma keys_append_group:
  "map fst (append_group key si gs) = (if key \<in> fst ` set gs then map fst gs else map fst gs @ [key])"
  by (induction gs) (force simp: image_iff)+

text \<open>The members of a group that share the kind of identity.\<close>

definition group_members :: "subInfo list \<Rightarrow> string \<Rightarrow> subInfo list" where
  "group_members subs key = filter (\<lambda>si. \<not> si_unlimited si \<and> si_groupKey si = key) subs"

definition bucket :: "subInfo list \<Rightarrow> string \<Rightarrow> bool \<Rightarrow> subInfo list" where
  "bucket subs key legacy = filter (\<lambda>si. si_legacy si = legacy) (group_members subs key)"

definition bucket_name :: "subInfo list \<Rightarrow> string \<Rightarrow> bool \<Rightarrow> string" where
  "bucket_name subs key legacy =
     rateGroupLimitName key @ (if \<not> legacy \<and> bucket subs key True \<noteq> [] then ''-id'' else [])"

lemma fold_group_step:
  assumes "fold group_step subs ([], [], []) = (byGroup, subNames, unlimited)"
  shows "distinct (map fst byGroup) \<and> distinct subNames \<and>
    map_of byGroup = (\<lambda>k. if group_members subs k = [] then None else Some (group_members subs k)) \<and>
    set subNames = (\<lambda>si. qualifiedName (si_subNamespace si) (si_subName si)) ` set subs \<and>
    unlimited = filter si_unlimited subs"
  using assms
proof (induction subs arbitrary: byGroup subNames unlimited rule: rev_induct)
  case Nil
  then show ?case by (auto simp: group_members_def fun_eq_iff)
next
  case (snoc si subs)
  obtain g n u where st: "fold group_step subs ([], [], []) = (g, n, u)" by (metis prod.exhaust)
  note IH = snoc.IH [OF st]
  have step: "group_step si (g, n, u) = (byGroup, subNames, unlimited)" using snoc.prems st by simp
  have "byGroup = (if si_unlimited si then g else append_group (si_groupKey si) si g)"
    and "subNames = (let name = qualifiedName (si_subNamespace si) (si_subName si) in if name \<in> set n then n else n @ [name])"
    and "unlimited = (if si_unlimited si then u @ [si] else u)"
    using step by (auto simp: group_step_def Let_def split: if_splits)
  with IH show ?case
    by (auto simp: keys_append_group map_of_append_group group_members_def Let_def fun_eq_iff)
qed

lemma fold_map_add:
  assumes "distinct ks" and "\<And>k k'. k \<in> set ks \<Longrightarrow> k' \<in> set ks \<Longrightarrow> k \<noteq> k' \<Longrightarrow> dom (g k) \<inter> dom (g k') = {}"
  shows "fold (\<lambda>k m. m ++ g k) ks Map.empty x = Some l \<longleftrightarrow> (\<exists>k\<in>set ks. g k x = Some l)"
  using assms
proof (induction ks rule: rev_induct)
  case Nil
  then show ?case by simp
next
  case (snoc k ks)
  have "fold (\<lambda>k m. m ++ g k) ks Map.empty x = Some l \<longleftrightarrow> (\<exists>k\<in>set ks. g k x = Some l)"
    using snoc.prems by (intro snoc.IH) auto
  moreover have "g k x = None" if "k' \<in> set ks" "g k' x = Some l" for k'
  proof -
    have "k' \<noteq> k" using snoc.prems(1) that(1) by auto
    with snoc.prems(2) [of k' k] that show ?thesis by auto
  qed
  ultimately show ?case by (auto simp: map_add_Some_iff)
qed

definition group_limits :: "libs \<Rightarrow> subInfo list \<Rightarrow> string \<Rightarrow> (string \<rightharpoonup> tokenLimit)" where
  "group_limits L subs key = addRateGroupLimits L key (group_members subs key) Map.empty"

lemma addRateGroupLimits_add: "addRateGroupLimits L key ms m = m ++ addRateGroupLimits L key ms Map.empty"
  by (auto simp: addRateGroupLimits_def Let_def fun_eq_iff map_add_def)

lemma group_limits_Some:
  "group_limits L subs key n = Some l \<longleftrightarrow>
     (\<exists>legacy. bucket subs key legacy \<noteq> [] \<and> n = bucket_name subs key legacy \<and> l = buildGroupLimit L (bucket subs key legacy))"
proof -
  have b: "filter si_legacy (group_members subs key) = bucket subs key True"
    "filter (\<lambda>m. \<not> si_legacy m) (group_members subs key) = bucket subs key False"
    by (simp_all add: bucket_def)
  show ?thesis
    by (auto simp: group_limits_def addRateGroupLimits_def Let_def b bucket_name_def ex_bool_eq split: if_splits)
qed

section \<open>Well-formed members\<close>

definition well_formed_member :: "subInfo \<Rightarrow> bool" where
  "well_formed_member si \<longleftrightarrow>
     si_groupKey si = rateGroupKey (si_rates si) \<and>
     (if si_unlimited si then si_rates si = []
      else \<exists>ts. ts \<noteq> [] \<and> list_all valid_limit ts \<and> si_rates si = map rate_of ts)"

lemma well_formed_limited:
  assumes "list_all well_formed_member subs" and "si \<in> set subs" and "\<not> si_unlimited si"
  obtains ts where "list_all valid_limit ts" "si_rates si = map rate_of ts" "si_groupKey si = rateGroupKey (map rate_of ts)"
proof -
  have "well_formed_member si" using assms(1,2) by (simp add: list_all_iff)
  with assms(3) that show thesis by (auto simp: well_formed_member_def)
qed

lemma group_key_chars:
  assumes "list_all well_formed_member subs" and "group_members subs key \<noteq> []"
  shows "\<forall>c\<in>set key. key_char c"
proof -
  from assms(2) obtain si where si: "si \<in> set subs" "\<not> si_unlimited si" "si_groupKey si = key"
    by (auto simp: group_members_def filter_empty_conv)
  obtain ts where "list_all valid_limit ts" "si_groupKey si = rateGroupKey (map rate_of ts)"
    using well_formed_limited [OF assms(1) si(1,2)] by blast
  with rateGroupKey_chars [of ts] si(3) show ?thesis by simp
qed

lemma group_limits_disjoint:
  assumes "list_all well_formed_member subs" and "k \<noteq> k'"
  shows "dom (group_limits L subs k) \<inter> dom (group_limits L subs k') = {}"
proof -
  have False if "group_limits L subs k n = Some l" "group_limits L subs k' n = Some l'" for n l l'
  proof -
    from that obtain leg leg' where b: "bucket subs k leg \<noteq> []" "bucket subs k' leg' \<noteq> []"
      and eq: "bucket_name subs k leg = bucket_name subs k' leg'"
      by (auto simp: group_limits_Some)
    from b have "group_members subs k \<noteq> []" "group_members subs k' \<noteq> []" by (auto simp: bucket_def)
    then have c: "\<forall>c\<in>set k. key_char c" "\<forall>c\<in>set k'. key_char c"
      using group_key_chars [OF assms(1)] by blast+
    from eq limit_names_distinct(1,2) [OF c] limit_names_distinct(2) [OF c(2,1)] assms(2) show False
      by (auto simp: bucket_name_def split: if_splits)
  qed
  then show ?thesis by (auto simp: dom_def)
qed

text \<open>The limits of a policy: one per non-empty bucket, and one for the unlimited members.\<close>

lemma buildGroupedLimits_Some:
  assumes "list_all well_formed_member subs"
  shows "fst (buildGroupedLimits L subs) n = Some l \<longleftrightarrow>
    (\<exists>key legacy. bucket subs key legacy \<noteq> [] \<and> n = bucket_name subs key legacy \<and>
       l = buildGroupLimit L (bucket subs key legacy)) \<or>
    (filter si_unlimited subs \<noteq> [] \<and> n = unlimitedLimitName \<and> l = unlimitedTokenLimit L (filter si_unlimited subs))"
proof -
  obtain g ns u where st: "fold group_step subs ([], [], []) = (g, ns, u)" by (metis prod.exhaust)
  note G = fold_group_step [OF st]
  define ks where "ks = SliceStable (<) (map fst g)"
  have dist: "distinct ks" using G by (simp add: ks_def)
  have keys: "k \<in> set ks \<longleftrightarrow> group_members subs k \<noteq> []" for k
  proof -
    have "k \<in> set ks \<longleftrightarrow> map_of g k \<noteq> None" by (simp add: ks_def map_of_eq_None_iff)
    then show ?thesis using G by simp
  qed
  have fold_eq: "fold (\<lambda>key. addRateGroupLimits L key (the (map_of g key))) ks m = fold (\<lambda>k m. m ++ group_limits L subs k) ks m" for m
    using keys G by (intro fold_cong) (auto simp: group_limits_def fun_eq_iff addRateGroupLimits_add [symmetric])
  define lm where "lm = fold (\<lambda>k m. m ++ group_limits L subs k) ks Map.empty"
  have lm: "lm n = Some l \<longleftrightarrow> (\<exists>key legacy. bucket subs key legacy \<noteq> [] \<and> n = bucket_name subs key legacy \<and>
       l = buildGroupLimit L (bucket subs key legacy))" for n l
  proof -
    have "lm n = Some l \<longleftrightarrow> (\<exists>k\<in>set ks. group_limits L subs k n = Some l)"
      unfolding lm_def using dist group_limits_disjoint [OF assms] by (intro fold_map_add) auto
    moreover have "group_members subs k \<noteq> []" if "group_limits L subs k n = Some l" for k
      using that by (auto simp: group_limits_Some bucket_def)
    ultimately show ?thesis using keys by (metis group_limits_Some)
  qed
  have free: "lm unlimitedLimitName = None"
  proof (rule ccontr)
    assume "lm unlimitedLimitName \<noteq> None"
    then obtain key legacy where k: "bucket subs key legacy \<noteq> []" "unlimitedLimitName = bucket_name subs key legacy"
      using lm by blast
    from k(1) have "\<forall>c\<in>set key. key_char c"
      by (intro group_key_chars [OF assms]) (auto simp: bucket_def)
    with k(2) limit_names_distinct(3,4) [OF this this] show False by (auto simp: bucket_name_def split: if_splits)
  qed
  have "fst (buildGroupedLimits L subs) = (if u \<noteq> [] then lm(unlimitedLimitName \<mapsto> unlimitedTokenLimit L u) else lm)"
    by (simp add: buildGroupedLimits_def st Let_def lm_def fold_eq ks_def [symmetric])
  then show ?thesis using G lm [of n l] free by auto
qed

section \<open>What a limit matches\<close>

text \<open>
  The part of a request the predicates look at. \<open>request_of\<close> is a request that the gateway
  authenticated for a member: the key is always set, the short identifier only for a
  subscription that opted into it.
\<close>

record celEnv =
  ce_key :: string
  ce_id :: string
  ce_path :: string

definition env_field :: "celEnv \<Rightarrow> string \<Rightarrow> string option" where
  "env_field env f = (if f = key_field then Some (ce_key env) else if f = id_field then Some (ce_id env) else None)"

fun cel_holds :: "celEnv \<Rightarrow> cel \<Rightarrow> bool" where
  "cel_holds env (FieldEq f v) \<longleftrightarrow> env_field env f = Some v"
| "cel_holds env (AnyOf cs) \<longleftrightarrow> (\<exists>c\<in>set cs. cel_holds env c)"
| "cel_holds env (UnlessPathEndsWith c suffix) \<longleftrightarrow> cel_holds env c \<and> \<not> HasSuffix (ce_path env) suffix"

definition request_of :: "libs \<Rightarrow> subInfo \<Rightarrow> string \<Rightarrow> celEnv" where
  "request_of L si path =
     \<lparr>ce_key = si_modelScoped si, ce_id = (if si_legacy si then [] else SubscriptionRateLimitID L (si_modelScoped si)),
      ce_path = path\<rparr>"

lemma set_sorted_clauses [simp]: "set (sorted_clauses L ms) = subscriptionSelectClause L ` set ms"
  by (simp add: sorted_clauses_def)

lemma length_sorted_clauses [simp]: "length (sorted_clauses L ms) = length ms"
  by (simp add: sorted_clauses_def)

lemma limit_holds:
  assumes "ms \<noteq> []"
  shows "cel_holds env (tl_when (buildGroupLimit L ms)) \<longleftrightarrow>
      (\<exists>si\<in>set ms. cel_holds env (subscriptionSelectClause L si)) \<and> \<not> HasSuffix (ce_path env) ''/v1/models''"
    and "cel_holds env (tl_when (unlimitedTokenLimit L ms)) \<longleftrightarrow>
      (\<exists>si\<in>set ms. cel_holds env (subscriptionSelectClause L si)) \<and> \<not> HasSuffix (ce_path env) ''/v1/models''"
proof -
  have one: "set ms = {si}" if "length ms = Suc 0" "si \<in> set ms" for si
    using that by (cases ms) auto
  show "cel_holds env (tl_when (buildGroupLimit L ms)) \<longleftrightarrow>
      (\<exists>si\<in>set ms. cel_holds env (subscriptionSelectClause L si)) \<and> \<not> HasSuffix (ce_path env) ''/v1/models''"
  proof (cases "length ms > 1")
    case True
    then show ?thesis by (auto simp: buildGroupLimit_def Let_def)
  next
    case False
    with assms obtain si where "ms = [si]" by (cases ms) auto
    then show ?thesis by (simp add: buildGroupLimit_def Let_def sorted_clauses_def SliceStable_Cons)
  qed
  show "cel_holds env (tl_when (unlimitedTokenLimit L ms)) \<longleftrightarrow>
      (\<exists>si\<in>set ms. cel_holds env (subscriptionSelectClause L si)) \<and> \<not> HasSuffix (ce_path env) ''/v1/models''"
    by (auto simp: unlimitedTokenLimit_def)
qed

text \<open>
  The identities of the members are different: the readable keys by construction, the
  short ones unless the truncated hash collides on these keys.
\<close>

definition distinct_identities :: "libs \<Rightarrow> subInfo list \<Rightarrow> bool" where
  "distinct_identities L subs \<longleftrightarrow>
     distinct (map si_modelScoped subs) \<and> inj_on (SubscriptionRateLimitID L) (si_modelScoped ` set subs) \<and>
     (\<forall>si\<in>set subs. SubscriptionRateLimitID L (si_modelScoped si) \<noteq> [])"

lemma clause_separates:
  assumes "distinct_identities L subs" and "si \<in> set subs" and "sj \<in> set subs"
  shows "cel_holds (request_of L si path) (subscriptionSelectClause L sj) \<longleftrightarrow> sj = si"
proof
  assume h: "cel_holds (request_of L si path) (subscriptionSelectClause L sj)"
  have "si_modelScoped sj = si_modelScoped si"
  proof (cases "si_legacy sj")
    case True
    with h show ?thesis by (simp add: subscriptionSelectClause_def request_of_def env_field_def)
  next
    case False
    with h assms have "SubscriptionRateLimitID L (si_modelScoped si) = SubscriptionRateLimitID L (si_modelScoped sj)"
      by (auto simp: subscriptionSelectClause_def request_of_def env_field_def distinct_identities_def split: if_splits)
    with assms show ?thesis by (auto simp: distinct_identities_def dest: inj_onD)
  qed
  with assms show "sj = si" by (auto simp: distinct_identities_def distinct_map dest: inj_onD)
next
  assume "sj = si"
  then show "cel_holds (request_of L si path) (subscriptionSelectClause L sj)"
    by (simp add: subscriptionSelectClause_def request_of_def env_field_def)
qed

lemma bucket_rates:
  assumes "list_all well_formed_member subs" and "si \<in> set (bucket subs key legacy)"
  shows "tl_rates (buildGroupLimit L (bucket subs key legacy)) = Some (canonicalRates (si_rates si))"
proof -
  let ?ms = "bucket subs key legacy"
  have mem: "sj \<in> set subs \<and> \<not> si_unlimited sj \<and> si_groupKey sj = key" if "sj \<in> set ?ms" for sj
    using that by (simp add: bucket_def group_members_def)
  have hd: "hd ?ms \<in> set ?ms" using assms(2) by (metis hd_in_set length_pos_if_in_set length_greater_0_conv)
  have ts: "\<exists>ts. list_all valid_limit ts \<and> si_rates sj = map rate_of ts \<and> rateGroupKey (map rate_of ts) = key"
    if "sj \<in> set ?ms" for sj
    using mem [OF that] well_formed_limited [OF assms(1), of sj] by metis
  from ts [OF hd] ts [OF assms(2)] same_group_same_rates
  have "canonicalRates (si_rates (hd ?ms)) = canonicalRates (si_rates si)" by metis
  then show ?thesis by (simp add: buildGroupLimit_def Let_def)
qed

lemma bucket_eq:
  "bucket subs key legacy = filter (\<lambda>sj. \<not> si_unlimited sj \<and> si_groupKey sj = key \<and> si_legacy sj = legacy) subs"
  by (auto simp: bucket_def group_members_def conj_ac intro: filter_cong)

lemma holds_iff:
  assumes "ms \<noteq> []" and "limit = buildGroupLimit L ms \<or> limit = unlimitedTokenLimit L ms"
  shows "cel_holds env (tl_when limit) \<longleftrightarrow>
    (\<exists>sj\<in>set ms. cel_holds env (subscriptionSelectClause L sj)) \<and> \<not> HasSuffix (ce_path env) ''/v1/models''"
  using assms limit_holds by blast

lemma member_holds_iff:
  assumes "distinct_identities L subs" and "si \<in> set subs" and "\<not> HasSuffix path ''/v1/models''"
    and "ms \<noteq> []" and "set ms \<subseteq> set subs" and "limit = buildGroupLimit L ms \<or> limit = unlimitedTokenLimit L ms"
  shows "cel_holds (request_of L si path) (tl_when limit) \<longleftrightarrow> si \<in> set ms"
proof -
  have "ce_path (request_of L si path) = path" by (simp add: request_of_def)
  then show ?thesis
    unfolding holds_iff [OF assms(4,6)] using clause_separates [OF assms(1,2), of _ path] assms(3,5) by auto
qed

text \<open>The limit of a member, by name.\<close>

definition own_name :: "subInfo list \<Rightarrow> subInfo \<Rightarrow> string" where
  "own_name subs si = (if si_unlimited si then unlimitedLimitName else bucket_name subs (si_groupKey si) (si_legacy si))"

definition own_limit :: "libs \<Rightarrow> subInfo list \<Rightarrow> subInfo \<Rightarrow> tokenLimit" where
  "own_limit L subs si =
     (if si_unlimited si then unlimitedTokenLimit L (filter si_unlimited subs)
      else buildGroupLimit L (bucket subs (si_groupKey si) (si_legacy si)))"

lemma own_limit:
  assumes "list_all well_formed_member subs" and "distinct_identities L subs" and "si \<in> set subs"
    and "\<not> HasSuffix path ''/v1/models''"
  shows "fst (buildGroupedLimits L subs) (own_name subs si) = Some (own_limit L subs si)"
    and "cel_holds (request_of L si path) (tl_when (own_limit L subs si))"
proof -
  let ?ms = "if si_unlimited si then filter si_unlimited subs else bucket subs (si_groupKey si) (si_legacy si)"
  have ms: "si \<in> set ?ms" "set ?ms \<subseteq> set subs" using assms(3) by (auto simp: bucket_eq)
  then have ne: "?ms \<noteq> []" by (metis empty_iff empty_set)
  show "fst (buildGroupedLimits L subs) (own_name subs si) = Some (own_limit L subs si)"
    unfolding buildGroupedLimits_Some [OF assms(1)] own_name_def own_limit_def using ne by (metis (full_types))
  have "own_limit L subs si = buildGroupLimit L ?ms \<or> own_limit L subs si = unlimitedTokenLimit L ?ms"
    by (simp add: own_limit_def)
  with member_holds_iff [OF assms(2-4) ne ms(2)] ms(1)
  show "cel_holds (request_of L si path) (tl_when (own_limit L subs si))" by blast
qed

lemma only_own_limit:
  assumes "list_all well_formed_member subs" and "distinct_identities L subs" and "si \<in> set subs"
    and "\<not> HasSuffix path ''/v1/models''"
    and "fst (buildGroupedLimits L subs) name = Some limit" and "cel_holds (request_of L si path) (tl_when limit)"
  shows "name = own_name subs si"
  using assms(5) unfolding buildGroupedLimits_Some [OF assms(1)]
proof (elim disjE exE conjE)
  fix key legacy
  assume b: "bucket subs key legacy \<noteq> []" "name = bucket_name subs key legacy"
    "limit = buildGroupLimit L (bucket subs key legacy)"
  have "si \<in> set (bucket subs key legacy)"
    using member_holds_iff [OF assms(2-4) b(1)] b(3) assms(6) by (auto simp: bucket_eq)
  with b(2) show ?thesis by (auto simp: bucket_eq own_name_def)
next
  assume u: "filter si_unlimited subs \<noteq> []" "name = unlimitedLimitName"
    "limit = unlimitedTokenLimit L (filter si_unlimited subs)"
  have "si_unlimited si" using member_holds_iff [OF assms(2-4) u(1)] u(3) assms(6) by auto
  with u(2) show ?thesis by (simp add: own_name_def)
qed

lemma own_limit_budget:
  assumes "list_all well_formed_member subs" and "si \<in> set subs"
  shows "if si_unlimited si then tl_rates (own_limit L subs si) = None \<and> tl_counters (own_limit L subs si) = None
    else (\<exists>rs. tl_rates (own_limit L subs si) = Some rs \<and> distinct rs \<and> set rs = set (si_rates si)) \<and>
      tl_counters (own_limit L subs si) = Some [if si_legacy si then key_field else id_field, user_field]"
proof (cases "si_unlimited si")
  case True
  then show ?thesis by (simp add: own_limit_def unlimitedTokenLimit_def)
next
  case False
  let ?ms = "bucket subs (si_groupKey si) (si_legacy si)"
  have ms: "si \<in> set ?ms" using False assms(2) by (simp add: bucket_eq)
  then have "hd ?ms \<in> set ?ms" by (metis empty_iff empty_set hd_in_set)
  then have leg: "si_legacy (hd ?ms) = si_legacy si" by (simp add: bucket_eq)
  obtain ts where ts: "list_all valid_limit ts" "si_rates si = map rate_of ts"
    using well_formed_limited [OF assms False] by blast
  have "tl_counters (buildGroupLimit L ?ms) = Some [if si_legacy si then key_field else id_field, user_field]"
    using leg by (simp add: buildGroupLimit_def Let_def subscriptionCounterExpression_def)
  with False bucket_rates [OF assms(1) ms, of L] set_canonicalRates [OF ts(1)] ts(2) show ?thesis
    by (simp add: own_limit_def)
qed

lemma foreign_request_unlimited:
  assumes "list_all well_formed_member subs" and "fst (buildGroupedLimits L subs) name = Some limit"
    and "HasSuffix (ce_path env) ''/v1/models'' \<or>
       (\<forall>sj\<in>set subs. ce_key env \<noteq> si_modelScoped sj \<and> ce_id env \<noteq> SubscriptionRateLimitID L (si_modelScoped sj))"
  shows "\<not> cel_holds env (tl_when limit)"
proof -
  from assms(2) obtain ms where ms: "ms \<noteq> []" "set ms \<subseteq> set subs"
    "limit = buildGroupLimit L ms \<or> limit = unlimitedTokenLimit L ms"
    unfolding buildGroupedLimits_Some [OF assms(1)] bucket_eq by (metis filter_is_subset)
  have "\<not> cel_holds env (subscriptionSelectClause L sj)" if "sj \<in> set subs"
    "ce_key env \<noteq> si_modelScoped sj" "ce_id env \<noteq> SubscriptionRateLimitID L (si_modelScoped sj)" for sj
    using that by (simp add: subscriptionSelectClause_def env_field_def)
  with assms(3) ms(2) show ?thesis unfolding holds_iff [OF ms(1,3)] by blast
qed

text \<open>
  C15. Every subscription is limited once and as declared. For well-formed members with
  different identities, a request that the gateway authenticated for a member, to any path
  but the model listing, satisfies the predicate of exactly one limit of the policy. For a
  member without a budget that limit has no rates and counts nothing; for the others it has
  exactly the rates the subscription declares, and it counts by the identity the request
  carries and by user. Model listing is never limited, and a request with the identity of
  no member matches no limit.
\<close>

theorem grouped_limits_exact:
  assumes "list_all well_formed_member subs" and "distinct_identities L subs"
    and "limits = fst (buildGroupedLimits L subs)"
  shows "(si \<in> set subs \<and> \<not> HasSuffix path ''/v1/models'' \<longrightarrow>
      (\<exists>name limit. limits name = Some limit \<and> cel_holds (request_of L si path) (tl_when limit) \<and>
        (\<forall>name' limit'. limits name' = Some limit' \<and> cel_holds (request_of L si path) (tl_when limit') \<longrightarrow> name' = name) \<and>
        (if si_unlimited si then tl_rates limit = None \<and> tl_counters limit = None
         else (\<exists>rs. tl_rates limit = Some rs \<and> distinct rs \<and> set rs = set (si_rates si)) \<and>
           tl_counters limit = Some [if si_legacy si then key_field else id_field, user_field]))) \<and>
    (HasSuffix (ce_path env) ''/v1/models'' \<or>
       (\<forall>sj\<in>set subs. ce_key env \<noteq> si_modelScoped sj \<and> ce_id env \<noteq> SubscriptionRateLimitID L (si_modelScoped sj)) \<longrightarrow>
     (\<forall>name limit. limits name = Some limit \<longrightarrow> \<not> cel_holds env (tl_when limit)))"
proof -
  note P = assms(1,2)
  have "\<exists>name limit. limits name = Some limit \<and> cel_holds (request_of L si path) (tl_when limit) \<and>
      (\<forall>name' limit'. limits name' = Some limit' \<and> cel_holds (request_of L si path) (tl_when limit') \<longrightarrow> name' = name) \<and>
      (if si_unlimited si then tl_rates limit = None \<and> tl_counters limit = None
       else (\<exists>rs. tl_rates limit = Some rs \<and> distinct rs \<and> set rs = set (si_rates si)) \<and>
         tl_counters limit = Some [if si_legacy si then key_field else id_field, user_field])"
    if "si \<in> set subs" "\<not> HasSuffix path ''/v1/models''"
    using own_limit [OF P that] only_own_limit [OF P that] own_limit_budget [OF P(1) that(1), of L]
    unfolding assms(3) by blast
  with foreign_request_unlimited [OF P(1), of L] show ?thesis unfolding assms(3) by blast
qed

definition ex_member :: "string \<Rightarrow> bool \<Rightarrow> subInfo" where
  "ex_member name legacy =
     (let rates = map rate_of [\<lparr>trl_Limit = 100, trl_Window = ''1m''\<rparr>] in
      \<lparr>si_subNamespace = ''t'', si_subName = name, si_rates = rates, si_unlimited = False,
       si_modelScoped = ModelScopedSubscriptionKey ''t'' name ''m'' ''n'', si_groupKey = rateGroupKey rates, si_legacy = legacy\<rparr>)"

lemma ex_member_well_formed: "well_formed_member (ex_member name legacy)"
proof -
  have "valid_limit \<lparr>trl_Limit = 100, trl_Window = ''1m''\<rparr>" by code_simp
  then show ?thesis
    by (auto simp: well_formed_member_def ex_member_def Let_def
        intro: exI [of _ "[\<lparr>trl_Limit = 100, trl_Window = ''1m''\<rparr>]"])
qed

theorem grouped_limits_exact_witness:
  "\<exists>name limit. fst (buildGroupedLimits example_libs [ex_member ''a'' False, ex_member ''b'' True]) name = Some limit \<and>
     cel_holds (request_of example_libs (ex_member ''a'' False) ''/v1/chat'') (tl_when limit) \<and>
     tl_counters limit = Some [id_field, user_field]"
proof -
  let ?s = "[ex_member ''a'' False, ex_member ''b'' True]" and ?a = "ex_member ''a'' False"
  have wf: "list_all well_formed_member ?s" by (simp add: ex_member_well_formed)
  have di: "distinct_identities example_libs ?s"
    by (simp add: distinct_identities_def ex_member_def Let_def ModelScopedSubscriptionKey_def SubscriptionRateLimitID_def
        example_libs_def)
  have "\<not> HasSuffix ''/v1/chat'' ''/v1/models''" by code_simp
  moreover have "?a \<in> set ?s" by simp
  moreover have a: "\<not> si_unlimited ?a" "\<not> si_legacy ?a" by (simp_all add: ex_member_def Let_def)
  ultimately obtain name limit where "fst (buildGroupedLimits example_libs ?s) name = Some limit"
    "cel_holds (request_of example_libs ?a ''/v1/chat'') (tl_when limit)"
    "tl_counters limit = Some [if si_legacy ?a then key_field else id_field, user_field]"
    using grouped_limits_exact [OF wf di refl, of ?a "''/v1/chat''" "request_of example_libs ?a []"] by auto
  then show ?thesis unfolding if_not_P [OF a(2)] by blast
qed

section \<open>Determinism\<close>

interpretation cel_order: go_less "\<lambda>a b. cel_string a < cel_string b"
  by (rule go_less_key)

lemma cel_string_clause_inject:
  assumes "cel_string (subscriptionSelectClause L a) = cel_string (subscriptionSelectClause L b)"
  shows "subscriptionSelectClause L a = subscriptionSelectClause L b"
  using assms by (simp add: subscriptionSelectClause_def split: if_splits)

lemma sorted_clauses_mset:
  assumes "mset ms = mset ms'"
  shows "sorted_clauses L ms = sorted_clauses L ms'"
proof -
  have tie: "x = y" if "x \<in> set (map (subscriptionSelectClause L) ms)" "y \<in> set (map (subscriptionSelectClause L) ms)"
    "\<not> cel_string x < cel_string y" "\<not> cel_string y < cel_string x" for x y
  proof -
    from that(1,2) obtain a b where ab: "x = subscriptionSelectClause L a" "y = subscriptionSelectClause L b" by auto
    have "cel_string x = cel_string y" using that(3,4) by auto
    with ab cel_string_clause_inject show ?thesis by metis
  qed
  show ?thesis
    unfolding sorted_clauses_def using assms tie by (intro cel_order.SliceStable_unique) auto
qed

lemma mset_bucket: "mset subs = mset subs' \<Longrightarrow> mset (bucket subs key legacy) = mset (bucket subs' key legacy)"
  by (simp add: bucket_eq mset_filter)

lemma mset_Nil_iff: "mset xs = mset ys \<Longrightarrow> xs = [] \<longleftrightarrow> ys = []"
  by (metis mset_zero_iff)

lemma well_formed_mset:
  assumes "list_all well_formed_member subs" and "mset subs = mset subs'"
  shows "list_all well_formed_member subs'"
  using assms(1) mset_eq_setD [OF assms(2)] by (simp add: list_all_iff)

lemma buildGroupLimit_bucket_cong:
  assumes "list_all well_formed_member subs" and "mset subs = mset subs'" and "bucket subs key legacy \<noteq> []"
  shows "buildGroupLimit L (bucket subs key legacy) = buildGroupLimit L (bucket subs' key legacy)"
proof -
  let ?b = "bucket subs key legacy" and ?b' = "bucket subs' key legacy"
  have m: "mset ?b = mset ?b'" by (rule mset_bucket [OF assms(2)])
  then have sets: "set ?b = set ?b'" by (rule mset_eq_setD)
  have ne: "?b' \<noteq> []" using assms(3) mset_Nil_iff [OF m] by simp
  have wf': "list_all well_formed_member subs'" by (rule well_formed_mset [OF assms(1,2)])
  have "hd ?b \<in> set ?b'" using hd_in_set [OF assms(3)] unfolding sets .
  from bucket_rates [OF wf' this, of L] bucket_rates [OF assms(1), of "hd ?b" key legacy L] assms(3)
  have "tl_rates (buildGroupLimit L ?b) = tl_rates (buildGroupLimit L ?b')" by simp
  moreover have "si_legacy (hd ?b) = legacy" "si_legacy (hd ?b') = legacy"
    using hd_in_set [OF assms(3)] hd_in_set [OF ne] by (auto simp: bucket_eq)
  ultimately show ?thesis
    by (simp add: buildGroupLimit_def Let_def sorted_clauses_mset [OF m])
qed

lemma buildGroupedLimits_names:
  "distinct (snd (buildGroupedLimits L subs))"
  "set (snd (buildGroupedLimits L subs)) = (\<lambda>si. qualifiedName (si_subNamespace si) (si_subName si)) ` set subs"
  "snd (buildGroupedLimits L subs) = SliceStable (<) (snd (buildGroupedLimits L subs))"
proof -
  obtain g ns u where st: "fold group_step subs ([], [], []) = (g, ns, u)" by (metis prod.exhaust)
  have names: "snd (buildGroupedLimits L subs) = SliceStable (<) ns" by (simp add: buildGroupedLimits_def st Let_def)
  with fold_group_step [OF st] show "distinct (snd (buildGroupedLimits L subs))"
    "set (snd (buildGroupedLimits L subs)) = (\<lambda>si. qualifiedName (si_subNamespace si) (si_subName si)) ` set subs"
    "snd (buildGroupedLimits L subs) = SliceStable (<) (snd (buildGroupedLimits L subs))"
    by (auto intro: sorted_keys_eq)
qed

text \<open>
  The generated policy does not depend on the order in which the API server lists the
  subscriptions: rearranging the members gives the same limits, predicates and counters
  included, and the same list of names, so that an unchanged cluster never causes an update.
\<close>

theorem grouped_limits_deterministic:
  assumes "list_all well_formed_member subs" and "mset subs = mset subs'"
  shows "buildGroupedLimits L subs = buildGroupedLimits L subs'"
proof (rule prod_eqI)
  have wf': "list_all well_formed_member subs'" by (rule well_formed_mset [OF assms])
  have empt: "bucket subs k l = [] \<longleftrightarrow> bucket subs' k l = []" for k l
    by (rule mset_Nil_iff [OF mset_bucket [OF assms(2)]])
  have names: "bucket_name subs k l = bucket_name subs' k l" for k l by (simp add: bucket_name_def empt)
  have unl: "mset (filter si_unlimited subs) = mset (filter si_unlimited subs')"
    using assms(2) by (simp add: mset_filter)
  have "unlimitedTokenLimit L (filter si_unlimited subs) = unlimitedTokenLimit L (filter si_unlimited subs')"
    by (simp add: unlimitedTokenLimit_def sorted_clauses_mset [OF unl])
  then have "fst (buildGroupedLimits L subs) n = Some l \<longleftrightarrow> fst (buildGroupedLimits L subs') n = Some l" for n l
    unfolding buildGroupedLimits_Some [OF assms(1)] buildGroupedLimits_Some [OF wf'] mset_Nil_iff [OF unl]
    using empt names buildGroupLimit_bucket_cong [OF assms] by metis
  then show "fst (buildGroupedLimits L subs) = fst (buildGroupedLimits L subs')"
    by (metis ext not_Some_eq)
  have "set subs = set subs'" using assms(2) by (metis set_mset_mset)
  then show "snd (buildGroupedLimits L subs) = snd (buildGroupedLimits L subs')"
    using sorted_keys_eq [OF buildGroupedLimits_names(1,1)] buildGroupedLimits_names(2,3) by metis
qed

theorem grouped_limits_deterministic_witness:
  "buildGroupedLimits example_libs [ex_member ''a'' False, ex_member ''b'' True] =
   buildGroupedLimits example_libs [ex_member ''b'' True, ex_member ''a'' False]"
  by (rule grouped_limits_deterministic) (simp_all add: ex_member_well_formed)

end
