(* ===== verification/ControllerCluster.thy ===== *)
theory ControllerCluster
  imports RateTier
begin

text \<open>
  What the reconcilers of \<open>maas-controller\<close> read from the cluster: the typed resources, the
  tenant of a namespace and its gateway (\<open>helpers.go\<close>, \<open>platform_context.go\<close>), and the route
  of a model (\<open>providers.go\<close> with the two resolvers). The API server is outside the
  repository: \<open>cluster\<close> is what its reads answer, an argument of every definition. A read
  gives an object or an error, and the code tells the errors apart only by their kind.
\<close>

section \<open>Resources\<close>

datatype apiError = ApiNotFound | ApiNoMatch | ApiConflict | ApiAlreadyExists | ApiOther string

type_synonym labelMap = "string \<rightharpoonup> string"

text \<open>\<open>m["k"]\<close> on a \<open>map[string]string\<close>: the empty string when absent.\<close>

definition label_value :: "labelMap \<Rightarrow> string \<Rightarrow> string" where
  "label_value m k = (case m k of None \<Rightarrow> [] | Some v \<Rightarrow> v)"

record objectMeta =
  om_Name :: string
  om_Namespace :: string
  om_UID :: string
  om_Labels :: labelMap
  om_Annotations :: labelMap
  om_Finalizers :: "string list"
  om_Deleting :: bool
  om_Generation :: int
  om_Created :: "int option"

record condition =
  cd_Type :: string
  cd_Status :: string
  cd_Reason :: string
  cd_Message :: string
  cd_ObservedGeneration :: int

record parentRef =
  pref_Name :: string
  pref_Namespace :: "string option"
  pref_Kind :: "string option"
  pref_Group :: "string option"

record httpRoute =
  hr_Name :: string
  hr_Namespace :: string
  hr_UID :: string
  hr_ParentRefs :: "parentRef list"

record gatewayRef =
  gw_Name :: string
  gw_Namespace :: string

record maasModelRef =
  mm_meta :: objectMeta
  mm_Kind :: string
  mm_RefName :: string
  mm_GatewayName :: string
  mm_GatewayNamespace :: string

text \<open>The status of an inference ExternalModel, decoded: gateway, route, condition Ready.\<close>

record externalModel =
  em_Gateways :: "(gatewayRef \<times> gatewayRef option \<times> bool) list"
  em_HTTPRouteName :: string

record resourceRefStatus =
  rrs_Name :: string
  rrs_Namespace :: string
  rrs_Ready :: bool
  rrs_Reason :: string
  rrs_Message :: string

record trlpStatus = resourceRefStatus +
  ts_Model :: string

record inferencePoolRef =
  ip_Group :: string
  ip_Kind :: string
  ip_Name :: string

text \<open>The observed router status of an LLMInferenceService: members of its routing group as
  (stopped, weight), and its InferencePool with the namespace the status names.\<close>

record llmInferenceService =
  lm_Name :: string
  lm_Namespace :: string
  lm_GroupMembers :: "(bool \<times> int) list option"
  lm_Pool :: "(inferencePoolRef \<times> string option) option"
  lm_Conditions :: "condition list"

datatype flowControlReason =
    FlowControlReasonObjectiveReconciled
  | FlowControlReasonPriorityUnset
  | FlowControlReasonNotApplicable
  | FlowControlReasonUnmanaged
  | FlowControlReasonPoolPending
  | FlowControlReasonObjectivePending
  | FlowControlReasonUnsupported
  | FlowControlReasonNotOnTenantGateway
  | FlowControlReasonObjectiveConflict
  | FlowControlReasonAPIUnavailable
  | FlowControlReasonReconcileFailed

record modelFlowControlStatus =
  fc_Name :: string
  fc_Namespace :: string
  fc_Ready :: bool
  fc_Reason :: "flowControlReason option"
  fc_InferencePool :: "inferencePoolRef option"
  fc_ObjectiveName :: string

text \<open>\<open>ms_OtherSpec\<close> says whether the owner, organization, token metadata or guardrails are set.\<close>

record maasSubscription =
  ms_meta :: objectMeta
  ms_ModelRefs :: "modelSubscriptionRef list"
  ms_Priority :: int
  ms_InferencePriority :: "int option"
  ms_RateLimitIdentity :: string
  ms_OtherSpec :: bool
  ms_Phase :: string
  ms_Conditions :: "condition list"
  ms_StatusRateLimitIdentity :: string
  ms_ModelRefStatuses :: "resourceRefStatus list"
  ms_TokenRateLimitStatuses :: "trlpStatus list"
  ms_FlowControlStatuses :: "modelFlowControlStatus list"

text \<open>A MaasTenantConfig or a legacy Tenant; only the latter has a gateway of its own.\<close>

record tenantObject =
  to_meta :: objectMeta
  to_Legacy :: bool
  to_GatewayRef :: gatewayRef

record cluster =
  cl_Subscriptions :: "string \<Rightarrow> apiError + maasSubscription list"
  cl_Model :: "string \<Rightarrow> string \<Rightarrow> apiError + maasModelRef"
  cl_RouterRoutes :: "string \<Rightarrow> string \<Rightarrow> apiError + httpRoute list"
  cl_Route :: "string \<Rightarrow> string \<Rightarrow> apiError + httpRoute"
  cl_ExternalModel :: "string \<Rightarrow> string \<Rightarrow> apiError + externalModel"
  cl_Namespace :: "string \<Rightarrow> apiError + labelMap"
  cl_TenantConfig :: "string \<Rightarrow> apiError + tenantObject"
  cl_LegacyTenant :: "string \<Rightarrow> apiError + tenantObject"
  cl_LLMInferenceService :: "string \<Rightarrow> string \<Rightarrow> apiError + llmInferenceService"
  cl_AITenantGateway :: "string \<Rightarrow> string \<Rightarrow> apiError + gatewayRef"

text \<open>The fields of the reconciler that are set at start.\<close>

record settings =
  st_DefaultTenantNamespace :: string
  st_Discovery :: bool
  st_GatewayName :: string
  st_GatewayNamespace :: string
  st_AppNamespace :: string

section \<open>Tenant namespaces\<close>

abbreviation LabelAIGatewayTenant :: string where "LabelAIGatewayTenant \<equiv> ''ai-gateway.opendatahub.io/tenant''"
abbreviation LabelManagedByAITenant :: string where "LabelManagedByAITenant \<equiv> ''maas.opendatahub.io/managed-by-aitenant''"
abbreviation LabelTenantName :: string where "LabelTenantName \<equiv> ''maas.opendatahub.io/tenant-name''"
abbreviation LabelTenantNamespace :: string where "LabelTenantNamespace \<equiv> ''maas.opendatahub.io/tenant-namespace''"
abbreviation AnnotationAITenantName :: string where "AnnotationAITenantName \<equiv> ''maas.opendatahub.io/aitenant-name''"
abbreviation AnnotationAITenantNamespace :: string where
  "AnnotationAITenantNamespace \<equiv> ''maas.opendatahub.io/aitenant-namespace''"
abbreviation AnnotationManaged :: string where "AnnotationManaged \<equiv> ''opendatahub.io/managed''"
abbreviation DefaultAITenantName :: string where "DefaultAITenantName \<equiv> ''models-as-a-service''"
abbreviation MaasTenantConfigInstanceName :: string where "MaasTenantConfigInstanceName \<equiv> ''default-tenant''"

definition namespaceHasTenantDiscoveryLabel :: "labelMap \<Rightarrow> bool" where
  "namespaceHasTenantDiscoveryLabel labels \<longleftrightarrow>
     label_value labels LabelAIGatewayTenant \<noteq> [] \<or> label_value labels LabelManagedByAITenant = ''true''"

definition tenantNamespaceAllowed :: "settings \<Rightarrow> cluster \<Rightarrow> string \<Rightarrow> apiError + bool" where
  "tenantNamespaceAllowed S c ns =
     (if st_DefaultTenantNamespace S = [] \<or> ns = st_DefaultTenantNamespace S then Inr True
      else if \<not> st_Discovery S then Inr False
      else
        (case cl_Namespace c ns of
           Inl ApiNotFound \<Rightarrow> Inr False
         | Inl e \<Rightarrow> Inl e
         | Inr labels \<Rightarrow> Inr (namespaceHasTenantDiscoveryLabel labels)))"

definition isTenantNamespace :: "settings \<Rightarrow> cluster \<Rightarrow> string \<Rightarrow> bool" where
  "isTenantNamespace S c ns = (case tenantNamespaceAllowed S c ns of Inl _ \<Rightarrow> False | Inr ok \<Rightarrow> ok)"

text \<open>The loop remembers the answer for each namespace.\<close>

fun filter_tenant :: "settings \<Rightarrow> cluster \<Rightarrow> (string \<rightharpoonup> bool) \<Rightarrow> maasSubscription list \<Rightarrow> maasSubscription list" where
  "filter_tenant S c allowed [] = []"
| "filter_tenant S c allowed (s # ss) =
     (let ns = om_Namespace (ms_meta s);
          ok = (case allowed ns of Some b \<Rightarrow> b | None \<Rightarrow> isTenantNamespace S c ns)
      in (if ok then [s] else []) @ filter_tenant S c (allowed(ns \<mapsto> ok)) ss)"

definition filterSubscriptionsByTenantNamespace :: "settings \<Rightarrow> cluster \<Rightarrow> maasSubscription list \<Rightarrow> maasSubscription list" where
  "filterSubscriptionsByTenantNamespace S c subs = filter_tenant S c Map.empty subs"

definition findAllSubscriptionsForModel :: "cluster \<Rightarrow> string \<Rightarrow> string \<Rightarrow> apiError + maasSubscription list" where
  "findAllSubscriptionsForModel c modelNamespace modelName =
     (case cl_Subscriptions c (modelNamespace @ ''/'' @ modelName) of
        Inl e \<Rightarrow> Inl e
      | Inr items \<Rightarrow> Inr (filter (\<lambda>s. \<not> om_Deleting (ms_meta s)) items))"

definition isManaged :: "objectMeta \<Rightarrow> bool" where
  "isManaged m = (case om_Annotations m AnnotationManaged of None \<Rightarrow> True | Some v \<Rightarrow> v \<noteq> ''false'')"

text \<open>\<open>strings.Split(value, ",")\<close>.\<close>

fun split_commas :: "string \<Rightarrow> string \<Rightarrow> string list" where
  "split_commas cur [] = [cur]"
| "split_commas cur (c # cs) = (if c = CHR '','' then cur # split_commas [] cs else split_commas (cur @ [c]) cs)"

definition annotationListContains :: "string \<Rightarrow> string \<Rightarrow> bool" where
  "annotationListContains val want \<longleftrightarrow>
     val \<noteq> [] \<and> want \<noteq> [] \<and> list_ex (\<lambda>item. TrimSpace item = want) (split_commas [] val)"

section \<open>The gateway of a tenant\<close>

datatype tenantError = TenantApi apiError | TenantInvalid string | ErrDiscoveredTenantConfigNotFound

definition fetchTenantForNamespace :: "cluster \<Rightarrow> string \<Rightarrow> apiError + tenantObject" where
  "fetchTenantForNamespace c namespace =
     (case cl_TenantConfig c namespace of
        Inr config \<Rightarrow> Inr config
      | Inl ApiNotFound \<Rightarrow> cl_LegacyTenant c namespace
      | Inl e \<Rightarrow> Inl e)"

definition isAITenantManagedTenantConfig :: "tenantObject \<Rightarrow> bool" where
  "isAITenantManagedTenantConfig t \<longleftrightarrow> label_value (om_Labels (to_meta t)) LabelManagedByAITenant = ''true''"

definition TenantIdentifierFor :: "tenantObject \<Rightarrow> tenantError + string" where
  "TenantIdentifierFor t =
     (if isAITenantManagedTenantConfig t then
        (let tenantName = label_value (om_Labels (to_meta t)) LabelTenantName;
             tenantNS = label_value (om_Labels (to_meta t)) LabelTenantNamespace in
         if tenantName = [] then Inl (TenantInvalid ''tenant name label is missing'')
         else if tenantName = DefaultAITenantName then
           (if om_Name (to_meta t) \<noteq> MaasTenantConfigInstanceName then Inl (TenantInvalid ''not the default tenant config'')
            else if tenantNS = [] \<or> tenantNS \<noteq> om_Namespace (to_meta t)
            then Inl (TenantInvalid ''tenant namespace label must match'')
            else Inr [])
         else Inr tenantName)
      else Inr [])"

definition TenantNameFor :: "tenantObject \<Rightarrow> tenantError + string" where
  "TenantNameFor t =
     (if isAITenantManagedTenantConfig t then
        (let tenantName = label_value (om_Labels (to_meta t)) LabelTenantName in
         if tenantName = [] then Inl (TenantInvalid ''tenant name label is missing'') else Inr tenantName)
      else Inr DefaultAITenantName)"

definition resolveAITenantPlatformContext :: "cluster \<Rightarrow> tenantObject \<Rightarrow> tenantError + gatewayRef" where
  "resolveAITenantPlatformContext c t =
     (let meta = to_meta t;
          aitenantName = label_value (om_Annotations meta) AnnotationAITenantName;
          aitenantNamespace = label_value (om_Annotations meta) AnnotationAITenantNamespace
      in if label_value (om_Labels meta) LabelTenantName = [] then Inl (TenantInvalid ''tenant name label is missing'')
         else if aitenantName = [] then Inl (TenantInvalid ''AITenant name is missing'')
         else if aitenantNamespace = [] then Inl (TenantInvalid ''AITenant namespace is missing'')
         else
           (case cl_AITenantGateway c aitenantNamespace aitenantName of
              Inl e \<Rightarrow> Inl (TenantApi e)
            | Inr ref \<Rightarrow>
              if gw_Name ref = [] \<or> gw_Namespace ref = [] then Inl (TenantInvalid ''gatewayRef is not ready'') else Inr ref))"

definition ResolvePlatformContext :: "cluster \<Rightarrow> tenantObject \<Rightarrow> gatewayRef \<Rightarrow> tenantError + gatewayRef" where
  "ResolvePlatformContext c t fallback =
     (if isAITenantManagedTenantConfig t then resolveAITenantPlatformContext c t
      else if to_Legacy t then
        (let ref = to_GatewayRef t in
         if gw_Name ref = [] \<and> gw_Namespace ref = [] then Inr fallback
         else if gw_Name ref = [] \<or> gw_Namespace ref = [] then Inl (TenantInvalid ''gatewayRef must set both'')
         else Inr ref)
      else Inr fallback)"

definition fallbackTenantGatewayRef :: "settings \<Rightarrow> gatewayRef" where
  "fallbackTenantGatewayRef S =
     (if st_GatewayName S = [] \<or> st_GatewayNamespace S = [] then \<lparr>gw_Name = [], gw_Namespace = []\<rparr>
      else \<lparr>gw_Name = st_GatewayName S, gw_Namespace = st_GatewayNamespace S\<rparr>)"

definition tenantGatewayRefForNamespace :: "settings \<Rightarrow> cluster \<Rightarrow> string \<Rightarrow> tenantError + gatewayRef" where
  "tenantGatewayRefForNamespace S c ns =
     (case fetchTenantForNamespace c ns of
        Inr t \<Rightarrow> ResolvePlatformContext c t (fallbackTenantGatewayRef S)
      | Inl ApiNotFound \<Rightarrow>
        if ns = st_DefaultTenantNamespace S \<or> \<not> st_Discovery S then Inr (fallbackTenantGatewayRef S)
        else
          (case tenantNamespaceAllowed S c ns of
             Inl e \<Rightarrow> Inl (TenantApi e)
           | Inr allowed \<Rightarrow>
             if \<not> allowed then Inr (fallbackTenantGatewayRef S) else Inl ErrDiscoveredTenantConfigNotFound)
      | Inl e \<Rightarrow> Inl (TenantApi e))"

section \<open>The route of a model\<close>

abbreviation GatewayGroup :: string where "GatewayGroup \<equiv> ''gateway.networking.k8s.io''"

definition parentRefTargetsGateway :: "parentRef \<Rightarrow> bool" where
  "parentRefTargetsGateway p \<longleftrightarrow>
     (case pref_Kind p of None \<Rightarrow> ''Gateway'' | Some k \<Rightarrow> k) = ''Gateway'' \<and>
     (case pref_Group p of None \<Rightarrow> GatewayGroup | Some g \<Rightarrow> g) = GatewayGroup"

definition routeParentGateway :: "httpRoute \<Rightarrow> parentRef \<Rightarrow> gatewayRef" where
  "routeParentGateway route p =
     \<lparr>gw_Name = pref_Name p, gw_Namespace = (case pref_Namespace p of None \<Rightarrow> hr_Namespace route | Some ns \<Rightarrow> ns)\<rparr>"

datatype gatewayError = ErrHTTPRouteNotOnTenantGateway | GatewayInvalid string | GatewayApi apiError

definition maxHTTPRouteParentRefs :: nat where
  "maxHTTPRouteParentRefs = 32"

definition validateHTTPRouteReferencesGateway ::
    "cluster \<Rightarrow> string \<Rightarrow> string \<Rightarrow> gatewayRef \<Rightarrow> gatewayError option" where
  "validateHTTPRouteReferencesGateway c routeName routeNamespace ref =
     (if gw_Name ref = [] \<and> gw_Namespace ref = [] then None
      else if gw_Name ref = [] \<or> gw_Namespace ref = [] then Some (GatewayInvalid ''gatewayRef must set both'')
      else
        (case cl_Route c routeNamespace routeName of
           Inl e \<Rightarrow> Some (GatewayApi e)
         | Inr route \<Rightarrow>
           if length (hr_ParentRefs route) > maxHTTPRouteParentRefs then Some (GatewayInvalid ''too many parentRefs'')
           else if list_ex (\<lambda>p. parentRefTargetsGateway p \<and> pref_Name p = gw_Name ref \<and>
                     (case pref_Namespace p of None \<Rightarrow> routeNamespace | Some ns \<Rightarrow> ns) = gw_Namespace ref) (hr_ParentRefs route)
           then None else Some ErrHTTPRouteNotOnTenantGateway))"

datatype routeError = ErrModelNotFound | ErrHTTPRouteNotFound | UnknownModelKind string | RouteApi apiError

definition getHTTPRoute :: "cluster \<Rightarrow> string \<Rightarrow> string \<Rightarrow> routeError + httpRoute" where
  "getHTTPRoute c name ns =
     (case cl_Route c ns name of
        Inl ApiNotFound \<Rightarrow> Inl ErrHTTPRouteNotFound
      | Inl e \<Rightarrow> Inl (RouteApi e)
      | Inr route \<Rightarrow> Inr route)"

definition llmisvc_HTTPRouteForModel :: "cluster \<Rightarrow> maasModelRef \<Rightarrow> routeError + string \<times> string" where
  "llmisvc_HTTPRouteForModel c model =
     (case cl_RouterRoutes c (om_Namespace (mm_meta model)) (mm_RefName model) of
        Inl e \<Rightarrow> Inl (RouteApi e)
      | Inr [] \<Rightarrow> Inl ErrHTTPRouteNotFound
      | Inr (route # _) \<Rightarrow> Inr (hr_Name route, hr_Namespace route))"

text \<open>\<open>strings.Trim(s, "-.")\<close>, and the bounded names of child resources.\<close>

definition trim_name :: "string \<Rightarrow> string" where
  "trim_name s = (let cut = dropWhile (\<lambda>c. c \<in> {CHR ''-'', CHR ''.''}) in rev (cut (rev (cut s))))"

definition ExternalModelResourceName :: "libs \<Rightarrow> string \<Rightarrow> string" where
  "ExternalModelResourceName L modelName =
     (let name = ''maas-'' @ modelName in
      if length name \<le> 253 then name
      else
        (let hash = take 8 (sha256hex L modelName);
             budget = 253 - length ''maas-'' - length hash - 1;
             trimmed = trim_name (take budget modelName);
             trimmed = (if trimmed = [] then hash else trimmed)
         in ''maas-'' @ trimmed @ ''-'' @ hash))"

text \<open>A later entry for the same gateway replaces an earlier one.\<close>

definition externalModelGatewayRoutes :: "externalModel \<Rightarrow> (gatewayRef \<rightharpoonup> gatewayRef) option" where
  "externalModelGatewayRoutes em =
     (if em_Gateways em = [] then None
      else Some (fold (\<lambda>(gateway, route, ready) m.
        m(gateway \<mapsto> (case route of Some r \<Rightarrow> if ready then r else \<lparr>gw_Name = [], gw_Namespace = []\<rparr>
                       | None \<Rightarrow> \<lparr>gw_Name = [], gw_Namespace = []\<rparr>))) (em_Gateways em) Map.empty))"

definition external_HTTPRouteForModel :: "libs \<Rightarrow> cluster \<Rightarrow> maasModelRef \<Rightarrow> routeError + string \<times> string" where
  "external_HTTPRouteForModel L c model =
     (let ns = om_Namespace (mm_meta model);
          legacy = Inr (ExternalModelResourceName L (mm_RefName model), ns)
      in case cl_ExternalModel c ns (mm_RefName model) of
           Inr em \<Rightarrow>
             (case externalModelGatewayRoutes em of
                Some routes \<Rightarrow>
                  (case routes \<lparr>gw_Name = mm_GatewayName model, gw_Namespace = mm_GatewayNamespace model\<rparr> of
                     None \<Rightarrow> Inl ErrHTTPRouteNotFound
                   | Some route \<Rightarrow>
                     if gw_Name route \<noteq> [] then Inr (gw_Name route, gw_Namespace route) else Inl ErrHTTPRouteNotFound)
              | None \<Rightarrow>
                  if em_HTTPRouteName em \<noteq> [] then Inr (em_HTTPRouteName em, ns) else Inl ErrHTTPRouteNotFound)
         | Inl ApiNotFound \<Rightarrow> legacy
         | Inl ApiNoMatch \<Rightarrow> legacy
         | Inl e \<Rightarrow> Inl (RouteApi e))"

definition GetRouteResolver :: "libs \<Rightarrow> string \<Rightarrow> (cluster \<Rightarrow> maasModelRef \<Rightarrow> routeError + string \<times> string) option" where
  "GetRouteResolver L kind =
     (if kind = ''LLMInferenceService'' \<or> kind = ''llmisvc'' then Some llmisvc_HTTPRouteForModel
      else if kind = ''ExternalModel'' then Some (external_HTTPRouteForModel L)
      else None)"

definition findHTTPRouteForModel :: "libs \<Rightarrow> cluster \<Rightarrow> string \<Rightarrow> string \<Rightarrow> routeError + string \<times> string" where
  "findHTTPRouteForModel L c modelNamespace modelName =
     (case cl_Model c modelNamespace modelName of
        Inl ApiNotFound \<Rightarrow> Inl ErrModelNotFound
      | Inl e \<Rightarrow> Inl (RouteApi e)
      | Inr model \<Rightarrow>
        if om_Deleting (mm_meta model) then Inl ErrModelNotFound
        else
          (case GetRouteResolver L (mm_Kind model) of
             None \<Rightarrow> Inl (UnknownModelKind (mm_Kind model))
           | Some resolver \<Rightarrow>
             bind_res (resolver c model) (\<lambda>(routeName, routeNS).
             bind_res (getHTTPRoute c routeName routeNS) (\<lambda>_. Inr (routeName, routeNS)))))"

section \<open>The gateway a policy is labelled with\<close>

definition routeGatewayForTRLP :: "httpRoute \<Rightarrow> gatewayRef option" where
  "routeGatewayForTRLP route = map_option (routeParentGateway route) (find parentRefTargetsGateway (hr_ParentRefs route))"

definition selectedGatewayForModel :: "cluster \<Rightarrow> string \<Rightarrow> string \<Rightarrow> apiError + gatewayRef option" where
  "selectedGatewayForModel c modelNamespace modelName =
     (case cl_Model c modelNamespace modelName of
        Inl ApiNotFound \<Rightarrow> Inr None
      | Inl e \<Rightarrow> Inl e
      | Inr model \<Rightarrow>
        if mm_GatewayName model = [] \<or> mm_GatewayNamespace model = [] then Inr None
        else Inr (Some \<lparr>gw_Name = mm_GatewayName model, gw_Namespace = mm_GatewayNamespace model\<rparr>))"

definition gatewayIdentityForTRLP :: "cluster \<Rightarrow> string \<Rightarrow> string \<Rightarrow> httpRoute \<Rightarrow> apiError + gatewayRef option" where
  "gatewayIdentityForTRLP c modelNamespace modelName route =
     bind_res (selectedGatewayForModel c modelNamespace modelName) (\<lambda>g.
       case g of Some gateway \<Rightarrow> Inr (Some gateway) | None \<Rightarrow> Inr (routeGatewayForTRLP route))"

section \<open>Facts about the reads\<close>

text \<open>Remembering answers does not change them.\<close>

lemma filter_tenant_eq:
  assumes "\<forall>ns b. allowed ns = Some b \<longrightarrow> b = isTenantNamespace S c ns"
  shows "filter_tenant S c allowed subs = filter (\<lambda>s. isTenantNamespace S c (om_Namespace (ms_meta s))) subs"
  using assms
proof (induction subs arbitrary: allowed)
  case (Cons s subs)
  have "(case allowed (om_Namespace (ms_meta s)) of Some b \<Rightarrow> b | None \<Rightarrow> isTenantNamespace S c (om_Namespace (ms_meta s)))
      = isTenantNamespace S c (om_Namespace (ms_meta s))"
    using Cons.prems by (simp split: option.splits)
  with Cons show ?case by (simp add: Let_def)
qed simp

lemma filterSubscriptionsByTenantNamespace_eq [simp]:
  "filterSubscriptionsByTenantNamespace S c subs = filter (\<lambda>s. isTenantNamespace S c (om_Namespace (ms_meta s))) subs"
  by (simp add: filterSubscriptionsByTenantNamespace_def filter_tenant_eq)

lemma findHTTPRouteForModel_exists:
  assumes "findHTTPRouteForModel L c ns n = Inr (routeName, routeNS)"
  obtains route where "cl_Route c routeNS routeName = Inr route"
  using assms
  by (auto simp: findHTTPRouteForModel_def bind_res_eq_Inr_iff getHTTPRoute_def
      split: sum.splits apiError.splits if_splits option.splits prod.splits)

lemma length_trim_name: "length (trim_name s) \<le> length s"
proof -
  let ?cut = "dropWhile (\<lambda>c. c \<in> {CHR ''-'', CHR ''.''})"
  have "length (?cut (rev (?cut s))) \<le> length (rev (?cut s))" by (rule length_dropWhile_le)
  also have "\<dots> \<le> length s" using length_dropWhile_le [of "\<lambda>c. c \<in> {CHR ''-'', CHR ''.''}" s] by (simp only: length_rev)
  finally show ?thesis unfolding trim_name_def Let_def length_rev .
qed

text \<open>Child names of external models fit the limit of the API server.\<close>

lemma ExternalModelResourceName_bound: "length (ExternalModelResourceName L n) \<le> 253"
proof -
  let ?h = "take 8 (sha256hex L n)"
  have "length (trim_name (take (253 - 5 - length ?h - 1) n)) \<le> 253 - 5 - length ?h - 1"
    using length_trim_name [of "take (253 - 5 - length ?h - 1) n"] by (simp add: min_def split: if_splits)
  then show ?thesis by (auto simp: ExternalModelResourceName_def Let_def)
qed

end
