(* ===== verification/TrlpReconcile.thy ===== *)
theory TrlpReconcile
  imports ControllerCluster
begin

text \<open>
  The part of \<open>maassubscription_controller.go\<close> that keeps one TokenRateLimitPolicy per
  model: which subscriptions count, the generated policy, its creation, update and removal.
  The state is the list of policies in the cluster. What the API server answers to the
  writes, and what other writers do to the policy between attempts, are the argument
  \<open>trlpEnv\<close>.
\<close>

section \<open>Which identity a subscription has\<close>

abbreviation maasSubscriptionFinalizer :: string where
  "maasSubscriptionFinalizer \<equiv> ''maas.opendatahub.io/subscription-cleanup''"
abbreviation RateLimitIdentityShort :: string where "RateLimitIdentityShort \<equiv> ''short''"
abbreviation RateLimitIdentityLegacy :: string where "RateLimitIdentityLegacy \<equiv> ''legacy''"

definition recognizedRateLimitIdentity :: "string \<Rightarrow> bool" where
  "recognizedRateLimitIdentity v \<longleftrightarrow> v = RateLimitIdentityShort \<or> v = RateLimitIdentityLegacy"

text \<open>\<open>epoch\<close> is the start of the controller process.\<close>

definition classifiedRateLimitIdentity :: "int \<Rightarrow> maasSubscription \<Rightarrow> string" where
  "classifiedRateLimitIdentity epoch sub =
     (let ann = label_value (om_Annotations (ms_meta sub)) AnnotationRateLimitIdentity in
      if recognizedRateLimitIdentity (ms_RateLimitIdentity sub) then ms_RateLimitIdentity sub
      else if recognizedRateLimitIdentity (ms_StatusRateLimitIdentity sub) then ms_StatusRateLimitIdentity sub
      else if recognizedRateLimitIdentity ann then ann
      else if maasSubscriptionFinalizer \<in> set (om_Finalizers (ms_meta sub)) then RateLimitIdentityLegacy
      else if ms_Phase sub = [] \<and> ms_Conditions sub = [] then RateLimitIdentityShort
      else
        (case om_Created (ms_meta sub) of
           None \<Rightarrow> RateLimitIdentityLegacy
         | Some created \<Rightarrow> if created < epoch then RateLimitIdentityLegacy else RateLimitIdentityShort))"

section \<open>Which subscriptions count\<close>

text \<open>The first reference to the model with a valid budget.\<close>

fun member_of :: "int \<Rightarrow> string \<Rightarrow> string \<Rightarrow> maasSubscription \<Rightarrow> modelSubscriptionRef list \<Rightarrow> subInfo option" where
  "member_of epoch modelNamespace modelName sub [] = None"
| "member_of epoch modelNamespace modelName sub (mRef # refs) =
     (if msr_Namespace mRef \<noteq> modelNamespace \<or> msr_Name mRef \<noteq> modelName
      then member_of epoch modelNamespace modelName sub refs
      else
        (case modelRefTokenRates mRef of
           Inl _ \<Rightarrow> member_of epoch modelNamespace modelName sub refs
         | Inr (rates, unlimited) \<Rightarrow>
           Some \<lparr>si_subNamespace = om_Namespace (ms_meta sub), si_subName = om_Name (ms_meta sub),
                 si_rates = rates, si_unlimited = unlimited,
                 si_modelScoped = ModelScopedSubscriptionKey (om_Namespace (ms_meta sub)) (om_Name (ms_meta sub))
                   (msr_Namespace mRef) (msr_Name mRef),
                 si_groupKey = rateGroupKey rates,
                 si_legacy = (classifiedRateLimitIdentity epoch sub = RateLimitIdentityLegacy)\<rparr>))"

definition collectMembers :: "int \<Rightarrow> string \<Rightarrow> string \<Rightarrow> maasSubscription list \<Rightarrow> subInfo list" where
  "collectMembers epoch modelNamespace modelName allSubs =
     List.map_filter (\<lambda>sub. member_of epoch modelNamespace modelName sub (ms_ModelRefs sub)) allSubs"

datatype reconcileError =
    ListFailed apiError
  | RouteFailed routeError
  | TenantFailed tenantError
  | GatewayFailed gatewayError
  | GetFailed apiError
  | DeleteFailed apiError
  | OwnerFailed string
  | CreateFailed apiError
  | UpdateFailed apiError

text \<open>Namespaces seen, gateways checked, namespaces to skip.\<close>

type_synonym gatewayState = "string list \<times> (string \<rightharpoonup> bool) \<times> string list"

definition check_namespace ::
    "settings \<Rightarrow> cluster \<Rightarrow> string \<Rightarrow> string \<Rightarrow> maasSubscription \<Rightarrow> gatewayState \<Rightarrow> reconcileError + gatewayState" where
  "check_namespace S c routeName routeNS sub st =
     (case st of (seen, gateways, skipped) \<Rightarrow>
      (let ns = om_Namespace (ms_meta sub) in
       if ns \<in> set seen then Inr st
       else
         (case tenantGatewayRefForNamespace S c ns of
            Inl ErrDiscoveredTenantConfigNotFound \<Rightarrow> Inr (ns # seen, gateways, ns # skipped)
          | Inl e \<Rightarrow> Inl (TenantFailed e)
          | Inr ref \<Rightarrow>
            (let key = qualifiedName (gw_Namespace ref) (gw_Name ref) in
             case gateways key of
               Some ok \<Rightarrow> Inr (ns # seen, gateways, if ok then skipped else ns # skipped)
             | None \<Rightarrow>
               (case validateHTTPRouteReferencesGateway c routeName routeNS ref of
                  Some ErrHTTPRouteNotOnTenantGateway \<Rightarrow> Inr (ns # seen, gateways(key \<mapsto> False), ns # skipped)
                | Some e \<Rightarrow> Inl (GatewayFailed e)
                | None \<Rightarrow> Inr (ns # seen, gateways(key \<mapsto> True), skipped))))))"

definition validateSubscriptionTenantGatewaysForRoute ::
    "settings \<Rightarrow> cluster \<Rightarrow> string \<Rightarrow> string \<Rightarrow> maasSubscription list \<Rightarrow> reconcileError + maasSubscription list" where
  "validateSubscriptionTenantGatewaysForRoute S c routeName routeNS subs =
     bind_res (fold_res (check_namespace S c routeName routeNS) subs ([], Map.empty, []))
       (\<lambda>(seen, gateways, skipped). Inr (filter (\<lambda>sub. om_Namespace (ms_meta sub) \<notin> set skipped) subs))"

section \<open>Policies in the cluster\<close>

record ownerRef =
  or_Controller :: bool
  or_APIVersion :: string
  or_Kind :: string
  or_Name :: string
  or_UID :: string

record trlp =
  tp_meta :: objectMeta
  tp_Owners :: "ownerRef list"
  tp_Target :: string
  tp_Limits :: "string \<rightharpoonup> tokenLimit"
  tp_Status :: jobj

definition trlp_key :: "trlp \<Rightarrow> nsname" where
  "trlp_key t = (om_Namespace (tp_meta t), om_Name (tp_meta t))"

text \<open>
  Faults of single calls, the attempts of \<open>retry.DefaultBackoff\<close>, what other writers do to the
  policy before an attempt, which attempts lose the race, what other writers do to a policy
  after it was listed for deletion and before it is deleted, and
  \<open>controllerutil.SetControllerReference\<close>.
\<close>

record trlpEnv =
  ev_get :: "nsname \<Rightarrow> apiError option"
  ev_list :: "apiError option"
  ev_create :: "apiError option"
  ev_delete :: "nsname \<Rightarrow> apiError option"
  ev_update :: "apiError option"
  ev_steps :: nat
  ev_interfere :: "nat \<Rightarrow> trlp \<Rightarrow> trlp"
  ev_conflict :: "nat \<Rightarrow> bool"
  ev_race :: "trlp \<Rightarrow> trlp"
  ev_setController :: "httpRoute \<Rightarrow> ownerRef list \<Rightarrow> string + ownerRef list"

definition get_trlp :: "trlpEnv \<Rightarrow> nsname \<Rightarrow> trlp list \<Rightarrow> apiError + trlp" where
  "get_trlp E key store =
     (case ev_get E key of
        Some e \<Rightarrow> Inl e
      | None \<Rightarrow> (case find (\<lambda>t. trlp_key t = key) store of None \<Rightarrow> Inl ApiNotFound | Some t \<Rightarrow> Inr t))"

definition put_trlp :: "trlp \<Rightarrow> trlp list \<Rightarrow> trlp list" where
  "put_trlp t store = map (\<lambda>u. if trlp_key u = trlp_key t then t else u) store"

definition model_labels :: "string \<Rightarrow> string \<Rightarrow> (string \<times> string) list" where
  "model_labels modelNamespace modelName =
     [(''maas.opendatahub.io/model'', modelName), (''maas.opendatahub.io/model-namespace'', modelNamespace),
      (''app.kubernetes.io/managed-by'', ''maas-controller''), (''app.kubernetes.io/part-of'', ''maas-subscription'')]"

definition matches_labels :: "(string \<times> string) list \<Rightarrow> trlp \<Rightarrow> bool" where
  "matches_labels sel t \<longleftrightarrow> list_all (\<lambda>(k, v). om_Labels (tp_meta t) k = Some v) sel"

definition race :: "trlpEnv \<Rightarrow> nsname \<Rightarrow> trlp list \<Rightarrow> trlp list" where
  "race E key store = map (\<lambda>t. if trlp_key t = key then ev_race E t else t) store"

text \<open>
  The deletions go by the listed copies \<open>ps\<close>; the policies themselves may have been written to
  since. \<open>Delete\<close> has no precondition on the version: it deletes what is there under the key.
\<close>

fun delete_loop :: "trlpEnv \<Rightarrow> trlp list \<Rightarrow> trlp list \<Rightarrow> reconcileError option \<times> trlp list" where
  "delete_loop E [] store = (None, store)"
| "delete_loop E (p # ps) store =
     (if \<not> isManaged (tp_meta p) then delete_loop E ps store
      else
        (let store = race E (trlp_key p) store in
         case ev_delete E (trlp_key p) of
           Some ApiNotFound \<Rightarrow> delete_loop E ps store
         | Some e \<Rightarrow> (Some (DeleteFailed e), store)
         | None \<Rightarrow> delete_loop E ps (filter (\<lambda>t. trlp_key t \<noteq> trlp_key p) store)))"

definition deleteModelTRLP :: "trlpEnv \<Rightarrow> string \<Rightarrow> string \<Rightarrow> trlp list \<Rightarrow> reconcileError option \<times> trlp list" where
  "deleteModelTRLP E modelNamespace modelName store =
     (case ev_list E of
        Some ApiNotFound \<Rightarrow> (None, store)
      | Some ApiNoMatch \<Rightarrow> (None, store)
      | Some e \<Rightarrow> (Some (ListFailed e), store)
      | None \<Rightarrow> delete_loop E (filter (matches_labels (model_labels modelNamespace modelName)) store) store)"

section \<open>The generated policy\<close>

definition setHTTPRouteControllerOwner :: "trlpEnv \<Rightarrow> httpRoute \<Rightarrow> ownerRef list \<Rightarrow> string + ownerRef list" where
  "setHTTPRouteControllerOwner E route owners =
     ev_setController E route
       (filter (\<lambda>ref. \<not> (or_Controller ref \<and> or_APIVersion ref = ''gateway.networking.k8s.io/v1'' \<and> or_Kind ref = ''HTTPRoute'')) owners)"

abbreviation AnnotationSubscriptions :: string where "AnnotationSubscriptions \<equiv> ''maas.opendatahub.io/subscriptions''"

definition policy_labels :: "string \<Rightarrow> string \<Rightarrow> gatewayRef option \<Rightarrow> labelMap" where
  "policy_labels modelNamespace modelName gateway =
     (let labels = (map_of (model_labels modelNamespace modelName))(''app.kubernetes.io/component'' \<mapsto> ''token-rate-limit-policy'') in
      case gateway of
        Some g \<Rightarrow>
          if gw_Name g \<noteq> [] \<and> gw_Namespace g \<noteq> []
          then labels(''maas.opendatahub.io/gateway-name'' \<mapsto> gw_Name g, ''maas.opendatahub.io/gateway-namespace'' \<mapsto> gw_Namespace g)
          else labels
      | None \<Rightarrow> labels)"

definition desired_policy ::
    "libs \<Rightarrow> string \<Rightarrow> string \<Rightarrow> string \<Rightarrow> string \<Rightarrow> gatewayRef option \<Rightarrow> ownerRef list \<Rightarrow> subInfo list \<Rightarrow> trlp" where
  "desired_policy L modelNamespace modelName routeName routeNS gateway owners subs =
     (case buildGroupedLimits L subs of (limitsMap, subNames) \<Rightarrow>
        \<lparr>tp_meta = \<lparr>om_Name = ''maas-trlp-'' @ modelName, om_Namespace = routeNS, om_UID = [],
           om_Labels = policy_labels modelNamespace modelName gateway,
           om_Annotations = [AnnotationSubscriptions \<mapsto> Join subNames '',''],
           om_Finalizers = [], om_Deleting = False, om_Generation = 0, om_Created = None\<rparr>,
         tp_Owners = owners, tp_Target = routeName, tp_Limits = limitsMap, tp_Status = []\<rparr>)"

definition merge_policy :: "trlp \<Rightarrow> ownerRef list \<Rightarrow> trlp \<Rightarrow> trlp" where
  "merge_policy policy owners existing =
     existing\<lparr>tp_meta := (tp_meta existing)
         \<lparr>om_Annotations := om_Annotations (tp_meta existing) ++ om_Annotations (tp_meta policy),
          om_Labels := om_Labels (tp_meta existing) ++ om_Labels (tp_meta policy)\<rparr>,
       tp_Owners := owners, tp_Target := tp_Target policy, tp_Limits := tp_Limits policy\<rparr>"

text \<open>One round of the other writers.\<close>

definition interfere :: "trlpEnv \<Rightarrow> nsname \<Rightarrow> nat \<Rightarrow> trlp list \<Rightarrow> trlp list" where
  "interfere E key i store = map (\<lambda>t. if trlp_key t = key then ev_interfere E i t else t) store"

text \<open>Up to \<open>n\<close> attempts, the next one being number \<open>i\<close>; only a lost race is retried.\<close>

fun update_attempts ::
    "trlpEnv \<Rightarrow> httpRoute \<Rightarrow> trlp \<Rightarrow> nat \<Rightarrow> nat \<Rightarrow> trlp list \<Rightarrow> reconcileError option \<times> trlp list" where
  "update_attempts E route policy 0 i store = (Some (UpdateFailed ApiConflict), store)"
| "update_attempts E route policy (Suc n) i store0 =
     (let store = interfere E (trlp_key policy) i store0 in
      case get_trlp E (trlp_key policy) store of
        Inl ApiConflict \<Rightarrow> update_attempts E route policy n (Suc i) store
      | Inl e \<Rightarrow> (Some (UpdateFailed e), store)
      | Inr existing \<Rightarrow>
        if \<not> isManaged (tp_meta existing) then (None, store)
        else
          (case setHTTPRouteControllerOwner E route (tp_Owners existing) of
             Inl e \<Rightarrow> (Some (OwnerFailed e), store)
           | Inr owners \<Rightarrow>
             (let updated = merge_policy policy owners existing in
              if updated = existing then (None, store)
              else if ev_conflict E i then update_attempts E route policy n (Suc i) store
              else (case ev_update E of
                      Some e \<Rightarrow> (Some (UpdateFailed e), store)
                    | None \<Rightarrow> (None, put_trlp updated store)))))"

definition updateExistingTRLP :: "trlpEnv \<Rightarrow> httpRoute \<Rightarrow> trlp \<Rightarrow> trlp list \<Rightarrow> reconcileError option \<times> trlp list" where
  "updateExistingTRLP E route policy store = update_attempts E route policy (ev_steps E) 0 store"

text \<open>The server refuses to create an object that is already there.\<close>

definition create_trlp :: "trlpEnv \<Rightarrow> trlp \<Rightarrow> trlp list \<Rightarrow> reconcileError option \<times> trlp list" where
  "create_trlp E policy store =
     (case ev_create E of
        Some e \<Rightarrow> (Some (CreateFailed e), store)
      | None \<Rightarrow>
        if trlp_key policy \<in> trlp_key ` set store then (Some (CreateFailed ApiAlreadyExists), store)
        else (None, store @ [policy]))"

text \<open>Creating the policy or updating it, once it is known.\<close>

definition write_policy :: "trlpEnv \<Rightarrow> httpRoute \<Rightarrow> trlp \<Rightarrow> trlp list \<Rightarrow> reconcileError option \<times> trlp list" where
  "write_policy E route policy store =
     (case get_trlp E (trlp_key policy) store of
        Inl ApiNotFound \<Rightarrow> create_trlp E policy store
      | Inl e \<Rightarrow> (Some (GetFailed e), store)
      | Inr _ \<Rightarrow> updateExistingTRLP E route policy store)"

text \<open>The rest, once the subscriptions on the tenant gateway are known.\<close>

definition apply_policy ::
    "libs \<Rightarrow> cluster \<Rightarrow> trlpEnv \<Rightarrow> int \<Rightarrow> string \<Rightarrow> string \<Rightarrow> string \<Rightarrow> string \<Rightarrow> maasSubscription list \<Rightarrow> trlp list
     \<Rightarrow> reconcileError option \<times> trlp list" where
  "apply_policy L c E epoch modelNamespace modelName routeName routeNS allSubs store =
     (case cl_Route c routeNS routeName of
        Inl e \<Rightarrow> (Some (RouteFailed (RouteApi e)), store)
      | Inr route \<Rightarrow>
        (case gatewayIdentityForTRLP c modelNamespace modelName route of
           Inl e \<Rightarrow> (Some (GatewayFailed (GatewayApi e)), store)
         | Inr gateway \<Rightarrow>
           (let subs = collectMembers epoch modelNamespace modelName allSubs in
            if subs = [] then deleteModelTRLP E modelNamespace modelName store
            else
              (case setHTTPRouteControllerOwner E route [] of
                 Inl e \<Rightarrow> (Some (OwnerFailed e), store)
               | Inr owners \<Rightarrow>
                 write_policy E route (desired_policy L modelNamespace modelName routeName routeNS gateway owners subs) store))))"

definition reconcileTRLPForModel ::
    "libs \<Rightarrow> settings \<Rightarrow> cluster \<Rightarrow> trlpEnv \<Rightarrow> int \<Rightarrow> string \<Rightarrow> string \<Rightarrow> trlp list \<Rightarrow> reconcileError option \<times> trlp list" where
  "reconcileTRLPForModel L S c E epoch modelNamespace modelName store =
     (case findAllSubscriptionsForModel c modelNamespace modelName of
        Inl e \<Rightarrow> (Some (ListFailed e), store)
      | Inr listed \<Rightarrow>
        (let allSubs = filterSubscriptionsByTenantNamespace S c listed in
         case findHTTPRouteForModel L c modelNamespace modelName of
           Inl e \<Rightarrow>
             if e = ErrModelNotFound \<or> allSubs = [] then deleteModelTRLP E modelNamespace modelName store
             else if e = ErrHTTPRouteNotFound then (None, store)
             else (Some (RouteFailed e), store)
         | Inr (routeName, routeNS) \<Rightarrow>
           (case validateSubscriptionTenantGatewaysForRoute S c routeName routeNS allSubs of
              Inl e \<Rightarrow> (Some e, store)
            | Inr allSubs \<Rightarrow>
              (let continue = (if allSubs = [] then deleteModelTRLP E modelNamespace modelName store
                    else apply_policy L c E epoch modelNamespace modelName routeName routeNS allSubs store)
               in case get_trlp E (routeNS, ''maas-trlp-'' @ modelName) store of
                    Inr existing \<Rightarrow> if \<not> isManaged (tp_meta existing) then (None, store) else continue
                  | Inl ApiNotFound \<Rightarrow> continue
                  | Inl e \<Rightarrow> (Some (GetFailed e), store)))))"

section \<open>All models of a subscription\<close>

fun each_model ::
    "(string \<Rightarrow> string \<Rightarrow> trlp list \<Rightarrow> reconcileError option \<times> trlp list) \<Rightarrow> string list \<Rightarrow> modelSubscriptionRef list \<Rightarrow> trlp list
     \<Rightarrow> reconcileError option \<times> trlp list" where
  "each_model f seen [] store = (None, store)"
| "each_model f seen (r # rs) store =
     (let k = msr_Namespace r @ ''/'' @ msr_Name r in
      if k \<in> set seen then each_model f seen rs store
      else
        (case f (msr_Namespace r) (msr_Name r) store of
           (Some e, store) \<Rightarrow> (Some e, store)
         | (None, store) \<Rightarrow> each_model f (k # seen) rs store))"

definition owner_selector :: "(string \<times> string) list" where
  "owner_selector = [(''app.kubernetes.io/managed-by'', ''maas-controller''), (''app.kubernetes.io/part-of'', ''maas-subscription'')]"

definition model_of_policy :: "trlp \<Rightarrow> string \<times> string" where
  "model_of_policy t =
     (let ns = label_value (om_Labels (tp_meta t)) ''maas.opendatahub.io/model-namespace'' in
      (if ns = [] then om_Namespace (tp_meta t) else ns, label_value (om_Labels (tp_meta t)) ''maas.opendatahub.io/model''))"

fun stale_loop :: "trlpEnv \<Rightarrow> maasSubscription \<Rightarrow> trlp list \<Rightarrow> trlp list \<Rightarrow> reconcileError option \<times> trlp list" where
  "stale_loop E sub [] store = (None, store)"
| "stale_loop E sub (t # ts) store =
     (case model_of_policy t of (modelNamespace, modelName) \<Rightarrow>
      (let owners = label_value (om_Annotations (tp_meta t)) AnnotationSubscriptions;
           name = om_Name (ms_meta sub);
           current = (\<lambda>r. msr_Namespace r @ ''/'' @ msr_Name r) ` set (ms_ModelRefs sub)
       in if modelName = [] \<or> modelNamespace @ ''/'' @ modelName \<in> current \<or>
             \<not> (annotationListContains owners (qualifiedName (om_Namespace (ms_meta sub)) name) \<or>
                annotationListContains owners name)
          then stale_loop E sub ts store
          else
            (case deleteModelTRLP E modelNamespace modelName store of
               (Some e, store) \<Rightarrow> (Some e, store)
             | (None, store) \<Rightarrow> stale_loop E sub ts store)))"

definition cleanupStaleTRLPs :: "trlpEnv \<Rightarrow> maasSubscription \<Rightarrow> trlp list \<Rightarrow> reconcileError option \<times> trlp list" where
  "cleanupStaleTRLPs E sub store =
     (case ev_list E of
        Some ApiNotFound \<Rightarrow> (None, store)
      | Some ApiNoMatch \<Rightarrow> (None, store)
      | Some e \<Rightarrow> (Some (ListFailed e), store)
      | None \<Rightarrow> stale_loop E sub (filter (matches_labels owner_selector) store) store)"

definition reconcileTokenRateLimitPolicies ::
    "libs \<Rightarrow> settings \<Rightarrow> cluster \<Rightarrow> trlpEnv \<Rightarrow> int \<Rightarrow> maasSubscription \<Rightarrow> trlp list \<Rightarrow> reconcileError option \<times> trlp list" where
  "reconcileTokenRateLimitPolicies L S c E epoch sub store =
     (case each_model (reconcileTRLPForModel L S c E epoch) [] (ms_ModelRefs sub) store of
        (Some e, store) \<Rightarrow> (Some e, store)
      | (None, store) \<Rightarrow> cleanupStaleTRLPs E sub store)"

section \<open>What a reconciliation may touch\<close>

definition opted_out :: "trlp \<Rightarrow> bool" where
  "opted_out t \<longleftrightarrow> \<not> isManaged (tp_meta t)"

text \<open>What the other writers alone can make of a policy.\<close>

inductive by_others :: "trlpEnv \<Rightarrow> trlp \<Rightarrow> trlp \<Rightarrow> bool" for E where
  same: "by_others E t t"
| other: "by_others E t u \<Longrightarrow> by_others E t (ev_interfere E i u)"
| raced: "by_others E t u \<Longrightarrow> by_others E t (ev_race E u)"

text \<open>Other writers do not rename a policy and do not opt it in again behind the owner's back.\<close>

definition others_keep :: "trlpEnv \<Rightarrow> bool" where
  "others_keep E \<longleftrightarrow>
     (\<forall>i t. trlp_key (ev_interfere E i t) = trlp_key t \<and> (opted_out t \<longrightarrow> opted_out (ev_interfere E i t))) \<and>
     (\<forall>t. trlp_key (ev_race E t) = trlp_key t \<and> (opted_out t \<longrightarrow> opted_out (ev_race E t)))"

definition unique_keys :: "trlp list \<Rightarrow> bool" where
  "unique_keys store \<longleftrightarrow> distinct (map trlp_key store)"

definition keeps :: "trlpEnv \<Rightarrow> trlp list \<Rightarrow> trlp list \<Rightarrow> bool" where
  "keeps E store store' \<longleftrightarrow>
     (unique_keys store \<longrightarrow> unique_keys store' \<and>
        (\<forall>t\<in>set store. opted_out t \<longrightarrow> (\<exists>u\<in>set store'. by_others E t u \<and> opted_out u)))"

lemma by_others_trans: "by_others E t u \<Longrightarrow> by_others E s t \<Longrightarrow> by_others E s u"
  by (induction rule: by_others.induct) (auto intro: by_others.intros)

lemma keeps_refl [simp, intro]: "keeps E store store"
  by (auto simp: keeps_def intro: by_others.same)

lemma keeps_trans: "keeps E a b \<Longrightarrow> keeps E b c \<Longrightarrow> keeps E a c"
  unfolding keeps_def by (meson by_others_trans)

lemma unique_keys_same: "unique_keys store \<Longrightarrow> s \<in> set store \<Longrightarrow> t \<in> set store \<Longrightarrow> trlp_key s = trlp_key t \<Longrightarrow> s = t"
  by (auto simp: unique_keys_def distinct_map inj_on_def)

lemma unique_keys_filter: "unique_keys store \<Longrightarrow> unique_keys (filter P store)"
  by (auto simp: unique_keys_def distinct_map inj_on_def)

lemma unique_keys_map:
  assumes "\<And>t. trlp_key (f t) = trlp_key t"
  shows "unique_keys (map f store) = unique_keys store"
  by (simp add: unique_keys_def comp_def assms)

text \<open>Deletion is by key, of what was listed and is managed.\<close>

lemma race_other: "t \<in> set store \<Longrightarrow> trlp_key t \<noteq> key \<Longrightarrow> t \<in> set (race E key store)"
  by (force simp: race_def)

lemma delete_loop_survivors:
  assumes "\<forall>p\<in>set ps. isManaged (tp_meta p) \<longrightarrow> trlp_key p \<noteq> trlp_key t" and "t \<in> set store"
  shows "t \<in> set (snd (delete_loop E ps store))"
  using assms
proof (induction ps arbitrary: store)
  case (Cons p ps)
  have "t \<in> set (race E (trlp_key p) store)" if "isManaged (tp_meta p)"
    using Cons.prems that by (intro race_other) auto
  with Cons show ?case by (auto simp: Let_def split: option.splits apiError.splits)
qed simp

lemma delete_loop_unique:
  assumes "others_keep E" and "unique_keys store"
  shows "unique_keys (snd (delete_loop E ps store))"
  using assms(2)
proof (induction ps arbitrary: store)
  case (Cons p ps)
  have "unique_keys (race E (trlp_key p) store) = unique_keys store"
    unfolding race_def using assms(1) by (intro unique_keys_map) (simp add: others_keep_def)
  with Cons show ?case by (auto simp: Let_def unique_keys_filter split: option.splits apiError.splits)
qed simp

lemma deleteModelTRLP_survivors:
  assumes "unique_keys store" and "t \<in> set store"
    and "opted_out t \<or> \<not> matches_labels (model_labels modelNamespace modelName) t"
  shows "t \<in> set (snd (deleteModelTRLP E modelNamespace modelName store))"
proof -
  have "\<forall>p\<in>set (filter (matches_labels (model_labels modelNamespace modelName)) store).
      isManaged (tp_meta p) \<longrightarrow> trlp_key p \<noteq> trlp_key t"
    using assms unique_keys_same [OF assms(1)] by (auto simp: opted_out_def)
  from delete_loop_survivors [OF this assms(2)] assms(2) show ?thesis
    by (auto simp: deleteModelTRLP_def split: option.splits apiError.splits)
qed

lemma deleteModelTRLP_keeps:
  assumes "others_keep E"
  shows "keeps E store (snd (deleteModelTRLP E modelNamespace modelName store))"
proof -
  have "unique_keys store \<longrightarrow> unique_keys (snd (deleteModelTRLP E modelNamespace modelName store))"
    using delete_loop_unique [OF assms] by (auto simp: deleteModelTRLP_def split: option.splits apiError.splits)
  then show ?thesis
    unfolding keeps_def by (blast intro: by_others.same deleteModelTRLP_survivors)
qed

lemma interfere_keeps:
  assumes "others_keep E"
  shows "keeps E store (interfere E key i store)"
proof -
  have "unique_keys (interfere E key i store) = unique_keys store"
    unfolding interfere_def using assms by (intro unique_keys_map) (simp add: others_keep_def)
  moreover have "\<exists>u\<in>set (interfere E key i store). by_others E t u \<and> opted_out u" if "t \<in> set store" "opted_out t" for t
  proof -
    let ?u = "if trlp_key t = key then ev_interfere E i t else t"
    have "?u \<in> set (interfere E key i store)" using that(1) by (auto simp: interfere_def)
    moreover have "by_others E t ?u" by (simp add: by_others.intros)
    moreover have "opted_out ?u" using assms that(2) by (simp add: others_keep_def)
    ultimately show ?thesis by blast
  qed
  ultimately show ?thesis unfolding keeps_def by blast
qed

lemma merge_policy_key [simp]: "trlp_key (merge_policy policy owners existing) = trlp_key existing"
  by (simp add: merge_policy_def trlp_key_def)

lemma get_trlp_Inr: "get_trlp E key store = Inr t \<Longrightarrow> t \<in> set store \<and> trlp_key t = key"
  by (auto simp: get_trlp_def find_Some_iff split: option.splits)

lemma put_trlp_keeps:
  assumes "u \<in> set store" and "isManaged (tp_meta u)" and "trlp_key t = trlp_key u"
  shows "keeps E store (put_trlp t store)"
proof -
  have "unique_keys (put_trlp t store) = unique_keys store"
    unfolding put_trlp_def by (rule unique_keys_map) simp
  moreover have "s \<in> set (put_trlp t store)" if "unique_keys store" "s \<in> set store" "opted_out s" for s
  proof -
    have "trlp_key s \<noteq> trlp_key t" using that assms unique_keys_same [OF that(1)] by (auto simp: opted_out_def)
    with that(2) show ?thesis by (force simp: put_trlp_def)
  qed
  ultimately show ?thesis unfolding keeps_def by (blast intro: by_others.same)
qed

lemma update_attempts_keeps:
  assumes "others_keep E"
  shows "keeps E store (snd (update_attempts E route policy n i store))"
proof (induction n arbitrary: i store)
  case (Suc n)
  let ?s = "interfere E (trlp_key policy) i store"
  have step: "keeps E store ?s" by (rule interfere_keeps [OF assms])
  have put: "keeps E ?s (put_trlp (merge_policy policy owners t) ?s)"
    if "get_trlp E (trlp_key policy) ?s = Inr t" "isManaged (tp_meta t)" for t owners
    using get_trlp_Inr [OF that(1)] that(2) by (intro put_trlp_keeps [of t]) auto
  have "keeps E ?s (snd (update_attempts E route policy (Suc n) i store))"
    using Suc.IH [of ?s "Suc i"] put by (simp add: Let_def split: sum.splits apiError.splits option.splits)
  with step show ?case by (rule keeps_trans)
qed simp

lemma create_trlp_keeps: "keeps E store (snd (create_trlp E policy store))"
proof -
  have "keeps E store (store @ [policy])" if "trlp_key policy \<notin> trlp_key ` set store"
    using that by (auto simp: keeps_def unique_keys_def intro: by_others.same)
  then show ?thesis by (simp add: create_trlp_def split: option.splits)
qed

lemma write_policy_keeps:
  assumes "others_keep E"
  shows "keeps E store (snd (write_policy E route policy store))"
  using create_trlp_keeps update_attempts_keeps [OF assms]
  by (simp add: write_policy_def updateExistingTRLP_def split: sum.splits apiError.splits)

lemma reconcileTRLPForModel_keeps:
  assumes "others_keep E"
  shows "keeps E store (snd (reconcileTRLPForModel L S c E epoch modelNamespace modelName store))"
proof -
  have "keeps E store (snd (apply_policy L c E epoch modelNamespace modelName routeName routeNS subs store))"
    for routeName routeNS subs
    using deleteModelTRLP_keeps [OF assms] write_policy_keeps [OF assms]
    by (simp add: apply_policy_def Let_def split: sum.splits)
  then show ?thesis
    using deleteModelTRLP_keeps [OF assms]
    by (simp add: reconcileTRLPForModel_def Let_def split: sum.splits apiError.splits prod.splits)
qed

lemma each_model_keeps:
  assumes "\<And>ns m s. keeps E s (snd (f ns m s))"
  shows "keeps E store (snd (each_model f seen refs store))"
proof (induction refs arbitrary: seen store)
  case (Cons r refs)
  let ?x = "f (msr_Namespace r) (msr_Name r) store"
  have "keeps E store (snd ?x)" by (rule assms)
  moreover have "keeps E (snd ?x) (snd (each_model f seen' refs (snd ?x)))" for seen' by (rule Cons.IH)
  ultimately have "keeps E store (snd (each_model f seen' refs (snd ?x)))" for seen' by (blast intro: keeps_trans)
  with Cons.IH \<open>keeps E store (snd ?x)\<close> show ?case
    by (cases ?x) (auto simp: Let_def split: option.splits)
qed simp

lemma stale_loop_keeps:
  assumes "others_keep E"
  shows "keeps E store (snd (stale_loop E sub ts store))"
proof (induction ts arbitrary: store)
  case (Cons t ts)
  obtain ns m where nm: "model_of_policy t = (ns, m)" by fastforce
  let ?x = "deleteModelTRLP E ns m store"
  have del: "keeps E store (snd ?x)" by (rule deleteModelTRLP_keeps [OF assms])
  with Cons.IH [of "snd ?x"] have "keeps E store (snd (stale_loop E sub ts (snd ?x)))" by (rule keeps_trans [rotated])
  with Cons.IH [of store] del nm show ?case
    by (cases ?x) (auto simp: Let_def split: option.splits)
qed simp

lemma cleanupStaleTRLPs_keeps:
  assumes "others_keep E"
  shows "keeps E store (snd (cleanupStaleTRLPs E sub store))"
  using stale_loop_keeps [OF assms] by (simp add: cleanupStaleTRLPs_def split: option.splits apiError.splits)

lemma reconcileTokenRateLimitPolicies_keeps:
  assumes "others_keep E"
  shows "keeps E store (snd (reconcileTokenRateLimitPolicies L S c E epoch sub store))"
proof -
  let ?x = "each_model (reconcileTRLPForModel L S c E epoch) [] (ms_ModelRefs sub) store"
  have "keeps E store (snd ?x)" by (rule each_model_keeps) (rule reconcileTRLPForModel_keeps [OF assms])
  moreover have "keeps E (snd ?x) (snd (cleanupStaleTRLPs E sub (snd ?x)))" by (rule cleanupStaleTRLPs_keeps [OF assms])
  ultimately show ?thesis
    by (cases ?x) (auto simp: reconcileTokenRateLimitPolicies_def split: option.splits intro: keeps_trans)
qed

section \<open>What a reconciliation leaves alone\<close>

lemma update_attempts_frame:
  assumes "t \<in> set store" and "trlp_key t \<noteq> trlp_key policy"
  shows "t \<in> set (snd (update_attempts E route policy n i store))"
  using assms(1)
proof (induction n arbitrary: i store)
  case (Suc n)
  let ?s = "interfere E (trlp_key policy) i store"
  have s: "t \<in> set ?s" using Suc.prems assms(2) by (force simp: interfere_def)
  have put: "t \<in> set (put_trlp (merge_policy policy owners u) ?s)"
    if "get_trlp E (trlp_key policy) ?s = Inr u" for u owners
    using get_trlp_Inr [OF that] s assms(2) by (force simp: put_trlp_def)
  show ?case
    using Suc.IH [OF s, of "Suc i"] put s by (auto simp: Let_def split: sum.splits apiError.splits option.splits)
qed simp

lemma write_policy_frame:
  assumes "t \<in> set store" and "trlp_key t \<noteq> trlp_key policy"
  shows "t \<in> set (snd (write_policy E route policy store))"
  using assms update_attempts_frame [OF assms]
  by (simp add: write_policy_def updateExistingTRLP_def create_trlp_def split: sum.splits apiError.splits option.splits)

lemma desired_policy_key [simp]:
  "trlp_key (desired_policy L modelNamespace modelName routeName routeNS gateway owners subs) = (routeNS, ''maas-trlp-'' @ modelName)"
  by (simp add: desired_policy_def trlp_key_def split: prod.splits)

lemma reconcileTRLPForModel_frame:
  assumes "unique_keys store" and "t \<in> set store"
    and "\<not> matches_labels (model_labels modelNamespace modelName) t"
    and "\<And>routeName routeNS. findHTTPRouteForModel L c modelNamespace modelName = Inr (routeName, routeNS) \<Longrightarrow>
      trlp_key t \<noteq> (routeNS, ''maas-trlp-'' @ modelName)"
  shows "t \<in> set (snd (reconcileTRLPForModel L S c E epoch modelNamespace modelName store))"
proof -
  have del: "t \<in> set (snd (deleteModelTRLP E modelNamespace modelName store))"
    using assms(1-3) by (intro deleteModelTRLP_survivors) auto
  have "t \<in> set (snd (apply_policy L c E epoch modelNamespace modelName routeName routeNS subs store))"
    if "findHTTPRouteForModel L c modelNamespace modelName = Inr (routeName, routeNS)" for routeName routeNS subs
    using del assms(2) write_policy_frame [OF assms(2)] assms(4) [OF that]
    by (simp add: apply_policy_def Let_def split: sum.splits)
  then show ?thesis
    using del assms(2)
    by (simp add: reconcileTRLPForModel_def Let_def split: sum.splits apiError.splits prod.splits)
qed

section \<open>What a successful reconciliation writes\<close>

text \<open>The policy \<open>t\<close> in the cluster carries what the generated policy \<open>p\<close> says.\<close>

definition carries :: "trlp \<Rightarrow> trlp \<Rightarrow> bool" where
  "carries p t \<longleftrightarrow> tp_Limits t = tp_Limits p \<and> tp_Target t = tp_Target p \<and>
     om_Annotations (tp_meta p) \<subseteq>\<^sub>m om_Annotations (tp_meta t) \<and> om_Labels (tp_meta p) \<subseteq>\<^sub>m om_Labels (tp_meta t)"

lemma carries_merge: "carries p (merge_policy p owners t)"
  by (simp add: carries_def merge_policy_def)

definition managed_at :: "nsname \<Rightarrow> trlp list \<Rightarrow> bool" where
  "managed_at key store \<longleftrightarrow> (\<forall>t\<in>set store. trlp_key t = key \<longrightarrow> isManaged (tp_meta t))"

definition others_leave_managed :: "trlpEnv \<Rightarrow> bool" where
  "others_leave_managed E \<longleftrightarrow>
     (\<forall>i t. trlp_key (ev_interfere E i t) = trlp_key t \<and> (isManaged (tp_meta t) \<longrightarrow> isManaged (tp_meta (ev_interfere E i t))))"

lemma update_attempts_written:
  assumes "others_leave_managed E" and "managed_at (trlp_key policy) store"
    and "update_attempts E route policy n i store = (None, store')"
  shows "\<exists>t\<in>set store'. trlp_key t = trlp_key policy \<and> carries policy t"
  using assms(2,3)
proof (induction n arbitrary: i store)
  case (Suc n)
  let ?s = "interfere E (trlp_key policy) i store"
  have man: "managed_at (trlp_key policy) ?s"
    using Suc.prems(1) assms(1) by (auto simp: managed_at_def interfere_def others_leave_managed_def)
  show ?case
  proof (cases "get_trlp E (trlp_key policy) ?s")
    case (Inl e)
    with Suc.prems(2) Suc.IH [OF man] show ?thesis by (cases e) (auto simp: Let_def)
  next
    case (Inr u)
    from get_trlp_Inr [OF this] man have u: "u \<in> set ?s" "trlp_key u = trlp_key policy" "isManaged (tp_meta u)"
      by (auto simp: managed_at_def)
    obtain owners where owners: "setHTTPRouteControllerOwner E route (tp_Owners u) = Inr owners"
      using Suc.prems(2) Inr u(3) by (simp add: Let_def split: sum.splits)
    have "(if merge_policy policy owners u = u then (None, ?s)
        else if ev_conflict E i then update_attempts E route policy n (Suc i) ?s
        else (case ev_update E of Some e \<Rightarrow> (Some (UpdateFailed e), ?s) | None \<Rightarrow> (None, put_trlp (merge_policy policy owners u) ?s)))
      = (None, store')"
      using Suc.prems(2) Inr u(3) owners by (simp add: Let_def)
    then consider (same) "merge_policy policy owners u = u" "store' = ?s"
      | (retry) "update_attempts E route policy n (Suc i) ?s = (None, store')"
      | (put) "store' = put_trlp (merge_policy policy owners u) ?s"
      by (cases "merge_policy policy owners u = u"; cases "ev_conflict E i"; cases "ev_update E") auto
    then show ?thesis
    proof cases
      case same with u carries_merge [of policy owners u] show ?thesis by auto
    next
      case retry then show ?thesis by (rule Suc.IH [OF man])
    next
      case put
      then have "merge_policy policy owners u \<in> set store'" using u(1) by (force simp: put_trlp_def)
      then show ?thesis
        using carries_merge [of policy owners u] u(2) by (intro bexI [of _ "merge_policy policy owners u"]) simp_all
    qed
  qed
qed simp

lemma write_policy_written:
  assumes "others_leave_managed E" and "managed_at (trlp_key policy) store"
    and "write_policy E route policy store = (None, store')"
  shows "\<exists>t\<in>set store'. trlp_key t = trlp_key policy \<and> carries policy t"
proof (cases "get_trlp E (trlp_key policy) store")
  case (Inl e)
  with assms(3) have "store' = store @ [policy]"
    by (auto simp: write_policy_def create_trlp_def split: apiError.splits option.splits if_splits)
  then show ?thesis by (simp add: carries_def)
next
  case (Inr t)
  with assms update_attempts_written [OF assms(1,2), of route "ev_steps E" 0] show ?thesis
    by (simp add: write_policy_def updateExistingTRLP_def)
qed

lemma member_of_well_formed: "member_of epoch ns m sub refs = Some si \<Longrightarrow> well_formed_member si"
proof (induction refs)
  case (Cons r refs)
  show ?case
  proof (cases "msr_Namespace r = ns \<and> msr_Name r = m \<and> (\<exists>rates unlimited. modelRefTokenRates r = Inr (rates, unlimited))")
    case True
    then obtain rates unlimited where r: "modelRefTokenRates r = Inr (rates, unlimited)" by blast
    with Cons.prems True modelRefTokenRates_Inr [OF r] show ?thesis
      by (auto simp: well_formed_member_def split: if_splits)
  next
    case False
    with Cons show ?thesis by (auto split: if_splits sum.splits)
  qed
qed simp

lemma collectMembers_well_formed: "list_all well_formed_member (collectMembers epoch ns m subs)"
  by (auto simp: collectMembers_def List.map_filter_def list_all_iff intro: member_of_well_formed)

section \<open>Which tenants a policy serves\<close>

definition admitted :: "settings \<Rightarrow> cluster \<Rightarrow> string \<Rightarrow> string \<Rightarrow> string \<Rightarrow> bool" where
  "admitted S c routeName routeNS ns =
     (case tenantGatewayRefForNamespace S c ns of
        Inl _ \<Rightarrow> False
      | Inr ref \<Rightarrow> validateHTTPRouteReferencesGateway c routeName routeNS ref = None)"

definition plain_ref :: "gatewayRef \<Rightarrow> bool" where
  "plain_ref ref \<longleftrightarrow> CHR ''/'' \<notin> set (gw_Name ref) \<and> CHR ''/'' \<notin> set (gw_Namespace ref)"

definition plain_gateways :: "settings \<Rightarrow> cluster \<Rightarrow> bool" where
  "plain_gateways S c \<longleftrightarrow> (\<forall>ns ref. tenantGatewayRefForNamespace S c ns = Inr ref \<longrightarrow> plain_ref ref)"

lemma qualifiedName_inject:
  assumes "qualifiedName (gw_Namespace a) (gw_Name a) = qualifiedName (gw_Namespace b) (gw_Name b)"
    and "plain_ref a" and "plain_ref b"
  shows "a = b"
proof -
  have "gw_Namespace a = gw_Namespace b \<and> gw_Name a = gw_Name b"
    using assms split_first [of "gw_Namespace a" "CHR ''/''" "gw_Name a" "gw_Namespace b" "gw_Name b"]
    by (auto simp: qualifiedName_def plain_ref_def split: if_splits) (metis in_set_conv_decomp)+
  then show ?thesis by simp
qed

text \<open>The answers remembered so far are right.\<close>

definition gateway_inv :: "settings \<Rightarrow> cluster \<Rightarrow> string \<Rightarrow> string \<Rightarrow> gatewayState \<Rightarrow> bool" where
  "gateway_inv S c routeName routeNS st =
     (case st of (seen, gateways, skipped) \<Rightarrow>
        set skipped = {ns \<in> set seen. \<not> admitted S c routeName routeNS ns} \<and>
        (\<forall>key ok. gateways key = Some ok \<longrightarrow>
          (\<exists>ref. plain_ref ref \<and> key = qualifiedName (gw_Namespace ref) (gw_Name ref) \<and>
             ok = (validateHTTPRouteReferencesGateway c routeName routeNS ref = None))))"

lemma check_namespace_inv:
  assumes "plain_gateways S c" and "gateway_inv S c routeName routeNS (seen, gateways, skipped)"
    and "check_namespace S c routeName routeNS sub (seen, gateways, skipped) = Inr (seen', gateways', skipped')"
  shows "gateway_inv S c routeName routeNS (seen', gateways', skipped') \<and> set seen' = insert (om_Namespace (ms_meta sub)) (set seen)"
proof (cases "om_Namespace (ms_meta sub) \<in> set seen")
  case True
  with assms(2,3) show ?thesis by (auto simp: check_namespace_def Let_def)
next
  case new: False
  let ?ns = "om_Namespace (ms_meta sub)"
  show ?thesis
  proof (cases "tenantGatewayRefForNamespace S c ?ns")
    case (Inl e)
    with new assms(2,3) show ?thesis
      by (auto simp: check_namespace_def Let_def gateway_inv_def admitted_def split: tenantError.splits)
  next
    case (Inr ref)
    let ?key = "qualifiedName (gw_Namespace ref) (gw_Name ref)"
    have plain: "plain_ref ref" using assms(1) Inr by (auto simp: plain_gateways_def)
    have known: "ok = (validateHTTPRouteReferencesGateway c routeName routeNS ref = None)" if "gateways ?key = Some ok" for ok
      using assms(2) that qualifiedName_inject [OF _ plain] by (auto simp: gateway_inv_def) metis+
    have adm: "admitted S c routeName routeNS ?ns = (validateHTTPRouteReferencesGateway c routeName routeNS ref = None)"
      by (simp add: admitted_def Inr)
    show ?thesis
      using new assms(2,3) Inr known adm plain
      by (auto simp: check_namespace_def Let_def gateway_inv_def split: option.splits gatewayError.splits if_splits)
        (rule exI [of _ ref], simp)
  qed
qed

lemma check_namespaces_inv:
  assumes "plain_gateways S c" and "gateway_inv S c routeName routeNS st"
    and "fold_res (check_namespace S c routeName routeNS) subs st = Inr st'"
  shows "gateway_inv S c routeName routeNS st' \<and>
    set (fst st') = (\<lambda>s. om_Namespace (ms_meta s)) ` set subs \<union> set (fst st)"
  using assms(2,3)
proof (induction subs arbitrary: st)
  case (Cons s subs)
  obtain st1 where st1: "check_namespace S c routeName routeNS s st = Inr st1"
    "fold_res (check_namespace S c routeName routeNS) subs st1 = Inr st'"
    using Cons.prems(2) by (auto split: sum.splits)
  with check_namespace_inv [OF assms(1), of routeName routeNS "fst st" "fst (snd st)" "snd (snd st)" s "fst st1" "fst (snd st1)" "snd (snd st1)"]
    Cons.prems(1) have "gateway_inv S c routeName routeNS st1" "set (fst st1) = insert (om_Namespace (ms_meta s)) (set (fst st))"
    by simp_all
  with Cons.IH [OF _ st1(2)] show ?case by auto
qed simp

section \<open>A cluster with one model\<close>

definition ex_meta :: "string \<Rightarrow> string \<Rightarrow> objectMeta" where
  "ex_meta ns name = \<lparr>om_Name = name, om_Namespace = ns, om_UID = [], om_Labels = Map.empty, om_Annotations = Map.empty,
     om_Finalizers = [], om_Deleting = False, om_Generation = 1, om_Created = None\<rparr>"

definition ex_ref :: modelSubscriptionRef where
  "ex_ref = \<lparr>msr_Name = ''n'', msr_Namespace = ''m'', msr_TokenRateLimits = [], msr_Unlimited = True\<rparr>"

definition ex_maasSub :: "string \<Rightarrow> string \<Rightarrow> maasSubscription" where
  "ex_maasSub ns name = \<lparr>ms_meta = ex_meta ns name, ms_ModelRefs = [ex_ref], ms_Priority = 0, ms_InferencePriority = None, ms_RateLimitIdentity = [], ms_OtherSpec = True,
     ms_Phase = [], ms_Conditions = [], ms_StatusRateLimitIdentity = [], ms_ModelRefStatuses = [], ms_TokenRateLimitStatuses = [],
     ms_FlowControlStatuses = []\<rparr>"

definition ex_route :: httpRoute where
  "ex_route = \<lparr>hr_Name = ''r'', hr_Namespace = ''m'', hr_UID = ''u'', hr_ParentRefs =
     [\<lparr>pref_Name = ''g'', pref_Namespace = Some ''gn'', pref_Kind = None, pref_Group = None\<rparr>]\<rparr>"

text \<open>Namespace \<open>t\<close> is the default tenant, \<open>x\<close> a discovered tenant with a gateway of its own.\<close>

definition ex_cluster :: cluster where
  "ex_cluster =
     \<lparr>cl_Subscriptions = (\<lambda>_. Inr [ex_maasSub ''t'' ''s'', ex_maasSub ''x'' ''s'']),
      cl_Model = (\<lambda>_ _. Inr \<lparr>mm_meta = ex_meta ''m'' ''n'', mm_Kind = ''LLMInferenceService'', mm_RefName = ''n'',
        mm_GatewayName = [], mm_GatewayNamespace = []\<rparr>),
      cl_RouterRoutes = (\<lambda>_ _. Inr [ex_route]), cl_Route = (\<lambda>_ _. Inr ex_route),
      cl_ExternalModel = (\<lambda>_ _. Inl ApiNotFound),
      cl_Namespace = (\<lambda>_. Inr [LabelAIGatewayTenant \<mapsto> ''x'']),
      cl_TenantConfig = (\<lambda>_. Inl ApiNotFound),
      cl_LegacyTenant = (\<lambda>ns. if ns = ''x'' then Inr \<lparr>to_meta = ex_meta ''x'' ''default-tenant'', to_Legacy = True,
        to_GatewayRef = \<lparr>gw_Name = ''h'', gw_Namespace = ''gn''\<rparr>\<rparr> else Inl ApiNotFound),
      cl_LLMInferenceService = (\<lambda>_ _. Inl ApiNotFound),
      cl_AITenantGateway = (\<lambda>_ _. Inl ApiNotFound)\<rparr>"

definition ex_settings :: settings where
  "ex_settings = \<lparr>st_DefaultTenantNamespace = ''t'', st_Discovery = True, st_GatewayName = ''g'', st_GatewayNamespace = ''gn'',
     st_AppNamespace = ''app''\<rparr>"

definition ex_env :: trlpEnv where
  "ex_env = \<lparr>ev_get = (\<lambda>_. None), ev_list = None, ev_create = None, ev_delete = (\<lambda>_. None), ev_update = None, ev_steps = 4,
     ev_interfere = (\<lambda>i t. t\<lparr>tp_Status := [(''round'', JStr (Itoa i))]\<rparr>), ev_conflict = (\<lambda>i. i = 0), ev_race = (\<lambda>t. t),
     ev_setController = (\<lambda>route owners. Inr (owners @ [\<lparr>or_Controller = True, or_APIVersion = ''gateway.networking.k8s.io/v1'',
       or_Kind = ''HTTPRoute'', or_Name = hr_Name route, or_UID = hr_UID route\<rparr>]))\<rparr>"

definition ex_policy :: "string \<Rightarrow> labelMap \<Rightarrow> trlp" where
  "ex_policy name annotations = \<lparr>tp_meta = (ex_meta ''m'' name)\<lparr>om_Annotations := annotations, om_Labels := map_of (model_labels ''m'' ''n'')\<rparr>,
     tp_Owners = [], tp_Target = ''r'', tp_Limits = Map.empty, tp_Status = []\<rparr>"

section \<open>The policies of a model\<close>

text \<open>
  C33. A policy that is opted out when a reconciliation of a subscription starts is out of its
  reach: with any failures of the API server, any number of lost races on updates and any
  writes between a listing and the deletions that follow it, every policy annotated
  \<open>opendatahub.io/managed: "false"\<close> at the start is still there at the end, changed by nobody
  but the other writers, provided that these neither rename it nor opt it in again; and names
  stay unique. (A policy opted out only after it was listed for deletion is deleted all the
  same, see \<open>late_opt_out_deleted\<close>.)
\<close>

theorem opted_out_policies_untouched:
  assumes "unique_keys store" and "others_keep E" and "t \<in> set store" and "opted_out t"
    and "store' = snd (reconcileTokenRateLimitPolicies L S c E epoch sub store)"
  shows "unique_keys store' \<and> (\<exists>u\<in>set store'. by_others E t u \<and> opted_out u)"
  using reconcileTokenRateLimitPolicies_keeps [OF assms(2), of store L S c epoch sub] assms
  unfolding keeps_def by blast

lemma ex_env_others [simp]: "others_keep ex_env" "others_leave_managed ex_env"
  by (simp_all add: others_keep_def others_leave_managed_def ex_env_def opted_out_def trlp_key_def)

theorem opted_out_policies_untouched_witness:
  "\<exists>u\<in>set (snd (reconcileTokenRateLimitPolicies example_libs ex_settings ex_cluster ex_env 0 (ex_maasSub ''t'' ''s'')
       [ex_policy ''maas-trlp-n'' [AnnotationManaged \<mapsto> ''false'']])). opted_out u"
proof -
  let ?t = "ex_policy ''maas-trlp-n'' [AnnotationManaged \<mapsto> ''false'']"
  have "opted_out ?t" by (simp add: opted_out_def isManaged_def ex_policy_def ex_meta_def)
  moreover have "unique_keys [?t]" by (simp add: unique_keys_def)
  ultimately show ?thesis using opted_out_policies_untouched [OF _ ex_env_others(1) _ _ refl, of "[?t]" ?t
        example_libs ex_settings ex_cluster 0 "ex_maasSub ''t'' ''s''"] by auto
qed

text \<open>
  The annotation is read from the listed copy only: a policy that its owner opts out between
  the listing and the deletion is deleted.
\<close>

lemma late_opt_out_deleted:
  assumes "ev_race E = (\<lambda>t. t\<lparr>tp_meta := (tp_meta t)\<lparr>om_Annotations := [AnnotationManaged \<mapsto> ''false'']\<rparr>\<rparr>)"
    and "ev_list E = None" and "ev_delete E (trlp_key t) = None"
    and "isManaged (tp_meta t)" and "matches_labels (model_labels modelNamespace modelName) t"
  shows "opted_out (ev_race E t) \<and> deleteModelTRLP E modelNamespace modelName [t] = (None, [])"
proof
  have "trlp_key (ev_race E t) = trlp_key t" by (simp add: assms(1) trlp_key_def)
  with assms show "deleteModelTRLP E modelNamespace modelName [t] = (None, [])"
    by (simp add: deleteModelTRLP_def race_def)
  show "opted_out (ev_race E t)" by (simp add: assms(1) opted_out_def isManaged_def)
qed

text \<open>
  C34. What a successful reconciliation of a model writes. Suppose the route of the model is
  found, members remain after the tenant and gateway checks, the policy under the name to
  write, if there is one, is not opted out, and the other writers leave it managed. Then
  after a reconciliation without an error the policy named after the model in the
  namespace of its route targets that route, has exactly the limits built from the
  members, names them in its annotation and has the labels by which it is found for deletion;
  this holds for every number of lost races. A policy of another name that does not carry the
  labels of the model is left as it is. (Without a route or members, and for an opted-out
  policy, a successful reconciliation writes nothing or deletes.)
\<close>

theorem reconcileTRLPForModel_writes:
  assumes "reconcileTRLPForModel L S c E epoch modelNamespace modelName store = (None, store')"
    and "findAllSubscriptionsForModel c modelNamespace modelName = Inr listed"
    and "findHTTPRouteForModel L c modelNamespace modelName = Inr (routeName, routeNS)"
    and "validateSubscriptionTenantGatewaysForRoute S c routeName routeNS (filterSubscriptionsByTenantNamespace S c listed) = Inr subs"
    and "collectMembers epoch modelNamespace modelName subs = members" and "members \<noteq> []"
    and "managed_at (routeNS, ''maas-trlp-'' @ modelName) store" and "others_leave_managed E" and "unique_keys store"
  shows "(\<exists>t\<in>set store'. trlp_key t = (routeNS, ''maas-trlp-'' @ modelName) \<and> tp_Target t = routeName \<and>
      tp_Limits t = fst (buildGroupedLimits L members) \<and> list_all well_formed_member members \<and>
      om_Annotations (tp_meta t) AnnotationSubscriptions = Some (Join (snd (buildGroupedLimits L members)) '','') \<and>
      matches_labels (model_labels modelNamespace modelName) t) \<and>
    (\<forall>t. t \<in> set store \<and> trlp_key t \<noteq> (routeNS, ''maas-trlp-'' @ modelName) \<and>
       \<not> matches_labels (model_labels modelNamespace modelName) t \<longrightarrow> t \<in> set store')"
proof
  have "subs \<noteq> []" using assms(5,6) by (auto simp: collectMembers_def List.map_filter_def)
  then have "apply_policy L c E epoch modelNamespace modelName routeName routeNS subs store = (None, store')"
    using assms(1,7) unfolding reconcileTRLPForModel_def assms(2,3) Let_def assms(4) sum.case prod.case
    by (auto simp: managed_at_def split: sum.splits apiError.splits if_splits dest: get_trlp_Inr)
  then obtain route gateway owners where
    "write_policy E route (desired_policy L modelNamespace modelName routeName routeNS gateway owners members) store = (None, store')"
    using assms(5,6) by (auto simp: apply_policy_def Let_def split: sum.splits)
  from write_policy_written [OF assms(8) _ this] assms(7)
  obtain t where t: "t \<in> set store'" "trlp_key t = (routeNS, ''maas-trlp-'' @ modelName)"
    "carries (desired_policy L modelNamespace modelName routeName routeNS gateway owners members) t"
    by auto
  have "list_all (\<lambda>(k, v). policy_labels modelNamespace modelName gateway k = Some v) (model_labels modelNamespace modelName)"
    by (auto simp: policy_labels_def model_labels_def Let_def split: option.splits)
  moreover have "policy_labels modelNamespace modelName gateway \<subseteq>\<^sub>m om_Labels (tp_meta t)"
    using t(3) by (simp add: carries_def desired_policy_def split: prod.splits)
  ultimately have "matches_labels (model_labels modelNamespace modelName) t"
    unfolding matches_labels_def list_all_iff by (auto simp: map_le_def dom_def)
  moreover have "tp_Target t = routeName" "tp_Limits t = fst (buildGroupedLimits L members)"
    "om_Annotations (tp_meta t) AnnotationSubscriptions = Some (Join (snd (buildGroupedLimits L members)) '','')"
    using t(3) by (auto simp: carries_def desired_policy_def map_le_def split: prod.splits)
  ultimately show "\<exists>t\<in>set store'. trlp_key t = (routeNS, ''maas-trlp-'' @ modelName) \<and> tp_Target t = routeName \<and>
      tp_Limits t = fst (buildGroupedLimits L members) \<and> list_all well_formed_member members \<and>
      om_Annotations (tp_meta t) AnnotationSubscriptions = Some (Join (snd (buildGroupedLimits L members)) '','') \<and>
      matches_labels (model_labels modelNamespace modelName) t"
    using t(1,2) collectMembers_well_formed assms(5) by blast
next
  show "\<forall>t. t \<in> set store \<and> trlp_key t \<noteq> (routeNS, ''maas-trlp-'' @ modelName) \<and>
       \<not> matches_labels (model_labels modelNamespace modelName) t \<longrightarrow> t \<in> set store'"
    using reconcileTRLPForModel_frame [OF assms(9), of _ modelNamespace modelName L c S E epoch] assms(1,3) by auto
qed

definition ex_other :: trlp where
  "ex_other = (ex_policy ''maas-trlp-k'' Map.empty)\<lparr>tp_meta := (ex_meta ''m'' ''maas-trlp-k'')\<lparr>om_Labels := map_of (model_labels ''m'' ''k'')\<rparr>\<rparr>"

lemma ex_findHTTPRoute: "findHTTPRouteForModel example_libs ex_cluster ''m'' ''n'' = Inr (''r'', ''m'')" by code_simp

lemma ex_listed: "findAllSubscriptionsForModel ex_cluster ''m'' ''n'' = Inr [ex_maasSub ''t'' ''s'', ex_maasSub ''x'' ''s'']"
  by (simp add: findAllSubscriptionsForModel_def ex_cluster_def ex_maasSub_def ex_meta_def)

lemma ex_tenants:
  "filterSubscriptionsByTenantNamespace ex_settings ex_cluster [ex_maasSub ''t'' ''s'', ex_maasSub ''x'' ''s''] =
     [ex_maasSub ''t'' ''s'', ex_maasSub ''x'' ''s'']"
  by (simp add: isTenantNamespace_def tenantNamespaceAllowed_def ex_settings_def ex_cluster_def ex_maasSub_def ex_meta_def
      namespaceHasTenantDiscoveryLabel_def label_value_def)

lemma ex_gateways:
  "validateSubscriptionTenantGatewaysForRoute ex_settings ex_cluster ''r'' ''m'' [ex_maasSub ''t'' ''s'', ex_maasSub ''x'' ''s''] =
     Inr [ex_maasSub ''t'' ''s'']"
  by (simp add: validateSubscriptionTenantGatewaysForRoute_def check_namespace_def tenantGatewayRefForNamespace_def
      fetchTenantForNamespace_def ResolvePlatformContext_def fallbackTenantGatewayRef_def ex_cluster_def ex_settings_def
      ex_meta_def ex_maasSub_def isAITenantManagedTenantConfig_def label_value_def validateHTTPRouteReferencesGateway_def
      ex_route_def parentRefTargetsGateway_def maxHTTPRouteParentRefs_def qualifiedName_def bind_res_def Let_def)

lemma ex_members: "map si_subName (collectMembers 0 ''m'' ''n'' [ex_maasSub ''t'' ''s'']) = [''s'']"
  by code_simp

lemma ex_names: "snd (buildGroupedLimits example_libs (collectMembers 0 ''m'' ''n'' [ex_maasSub ''t'' ''s''])) = [''t/s'']"
  by code_simp

lemma ex_run: "fst (reconcileTRLPForModel example_libs ex_settings ex_cluster ex_env 0 ''m'' ''n'' [ex_other]) = None"
proof -
  have "collectMembers 0 ''m'' ''n'' [ex_maasSub ''t'' ''s''] \<noteq> []" using ex_members by auto
  then show ?thesis
    unfolding reconcileTRLPForModel_def ex_listed sum.case ex_tenants ex_findHTTPRoute prod.case ex_gateways Let_def
    by (simp add: get_trlp_def ex_env_def ex_other_def ex_policy_def ex_meta_def trlp_key_def apply_policy_def ex_cluster_def
        gatewayIdentityForTRLP_def selectedGatewayForModel_def bind_res_def setHTTPRouteControllerOwner_def Let_def
        write_policy_def create_trlp_def desired_policy_def split: prod.splits)
qed

theorem reconcileTRLPForModel_writes_witness:
  "\<exists>store' t. reconcileTRLPForModel example_libs ex_settings ex_cluster ex_env 0 ''m'' ''n'' [ex_other] = (None, store') \<and>
     t \<in> set store' \<and> trlp_key t = (''m'', ''maas-trlp-n'') \<and> tp_Target t = ''r'' \<and>
     om_Annotations (tp_meta t) AnnotationSubscriptions = Some ''t/s'' \<and> ex_other \<in> set store'"
proof -
  obtain store' where run: "reconcileTRLPForModel example_libs ex_settings ex_cluster ex_env 0 ''m'' ''n'' [ex_other] = (None, store')"
    using ex_run by (metis prod.collapse)
  have ne: "collectMembers 0 ''m'' ''n'' [ex_maasSub ''t'' ''s''] \<noteq> []" using ex_members by auto
  have other: "managed_at (''m'', ''maas-trlp-'' @ ''n'') [ex_other]" "unique_keys [ex_other]"
    "trlp_key ex_other \<noteq> (''m'', ''maas-trlp-'' @ ''n'')" "\<not> matches_labels (model_labels ''m'' ''n'') ex_other"
    by (simp_all add: managed_at_def unique_keys_def ex_other_def ex_policy_def ex_meta_def trlp_key_def matches_labels_def
        model_labels_def)
  have valid: "validateSubscriptionTenantGatewaysForRoute ex_settings ex_cluster ''r'' ''m''
      (filterSubscriptionsByTenantNamespace ex_settings ex_cluster [ex_maasSub ''t'' ''s'', ex_maasSub ''x'' ''s'']) =
      Inr [ex_maasSub ''t'' ''s'']"
    unfolding ex_tenants by (rule ex_gateways)
  note W = reconcileTRLPForModel_writes [OF run ex_listed ex_findHTTPRoute valid refl ne
      other(1) ex_env_others(2) other(2)]
  show ?thesis using W [unfolded ex_names] other(3,4) run by (auto simp: Join.simps)
qed

text \<open>
  A policy serves only tenants of its gateway. With resource names free of slashes, the
  subscriptions that remain for a route are exactly those of the tenants whose gateway is a
  parent of the route, in the listed order: remembering answers by namespace and by gateway
  changes nothing, and no subscription of another tenant's gateway contributes limits.
\<close>

theorem tenant_gateways_exact:
  assumes "plain_gateways S c"
    and "validateSubscriptionTenantGatewaysForRoute S c routeName routeNS subs = Inr valid"
  shows "valid = filter (\<lambda>sub. admitted S c routeName routeNS (om_Namespace (ms_meta sub))) subs"
proof -
  obtain seen gateways skipped where st: "fold_res (check_namespace S c routeName routeNS) subs ([], Map.empty, []) = Inr (seen, gateways, skipped)"
    and valid: "valid = filter (\<lambda>sub. om_Namespace (ms_meta sub) \<notin> set skipped) subs"
    using assms(2) by (auto simp: validateSubscriptionTenantGatewaysForRoute_def bind_res_eq_Inr_iff)
  have "gateway_inv S c routeName routeNS ([], Map.empty, [])" by (simp add: gateway_inv_def)
  from check_namespaces_inv [OF assms(1) this st] show ?thesis
    unfolding valid by (intro filter_cong) (auto simp: gateway_inv_def)
qed

lemma ex_plain: "plain_gateways ex_settings ex_cluster"
  by (auto simp: plain_gateways_def plain_ref_def tenantGatewayRefForNamespace_def fetchTenantForNamespace_def
      ResolvePlatformContext_def fallbackTenantGatewayRef_def ex_cluster_def ex_settings_def ex_meta_def
      isAITenantManagedTenantConfig_def label_value_def split: if_splits sum.splits)

theorem tenant_gateways_exact_witness:
  "validateSubscriptionTenantGatewaysForRoute ex_settings ex_cluster ''r'' ''m'' [ex_maasSub ''t'' ''s'', ex_maasSub ''x'' ''s''] =
     Inr [ex_maasSub ''t'' ''s''] \<and>
   filter (\<lambda>sub. admitted ex_settings ex_cluster ''r'' ''m'' (om_Namespace (ms_meta sub))) [ex_maasSub ''t'' ''s'', ex_maasSub ''x'' ''s''] =
     [ex_maasSub ''t'' ''s'']"
  using tenant_gateways_exact [OF ex_plain ex_gateways] ex_gateways by simp

end
