(* ===== verification/InferenceObjectives.thy ===== *)
theory InferenceObjectives
  imports TrlpReconcile
begin

text \<open>
  Request priority of a subscription (\<open>maassubscription_inferenceobjective.go\<close>): the
  InferencePool behind each model, the name of its InferenceObjective, and creation, update,
  observation and removal of the objectives. The state is the list of objectives in the
  cluster. The API server's answers to the writes and \<open>kmeta.ChildName\<close> are the argument
  \<open>ioEnv\<close>. Events and the texts of messages are left out; reasons are kept.
\<close>

section \<open>Names\<close>

record ioEnv =
  ie_unavailable :: bool
  ie_childName :: "string \<Rightarrow> string \<Rightarrow> string"
  ie_get :: "nsname \<Rightarrow> apiError option"
  ie_create :: "nsname \<Rightarrow> apiError option"
  ie_update :: "nsname \<Rightarrow> apiError option"
  ie_delete :: "nsname \<Rightarrow> apiError option"
  ie_list :: "apiError option"

definition inferenceObjectiveNameHashLength :: nat where
  "inferenceObjectiveNameHashLength = 10"

definition inferenceObjectiveIdentity :: "string \<Rightarrow> nsname \<Rightarrow> nsname \<Rightarrow> string" where
  "inferenceObjectiveIdentity tenantName subscription pool =
     Join [tenantName, fst subscription, snd subscription, fst pool, snd pool] [CHR 0x00]"

definition inferenceObjectiveName :: "libs \<Rightarrow> ioEnv \<Rightarrow> string \<Rightarrow> nsname \<Rightarrow> nsname \<Rightarrow> string" where
  "inferenceObjectiveName L E tenantName subscription pool =
     (let hash = take inferenceObjectiveNameHashLength (sha256hex L (inferenceObjectiveIdentity tenantName subscription pool));
          parent = Join [''maas'', tenantName, snd subscription, snd pool] ''-''
      in ie_childName E parent (''-'' @ hash))"

definition flowControlTenantName :: "cluster \<Rightarrow> string \<Rightarrow> tenantError + string" where
  "flowControlTenantName c namespace =
     (case fetchTenantForNamespace c namespace of
        Inr tenant \<Rightarrow> TenantNameFor tenant
      | Inl ApiNotFound \<Rightarrow> Inr DefaultAITenantName
      | Inl ApiNoMatch \<Rightarrow> Inr DefaultAITenantName
      | Inl e \<Rightarrow> Inl (TenantApi e))"

section \<open>The pool behind a model\<close>

definition llmisvcReadyStatus :: "llmInferenceService \<Rightarrow> string" where
  "llmisvcReadyStatus l =
     (case find (\<lambda>cond. cd_Type cond = ''Ready'') (lm_Conditions l) of None \<Rightarrow> [] | Some cond \<Rightarrow> cd_Status cond)"

definition activeRoutingGroupMembers :: "(bool \<times> int) list \<Rightarrow> nat" where
  "activeRoutingGroupMembers members = length (filter (\<lambda>(stopped, weight). \<not> stopped \<and> weight > 0) members)"

datatype poolResolution =
    PoolFound inferencePoolRef
  | poolResolutionPending
  | poolResolutionNotApplicable
  | poolResolutionUnsupported

definition default_pool :: "inferencePoolRef \<Rightarrow> inferencePoolRef" where
  "default_pool p =
     p\<lparr>ip_Group := (if ip_Group p = [] then ''inference.networking.k8s.io'' else ip_Group p),
       ip_Kind := (if ip_Kind p = [] then ''InferencePool'' else ip_Kind p)\<rparr>"

definition resolveModelInferencePool :: "cluster \<Rightarrow> string \<Rightarrow> string \<Rightarrow> apiError + poolResolution" where
  "resolveModelInferencePool c modelNamespace modelName =
     (case cl_Model c modelNamespace modelName of
        Inl ApiNotFound \<Rightarrow> Inr poolResolutionPending
      | Inl e \<Rightarrow> Inl e
      | Inr model \<Rightarrow>
        if mm_Kind model \<noteq> ''LLMInferenceService'' then Inr poolResolutionNotApplicable
        else
          (case cl_LLMInferenceService c (om_Namespace (mm_meta model)) (mm_RefName model) of
             Inl ApiNotFound \<Rightarrow> Inr poolResolutionPending
           | Inl ApiNoMatch \<Rightarrow> Inr poolResolutionPending
           | Inl e \<Rightarrow> Inl e
           | Inr l \<Rightarrow>
             if (case lm_GroupMembers l of None \<Rightarrow> False | Some ms \<Rightarrow> activeRoutingGroupMembers ms > 1)
             then Inr poolResolutionUnsupported
             else
               (case lm_Pool l of
                  Some (observed, ns) \<Rightarrow>
                    if (case ns of None \<Rightarrow> False | Some n \<Rightarrow> n \<noteq> [] \<and> n \<noteq> lm_Namespace l)
                    then Inr poolResolutionUnsupported
                    else Inr (PoolFound (default_pool observed))
                | None \<Rightarrow>
                    if llmisvcReadyStatus l \<noteq> ''True'' then Inr poolResolutionPending
                    else Inr poolResolutionNotApplicable)))"

section \<open>The objectives a subscription needs\<close>

record desiredObjective =
  do_Pool :: inferencePoolRef
  do_TenantName :: string
  do_Priority :: int
  do_Models :: "string list"

record modelFlowControl =
  mf_Status :: modelFlowControlStatus
  mf_Objective :: nsname

definition flowControlReasonReady :: "flowControlReason \<Rightarrow> bool" where
  "flowControlReasonReady reason \<longleftrightarrow>
     reason \<in> {FlowControlReasonObjectiveReconciled, FlowControlReasonPriorityUnset, FlowControlReasonNotApplicable,
               FlowControlReasonUnmanaged}"

definition setReason :: "flowControlReason \<Rightarrow> modelFlowControl \<Rightarrow> modelFlowControl" where
  "setReason reason m =
     m\<lparr>mf_Status := (mf_Status m)\<lparr>fc_Reason := Some reason, fc_Ready := flowControlReasonReady reason\<rparr>\<rparr>"

datatype ioError =
    IOPoolFailed apiError
  | IOGatewayFailed tenantError
  | IORouteFailed routeError
  | IOGatewayCheck gatewayError
  | IOTenantFailed tenantError
  | IOGet apiError
  | IOCreate apiError
  | IOUpdate apiError
  | IODelete apiError
  | IOList apiError
  | IOBeingDeleted

text \<open>The desired objectives are kept in the order of their first model.\<close>

record flowControlResolution =
  fr_Models :: "modelFlowControl list"
  fr_Desired :: "(nsname \<times> desiredObjective) list"
  fr_Complete :: bool
  fr_errs :: "ioError list"
  fr_gatewayResolved :: bool
  fr_tenantResolved :: bool

definition new_model :: "string \<Rightarrow> modelFlowControl" where
  "new_model key =
     (let (ns, name) = (case Cut (CHR ''/'') key of None \<Rightarrow> (key, []) | Some p \<Rightarrow> p) in
      \<lparr>mf_Status = \<lparr>fc_Name = name, fc_Namespace = ns, fc_Ready = False, fc_Reason = None, fc_InferencePool = None,
         fc_ObjectiveName = []\<rparr>, mf_Objective = ([], [])\<rparr>)"

definition add_model :: "modelFlowControl \<Rightarrow> flowControlResolution \<Rightarrow> flowControlResolution" where
  "add_model m res = res\<lparr>fr_Models := fr_Models res @ [m]\<rparr>"

definition fail_model :: "ioError \<Rightarrow> modelFlowControl \<Rightarrow> flowControlResolution \<Rightarrow> flowControlResolution" where
  "fail_model e m res =
     add_model (setReason FlowControlReasonReconcileFailed m) (res\<lparr>fr_Complete := False, fr_errs := fr_errs res @ [e]\<rparr>)"

text \<open>An error of a resolution that is done once is recorded once.\<close>

definition fail_shared :: "bool \<Rightarrow> ioError \<Rightarrow> modelFlowControl \<Rightarrow> flowControlResolution \<Rightarrow> flowControlResolution" where
  "fail_shared known e m res =
     add_model (setReason FlowControlReasonReconcileFailed m)
       (res\<lparr>fr_Complete := False, fr_errs := fr_errs res @ (if known then [] else [e])\<rparr>)"

definition desire :: "nsname \<Rightarrow> inferencePoolRef \<Rightarrow> string \<Rightarrow> int \<Rightarrow> string \<Rightarrow> flowControlResolution \<Rightarrow> flowControlResolution" where
  "desire objective pool tenantName priority key res =
     res\<lparr>fr_Desired :=
       (case map_of (fr_Desired res) objective of
          Some _ \<Rightarrow> map (\<lambda>(k, d). (k, if k = objective then d\<lparr>do_Models := do_Models d @ [key]\<rparr> else d)) (fr_Desired res)
        | None \<Rightarrow> fr_Desired res @ [(objective, \<lparr>do_Pool = pool, do_TenantName = tenantName, do_Priority = priority, do_Models = [key]\<rparr>)])\<rparr>"

text \<open>The last part of the loop body: the pool is known and the model is on the tenant gateway.\<close>

definition resolve_objective ::
    "libs \<Rightarrow> cluster \<Rightarrow> ioEnv \<Rightarrow> maasSubscription \<Rightarrow> string \<Rightarrow> inferencePoolRef \<Rightarrow> modelFlowControl
     \<Rightarrow> flowControlResolution \<Rightarrow> flowControlResolution" where
  "resolve_objective L c E sub key pool m res =
     (let subNS = om_Namespace (ms_meta sub); known = fr_tenantResolved res; res = res\<lparr>fr_tenantResolved := True\<rparr> in
      case flowControlTenantName c subNS of
        Inl e \<Rightarrow> fail_shared known (IOTenantFailed e) m res
      | Inr tenantName \<Rightarrow>
        (let ns = fc_Namespace (mf_Status m);
             name = inferenceObjectiveName L E tenantName (subNS, om_Name (ms_meta sub)) (ns, ip_Name pool);
             m = m\<lparr>mf_Objective := (ns, name), mf_Status := (mf_Status m)\<lparr>fc_ObjectiveName := name\<rparr>\<rparr>
         in case ms_InferencePriority sub of
              None \<Rightarrow> add_model (setReason FlowControlReasonPriorityUnset m) res
            | Some priority \<Rightarrow>
              desire (ns, name) pool tenantName priority key
                (add_model (setReason FlowControlReasonObjectivePending m) res)))"

definition resolve_model ::
    "libs \<Rightarrow> settings \<Rightarrow> cluster \<Rightarrow> ioEnv \<Rightarrow> maasSubscription \<Rightarrow> string \<Rightarrow> flowControlResolution \<Rightarrow> flowControlResolution" where
  "resolve_model L S c E sub key res =
     (let m = new_model key; ns = fc_Namespace (mf_Status m); name = fc_Name (mf_Status m) in
      case resolveModelInferencePool c ns name of
        Inl e \<Rightarrow> fail_model (IOPoolFailed e) m res
      | Inr poolResolutionPending \<Rightarrow> add_model (setReason FlowControlReasonPoolPending m) res
      | Inr poolResolutionNotApplicable \<Rightarrow> add_model (setReason FlowControlReasonNotApplicable m) res
      | Inr poolResolutionUnsupported \<Rightarrow> add_model (setReason FlowControlReasonUnsupported m) res
      | Inr (PoolFound pool) \<Rightarrow>
        (let m = m\<lparr>mf_Status := (mf_Status m)\<lparr>fc_InferencePool := Some pool\<rparr>\<rparr>;
             known = fr_gatewayResolved res; res = res\<lparr>fr_gatewayResolved := True\<rparr>
         in case tenantGatewayRefForNamespace S c (om_Namespace (ms_meta sub)) of
              Inl e \<Rightarrow> fail_shared known (IOGatewayFailed e) m res
            | Inr gatewayRef \<Rightarrow>
              (case findHTTPRouteForModel L c ns name of
                 Inl ErrModelNotFound \<Rightarrow> add_model (setReason FlowControlReasonPoolPending m) res
               | Inl ErrHTTPRouteNotFound \<Rightarrow> add_model (setReason FlowControlReasonPoolPending m) res
               | Inl e \<Rightarrow> fail_model (IORouteFailed e) m res
               | Inr (routeName, routeNS) \<Rightarrow>
                 (case validateHTTPRouteReferencesGateway c routeName routeNS gatewayRef of
                    Some ErrHTTPRouteNotOnTenantGateway \<Rightarrow> add_model (setReason FlowControlReasonNotOnTenantGateway m) res
                  | Some e \<Rightarrow> fail_model (IOGatewayCheck e) m res
                  | None \<Rightarrow> resolve_objective L c E sub key pool m res))))"

definition model_keys :: "maasSubscription \<Rightarrow> string list" where
  "model_keys sub =
     fold (\<lambda>ref refs. let key = msr_Namespace ref @ ''/'' @ msr_Name ref in if key \<in> set refs then refs else refs @ [key])
       (ms_ModelRefs sub) []"

definition resolveFlowControl ::
    "libs \<Rightarrow> settings \<Rightarrow> cluster \<Rightarrow> ioEnv \<Rightarrow> maasSubscription \<Rightarrow> flowControlResolution" where
  "resolveFlowControl L S c E sub =
     (let res = fold (resolve_model L S c E sub) (SliceStable (<) (model_keys sub))
            \<lparr>fr_Models = [], fr_Desired = [], fr_Complete = True, fr_errs = [], fr_gatewayResolved = False, fr_tenantResolved = False\<rparr>
      in if ms_InferencePriority sub = None then res\<lparr>fr_Complete := True\<rparr> else res)"

section \<open>Objectives in the cluster\<close>

record inferenceObjective =
  io_meta :: objectMeta
  io_Priority :: "int option"
  io_Pool :: inferencePoolRef

definition io_key :: "inferenceObjective \<Rightarrow> nsname" where
  "io_key ob = (om_Namespace (io_meta ob), om_Name (io_meta ob))"

definition inferenceObjectiveOwnerLabels :: "(string \<times> string) list" where
  "inferenceObjectiveOwnerLabels =
     [(''app.kubernetes.io/managed-by'', ''maas-controller''), (''app.kubernetes.io/part-of'', ''maas-subscription''),
      (''app.kubernetes.io/component'', ''inference-objective'')]"

definition hasInferenceObjectiveOwnerLabels :: "labelMap \<Rightarrow> bool" where
  "hasInferenceObjectiveOwnerLabels labels \<longleftrightarrow> list_all (\<lambda>(k, v). label_value labels k = v) inferenceObjectiveOwnerLabels"

abbreviation labelSubscriptionNamespace :: string where
  "labelSubscriptionNamespace \<equiv> ''maas.opendatahub.io/subscription-namespace''"
abbreviation labelSubscriptionUID :: string where "labelSubscriptionUID \<equiv> ''maas.opendatahub.io/subscription-uid''"
abbreviation annotationSubscriptionName :: string where "annotationSubscriptionName \<equiv> ''maas.opendatahub.io/subscription-name''"
abbreviation annotationInferenceObjTenantName :: string where
  "annotationInferenceObjTenantName \<equiv> ''maas.opendatahub.io/tenant-name''"

definition isAPIUnavailable :: "apiError \<Rightarrow> bool" where
  "isAPIUnavailable e \<longleftrightarrow> e = ApiNoMatch \<or> e = ApiNotFound"

definition buildInferenceObjective :: "maasSubscription \<Rightarrow> nsname \<Rightarrow> desiredObjective \<Rightarrow> inferenceObjective" where
  "buildInferenceObjective sub key d =
     \<lparr>io_meta = \<lparr>om_Name = snd key, om_Namespace = fst key, om_UID = [],
        om_Labels = (map_of inferenceObjectiveOwnerLabels)
          (labelSubscriptionNamespace \<mapsto> om_Namespace (ms_meta sub), labelSubscriptionUID \<mapsto> om_UID (ms_meta sub)),
        om_Annotations = [annotationSubscriptionName \<mapsto> om_Name (ms_meta sub), annotationInferenceObjTenantName \<mapsto> do_TenantName d],
        om_Finalizers = [], om_Deleting = False, om_Generation = 0, om_Created = None\<rparr>,
      io_Priority = Some (do_Priority d), io_Pool = do_Pool d\<rparr>"

datatype applyOutcome = inferenceObjectiveApplied | inferenceObjectiveConflict | inferenceObjectiveAPIUnavailable

type_synonym ioStore = "inferenceObjective list"

definition create_io :: "ioEnv \<Rightarrow> inferenceObjective \<Rightarrow> ioStore \<Rightarrow> apiError option \<times> ioStore" where
  "create_io E ob store =
     (case ie_create E (io_key ob) of
        Some e \<Rightarrow> (Some e, store)
      | None \<Rightarrow> if io_key ob \<in> io_key ` set store then (Some ApiAlreadyExists, store) else (None, store @ [ob]))"

definition put_io :: "inferenceObjective \<Rightarrow> ioStore \<Rightarrow> ioStore" where
  "put_io ob store = map (\<lambda>x. if io_key x = io_key ob then ob else x) store"

definition merge_objective :: "inferenceObjective \<Rightarrow> inferenceObjective \<Rightarrow> inferenceObjective" where
  "merge_objective desired existing =
     existing\<lparr>io_meta := (io_meta existing)
         \<lparr>om_Labels := om_Labels (io_meta existing) ++ om_Labels (io_meta desired),
          om_Annotations := om_Annotations (io_meta existing) ++ om_Annotations (io_meta desired)\<rparr>,
       io_Priority := io_Priority desired, io_Pool := io_Pool desired\<rparr>"

definition get_io :: "ioEnv \<Rightarrow> nsname \<Rightarrow> ioStore \<Rightarrow> apiError + inferenceObjective" where
  "get_io E key store =
     (case ie_get E key of
        Some e \<Rightarrow> Inl e
      | None \<Rightarrow> (case find (\<lambda>ob. io_key ob = key) store of None \<Rightarrow> Inl ApiNotFound | Some ob \<Rightarrow> Inr ob))"

definition applyInferenceObjective ::
    "ioEnv \<Rightarrow> maasSubscription \<Rightarrow> nsname \<Rightarrow> desiredObjective \<Rightarrow> ioStore \<Rightarrow> applyOutcome \<times> ioError option \<times> ioStore" where
  "applyInferenceObjective E sub key d store =
     (let desired = buildInferenceObjective sub key d in
      case get_io E key store of
        Inl ApiNoMatch \<Rightarrow> (inferenceObjectiveAPIUnavailable, None, store)
      | Inl ApiNotFound \<Rightarrow>
        (case create_io E desired store of
           (Some e, store) \<Rightarrow>
             if isAPIUnavailable e then (inferenceObjectiveAPIUnavailable, None, store)
             else (inferenceObjectiveApplied, Some (IOCreate e), store)
         | (None, store) \<Rightarrow> (inferenceObjectiveApplied, None, store))
      | Inl e \<Rightarrow> (inferenceObjectiveApplied, Some (IOGet e), store)
      | Inr existing \<Rightarrow>
        if om_Deleting (io_meta existing) then (inferenceObjectiveApplied, Some IOBeingDeleted, store)
        else if \<not> hasInferenceObjectiveOwnerLabels (om_Labels (io_meta existing)) then (inferenceObjectiveConflict, None, store)
        else if label_value (om_Labels (io_meta existing)) labelSubscriptionNamespace \<noteq> om_Namespace (ms_meta sub) \<or>
                label_value (om_Annotations (io_meta existing)) annotationSubscriptionName \<noteq> om_Name (ms_meta sub)
        then (inferenceObjectiveConflict, None, store)
        else if \<not> isManaged (io_meta existing) then (inferenceObjectiveApplied, None, store)
        else
          (let updated = merge_objective desired existing in
           if updated = existing then (inferenceObjectiveApplied, None, store)
           else
             (case ie_update E key of
                Some e \<Rightarrow> (inferenceObjectiveApplied, Some (IOUpdate e), store)
              | None \<Rightarrow> (inferenceObjectiveApplied, None, put_io updated store))))"

definition owned_by :: "maasSubscription \<Rightarrow> inferenceObjective \<Rightarrow> bool" where
  "owned_by sub ob \<longleftrightarrow>
     list_all (\<lambda>(k, v). om_Labels (io_meta ob) k = Some v)
       (inferenceObjectiveOwnerLabels @ [(labelSubscriptionNamespace, om_Namespace (ms_meta sub))]) \<and>
     label_value (om_Annotations (io_meta ob)) annotationSubscriptionName = om_Name (ms_meta sub)"

definition listOwnedInferenceObjectives :: "ioEnv \<Rightarrow> maasSubscription \<Rightarrow> ioStore \<Rightarrow> ioError + inferenceObjective list" where
  "listOwnedInferenceObjectives E sub store =
     (case ie_list E of
        Some e \<Rightarrow> if isAPIUnavailable e then Inr [] else Inl (IOList e)
      | None \<Rightarrow> Inr (filter (owned_by sub) store))"

fun deleteInferenceObjectives :: "ioEnv \<Rightarrow> nsname list \<Rightarrow> inferenceObjective list \<Rightarrow> ioStore \<Rightarrow> ioError list \<times> ioStore" where
  "deleteInferenceObjectives E keep [] store = ([], store)"
| "deleteInferenceObjectives E keep (ob # obs) store =
     (if io_key ob \<in> set keep \<or> \<not> isManaged (io_meta ob) then deleteInferenceObjectives E keep obs store
      else
        (case ie_delete E (io_key ob) of
           Some ApiNotFound \<Rightarrow> deleteInferenceObjectives E keep obs store
         | Some e \<Rightarrow> (case deleteInferenceObjectives E keep obs store of (errs, store) \<Rightarrow> (IODelete e # errs, store))
         | None \<Rightarrow> deleteInferenceObjectives E keep obs (filter (\<lambda>x. io_key x \<noteq> io_key ob) store)))"

definition deleteOwnedInferenceObjectives :: "ioEnv \<Rightarrow> maasSubscription \<Rightarrow> ioStore \<Rightarrow> ioError list \<times> ioStore" where
  "deleteOwnedInferenceObjectives E sub store =
     (case listOwnedInferenceObjectives E sub store of
        Inl e \<Rightarrow> ([e], store)
      | Inr owned \<Rightarrow> deleteInferenceObjectives E [] owned store)"

definition observedObjectiveReason :: "inferenceObjective option \<Rightarrow> desiredObjective \<Rightarrow> flowControlReason" where
  "observedObjectiveReason ob d =
     (case ob of
        None \<Rightarrow> FlowControlReasonObjectivePending
      | Some ob \<Rightarrow>
        if \<not> isManaged (io_meta ob) then FlowControlReasonUnmanaged
        else if \<not> (io_Priority ob = Some (do_Priority d) \<and> io_Pool ob = do_Pool d) then FlowControlReasonObjectivePending
        else FlowControlReasonObjectiveReconciled)"

section \<open>The reconciliation\<close>

record inferenceObjectivesResult =
  ir_Statuses :: "modelFlowControlStatus list"
  ir_Conflict :: bool
  ir_APIUnavailable :: bool

definition setObjectiveReason :: "nsname list \<Rightarrow> nsname \<Rightarrow> flowControlReason \<Rightarrow> modelFlowControl list \<Rightarrow> modelFlowControl list" where
  "setObjectiveReason desired key reason models =
     map (\<lambda>m. if mf_Objective m = key \<and> key \<in> set desired then setReason reason m else m) models"

text \<open>State of the loop over the desired objectives: models, conflict seen, errors, applied keys.\<close>

type_synonym applyState = "modelFlowControl list \<times> bool \<times> ioError list \<times> nsname list"

fun transient :: "ioError \<Rightarrow> bool" where
  "transient (IOCreate e) = (e \<in> {ApiAlreadyExists, ApiConflict})"
| "transient (IOUpdate e) = (e \<in> {ApiAlreadyExists, ApiConflict})"
| "transient (IOGet e) = (e \<in> {ApiAlreadyExists, ApiConflict})"
| "transient e = False"

text \<open>The flag says whether the API turned out not to be served.\<close>

fun apply_loop ::
    "ioEnv \<Rightarrow> maasSubscription \<Rightarrow> (nsname \<times> desiredObjective) list \<Rightarrow> nsname list \<Rightarrow> applyState \<Rightarrow> ioStore
     \<Rightarrow> bool \<times> applyState \<times> ioStore" where
  "apply_loop E sub desired [] st store = (False, st, store)"
| "apply_loop E sub desired (key # keys) (models, conflict, errs, applied) store =
     (let set_reason = (\<lambda>reason. setObjectiveReason (map fst desired) key reason models) in
      case applyInferenceObjective E sub key (the (map_of desired key)) store of
        (inferenceObjectiveAPIUnavailable, _, store) \<Rightarrow> (True, (models, conflict, errs, applied), store)
      | (inferenceObjectiveConflict, _, store) \<Rightarrow>
          apply_loop E sub desired keys (set_reason FlowControlReasonObjectiveConflict, True, errs, applied) store
      | (inferenceObjectiveApplied, Some e, store) \<Rightarrow>
          apply_loop E sub desired keys
            (set_reason (if transient e then FlowControlReasonObjectivePending else FlowControlReasonReconcileFailed),
             conflict, errs @ [e], applied) store
      | (inferenceObjectiveApplied, None, store) \<Rightarrow>
          apply_loop E sub desired keys (models, conflict, errs, applied @ [key]) store)"

definition result_of :: "modelFlowControl list \<Rightarrow> bool \<Rightarrow> bool \<Rightarrow> inferenceObjectivesResult" where
  "result_of models conflict unavailable =
     \<lparr>ir_Statuses = map mf_Status models, ir_Conflict = conflict, ir_APIUnavailable = unavailable\<rparr>"

definition set_reasons ::
    "nsname list \<Rightarrow> (nsname \<Rightarrow> flowControlReason) \<Rightarrow> nsname list \<Rightarrow> modelFlowControl list \<Rightarrow> modelFlowControl list" where
  "set_reasons desired reason keys models = fold (\<lambda>key. setObjectiveReason desired key (reason key)) keys models"

definition key_string :: "nsname \<Rightarrow> string" where
  "key_string key = fst key @ ''/'' @ snd key"

definition reconcileInferenceObjectives ::
    "libs \<Rightarrow> settings \<Rightarrow> cluster \<Rightarrow> ioEnv \<Rightarrow> maasSubscription \<Rightarrow> ioStore \<Rightarrow> inferenceObjectivesResult \<times> ioError list \<times> ioStore" where
  "reconcileInferenceObjectives L S c E sub store =
     (let res = resolveFlowControl L S c E sub; desired = fr_Desired res; dkeys = map fst desired;
          unavailable = (\<lambda>models conflict errs store.
            (result_of (set_reasons dkeys (\<lambda>_. FlowControlReasonAPIUnavailable) dkeys models) conflict True, errs, store))
      in if ie_unavailable E then unavailable (fr_Models res) False (fr_errs res) store
         else
           (let keys = SliceStable (\<lambda>a b. key_string a < key_string b) dkeys in
            case apply_loop E sub desired keys (fr_Models res, False, fr_errs res, []) store of
              (True, (models, conflict, errs, applied), store) \<Rightarrow> unavailable models conflict errs store
            | (False, (models, conflict, errs, applied), store) \<Rightarrow>
              (case listOwnedInferenceObjectives E sub store of
                 Inl e \<Rightarrow>
                   (result_of (set_reasons dkeys (\<lambda>_. FlowControlReasonReconcileFailed) applied models) conflict False, errs @ [e], store)
               | Inr owned \<Rightarrow>
                 (let observed = (\<lambda>key. find (\<lambda>ob. io_key ob = key) (rev owned));
                      models = set_reasons dkeys (\<lambda>key. observedObjectiveReason (observed key) (the (map_of desired key))) applied models
                  in if fr_Complete res
                     then (case deleteInferenceObjectives E keys owned store of (derrs, store) \<Rightarrow>
                             (result_of models conflict False, errs @ derrs, store))
                     else (result_of models conflict False, errs, store)))))"

section \<open>The condition\<close>

definition flowControlConditionReasons :: "flowControlReason list" where
  "flowControlConditionReasons =
     [FlowControlReasonReconcileFailed, FlowControlReasonObjectiveConflict, FlowControlReasonNotOnTenantGateway,
      FlowControlReasonUnsupported, FlowControlReasonAPIUnavailable, FlowControlReasonObjectivePending, FlowControlReasonPoolPending]"

fun reason_text :: "flowControlReason \<Rightarrow> string" where
  "reason_text FlowControlReasonObjectiveReconciled = ''ObjectiveReconciled''"
| "reason_text FlowControlReasonPriorityUnset = ''PriorityUnset''"
| "reason_text FlowControlReasonNotApplicable = ''NotApplicable''"
| "reason_text FlowControlReasonUnmanaged = ''Unmanaged''"
| "reason_text FlowControlReasonPoolPending = ''PoolPending''"
| "reason_text FlowControlReasonObjectivePending = ''ObjectivePending''"
| "reason_text FlowControlReasonUnsupported = ''Unsupported''"
| "reason_text FlowControlReasonNotOnTenantGateway = ''NotOnTenantGateway''"
| "reason_text FlowControlReasonObjectiveConflict = ''ObjectiveConflict''"
| "reason_text FlowControlReasonAPIUnavailable = ''InferenceObjectiveAPIUnavailable''"
| "reason_text FlowControlReasonReconcileFailed = ''ReconcileFailed''"

definition flowControlDegrades :: "flowControlReason \<Rightarrow> bool" where
  "flowControlDegrades reason \<longleftrightarrow>
     reason \<in> {FlowControlReasonReconcileFailed, FlowControlReasonObjectiveConflict, FlowControlReasonNotOnTenantGateway,
               FlowControlReasonUnsupported}"

text \<open>The most severe reason of the models that are not ready, if the list has it.\<close>

definition worst_reason :: "modelFlowControlStatus list \<Rightarrow> flowControlReason option" where
  "worst_reason notReady = find (\<lambda>r. Some r \<in> fc_Reason ` set notReady) flowControlConditionReasons"

abbreviation ConditionInferenceObjectivesReady :: string where
  "ConditionInferenceObjectivesReady \<equiv> ''InferenceObjectivesReady''"

definition inferenceObjectivesCondition ::
    "maasSubscription \<Rightarrow> modelFlowControlStatus list \<Rightarrow> (condition \<times> bool) option" where
  "inferenceObjectivesCondition sub statuses =
     (case ms_InferencePriority sub of
        None \<Rightarrow> None
      | Some _ \<Rightarrow>
        (let notReady = filter (\<lambda>s. \<not> fc_Ready s) statuses;
             cond = \<lparr>cd_Type = ConditionInferenceObjectivesReady, cd_Status = ''True'', cd_Reason = ''Reconciled'',
                     cd_Message = ''request priority is reconciled'', cd_ObservedGeneration = om_Generation (ms_meta sub)\<rparr>
         in if notReady = [] then Some (cond, False)
            else Some (cond\<lparr>cd_Status := ''False'', cd_Message := ''request priority is not reconciled'',
                  cd_Reason := reason_text (case worst_reason notReady of None \<Rightarrow> FlowControlReasonReconcileFailed | Some r \<Rightarrow> r)\<rparr>,
                list_ex (\<lambda>s. case fc_Reason s of None \<Rightarrow> False | Some r \<Rightarrow> flowControlDegrades r) notReady)))"

section \<open>Which objects a reconciliation may touch\<close>

definition unique_io :: "ioStore \<Rightarrow> bool" where
  "unique_io store \<longleftrightarrow> distinct (map io_key store)"

text \<open>Objects the code has to leave alone: not of this subscription, or opted out.\<close>

definition hands_off :: "maasSubscription \<Rightarrow> inferenceObjective \<Rightarrow> bool" where
  "hands_off sub ob \<longleftrightarrow> \<not> owned_by sub ob \<or> \<not> isManaged (io_meta ob)"

definition io_safe :: "maasSubscription \<Rightarrow> ioStore \<Rightarrow> ioStore \<Rightarrow> bool" where
  "io_safe sub store store' \<longleftrightarrow>
     (unique_io store \<longrightarrow> unique_io store' \<and> (\<forall>ob\<in>set store. hands_off sub ob \<longrightarrow> ob \<in> set store'))"

lemma io_safe_refl [simp, intro]: "io_safe sub store store"
  by (simp add: io_safe_def)

lemma io_safe_trans: "io_safe sub a b \<Longrightarrow> io_safe sub b c \<Longrightarrow> io_safe sub a c"
  by (auto simp: io_safe_def)

lemma unique_io_same: "unique_io store \<Longrightarrow> a \<in> set store \<Longrightarrow> b \<in> set store \<Longrightarrow> io_key a = io_key b \<Longrightarrow> a = b"
  by (auto simp: unique_io_def distinct_map inj_on_def)

lemma label_value_Some: "label_value m k = v \<Longrightarrow> v \<noteq> [] \<Longrightarrow> m k = Some v"
  by (simp add: label_value_def split: option.splits)

lemma owned_by_checks:
  assumes "hasInferenceObjectiveOwnerLabels (om_Labels (io_meta ob))" and "om_Namespace (ms_meta sub) \<noteq> []"
    and "label_value (om_Labels (io_meta ob)) labelSubscriptionNamespace = om_Namespace (ms_meta sub)"
    and "label_value (om_Annotations (io_meta ob)) annotationSubscriptionName = om_Name (ms_meta sub)"
  shows "owned_by sub ob"
  using assms label_value_Some [of "om_Labels (io_meta ob)"]
  by (auto simp: owned_by_def hasInferenceObjectiveOwnerLabels_def inferenceObjectiveOwnerLabels_def)

lemma merge_objective_key [simp]: "io_key (merge_objective desired existing) = io_key existing"
  by (simp add: merge_objective_def io_key_def)

lemma get_io_Inr: "get_io E key store = Inr ob \<Longrightarrow> ob \<in> set store \<and> io_key ob = key"
  by (auto simp: get_io_def find_Some_iff split: option.splits)

lemma put_io_keys: "map io_key (put_io ob store) = map io_key store"
  by (auto simp: put_io_def)

lemma put_io_safe:
  assumes "existing \<in> set store" and "io_key ob = io_key existing" and "\<not> hands_off sub existing"
  shows "io_safe sub store (put_io ob store)"
proof -
  have "x \<in> set (put_io ob store)" if "unique_io store" "x \<in> set store" "hands_off sub x" for x
  proof -
    have "io_key x \<noteq> io_key ob" using that assms unique_io_same [OF that(1,2) assms(1)] by auto
    with that(2) show ?thesis by (force simp: put_io_def)
  qed
  then show ?thesis using put_io_keys [of ob store] by (simp add: io_safe_def unique_io_def)
qed

lemma create_io_safe: "io_safe sub store (snd (create_io E ob store))"
  by (auto simp: create_io_def io_safe_def unique_io_def split: option.splits)

lemma applyInferenceObjective_safe:
  assumes "om_Namespace (ms_meta sub) \<noteq> []"
  shows "io_safe sub store (snd (snd (applyInferenceObjective E sub key d store)))"
proof (cases "get_io E key store")
  case (Inl e)
  obtain r store' where c: "create_io E (buildInferenceObjective sub key d) store = (r, store')" by fastforce
  then have "io_safe sub store store'" using create_io_safe [of sub store E "buildInferenceObjective sub key d"] by simp
  with Inl c show ?thesis by (cases e) (auto simp: applyInferenceObjective_def Let_def split: option.splits)
next
  case (Inr existing)
  have put: "io_safe sub store (put_io (merge_objective (buildInferenceObjective sub key d) existing) store)"
    if "hasInferenceObjectiveOwnerLabels (om_Labels (io_meta existing))" "isManaged (io_meta existing)"
      "label_value (om_Labels (io_meta existing)) labelSubscriptionNamespace = om_Namespace (ms_meta sub)"
      "label_value (om_Annotations (io_meta existing)) annotationSubscriptionName = om_Name (ms_meta sub)"
    using get_io_Inr [OF Inr] that owned_by_checks [OF that(1) assms that(3,4)]
    by (intro put_io_safe [of existing]) (simp_all add: hands_off_def)
  show ?thesis unfolding applyInferenceObjective_def Inr Let_def
    using put by (auto split: option.splits)
qed

lemma apply_loop_safe:
  assumes "om_Namespace (ms_meta sub) \<noteq> []"
  shows "io_safe sub store (snd (snd (apply_loop E sub desired keys st store)))"
proof (induction keys arbitrary: st store)
  case (Cons key keys)
  obtain models conflict errs applied where st: "st = (models, conflict, errs, applied)" by (metis prod.exhaust)
  obtain out e store1 where a: "applyInferenceObjective E sub key (the (map_of desired key)) store = (out, e, store1)"
    by (metis prod.exhaust)
  have "io_safe sub store store1" using applyInferenceObjective_safe [OF assms, of store E key] a by (metis snd_conv)
  with Cons.IH [of store1] show ?case unfolding st
    by (cases out; cases e) (auto simp: a Let_def intro: io_safe_trans)
qed simp

lemma delete_io_survivors:
  assumes "\<forall>x\<in>set obs. isManaged (io_meta x) \<and> io_key x \<notin> set keep \<longrightarrow> io_key x \<noteq> io_key ob" and "ob \<in> set store"
  shows "ob \<in> set (snd (deleteInferenceObjectives E keep obs store))"
  using assms
  by (induction E keep obs store rule: deleteInferenceObjectives.induct)
    (auto split: option.splits apiError.splits prod.splits)

lemma filter_all: "\<exists>P. xs = filter P xs"
  by (rule exI [of _ "\<lambda>_. True"]) simp

lemma delete_io_subset: "\<exists>P. snd (deleteInferenceObjectives E keep obs store) = filter P store"
proof (induction E keep obs store rule: deleteInferenceObjectives.induct)
  case (1 E keep store) then show ?case using filter_all [of store] by simp
next
  case (2 E keep ob obs store)
  then show ?case by (auto split: option.splits apiError.splits prod.splits)
qed

lemma unique_io_filter: "unique_io store \<Longrightarrow> unique_io (filter P store)"
  by (auto simp: unique_io_def distinct_map inj_on_def)

lemma delete_owned_safe:
  "io_safe sub store (snd (deleteInferenceObjectives E keep (filter (owned_by sub) store) store))"
proof -
  have "unique_io (snd (deleteInferenceObjectives E keep (filter (owned_by sub) store) store))" if "unique_io store"
    using delete_io_subset [of E keep "filter (owned_by sub) store" store] unique_io_filter [OF that] by metis
  moreover have "ob \<in> set (snd (deleteInferenceObjectives E keep (filter (owned_by sub) store) store))"
    if "unique_io store" "ob \<in> set store" "hands_off sub ob" for ob
    using that unique_io_same [OF that(1)] by (intro delete_io_survivors) (auto simp: hands_off_def)
  ultimately show ?thesis by (simp add: io_safe_def)
qed

lemma list_owned_cases:
  assumes "listOwnedInferenceObjectives E sub store = Inr owned"
  shows "owned = [] \<or> owned = filter (owned_by sub) store"
  using assms by (auto simp: listOwnedInferenceObjectives_def split: option.splits if_splits)

lemma delete_listed_safe:
  assumes "listOwnedInferenceObjectives E sub store = Inr owned"
  shows "io_safe sub store (snd (deleteInferenceObjectives E keep owned store))"
  using list_owned_cases [OF assms] delete_owned_safe by auto

lemma reconcileInferenceObjectives_safe:
  assumes "om_Namespace (ms_meta sub) \<noteq> []"
  shows "io_safe sub store (snd (snd (reconcileInferenceObjectives L S c E sub store)))"
proof -
  let ?res = "resolveFlowControl L S c E sub"
  let ?keys = "SliceStable (\<lambda>a b. key_string a < key_string b) (map fst (fr_Desired ?res))"
  obtain un models conflict errs applied store1 where
    a: "apply_loop E sub (fr_Desired ?res) ?keys (fr_Models ?res, False, fr_errs ?res, []) store =
      (un, (models, conflict, errs, applied), store1)"
    by (metis prod.exhaust)
  have step: "io_safe sub store store1"
    using apply_loop_safe [OF assms, of store E "fr_Desired ?res" ?keys "(fr_Models ?res, False, fr_errs ?res, [])"] a by simp
  have "io_safe sub store (snd (deleteInferenceObjectives E ?keys owned store1))"
    if "listOwnedInferenceObjectives E sub store1 = Inr owned" for owned
    by (rule io_safe_trans [OF step delete_listed_safe [OF that]])
  with step show ?thesis
    by (cases un; cases "listOwnedInferenceObjectives E sub store1")
      (auto simp: reconcileInferenceObjectives_def Let_def a split: prod.splits)
qed

lemma deleteOwnedInferenceObjectives_safe: "io_safe sub store (snd (deleteOwnedInferenceObjectives E sub store))"
  using delete_listed_safe by (auto simp: deleteOwnedInferenceObjectives_def split: sum.splits)

text \<open>No object disappears unless the desired set was complete.\<close>

lemma apply_keys_grow: "io_key ` set store \<subseteq> io_key ` set (snd (snd (applyInferenceObjective E sub key d store)))"
proof -
  have put: "io_key ` set store = io_key ` set (put_io ob store)" for ob
    using put_io_keys [of ob store] by (metis set_map)
  show ?thesis
  proof (cases "get_io E key store")
    case (Inl e) then show ?thesis
      by (cases e) (auto simp: applyInferenceObjective_def Let_def create_io_def split: option.splits)
  next
    case (Inr ob) then show ?thesis using put by (simp add: applyInferenceObjective_def Let_def split: option.splits)
  qed
qed

lemma apply_loop_keys_grow: "io_key ` set store \<subseteq> io_key ` set (snd (snd (apply_loop E sub desired keys st store)))"
proof (induction keys arbitrary: st store)
  case (Cons key keys)
  obtain models conflict errs applied where st: "st = (models, conflict, errs, applied)" by (metis prod.exhaust)
  obtain out e store1 where a: "applyInferenceObjective E sub key (the (map_of desired key)) store = (out, e, store1)"
    by (metis prod.exhaust)
  have "io_key ` set store \<subseteq> io_key ` set store1" using apply_keys_grow [of store E sub key] a by (metis snd_conv)
  moreover from this have "io_key ` set store \<subseteq> io_key ` set (snd (snd (apply_loop E sub desired keys st' store1)))" for st'
    by (rule subset_trans) (rule Cons.IH)
  ultimately show ?case unfolding st by (cases out; cases e) (simp_all add: a Let_def)
qed simp

lemma incomplete_deletes_nothing:
  assumes "\<not> fr_Complete (resolveFlowControl L S c E sub)"
  shows "io_key ` set store \<subseteq> io_key ` set (snd (snd (reconcileInferenceObjectives L S c E sub store)))"
proof -
  let ?res = "resolveFlowControl L S c E sub"
  let ?keys = "SliceStable (\<lambda>a b. key_string a < key_string b) (map fst (fr_Desired ?res))"
  obtain un models conflict errs applied store1 where
    a: "apply_loop E sub (fr_Desired ?res) ?keys (fr_Models ?res, False, fr_errs ?res, []) store =
      (un, (models, conflict, errs, applied), store1)"
    by (metis prod.exhaust)
  have "io_key ` set store \<subseteq> io_key ` set store1"
    using apply_loop_keys_grow [of store E sub "fr_Desired ?res" ?keys "(fr_Models ?res, False, fr_errs ?res, [])"] a by simp
  with assms show ?thesis
    by (cases un; cases "listOwnedInferenceObjectives E sub store1") (auto simp: reconcileInferenceObjectives_def Let_def a)
qed

section \<open>What a ready status means\<close>

text \<open>The models before any objective has been observed.\<close>

definition unobserved :: "modelFlowControl \<Rightarrow> bool" where
  "unobserved m \<longleftrightarrow> fc_Reason (mf_Status m) \<noteq> Some FlowControlReasonObjectiveReconciled"

definition placed :: "modelFlowControl \<Rightarrow> bool" where
  "placed m \<longleftrightarrow> mf_Objective m = ([], []) \<or> mf_Objective m = (fc_Namespace (mf_Status m), fc_ObjectiveName (mf_Status m))"

definition resolution_inv :: "maasSubscription \<Rightarrow> flowControlResolution \<Rightarrow> bool" where
  "resolution_inv sub res \<longleftrightarrow>
     (\<forall>m\<in>set (fr_Models res). unobserved m \<and> placed m) \<and>
     (\<forall>(k, d)\<in>set (fr_Desired res). snd k \<noteq> [] \<and> ms_InferencePriority sub = Some (do_Priority d))"

lemma setReason_simps [simp]:
  "placed (setReason r m) = placed m"
  "unobserved (setReason r m) \<longleftrightarrow> r \<noteq> FlowControlReasonObjectiveReconciled"
  "mf_Objective (setReason r m) = mf_Objective m"
  by (simp_all add: placed_def unobserved_def setReason_def)

lemma new_model_placed [simp]: "placed (new_model key)" "mf_Objective (new_model key) = ([], [])"
  by (simp_all add: placed_def new_model_def split: prod.splits)

lemma placed_status [simp]:
  "mf_Objective m = ([], []) \<Longrightarrow> placed (m\<lparr>mf_Status := f (mf_Status m)\<rparr>)"
  by (simp add: placed_def)

lemma add_model_inv [simp]: "resolution_inv sub (add_model m res) \<longleftrightarrow> unobserved m \<and> placed m \<and> resolution_inv sub res"
  by (auto simp: resolution_inv_def add_model_def)

lemma fail_inv:
  assumes "placed m" and "resolution_inv sub res"
  shows "resolution_inv sub (fail_model e m res)" and "resolution_inv sub (fail_shared known e m res)"
  using assms by (simp_all add: fail_model_def fail_shared_def) (simp_all add: resolution_inv_def)

lemma desire_inv:
  assumes "resolution_inv sub res" and "snd objective \<noteq> []" and "ms_InferencePriority sub = Some priority"
  shows "resolution_inv sub (desire objective pool tenantName priority key res)"
  using assms by (auto simp: resolution_inv_def desire_def split: option.splits)

lemma flag_inv [simp]:
  "resolution_inv sub (res\<lparr>fr_tenantResolved := b\<rparr>) = resolution_inv sub res"
  "resolution_inv sub (res\<lparr>fr_gatewayResolved := b\<rparr>) = resolution_inv sub res"
  "resolution_inv sub (res\<lparr>fr_Complete := b\<rparr>) = resolution_inv sub res"
  by (simp_all add: resolution_inv_def)

lemma resolve_objective_inv:
  assumes "resolution_inv sub res" and "\<forall>a b. ie_childName E a b \<noteq> []" and "placed m"
  shows "resolution_inv sub (resolve_objective L c E sub key pool m res)"
proof -
  have "snd (fc_Namespace (mf_Status m), inferenceObjectiveName L E t s p) \<noteq> []" for t s p
    using assms(2) by (simp add: inferenceObjectiveName_def Let_def)
  moreover have "placed (m\<lparr>mf_Objective := (fc_Namespace (mf_Status m), name),
      mf_Status := (mf_Status m)\<lparr>fc_ObjectiveName := name\<rparr>\<rparr>)" for name
    by (simp add: placed_def)
  ultimately show ?thesis
    using assms(1,3) fail_inv(2) [of m sub]
    by (auto simp: resolve_objective_def Let_def split: sum.splits option.splits intro!: desire_inv)
qed

lemma resolve_model_inv:
  assumes "resolution_inv sub res" and "\<forall>a b. ie_childName E a b \<noteq> []"
  shows "resolution_inv sub (resolve_model L S c E sub key res)"
proof -
  let ?m = "\<lambda>pool. (new_model key)\<lparr>mf_Status := (mf_Status (new_model key))\<lparr>fc_InferencePool := Some pool\<rparr>\<rparr>"
  have "placed (?m pool)" for pool by (simp add: placed_def)
  then show ?thesis
    using assms fail_inv [of _ sub] resolve_objective_inv [OF _ assms(2)]
    by (auto simp: resolve_model_def Let_def split: sum.splits poolResolution.splits option.splits prod.splits
        routeError.splits gatewayError.splits)
qed

lemma resolveFlowControl_inv:
  assumes "\<forall>a b. ie_childName E a b \<noteq> []"
  shows "resolution_inv sub (resolveFlowControl L S c E sub)"
proof -
  have "resolution_inv sub (fold (resolve_model L S c E sub) keys res)" if "resolution_inv sub res" for keys res
    using that by (induction keys arbitrary: res) (simp_all add: resolve_model_inv [OF _ assms])
  then show ?thesis by (simp add: resolveFlowControl_def Let_def resolution_inv_def [of sub "\<lparr>fr_Models = [], fr_Desired = [], fr_Complete = True, fr_errs = [], fr_gatewayResolved = False, fr_tenantResolved = False\<rparr>"])
qed

lemma setObjectiveReason_model:
  assumes "m' \<in> set (setObjectiveReason dkeys key reason models)"
  obtains m where "m \<in> set models" "m' = m \<or> (m' = setReason reason m \<and> mf_Objective m = key \<and> key \<in> set dkeys)"
  using assms by (auto simp: setObjectiveReason_def split: if_splits)

lemma set_reasons_model:
  assumes "\<forall>m\<in>set models. unobserved m \<and> placed m"
    and "m' \<in> set (set_reasons dkeys reason keys models)"
  shows "placed m' \<and>
    (unobserved m' \<or> (mf_Objective m' \<in> set keys \<and> mf_Objective m' \<in> set dkeys \<and>
       reason (mf_Objective m') = FlowControlReasonObjectiveReconciled))"
  using assms(2)
proof (induction keys arbitrary: m' rule: rev_induct)
  case Nil then show ?case using assms(1) by (simp add: set_reasons_def)
next
  case (snoc key keys)
  from snoc.prems obtain m where m: "m \<in> set (set_reasons dkeys reason keys models)"
    "m' = m \<or> (m' = setReason (reason key) m \<and> mf_Objective m = key \<and> key \<in> set dkeys)"
    by (auto simp: set_reasons_def elim!: setObjectiveReason_model)
  from m(2) snoc.IH [OF m(1)] show ?case by auto
qed

lemma apply_loop_models:
  assumes "\<forall>m\<in>set (fst st). unobserved m \<and> placed m"
  shows "\<forall>m\<in>set (fst (fst (snd (apply_loop E sub desired keys st store)))). unobserved m \<and> placed m"
  using assms
proof (induction keys arbitrary: st store)
  case (Cons key keys)
  obtain models conflict errs applied where st: "st = (models, conflict, errs, applied)" by (metis prod.exhaust)
  obtain out e store1 where a: "applyInferenceObjective E sub key (the (map_of desired key)) store = (out, e, store1)"
    by (metis prod.exhaust)
  have set: "\<forall>m\<in>set (setObjectiveReason (map fst desired) key r models). unobserved m \<and> placed m"
    if "r \<noteq> FlowControlReasonObjectiveReconciled" for r
    using Cons.prems that unfolding st by (auto simp: setObjectiveReason_def)
  have models: "\<forall>m\<in>set models. unobserved m \<and> placed m" using Cons.prems unfolding st by simp
  have rest: "\<forall>m\<in>set (fst (fst (snd (apply_loop E sub desired keys (ms, b, es, ks) store1)))). unobserved m \<and> placed m"
    if "\<forall>m\<in>set ms. unobserved m \<and> placed m" for ms b es ks
    using that by (intro Cons.IH) simp
  show ?case unfolding st
  proof (cases out)
    case inferenceObjectiveApplied
    then show "\<forall>m\<in>set (fst (fst (snd (apply_loop E sub desired (key # keys) (models, conflict, errs, applied) store)))).
        unobserved m \<and> placed m"
      using rest [OF models] rest [OF set [of FlowControlReasonObjectivePending]] rest [OF set [of FlowControlReasonReconcileFailed]]
      by (cases e) (simp_all add: a Let_def)
  next
    case inferenceObjectiveConflict
    then show "\<forall>m\<in>set (fst (fst (snd (apply_loop E sub desired (key # keys) (models, conflict, errs, applied) store)))).
        unobserved m \<and> placed m"
      using rest [OF set [of FlowControlReasonObjectiveConflict]] by (simp add: a Let_def)
  next
    case inferenceObjectiveAPIUnavailable
    then show "\<forall>m\<in>set (fst (fst (snd (apply_loop E sub desired (key # keys) (models, conflict, errs, applied) store)))).
        unobserved m \<and> placed m"
      using models by (simp add: a Let_def)
  qed
qed simp

text \<open>An incomplete resolution has reported an error.\<close>

definition errs_inv :: "settings \<Rightarrow> cluster \<Rightarrow> maasSubscription \<Rightarrow> flowControlResolution \<Rightarrow> bool" where
  "errs_inv S c sub res \<longleftrightarrow>
     (\<not> fr_Complete res \<longrightarrow> fr_errs res \<noteq> []) \<and>
     (fr_gatewayResolved res \<and> isl (tenantGatewayRefForNamespace S c (om_Namespace (ms_meta sub))) \<longrightarrow> fr_errs res \<noteq> []) \<and>
     (fr_tenantResolved res \<and> isl (flowControlTenantName c (om_Namespace (ms_meta sub))) \<longrightarrow> fr_errs res \<noteq> [])"

lemma add_model_errs [simp]: "errs_inv S c sub (add_model m res) = errs_inv S c sub res"
  by (simp add: errs_inv_def add_model_def)

lemma desire_errs [simp]: "errs_inv S c sub (desire objective pool tenantName priority key res) = errs_inv S c sub res"
  by (simp add: errs_inv_def desire_def)

lemma fail_model_errs [simp]: "errs_inv S c sub (fail_model e m res)"
  by (simp add: fail_model_def errs_inv_def add_model_def)

lemma resolve_model_errs:
  assumes "errs_inv S c sub res"
  shows "errs_inv S c sub (resolve_model L S c E sub key res)"
  using assms
  by (auto simp: resolve_model_def resolve_objective_def Let_def fail_shared_def
      split: sum.splits poolResolution.splits option.splits prod.splits routeError.splits gatewayError.splits)
    (auto simp: errs_inv_def)

lemma resolveFlowControl_errs:
  assumes "\<not> fr_Complete (resolveFlowControl L S c E sub)"
  shows "fr_errs (resolveFlowControl L S c E sub) \<noteq> []"
proof -
  have "errs_inv S c sub (fold (resolve_model L S c E sub) keys res)" if "errs_inv S c sub res" for keys res
    using that by (induction keys arbitrary: res) (simp_all add: resolve_model_errs)
  from this [of "\<lparr>fr_Models = [], fr_Desired = [], fr_Complete = True, fr_errs = [], fr_gatewayResolved = False, fr_tenantResolved = False\<rparr>"
      "SliceStable (<) (model_keys sub)"] assms
  show ?thesis by (auto simp: resolveFlowControl_def Let_def errs_inv_def split: if_splits)
qed

text \<open>Conversely, when a priority is set, a lookup that failed leaves the resolution incomplete.\<close>

lemma resolve_model_incomplete:
  assumes "fr_errs res \<noteq> [] \<longrightarrow> \<not> fr_Complete res"
  shows "fr_errs (resolve_model L S c E sub key res) \<noteq> [] \<longrightarrow> \<not> fr_Complete (resolve_model L S c E sub key res)"
  using assms
  by (auto simp: resolve_model_def resolve_objective_def Let_def fail_shared_def fail_model_def add_model_def desire_def
      split: sum.splits poolResolution.splits option.splits prod.splits routeError.splits gatewayError.splits)

lemma resolveFlowControl_incomplete:
  assumes "ms_InferencePriority sub \<noteq> None" and "fr_errs (resolveFlowControl L S c E sub) \<noteq> []"
  shows "\<not> fr_Complete (resolveFlowControl L S c E sub)"
proof -
  have "fr_errs (fold (resolve_model L S c E sub) keys res) \<noteq> [] \<longrightarrow>
      \<not> fr_Complete (fold (resolve_model L S c E sub) keys res)" if "fr_errs res \<noteq> [] \<longrightarrow> \<not> fr_Complete res" for keys res
    using that
  proof (induction keys arbitrary: res)
    case (Cons key keys)
    show ?case using Cons.IH [OF resolve_model_incomplete [OF Cons.prems]] by simp
  qed simp
  from this [of "\<lparr>fr_Models = [], fr_Desired = [], fr_Complete = True, fr_errs = [], fr_gatewayResolved = False, fr_tenantResolved = False\<rparr>"
      "SliceStable (<) (model_keys sub)"] assms
  show ?thesis by (auto simp: resolveFlowControl_def Let_def)
qed

lemma apply_loop_errs: "\<exists>es. fst (snd (snd (fst (snd (apply_loop E sub desired keys st store))))) = fst (snd (snd st)) @ es"
proof (induction keys arbitrary: st store)
  case (Cons key keys)
  obtain models conflict errs applied where st: "st = (models, conflict, errs, applied)" by (metis prod.exhaust)
  obtain out e store1 where a: "applyInferenceObjective E sub key (the (map_of desired key)) store = (out, e, store1)"
    by (metis prod.exhaust)
  have rest: "\<exists>es'. fst (snd (snd (fst (snd (apply_loop E sub desired keys (ms, b, es, ks) store1))))) = es @ es'" for ms b es ks
    using Cons.IH [of "(ms, b, es, ks)" store1] by simp
  have more: "\<exists>es'. fst (snd (snd (fst (snd (apply_loop E sub desired keys (ms, b, errs @ [x], ks) store1))))) = errs @ es'"
    for ms b x ks using rest [of ms b "errs @ [x]" ks] by auto
  show ?case unfolding st
    using rest [of _ _ errs] more by (cases out; cases e) (simp_all add: a Let_def)
qed simp

lemma delete_io_complete:
  assumes "fst (deleteInferenceObjectives E keep obs store) = []" and "\<forall>k. ie_delete E k \<noteq> Some ApiNotFound"
    and "x \<in> set obs" and "isManaged (io_meta x)" and "io_key x \<notin> set keep"
  shows "io_key x \<notin> io_key ` set (snd (deleteInferenceObjectives E keep obs store))"
  using assms
proof (induction obs arbitrary: store)
  case (Cons ob obs)
  show ?case
  proof (cases "ob = x")
    case True
    have "ie_delete E (io_key x) \<noteq> Some ApiNotFound" using Cons.prems(2) by blast
    with True Cons.prems(1,4,5) have "ie_delete E (io_key x) = None"
      by (auto split: option.splits apiError.splits prod.splits)
    then obtain store1 where s1: "ie_delete E (io_key x) = None" "store1 = filter (\<lambda>y. io_key y \<noteq> io_key x) store"
      by blast
    obtain P where "snd (deleteInferenceObjectives E keep obs store1) = filter P store1" using delete_io_subset by blast
    with s1 True Cons.prems show ?thesis by auto
  next
    case False
    have "io_key x \<notin> io_key ` set (snd (deleteInferenceObjectives E keep obs st))"
      if "fst (deleteInferenceObjectives E keep obs st) = []" for st
      using Cons.prems(3) False by (intro Cons.IH [OF that Cons.prems(2) _ Cons.prems(4,5)]) simp
    with Cons.prems(1) show ?thesis
      by (cases "io_key ob \<in> set keep \<or> \<not> isManaged (io_meta ob)")
        (simp_all add: case_prod_beta split: option.splits apiError.splits)
  qed
qed simp

lemma observed_reconciled:
  assumes "observedObjectiveReason (find (\<lambda>ob. io_key ob = key) (rev owned)) d = FlowControlReasonObjectiveReconciled"
  obtains ob where "ob \<in> set owned" "io_key ob = key" "isManaged (io_meta ob)" "io_Priority ob = Some (do_Priority d)"
  using assms by (auto simp: observedObjectiveReason_def split: option.splits if_splits dest!: find_SomeD)

lemma reconciled_model:
  assumes "resolution_inv sub res" and "\<forall>m\<in>set models. unobserved m \<and> placed m"
    and "m \<in> set (set_reasons (map fst (fr_Desired res))
      (\<lambda>key. observedObjectiveReason (find (\<lambda>ob. io_key ob = key) (rev owned)) (the (map_of (fr_Desired res) key))) applied models)"
    and "fc_Reason (mf_Status m) = Some FlowControlReasonObjectiveReconciled"
  obtains ob where "ob \<in> set owned" "io_key ob = (fc_Namespace (mf_Status m), fc_ObjectiveName (mf_Status m))"
    "io_key ob \<in> fst ` set (fr_Desired res)" "isManaged (io_meta ob)"
    "ms_InferencePriority sub \<noteq> None" "io_Priority ob = ms_InferencePriority sub"
proof -
  let ?key = "mf_Objective m"
  from set_reasons_model [OF assms(2,3)] assms(4)
  have m: "placed m" "?key \<in> fst ` set (fr_Desired res)"
    "observedObjectiveReason (find (\<lambda>ob. io_key ob = ?key) (rev owned)) (the (map_of (fr_Desired res) ?key)) =
       FlowControlReasonObjectiveReconciled"
    by (auto simp: unobserved_def)
  then obtain d where d: "map_of (fr_Desired res) ?key = Some d" by (metis map_of_eq_None_iff not_None_eq)
  with assms(1) have "snd ?key \<noteq> []" "ms_InferencePriority sub = Some (do_Priority d)"
    by (auto simp: resolution_inv_def dest!: map_of_SomeD)
  with m(1) have "?key = (fc_Namespace (mf_Status m), fc_ObjectiveName (mf_Status m))" by (auto simp: placed_def)
  moreover obtain ob where "ob \<in> set owned" "io_key ob = ?key" "isManaged (io_meta ob)" "io_Priority ob = Some (do_Priority d)"
    using observed_reconciled [OF m(3)] d by auto
  ultimately show thesis using that m(2) \<open>ms_InferencePriority sub = Some (do_Priority d)\<close> by auto
qed

lemma set_SliceStable_keys [simp]: "set (SliceStable (\<lambda>a b. key_string a < key_string b) ks) = set ks"
  by simp

text \<open>
  C35. Request priority never touches what it does not own. A reconciliation changes and
  deletes only objectives that carry the labels of this controller and the namespace and name
  of this subscription and that have not been opted out; this holds for all failures of the
  API server. When the subscription asks for a priority and one of the lookups of its models
  (pool, gateway, route, tenant) failed, no objective disappears at all, since it may still
  be wanted. (A subscription that asks for no priority wants none, and is cleaned up whether
  or not the lookups work.)
\<close>

theorem objectives_safety:
  assumes "unique_io store" and "om_Namespace (ms_meta sub) \<noteq> []"
    and "store' = snd (snd (reconcileInferenceObjectives L S c E sub store))"
  shows "unique_io store' \<and> (\<forall>ob. ob \<in> set store \<and> hands_off sub ob \<longrightarrow> ob \<in> set store') \<and>
    (ms_InferencePriority sub \<noteq> None \<and> fr_errs (resolveFlowControl L S c E sub) \<noteq> [] \<longrightarrow>
       io_key ` set store \<subseteq> io_key ` set store') \<and>
    (\<not> fr_Complete (resolveFlowControl L S c E sub) \<longrightarrow> io_key ` set store \<subseteq> io_key ` set store')"
  using reconcileInferenceObjectives_safe [OF assms(2), of store L S c E] incomplete_deletes_nothing [of L S c E sub store]
    resolveFlowControl_incomplete [of sub L S c E] assms(1,3)
  by (auto simp: io_safe_def)

text \<open>
  A status says what is there. A model is reported as reconciled only when its objective is
  in the cluster under the reported name, owned by the subscription, managed, and with exactly
  the requested priority. When the reconciliation reports no error, the managed objectives of
  the subscription are all desired ones: none is left behind.
\<close>

theorem objectives_status_sound:
  assumes "reconcileInferenceObjectives L S c E sub store = (result, errs, store')"
    and "\<forall>a b. ie_childName E a b \<noteq> []"
    and "ie_list E = None" and "\<forall>k. ie_delete E k \<noteq> Some ApiNotFound" and "unique_io store" and "om_Namespace (ms_meta sub) \<noteq> []"
  shows "(\<forall>s\<in>set (ir_Statuses result). fc_Reason s = Some FlowControlReasonObjectiveReconciled \<longrightarrow>
      (\<exists>ob\<in>set store'. io_key ob = (fc_Namespace s, fc_ObjectiveName s) \<and> owned_by sub ob \<and> isManaged (io_meta ob) \<and>
         ms_InferencePriority sub \<noteq> None \<and> io_Priority ob = ms_InferencePriority sub)) \<and>
    (errs = [] \<and> \<not> ir_APIUnavailable result \<longrightarrow>
      (\<forall>ob\<in>set store'. owned_by sub ob \<and> isManaged (io_meta ob) \<longrightarrow> io_key ob \<in> fst ` set (fr_Desired (resolveFlowControl L S c E sub))))"
proof -
  let ?res = "resolveFlowControl L S c E sub"
  let ?dkeys = "map fst (fr_Desired ?res)"
  let ?keys = "SliceStable (\<lambda>a b. key_string a < key_string b) ?dkeys"
  obtain un models conflict es applied store1 where
    a: "apply_loop E sub (fr_Desired ?res) ?keys (fr_Models ?res, False, fr_errs ?res, []) store =
      (un, (models, conflict, es, applied), store1)"
    by (metis prod.exhaust)
  have inv: "resolution_inv sub ?res" by (rule resolveFlowControl_inv [OF assms(2)])
  then have models: "\<forall>m\<in>set models. unobserved m \<and> placed m" and initial: "\<forall>m\<in>set (fr_Models ?res). unobserved m \<and> placed m"
    using apply_loop_models [of "(fr_Models ?res, False, fr_errs ?res, [])" E sub "fr_Desired ?res" ?keys store] a
    by (auto simp: resolution_inv_def)
  have quiet: "fc_Reason (mf_Status m) \<noteq> Some FlowControlReasonObjectiveReconciled"
    if "\<forall>m\<in>set ms. unobserved m \<and> placed m" "m \<in> set (set_reasons ?dkeys (\<lambda>_. FlowControlReasonAPIUnavailable) ?dkeys ms)" for m ms
    using set_reasons_model [OF that] by (auto simp: unobserved_def)
  show ?thesis
  proof (cases "ie_unavailable E \<or> un")
    case True
    then have "ir_APIUnavailable result" and "\<exists>ms. (\<forall>m\<in>set ms. unobserved m \<and> placed m) \<and>
        ir_Statuses result = map mf_Status (set_reasons ?dkeys (\<lambda>_. FlowControlReasonAPIUnavailable) ?dkeys ms)"
      using assms(1) a models initial
      by (auto simp: reconcileInferenceObjectives_def Let_def result_of_def split: if_splits)
    with quiet show ?thesis by auto
  next
    case False
    let ?owned = "filter (owned_by sub) store1"
    let ?models = "set_reasons ?dkeys
      (\<lambda>key. observedObjectiveReason (find (\<lambda>ob. io_key ob = key) (rev ?owned)) (the (map_of (fr_Desired ?res) key))) applied models"
    let ?del = "deleteInferenceObjectives E ?keys ?owned store1"
    have "listOwnedInferenceObjectives E sub store1 = Inr ?owned" by (simp add: listOwnedInferenceObjectives_def assms(3))
    with False assms(1) a have run: "result = result_of ?models conflict False"
      "store' = (if fr_Complete ?res then snd ?del else store1)" "errs = (if fr_Complete ?res then es @ fst ?del else es)"
      by (auto simp: reconcileInferenceObjectives_def Let_def split: prod.splits if_splits)
    have uniq: "unique_io store1"
      using apply_loop_safe [OF assms(6), of store E "fr_Desired ?res" ?keys "(fr_Models ?res, False, fr_errs ?res, [])"] a assms(5)
      by (simp add: io_safe_def)
    have kept: "ob \<in> set store'" if "ob \<in> set store1" "io_key ob \<in> set ?dkeys" for ob
    proof -
      have "\<forall>x\<in>set ?owned. isManaged (io_meta x) \<and> io_key x \<notin> set ?keys \<longrightarrow> io_key x \<noteq> io_key ob"
        using that(2) by (metis set_SliceStable_keys)
      from delete_io_survivors [OF this that(1)] that(1) show ?thesis by (simp add: run(2))
    qed
    have "\<exists>ob\<in>set store'. io_key ob = (fc_Namespace s, fc_ObjectiveName s) \<and> owned_by sub ob \<and> isManaged (io_meta ob) \<and>
         ms_InferencePriority sub \<noteq> None \<and> io_Priority ob = ms_InferencePriority sub"
      if s: "s \<in> set (ir_Statuses result)" "fc_Reason s = Some FlowControlReasonObjectiveReconciled" for s
    proof -
      from s obtain m where m: "m \<in> set ?models" "s = mf_Status m" unfolding run(1) result_of_def by auto
      obtain ob where ob: "ob \<in> set ?owned" "io_key ob = (fc_Namespace (mf_Status m), fc_ObjectiveName (mf_Status m))"
        "io_key ob \<in> fst ` set (fr_Desired ?res)" "isManaged (io_meta ob)"
        "ms_InferencePriority sub \<noteq> None" "io_Priority ob = ms_InferencePriority sub"
        using reconciled_model [OF inv models m(1)] s(2) m(2) by blast
      then have "ob \<in> set store'" by (intro kept) auto
      with ob m(2) show ?thesis by auto
    qed
    moreover have "io_key ob \<in> fst ` set (fr_Desired ?res)"
      if "errs = []" "ob \<in> set store'" "owned_by sub ob" "isManaged (io_meta ob)" for ob
    proof (rule ccontr)
      assume ob: "io_key ob \<notin> fst ` set (fr_Desired ?res)"
      have "es = fr_errs ?res @ drop (length (fr_errs ?res)) es"
        using apply_loop_errs [of E sub "fr_Desired ?res" ?keys "(fr_Models ?res, False, fr_errs ?res, [])" store] a by auto
      with that(1) run(3) have "fr_errs ?res = []" by (auto split: if_splits)
      with resolveFlowControl_errs have c: "fr_Complete ?res" by blast
      obtain P where P: "snd ?del = filter P store1" using delete_io_subset by blast
      with that(2-4) c run(2) have "ob \<in> set ?owned" by auto
      moreover have "fst ?del = []" using that(1) run(3) c by simp
      moreover have "io_key ob \<notin> set ?keys" using ob by simp
      ultimately have "io_key ob \<notin> io_key ` set (snd ?del)"
        using delete_io_complete [OF _ assms(4) _ that(4)] by blast
      with that(2) c run(2) show False by auto
    qed
    ultimately show ?thesis by blast
  qed
qed

section \<open>A model with a pool\<close>

text \<open>Whether an update is needed can be computed: the generated metadata is already there.\<close>

lemma map_add_same: "m ++ f = m \<longleftrightarrow> (\<forall>k v. f k = Some v \<longrightarrow> m k = Some v)"
proof
  assume "m ++ f = m"
  then show "\<forall>k v. f k = Some v \<longrightarrow> m k = Some v" by (metis map_add_find_right)
next
  assume "\<forall>k v. f k = Some v \<longrightarrow> m k = Some v"
  then show "m ++ f = m" by (intro ext) (simp add: map_add_def split: option.splits)
qed

definition objective_current :: "maasSubscription \<Rightarrow> desiredObjective \<Rightarrow> inferenceObjective \<Rightarrow> bool" where
  "objective_current sub d existing \<longleftrightarrow>
     list_all (\<lambda>(k, v). om_Labels (io_meta existing) k = Some v)
       (inferenceObjectiveOwnerLabels @ [(labelSubscriptionNamespace, om_Namespace (ms_meta sub)), (labelSubscriptionUID, om_UID (ms_meta sub))]) \<and>
     om_Annotations (io_meta existing) annotationSubscriptionName = Some (om_Name (ms_meta sub)) \<and>
     om_Annotations (io_meta existing) annotationInferenceObjTenantName = Some (do_TenantName d) \<and>
     io_Priority existing = Some (do_Priority d) \<and> io_Pool existing = do_Pool d"

lemma map_add_list:
  assumes "distinct (map fst xs)"
  shows "m ++ map_of xs = m \<longleftrightarrow> list_all (\<lambda>(k, v). m k = Some v) xs"
  unfolding map_add_same list_all_iff using assms by (auto simp: map_of_eq_Some_iff)

lemma meta_same: "(x :: objectMeta)\<lparr>om_Labels := a, om_Annotations := b\<rparr> = x \<longleftrightarrow> a = om_Labels x \<and> b = om_Annotations x"
  by (cases x) simp

lemma objective_same:
  "(y :: inferenceObjective)\<lparr>io_meta := m, io_Priority := p, io_Pool := q\<rparr> = y \<longleftrightarrow> m = io_meta y \<and> p = io_Priority y \<and> q = io_Pool y"
  by (cases y) simp

lemma merge_objective_same:
  "merge_objective (buildInferenceObjective sub key d) existing = existing \<longleftrightarrow> objective_current sub d existing"
proof -
  have "merge_objective desired existing = existing \<longleftrightarrow>
      om_Labels (io_meta existing) ++ om_Labels (io_meta desired) = om_Labels (io_meta existing) \<and>
      om_Annotations (io_meta existing) ++ om_Annotations (io_meta desired) = om_Annotations (io_meta existing) \<and>
      io_Priority desired = io_Priority existing \<and> io_Pool desired = io_Pool existing" for desired
    unfolding merge_objective_def objective_same meta_same by blast
  moreover have "om_Labels (io_meta (buildInferenceObjective sub key d)) =
      map_of ((labelSubscriptionUID, om_UID (ms_meta sub)) # (labelSubscriptionNamespace, om_Namespace (ms_meta sub)) # inferenceObjectiveOwnerLabels)"
    "om_Annotations (io_meta (buildInferenceObjective sub key d)) =
      map_of [(annotationInferenceObjTenantName, do_TenantName d), (annotationSubscriptionName, om_Name (ms_meta sub))]"
    by (simp_all add: buildInferenceObjective_def)
  moreover have "distinct (map fst ((labelSubscriptionUID, u) # (labelSubscriptionNamespace, n) # inferenceObjectiveOwnerLabels))"
    "distinct (map fst [(annotationInferenceObjTenantName, t), (annotationSubscriptionName, n)])" for u n t
    by (simp_all add: inferenceObjectiveOwnerLabels_def)
  ultimately show ?thesis
    by (auto simp only: map_add_list objective_current_def list_all_append list.pred_inject prod.case
        buildInferenceObjective_def inferenceObjective.simps)
qed

lemmas applyInferenceObjective_code [code] = applyInferenceObjective_def [unfolded Let_def merge_objective_same]

definition ex_ioEnv :: ioEnv where
  "ex_ioEnv = \<lparr>ie_unavailable = False, ie_childName = (\<lambda>a b. ''io'' @ a @ b), ie_get = (\<lambda>_. None), ie_create = (\<lambda>_. None),
     ie_update = (\<lambda>_. None), ie_delete = (\<lambda>_. None), ie_list = None\<rparr>"

definition ex_pool :: inferencePoolRef where
  "ex_pool = \<lparr>ip_Group = [], ip_Kind = [], ip_Name = ''p''\<rparr>"

definition ex_ioCluster :: cluster where
  "ex_ioCluster = ex_cluster\<lparr>cl_LLMInferenceService := (\<lambda>ns n. Inr \<lparr>lm_Name = n, lm_Namespace = ns, lm_GroupMembers = None,
     lm_Pool = Some (ex_pool, None), lm_Conditions = []\<rparr>)\<rparr>"

definition ex_ioSub :: maasSubscription where
  "ex_ioSub = (ex_maasSub ''t'' ''s'')\<lparr>ms_InferencePriority := Some 5\<rparr>"

text \<open>An objective of nobody, one of this subscription that is no longer needed.\<close>

definition ex_foreign :: inferenceObjective where
  "ex_foreign = \<lparr>io_meta = ex_meta ''m'' ''other'', io_Priority = None, io_Pool = ex_pool\<rparr>"

definition ex_stale :: inferenceObjective where
  "ex_stale = buildInferenceObjective ex_ioSub (''m'', ''stale'')
     \<lparr>do_Pool = ex_pool, do_TenantName = [], do_Priority = 1, do_Models = []\<rparr>"

lemma ex_statuses:
  "map fc_Reason (ir_Statuses (fst (reconcileInferenceObjectives example_libs ex_settings ex_ioCluster ex_ioEnv ex_ioSub [ex_foreign, ex_stale])))
    = [Some FlowControlReasonObjectiveReconciled]"
  by code_simp

lemma ex_store: "unique_io [ex_foreign, ex_stale]" "om_Namespace (ms_meta ex_ioSub) \<noteq> []" "hands_off ex_ioSub ex_foreign"
  by code_simp+

theorem objectives_safety_witness:
  "ex_foreign \<in> set (snd (snd (reconcileInferenceObjectives example_libs ex_settings ex_ioCluster ex_ioEnv ex_ioSub [ex_foreign, ex_stale])))"
  using objectives_safety [OF ex_store(1,2) refl, of example_libs ex_settings ex_ioCluster ex_ioEnv] ex_store(3) by auto

theorem objectives_status_sound_witness:
  "\<exists>ob\<in>set (snd (snd (reconcileInferenceObjectives example_libs ex_settings ex_ioCluster ex_ioEnv ex_ioSub [ex_foreign, ex_stale]))).
     owned_by ex_ioSub ob \<and> io_Priority ob = Some 5"
proof -
  obtain result errs store' where
    run: "reconcileInferenceObjectives example_libs ex_settings ex_ioCluster ex_ioEnv ex_ioSub [ex_foreign, ex_stale] = (result, errs, store')"
    by (metis prod.exhaust)
  have env: "\<forall>a b. ie_childName ex_ioEnv a b \<noteq> []" "ie_list ex_ioEnv = None" "\<forall>k. ie_delete ex_ioEnv k \<noteq> Some ApiNotFound"
    by (simp_all add: ex_ioEnv_def)
  obtain s where "s \<in> set (ir_Statuses result)" "fc_Reason s = Some FlowControlReasonObjectiveReconciled"
    using ex_statuses unfolding run by auto
  with objectives_status_sound [OF run env ex_store(1,2)] show ?thesis
    unfolding run by (auto simp: ex_ioSub_def)
qed

end
