(* ===== verification/SubscriptionController.thy ===== *)
theory SubscriptionController
  imports InferenceObjectives
begin

text \<open>
  The reconciler of MaaSSubscription (\<open>maassubscription_controller.go\<close>): statuses of models
  and policies, the phase, revocation of API keys by a Job, deletion with the finalizer,
  the reconcile function, the scan for duplicate priorities and the maps from watched
  objects to subscriptions. The state is the subscription in the API server, the policies,
  the objectives and the cleanup Jobs; \<open>subEnv\<close> has the server's answers and the helpers
  of \<open>apimeta\<close> for conditions. Events, logs, transition times and the error texts that the
  code appends to messages are left out.
\<close>

section \<open>State and environment\<close>

record job =
  jb_Name :: string
  jb_Namespace :: string
  jb_UID :: string
  jb_Tenant :: string
  jb_Subscription :: string
  jb_Conditions :: "(string \<times> string) list"

record subEnv =
  se_trlp :: trlpEnv
  se_io :: ioEnv
  se_get :: "apiError option"
  se_finalizer :: "apiError option"
  se_identity :: "apiError option"
  se_latest :: "apiError option"
  se_others :: "maasSubscription \<Rightarrow> maasSubscription"
  se_status :: "apiError option"
  se_jobGet :: "apiError option"
  se_jobCreate :: "apiError option"
  se_jobDelete :: "apiError option"
  se_setCondition :: "condition \<Rightarrow> condition list \<Rightarrow> condition list"
  se_removeCondition :: "string \<Rightarrow> condition list \<Rightarrow> condition list"
  se_findCondition :: "string \<Rightarrow> condition list \<Rightarrow> condition option"

record subState =
  ss_sub :: "maasSubscription option"
  ss_policies :: "trlp list"
  ss_objectives :: ioStore
  ss_jobs :: "job list"

abbreviation PhaseActive :: string where "PhaseActive \<equiv> ''Active''"
abbreviation PhaseDegraded :: string where "PhaseDegraded \<equiv> ''Degraded''"
abbreviation PhaseFailed :: string where "PhaseFailed \<equiv> ''Failed''"
abbreviation PhaseInvalid :: string where "PhaseInvalid \<equiv> ''Invalid''"
abbreviation ReasonNotFound :: string where "ReasonNotFound \<equiv> ''NotFound''"
abbreviation ReasonGetFailed :: string where "ReasonGetFailed \<equiv> ''GetFailed''"
abbreviation ReasonBackendNotReady :: string where "ReasonBackendNotReady \<equiv> ''BackendNotReady''"

section \<open>Statuses of models and policies\<close>

fun distinct_refs :: "string list \<Rightarrow> modelSubscriptionRef list \<Rightarrow> modelSubscriptionRef list" where
  "distinct_refs seen [] = []"
| "distinct_refs seen (r # rs) =
     (let k = msr_Namespace r @ ''/'' @ msr_Name r in
      if k \<in> set seen then distinct_refs seen rs else r # distinct_refs (k # seen) rs)"

definition model_status :: "cluster \<Rightarrow> modelSubscriptionRef \<Rightarrow> resourceRefStatus" where
  "model_status c ref =
     (let status = (\<lambda>ready reason message. \<lparr>rrs_Name = msr_Name ref, rrs_Namespace = msr_Namespace ref, rrs_Ready = ready,
            rrs_Reason = reason, rrs_Message = message\<rparr>)
      in case cl_Model c (msr_Namespace ref) (msr_Name ref) of
           Inl ApiNotFound \<Rightarrow> status False ReasonNotFound (''MaaSModelRef '' @ msr_Namespace ref @ ''/'' @ msr_Name ref @ '' not found'')
         | Inl _ \<Rightarrow> status False ReasonGetFailed ''failed to get MaaSModelRef''
         | Inr _ \<Rightarrow> status True ''Valid'' [])"

definition validateModelRefs :: "cluster \<Rightarrow> maasSubscription \<Rightarrow> resourceRefStatus list" where
  "validateModelRefs c sub = map (model_status c) (distinct_refs [] (ms_ModelRefs sub))"

fun accepted_loop :: "json list \<Rightarrow> bool \<times> string" where
  "accepted_loop [] = (False, ''Accepted condition not found'')"
| "accepted_loop (j # js) =
     (case as_obj j of
        None \<Rightarrow> accepted_loop js
      | Some cond \<Rightarrow>
        if map_of cond ''type'' \<noteq> Some (JStr ''Accepted'') then accepted_loop js
        else if map_of cond ''status'' = Some (JStr ''True'') then (True, [])
        else (case field as_string cond ''message'' of
                Some msg \<Rightarrow> (False, msg)
              | None \<Rightarrow> (False, ''Accepted condition is False'')))"

definition getTRLPAcceptedCondition :: "libs \<Rightarrow> jobj \<Rightarrow> bool \<times> string" where
  "getTRLPAcceptedCondition L object =
     (case NestedMap L object [''status''] of
        (status, True, None) \<Rightarrow>
          (case NestedSlice L status [''conditions''] of
             (conditions, True, None) \<Rightarrow> accepted_loop conditions
           | _ \<Rightarrow> (False, ''conditions not found''))
      | _ \<Rightarrow> (False, ''status not available''))"

definition trlp_object :: "trlp \<Rightarrow> jobj" where
  "trlp_object t = (if tp_Status t = [] then [] else [(''status'', JObj (tp_Status t))])"

definition gateway_suffix :: "cluster \<Rightarrow> string \<Rightarrow> string \<Rightarrow> string \<Rightarrow> string \<Rightarrow> string" where
  "gateway_suffix c modelNamespace modelName routeName routeNS =
     (let suffix = (\<lambda>g. '' on gateway '' @ gw_Namespace g @ ''/'' @ gw_Name g) in
      case selectedGatewayForModel c modelNamespace modelName of
        Inr (Some g) \<Rightarrow> suffix g
      | _ \<Rightarrow>
        (case cl_Route c routeNS routeName of
           Inr route \<Rightarrow> (case routeGatewayForTRLP route of Some g \<Rightarrow> suffix g | None \<Rightarrow> [])
         | Inl _ \<Rightarrow> []))"

definition policy_status ::
    "libs \<Rightarrow> cluster \<Rightarrow> trlpEnv \<Rightarrow> tenantError + gatewayRef \<Rightarrow> trlp list \<Rightarrow> modelSubscriptionRef \<Rightarrow> trlpStatus" where
  "policy_status L c E gateway store ref =
     (let policyName = ''maas-trlp-'' @ msr_Name ref;
          status = (\<lambda>ns ready reason message. \<lparr>rrs_Name = policyName, rrs_Namespace = ns, rrs_Ready = ready, rrs_Reason = reason,
            rrs_Message = message, ts_Model = msr_Name ref\<rparr>)
      in case findHTTPRouteForModel L c (msr_Namespace ref) (msr_Name ref) of
           Inl e \<Rightarrow>
             if e = ErrHTTPRouteNotFound \<or> e = ErrModelNotFound
             then status (msr_Namespace ref) False ReasonBackendNotReady ''HTTPRoute not found yet; TokenRateLimitPolicy cannot be created''
             else status (msr_Namespace ref) False ReasonGetFailed ''failed to find HTTPRoute for model''
         | Inr (routeName, routeNS) \<Rightarrow>
           (case gateway of
              Inl _ \<Rightarrow> status routeNS False ReasonGetFailed ''failed to resolve tenant gateway for subscription namespace''
            | Inr ref' \<Rightarrow>
              (case validateHTTPRouteReferencesGateway c routeName routeNS ref' of
                 Some ErrHTTPRouteNotOnTenantGateway \<Rightarrow>
                   status routeNS False ReasonBackendNotReady ''HTTPRoute is not attached to the subscription tenant gateway''
               | Some _ \<Rightarrow> status routeNS False ReasonGetFailed ''failed to validate HTTPRoute against tenant gateway''
               | None \<Rightarrow>
                 (let suffix = gateway_suffix c (msr_Namespace ref) (msr_Name ref) routeName routeNS in
                  case get_trlp E (routeNS, policyName) store of
                    Inl ApiNotFound \<Rightarrow> status routeNS False ReasonNotFound (''TokenRateLimitPolicy not created yet'' @ suffix)
                  | Inl _ \<Rightarrow> status routeNS False ReasonGetFailed ''failed to get TokenRateLimitPolicy''
                  | Inr t \<Rightarrow>
                    (case getTRLPAcceptedCondition L (trlp_object t) of
                       (True, _) \<Rightarrow> status routeNS True ''Accepted'' []
                     | (False, message) \<Rightarrow> status routeNS False ''NotAccepted'' (message @ suffix))))))"

definition checkTokenRateLimitHealth ::
    "libs \<Rightarrow> settings \<Rightarrow> cluster \<Rightarrow> trlpEnv \<Rightarrow> maasSubscription \<Rightarrow> trlp list \<Rightarrow> trlpStatus list" where
  "checkTokenRateLimitHealth L S c E sub store =
     map (policy_status L c E (tenantGatewayRefForNamespace S c (om_Namespace (ms_meta sub))) store) (distinct_refs [] (ms_ModelRefs sub))"

section \<open>The phase\<close>

definition backend_issue :: "resourceRefStatus list \<Rightarrow> trlpStatus \<Rightarrow> bool" where
  "backend_issue modelStatuses s \<longleftrightarrow>
     \<not> rrs_Ready s \<and> rrs_Reason s = ReasonBackendNotReady \<and> (\<exists>m\<in>set modelStatuses. rrs_Ready m \<and> rrs_Name m = ts_Model s)"

definition count_of :: "int \<Rightarrow> nat \<Rightarrow> string" where
  "count_of a n = format_int a @ '' of '' @ Itoa n"

definition deriveFinalPhase :: "resourceRefStatus list \<Rightarrow> trlpStatus list \<Rightarrow> string \<times> string" where
  "deriveFinalPhase modelStatuses trlpStatuses =
     (if modelStatuses = [] then (PhaseFailed, ''no model references specified'')
      else
        (let validModels = int (length (filter rrs_Ready modelStatuses));
             invalidModels = int (length (filter (\<lambda>m. \<not> rrs_Ready m) modelStatuses));
             unhealthyTRLPs = int (length (filter (\<lambda>s. \<not> rrs_Ready s) trlpStatuses));
             modelsWithBackendIssues = int (length (filter (backend_issue modelStatuses) trlpStatuses));
             effectiveValidModels = validModels - modelsWithBackendIssues;
             effectiveInvalidModels = invalidModels + modelsWithBackendIssues;
             trlpOnlyIssues = unhealthyTRLPs - modelsWithBackendIssues
         in if effectiveValidModels \<le> 0 then
              (PhaseFailed, ''all '' @ Itoa (length modelStatuses) @ '' model references are invalid or unavailable'')
            else if effectiveInvalidModels > 0 then
              (PhaseDegraded, count_of effectiveInvalidModels (length modelStatuses) @ '' model references are invalid or unavailable'')
            else if trlpOnlyIssues > 0 then
              (PhaseDegraded, count_of trlpOnlyIssues (length trlpStatuses) @ '' TokenRateLimitPolicies not accepted'')
            else (PhaseActive, ''successfully reconciled'')))"

text \<open>The correction of model statuses by the policy statuses; a later policy entry wins.\<close>

definition correct_models :: "trlpStatus list \<Rightarrow> resourceRefStatus list \<Rightarrow> resourceRefStatus list" where
  "correct_models trlpStatuses modelStatuses =
     (let backendNotReady = fold (\<lambda>ts m. if rrs_Reason ts = ReasonBackendNotReady
            then m(rrs_Namespace ts @ ''/'' @ ts_Model ts \<mapsto> rrs_Message ts) else m) trlpStatuses Map.empty
      in map (\<lambda>m. if rrs_Ready m
           then (case backendNotReady (rrs_Namespace m @ ''/'' @ rrs_Name m) of
                   Some msg \<Rightarrow> m\<lparr>rrs_Ready := False, rrs_Reason := ReasonNotFound, rrs_Message := msg\<rparr>
                 | None \<Rightarrow> m)
           else m) modelStatuses)"

section \<open>Writing the status\<close>

datatype subError =
    SubApi apiError
  | SubTenant tenantError
  | SubPolicies reconcileError
  | SubObjectives ioError
  | SubJob apiError
  | SubJobFailed
  | SubNoAppNamespace

text \<open>The status part of an object.\<close>

definition status_of ::
    "maasSubscription \<Rightarrow> string \<times> condition list \<times> string \<times> resourceRefStatus list \<times> trlpStatus list \<times> modelFlowControlStatus list" where
  "status_of sub = (ms_Phase sub, ms_Conditions sub, ms_StatusRateLimitIdentity sub, ms_ModelRefStatuses sub,
     ms_TokenRateLimitStatuses sub, ms_FlowControlStatuses sub)"

definition with_status_of :: "maasSubscription \<Rightarrow> maasSubscription \<Rightarrow> maasSubscription" where
  "with_status_of src target =
     target\<lparr>ms_Phase := ms_Phase src, ms_Conditions := ms_Conditions src, ms_StatusRateLimitIdentity := ms_StatusRateLimitIdentity src,
       ms_ModelRefStatuses := ms_ModelRefStatuses src, ms_TokenRateLimitStatuses := ms_TokenRateLimitStatuses src,
       ms_FlowControlStatuses := ms_FlowControlStatuses src\<rparr>"

abbreviation ConditionSpecPriorityDuplicate :: string where "ConditionSpecPriorityDuplicate \<equiv> ''SpecPriorityDuplicate''"

definition ready_condition :: "string \<Rightarrow> string \<Rightarrow> int \<Rightarrow> condition" where
  "ready_condition phase message gen =
     (let (status, reason) =
        (if phase = PhaseActive then (''True'', ''Reconciled'')
         else if phase = PhaseDegraded then (''False'', ''PartialFailure'')
         else if phase = PhaseFailed then (''False'', ''ReconcileFailed'')
         else if phase = PhaseInvalid then (''False'', ''InvalidSpec'')
         else (''Unknown'', ''Unknown''))
      in \<lparr>cd_Type = ''Ready'', cd_Status = status, cd_Reason = reason, cd_Message = message, cd_ObservedGeneration = gen\<rparr>)"

definition updateStatus ::
    "subEnv \<Rightarrow> maasSubscription \<Rightarrow> string \<Rightarrow> string \<Rightarrow> maasSubscription \<Rightarrow> subState \<Rightarrow> subError option \<times> subState" where
  "updateStatus E sub phase message snapshot st0 =
     (let st = st0\<lparr>ss_sub := map_option (se_others E) (ss_sub st0)\<rparr>;
          latest = (case se_latest E of Some _ \<Rightarrow> None | None \<Rightarrow> ss_sub st);
          current = (case latest of None \<Rightarrow> status_of snapshot | Some l \<Rightarrow> status_of l);
          target = (case latest of None \<Rightarrow> sub | Some l \<Rightarrow> l);
          merged = (case latest of
             None \<Rightarrow> ms_Conditions sub
           | Some l \<Rightarrow> (case se_findCondition E ConditionSpecPriorityDuplicate (ms_Conditions l) of
                         None \<Rightarrow> ms_Conditions sub | Some dup \<Rightarrow> se_setCondition E dup (ms_Conditions sub)));
          sub = sub\<lparr>ms_Phase := phase,
                ms_Conditions := se_setCondition E (ready_condition phase message (om_Generation (ms_meta sub))) merged\<rparr>
      in if current = status_of sub then (None, st)
         else
           (case (se_status E, ss_sub st) of
              (Some e, _) \<Rightarrow> (Some (SubApi e), st)
            | (None, None) \<Rightarrow> (Some (SubApi ApiNotFound), st)
            | (None, Some _) \<Rightarrow> (None, st\<lparr>ss_sub := Some (with_status_of sub target)\<rparr>)))"

section \<open>Revoking the API keys\<close>

definition TrimSuffix_dash :: "string \<Rightarrow> string" where
  "TrimSuffix_dash s = (if s \<noteq> [] \<and> last s = CHR ''-'' then butlast s else s)"

definition aitenantBoundedName :: "libs \<Rightarrow> string \<Rightarrow> string \<Rightarrow> string \<Rightarrow> nat \<Rightarrow> string" where
  "aitenantBoundedName L prefix aitenantName suffix maxLength =
     (let name = prefix @ aitenantName @ suffix in
      if length name \<le> maxLength then name
      else
        (let hash = take 8 (sha256hex L aitenantName);
             budget = int maxLength - int (length prefix) - int (length suffix) - int (length hash) - 1
         in if budget < 1 then
              (let fallback = TrimSuffix_dash prefix @ ''-'' @ hash @ suffix in
               if length fallback \<le> maxLength then fallback else TrimSuffix_dash prefix @ ''-'' @ hash)
            else
              (let trimmed = trim_name (take (nat budget) aitenantName);
                   trimmed = (if trimmed = [] then hash else trimmed)
               in prefix @ trimmed @ suffix @ ''-'' @ hash)))"

definition subscriptionAPIKeyRevocationJob :: "libs \<Rightarrow> maasSubscription \<Rightarrow> string \<Rightarrow> string \<Rightarrow> job" where
  "subscriptionAPIKeyRevocationJob L sub tenantName namespace =
     (let meta = ms_meta sub in
      \<lparr>jb_Name = aitenantBoundedName L ''maas-api-revoke-sub-'' (om_Namespace meta @ ''-'' @ om_Name meta) (om_UID meta) 57,
       jb_Namespace = namespace, jb_UID = om_UID meta, jb_Tenant = tenantName, jb_Subscription = om_Name meta, jb_Conditions = []\<rparr>)"

definition jobComplete :: "job \<Rightarrow> bool" where
  "jobComplete j \<longleftrightarrow> list_ex (\<lambda>(t, s). t = ''Complete'' \<and> s = ''True'') (jb_Conditions j)"

definition jobFailed :: "job \<Rightarrow> bool" where
  "jobFailed j \<longleftrightarrow> list_ex (\<lambda>(t, s). t = ''Failed'' \<and> s = ''True'') (jb_Conditions j)"

definition job_key :: "job \<Rightarrow> nsname" where
  "job_key j = (jb_Namespace j, jb_Name j)"

definition get_job :: "subEnv \<Rightarrow> nsname \<Rightarrow> job list \<Rightarrow> apiError + job" where
  "get_job E key jobs =
     (case se_jobGet E of
        Some e \<Rightarrow> Inl e
      | None \<Rightarrow> (case find (\<lambda>j. job_key j = key) jobs of None \<Rightarrow> Inl ApiNotFound | Some j \<Rightarrow> Inr j))"

definition create_job :: "subEnv \<Rightarrow> job \<Rightarrow> job list \<Rightarrow> apiError option \<times> job list" where
  "create_job E j jobs =
     (case se_jobCreate E of
        Some e \<Rightarrow> (Some e, jobs)
      | None \<Rightarrow> if job_key j \<in> job_key ` set jobs then (Some ApiAlreadyExists, jobs) else (None, jobs @ [j]))"

definition delete_job :: "subEnv \<Rightarrow> job \<Rightarrow> job list \<Rightarrow> apiError option \<times> job list" where
  "delete_job E j jobs =
     (case se_jobDelete E of
        Some e \<Rightarrow> (if e = ApiNotFound then None else Some e, jobs)
      | None \<Rightarrow> (None, filter (\<lambda>x. job_key x \<noteq> job_key j) jobs))"

abbreviation retainAPIKeysOnDeleteAnnotation :: string where
  "retainAPIKeysOnDeleteAnnotation \<equiv> ''maas.opendatahub.io/retain-api-keys-on-delete''"

text \<open>Whether the keys are revoked, or an error, and the Jobs afterwards.\<close>

definition ensureSubscriptionAPIKeysRevoked ::
    "libs \<Rightarrow> settings \<Rightarrow> cluster \<Rightarrow> subEnv \<Rightarrow> maasSubscription \<Rightarrow> job list \<Rightarrow> (subError + bool) \<times> job list" where
  "ensureSubscriptionAPIKeysRevoked L S c E sub jobs =
     (if label_value (om_Annotations (ms_meta sub)) retainAPIKeysOnDeleteAnnotation = ''true'' then (Inr True, jobs)
      else if TrimSpace (st_AppNamespace S) = [] then (Inl SubNoAppNamespace, jobs)
      else
        (case fetchTenantForNamespace c (om_Namespace (ms_meta sub)) of
           Inl ApiNotFound \<Rightarrow> (Inr True, jobs)
         | Inl e \<Rightarrow> (Inl (SubApi e), jobs)
         | Inr tenant \<Rightarrow>
           (case TenantIdentifierFor tenant of
              Inl e \<Rightarrow> (Inl (SubTenant e), jobs)
            | Inr tenantID \<Rightarrow>
              (let tenantName = (if tenantID = [] then DefaultAITenantName else tenantID);
                   j = subscriptionAPIKeyRevocationJob L sub tenantName (st_AppNamespace S)
               in case get_job E (job_key j) jobs of
                    Inl ApiNotFound \<Rightarrow>
                      (case create_job E j jobs of
                         (Some e, jobs) \<Rightarrow> (if e = ApiAlreadyExists then Inr False else Inl (SubJob e), jobs)
                       | (None, jobs) \<Rightarrow> (Inr False, jobs))
                  | Inl e \<Rightarrow> (Inl (SubJob e), jobs)
                  | Inr existing \<Rightarrow>
                    if jb_UID existing \<noteq> om_UID (ms_meta sub) then
                      (case delete_job E existing jobs of
                         (Some e, jobs) \<Rightarrow> (Inl (SubJob e), jobs)
                       | (None, jobs) \<Rightarrow> (Inr False, jobs))
                    else if jobComplete existing then (Inr True, jobs)
                    else if jobFailed existing then
                      (case delete_job E existing jobs of
                         (Some e, jobs) \<Rightarrow> (Inl (SubJob e), jobs)
                       | (None, jobs) \<Rightarrow> (Inl SubJobFailed, jobs))
                    else (Inr False, jobs)))))"

section \<open>Deletion\<close>

datatype outcome = Done | RequeueAfter nat | Failed "subError list"

text \<open>An object without finalizers that is being deleted is gone.\<close>

definition put_sub :: "maasSubscription \<Rightarrow> subState \<Rightarrow> subState" where
  "put_sub sub st =
     st\<lparr>ss_sub := (if om_Deleting (ms_meta sub) \<and> om_Finalizers (ms_meta sub) = [] then None else Some sub)\<rparr>"

definition handleDeletion ::
    "libs \<Rightarrow> settings \<Rightarrow> cluster \<Rightarrow> subEnv \<Rightarrow> int \<Rightarrow> maasSubscription \<Rightarrow> subState \<Rightarrow> outcome \<times> subState" where
  "handleDeletion L S c E epoch sub st =
     (if maasSubscriptionFinalizer \<notin> set (om_Finalizers (ms_meta sub)) then (Done, st)
      else
        (case ensureSubscriptionAPIKeysRevoked L S c E sub (ss_jobs st) of
           (Inl e, jobs) \<Rightarrow> (Failed [e], st\<lparr>ss_jobs := jobs\<rparr>)
         | (Inr False, jobs) \<Rightarrow> (RequeueAfter 10, st\<lparr>ss_jobs := jobs\<rparr>)
         | (Inr True, jobs) \<Rightarrow>
           (let st = st\<lparr>ss_jobs := jobs\<rparr> in
            case each_model (reconcileTRLPForModel L S c (se_trlp E) epoch) [] (ms_ModelRefs sub) (ss_policies st) of
              (Some e, policies) \<Rightarrow> (Failed [SubPolicies e], st\<lparr>ss_policies := policies\<rparr>)
            | (None, policies) \<Rightarrow>
              (case cleanupStaleTRLPs (se_trlp E) sub policies of
                 (Some e, policies) \<Rightarrow> (Failed [SubPolicies e], st\<lparr>ss_policies := policies\<rparr>)
               | (None, policies) \<Rightarrow>
                 (let st = st\<lparr>ss_policies := policies\<rparr>;
                      (errs, objectives) = (if ie_unavailable (se_io E) then ([], ss_objectives st)
                        else deleteOwnedInferenceObjectives (se_io E) sub (ss_objectives st));
                      st = st\<lparr>ss_objectives := objectives\<rparr>
                  in if errs \<noteq> [] then (Failed (map SubObjectives errs), st)
                     else
                       (case se_finalizer E of
                          Some e \<Rightarrow> (Failed [SubApi e], st)
                        | None \<Rightarrow>
                          (Done, put_sub (sub\<lparr>ms_meta := (ms_meta sub)\<lparr>om_Finalizers :=
                             removeAll maasSubscriptionFinalizer (om_Finalizers (ms_meta sub))\<rparr>\<rparr>) st)))))))"

section \<open>Reconciling\<close>

definition spec_empty :: "maasSubscription \<Rightarrow> bool" where
  "spec_empty sub \<longleftrightarrow>
     ms_ModelRefs sub = [] \<and> ms_Priority sub = 0 \<and> ms_InferencePriority sub = None \<and> ms_RateLimitIdentity sub = [] \<and> \<not> ms_OtherSpec sub"

text \<open>The finalizer and the sticky identity, before any policy is written.\<close>

definition prepare :: "subEnv \<Rightarrow> int \<Rightarrow> maasSubscription \<Rightarrow> subState \<Rightarrow> (subError + maasSubscription) \<times> subState" where
  "prepare E epoch sub st =
     (let wantIdentity = classifiedRateLimitIdentity epoch sub;
          (r, st) = (if maasSubscriptionFinalizer \<in> set (om_Finalizers (ms_meta sub)) then (Inr sub, st)
            else
              (let sub = sub\<lparr>ms_meta := (ms_meta sub)\<lparr>om_Finalizers := om_Finalizers (ms_meta sub) @ [maasSubscriptionFinalizer]\<rparr>\<rparr> in
               case se_finalizer E of Some e \<Rightarrow> (Inl (SubApi e), st) | None \<Rightarrow> (Inr sub, put_sub sub st)))
      in case r of
           Inl e \<Rightarrow> (Inl e, st)
         | Inr sub \<Rightarrow>
           if ms_StatusRateLimitIdentity sub = wantIdentity then (Inr sub, st)
           else
             (let sub = sub\<lparr>ms_StatusRateLimitIdentity := wantIdentity\<rparr> in
              case se_identity E of Some e \<Rightarrow> (Inl (SubApi e), st) | None \<Rightarrow> (Inr sub, put_sub sub st)))"

text \<open>Model statuses and request priority, which do not depend on the policies.\<close>

definition pre_status ::
    "libs \<Rightarrow> settings \<Rightarrow> cluster \<Rightarrow> subEnv \<Rightarrow> maasSubscription \<Rightarrow> subState
     \<Rightarrow> maasSubscription \<times> bool \<times> string \<times> bool \<times> ioError list \<times> subState" where
  "pre_status L S c E sub st =
     (case reconcileInferenceObjectives L S c (se_io E) sub (ss_objectives st) of (io, ioErrs, objectives) \<Rightarrow>
      (let sub = sub\<lparr>ms_ModelRefStatuses := validateModelRefs c sub, ms_FlowControlStatuses := ir_Statuses io\<rparr>;
           st = st\<lparr>ss_objectives := objectives\<rparr>
       in case inferenceObjectivesCondition sub (ir_Statuses io) of
            Some (cond, degraded) \<Rightarrow>
              (sub\<lparr>ms_Conditions := se_setCondition E cond (ms_Conditions sub)\<rparr>, degraded, cd_Message cond, ir_Conflict io, ioErrs, st)
          | None \<Rightarrow>
              (sub\<lparr>ms_Conditions := se_removeCondition E ConditionInferenceObjectivesReady (ms_Conditions sub)\<rparr>,
               False, [], ir_Conflict io, ioErrs, st)))"

definition reconcile_policies ::
    "libs \<Rightarrow> settings \<Rightarrow> cluster \<Rightarrow> subEnv \<Rightarrow> int \<Rightarrow> maasSubscription \<Rightarrow> subState \<Rightarrow> reconcileError option \<times> subState" where
  "reconcile_policies L S c E epoch sub st =
     (case (if list_ex rrs_Ready (ms_ModelRefStatuses sub)
            then reconcileTokenRateLimitPolicies L S c (se_trlp E) epoch sub (ss_policies st)
            else cleanupStaleTRLPs (se_trlp E) sub (ss_policies st)) of
        (e, policies) \<Rightarrow> (e, st\<lparr>ss_policies := policies\<rparr>))"

definition finish ::
    "libs \<Rightarrow> settings \<Rightarrow> cluster \<Rightarrow> subEnv \<Rightarrow> maasSubscription \<Rightarrow> maasSubscription \<Rightarrow> bool \<Rightarrow> string \<Rightarrow> bool \<Rightarrow> ioError list \<Rightarrow> subState
     \<Rightarrow> outcome \<times> subState" where
  "finish L S c E snapshot sub ioDegraded ioMessage conflict ioErrs st =
     (let trlpStatuses = checkTokenRateLimitHealth L S c (se_trlp E) sub (ss_policies st);
          modelStatuses = correct_models trlpStatuses (ms_ModelRefStatuses sub);
          sub = sub\<lparr>ms_TokenRateLimitStatuses := trlpStatuses, ms_ModelRefStatuses := modelStatuses\<rparr>;
          (phase, message) = deriveFinalPhase modelStatuses trlpStatuses;
          (phase, message) = (if phase = PhaseActive \<and> ioDegraded then (PhaseDegraded, ioMessage) else (phase, message))
      in case updateStatus E sub phase message snapshot st of
           (Some e, st) \<Rightarrow> (Failed (e # map SubObjectives ioErrs), st)
         | (None, st) \<Rightarrow>
           if ioErrs \<noteq> [] then (Failed (map SubObjectives ioErrs), st)
           else if conflict then (RequeueAfter 300, st)
           else (Done, st))"

definition Reconcile ::
    "libs \<Rightarrow> settings \<Rightarrow> cluster \<Rightarrow> subEnv \<Rightarrow> int \<Rightarrow> subState \<Rightarrow> outcome \<times> subState" where
  "Reconcile L S c E epoch st =
     (case se_get E of
        Some ApiNotFound \<Rightarrow> (Done, st)
      | Some e \<Rightarrow> (Failed [SubApi e], st)
      | None \<Rightarrow>
        (case ss_sub st of
           None \<Rightarrow> (Done, st)
         | Some sub \<Rightarrow>
           if om_Deleting (ms_meta sub) then handleDeletion L S c E epoch sub st
           else
             (case tenantNamespaceAllowed S c (om_Namespace (ms_meta sub)) of
                Inl e \<Rightarrow> (Failed [SubApi e], st)
              | Inr False \<Rightarrow> (Done, st)
              | Inr True \<Rightarrow>
                if spec_empty sub then
                  (case updateStatus E sub PhaseInvalid ''spec is required'' sub st of
                     (Some e, st) \<Rightarrow> (Failed [e], st) | (None, st) \<Rightarrow> (Done, st))
                else
                  (case prepare E epoch sub st of
                     (Inl e, st) \<Rightarrow> (Failed [e], st)
                   | (Inr snapshot, st) \<Rightarrow>
                     (case pre_status L S c E snapshot st of (sub, ioDegraded, ioMessage, conflict, ioErrs, st) \<Rightarrow>
                      (case reconcile_policies L S c E epoch sub st of
                         (Some e, st) \<Rightarrow>
                           (case updateStatus E sub PhaseFailed
                                  (if list_ex rrs_Ready (ms_ModelRefStatuses sub) then ''failed to reconcile TokenRateLimitPolicies''
                                   else ''failed to clean up stale TokenRateLimitPolicies'') snapshot st of
                              (_, st) \<Rightarrow> (Failed (SubPolicies e # map SubObjectives ioErrs), st))
                       | (None, st) \<Rightarrow> finish L S c E snapshot sub ioDegraded ioMessage conflict ioErrs st))))))"

section \<open>Duplicate priorities\<close>

definition conditionsSemanticallyEqual :: "condition option \<Rightarrow> condition option \<Rightarrow> bool" where
  "conditionsSemanticallyEqual a b =
     (case (a, b) of
        (None, None) \<Rightarrow> True
      | (Some x, Some y) \<Rightarrow> cd_Type x = cd_Type y \<and> cd_Status x = cd_Status y \<and> cd_Reason x = cd_Reason y \<and>
          cd_Message x = cd_Message y \<and> cd_ObservedGeneration x = cd_ObservedGeneration y
      | _ \<Rightarrow> False)"

definition sub_key :: "maasSubscription \<Rightarrow> string" where
  "sub_key s = om_Namespace (ms_meta s) @ ''/'' @ om_Name (ms_meta s)"

definition priority_peers :: "maasSubscription list \<Rightarrow> maasSubscription \<Rightarrow> string list" where
  "priority_peers live s =
     filter (\<lambda>k. k \<noteq> sub_key s)
       (SliceStable (<) (map sub_key (filter (\<lambda>x. om_Namespace (ms_meta x) = om_Namespace (ms_meta s) \<and> ms_Priority x = ms_Priority s) live)))"

definition duplicate_condition :: "maasSubscription \<Rightarrow> string list \<Rightarrow> int \<Rightarrow> condition" where
  "duplicate_condition s peers gen =
     (let cond = \<lparr>cd_Type = ConditionSpecPriorityDuplicate, cd_Status = ''False'', cd_Reason = ''NoDuplicatePeers'', cd_Message = [],
            cd_ObservedGeneration = gen\<rparr>
      in if peers = [] then cond
         else cond\<lparr>cd_Status := ''True'', cd_Reason := ''SharedPriority'',
           cd_Message := ''spec.priority '' @ format_int (ms_Priority s) @ '' is shared with: '' @ Join peers '', ''\<rparr>)"

text \<open>
  The scan works on the listed subscriptions; \<open>latest\<close> is what a read of one answers and
  \<open>failing\<close> which writes are refused. The result is the objects written.
\<close>

definition scanForDuplicatePriority ::
    "settings \<Rightarrow> cluster \<Rightarrow> subEnv \<Rightarrow> (nsname \<Rightarrow> apiError + maasSubscription) \<Rightarrow> (nsname \<Rightarrow> bool) \<Rightarrow> apiError + maasSubscription list
     \<Rightarrow> maasSubscription list" where
  "scanForDuplicatePriority S c E latest failing listed =
     (case listed of
        Inl _ \<Rightarrow> []
      | Inr items \<Rightarrow>
        (let live = filter (\<lambda>s. \<not> om_Deleting (ms_meta s)) (filterSubscriptionsByTenantNamespace S c items) in
         List.map_filter (\<lambda>s.
           let key = (om_Namespace (ms_meta s), om_Name (ms_meta s)) in
           case latest key of
             Inl _ \<Rightarrow> None
           | Inr l \<Rightarrow>
             if om_Deleting (ms_meta l) then None
             else
               (let desired = duplicate_condition s (priority_peers live s) (om_Generation (ms_meta l)) in
                if conditionsSemanticallyEqual (se_findCondition E ConditionSpecPriorityDuplicate (ms_Conditions l)) (Some desired) then None
                else if failing key then None
                else Some (l\<lparr>ms_Conditions := se_setCondition E desired (ms_Conditions l)\<rparr>))) live))"

section \<open>From watched objects to subscriptions\<close>

text \<open>Requests without repetition, in order.\<close>

definition dedupe :: "nsname list \<Rightarrow> nsname list" where
  "dedupe keys = rev (fold (\<lambda>k acc. if k \<in> set acc then acc else k # acc) keys [])"

definition request_of_sub :: "maasSubscription \<Rightarrow> nsname" where
  "request_of_sub s = (om_Namespace (ms_meta s), om_Name (ms_meta s))"

definition mapMaaSModelRefToMaaSSubscriptions :: "settings \<Rightarrow> cluster \<Rightarrow> string \<Rightarrow> string \<Rightarrow> nsname list" where
  "mapMaaSModelRefToMaaSSubscriptions S c modelNamespace modelName =
     (case cl_Subscriptions c (modelNamespace @ ''/'' @ modelName) of
        Inl _ \<Rightarrow> []
      | Inr subs \<Rightarrow> dedupe (map request_of_sub (filterSubscriptionsByTenantNamespace S c subs)))"

definition mapGeneratedTRLPToParent :: "settings \<Rightarrow> cluster \<Rightarrow> trlp \<Rightarrow> nsname list" where
  "mapGeneratedTRLPToParent S c t =
     (if label_value (om_Labels (tp_meta t)) ''app.kubernetes.io/managed-by'' \<noteq> ''maas-controller'' then []
      else
        (case model_of_policy t of (modelNamespace, modelName) \<Rightarrow>
           if modelName = [] then []
           else
             (case cl_Subscriptions c (modelNamespace @ ''/'' @ modelName) of
                Inl _ \<Rightarrow> []
              | Inr subs \<Rightarrow>
                dedupe (map request_of_sub (filter (\<lambda>s. \<not> om_Deleting (ms_meta s)) (filterSubscriptionsByTenantNamespace S c subs))))))"

text \<open>\<open>models\<close> is the listing of the models in the namespace of the route.\<close>

definition mapHTTPRouteToMaaSSubscriptions :: "settings \<Rightarrow> cluster \<Rightarrow> apiError + nsname list \<Rightarrow> nsname list" where
  "mapHTTPRouteToMaaSSubscriptions S c models =
     (case models of
        Inl _ \<Rightarrow> []
      | Inr ms \<Rightarrow>
        dedupe (concat (map (\<lambda>(ns, name).
          case cl_Subscriptions c (ns @ ''/'' @ name) of
            Inl _ \<Rightarrow> []
          | Inr subs \<Rightarrow> map request_of_sub (filterSubscriptionsByTenantNamespace S c subs)) ms)))"

section \<open>The phase says how the models are\<close>

text \<open>A model that exists and whose backend is reachable.\<close>

definition usable :: "trlpStatus list \<Rightarrow> resourceRefStatus \<Rightarrow> bool" where
  "usable trlpStatuses m \<longleftrightarrow>
     rrs_Ready m \<and> \<not> (\<exists>s\<in>set trlpStatuses. ts_Model s = rrs_Name m \<and> \<not> rrs_Ready s \<and> rrs_Reason s = ReasonBackendNotReady)"

lemma usable_count:
  assumes "distinct (map rrs_Name models)" and "distinct (map ts_Model trlps)"
  shows "int (length (filter (usable trlps) models)) =
    int (length (filter rrs_Ready models)) - int (length (filter (backend_issue models) trlps))"
proof -
  let ?broken = "{m \<in> set models. rrs_Ready m \<and> \<not> usable trlps m}"
  have "rrs_Name ` ?broken = ts_Model ` set (filter (backend_issue models) trlps)" (is "?l = ?r")
  proof (intro equalityI subsetI)
    fix n assume "n \<in> ?l"
    then obtain m where "m \<in> ?broken" "n = rrs_Name m" by (rule imageE)
    then have m: "m \<in> set models" "rrs_Ready m" "\<not> usable trlps m" "n = rrs_Name m" by simp_all
    then obtain t where t: "t \<in> set trlps" "ts_Model t = n" "\<not> rrs_Ready t" "rrs_Reason t = ReasonBackendNotReady"
      unfolding usable_def by blast
    have "backend_issue models t" unfolding backend_issue_def using m t by (intro conjI bexI [of _ m]) simp_all
    with t(1,2) show "n \<in> ?r" by auto
  next
    fix n assume "n \<in> ?r"
    then obtain t where t: "t \<in> set trlps" "backend_issue models t" "n = ts_Model t" by auto
    then obtain m where "m \<in> set models" "rrs_Ready m" "rrs_Name m = n" unfolding backend_issue_def by blast
    moreover from this t have "\<not> usable trlps m" by (auto simp: usable_def backend_issue_def)
    ultimately show "n \<in> ?l" by auto
  qed
  then have names: "rrs_Name ` ?broken = ts_Model ` set (filter (backend_issue models) trlps)" .
  have inj: "inj_on rrs_Name ?broken" "inj_on ts_Model (set (filter (backend_issue models) trlps))"
    using assms by (auto simp: distinct_map inj_on_def)
  have "card ?broken = card (set (filter (backend_issue models) trlps))"
    using card_image [OF inj(1)] card_image [OF inj(2)] names by simp
  also have "\<dots> = length (filter (backend_issue models) trlps)"
    using assms(2) by (intro distinct_card distinct_filter) (simp add: distinct_map)
  finally have broken: "card ?broken = length (filter (backend_issue models) trlps)" .
  have d: "distinct models" using assms(1) by (simp add: distinct_map)
  have card: "length (filter P models) = card {m \<in> set models. P m}" for P
    using d distinct_card [of "filter P models"] by simp
  have "{m \<in> set models. rrs_Ready m} = {m \<in> set models. usable trlps m} \<union> ?broken" by (auto simp: usable_def)
  then have "card {m \<in> set models. rrs_Ready m} = card {m \<in> set models. usable trlps m} + card ?broken"
    using card_Un_disjoint [of "{m \<in> set models. usable trlps m}" ?broken] by auto
  with broken show ?thesis by (simp add: card)
qed

lemma backend_issue_le: "length (filter (backend_issue models) trlps) \<le> length (filter (\<lambda>s. \<not> rrs_Ready s) trlps)"
proof -
  have "filter (backend_issue models) trlps = filter (backend_issue models) (filter (\<lambda>s. \<not> rrs_Ready s) trlps)"
    by (auto simp: backend_issue_def intro!: filter_cong)
  then show ?thesis by (metis length_filter_le)
qed

lemma all_ready_lengths: "filter (\<lambda>m. \<not> rrs_Ready m) xs = [] \<longleftrightarrow> list_all rrs_Ready xs"
  by (auto simp: filter_empty_conv list_all_iff)

lemma deriveFinalPhase_Active:
  "fst (deriveFinalPhase models trlps) = PhaseActive \<longleftrightarrow> models \<noteq> [] \<and> list_all rrs_Ready models \<and> list_all rrs_Ready trlps"
proof (cases "models = []")
  case False
  let ?i = "length (filter (\<lambda>m. \<not> rrs_Ready m) models)" and ?b = "length (filter (backend_issue models) trlps)"
    and ?u = "length (filter (\<lambda>s. \<not> rrs_Ready s) trlps)" and ?v = "length (filter rrs_Ready models)"
  have "fst (deriveFinalPhase models trlps) = PhaseActive \<longleftrightarrow> int ?v - int ?b > 0 \<and> \<not> int ?i + int ?b > 0 \<and> \<not> int ?u - int ?b > 0"
    using False by (simp add: deriveFinalPhase_def Let_def)
  also have "\<dots> \<longleftrightarrow> ?v > 0 \<and> ?i = 0 \<and> ?u = 0" using backend_issue_le [of models trlps] by arith
  also have "\<dots> \<longleftrightarrow> list_all rrs_Ready models \<and> list_all rrs_Ready trlps"
    using False by (cases models) (auto simp: all_ready_lengths filter_empty_conv list_all_iff)
  finally show ?thesis using False by simp
qed (simp add: deriveFinalPhase_def)

text \<open>
  The phase of a subscription. It is Active exactly when there is a model, all models exist
  and all policies are accepted. When model names are different, it is Failed exactly when no
  referenced model is usable, and Degraded in all other cases.
\<close>

theorem deriveFinalPhase_exact:
  assumes "distinct (map rrs_Name models)" and "distinct (map ts_Model trlps)"
  shows "fst (deriveFinalPhase models trlps) =
    (if list_all (\<lambda>m. \<not> usable trlps m) models then PhaseFailed
     else if list_all rrs_Ready models \<and> list_all rrs_Ready trlps then PhaseActive else PhaseDegraded)"
proof (cases "list_all (\<lambda>m. \<not> usable trlps m) models")
  case True
  then have "filter (usable trlps) models = []" by (auto simp: filter_empty_conv list_all_iff)
  with usable_count [OF assms] True show ?thesis by (auto simp: deriveFinalPhase_def Let_def)
next
  case False
  then have "length (filter (usable trlps) models) > 0" by (auto simp: filter_empty_conv list_all_iff)
  with usable_count [OF assms] have pos: "\<not> int (length (filter rrs_Ready models)) - int (length (filter (backend_issue models) trlps)) \<le> 0"
    by linarith
  from False have ne: "models \<noteq> []" by auto
  then have "fst (deriveFinalPhase models trlps) \<in> {PhaseActive, PhaseDegraded}"
    using pos by (simp add: deriveFinalPhase_def Let_def)
  with False deriveFinalPhase_Active [of models trlps] ne show ?thesis by auto
qed

definition ex_modelStatus :: "string \<Rightarrow> string \<Rightarrow> bool \<Rightarrow> resourceRefStatus" where
  "ex_modelStatus ns name ready = \<lparr>rrs_Name = name, rrs_Namespace = ns, rrs_Ready = ready,
     rrs_Reason = (if ready then ''Valid'' else ReasonNotFound), rrs_Message = []\<rparr>"

definition ex_policyStatus :: "string \<Rightarrow> string \<Rightarrow> bool \<Rightarrow> trlpStatus" where
  "ex_policyStatus ns name ready = \<lparr>rrs_Name = ''maas-trlp-'' @ name, rrs_Namespace = ns, rrs_Ready = ready,
     rrs_Reason = (if ready then ''Accepted'' else ReasonBackendNotReady), rrs_Message = [], ts_Model = name\<rparr>"

theorem deriveFinalPhase_exact_witness:
  "fst (deriveFinalPhase [ex_modelStatus ''a'' ''x'' True, ex_modelStatus ''a'' ''y'' False]
     [ex_policyStatus ''a'' ''x'' True, ex_policyStatus ''a'' ''y'' False]) = PhaseDegraded"
proof -
  let ?ms = "[ex_modelStatus ''a'' ''x'' True, ex_modelStatus ''a'' ''y'' False]"
    and ?ts = "[ex_policyStatus ''a'' ''x'' True, ex_policyStatus ''a'' ''y'' False]"
  have d: "distinct (map rrs_Name ?ms)" "distinct (map ts_Model ?ts)" by (simp_all add: ex_modelStatus_def ex_policyStatus_def)
  from deriveFinalPhase_exact [OF d] show ?thesis
    by (simp add: usable_def ex_modelStatus_def ex_policyStatus_def)
qed

text \<open>
  Two models of one name in different namespaces: the one is gone and already marked, the
  other is healthy and its policy accepted, and the subscription is Failed nevertheless,
  because the set of valid models is keyed by name alone.
\<close>

lemma healthy_namesake_fails:
  "deriveFinalPhase [ex_modelStatus ''a'' ''x'' False, ex_modelStatus ''b'' ''x'' True]
     [ex_policyStatus ''a'' ''x'' False, ex_policyStatus ''b'' ''x'' True] =
   (PhaseFailed, ''all 2 model references are invalid or unavailable'')"
  by code_simp

section \<open>The finalizer\<close>






definition ex_subEnv :: subEnv where
  "ex_subEnv = \<lparr>se_trlp = ex_env, se_io = ex_ioEnv, se_get = None, se_finalizer = None, se_identity = None, se_latest = None,
     se_others = id, se_status = None, se_jobGet = None, se_jobCreate = None, se_jobDelete = None,
     se_setCondition = (\<lambda>c cs. filter (\<lambda>x. cd_Type x \<noteq> cd_Type c) cs @ [c]),
     se_removeCondition = (\<lambda>t. filter (\<lambda>x. cd_Type x \<noteq> t)), se_findCondition = (\<lambda>t. find (\<lambda>x. cd_Type x = t))\<rparr>"








section \<open>What an Active subscription has\<close>

lemma distinct_refs_cover:
  assumes "r \<in> set refs" and "msr_Namespace r @ ''/'' @ msr_Name r \<notin> set seen"
    and "\<forall>r\<in>set refs. CHR ''/'' \<notin> set (msr_Namespace r)"
  shows "\<exists>r'\<in>set (distinct_refs seen refs). msr_Namespace r' = msr_Namespace r \<and> msr_Name r' = msr_Name r"
  using assms
proof (induction refs arbitrary: seen)
  case (Cons a refs)
  let ?k = "\<lambda>r. msr_Namespace r @ ''/'' @ msr_Name r"
  show ?case
  proof (cases "?k r = ?k a")
    case True
    then have "msr_Namespace r = msr_Namespace a \<and> msr_Name r = msr_Name a"
      using split_first [of "msr_Namespace r" "CHR ''/''" "msr_Name r" "msr_Namespace a" "msr_Name a"] Cons.prems by auto
    with True Cons.prems(2) show ?thesis by (auto simp: Let_def)
  next
    case False
    with Cons.prems(1) have r: "r \<in> set refs" by auto
    have "\<exists>r'\<in>set (distinct_refs s refs). msr_Namespace r' = msr_Namespace r \<and> msr_Name r' = msr_Name r"
      if "?k r \<notin> set s" for s
      using Cons.prems(3) by (intro Cons.IH r that) simp
    from this [of seen] this [of "?k a # seen"] False Cons.prems(2) show ?thesis by (auto simp: Let_def)
  qed
qed simp

definition enforced :: "libs \<Rightarrow> settings \<Rightarrow> cluster \<Rightarrow> maasSubscription \<Rightarrow> trlp list \<Rightarrow> string \<Rightarrow> string \<Rightarrow> bool" where
  "enforced L S c sub policies ns name \<longleftrightarrow>
     (\<exists>model routeName routeNS gateway t.
        cl_Model c ns name = Inr model \<and> \<not> om_Deleting (mm_meta model) \<and>
        findHTTPRouteForModel L c ns name = Inr (routeName, routeNS) \<and>
        tenantGatewayRefForNamespace S c (om_Namespace (ms_meta sub)) = Inr gateway \<and>
        validateHTTPRouteReferencesGateway c routeName routeNS gateway = None \<and>
        t \<in> set policies \<and> trlp_key t = (routeNS, ''maas-trlp-'' @ name) \<and> fst (getTRLPAcceptedCondition L (trlp_object t)))"

lemma policy_status_enforced:
  assumes "rrs_Ready (policy_status L c E (tenantGatewayRefForNamespace S c (om_Namespace (ms_meta sub))) policies r)"
  shows "enforced L S c sub policies (msr_Namespace r) (msr_Name r)"
proof -
  obtain routeName routeNS where route: "findHTTPRouteForModel L c (msr_Namespace r) (msr_Name r) = Inr (routeName, routeNS)"
    using assms by (auto simp: policy_status_def Let_def split: sum.splits if_splits)
  obtain gateway where gw: "tenantGatewayRefForNamespace S c (om_Namespace (ms_meta sub)) = Inr gateway"
    using assms route by (auto simp: policy_status_def Let_def split: sum.splits)
  have val: "validateHTTPRouteReferencesGateway c routeName routeNS gateway = None"
    using assms route gw by (auto simp: policy_status_def Let_def split: option.splits gatewayError.splits)
  obtain t where t: "get_trlp E (routeNS, ''maas-trlp-'' @ msr_Name r) policies = Inr t"
    using assms route gw val by (auto simp: policy_status_def Let_def split: sum.splits apiError.splits)
  have "fst (getTRLPAcceptedCondition L (trlp_object t))"
    using assms route gw val t by (auto simp: policy_status_def Let_def split: prod.splits bool.splits)
  moreover obtain model where "cl_Model c (msr_Namespace r) (msr_Name r) = Inr model" "\<not> om_Deleting (mm_meta model)"
    using route by (auto simp: findHTTPRouteForModel_def split: sum.splits apiError.splits if_splits)
  ultimately show ?thesis
    unfolding enforced_def using route gw val get_trlp_Inr [OF t] by blast
qed

lemma updateStatus_published:
  assumes "updateStatus E sub phase message snapshot st = (None, st')" and "se_latest E = None" and "ss_sub st \<noteq> None"
  shows "ss_policies st' = ss_policies st \<and> (\<exists>s. ss_sub st' = Some s \<and> ms_Phase s = phase)"
  using assms
  by (auto simp: updateStatus_def Let_def status_of_def with_status_of_def split: if_splits option.splits prod.splits)

lemma prepare_refs:
  assumes "prepare E epoch sub st = (Inr s, st')" and "ss_sub st = Some sub" and "\<not> om_Deleting (ms_meta sub)"
  shows "ms_ModelRefs s = ms_ModelRefs sub \<and> om_Namespace (ms_meta s) = om_Namespace (ms_meta sub) \<and> ss_sub st' = Some s"
  using assms by (auto simp: prepare_def Let_def put_sub_def split: if_splits option.splits)

lemma pre_status_refs:
  assumes "pre_status L S c E sub st = (s, degraded, msg, conflict, errs, st')"
  shows "ms_ModelRefs s = ms_ModelRefs sub \<and> om_Namespace (ms_meta s) = om_Namespace (ms_meta sub) \<and> ss_sub st' = ss_sub st"
  using assms by (auto simp: pre_status_def Let_def split: prod.splits option.splits)

text \<open>
  C12. An Active subscription is enforced. When a reconciliation ends without error and the
  stored phase is Active, every model of the subscription exists, its route is attached to the
  gateway of the tenant, and the policy that limits it is in the namespace of the route with
  the condition Accepted.
\<close>

theorem active_means_enforced:
  assumes "Reconcile L S c E epoch st = (Done, st')" and "ss_sub st = Some sub" and "\<not> om_Deleting (ms_meta sub)"
    and "se_get E = None" and "se_latest E = None" and "tenantNamespaceAllowed S c (om_Namespace (ms_meta sub)) = Inr True"
    and "\<forall>r\<in>set (ms_ModelRefs sub). CHR ''/'' \<notin> set (msr_Namespace r)"
    and "ss_sub st' = Some s" and "ms_Phase s = PhaseActive" and "r \<in> set (ms_ModelRefs sub)"
  shows "enforced L S c sub (ss_policies st') (msr_Namespace r) (msr_Name r)"
proof -
  have "\<not> spec_empty sub" using assms(10) by (auto simp: spec_empty_def)
  then obtain s1 st1 where p: "prepare E epoch sub st = (Inr s1, st1)"
    using assms(1-6) by (auto simp: Reconcile_def split: sum.splits prod.splits)
  obtain s2 degraded msg conflict errs st2 where q: "pre_status L S c E s1 st1 = (s2, degraded, msg, conflict, errs, st2)"
    by (metis prod.exhaust)
  obtain e st3 where pol: "reconcile_policies L S c E epoch s2 st2 = (e, st3)" by fastforce
  have fin: "finish L S c E s1 s2 degraded msg conflict errs st3 = (Done, st')"
    using assms(1-6) \<open>\<not> spec_empty sub\<close> p q pol by (auto simp: Reconcile_def split: option.splits prod.splits)
  let ?ts = "checkTokenRateLimitHealth L S c (se_trlp E) s2 (ss_policies st3)"
  have st3: "ss_sub st3 \<noteq> None"
    using prepare_refs [OF p assms(2,3)] pre_status_refs [OF q] pol by (auto simp: reconcile_policies_def split: prod.splits)
  have refs: "ms_ModelRefs s2 = ms_ModelRefs sub" "om_Namespace (ms_meta s2) = om_Namespace (ms_meta sub)"
    using prepare_refs [OF p assms(2,3)] pre_status_refs [OF q] by simp_all
  obtain s3 phase message where up: "updateStatus E s3 phase message s1 st3 = (None, st')"
    and ph: "phase = PhaseActive \<longrightarrow> list_all rrs_Ready ?ts"
    using fin deriveFinalPhase_Active [of "correct_models ?ts (ms_ModelRefStatuses s2)" ?ts]
    by (auto simp: finish_def Let_def split: prod.splits if_splits option.splits)
  from updateStatus_published [OF up assms(5) st3] assms(8,9) ph
  have "list_all rrs_Ready ?ts" "ss_policies st' = ss_policies st3" by auto
  moreover obtain r' where "r' \<in> set (distinct_refs [] (ms_ModelRefs s2))" "msr_Namespace r' = msr_Namespace r" "msr_Name r' = msr_Name r"
    using distinct_refs_cover [OF assms(10) _ assms(7), of "[]"] refs(1) by auto
  ultimately have "enforced L S c s2 (ss_policies st') (msr_Namespace r) (msr_Name r)"
    using policy_status_enforced [of L c "se_trlp E" S s2 "ss_policies st3" r'] by (auto simp: checkTokenRateLimitHealth_def list_all_iff)
  then show ?thesis by (simp add: enforced_def refs)
qed

definition ex_active :: maasSubscription where
  "ex_active = (ex_maasSub ''t'' ''s'')\<lparr>ms_meta := (ex_meta ''t'' ''s'')\<lparr>om_Finalizers := [maasSubscriptionFinalizer]\<rparr>,
     ms_StatusRateLimitIdentity := RateLimitIdentityShort\<rparr>"

definition ex_accepted :: trlp where
  "ex_accepted = (ex_policy ''maas-trlp-n'' [AnnotationManaged \<mapsto> ''false''])\<lparr>tp_Status :=
     [(''conditions'', JArr [JObj [(''type'', JStr ''Accepted''), (''status'', JStr ''True'')]])]\<rparr>"

definition ex_activeState :: subState where
  "ex_activeState = \<lparr>ss_sub = Some ex_active, ss_policies = [ex_accepted], ss_objectives = [], ss_jobs = []\<rparr>"

lemma ex_active_prepare: "prepare ex_subEnv 0 ex_active ex_activeState = (Inr ex_active, ex_activeState)"
  by (simp add: prepare_def ex_active_def ex_maasSub_def ex_meta_def classifiedRateLimitIdentity_def recognizedRateLimitIdentity_def Let_def)

lemma ex_active_io:
  "ir_Conflict (fst (reconcileInferenceObjectives example_libs ex_settings ex_cluster ex_ioEnv ex_active [])) = False"
  "fst (snd (reconcileInferenceObjectives example_libs ex_settings ex_cluster ex_ioEnv ex_active [])) = []"
  by code_simp+

lemma ex_active_policies:
  "reconcileTokenRateLimitPolicies example_libs ex_settings ex_cluster ex_env 0 ex_active [ex_accepted] = (None, [ex_accepted])"
proof -
  have "reconcileTRLPForModel example_libs ex_settings ex_cluster ex_env 0 ''m'' ''n'' [ex_accepted] = (None, [ex_accepted])"
    unfolding reconcileTRLPForModel_def ex_listed sum.case ex_tenants ex_findHTTPRoute prod.case ex_gateways Let_def
    by (simp add: get_trlp_def ex_env_def ex_accepted_def ex_policy_def ex_meta_def trlp_key_def isManaged_def)
  moreover have "cleanupStaleTRLPs ex_env ex_active [ex_accepted] = (None, [ex_accepted])"
    by (simp add: cleanupStaleTRLPs_def ex_env_def matches_labels_def owner_selector_def ex_accepted_def ex_policy_def ex_meta_def
        model_labels_def model_of_policy_def label_value_def ex_active_def ex_maasSub_def ex_ref_def Let_def)
  ultimately show ?thesis
    by (simp add: reconcileTokenRateLimitPolicies_def ex_active_def ex_maasSub_def ex_ref_def Let_def)
qed

lemma ex_active_health:
  "map rrs_Ready (checkTokenRateLimitHealth example_libs ex_settings ex_cluster ex_env ex_active [ex_accepted]) = [True]"
  by code_simp

lemma checkTokenRateLimitHealth_cong:
  assumes "ms_ModelRefs s = ms_ModelRefs sub" and "om_Namespace (ms_meta s) = om_Namespace (ms_meta sub)"
  shows "checkTokenRateLimitHealth L S c E s store = checkTokenRateLimitHealth L S c E sub store"
  using assms by (simp add: checkTokenRateLimitHealth_def)

lemma stale_loop_cong:
  assumes "ms_ModelRefs s = ms_ModelRefs sub" and "ms_meta s = ms_meta sub"
  shows "stale_loop E s ts store = stale_loop E sub ts store"
  using assms by (induction ts arbitrary: store) (simp_all add: Let_def split: prod.split option.split)

lemma reconcileTokenRateLimitPolicies_cong:
  assumes "ms_ModelRefs s = ms_ModelRefs sub" and "ms_meta s = ms_meta sub"
  shows "reconcileTokenRateLimitPolicies L S c E epoch s store = reconcileTokenRateLimitPolicies L S c E epoch sub store"
proof -
  have "cleanupStaleTRLPs E s = cleanupStaleTRLPs E sub"
    by (intro ext) (simp add: cleanupStaleTRLPs_def stale_loop_cong [OF assms] split: option.split apiError.split)
  then show ?thesis by (simp add: reconcileTokenRateLimitPolicies_def assms(1) split: prod.split option.split)
qed

lemma ex_active_models:
  "list_all rrs_Ready (correct_models (checkTokenRateLimitHealth example_libs ex_settings ex_cluster ex_env ex_active [ex_accepted])
     (validateModelRefs ex_cluster ex_active))"
  "correct_models (checkTokenRateLimitHealth example_libs ex_settings ex_cluster ex_env ex_active [ex_accepted])
     (validateModelRefs ex_cluster ex_active) \<noteq> []"
  by code_simp+

lemma ex_active_run:
  "\<exists>st' s. Reconcile example_libs ex_settings ex_cluster ex_subEnv 0 ex_activeState = (Done, st') \<and> ss_sub st' = Some s \<and> ms_Phase s = PhaseActive"
proof -
  obtain io errs obs where io: "reconcileInferenceObjectives example_libs ex_settings ex_cluster ex_ioEnv ex_active [] = (io, errs, obs)"
    by (metis prod.exhaust)
  then have io': "errs = []" "\<not> ir_Conflict io" using ex_active_io by simp_all
  let ?s = "ex_active\<lparr>ms_ModelRefStatuses := validateModelRefs ex_cluster ex_active, ms_FlowControlStatuses := ir_Statuses io,
      ms_Conditions := []\<rparr>"
  let ?st = "ex_activeState\<lparr>ss_objectives := obs\<rparr>"
  have pre: "pre_status example_libs ex_settings ex_cluster ex_subEnv ex_active ex_activeState = (?s, False, [], False, [], ?st)"
    using io io' by (simp add: pre_status_def ex_activeState_def ex_subEnv_def inferenceObjectivesCondition_def ex_active_def ex_maasSub_def)
  have pol: "reconcile_policies example_libs ex_settings ex_cluster ex_subEnv 0 ?s ?st = (None, ?st)"
  proof -
    have "list_ex rrs_Ready (validateModelRefs ex_cluster ex_active)" by code_simp
    moreover have "reconcileTokenRateLimitPolicies example_libs ex_settings ex_cluster ex_env 0 ?s [ex_accepted] = (None, [ex_accepted])"
      unfolding ex_active_policies [symmetric] by (rule reconcileTokenRateLimitPolicies_cong) simp_all
    ultimately show ?thesis by (simp add: reconcile_policies_def ex_subEnv_def ex_activeState_def)
  qed
  let ?ts = "checkTokenRateLimitHealth example_libs ex_settings ex_cluster ex_env ex_active [ex_accepted]"
  let ?ms = "correct_models ?ts (validateModelRefs ex_cluster ex_active)"
  have ts: "checkTokenRateLimitHealth example_libs ex_settings ex_cluster ex_env ?s [ex_accepted] = ?ts"
    by (rule checkTokenRateLimitHealth_cong) simp_all
  have "list_all rrs_Ready ?ts" using ex_active_health by (auto simp: list_all_iff)
  with ex_active_models deriveFinalPhase_Active [of ?ms ?ts] obtain msg where ph: "deriveFinalPhase ?ms ?ts = (PhaseActive, msg)"
    by (metis prod.collapse)
  let ?t = "?s\<lparr>ms_TokenRateLimitStatuses := ?ts, ms_ModelRefStatuses := ?ms\<rparr>"
  obtain e st' where up: "updateStatus ex_subEnv ?t PhaseActive msg ex_active ?st = (e, st')" by fastforce
  then have "e = None" by (auto simp: updateStatus_def Let_def ex_subEnv_def ex_activeState_def split: if_splits)
  have fin: "finish example_libs ex_settings ex_cluster ex_subEnv ex_active ?s False [] False [] ?st = (Done, st')"
    using ph up \<open>e = None\<close> ts by (simp add: finish_def Let_def ex_subEnv_def ex_activeState_def)
  have start: "Reconcile example_libs ex_settings ex_cluster ex_subEnv 0 ex_activeState =
      (case prepare ex_subEnv 0 ex_active ex_activeState of
         (Inl e, st) \<Rightarrow> (Failed [e], st)
       | (Inr snapshot, st) \<Rightarrow>
         (case pre_status example_libs ex_settings ex_cluster ex_subEnv snapshot st of (sub, ioDegraded, ioMessage, conflict, ioErrs, st) \<Rightarrow>
          (case reconcile_policies example_libs ex_settings ex_cluster ex_subEnv 0 sub st of
             (Some e, st) \<Rightarrow>
               (case updateStatus ex_subEnv sub PhaseFailed
                  (if list_ex rrs_Ready (ms_ModelRefStatuses sub) then ''failed to reconcile TokenRateLimitPolicies''
                   else ''failed to clean up stale TokenRateLimitPolicies'') snapshot st of
                  (_, st) \<Rightarrow> (Failed (SubPolicies e # map SubObjectives ioErrs), st))
           | (None, st) \<Rightarrow> finish example_libs ex_settings ex_cluster ex_subEnv snapshot sub ioDegraded ioMessage conflict ioErrs st)))"
    unfolding Reconcile_def
    by (simp add: ex_subEnv_def ex_activeState_def ex_active_def ex_maasSub_def ex_meta_def tenantNamespaceAllowed_def ex_settings_def
        spec_empty_def)
  have "Reconcile example_libs ex_settings ex_cluster ex_subEnv 0 ex_activeState = (Done, st')"
    unfolding start ex_active_prepare prod.case sum.case pre pol option.case fin ..
  moreover have "se_latest ex_subEnv = None" "ss_sub ?st \<noteq> None" by (simp_all add: ex_subEnv_def ex_activeState_def)
  then obtain s where "ss_sub st' = Some s" "ms_Phase s = PhaseActive"
    using updateStatus_published up \<open>e = None\<close> by blast
  ultimately show ?thesis by blast
qed

theorem active_means_enforced_witness:
  "\<exists>st'. Reconcile example_libs ex_settings ex_cluster ex_subEnv 0 ex_activeState = (Done, st') \<and>
     enforced example_libs ex_settings ex_cluster ex_active (ss_policies st') ''m'' ''n''"
proof -
  obtain st' s where run: "Reconcile example_libs ex_settings ex_cluster ex_subEnv 0 ex_activeState = (Done, st')"
    "ss_sub st' = Some s" "ms_Phase s = PhaseActive"
    using ex_active_run by blast
  have sub: "ss_sub ex_activeState = Some ex_active" "\<not> om_Deleting (ms_meta ex_active)" "se_get ex_subEnv = None" "se_latest ex_subEnv = None"
    "tenantNamespaceAllowed ex_settings ex_cluster (om_Namespace (ms_meta ex_active)) = Inr True"
    "\<forall>r\<in>set (ms_ModelRefs ex_active). CHR ''/'' \<notin> set (msr_Namespace r)" "ex_ref \<in> set (ms_ModelRefs ex_active)"
    by (simp_all add: ex_activeState_def ex_active_def ex_maasSub_def ex_meta_def ex_subEnv_def tenantNamespaceAllowed_def
        ex_settings_def ex_ref_def)
  from active_means_enforced [OF run(1) sub(1-6) run(2,3) sub(7)] run(1) show ?thesis by (auto simp: ex_ref_def)
qed

section \<open>The sticky identity\<close>

lemma classified_recognized: "recognizedRateLimitIdentity (classifiedRateLimitIdentity epoch sub)"
  by (simp add: classifiedRateLimitIdentity_def Let_def recognizedRateLimitIdentity_def split: option.splits)

lemma classified_sticky:
  assumes "ms_StatusRateLimitIdentity s = classifiedRateLimitIdentity epoch sub" and "ms_RateLimitIdentity s = ms_RateLimitIdentity sub"
  shows "classifiedRateLimitIdentity epoch' s = classifiedRateLimitIdentity epoch sub"
  using assms classified_recognized [of epoch sub]
  by (auto simp: classifiedRateLimitIdentity_def Let_def split: if_splits option.splits)

lemma classified_stored:
  assumes "ms_StatusRateLimitIdentity s = classifiedRateLimitIdentity epoch sub"
  shows "classifiedRateLimitIdentity epoch' s =
    (if recognizedRateLimitIdentity (ms_RateLimitIdentity s) then ms_RateLimitIdentity s
     else classifiedRateLimitIdentity epoch sub)"
  using assms classified_recognized [of epoch sub] by (simp add: classifiedRateLimitIdentity_def [of epoch' s] Let_def)

text \<open>
  C36. The rate-limit identity is decided once. When the preparation of a reconciliation
  succeeds, the stored object has the finalizer and a recognized identity, the one the object
  was classified with before the finalizer was added. Every later version of the object that
  keeps this status is classified by an identity that its spec sets explicitly, and otherwise
  by the stored one, by every controller process and whatever its phase, conditions,
  annotations and finalizers are; so as long as the spec is not changed the classification is
  the same.
\<close>

theorem identity_sticky:
  assumes "prepare E epoch sub st = (Inr s, st')" and "ss_sub st = Some sub" and "\<not> om_Deleting (ms_meta sub)"
  shows "ss_sub st' = Some s \<and> maasSubscriptionFinalizer \<in> set (om_Finalizers (ms_meta s)) \<and>
    ms_StatusRateLimitIdentity s = classifiedRateLimitIdentity epoch sub \<and> recognizedRateLimitIdentity (ms_StatusRateLimitIdentity s) \<and>
    (\<forall>epoch' later. ms_StatusRateLimitIdentity later = ms_StatusRateLimitIdentity s \<longrightarrow>
       classifiedRateLimitIdentity epoch' later =
         (if recognizedRateLimitIdentity (ms_RateLimitIdentity later) then ms_RateLimitIdentity later
          else ms_StatusRateLimitIdentity s)) \<and>
    (\<forall>epoch' later. ms_StatusRateLimitIdentity later = ms_StatusRateLimitIdentity s \<and> ms_RateLimitIdentity later = ms_RateLimitIdentity sub \<longrightarrow>
       classifiedRateLimitIdentity epoch' later = classifiedRateLimitIdentity epoch sub)"
proof -
  have s: "ms_StatusRateLimitIdentity s = classifiedRateLimitIdentity epoch sub"
    "maasSubscriptionFinalizer \<in> set (om_Finalizers (ms_meta s))"
    using assms(1) by (auto simp: prepare_def Let_def split: if_splits option.splits)
  moreover have "classifiedRateLimitIdentity epoch' later =
      (if recognizedRateLimitIdentity (ms_RateLimitIdentity later) then ms_RateLimitIdentity later
       else ms_StatusRateLimitIdentity s)" if "ms_StatusRateLimitIdentity later = ms_StatusRateLimitIdentity s" for epoch' later
    using classified_stored [of later epoch sub epoch'] s(1) that by simp
  moreover have "classifiedRateLimitIdentity epoch' later = classifiedRateLimitIdentity epoch sub"
    if "ms_StatusRateLimitIdentity later = ms_StatusRateLimitIdentity s" "ms_RateLimitIdentity later = ms_RateLimitIdentity sub"
    for epoch' later
    using that s(1) by (intro classified_sticky) simp_all
  moreover have "ss_sub st' = Some s" using prepare_refs [OF assms] by blast
  moreover have "recognizedRateLimitIdentity (ms_StatusRateLimitIdentity s)" unfolding s(1) by (rule classified_recognized)
  ultimately show ?thesis by blast
qed

definition ex_new :: maasSubscription where
  "ex_new = ex_maasSub ''t'' ''s''"

definition ex_newState :: subState where
  "ex_newState = \<lparr>ss_sub = Some ex_new, ss_policies = [], ss_objectives = [], ss_jobs = []\<rparr>"

theorem identity_sticky_witness:
  "\<exists>s st'. prepare ex_subEnv 0 ex_new ex_newState = (Inr s, st') \<and> ms_StatusRateLimitIdentity s = RateLimitIdentityShort"
proof -
  have "\<exists>s st'. prepare ex_subEnv 0 ex_new ex_newState = (Inr s, st')"
    by (simp add: prepare_def Let_def ex_subEnv_def ex_new_def ex_maasSub_def ex_meta_def)
  then obtain s st' where run: "prepare ex_subEnv 0 ex_new ex_newState = (Inr s, st')" by blast
  have "ss_sub ex_newState = Some ex_new" "\<not> om_Deleting (ms_meta ex_new)" by (simp_all add: ex_newState_def ex_new_def ex_maasSub_def ex_meta_def)
  from identity_sticky [OF run this] run show ?thesis
    by (auto simp: classifiedRateLimitIdentity_def Let_def ex_new_def ex_maasSub_def ex_meta_def recognizedRateLimitIdentity_def label_value_def)
qed

text \<open>
  The decision is not durable before that. When the write of the identity loses a race after the
  finalizer has been added, the retry finds the finalizer and no identity, and a brand-new
  subscription becomes a legacy one.
\<close>

lemma failed_status_write_makes_legacy:
  "case prepare (ex_subEnv\<lparr>se_identity := Some ApiConflict\<rparr>) 0 ex_new ex_newState of (r, st1) \<Rightarrow>
     classifiedRateLimitIdentity 0 ex_new = RateLimitIdentityShort \<and> r = Inl (SubApi ApiConflict) \<and>
     (case ss_sub st1 of None \<Rightarrow> False | Some sub1 \<Rightarrow>
        (case prepare ex_subEnv 0 sub1 st1 of
           (Inr s, _) \<Rightarrow> ms_StatusRateLimitIdentity s = RateLimitIdentityLegacy | (Inl _, _) \<Rightarrow> False))"
  by (simp add: prepare_def Let_def ex_subEnv_def ex_new_def ex_newState_def ex_maasSub_def ex_meta_def put_sub_def
      classifiedRateLimitIdentity_def recognizedRateLimitIdentity_def label_value_def)

section \<open>Names of revocation Jobs\<close>

lemma aitenantBoundedName_bound:
  assumes "length prefix + 9 \<le> maxLength" and "\<And>k. k > 0 \<Longrightarrow> trim_name (take k n) \<noteq> []"
  shows "length (aitenantBoundedName L prefix n suffix maxLength) \<le> maxLength"
proof -
  let ?h = "take 8 (sha256hex L n)"
  let ?b = "nat (int maxLength - int (length prefix) - int (length suffix) - int (length ?h) - 1)"
  have trim: "length (trim_name (take ?b n)) \<le> ?b"
    using length_trim_name [of "take ?b n"] by simp
  have dash: "length (TrimSuffix_dash prefix) \<le> length prefix" by (simp add: TrimSuffix_dash_def)
  show ?thesis
    using assms(1) assms(2) [of ?b] trim dash by (auto simp: aitenantBoundedName_def Let_def)
qed

text \<open>
  A UID has 36 characters, so that the bounded name is always the prefix with the hash of
  \<open>namespace-name\<close>: the UID is not part of it, and two subscriptions whose namespace and name
  join to the same string share one Job name.
\<close>

lemma revocation_job_name:
  assumes "length (om_UID (ms_meta sub)) = 36" and "\<forall>s. length (sha256hex L s) = 64"
    and "om_Namespace (ms_meta sub) \<noteq> []" and "om_Name (ms_meta sub) \<noteq> []"
  shows "jb_Name (subscriptionAPIKeyRevocationJob L sub tenantName ns) =
    ''maas-api-revoke-sub-'' @ take 8 (sha256hex L (om_Namespace (ms_meta sub) @ ''-'' @ om_Name (ms_meta sub)))"
  using assms by (simp add: subscriptionAPIKeyRevocationJob_def aitenantBoundedName_def Let_def TrimSuffix_dash_def Suc_le_eq)

lemma revocation_job_name_collision:
  assumes "length u = 36" and "length u' = 36" and "\<forall>s. length (sha256hex L s) = 64"
  shows "job_key (subscriptionAPIKeyRevocationJob L ((ex_maasSub [] [])\<lparr>ms_meta := (ex_meta ''a-b'' ''c'')\<lparr>om_UID := u\<rparr>\<rparr>) t ns) =
    job_key (subscriptionAPIKeyRevocationJob L ((ex_maasSub [] [])\<lparr>ms_meta := (ex_meta ''a'' ''b-c'')\<lparr>om_UID := u'\<rparr>\<rparr>) t' ns)"
  using assms by (simp add: job_key_def revocation_job_name ex_meta_def)
    (simp add: subscriptionAPIKeyRevocationJob_def Let_def)

end
