(* ===== verification/ModelBackends.thy ===== *)
theory ModelBackends
  imports ControllerCluster
begin

text \<open>
  The backends of a MaaSModelRef (\<open>providers_llmisvc.go\<close>, \<open>providers_external.go\<close>) and the
  choice of its tenant (\<open>resolveGatewayRef\<close> of \<open>maasmodelref_controller.go\<close>): which route
  serves the model, through which gateway, whether the backend is ready, at which URL and under
  which alias. Both backends write their findings into the status of the model, which is passed
  along. \<open>modelReads\<close> is what the API server answers; \<open>rd_ParseURL\<close> and \<open>rd_ValidUTF8\<close> are \<open>net/url\<close>
  and \<open>unicode/utf8\<close>.
\<close>

section \<open>Objects\<close>

record modelRefObject = maasModelRef +
  mo_TenantRef :: string
  mo_EndpointOverride :: string
  mo_HasGuardrails :: bool
  mo_Phase :: string
  mo_Endpoint :: string
  mo_HTTPRouteName :: string
  mo_HTTPRouteNamespace :: string
  mo_HTTPRouteHostnames :: "string list"
  mo_ResolvedTenantRef :: string
  mo_ResolvedModelAlias :: string
  mo_Conditions :: "condition list"

record fullRoute = httpRoute +
  hr_Hostnames :: "string list"
  hr_Parents :: "(parentRef \<times> condition list) list"

record url =
  u_Scheme :: string
  u_Hostname :: string
  u_Path :: string

text \<open>An address: its name, its URL as printed and in parts, the names of its models.\<close>

record address =
  ad_Name :: "string option"
  ad_URL :: "(string \<times> url) option"
  ad_Models :: "string list"

record fullService = llmInferenceService +
  lm_Addresses :: "address list"
  lm_URL :: "(string \<times> url) option"
  lm_ModelName :: "string option"

record fullExternal = externalModel +
  em_ModelName :: string

text \<open>A Gateway: the host names of its listeners, and its addresses as (type, value).\<close>

record gateway =
  ga_Listeners :: "string option list"
  ga_Addresses :: "(string option \<times> string) list"

record modelReads =
  rd_RouterRoutes :: "string \<Rightarrow> string \<Rightarrow> apiError + fullRoute list"
  rd_Route :: "string \<Rightarrow> string \<Rightarrow> apiError + fullRoute"
  rd_Service :: "string \<Rightarrow> string \<Rightarrow> apiError + fullService"
  rd_External :: "string \<Rightarrow> string \<Rightarrow> apiError + fullExternal"
  rd_LegacyExternal :: "string \<Rightarrow> string \<Rightarrow> apiError option"
  rd_Gateway :: "gatewayRef \<Rightarrow> apiError + gateway"
  rd_Tenant :: "string \<Rightarrow> apiError + gatewayRef"
  rd_Tenants :: "apiError + (string \<times> gatewayRef) list"
  rd_ParseURL :: "string \<Rightarrow> url option"
  rd_ValidUTF8 :: "string \<Rightarrow> bool"

datatype backendError =
    ErrKindNotImplemented
  | ErrRouteNotFound
  | ErrTenantResolutionPending
  | BackendOther string

section \<open>The tenant of a model\<close>

definition usable_ref :: "gatewayRef \<Rightarrow> bool" where
  "usable_ref ref \<longleftrightarrow> gw_Name ref \<noteq> [] \<and> gw_Namespace ref \<noteq> []"

definition tenantsByGateway :: "(string \<times> gatewayRef) list \<Rightarrow> gatewayRef \<Rightarrow> string list" where
  "tenantsByGateway tenants gw = map fst (filter (\<lambda>(t, ref). usable_ref ref \<and> ref = gw) tenants)"

definition add_match :: "gatewayRef \<Rightarrow> string \<Rightarrow> (string \<times> gatewayRef) list \<Rightarrow> (string \<times> gatewayRef) list" where
  "add_match gw t acc = (if t \<in> set (map fst acc) then acc else acc @ [(t, gw)])"

definition parent_matches ::
    "(string \<times> gatewayRef) list \<Rightarrow> fullRoute \<Rightarrow> parentRef \<Rightarrow> (string \<times> gatewayRef) list \<Rightarrow> (string \<times> gatewayRef) list" where
  "parent_matches tenants route p acc =
     (if \<not> parentRefTargetsGateway p then acc
      else (let gw = routeParentGateway (httpRoute.truncate route) p in fold (add_match gw) (tenantsByGateway tenants gw) acc))"

definition tenant_matches :: "(string \<times> gatewayRef) list \<Rightarrow> fullRoute \<Rightarrow> (string \<times> gatewayRef) list" where
  "tenant_matches tenants route = fold (parent_matches tenants route) (hr_ParentRefs route) []"

definition resolveGatewayRefFromHTTPRoute ::
    "modelReads \<Rightarrow> modelRefObject \<Rightarrow> fullRoute \<Rightarrow> (backendError + gatewayRef) \<times> modelRefObject" where
  "resolveGatewayRefFromHTTPRoute R model route =
     (if hr_ParentRefs route = [] then (Inl ErrTenantResolutionPending, model\<lparr>mo_ResolvedTenantRef := []\<rparr>)
      else
        (case rd_Tenants R of
           Inl e \<Rightarrow> (Inl (BackendOther ''failed to list AITenants for auto-resolution''), model)
         | Inr tenants \<Rightarrow>
           (case tenant_matches tenants route of
              [] \<Rightarrow> (Inl (BackendOther ''no AITenant found for any gateway''), model\<lparr>mo_ResolvedTenantRef := []\<rparr>)
            | [(t, ref)] \<Rightarrow> (Inr ref, model\<lparr>mo_ResolvedTenantRef := t\<rparr>)
            | _ \<Rightarrow> (Inl (BackendOther ''multiple gateways match different AITenants''), model\<lparr>mo_ResolvedTenantRef := []\<rparr>))))"

text \<open>Without a route (\<open>nil\<close>) the code is called only for a model with \<open>spec.tenantRef\<close>.\<close>

definition resolveGatewayRef ::
    "modelReads \<Rightarrow> modelRefObject \<Rightarrow> fullRoute option \<Rightarrow> (backendError + gatewayRef) \<times> modelRefObject" where
  "resolveGatewayRef R model route =
     (if mo_TenantRef model \<noteq> [] then
        (case rd_Tenant R (mo_TenantRef model) of
           Inl ApiNotFound \<Rightarrow> (Inl (BackendOther ''AITenant not found''), model\<lparr>mo_ResolvedTenantRef := []\<rparr>)
         | Inl e \<Rightarrow> (Inl (BackendOther ''failed to get AITenant''), model)
         | Inr ref \<Rightarrow>
           if gw_Name ref = [] \<or> gw_Namespace ref = []
           then (Inl (BackendOther ''AITenant has no gateway reference in status''), model\<lparr>mo_ResolvedTenantRef := []\<rparr>)
           else (Inr ref, model\<lparr>mo_ResolvedTenantRef := mo_TenantRef model\<rparr>))
      else
        (case route of
           Some r \<Rightarrow> resolveGatewayRefFromHTTPRoute R model r
         | None \<Rightarrow> (Inl (BackendOther ''nil HTTPRoute''), model)))"

section \<open>The gateway of the route\<close>

text \<open>
  The loop over the parents: the expected gateway ends it, otherwise the first gateway is
  remembered for the message.
\<close>

fun find_gateway :: "string \<Rightarrow> gatewayRef \<Rightarrow> parentRef list \<Rightarrow> gatewayRef \<Rightarrow> bool \<times> gatewayRef" where
  "find_gateway routeNS expected [] first = (False, first)"
| "find_gateway routeNS expected (p # ps) first =
     (if \<not> parentRefTargetsGateway p then find_gateway routeNS expected ps first
      else
        (let ref = \<lparr>gw_Name = pref_Name p, gw_Namespace = (case pref_Namespace p of None \<Rightarrow> routeNS | Some ns \<Rightarrow> ns)\<rparr> in
         if ref = expected then (True, ref)
         else find_gateway routeNS expected ps (if gw_Name first = [] then ref else first)))"

definition set_route :: "string \<Rightarrow> string \<Rightarrow> gatewayRef \<Rightarrow> string list \<Rightarrow> modelRefObject \<Rightarrow> modelRefObject" where
  "set_route routeName routeNS gw hostnames model =
     model\<lparr>mo_HTTPRouteName := routeName, mo_HTTPRouteNamespace := routeNS, mm_GatewayName := gw_Name gw,
           mm_GatewayNamespace := gw_Namespace gw, mo_HTTPRouteHostnames := hostnames\<rparr>"

definition no_gateway :: gatewayRef where
  "no_gateway = \<lparr>gw_Name = [], gw_Namespace = []\<rparr>"

definition clearRouteStatus :: "modelRefObject \<Rightarrow> modelRefObject" where
  "clearRouteStatus model = set_route [] [] no_gateway [] (model\<lparr>mo_Endpoint := []\<rparr>)"

section \<open>LLMInferenceService\<close>

definition validateLLMISvcHTTPRoute :: "modelReads \<Rightarrow> modelRefObject \<Rightarrow> backendError option \<times> modelRefObject" where
  "validateLLMISvcHTTPRoute R model =
     (let routeNS = om_Namespace (mm_meta model) in
      case rd_RouterRoutes R routeNS (mm_RefName model) of
        Inl e \<Rightarrow> (Some (BackendOther ''failed to list HTTPRoutes''), model)
      | Inr [] \<Rightarrow> (Some ErrRouteNotFound, model)
      | Inr (route # _) \<Rightarrow>
        (case resolveGatewayRef R model (Some route) of
           (Inl e, model) \<Rightarrow> (Some e, model)
         | (Inr expected, model) \<Rightarrow>
           (case find_gateway routeNS expected (hr_ParentRefs route) no_gateway of
              (gatewayFound, gw) \<Rightarrow>
                (if gatewayFound then None else Some (BackendOther ''HTTPRoute does not reference gateway''),
                 set_route (hr_Name route) routeNS gw (hr_Hostnames route) model))))"

definition upgradeToHTTPS :: "string \<Rightarrow> string" where
  "upgradeToHTTPS rawURL =
     (if length rawURL \<ge> 7 \<and> EqualFold (take 7 rawURL) ''http://'' then ''https://'' @ drop 7 rawURL else rawURL)"

definition TrimSuffix_dot :: "string \<Rightarrow> string" where
  "TrimSuffix_dot s = (if s \<noteq> [] \<and> last s = CHR ''.'' then butlast s else s)"

definition isClusterLocalURL :: "modelReads \<Rightarrow> string \<Rightarrow> bool" where
  "isClusterLocalURL R rawURL =
     (case rd_ParseURL R rawURL of
        None \<Rightarrow> False
      | Some parsed \<Rightarrow>
        (let host = TrimSuffix_dot (ToLower (u_Hostname parsed)) in
         if host = [] then False else HasSuffix host ''.svc'' \<or> HasSuffix host ''.svc.cluster.local''))"

definition candidate_url :: "modelReads \<Rightarrow> string \<Rightarrow> string list \<Rightarrow> bool \<Rightarrow> address \<Rightarrow> string option" where
  "candidate_url R targetName hostSet filtering addr =
     (case (ad_Name addr, ad_URL addr) of
        (Some name, Some (raw, parsed)) \<Rightarrow>
          if name \<noteq> targetName \<or> isClusterLocalURL R raw then None
          else if filtering \<and> (ToLower (u_Hostname parsed) = [] \<or> ToLower (u_Hostname parsed) \<notin> set hostSet) then None
          else Some raw
      | _ \<Rightarrow> None)"

definition selectAddress :: "modelReads \<Rightarrow> fullService \<Rightarrow> string \<Rightarrow> string list \<Rightarrow> bool \<Rightarrow> string" where
  "selectAddress R svc targetName hostSet filtering =
     (let urls = List.map_filter (candidate_url R targetName hostSet filtering) (lm_Addresses svc) in
      case find (\<lambda>u. case rd_ParseURL R u of None \<Rightarrow> False | Some p \<Rightarrow> EqualFold (u_Scheme p) ''https'') urls of
        Some u \<Rightarrow> u
      | None \<Rightarrow> (case urls of [] \<Rightarrow> [] | u # _ \<Rightarrow> upgradeToHTTPS u))"

abbreviation addressNameGatewayExternal :: string where "addressNameGatewayExternal \<equiv> ''gateway-external''"
abbreviation addressNameGatewayExternalModelRouting :: string where
  "addressNameGatewayExternalModelRouting \<equiv> ''gateway-external-model-routing''"

definition base_path :: "url \<Rightarrow> bool" where
  "base_path u \<longleftrightarrow> u_Path u = [] \<or> u_Path u = ''/''"

text \<open>The unfiltered search: a base URL ends it, the first other URL is the fallback.\<close>

fun unfiltered_url :: "modelReads \<Rightarrow> (string \<times> url) option list \<Rightarrow> string \<Rightarrow> string" where
  "unfiltered_url R [] fallbackURL = fallbackURL"
| "unfiltered_url R (None # us) fallbackURL = unfiltered_url R us fallbackURL"
| "unfiltered_url R (Some (raw, u) # us) fallbackURL =
     (if isClusterLocalURL R raw then unfiltered_url R us fallbackURL
      else if base_path u then upgradeToHTTPS raw
      else unfiltered_url R us (if fallbackURL = [] then upgradeToHTTPS raw else fallbackURL))"

definition getEndpointFromLLMISvc :: "modelReads \<Rightarrow> fullService \<Rightarrow> string list \<Rightarrow> string" where
  "getEndpointFromLLMISvc R svc expectedHostnames =
     (let hostSet = map ToLower expectedHostnames;
          filtering = (hostSet \<noteq> []);
          routing = selectAddress R svc addressNameGatewayExternalModelRouting hostSet filtering;
          path = selectAddress R svc addressNameGatewayExternal hostSet filtering
      in if routing \<noteq> [] then routing
         else if path \<noteq> [] then path
         else if filtering then []
         else unfiltered_url R (map ad_URL (lm_Addresses svc) @ [lm_URL svc]) [])"

text \<open>The host of a gateway: a listener's, then an address of type Hostname, then any address.\<close>

definition gateway_host :: "gateway \<Rightarrow> string option" where
  "gateway_host g =
     (case find (\<lambda>l. l \<noteq> None) (ga_Listeners g) of
        Some (Some host) \<Rightarrow> Some host
      | _ \<Rightarrow>
        (case find (\<lambda>(ty, v). ty = Some ''Hostname'') (ga_Addresses g) of
           Some (ty, v) \<Rightarrow> Some v
         | None \<Rightarrow> (case ga_Addresses g of [] \<Rightarrow> None | (ty, v) # _ \<Rightarrow> Some v)))"

definition llmisvc_GetModelEndpoint :: "modelReads \<Rightarrow> gatewayRef \<Rightarrow> modelRefObject \<Rightarrow> backendError + string" where
  "llmisvc_GetModelEndpoint R defaultGateway model =
     (let name = om_Name (mm_meta model) in
      case mo_HTTPRouteHostnames model of
        hostname # _ \<Rightarrow> Inr (''https://'' @ hostname @ ''/'' @ name)
      | [] \<Rightarrow>
        (let gw = (if mm_GatewayName model = [] then defaultGateway
                   else \<lparr>gw_Name = mm_GatewayName model, gw_Namespace = mm_GatewayNamespace model\<rparr>) in
         case rd_Gateway R gw of
           Inl e \<Rightarrow> Inl (BackendOther ''failed to get gateway'')
         | Inr g \<Rightarrow>
           (case gateway_host g of
              Some host \<Rightarrow> Inr (''https://'' @ host @ ''/'' @ name)
            | None \<Rightarrow> Inl (BackendOther ''unable to determine endpoint''))))"

definition service_ready :: "llmInferenceService \<Rightarrow> bool" where
  "service_ready svc \<longleftrightarrow> list_ex (\<lambda>c. cd_Type c = ''Ready'' \<and> cd_Status c = ''True'') (lm_Conditions svc)"

definition llmisvc_Status :: "modelReads \<Rightarrow> gatewayRef \<Rightarrow> modelRefObject \<Rightarrow> backendError + string \<times> bool" where
  "llmisvc_Status R defaultGateway model =
     (case rd_Service R (om_Namespace (mm_meta model)) (mm_RefName model) of
        Inl e \<Rightarrow> Inl (BackendOther ''LLMInferenceService not found'')
      | Inr svc \<Rightarrow>
        if \<not> service_ready (llmInferenceService.truncate svc) then Inr ([], False)
        else
          (let endpoint = getEndpointFromLLMISvc R svc (mo_HTTPRouteHostnames model) in
           if endpoint = [] then
             (case llmisvc_GetModelEndpoint R defaultGateway model of
                Inl e \<Rightarrow> Inl e
              | Inr endpoint \<Rightarrow> Inr (endpoint, True))
           else Inr (endpoint, True)))"

definition llmisvc_ResolveModelAlias :: "modelReads \<Rightarrow> modelRefObject \<Rightarrow> backendError + string" where
  "llmisvc_ResolveModelAlias R model =
     (case rd_Service R (om_Namespace (mm_meta model)) (mm_RefName model) of
        Inl e \<Rightarrow> Inl (BackendOther ''get'')
      | Inr svc \<Rightarrow>
        (case find (\<lambda>addr. case ad_Models addr of [] \<Rightarrow> False | m # _ \<Rightarrow> m \<noteq> []) (lm_Addresses svc) of
           Some addr \<Rightarrow> Inr (hd (ad_Models addr))
         | None \<Rightarrow>
           (let modelName = (case lm_ModelName svc of Some n \<Rightarrow> if n \<noteq> [] then n else lm_Name svc | None \<Rightarrow> lm_Name svc)
            in Inr (''publishers/'' @ om_Namespace (mm_meta model) @ ''/models/'' @ modelName))))"

section \<open>ExternalModel\<close>

definition acceptedRouteParents :: "fullRoute \<Rightarrow> gatewayRef list" where
  "acceptedRouteParents route =
     map (\<lambda>(p, cs). routeParentGateway (httpRoute.truncate route) p)
       (filter (\<lambda>(p, cs). list_ex (\<lambda>c. cd_Type c = ''Accepted'' \<and> cd_Status c = ''True'') cs) (hr_Parents route))"

definition rejecting :: "condition list \<Rightarrow> condition option" where
  "rejecting cs =
     (case find (\<lambda>c. cd_Type c = ''Accepted'') cs of
        Some c \<Rightarrow> if cd_Status c = ''False'' then Some c else None
      | None \<Rightarrow> None)"

definition add_rejection ::
    "fullRoute \<Rightarrow> parentRef \<times> condition list \<Rightarrow> (gatewayRef \<rightharpoonup> string \<times> string) \<Rightarrow> (gatewayRef \<rightharpoonup> string \<times> string)" where
  "add_rejection route pc rejections =
     (case rejecting (snd pc) of
        None \<Rightarrow> rejections
      | Some cond \<Rightarrow>
        (let gw = routeParentGateway (httpRoute.truncate route) (fst pc) in
         if rejections gw \<noteq> None \<or> gw \<in> set (acceptedRouteParents route) then rejections
         else rejections(gw \<mapsto> (cd_Reason cond, cd_Message cond))))"

definition routeRejections :: "fullRoute \<Rightarrow> gatewayRef \<rightharpoonup> string \<times> string" where
  "routeRejections route = fold (add_rejection route) (hr_Parents route) Map.empty"

text \<open>The keys of \<open>routes\<close> are the gateways of the status; \<open>iter\<close> of one entry is that entry.\<close>

definition selectGatewayRoute ::
    "modelReads \<Rightarrow> modelRefObject \<Rightarrow> fullExternal \<Rightarrow> (gatewayRef \<rightharpoonup> gatewayRef) \<Rightarrow> (backendError + gatewayRef) \<times> modelRefObject" where
  "selectGatewayRoute R model em routes =
     (let keys = remdups (map fst (em_Gateways em)) in
      if mo_TenantRef model \<noteq> [] then
        (case resolveGatewayRef R model None of
           (Inl e, model) \<Rightarrow> (Inl e, model)
         | (Inr gw, model) \<Rightarrow> (Inr (case routes gw of None \<Rightarrow> no_gateway | Some r \<Rightarrow> r), model))
      else if length keys > 1 then (Inl (BackendOther ''attached to several gateways''), model)
      else (Inr (case keys of [] \<Rightarrow> no_gateway | k # _ \<Rightarrow> (case routes k of None \<Rightarrow> no_gateway | Some r \<Rightarrow> r)), model))"

text \<open>The name and namespace of the route to validate; an empty name is \<open>not yet\<close>.\<close>

definition external_route ::
    "libs \<Rightarrow> modelReads \<Rightarrow> modelRefObject \<Rightarrow> (backendError + string \<times> string) \<times> modelRefObject" where
  "external_route L R model =
     (let ns = om_Namespace (mm_meta model);
          legacy = (case rd_LegacyExternal R ns (mm_RefName model) of
             Some e \<Rightarrow> (Inl (BackendOther ''ExternalModel not found''), model)
           | None \<Rightarrow> (Inr (ExternalModelResourceName L (mm_RefName model), ns), model))
      in case rd_External R ns (mm_RefName model) of
           Inr em \<Rightarrow>
             (case externalModelGatewayRoutes (externalModel.truncate em) of
                Some routes \<Rightarrow>
                  (case selectGatewayRoute R (clearRouteStatus model) em routes of
                     (Inl e, model) \<Rightarrow> (Inl e, model)
                   | (Inr route, model) \<Rightarrow> (Inr (gw_Name route, gw_Namespace route), model))
              | None \<Rightarrow> (Inr (em_HTTPRouteName em, ns), model))
         | Inl ApiNotFound \<Rightarrow> legacy
         | Inl ApiNoMatch \<Rightarrow> legacy
         | Inl e \<Rightarrow> (Inl (BackendOther ''failed to get ExternalModel''), model))"

definition conditionMessageMaxLen :: nat where
  "conditionMessageMaxLen = 32768"

fun valid_prefix :: "(string \<Rightarrow> bool) \<Rightarrow> nat \<Rightarrow> string \<Rightarrow> string" where
  "valid_prefix valid 0 s = []"
| "valid_prefix valid (Suc n) s = (if valid (take (Suc n) s) then take (Suc n) s else valid_prefix valid n s)"

text \<open>The suffix is the three bytes of the ellipsis.\<close>

definition truncateMessage :: "(string \<Rightarrow> bool) \<Rightarrow> string \<Rightarrow> nat \<Rightarrow> string" where
  "truncateMessage valid msg maxLen =
     (if length msg \<le> maxLen then msg
      else valid_prefix valid (maxLen - 3) msg @ [CHR 0xE2, CHR 0x80, CHR 0xA6])"

definition truncateConditionMessage :: "(string \<Rightarrow> bool) \<Rightarrow> string \<Rightarrow> string" where
  "truncateConditionMessage valid msg = truncateMessage valid msg conditionMessageMaxLen"

abbreviation ReasonNotAccepted :: string where "ReasonNotAccepted \<equiv> ''NotAccepted''"

text \<open>
  The third component is the handler's \<open>notReadyReason\<close> and \<open>notReadyMessage\<close>, empty unless the
  gateway rejected the route.
\<close>

definition external_validate ::
    "modelReads \<Rightarrow> string \<Rightarrow> string \<Rightarrow> modelRefObject \<Rightarrow> backendError option \<times> modelRefObject \<times> string \<times> string" where
  "external_validate R routeName routeNS model =
     (case rd_Route R routeNS routeName of
        Inl ApiNotFound \<Rightarrow> (None, clearRouteStatus model, [], [])
      | Inl e \<Rightarrow> (Some (BackendOther ''failed to get HTTPRoute''), model, [], [])
      | Inr route \<Rightarrow>
        (case resolveGatewayRef R model (Some route) of
           (Inl e, model) \<Rightarrow> (Some e, model, [], [])
         | (Inr expected, model) \<Rightarrow>
           (case find_gateway routeNS expected (hr_ParentRefs route) no_gateway of
              (False, gw) \<Rightarrow> (Some (BackendOther ''HTTPRoute does not reference gateway''), model, [], [])
            | (True, gw) \<Rightarrow>
              if expected \<notin> set (acceptedRouteParents route) then
                (None, set_route routeName routeNS no_gateway [] model,
                 (case routeRejections route expected of
                    Some (reason, message) \<Rightarrow>
                      (ReasonNotAccepted, truncateConditionMessage (rd_ValidUTF8 R)
                         (''Gateway '' @ gw_Namespace expected @ ''/'' @ gw_Name expected @ '' has not accepted HTTPRoute '' @
                          routeNS @ ''/'' @ routeName @ '' ('' @ reason @ '')'' @ (if message \<noteq> [] then '': '' @ message else [])))
                  | None \<Rightarrow> ([], [])))
              else (None, set_route routeName routeNS gw (hr_Hostnames route) model, [], []))))"

definition external_ReconcileRoute ::
    "libs \<Rightarrow> modelReads \<Rightarrow> modelRefObject \<Rightarrow> backendError option \<times> modelRefObject \<times> string \<times> string" where
  "external_ReconcileRoute L R model =
     (case external_route L R model of
        (Inl e, model) \<Rightarrow> (Some e, model, [], [])
      | (Inr (routeName, routeNS), model) \<Rightarrow>
        if routeName = [] then (None, clearRouteStatus model, [], [])
        else external_validate R routeName routeNS model)"

definition external_GetModelEndpoint :: "modelReads \<Rightarrow> modelRefObject \<Rightarrow> backendError + string" where
  "external_GetModelEndpoint R model =
     (case mo_HTTPRouteHostnames model of
        hostname # _ \<Rightarrow> Inr (''https://'' @ hostname)
      | [] \<Rightarrow>
        (case rd_Gateway R \<lparr>gw_Name = mm_GatewayName model, gw_Namespace = mm_GatewayNamespace model\<rparr> of
           Inl e \<Rightarrow> Inl (BackendOther ''failed to get gateway'')
         | Inr g \<Rightarrow>
           (case gateway_host g of
              Some host \<Rightarrow> Inr (''https://'' @ host)
            | None \<Rightarrow> Inl (BackendOther ''unable to determine endpoint''))))"

definition external_Status :: "modelReads \<Rightarrow> modelRefObject \<Rightarrow> backendError + string \<times> bool" where
  "external_Status R model =
     (if mo_HTTPRouteName model = [] \<or> mm_GatewayName model = [] then Inr ([], False)
      else bind_res (external_GetModelEndpoint R model) (\<lambda>endpoint. Inr (endpoint, True)))"

definition external_ResolveModelAlias :: "modelReads \<Rightarrow> modelRefObject \<Rightarrow> backendError + string" where
  "external_ResolveModelAlias R model =
     (case rd_External R (om_Namespace (mm_meta model)) (mm_RefName model) of
        Inl ApiNotFound \<Rightarrow> Inr (mm_RefName model)
      | Inl ApiNoMatch \<Rightarrow> Inr (mm_RefName model)
      | Inl e \<Rightarrow> Inl (BackendOther ''failed to get ExternalModel'')
      | Inr em \<Rightarrow> Inr (if em_ModelName em \<noteq> [] then em_ModelName em else mm_RefName model))"

section \<open>The handlers\<close>

datatype backendHandler = LlmisvcHandler | ExternalModelHandler

definition GetBackendHandler :: "string \<Rightarrow> backendHandler option" where
  "GetBackendHandler kind =
     (if kind = ''LLMInferenceService'' \<or> kind = ''llmisvc'' then Some LlmisvcHandler
      else if kind = ''ExternalModel'' then Some ExternalModelHandler
      else None)"

fun ReconcileRoute ::
    "backendHandler \<Rightarrow> libs \<Rightarrow> modelReads \<Rightarrow> modelRefObject \<Rightarrow> backendError option \<times> modelRefObject \<times> string \<times> string" where
  "ReconcileRoute LlmisvcHandler L R model = (case validateLLMISvcHTTPRoute R model of (e, model) \<Rightarrow> (e, model, [], []))"
| "ReconcileRoute ExternalModelHandler L R model = external_ReconcileRoute L R model"

fun Status :: "backendHandler \<Rightarrow> modelReads \<Rightarrow> gatewayRef \<Rightarrow> modelRefObject \<Rightarrow> backendError + string \<times> bool" where
  "Status LlmisvcHandler R defaultGateway model = llmisvc_Status R defaultGateway model"
| "Status ExternalModelHandler R defaultGateway model = external_Status R model"

fun ResolveModelAlias :: "backendHandler \<Rightarrow> modelReads \<Rightarrow> modelRefObject \<Rightarrow> backendError + string" where
  "ResolveModelAlias LlmisvcHandler R model = llmisvc_ResolveModelAlias R model"
| "ResolveModelAlias ExternalModelHandler R model = external_ResolveModelAlias R model"

section \<open>The tenant is chosen exactly\<close>

text \<open>The gateways among the parents of a route, and the tenants they belong to.\<close>

definition parent_gateways :: "fullRoute \<Rightarrow> gatewayRef set" where
  "parent_gateways route = routeParentGateway (httpRoute.truncate route) ` {p \<in> set (hr_ParentRefs route). parentRefTargetsGateway p}"

definition route_tenants :: "(string \<times> gatewayRef) list \<Rightarrow> fullRoute \<Rightarrow> (string \<times> gatewayRef) set" where
  "route_tenants tenants route = {(t, ref). (t, ref) \<in> set tenants \<and> usable_ref ref \<and> ref \<in> parent_gateways route}"

lemma add_match_sound:
  assumes "\<forall>x\<in>set acc. P x" and "\<forall>t\<in>set ts. P (t, gw)"
  shows "\<forall>x\<in>set (fold (add_match gw) ts acc). P x"
  using assms
proof (induction ts arbitrary: acc)
  case (Cons t ts)
  then have "\<forall>x\<in>set (add_match gw t acc). P x" by (simp add: add_match_def)
  with Cons show ?case by simp
qed simp

lemma tenant_matches_sound: "\<forall>(t, ref)\<in>set (tenant_matches tenants route). (t, ref) \<in> set tenants \<and> usable_ref ref"
proof -
  let ?P = "\<lambda>(t, ref). (t, ref) \<in> set tenants \<and> usable_ref ref"
  have "\<forall>x\<in>set (fold (parent_matches tenants route) ps acc). ?P x" if "\<forall>x\<in>set acc. ?P x" for ps acc
    using that
  proof (induction ps arbitrary: acc)
    case (Cons p ps)
    let ?gw = "routeParentGateway (httpRoute.truncate route) p"
    have "\<forall>t\<in>set (tenantsByGateway tenants ?gw). ?P (t, ?gw)" by (auto simp: tenantsByGateway_def)
    with Cons.prems have "\<forall>x\<in>set (fold (add_match ?gw) (tenantsByGateway tenants ?gw) acc). ?P x" by (rule add_match_sound)
    with Cons.prems have "\<forall>x\<in>set (parent_matches tenants route p acc). ?P x" by (simp add: parent_matches_def Let_def)
    with Cons.IH show ?case by simp
  qed simp
  from this [of "[]"] show ?thesis by (simp add: tenant_matches_def)
qed

lemma fold_add_match:
  assumes "distinct (map fst tenants)" and "set acc \<subseteq> set tenants" and "set ts \<subseteq> {t. (t, gw) \<in> set tenants}" and "distinct (map fst acc)"
  shows "set (fold (add_match gw) ts acc) = set acc \<union> (\<lambda>t. (t, gw)) ` set ts \<and> distinct (map fst (fold (add_match gw) ts acc))"
  using assms(2-)
proof (induction ts arbitrary: acc)
  case (Cons t ts)
  have "(t, gw) \<in> set acc" if "t \<in> set (map fst acc)"
  proof -
    from that obtain g where g: "(t, g) \<in> set acc" by auto
    then have "(t, g) \<in> set tenants" "(t, gw) \<in> set tenants" using Cons.prems by auto
    then have "g = gw" using assms(1) by (meson eq_key_imp_eq_value)
    with g show ?thesis by simp
  qed
  with Cons.IH [of "add_match gw t acc"] Cons.prems show ?case by (auto simp: add_match_def)
qed simp

lemma tenant_matches_fold:
  assumes "distinct (map fst tenants)" and "set acc \<subseteq> set tenants" and "distinct (map fst acc)"
  shows "set (fold (parent_matches tenants route) ps acc) = set acc \<union>
      {(t, ref). (t, ref) \<in> set tenants \<and> usable_ref ref \<and>
        ref \<in> routeParentGateway (httpRoute.truncate route) ` {p \<in> set ps. parentRefTargetsGateway p}} \<and>
    distinct (map fst (fold (parent_matches tenants route) ps acc))"
  using assms(2-)
proof (induction ps arbitrary: acc)
  case (Cons p ps)
  let ?gw = "routeParentGateway (httpRoute.truncate route) p"
  show ?case
  proof (cases "parentRefTargetsGateway p")
    case True
    let ?acc = "fold (add_match ?gw) (tenantsByGateway tenants ?gw) acc"
    have ts: "set (tenantsByGateway tenants ?gw) = {t. (t, ?gw) \<in> set tenants \<and> usable_ref ?gw}"
      by (force simp: tenantsByGateway_def)
    have acc: "set ?acc = set acc \<union> (\<lambda>t. (t, ?gw)) ` {t. (t, ?gw) \<in> set tenants \<and> usable_ref ?gw}" "distinct (map fst ?acc)"
      using fold_add_match [OF assms(1) Cons.prems(1) _ Cons.prems(2), of "tenantsByGateway tenants ?gw" ?gw] by (auto simp: ts)
    then have "set ?acc \<subseteq> set tenants" using Cons.prems(1) by auto
    moreover have "parent_matches tenants route p acc = ?acc" using True by (simp add: parent_matches_def Let_def)
    ultimately show ?thesis using Cons.IH [OF _ acc(2)] True by (auto simp: acc(1))
  next
    case False
    then have "parent_matches tenants route p acc = acc" by (simp add: parent_matches_def)
    with Cons False show ?thesis by auto
  qed
qed simp

lemma tenant_matches_exact:
  assumes "distinct (map fst tenants)"
  shows "set (tenant_matches tenants route) = route_tenants tenants route \<and> distinct (tenant_matches tenants route)"
  using tenant_matches_fold [OF assms, of "[]" route "hr_ParentRefs route"]
  by (auto simp: tenant_matches_def route_tenants_def parent_gateways_def distinct_map)

text \<open>
  Without \<open>spec.tenantRef\<close> the tenant of a model is chosen exactly: when the tenants can be
  listed, a gateway is returned if and only if exactly one tenant has a gateway among the
  parents of the route; then it is that tenant's gateway and the tenant is recorded. In every
  other case the recorded tenant is cleared.
\<close>

theorem tenant_resolution_exact:
  assumes "rd_Tenants R = Inr tenants" and "distinct (map fst tenants)"
  shows "(\<forall>gw. fst (resolveGatewayRefFromHTTPRoute R model route) = Inr gw \<longleftrightarrow> (\<exists>t. route_tenants tenants route = {(t, gw)})) \<and>
    mo_ResolvedTenantRef (snd (resolveGatewayRefFromHTTPRoute R model route)) =
      (if \<exists>t gw. route_tenants tenants route = {(t, gw)} then fst (the_elem (route_tenants tenants route)) else [])"
proof -
  note ex = tenant_matches_exact [OF assms(2), of route]
  consider (none) "tenant_matches tenants route = []" | (one) t ref where "tenant_matches tenants route = [(t, ref)]"
    | (many) x y zs where "tenant_matches tenants route = x # y # zs"
    by (metis list.exhaust surj_pair)
  then show ?thesis
  proof cases
    case none
    with ex have "route_tenants tenants route = {}" by simp
    with none assms(1) show ?thesis by (simp add: resolveGatewayRefFromHTTPRoute_def)
  next
    case (one t ref)
    with ex have s: "route_tenants tenants route = {(t, ref)}" by simp
    then have "hr_ParentRefs route \<noteq> []" by (auto simp: route_tenants_def parent_gateways_def)
    with one assms(1) s show ?thesis by (auto simp: resolveGatewayRefFromHTTPRoute_def)
  next
    case (many x y zs)
    with ex have "x \<in> route_tenants tenants route" "y \<in> route_tenants tenants route" "x \<noteq> y" by auto
    then have no: "\<nexists>z. route_tenants tenants route = {z}" by (metis singletonD)
    then have "\<not> (\<exists>t gw. route_tenants tenants route = {(t, gw)})" by blast
    moreover have "fst (resolveGatewayRefFromHTTPRoute R model route) \<noteq> Inr gw" for gw
      using many assms(1) by (cases x) (simp add: resolveGatewayRefFromHTTPRoute_def)
    moreover have "mo_ResolvedTenantRef (snd (resolveGatewayRefFromHTTPRoute R model route)) = []"
      using many assms(1) by (cases x) (simp add: resolveGatewayRefFromHTTPRoute_def)
    ultimately show ?thesis by simp
  qed
qed

end
