(* ===== verification/ModelRefController.thy ===== *)
theory ModelRefController
  imports ModelBackends TrlpReconcile
begin

text \<open>
  The MaaSModelRef controller (\<open>maasmodelref_controller.go\<close>, \<open>model_identity_conflict.go\<close>): the
  whole reconciliation with its status, governance and identity checks, the deletion with its
  finalizer, and the mappers that decide which models are looked at again. Reads are answered
  by \<open>cluster\<close> and \<open>modelReads\<close>, the listings and the faults of single writes by \<open>mrEnv\<close>;
  \<open>ve_setCondition\<close> and \<open>ve_findCondition\<close> are \<open>meta.SetStatusCondition\<close> and
  \<open>meta.FindStatusCondition\<close>. Events and log lines are left out, and an error is reduced to its
  class.
\<close>

section \<open>State\<close>

record maasAuthPolicy =
  ap_meta :: objectMeta
  ap_ModelRefs :: "nsname list"

record mrEnv =
  ve_get :: "apiError option"
  ve_finalizer :: "apiError option"
  ve_status :: "apiError option"
  ve_listPolicies :: "string \<Rightarrow> apiError option"
  ve_deletePolicy :: "string \<Rightarrow> nsname \<Rightarrow> apiError option"
  ve_authPolicies :: "apiError + maasAuthPolicy list"
  ve_siblings :: "string \<Rightarrow> apiError + modelRefObject list"
  ve_setCondition :: "condition \<Rightarrow> condition list \<Rightarrow> condition list"
  ve_findCondition :: "string \<Rightarrow> condition list \<Rightarrow> condition option"

text \<open>The model and the generated policies of each kind.\<close>

record mrState =
  vs_model :: "modelRefObject option"
  vs_policies :: "string \<Rightarrow> objectMeta list"

datatype mrError = MrApi apiError | MrBackend backendError | MrList apiError | MrDelete apiError

datatype mrOutcome = MrDone | MrRequeueAfter nat | MrFailed mrError

abbreviation maasModelFinalizer :: string where "maasModelFinalizer \<equiv> ''maas.opendatahub.io/model-cleanup''"

section \<open>Governance\<close>

definition findAllAuthPoliciesForModel :: "mrEnv \<Rightarrow> string \<Rightarrow> string \<Rightarrow> apiError + maasAuthPolicy list" where
  "findAllAuthPoliciesForModel E modelNamespace modelName =
     (case ve_authPolicies E of
        Inl e \<Rightarrow> Inl e
      | Inr items \<Rightarrow>
        Inr (filter (\<lambda>p. \<not> om_Deleting (ap_meta p) \<and> (modelNamespace, modelName) \<in> set (ap_ModelRefs p)) items))"

fun filter_policies :: "settings \<Rightarrow> cluster \<Rightarrow> (string \<rightharpoonup> bool) \<Rightarrow> maasAuthPolicy list \<Rightarrow> maasAuthPolicy list" where
  "filter_policies S c allowed [] = []"
| "filter_policies S c allowed (p # ps) =
     (let ns = om_Namespace (ap_meta p);
          ok = (case allowed ns of Some b \<Rightarrow> b | None \<Rightarrow> isTenantNamespace S c ns)
      in (if ok then [p] else []) @ filter_policies S c (allowed(ns \<mapsto> ok)) ps)"

definition filterAuthPoliciesByTenantNamespace :: "settings \<Rightarrow> cluster \<Rightarrow> maasAuthPolicy list \<Rightarrow> maasAuthPolicy list" where
  "filterAuthPoliciesByTenantNamespace S c policies = filter_policies S c Map.empty policies"

definition findAnySubscriptionForModel :: "settings \<Rightarrow> cluster \<Rightarrow> string \<Rightarrow> string \<Rightarrow> maasSubscription option" where
  "findAnySubscriptionForModel S c modelNamespace modelName =
     (case findAllSubscriptionsForModel c modelNamespace modelName of
        Inl e \<Rightarrow> None
      | Inr subs \<Rightarrow> (case filterSubscriptionsByTenantNamespace S c subs of [] \<Rightarrow> None | s # _ \<Rightarrow> Some s))"

definition findAnyAuthPolicyForModel :: "settings \<Rightarrow> cluster \<Rightarrow> mrEnv \<Rightarrow> string \<Rightarrow> string \<Rightarrow> maasAuthPolicy option" where
  "findAnyAuthPolicyForModel S c E modelNamespace modelName =
     (case findAllAuthPoliciesForModel E modelNamespace modelName of
        Inl e \<Rightarrow> None
      | Inr policies \<Rightarrow> (case filterAuthPoliciesByTenantNamespace S c policies of [] \<Rightarrow> None | p # _ \<Rightarrow> Some p))"

definition checkGovernanceAttached :: "settings \<Rightarrow> cluster \<Rightarrow> mrEnv \<Rightarrow> modelRefObject \<Rightarrow> bool" where
  "checkGovernanceAttached S c E model =
     (let ns = om_Namespace (mm_meta model); n = om_Name (mm_meta model) in
      if findAnySubscriptionForModel S c ns n = None then False
      else findAnyAuthPolicyForModel S c E ns n \<noteq> None)"

section \<open>Conditions and phase\<close>

abbreviation ConditionGovernanceAttached :: string where "ConditionGovernanceAttached \<equiv> ''GovernanceAttached''"
abbreviation ConditionRuntimeReady :: string where "ConditionRuntimeReady \<equiv> ''RuntimeReady''"
abbreviation ConditionModelIdentityUnique :: string where "ConditionModelIdentityUnique \<equiv> ''ModelIdentityUnique''"

definition set_cond :: "mrEnv \<Rightarrow> string \<Rightarrow> string \<Rightarrow> string \<Rightarrow> string \<Rightarrow> modelRefObject \<Rightarrow> modelRefObject" where
  "set_cond E ty status reason message model =
     model\<lparr>mo_Conditions := ve_setCondition E
       \<lparr>cd_Type = ty, cd_Status = status, cd_Reason = reason, cd_Message = message,
        cd_ObservedGeneration = om_Generation (mm_meta model)\<rparr> (mo_Conditions model)\<rparr>"

definition setGovernanceCondition :: "mrEnv \<Rightarrow> bool \<Rightarrow> modelRefObject \<Rightarrow> modelRefObject" where
  "setGovernanceCondition E governed model =
     (if governed then set_cond E ConditionGovernanceAttached ''True'' ''GovernancePaired'' ''Active governance pairing found'' model
      else
        (case ve_findCondition E ConditionGovernanceAttached (mo_Conditions model) of
           Some prev \<Rightarrow>
             if cd_Status prev = ''True''
             then set_cond E ConditionGovernanceAttached ''False'' ''GovernanceGap'' ''Governance pairing lost'' model
             else set_cond E ConditionGovernanceAttached ''False'' ''NoPairingFound'' ''No active subscription and auth policy pairing found'' model
         | None \<Rightarrow>
             set_cond E ConditionGovernanceAttached ''False'' ''NoPairingFound'' ''No active subscription and auth policy pairing found'' model))"

definition markRuntimeReady :: "mrEnv \<Rightarrow> modelRefObject \<Rightarrow> modelRefObject" where
  "markRuntimeReady E model = set_cond E ConditionRuntimeReady ''True'' ''RuntimeHealthy'' ''Backend is healthy'' model"

definition markRuntimeNotReady :: "mrEnv \<Rightarrow> string \<Rightarrow> string \<Rightarrow> modelRefObject \<Rightarrow> modelRefObject" where
  "markRuntimeNotReady E reason message model =
     (if reason = [] then set_cond E ConditionRuntimeReady ''False'' ''RuntimeHealthFailure'' ''Backend is not ready'' model
      else set_cond E ConditionRuntimeReady ''False'' reason message model)"

definition deriveModelPhase :: "bool \<Rightarrow> bool \<Rightarrow> string \<times> string" where
  "deriveModelPhase governed runtimeReady =
     (if governed \<and> runtimeReady then (''Ready'', ''Governed and runtime-healthy'')
      else if governed \<and> \<not> runtimeReady then (''Unhealthy'', ''Governed but backend is not ready'')
      else if \<not> governed \<and> runtimeReady then (''Pending'', ''Awaiting governance pairing'')
      else (''Pending'', ''Awaiting governance pairing and backend readiness''))"

section \<open>Identity conflicts\<close>

definition findModelAliasConflicts :: "mrEnv \<Rightarrow> modelRefObject \<Rightarrow> apiError + string list" where
  "findModelAliasConflicts E model =
     (if mo_ResolvedModelAlias model = [] then Inr []
      else
        (case ve_siblings E (om_Namespace (mm_meta model)) of
           Inl e \<Rightarrow> Inl e
         | Inr siblings \<Rightarrow>
           Inr (sort (map (\<lambda>s. om_Name (mm_meta s))
             (filter (\<lambda>other. om_Name (mm_meta other) \<noteq> om_Name (mm_meta model) \<and>
                mo_ResolvedModelAlias other = mo_ResolvedModelAlias model \<and>
                mo_ResolvedTenantRef other = mo_ResolvedTenantRef model) siblings)))))"

definition pluralS :: "nat \<Rightarrow> string" where
  "pluralS n = (if n = 1 then [] else ''s'')"

definition conflict_message :: "modelRefObject \<Rightarrow> string list \<Rightarrow> string" where
  "conflict_message model conflicts =
     (let msg = ''Model identity '' @ [CHR 0x22] @ mo_ResolvedModelAlias model @ [CHR 0x22] @ '' is shared with '' @ Itoa (length conflicts) @
        '' other MaaSModelRef'' @ pluralS (length conflicts) @ '' in namespace '' @ om_Namespace (mm_meta model) @ '': '' @
        Join conflicts '', '' @ ''. Body-based routing selects a backend by model identity alone and cannot '' @
        ''disambiguate MaaSModelRefs that resolve to the same identity'' @ [CHR 0x20, CHR 0xE2, CHR 0x80, CHR 0x94, CHR 0x20] @ ''requests may be '' @
        ''routed to the wrong backend or evaluated against the wrong subscription. '' @
        ''Give each model a unique spec.model.name to resolve this, or serve the model '' @
        ''per tenant via modelRefs with distinct spec.tenantRef.''
      in if length msg > 1024 then take 1021 msg @ ''...'' else msg)"

definition setModelIdentityCondition :: "mrEnv \<Rightarrow> string list \<Rightarrow> modelRefObject \<Rightarrow> modelRefObject" where
  "setModelIdentityCondition E conflicts model =
     (if conflicts = [] then set_cond E ConditionModelIdentityUnique ''True'' ''UniqueIdentity''
        ''No other MaaSModelRef in this namespace resolves to the same model identity'' model
      else set_cond E ConditionModelIdentityUnique ''False'' ''ModelNameConflict'' (conflict_message model conflicts) model)"

definition checkModelIdentityConflict :: "mrEnv \<Rightarrow> modelRefObject \<Rightarrow> modelRefObject" where
  "checkModelIdentityConflict E model =
     (if mo_ResolvedModelAlias model = [] then
        set_cond E ConditionModelIdentityUnique ''Unknown'' ''AliasNotResolved''
          ''Model alias has not been resolved yet; conflict status is unknown'' model
      else
        (case findModelAliasConflicts E model of
           Inl e \<Rightarrow> set_cond E ConditionModelIdentityUnique ''Unknown'' ''ConflictCheckFailed'' ''list MaaSModelRefs in namespace'' model
         | Inr conflicts \<Rightarrow> setModelIdentityCondition E conflicts model))"

section \<open>Status writes\<close>

definition model_status_of ::
    "modelRefObject \<Rightarrow> string \<times> string \<times> string \<times> string \<times> gatewayRef \<times> string list \<times> string \<times> string \<times> condition list" where
  "model_status_of m = (mo_Phase m, mo_Endpoint m, mo_HTTPRouteName m, mo_HTTPRouteNamespace m,
     \<lparr>gw_Name = mm_GatewayName m, gw_Namespace = mm_GatewayNamespace m\<rparr>, mo_HTTPRouteHostnames m,
     mo_ResolvedTenantRef m, mo_ResolvedModelAlias m, mo_Conditions m)"

definition ready_reason :: "string \<Rightarrow> string \<Rightarrow> string" where
  "ready_reason phase reason =
     (if phase = ''Ready'' then ''Reconciled''
      else if reason \<noteq> [] then reason
      else if phase = ''Failed'' then ''ReconcileFailed''
      else if phase = ''Invalid'' then ''InvalidSpec''
      else ''BackendNotReady'')"

definition updateStatusWithReason ::
    "mrEnv \<Rightarrow> modelRefObject \<Rightarrow> string \<Rightarrow> string \<Rightarrow> string \<Rightarrow> modelRefObject \<Rightarrow> mrState \<Rightarrow> mrError option \<times> mrState" where
  "updateStatusWithReason E model phase message reason snapshot st =
     (let model = set_cond E ''Ready'' (if phase \<noteq> ''Ready'' then ''False'' else ''True'') (ready_reason phase reason) message
            (model\<lparr>mo_Phase := phase\<rparr>)
      in if model_status_of snapshot = model_status_of model then (None, st)
         else (case ve_status E of Some e \<Rightarrow> (Some (MrApi e), st) | None \<Rightarrow> (None, st\<lparr>vs_model := Some model\<rparr>)))"

definition updateModelStatus ::
    "mrEnv \<Rightarrow> modelRefObject \<Rightarrow> string \<Rightarrow> string \<Rightarrow> modelRefObject \<Rightarrow> mrState \<Rightarrow> mrError option \<times> mrState" where
  "updateModelStatus E model phase message snapshot st = updateStatusWithReason E model phase message [] snapshot st"

section \<open>Deletion\<close>

definition generated_labels :: "string \<Rightarrow> (string \<times> string) list" where
  "generated_labels modelName = [(''maas.opendatahub.io/model'', modelName), (''app.kubernetes.io/managed-by'', ''maas-controller'')]"

definition generated_for :: "string \<Rightarrow> string \<Rightarrow> objectMeta \<Rightarrow> bool" where
  "generated_for modelNamespace modelName p \<longleftrightarrow>
     om_Namespace p = modelNamespace \<and> list_all (\<lambda>(k, v). om_Labels p k = Some v) (generated_labels modelName)"

definition meta_key :: "objectMeta \<Rightarrow> nsname" where
  "meta_key p = (om_Namespace p, om_Name p)"

fun delete_policies ::
    "mrEnv \<Rightarrow> string \<Rightarrow> objectMeta list \<Rightarrow> objectMeta list \<Rightarrow> mrError option \<times> objectMeta list" where
  "delete_policies E kind [] store = (None, store)"
| "delete_policies E kind (p # ps) store =
     (if \<not> isManaged p then delete_policies E kind ps store
      else
        (case ve_deletePolicy E kind (meta_key p) of
           Some ApiNotFound \<Rightarrow> delete_policies E kind ps (filter (\<lambda>q. meta_key q \<noteq> meta_key p) store)
         | Some e \<Rightarrow> (Some (MrDelete e), store)
         | None \<Rightarrow> delete_policies E kind ps (filter (\<lambda>q. meta_key q \<noteq> meta_key p) store)))"

definition deleteGeneratedPoliciesByLabel ::
    "mrEnv \<Rightarrow> string \<Rightarrow> string \<Rightarrow> string \<Rightarrow> mrState \<Rightarrow> mrError option \<times> mrState" where
  "deleteGeneratedPoliciesByLabel E modelNamespace modelName kind st =
     (case ve_listPolicies E kind of
        Some ApiNotFound \<Rightarrow> (None, st)
      | Some ApiNoMatch \<Rightarrow> (None, st)
      | Some e \<Rightarrow> (Some (MrList e), st)
      | None \<Rightarrow>
        (case delete_policies E kind (filter (generated_for modelNamespace modelName) (vs_policies st kind)) (vs_policies st kind) of
           (e, ps) \<Rightarrow> (e, st\<lparr>vs_policies := (vs_policies st)(kind := ps)\<rparr>)))"

definition put_model :: "modelRefObject \<Rightarrow> mrState \<Rightarrow> mrState" where
  "put_model m st =
     st\<lparr>vs_model := (if om_Deleting (mm_meta m) \<and> om_Finalizers (mm_meta m) = [] then None else Some m)\<rparr>"

text \<open>\<open>CleanupOnDelete\<close> does nothing for either backend.\<close>

definition handleModelDeletion :: "mrEnv \<Rightarrow> modelRefObject \<Rightarrow> mrState \<Rightarrow> mrOutcome \<times> mrState" where
  "handleModelDeletion E model st =
     (let ns = om_Namespace (mm_meta model); n = om_Name (mm_meta model) in
      if maasModelFinalizer \<notin> set (om_Finalizers (mm_meta model)) then (MrDone, st)
      else
        (case deleteGeneratedPoliciesByLabel E ns n ''AuthPolicy'' st of
           (Some e, st) \<Rightarrow> (MrFailed e, st)
         | (None, st) \<Rightarrow>
           (case deleteGeneratedPoliciesByLabel E ns n ''TokenRateLimitPolicy'' st of
              (Some e, st) \<Rightarrow> (MrFailed e, st)
            | (None, st) \<Rightarrow>
              (case ve_finalizer E of
                 Some e \<Rightarrow> (MrFailed (MrApi e), st)
               | None \<Rightarrow>
                 (MrDone, put_model (model\<lparr>mm_meta := (mm_meta model)\<lparr>om_Finalizers :=
                    removeAll maasModelFinalizer (om_Finalizers (mm_meta model))\<rparr>\<rparr>) st)))))"

section \<open>Reconciling\<close>

definition model_spec_empty :: "modelRefObject \<Rightarrow> bool" where
  "model_spec_empty m \<longleftrightarrow> mm_Kind m = [] \<and> mm_RefName m = [] \<and> mo_EndpointOverride m = [] \<and> mo_TenantRef m = [] \<and> \<not> mo_HasGuardrails m"

definition backendNotReadyRequeueInterval :: nat where
  "backendNotReadyRequeueInterval = 10"

definition requeueWhileBackendNotReady :: "bool \<Rightarrow> mrOutcome" where
  "requeueWhileBackendNotReady runtimeReady = (if runtimeReady then MrDone else MrRequeueAfter backendNotReadyRequeueInterval)"

text \<open>A status write whose error is returned.\<close>

definition written :: "mrError option \<times> mrState \<Rightarrow> mrOutcome \<times> mrState" where
  "written r = (case r of (Some e, st) \<Rightarrow> (MrFailed e, st) | (None, st) \<Rightarrow> (MrDone, st))"

definition add_finalizer :: "mrEnv \<Rightarrow> modelRefObject \<Rightarrow> mrState \<Rightarrow> (apiError + modelRefObject) \<times> mrState" where
  "add_finalizer E model st =
     (if maasModelFinalizer \<in> set (om_Finalizers (mm_meta model)) then (Inr model, st)
      else
        (let model = model\<lparr>mm_meta := (mm_meta model)\<lparr>om_Finalizers := om_Finalizers (mm_meta model) @ [maasModelFinalizer]\<rparr>\<rparr> in
         case ve_finalizer E of Some e \<Rightarrow> (Inl e, st) | None \<Rightarrow> (Inr model, put_model model st)))"

text \<open>What follows a failed \<open>ReconcileRoute\<close> and a failed \<open>Status\<close>.\<close>

definition route_failed :: "mrEnv \<Rightarrow> backendError \<Rightarrow> modelRefObject \<Rightarrow> modelRefObject \<Rightarrow> mrState \<Rightarrow> mrOutcome \<times> mrState" where
  "route_failed E err model snapshot st =
     (case err of
        ErrKindNotImplemented \<Rightarrow> written (updateStatusWithReason E model ''Failed'' ''kind not implemented'' ''Unsupported'' snapshot st)
      | ErrRouteNotFound \<Rightarrow>
          written (updateModelStatus E (model\<lparr>mo_Endpoint := []\<rparr>) ''Pending'' ''Waiting for HTTPRoute to be created'' snapshot st)
      | ErrTenantResolutionPending \<Rightarrow>
          written (updateModelStatus E (model\<lparr>mo_Endpoint := []\<rparr>) ''Pending'' ''Waiting for tenant resolution'' snapshot st)
      | BackendOther e \<Rightarrow>
          (MrFailed (MrBackend err), snd (updateModelStatus E model ''Failed'' ''Failed to reconcile HTTPRoute'' snapshot st)))"

definition status_failed :: "mrEnv \<Rightarrow> backendError \<Rightarrow> modelRefObject \<Rightarrow> modelRefObject \<Rightarrow> mrState \<Rightarrow> mrOutcome \<times> mrState" where
  "status_failed E err model snapshot st =
     (let model = model\<lparr>mo_Endpoint := [], mo_Phase := ''Failed''\<rparr> in
      if err = ErrKindNotImplemented
      then written (updateStatusWithReason E model ''Failed'' ''kind not implemented'' ''Unsupported'' snapshot st)
      else (MrFailed (MrBackend err), snd (updateModelStatus E model ''Failed'' ''Failed to update model status'' snapshot st)))"

text \<open>The rest of the reconciliation, once the backend has answered.\<close>

definition finish_model ::
    "settings \<Rightarrow> cluster \<Rightarrow> modelReads \<Rightarrow> mrEnv \<Rightarrow> backendHandler \<Rightarrow> string \<Rightarrow> bool \<Rightarrow> string \<times> string \<Rightarrow> modelRefObject \<Rightarrow> modelRefObject \<Rightarrow> mrState
     \<Rightarrow> mrOutcome \<times> mrState" where
  "finish_model S c R E h endpoint runtimeReady notReady model snapshot st =
     (let model = model\<lparr>mo_Endpoint := (if mo_EndpointOverride model \<noteq> [] then mo_EndpointOverride model else endpoint)\<rparr>;
          model = (case ResolveModelAlias h R model of
             Inl e \<Rightarrow> model
           | Inr alias' \<Rightarrow> if alias' \<noteq> [] then model\<lparr>mo_ResolvedModelAlias := alias'\<rparr> else model);
          governed = checkGovernanceAttached S c E model;
          model = setGovernanceCondition E governed model;
          model = (if runtimeReady then markRuntimeReady E model else markRuntimeNotReady E (fst notReady) (snd notReady) model);
          model = checkModelIdentityConflict E model;
          (phase, message) = deriveModelPhase governed runtimeReady;
          model = (if phase \<noteq> ''Ready'' then model\<lparr>mo_Endpoint := []\<rparr> else model)
      in case updateModelStatus E model phase message snapshot st of
           (Some e, st) \<Rightarrow> (MrFailed e, st)
         | (None, st) \<Rightarrow> (requeueWhileBackendNotReady runtimeReady, st))"

definition reconcile_backend ::
    "libs \<Rightarrow> settings \<Rightarrow> cluster \<Rightarrow> modelReads \<Rightarrow> mrEnv \<Rightarrow> backendHandler \<Rightarrow> modelRefObject \<Rightarrow> mrState \<Rightarrow> mrOutcome \<times> mrState" where
  "reconcile_backend L S c R E h snapshot st =
     (case ReconcileRoute h L R snapshot of
        (Some err, model, notReady) \<Rightarrow> route_failed E err model snapshot st
      | (None, model, notReady) \<Rightarrow>
        (case Status h R \<lparr>gw_Name = st_GatewayName S, gw_Namespace = st_GatewayNamespace S\<rparr> model of
           Inl err \<Rightarrow> status_failed E err model snapshot st
         | Inr (endpoint, runtimeReady) \<Rightarrow> finish_model S c R E h endpoint runtimeReady notReady model snapshot st))"

definition ReconcileModel ::
    "libs \<Rightarrow> settings \<Rightarrow> cluster \<Rightarrow> modelReads \<Rightarrow> mrEnv \<Rightarrow> mrState \<Rightarrow> mrOutcome \<times> mrState" where
  "ReconcileModel L S c R E st =
     (case ve_get E of
        Some ApiNotFound \<Rightarrow> (MrDone, st)
      | Some e \<Rightarrow> (MrFailed (MrApi e), st)
      | None \<Rightarrow>
        (case vs_model st of
           None \<Rightarrow> (MrDone, st)
         | Some model \<Rightarrow>
           if om_Deleting (mm_meta model) then handleModelDeletion E model st
           else if model_spec_empty model then written (updateModelStatus E model ''Invalid'' ''spec is required'' model st)
           else
             (case add_finalizer E model st of
                (Inl e, st) \<Rightarrow> (MrFailed (MrApi e), st)
              | (Inr model, st) \<Rightarrow>
                (case GetBackendHandler (mm_Kind model) of
                   None \<Rightarrow> written (updateModelStatus E model ''Failed'' (''unknown kind: '' @ mm_Kind model) model st)
                 | Some h \<Rightarrow> reconcile_backend L S c R E h model st))))"

section \<open>Which models are looked at again\<close>

definition modelRefNameIndexer :: "modelRefObject \<Rightarrow> string list" where
  "modelRefNameIndexer m = (if mm_RefName m = [] then [] else [mm_RefName m])"

abbreviation tenantAssociationUnresolved :: string where "tenantAssociationUnresolved \<equiv> ''_unresolved_''"

definition tenantAssociationIndexer :: "modelRefObject \<Rightarrow> string list" where
  "tenantAssociationIndexer m =
     (if mo_TenantRef m \<noteq> [] then [mo_TenantRef m]
      else if mo_ResolvedTenantRef m \<noteq> [] then [mo_ResolvedTenantRef m]
      else [tenantAssociationUnresolved])"

definition model_key :: "modelRefObject \<Rightarrow> nsname" where
  "model_key m = (om_Namespace (mm_meta m), om_Name (mm_meta m))"

definition siblingConflictFieldsChanged :: "modelRefObject \<Rightarrow> modelRefObject \<Rightarrow> bool" where
  "siblingConflictFieldsChanged oldM newM \<longleftrightarrow>
     mo_ResolvedModelAlias oldM \<noteq> mo_ResolvedModelAlias newM \<or> mo_ResolvedTenantRef oldM \<noteq> mo_ResolvedTenantRef newM"

definition enqueueSiblingsWithAlias :: "mrEnv \<Rightarrow> modelRefObject \<Rightarrow> string \<Rightarrow> nsname list" where
  "enqueueSiblingsWithAlias E changed oldAlias =
     (let newAlias = mo_ResolvedModelAlias changed in
      if newAlias = [] \<and> oldAlias = [] then []
      else
        (case ve_siblings E (om_Namespace (mm_meta changed)) of
           Inl e \<Rightarrow> []
         | Inr siblings \<Rightarrow>
           map model_key (filter (\<lambda>m. om_Name (mm_meta m) \<noteq> om_Name (mm_meta changed) \<and>
             (newAlias \<noteq> [] \<and> mo_ResolvedModelAlias m = newAlias \<or> oldAlias \<noteq> [] \<and> mo_ResolvedModelAlias m = oldAlias)) siblings)))"

text \<open>The three event functions of the sibling watch.\<close>

datatype siblingEvent = SiblingCreated modelRefObject | SiblingUpdated modelRefObject modelRefObject | SiblingDeleted modelRefObject

fun sibling_requests :: "mrEnv \<Rightarrow> siblingEvent \<Rightarrow> nsname list" where
  "sibling_requests E (SiblingCreated m) = enqueueSiblingsWithAlias E m []"
| "sibling_requests E (SiblingUpdated oldM newM) =
     (if siblingConflictFieldsChanged oldM newM then enqueueSiblingsWithAlias E newM (mo_ResolvedModelAlias oldM) else [])"
| "sibling_requests E (SiblingDeleted m) = enqueueSiblingsWithAlias E m []"

definition mapHTTPRouteToMaaSModelRefs :: "mrEnv \<Rightarrow> httpRoute \<Rightarrow> nsname list" where
  "mapHTTPRouteToMaaSModelRefs E route =
     (case ve_siblings E (hr_Namespace route) of Inl e \<Rightarrow> [] | Inr models \<Rightarrow> map model_key models)"

fun first_keys :: "nsname list \<Rightarrow> nsname list \<Rightarrow> nsname list" where
  "first_keys seen [] = []"
| "first_keys seen (k # ks) = (if k \<in> set seen then first_keys seen ks else k # first_keys (k # seen) ks)"

definition mapMaaSSubscriptionToMaaSModelRefs :: "settings \<Rightarrow> cluster \<Rightarrow> maasSubscription \<Rightarrow> nsname list" where
  "mapMaaSSubscriptionToMaaSModelRefs S c sub =
     (if \<not> isTenantNamespace S c (om_Namespace (ms_meta sub)) then []
      else first_keys [] (map (\<lambda>ref. (msr_Namespace ref, msr_Name ref)) (ms_ModelRefs sub)))"

definition mapMaaSAuthPolicyToMaaSModelRefs :: "settings \<Rightarrow> cluster \<Rightarrow> maasAuthPolicy \<Rightarrow> nsname list" where
  "mapMaaSAuthPolicyToMaaSModelRefs S c policy =
     (if \<not> isTenantNamespace S c (om_Namespace (ap_meta policy)) then [] else first_keys [] (ap_ModelRefs policy))"

text \<open>The two listings of the AITenant mapper are answers for one value of the index each.\<close>

definition mapAITenantToMaaSModelRefs :: "(string \<Rightarrow> apiError + modelRefObject list) \<Rightarrow> string \<Rightarrow> nsname list" where
  "mapAITenantToMaaSModelRefs byTenant tenant =
     (case byTenant tenant of
        Inl e \<Rightarrow> []
      | Inr associated \<Rightarrow>
        (case byTenant tenantAssociationUnresolved of
           Inl e \<Rightarrow> []
         | Inr unresolved \<Rightarrow> first_keys [] (map model_key (associated @ unresolved))))"

definition modelRefsReferencing :: "(string \<Rightarrow> apiError + modelRefObject list) \<Rightarrow> string \<Rightarrow> string \<Rightarrow> string \<Rightarrow> nsname list" where
  "modelRefsReferencing byRefName kind objName objNamespace =
     (case byRefName objName of
        Inl e \<Rightarrow> []
      | Inr models \<Rightarrow>
        map model_key (filter (\<lambda>m. mm_Kind m = kind \<and> om_Namespace (mm_meta m) = objNamespace) models))"

section \<open>A Ready model is governed and served\<close>

text \<open>The spec and the route part of the status, which the condition updates leave alone.\<close>

definition core ::
    "modelRefObject \<Rightarrow> objectMeta \<times> string \<times> string \<times> string \<times> string \<times> string \<times> string \<times> gatewayRef \<times> string list \<times> string" where
  "core m = (mm_meta m, mm_Kind m, mm_RefName m, mo_TenantRef m, mo_EndpointOverride m, mo_HTTPRouteName m, mo_HTTPRouteNamespace m,
     \<lparr>gw_Name = mm_GatewayName m, gw_Namespace = mm_GatewayNamespace m\<rparr>, mo_HTTPRouteHostnames m, mo_ResolvedTenantRef m)"

definition same_spec :: "modelRefObject \<Rightarrow> modelRefObject \<Rightarrow> bool" where
  "same_spec m m' \<longleftrightarrow> mm_meta m' = mm_meta m \<and> mm_Kind m' = mm_Kind m \<and> mm_RefName m' = mm_RefName m \<and>
     mo_TenantRef m' = mo_TenantRef m \<and> mo_EndpointOverride m' = mo_EndpointOverride m"

definition model_gateway :: "modelRefObject \<Rightarrow> gatewayRef" where
  "model_gateway m = \<lparr>gw_Name = mm_GatewayName m, gw_Namespace = mm_GatewayNamespace m\<rparr>"

text \<open>The gateway belongs to the tenant of the model.\<close>

definition tenant_gateway :: "modelReads \<Rightarrow> modelRefObject \<Rightarrow> gatewayRef \<Rightarrow> bool" where
  "tenant_gateway R m gw \<longleftrightarrow> usable_ref gw \<and>
     (if mo_TenantRef m \<noteq> [] then rd_Tenant R (mo_TenantRef m) = Inr gw \<and> mo_ResolvedTenantRef m = mo_TenantRef m
      else \<exists>ts. rd_Tenants R = Inr ts \<and> (mo_ResolvedTenantRef m, gw) \<in> set ts)"

definition route_on_gateway :: "string \<Rightarrow> fullRoute \<Rightarrow> gatewayRef \<Rightarrow> bool" where
  "route_on_gateway ns route gw \<longleftrightarrow> (\<exists>p\<in>set (hr_ParentRefs route). parentRefTargetsGateway p \<and> pref_Name p = gw_Name gw \<and>
     (case pref_Namespace p of None \<Rightarrow> ns | Some n \<Rightarrow> n) = gw_Namespace gw)"

text \<open>The backend of the model is ready, reached by a route through its gateway.\<close>

definition served :: "modelReads \<Rightarrow> modelRefObject \<Rightarrow> bool" where
  "served R m \<longleftrightarrow> tenant_gateway R m (model_gateway m) \<and>
     (case GetBackendHandler (mm_Kind m) of
        None \<Rightarrow> False
      | Some LlmisvcHandler \<Rightarrow>
          (\<exists>svc route rest. rd_Service R (om_Namespace (mm_meta m)) (mm_RefName m) = Inr svc \<and> service_ready (llmInferenceService.truncate svc) \<and>
             rd_RouterRoutes R (om_Namespace (mm_meta m)) (mm_RefName m) = Inr (route # rest) \<and>
             route_on_gateway (om_Namespace (mm_meta m)) route (model_gateway m))
      | Some ExternalModelHandler \<Rightarrow>
          (\<exists>route. rd_Route R (mo_HTTPRouteNamespace m) (mo_HTTPRouteName m) = Inr route \<and>
             route_on_gateway (mo_HTTPRouteNamespace m) route (model_gateway m) \<and>
             model_gateway m \<in> set (acceptedRouteParents route)))"

definition governed_by :: "settings \<Rightarrow> cluster \<Rightarrow> mrEnv \<Rightarrow> modelRefObject \<Rightarrow> bool" where
  "governed_by S c E m \<longleftrightarrow>
     (\<exists>subs s ps p. cl_Subscriptions c (om_Namespace (mm_meta m) @ ''/'' @ om_Name (mm_meta m)) = Inr subs \<and> s \<in> set subs \<and>
        \<not> om_Deleting (ms_meta s) \<and> isTenantNamespace S c (om_Namespace (ms_meta s)) \<and>
        ve_authPolicies E = Inr ps \<and> p \<in> set ps \<and> \<not> om_Deleting (ap_meta p) \<and> model_key m \<in> set (ap_ModelRefs p) \<and>
        isTenantNamespace S c (om_Namespace (ap_meta p)))"

lemma filter_policies_subset:
  assumes "\<forall>ns b. allowed ns = Some b \<longrightarrow> b = isTenantNamespace S c ns" and "p \<in> set (filter_policies S c allowed ps)"
  shows "p \<in> set ps \<and> isTenantNamespace S c (om_Namespace (ap_meta p))"
  using assms
proof (induction ps arbitrary: allowed)
  case (Cons q ps)
  let ?ns = "om_Namespace (ap_meta q)"
  let ?ok = "case allowed ?ns of Some b \<Rightarrow> b | None \<Rightarrow> isTenantNamespace S c ?ns"
  have ok: "?ok = isTenantNamespace S c ?ns" using Cons.prems(1) by (simp split: option.splits)
  from Cons.prems(2) consider (head) "?ok" "p = q" | (tail) "p \<in> set (filter_policies S c (allowed(?ns \<mapsto> ?ok)) ps)"
    by (auto simp: Let_def split: if_splits)
  then show ?case
  proof cases
    case tail
    then have "p \<in> set ps \<and> isTenantNamespace S c (om_Namespace (ap_meta p))"
      using Cons.prems(1) ok by (intro Cons.IH) auto
    then show ?thesis by simp
  qed (use ok in simp)
qed simp

lemma checkGovernanceAttached_sound:
  assumes "checkGovernanceAttached S c E m"
  shows "governed_by S c E m"
proof -
  let ?ns = "om_Namespace (mm_meta m)" and ?n = "om_Name (mm_meta m)"
  from assms obtain s p where s: "findAnySubscriptionForModel S c ?ns ?n = Some s" and p: "findAnyAuthPolicyForModel S c E ?ns ?n = Some p"
    by (auto simp: checkGovernanceAttached_def Let_def split: if_splits)
  from s obtain subs fs where "findAllSubscriptionsForModel c ?ns ?n = Inr fs" and
    "s \<in> set fs" "isTenantNamespace S c (om_Namespace (ms_meta s))"
    by (auto simp: findAnySubscriptionForModel_def split: sum.splits list.splits dest!: filter_eq_ConsD)
  moreover from this(1) obtain subs where "cl_Subscriptions c (?ns @ ''/'' @ ?n) = Inr subs" "fs = filter (\<lambda>s. \<not> om_Deleting (ms_meta s)) subs"
    by (auto simp: findAllSubscriptionsForModel_def split: sum.splits)
  moreover from p obtain gs rest where g: "findAllAuthPoliciesForModel E ?ns ?n = Inr gs" "filter_policies S c Map.empty gs = p # rest"
    by (auto simp: findAnyAuthPolicyForModel_def filterAuthPoliciesByTenantNamespace_def split: sum.splits list.splits)
  then have "p \<in> set gs \<and> isTenantNamespace S c (om_Namespace (ap_meta p))"
    by (intro filter_policies_subset [where allowed = Map.empty]) auto
  moreover from g(1) obtain ps where "ve_authPolicies E = Inr ps"
    "gs = filter (\<lambda>p. \<not> om_Deleting (ap_meta p) \<and> (?ns, ?n) \<in> set (ap_ModelRefs p)) ps"
    by (auto simp: findAllAuthPoliciesForModel_def split: sum.splits)
  ultimately show ?thesis unfolding governed_by_def model_key_def by auto
qed

lemma find_gateway_found:
  assumes "find_gateway ns expected ps first = (True, gw)"
  shows "gw = expected \<and> (\<exists>p\<in>set ps. parentRefTargetsGateway p \<and> pref_Name p = gw_Name gw \<and>
     (case pref_Namespace p of None \<Rightarrow> ns | Some n \<Rightarrow> n) = gw_Namespace gw)"
  using assms
proof (induction ns expected ps first rule: find_gateway.induct)
  case (2 ns expected p ps first)
  then show ?case
    by (cases "parentRefTargetsGateway p"; cases expected; auto simp: Let_def split: if_splits)
qed simp

lemma resolve_from_route_result:
  assumes "resolveGatewayRefFromHTTPRoute R m route = (r, m')"
  shows "(m' = m \<or> (\<exists>t. m' = m\<lparr>mo_ResolvedTenantRef := t\<rparr>)) \<and> r \<noteq> Inl ErrKindNotImplemented \<and>
    (\<forall>gw. r = Inr gw \<longrightarrow> usable_ref gw \<and> (\<exists>ts. rd_Tenants R = Inr ts \<and> (mo_ResolvedTenantRef m', gw) \<in> set ts))"
proof (cases "hr_ParentRefs route = []")
  case True
  with assms show ?thesis by (auto simp: resolveGatewayRefFromHTTPRoute_def)
next
  case False
  show ?thesis
  proof (cases "rd_Tenants R")
    case (Inl e)
    with False assms show ?thesis by (auto simp: resolveGatewayRefFromHTTPRoute_def)
  next
    case (Inr ts)
    consider "tenant_matches ts route = []" | t ref where "tenant_matches ts route = [(t, ref)]"
      | t ref y zs where "tenant_matches ts route = (t, ref) # y # zs"
      by (metis list.exhaust surj_pair)
    then show ?thesis
      using False Inr assms tenant_matches_sound [of ts route] by cases (auto simp: resolveGatewayRefFromHTTPRoute_def)
  qed
qed

lemma resolveGatewayRef_result:
  assumes "resolveGatewayRef R m route = (r, m')"
  shows "(m' = m \<or> (\<exists>t. m' = m\<lparr>mo_ResolvedTenantRef := t\<rparr>)) \<and> r \<noteq> Inl ErrKindNotImplemented \<and>
    (\<forall>gw. r = Inr gw \<longrightarrow> tenant_gateway R m' gw)"
proof (cases "mo_TenantRef m = []")
  case False
  with assms show ?thesis
    by (auto simp: resolveGatewayRef_def tenant_gateway_def usable_ref_def split: if_splits sum.splits apiError.splits)
next
  case True
  show ?thesis
  proof (cases route)
    case None
    with True assms show ?thesis by (auto simp: resolveGatewayRef_def)
  next
    case (Some rt)
    with True assms have "resolveGatewayRefFromHTTPRoute R m rt = (r, m')" by (simp add: resolveGatewayRef_def)
    from resolve_from_route_result [OF this] True show ?thesis by (auto simp: tenant_gateway_def)
  qed
qed

lemma set_route_simps [simp]:
  "same_spec m (set_route n ns gw hs m') = same_spec m m'" "tenant_gateway R (set_route n ns gw hs m) g = tenant_gateway R m g"
  "model_gateway (set_route n ns gw hs m) = gw" "mm_GatewayName (set_route n ns gw hs m) = gw_Name gw"
  "mo_HTTPRouteName (set_route n ns gw hs m) = n" "mo_HTTPRouteNamespace (set_route n ns gw hs m) = ns"
  by (simp_all add: set_route_def same_spec_def tenant_gateway_def model_gateway_def)

lemma same_spec_resolved:
  "m' = m \<or> (\<exists>t. m' = m\<lparr>mo_ResolvedTenantRef := t\<rparr>) \<Longrightarrow> same_spec m0 m \<Longrightarrow> same_spec m0 m'"
  by (auto simp: same_spec_def)

lemma same_spec_clear [simp]: "same_spec m (clearRouteStatus m') = same_spec m m'"
  unfolding clearRouteStatus_def set_route_simps by (simp add: same_spec_def)

lemma cleared_gateway: "mm_GatewayName (clearRouteStatus m) = []"
  by (simp add: clearRouteStatus_def no_gateway_def)

lemma same_spec_refl [simp]: "same_spec m m"
  by (simp add: same_spec_def)

lemma llmisvc_route_result:
  assumes "validateLLMISvcHTTPRoute R m = (e, m')"
  shows "same_spec m m' \<and> e \<noteq> Some ErrKindNotImplemented \<and>
    (e = None \<longrightarrow> tenant_gateway R m' (model_gateway m') \<and>
      (\<exists>route rest. rd_RouterRoutes R (om_Namespace (mm_meta m)) (mm_RefName m) = Inr (route # rest) \<and>
         route_on_gateway (om_Namespace (mm_meta m)) route (model_gateway m')))"
proof (cases "rd_RouterRoutes R (om_Namespace (mm_meta m)) (mm_RefName m)")
  case (Inl x)
  with assms show ?thesis by (auto simp: validateLLMISvcHTTPRoute_def Let_def)
next
  case (Inr routes)
  show ?thesis
  proof (cases routes)
    case Nil
    with Inr assms show ?thesis by (auto simp: validateLLMISvcHTTPRoute_def Let_def)
  next
    case (Cons route rest)
    obtain r m1 where r: "resolveGatewayRef R m (Some route) = (r, m1)" by fastforce
    note res = resolveGatewayRef_result [OF r]
    show ?thesis
    proof (cases r)
      case (Inl x)
      with Inr Cons assms r res same_spec_resolved [of m1 m m] show ?thesis by (auto simp: validateLLMISvcHTTPRoute_def Let_def)
    next
      case (Inr expected)
      obtain ok gw where g: "find_gateway (om_Namespace (mm_meta m)) expected (hr_ParentRefs route) no_gateway = (ok, gw)" by fastforce
      have "e = (if ok then None else Some (BackendOther ''HTTPRoute does not reference gateway''))"
        "m' = set_route (hr_Name route) (om_Namespace (mm_meta m)) gw (hr_Hostnames route) m1"
        using assms \<open>rd_RouterRoutes R _ _ = _\<close> Cons r Inr g by (auto simp: validateLLMISvcHTTPRoute_def Let_def)
      moreover have "ok \<Longrightarrow> gw = expected \<and> route_on_gateway (om_Namespace (mm_meta m)) route gw"
        using find_gateway_found g unfolding route_on_gateway_def by fastforce
      ultimately show ?thesis
        using \<open>rd_RouterRoutes R _ _ = _\<close> Cons res Inr same_spec_resolved [of m1 m m] by auto
    qed
  qed
qed

lemma selectGatewayRoute_result:
  assumes "selectGatewayRoute R m em routes = (r, m')"
  shows "(m' = m \<or> (\<exists>t. m' = m\<lparr>mo_ResolvedTenantRef := t\<rparr>)) \<and> r \<noteq> Inl ErrKindNotImplemented"
proof (cases "mo_TenantRef m = []")
  case True
  with assms show ?thesis by (auto simp: selectGatewayRoute_def Let_def split: if_splits)
next
  case False
  obtain r1 m1 where r: "resolveGatewayRef R m None = (r1, m1)" by fastforce
  with False assms resolveGatewayRef_result [OF r] show ?thesis
    by (cases r1) (auto simp: selectGatewayRoute_def Let_def)
qed

lemma external_route_result:
  assumes "external_route L R m = (r, m')"
  shows "same_spec m m' \<and> r \<noteq> Inl ErrKindNotImplemented"
proof (cases "rd_External R (om_Namespace (mm_meta m)) (mm_RefName m)")
  case (Inl e)
  with assms show ?thesis by (cases e) (auto simp: external_route_def Let_def split: option.splits)
next
  case (Inr em)
  show ?thesis
  proof (cases "externalModelGatewayRoutes (externalModel.truncate em)")
    case None
    with Inr assms show ?thesis by (auto simp: external_route_def Let_def)
  next
    case (Some routes)
    obtain r1 m1 where r1: "selectGatewayRoute R (clearRouteStatus m) em routes = (r1, m1)" by fastforce
    from selectGatewayRoute_result [OF r1] have "same_spec m m1" "r1 \<noteq> Inl ErrKindNotImplemented"
      using same_spec_resolved [of m1 "clearRouteStatus m" m] by auto
    with Inr Some assms r1 show ?thesis by (cases r1) (auto simp: external_route_def Let_def)
  qed
qed

lemma external_validate_result:
  assumes "external_validate R routeName routeNS m = (e, m', nr)"
  shows "same_spec m m' \<and> e \<noteq> Some ErrKindNotImplemented \<and>
    (e = None \<and> mm_GatewayName m' \<noteq> [] \<longrightarrow> tenant_gateway R m' (model_gateway m') \<and>
      (\<exists>route. rd_Route R (mo_HTTPRouteNamespace m') (mo_HTTPRouteName m') = Inr route \<and>
         route_on_gateway (mo_HTTPRouteNamespace m') route (model_gateway m') \<and> model_gateway m' \<in> set (acceptedRouteParents route)))"
proof (cases "rd_Route R routeNS routeName")
  case (Inl x)
  with assms show ?thesis by (cases x) (auto simp: external_validate_def clearRouteStatus_def no_gateway_def set_route_def same_spec_def)
next
  case (Inr route)
  obtain r m1 where r: "resolveGatewayRef R m (Some route) = (r, m1)" by fastforce
  note res = resolveGatewayRef_result [OF r]
  have s: "same_spec m m1" using res same_spec_resolved [of m1 m m] by simp
  show ?thesis
  proof (cases r)
    case (Inl x)
    with Inr assms r res s show ?thesis by (auto simp: external_validate_def)
  next
    case exp: (Inr expected)
    obtain ok gw where g: "find_gateway routeNS expected (hr_ParentRefs route) no_gateway = (ok, gw)" by fastforce
    show ?thesis
    proof (cases ok)
      case False
      with Inr assms r exp g s show ?thesis by (auto simp: external_validate_def)
    next
      case True
      with g have "find_gateway routeNS expected (hr_ParentRefs route) no_gateway = (True, gw)" by simp
      from find_gateway_found [OF this] have on: "gw = expected" "route_on_gateway routeNS route gw"
        unfolding route_on_gateway_def by blast+
      show ?thesis
      proof (cases "expected \<in> set (acceptedRouteParents route)")
        case False
        with Inr assms r exp g True s show ?thesis by (auto simp: external_validate_def no_gateway_def)
      next
        case acc: True
        with Inr assms r exp g True have "e = None" "m' = set_route routeName routeNS gw (hr_Hostnames route) m1"
          by (auto simp: external_validate_def)
        with on acc Inr res exp s show ?thesis by simp
      qed
    qed
  qed
qed

lemma external_reconcile_result:
  assumes "external_ReconcileRoute L R m = (e, m', nr)"
  shows "same_spec m m' \<and> e \<noteq> Some ErrKindNotImplemented \<and>
    (e = None \<and> mm_GatewayName m' \<noteq> [] \<longrightarrow> tenant_gateway R m' (model_gateway m') \<and>
      (\<exists>route. rd_Route R (mo_HTTPRouteNamespace m') (mo_HTTPRouteName m') = Inr route \<and>
         route_on_gateway (mo_HTTPRouteNamespace m') route (model_gateway m') \<and> model_gateway m' \<in> set (acceptedRouteParents route)))"
proof -
  obtain r m1 where r: "external_route L R m = (r, m1)" by fastforce
  note res = external_route_result [OF r]
  show ?thesis
  proof (cases r)
    case (Inl x)
    with assms r res show ?thesis by (auto simp: external_ReconcileRoute_def)
  next
    case (Inr rn)
    obtain n ns where rn: "rn = (n, ns)" by fastforce
    show ?thesis
    proof (cases "n = []")
      case True
      with assms r Inr rn res show ?thesis
        by (auto simp: external_ReconcileRoute_def cleared_gateway)
    next
      case False
      with assms r Inr rn have v: "external_validate R n ns m1 = (e, m', nr)" by (simp add: external_ReconcileRoute_def)
      from external_validate_result [OF v] res show ?thesis by (auto simp: same_spec_def)
    qed
  qed
qed

lemma status_ready:
  assumes "Status h R dg m = Inr (endpoint, True)"
  shows "endpoint \<noteq> [] \<and>
    (h = LlmisvcHandler \<longrightarrow> (\<exists>svc. rd_Service R (om_Namespace (mm_meta m)) (mm_RefName m) = Inr svc \<and> service_ready (llmInferenceService.truncate svc))) \<and>
    (h = ExternalModelHandler \<longrightarrow> mo_HTTPRouteName m \<noteq> [] \<and> mm_GatewayName m \<noteq> [])"
proof (cases h)
  case LlmisvcHandler
  with assms show ?thesis
    by (auto simp: llmisvc_Status_def llmisvc_GetModelEndpoint_def Let_def split: sum.splits if_splits list.splits option.splits)
next
  case ExternalModelHandler
  with assms show ?thesis
    by (auto simp: external_Status_def external_GetModelEndpoint_def bind_res_eq_Inr_iff split: sum.splits if_splits list.splits option.splits)
qed

text \<open>A ready backend serves the model.\<close>

lemma ready_served:
  assumes "GetBackendHandler (mm_Kind m) = Some h" and "ReconcileRoute h L R m = (None, m', nr)"
    and "Status h R dg m' = Inr (endpoint, True)"
  shows "served R m' \<and> endpoint \<noteq> []"
proof (cases h)
  case LlmisvcHandler
  with assms(2) have v: "validateLLMISvcHTTPRoute R m = (None, m')" by (auto split: prod.splits)
  from llmisvc_route_result [OF v] status_ready [OF assms(3)] LlmisvcHandler assms(1)
  show ?thesis unfolding served_def same_spec_def by auto
next
  case ExternalModelHandler
  with assms(2) have v: "external_ReconcileRoute L R m = (None, m', fst nr, snd nr)" by simp
  from external_reconcile_result [OF v] status_ready [OF assms(3)] ExternalModelHandler assms(1)
  show ?thesis unfolding served_def same_spec_def by auto
qed

lemma reconcile_route_spec:
  assumes "ReconcileRoute h L R m = (e, m', nr)"
  shows "same_spec m m' \<and> e \<noteq> Some ErrKindNotImplemented"
proof (cases h)
  case LlmisvcHandler
  with assms have "validateLLMISvcHTTPRoute R m = (e, m')" by (auto split: prod.splits)
  from llmisvc_route_result [OF this] show ?thesis by blast
next
  case ExternalModelHandler
  with assms have "external_ReconcileRoute L R m = (e, m', fst nr, snd nr)" by simp
  from external_reconcile_result [OF this] show ?thesis by blast
qed

lemma status_error: "Status h R dg m \<noteq> Inl ErrKindNotImplemented"
  by (cases h) (auto simp: llmisvc_Status_def llmisvc_GetModelEndpoint_def external_Status_def external_GetModelEndpoint_def
      bind_res_eq_Inl_iff Let_def split: sum.splits if_splits list.splits option.splits)

section \<open>The status that is written\<close>

lemma coreD:
  assumes "core m = core m'"
  shows "mm_meta m = mm_meta m'" "mm_Kind m = mm_Kind m'" "mm_RefName m = mm_RefName m'" "mo_HTTPRouteName m = mo_HTTPRouteName m'"
    "mo_HTTPRouteNamespace m = mo_HTTPRouteNamespace m'" "model_gateway m = model_gateway m'" "tenant_gateway R m = tenant_gateway R m'"
    "mo_EndpointOverride m = mo_EndpointOverride m'"
  using assms by (simp_all add: core_def model_gateway_def tenant_gateway_def fun_eq_iff)

lemma served_core:
  assumes "core m = core m'"
  shows "served R m = served R m'"
  unfolding served_def coreD [OF assms] ..

lemma governed_core: "core m = core m' \<Longrightarrow> governed_by S c E m = governed_by S c E m'"
  using coreD(1) [of m m'] by (simp add: governed_by_def model_key_def)

lemma set_cond_simps [simp]:
  "core (set_cond E ty s r msg m) = core m" "mo_Endpoint (set_cond E ty s r msg m) = mo_Endpoint m"
  "mo_Phase (set_cond E ty s r msg m) = mo_Phase m" "same_spec m0 (set_cond E ty s r msg m) = same_spec m0 m"
  "mo_ResolvedModelAlias (set_cond E ty s r msg m) = mo_ResolvedModelAlias m"
  by (simp_all add: set_cond_def core_def same_spec_def)

lemma core_ignores [simp]:
  "core (m\<lparr>mo_Endpoint := e\<rparr>) = core m" "core (m\<lparr>mo_Phase := p\<rparr>) = core m" "core (m\<lparr>mo_ResolvedModelAlias := a\<rparr>) = core m"
  "same_spec m0 (m\<lparr>mo_Endpoint := e\<rparr>) = same_spec m0 m" "same_spec m0 (m\<lparr>mo_Phase := p\<rparr>) = same_spec m0 m"
  "same_spec m0 (m\<lparr>mo_ResolvedModelAlias := a\<rparr>) = same_spec m0 m"
  by (simp_all add: core_def same_spec_def)

lemma updateStatus_result:
  assumes "updateStatusWithReason E m phase msg reason snap st = (None, st')" and "vs_model st = Some snap" and "same_spec snap m"
  shows "\<exists>m'. vs_model st' = Some m' \<and> core m' = core m \<and> mo_Phase m' = phase \<and> mo_Endpoint m' = mo_Endpoint m"
proof -
  let ?m = "set_cond E ''Ready'' (if phase \<noteq> ''Ready'' then ''False'' else ''True'') (ready_reason phase reason) msg (m\<lparr>mo_Phase := phase\<rparr>)"
  consider (same) "model_status_of snap = model_status_of ?m" "st' = st" | (written) "vs_model st' = Some ?m"
    using assms(1) by (auto simp: updateStatusWithReason_def Let_def split: if_splits option.splits)
  then show ?thesis
  proof cases
    case same
    then have "core snap = core m \<and> mo_Phase snap = phase \<and> mo_Endpoint snap = mo_Endpoint m"
      using assms(3) by (auto simp: model_status_of_def set_cond_def core_def same_spec_def)
    with same assms(2) show ?thesis by auto
  qed simp
qed

lemma backend_conditions_simps [simp]:
  "core (setGovernanceCondition E g m) = core m" "mo_Endpoint (setGovernanceCondition E g m) = mo_Endpoint m"
  "core (markRuntimeReady E m) = core m" "mo_Endpoint (markRuntimeReady E m) = mo_Endpoint m"
  "core (markRuntimeNotReady E r msg m) = core m" "mo_Endpoint (markRuntimeNotReady E r msg m) = mo_Endpoint m"
  "core (checkModelIdentityConflict E m) = core m" "mo_Endpoint (checkModelIdentityConflict E m) = mo_Endpoint m"
  by (simp_all add: setGovernanceCondition_def markRuntimeReady_def markRuntimeNotReady_def checkModelIdentityConflict_def
      setModelIdentityCondition_def split: option.splits sum.splits)

lemma same_spec_core: "core m = core m' \<Longrightarrow> same_spec m0 m = same_spec m0 m'"
  by (simp add: core_def same_spec_def)

lemma deriveModelPhase_Ready: "fst (deriveModelPhase g r) = ''Ready'' \<longleftrightarrow> g \<and> r"
  by (simp add: deriveModelPhase_def)

lemma finish_model_result:
  assumes "finish_model S c R E h endpoint ready nr m snap st = (out, st')" and "\<And>e. out \<noteq> MrFailed e"
    and "vs_model st = Some snap" and "same_spec snap m"
  shows "\<exists>m'. vs_model st' = Some m' \<and> core m' = core m \<and> (mo_Phase m' = ''Ready'' \<longleftrightarrow> checkGovernanceAttached S c E m \<and> ready) \<and>
    mo_Endpoint m' = (if mo_Phase m' = ''Ready'' then (if mo_EndpointOverride m \<noteq> [] then mo_EndpointOverride m else endpoint) else [])"
proof -
  let ?e = "if mo_EndpointOverride m \<noteq> [] then mo_EndpointOverride m else endpoint"
  let ?m1 = "m\<lparr>mo_Endpoint := ?e\<rparr>"
  define m2 where "m2 = (case ResolveModelAlias h R ?m1 of Inl e \<Rightarrow> ?m1 | Inr a \<Rightarrow> if a \<noteq> [] then ?m1\<lparr>mo_ResolvedModelAlias := a\<rparr> else ?m1)"
  have m2: "core m2 = core m" "mo_Endpoint m2 = ?e" by (simp_all add: m2_def split: sum.splits)
  define g where "g = checkGovernanceAttached S c E m2"
  have g: "g = checkGovernanceAttached S c E m" using coreD(1) [OF m2(1)] by (simp add: g_def checkGovernanceAttached_def)
  define m3 where "m3 = checkModelIdentityConflict E (let m = setGovernanceCondition E g m2 in
    if ready then markRuntimeReady E m else markRuntimeNotReady E (fst nr) (snd nr) m)"
  have m3: "core m3 = core m" "mo_Endpoint m3 = ?e" by (simp_all add: m3_def m2 Let_def)
  obtain phase msg where ph: "deriveModelPhase g ready = (phase, msg)" by fastforce
  define m4 where "m4 = (if phase \<noteq> ''Ready'' then m3\<lparr>mo_Endpoint := []\<rparr> else m3)"
  have m4: "core m4 = core m" "mo_Endpoint m4 = (if phase = ''Ready'' then ?e else [])" by (simp_all add: m4_def m3)
  have "finish_model S c R E h endpoint ready nr m snap st =
    (case updateModelStatus E m4 phase msg snap st of (Some e, st) \<Rightarrow> (MrFailed e, st) | (None, st) \<Rightarrow> (requeueWhileBackendNotReady ready, st))"
    unfolding finish_model_def m4_def m3_def g_def m2_def Let_def using ph [unfolded g_def m2_def] by simp
  with assms(1,2) have "updateStatusWithReason E m4 phase msg [] snap st = (None, st')"
    by (auto simp: updateModelStatus_def split: prod.splits option.splits)
  from updateStatus_result [OF this assms(3)] same_spec_core [OF m4(1)] assms(4)
  obtain m' where "vs_model st' = Some m'" "core m' = core m4" "mo_Phase m' = phase" "mo_Endpoint m' = mo_Endpoint m4" by auto
  with m4 g ph deriveModelPhase_Ready [of g ready] show ?thesis by auto
qed

lemma written_ok: "written r = (out, st') \<Longrightarrow> (\<And>e. out \<noteq> MrFailed e) \<Longrightarrow> r = (None, st')"
  by (auto simp: written_def split: prod.splits option.splits)

lemma route_failed_result:
  assumes "route_failed E err m snap st = (out, st')" and "\<And>e. out \<noteq> MrFailed e" and "err \<noteq> ErrKindNotImplemented"
    and "vs_model st = Some snap" and "same_spec snap m"
  shows "\<exists>m'. vs_model st' = Some m' \<and> mo_Phase m' = ''Pending'' \<and> mo_Endpoint m' = []"
proof -
  from assms(1-3) have "\<exists>msg. updateStatusWithReason E (m\<lparr>mo_Endpoint := []\<rparr>) ''Pending'' msg [] snap st = (None, st')"
    by (cases err) (auto simp: route_failed_def updateModelStatus_def dest: written_ok)
  then obtain msg where "updateStatusWithReason E (m\<lparr>mo_Endpoint := []\<rparr>) ''Pending'' msg [] snap st = (None, st')" ..
  from updateStatus_result [OF this assms(4)] assms(5) show ?thesis by auto
qed

lemma reconcile_backend_result:
  assumes "reconcile_backend L S c R E h m st = (out, st')" and "\<And>e. out \<noteq> MrFailed e"
    and "vs_model st = Some m" and "GetBackendHandler (mm_Kind m) = Some h"
  shows "\<exists>m'. vs_model st' = Some m' \<and> (mo_Phase m' = ''Ready'' \<longleftrightarrow> mo_Endpoint m' \<noteq> []) \<and>
    (mo_Phase m' = ''Ready'' \<longrightarrow> governed_by S c E m' \<and> served R m' \<and>
       (mo_EndpointOverride m' \<noteq> [] \<longrightarrow> mo_Endpoint m' = mo_EndpointOverride m'))"
proof -
  let ?dg = "\<lparr>gw_Name = st_GatewayName S, gw_Namespace = st_GatewayNamespace S\<rparr>"
  obtain e m1 nr where r: "ReconcileRoute h L R m = (e, m1, nr)" by (metis prod_cases3)
  note spec = reconcile_route_spec [OF r]
  show ?thesis
  proof (cases e)
    case (Some err)
    with assms(1) r have "route_failed E err m1 m st = (out, st')" by (simp add: reconcile_backend_def)
    from route_failed_result [OF this assms(2)] spec Some assms(3) show ?thesis by auto
  next
    case None
    show ?thesis
    proof (cases "Status h R ?dg m1")
      case (Inl err)
      with None assms(1) r have "status_failed E err m1 m st = (out, st')" by (simp add: reconcile_backend_def)
      with assms(2) Inl status_error [of h R ?dg m1] show ?thesis by (auto simp: status_failed_def Let_def split: if_splits)
    next
      case (Inr s)
      obtain endpoint ready where s: "s = (endpoint, ready)" by fastforce
      from None Inr s assms(1) r have "finish_model S c R E h endpoint ready nr m1 m st = (out, st')"
        by (simp add: reconcile_backend_def)
      from finish_model_result [OF this assms(2,3)] spec obtain m' where
        m': "vs_model st' = Some m'" "core m' = core m1" "mo_Phase m' = ''Ready'' \<longleftrightarrow> checkGovernanceAttached S c E m1 \<and> ready"
        "mo_Endpoint m' = (if mo_Phase m' = ''Ready'' then (if mo_EndpointOverride m1 \<noteq> [] then mo_EndpointOverride m1 else endpoint) else [])"
        by blast
      have ready: "ready \<Longrightarrow> served R m1 \<and> endpoint \<noteq> []"
        using ready_served [OF assms(4), of L R m1 nr ?dg endpoint] r None Inr s by simp
      have "governed_by S c E m' \<and> served R m'" if "mo_Phase m' = ''Ready''"
        using that m'(3) ready checkGovernanceAttached_sound [of S c E m1] governed_core [OF m'(2)] served_core [OF m'(2)] by blast
      with m' ready coreD(8) [OF m'(2)] show ?thesis by auto
    qed
  qed
qed

text \<open>
  C14. Phase Ready is truthful. When a reconciliation of a model of a known kind returns without
  an error, the stored model has an endpoint exactly when its phase is Ready; and then it is
  referenced by a subscription and by an auth policy that are not being deleted and live in
  tenant namespaces, its gateway is that of its own tenant, its route is attached to that
  gateway (and accepted by it, for an external model), an LLMInferenceService behind it reports
  Ready, and an endpoint override is the endpoint.
\<close>

theorem ready_means_governed_and_served:
  assumes "ReconcileModel L S c R E st = (out, st')" and "\<And>e. out \<noteq> MrFailed e" and "ve_get E = None"
    and "vs_model st = Some m0" and "\<not> om_Deleting (mm_meta m0)" and "GetBackendHandler (mm_Kind m0) \<noteq> None"
  shows "\<exists>m. vs_model st' = Some m \<and> (mo_Phase m = ''Ready'' \<longleftrightarrow> mo_Endpoint m \<noteq> []) \<and>
    (mo_Phase m = ''Ready'' \<longrightarrow> governed_by S c E m \<and> served R m \<and>
       (mo_EndpointOverride m \<noteq> [] \<longrightarrow> mo_Endpoint m = mo_EndpointOverride m))"
proof -
  from assms(6) obtain h where h: "GetBackendHandler (mm_Kind m0) = Some h" by blast
  then have "\<not> model_spec_empty m0" by (auto simp: model_spec_empty_def GetBackendHandler_def)
  with assms(1-5) obtain m st1 where f: "add_finalizer E m0 st = (Inr m, st1)"
    and rec: "(case GetBackendHandler (mm_Kind m) of
        None \<Rightarrow> written (updateModelStatus E m ''Failed'' (''unknown kind: '' @ mm_Kind m) m st1)
      | Some h \<Rightarrow> reconcile_backend L S c R E h m st1) = (out, st')"
    by (auto simp: ReconcileModel_def split: prod.splits sum.splits)
  from f assms(4,5) have m: "vs_model st1 = Some m" "mm_Kind m = mm_Kind m0"
    by (auto simp: add_finalizer_def put_model_def Let_def split: if_splits option.splits)
  with rec h have "reconcile_backend L S c R E h m st1 = (out, st')" by simp
  from reconcile_backend_result [OF this assms(2) m(1)] h m(2) show ?thesis by simp
qed

section \<open>Every sibling whose verdict may change is looked at again\<close>

text \<open>\<open>other\<close> is in conflict with \<open>model\<close>.\<close>

definition clashes :: "modelRefObject \<Rightarrow> modelRefObject \<Rightarrow> bool" where
  "clashes model other \<longleftrightarrow> mo_ResolvedModelAlias model \<noteq> [] \<and> om_Name (mm_meta other) \<noteq> om_Name (mm_meta model) \<and>
     mo_ResolvedModelAlias other = mo_ResolvedModelAlias model \<and> mo_ResolvedTenantRef other = mo_ResolvedTenantRef model"

lemma findModelAliasConflicts_clashes:
  assumes "ve_siblings E (om_Namespace (mm_meta model)) = Inr siblings"
  shows "findModelAliasConflicts E model = Inr (sort (map (\<lambda>s. om_Name (mm_meta s)) (filter (clashes model) siblings)))"
  using assms by (auto simp: findModelAliasConflicts_def clashes_def intro!: arg_cong [where f = sort] arg_cong [where f = "map _"] filter_cong)

text \<open>The contribution of the changed model before and after an event, \<open>None\<close> when it does not exist.\<close>

fun event_before :: "siblingEvent \<Rightarrow> modelRefObject option" where
  "event_before (SiblingCreated m) = None"
| "event_before (SiblingUpdated oldM newM) = Some oldM"
| "event_before (SiblingDeleted m) = Some m"

fun event_after :: "siblingEvent \<Rightarrow> modelRefObject option" where
  "event_after (SiblingCreated m) = Some m"
| "event_after (SiblingUpdated oldM newM) = Some newM"
| "event_after (SiblingDeleted m) = None"

definition siblings_of :: "modelRefObject list \<Rightarrow> modelRefObject option \<Rightarrow> modelRefObject list" where
  "siblings_of others changed = (case changed of None \<Rightarrow> others | Some m \<Rightarrow> m # others)"

definition event_model :: "siblingEvent \<Rightarrow> modelRefObject" where
  "event_model ev = (case ev of SiblingCreated m \<Rightarrow> m | SiblingUpdated oldM newM \<Rightarrow> newM | SiblingDeleted m \<Rightarrow> m)"

lemma enqueued_iff:
  assumes "ve_siblings E (om_Namespace (mm_meta m)) = Inr siblings" and "s \<in> set siblings" and "om_Name (mm_meta s) \<noteq> om_Name (mm_meta m)"
    and "mo_ResolvedModelAlias s \<noteq> []" and "mo_ResolvedModelAlias s = mo_ResolvedModelAlias m \<or> mo_ResolvedModelAlias s = oldAlias"
  shows "model_key s \<in> set (enqueueSiblingsWithAlias E m oldAlias)"
  using assms by (auto simp: enqueueSiblingsWithAlias_def Let_def)

text \<open>
  The sibling watch misses nothing. Whenever a model of a namespace is created, updated or
  deleted and the conflicts found for another model of the namespace are not the same before
  and after, that other model is enqueued, although only models that share an alias are.
\<close>

theorem sibling_watch_complete:
  assumes "s \<in> set others" and "om_Namespace (mm_meta s) = ns" and "om_Namespace (mm_meta (event_model ev)) = ns"
    and "om_Name (mm_meta s) \<noteq> om_Name (mm_meta (event_model ev))"
    and "\<And>oldM newM. ev = SiblingUpdated oldM newM \<Longrightarrow> mm_meta oldM = mm_meta newM"
    and "ve_siblings E0 ns = Inr (siblings_of others (event_before ev))" and "ve_siblings E1 ns = Inr (siblings_of others (event_after ev))"
    and "findModelAliasConflicts E0 s \<noteq> findModelAliasConflicts E1 s"
  shows "model_key s \<in> set (sibling_requests E1 ev)"
proof -
  have differ: "filter (clashes s) (siblings_of others (event_before ev)) \<noteq> filter (clashes s) (siblings_of others (event_after ev)) \<and>
     \<not> (\<exists>a b. event_before ev = Some a \<and> event_after ev = Some b \<and> clashes s a \<and> clashes s b \<and> mm_meta a = mm_meta b)"
    using assms(2,6,7,8) by (auto simp: findModelAliasConflicts_clashes siblings_of_def)
  have in1: "s \<in> set (siblings_of others (event_after ev))" using assms(1) by (simp add: siblings_of_def split: option.splits)
  have "mo_ResolvedModelAlias s \<noteq> []" using differ by (auto simp: clashes_def siblings_of_def split: option.splits)
  note enq = enqueued_iff [OF _ in1 _ this]
  show ?thesis
  proof (cases ev)
    case (SiblingCreated m)
    with differ have "clashes s m" by (auto simp: siblings_of_def split: if_splits)
    with SiblingCreated assms(3,4,7) show ?thesis by (auto simp: clashes_def event_model_def intro!: enq)
  next
    case (SiblingDeleted m)
    with differ have "clashes s m" by (auto simp: siblings_of_def split: if_splits)
    with SiblingDeleted assms(3,4,7) show ?thesis by (auto simp: clashes_def event_model_def intro!: enq)
  next
    case (SiblingUpdated a b)
    with assms(5) have "mm_meta a = mm_meta b" by blast
    with SiblingUpdated differ have "clashes s a \<noteq> clashes s b" by (auto simp: siblings_of_def split: if_splits)
    with SiblingUpdated \<open>mm_meta a = mm_meta b\<close> assms(3,4,7) show ?thesis
      by (auto simp: clashes_def event_model_def siblingConflictFieldsChanged_def intro!: enq)
  qed
qed

section \<open>Concrete models\<close>

definition ex_model :: "string \<Rightarrow> string \<Rightarrow> modelRefObject" where
  "ex_model n tenantRef = \<lparr>mm_meta = ex_meta ''models'' n, mm_Kind = ''LLMInferenceService'', mm_RefName = ''svc'',
     mm_GatewayName = [], mm_GatewayNamespace = [], mo_TenantRef = tenantRef, mo_EndpointOverride = [], mo_HasGuardrails = False,
     mo_Phase = [], mo_Endpoint = [], mo_HTTPRouteName = [], mo_HTTPRouteNamespace = [], mo_HTTPRouteHostnames = [],
     mo_ResolvedTenantRef = [], mo_ResolvedModelAlias = [], mo_Conditions = []\<rparr>"

definition ex_gateway :: gatewayRef where
  "ex_gateway = \<lparr>gw_Name = ''gw'', gw_Namespace = ''infra''\<rparr>"

definition ex_fullRoute :: fullRoute where
  "ex_fullRoute = \<lparr>hr_Name = ''r'', hr_Namespace = ''models'', hr_UID = [],
     hr_ParentRefs = [\<lparr>pref_Name = ''gw'', pref_Namespace = Some ''infra'', pref_Kind = None, pref_Group = None\<rparr>],
     hr_Hostnames = [''host''], hr_Parents = []\<rparr>"

definition ex_service :: fullService where
  "ex_service = \<lparr>lm_Name = ''svc'', lm_Namespace = ''models'', lm_GroupMembers = None, lm_Pool = None,
     lm_Conditions = [\<lparr>cd_Type = ''Ready'', cd_Status = ''True'', cd_Reason = [], cd_Message = [], cd_ObservedGeneration = 1\<rparr>],
     lm_Addresses = [], lm_URL = None, lm_ModelName = None\<rparr>"

definition ex_reads :: modelReads where
  "ex_reads = \<lparr>rd_RouterRoutes = (\<lambda>ns n. Inr [ex_fullRoute]), rd_Route = (\<lambda>ns n. Inl ApiNotFound), rd_Service = (\<lambda>ns n. Inr ex_service),
     rd_External = (\<lambda>ns n. Inl ApiNotFound), rd_LegacyExternal = (\<lambda>ns n. None), rd_Gateway = (\<lambda>g. Inl ApiNotFound),
     rd_Tenant = (\<lambda>n. Inr ex_gateway), rd_Tenants = Inr [(''red'', ex_gateway), (''blue'', no_gateway)], rd_ParseURL = (\<lambda>s. None), rd_ValidUTF8 = (\<lambda>s. True)\<rparr>"

definition ex_mrEnv :: "modelRefObject list \<Rightarrow> mrEnv" where
  "ex_mrEnv siblings = \<lparr>ve_get = None, ve_finalizer = None, ve_status = None, ve_listPolicies = (\<lambda>k. None), ve_deletePolicy = (\<lambda>k n. None),
     ve_authPolicies = Inr [\<lparr>ap_meta = ex_meta ''t'' ''p'', ap_ModelRefs = [(''models'', ''m'')]\<rparr>], ve_siblings = (\<lambda>ns. Inr siblings),
     ve_setCondition = (\<lambda>cond cs. cond # filter (\<lambda>x. cd_Type x \<noteq> cd_Type cond) cs), ve_findCondition = (\<lambda>ty cs. find (\<lambda>x. cd_Type x = ty) cs)\<rparr>"

definition ex_mrState :: mrState where
  "ex_mrState = \<lparr>vs_model = Some (ex_model ''m'' ''red''), vs_policies = (\<lambda>k. [])\<rparr>"

definition ex_mrSettings :: settings where
  "ex_mrSettings = \<lparr>st_DefaultTenantNamespace = [], st_Discovery = False, st_GatewayName = [], st_GatewayNamespace = [], st_AppNamespace = []\<rparr>"

definition ex_mrCluster :: cluster where
  "ex_mrCluster = ex_cluster\<lparr>cl_Subscriptions := (\<lambda>k. Inr [ex_maasSub ''t'' ''s''])\<rparr>"

lemmas ex_model_defs = ex_model_def ex_gateway_def ex_fullRoute_def ex_service_def ex_reads_def ex_mrEnv_def ex_mrSettings_def
  ex_mrCluster_def ex_meta_def ex_maasSub_def no_gateway_def

lemma ex_route_reconciled:
  "ReconcileRoute LlmisvcHandler L ex_reads m =
     (None, set_route ''r'' ''models'' ex_gateway [''host''] (m\<lparr>mo_ResolvedTenantRef := ''red''\<rparr>), [], [])"
  if "mo_TenantRef m = ''red''" "om_Namespace (mm_meta m) = ''models''"
  using that by (simp add: validateLLMISvcHTTPRoute_def resolveGatewayRef_def ex_reads_def ex_gateway_def ex_fullRoute_def parentRefTargetsGateway_def Let_def)

lemma ex_status_ready:
  "Status LlmisvcHandler ex_reads dg (set_route ''r'' ''models'' ex_gateway [''host''] m) = Inr (''https://host/'' @ om_Name (mm_meta m), True)"
  by (simp add: llmisvc_Status_def service_ready_def llmInferenceService.truncate_def ex_reads_def ex_service_def getEndpointFromLLMISvc_def
      selectAddress_def List.map_filter_def llmisvc_GetModelEndpoint_def set_route_def Let_def)

lemma ex_governed: "om_Namespace (mm_meta m) = ''models'' \<Longrightarrow> om_Name (mm_meta m) = ''m'' \<Longrightarrow>
    checkGovernanceAttached ex_mrSettings ex_mrCluster (ex_mrEnv []) m"
  by (simp add: checkGovernanceAttached_def findAnySubscriptionForModel_def findAllSubscriptionsForModel_def findAnyAuthPolicyForModel_def
      findAllAuthPoliciesForModel_def filterAuthPoliciesByTenantNamespace_def isTenantNamespace_def tenantNamespaceAllowed_def ex_model_defs Let_def)

theorem ready_means_governed_and_served_witness:
  "\<exists>m. vs_model (snd (ReconcileModel example_libs ex_mrSettings ex_mrCluster ex_reads (ex_mrEnv []) ex_mrState)) = Some m \<and> mo_Phase m = ''Ready'' \<and>
     mo_Endpoint m \<noteq> [] \<and> governed_by ex_mrSettings ex_mrCluster (ex_mrEnv []) m \<and> served ex_reads m"
proof -
  let ?E = "ex_mrEnv []" and ?S = ex_mrSettings and ?c = ex_mrCluster and ?R = ex_reads
  define m0 where "m0 = (ex_model ''m'' ''red'')\<lparr>mm_meta := (ex_meta ''models'' ''m'')\<lparr>om_Finalizers := [maasModelFinalizer]\<rparr>\<rparr>"
  define m1 where "m1 = set_route ''r'' ''models'' ex_gateway [''host''] (m0\<lparr>mo_ResolvedTenantRef := ''red''\<rparr>)"
  define st1 where "st1 = ex_mrState\<lparr>vs_model := Some m0\<rparr>"
  have names: "om_Namespace (mm_meta m1) = ''models''" "om_Name (mm_meta m1) = ''m''" "mo_TenantRef m0 = ''red''"
    "om_Namespace (mm_meta m0) = ''models''" "mm_Kind m0 = ''LLMInferenceService''"
    by (simp_all add: m1_def m0_def set_route_def ex_model_def ex_meta_def)
  have "ReconcileModel example_libs ?S ?c ?R ?E ex_mrState = reconcile_backend example_libs ?S ?c ?R ?E LlmisvcHandler m0 st1"
    by (simp add: ReconcileModel_def ex_mrState_def st1_def m0_def add_finalizer_def put_model_def model_spec_empty_def GetBackendHandler_def
        ex_model_def ex_meta_def ex_mrEnv_def Let_def)
  also have "\<dots> = finish_model ?S ?c ?R ?E LlmisvcHandler (''https://host/'' @ om_Name (mm_meta (m0\<lparr>mo_ResolvedTenantRef := ''red''\<rparr>))) True ([], []) m1 m0 st1"
    unfolding reconcile_backend_def ex_route_reconciled [OF names(3,4)] m1_def by (simp only: ex_status_ready prod.case option.case sum.case)
  finally have run: "ReconcileModel example_libs ?S ?c ?R ?E ex_mrState = \<dots>" .
  have ok: "fst (ReconcileModel example_libs ?S ?c ?R ?E ex_mrState) \<noteq> MrFailed e" for e
    unfolding run finish_model_def updateModelStatus_def updateStatusWithReason_def requeueWhileBackendNotReady_def Let_def
    by (simp add: ex_mrEnv_def split: prod.splits)
  obtain out st' where o: "ReconcileModel example_libs ?S ?c ?R ?E ex_mrState = (out, st')" by fastforce
  from ready_means_governed_and_served [OF o, of "ex_model ''m'' ''red''"] ok o obtain m where m: "vs_model st' = Some m"
    "mo_Phase m = ''Ready'' \<longleftrightarrow> mo_Endpoint m \<noteq> []" "mo_Phase m = ''Ready'' \<longrightarrow> governed_by ?S ?c ?E m \<and> served ?R m"
    by (auto simp: ex_mrState_def ex_mrEnv_def ex_model_def ex_meta_def GetBackendHandler_def)
  have "vs_model st1 = Some m0" "same_spec m0 m1" by (simp_all add: st1_def m1_def) (simp add: same_spec_def)
  from finish_model_result [OF run [unfolded o, symmetric] _ this] ok o ex_governed [OF names(1,2)] m(1)
  have "mo_Phase m = ''Ready''" by auto
  with m o show ?thesis by auto
qed

theorem tenant_resolution_exact_witness:
  "fst (resolveGatewayRefFromHTTPRoute ex_reads (ex_model ''m'' []) ex_fullRoute) = Inr ex_gateway \<and>
   mo_ResolvedTenantRef (snd (resolveGatewayRefFromHTTPRoute ex_reads (ex_model ''m'' []) ex_fullRoute)) = ''red''"
proof -
  let ?ts = "[(''red'', ex_gateway), (''blue'', no_gateway)]"
  have t: "rd_Tenants ex_reads = Inr ?ts" "distinct (map fst ?ts)" by (simp_all add: ex_reads_def)
  have "route_tenants ?ts ex_fullRoute = {(''red'', ex_gateway)}"
    by (auto simp: route_tenants_def parent_gateways_def usable_ref_def ex_gateway_def no_gateway_def ex_fullRoute_def
        routeParentGateway_def parentRefTargetsGateway_def httpRoute.truncate_def)
  with tenant_resolution_exact [OF t, of "ex_model ''m'' []" ex_fullRoute] show ?thesis by simp
qed

definition ex_aliased :: "string \<Rightarrow> string \<Rightarrow> modelRefObject" where
  "ex_aliased n tenant = (ex_model n [])\<lparr>mo_ResolvedModelAlias := ''a'', mo_ResolvedTenantRef := tenant\<rparr>"

theorem sibling_watch_complete_witness:
  "(''models'', ''s'') \<in> set (sibling_requests (ex_mrEnv [ex_aliased ''m'' ''blue'', ex_aliased ''s'' ''red''])
     (SiblingUpdated (ex_aliased ''m'' ''red'') (ex_aliased ''m'' ''blue'')))"
proof -
  let ?ev = "SiblingUpdated (ex_aliased ''m'' ''red'') (ex_aliased ''m'' ''blue'')" and ?s = "ex_aliased ''s'' ''red''"
  let ?E0 = "ex_mrEnv [ex_aliased ''m'' ''red'', ?s]" and ?E1 = "ex_mrEnv [ex_aliased ''m'' ''blue'', ?s]"
  note defs = ex_aliased_def ex_model_def ex_meta_def
  have "findModelAliasConflicts ?E0 ?s \<noteq> findModelAliasConflicts ?E1 ?s"
    by (simp add: findModelAliasConflicts_def ex_mrEnv_def defs)
  moreover have "ve_siblings ?E0 ''models'' = Inr (siblings_of [?s] (event_before ?ev))" "ve_siblings ?E1 ''models'' = Inr (siblings_of [?s] (event_after ?ev))"
    by (simp_all add: ex_mrEnv_def siblings_of_def)
  moreover have "om_Namespace (mm_meta ?s) = ''models''" "om_Namespace (mm_meta (event_model ?ev)) = ''models''"
    "om_Name (mm_meta ?s) \<noteq> om_Name (mm_meta (event_model ?ev))" by (simp_all add: defs event_model_def)
  ultimately have "model_key ?s \<in> set (sibling_requests ?E1 ?ev)"
    by (intro sibling_watch_complete [where others = "[?s]" and ns = "''models''" and ?E0.0 = ?E0]) (auto simp: defs)
  then show ?thesis by (simp add: model_key_def defs)
qed

section \<open>Deletion\<close>

lemma delete_policies_result:
  assumes "delete_policies E kind ps store = (None, store')"
  shows "set store' = {q \<in> set store. \<not> (\<exists>p\<in>set ps. isManaged p \<and> meta_key p = meta_key q)}"
  using assms
proof (induction E kind ps store rule: delete_policies.induct)
  case (2 E kind p ps store)
  then show ?case by (auto split: if_splits option.splits apiError.splits)
qed auto

text \<open>The finalizer goes only after every managed generated policy of the model is gone; those opted out stay.\<close>

lemma model_deletion_cleans:
  assumes "handleModelDeletion E m st = (MrDone, st')" and "maasModelFinalizer \<in> set (om_Finalizers (mm_meta m))"
    and "\<And>k. ve_listPolicies E k = None" and "kind \<in> {''AuthPolicy'', ''TokenRateLimitPolicy''}"
    and "p \<in> set (vs_policies st kind)" and "generated_for (om_Namespace (mm_meta m)) (om_Name (mm_meta m)) p"
    and "\<And>k q r. q \<in> set (vs_policies st k) \<Longrightarrow> r \<in> set (vs_policies st k) \<Longrightarrow> meta_key q = meta_key r \<Longrightarrow> q = r"
  shows "p \<in> set (vs_policies st' kind) \<longleftrightarrow> \<not> isManaged p"
proof -
  let ?g = "generated_for (om_Namespace (mm_meta m)) (om_Name (mm_meta m))"
  from assms(1-3) obtain as ts where
    a: "delete_policies E ''AuthPolicy'' (filter ?g (vs_policies st ''AuthPolicy'')) (vs_policies st ''AuthPolicy'') = (None, as)" and
    t: "delete_policies E ''TokenRateLimitPolicy'' (filter ?g (vs_policies st ''TokenRateLimitPolicy'')) (vs_policies st ''TokenRateLimitPolicy'') = (None, ts)" and
    "vs_policies st' ''AuthPolicy'' = as" "vs_policies st' ''TokenRateLimitPolicy'' = ts"
    by (auto simp: handleModelDeletion_def deleteGeneratedPoliciesByLabel_def put_model_def Let_def split: prod.splits option.splits)
  with assms(4) have "set (vs_policies st' kind) = {q \<in> set (vs_policies st kind). \<not> (\<exists>p\<in>set (filter ?g (vs_policies st kind)). isManaged p \<and> meta_key p = meta_key q)}"
    using delete_policies_result [OF a] delete_policies_result [OF t] by auto
  with assms(5-7) show ?thesis by auto
qed

section \<open>Where the status says more than the code knows\<close>

text \<open>A subscription counts as governance whatever its phase is.\<close>

lemma failed_subscription_governs:
  "checkGovernanceAttached ex_mrSettings (ex_mrCluster\<lparr>cl_Subscriptions := (\<lambda>k. Inr [(ex_maasSub ''t'' ''s'')\<lparr>ms_Phase := ''Failed''\<rparr>])\<rparr>) (ex_mrEnv []) (ex_model ''m'' ''red'')"
  by (simp add: checkGovernanceAttached_def findAnySubscriptionForModel_def findAllSubscriptionsForModel_def findAnyAuthPolicyForModel_def
      findAllAuthPoliciesForModel_def filterAuthPoliciesByTenantNamespace_def isTenantNamespace_def tenantNamespaceAllowed_def ex_model_defs Let_def)

text \<open>After a route that fails for good, the model is Failed with the endpoint it had before.\<close>

lemma failed_route_keeps_endpoint:
  assumes "ve_status E = None" and "mo_Phase snap \<noteq> ''Failed''"
  shows "\<exists>m'. vs_model (snd (route_failed E (BackendOther e) m snap st)) = Some m' \<and> mo_Phase m' = ''Failed'' \<and> mo_Endpoint m' = mo_Endpoint m"
proof -
  have "model_status_of snap \<noteq> model_status_of (set_cond E ''Ready'' s r msg (m\<lparr>mo_Phase := ''Failed''\<rparr>))" for s r msg
    using assms(2) by (simp add: model_status_of_def)
  with assms(1) show ?thesis by (simp add: route_failed_def updateModelStatus_def updateStatusWithReason_def Let_def)
qed

end
