(* ===== verification/GatewayCel.thy ===== *)
theory GatewayCel
  imports GoJson
begin

text \<open>
  The CEL expressions that the MaaSAuthPolicy controller writes into the gateway AuthPolicy
  (\<open>maas-controller/pkg/controller/maas/maasauthpolicy_controller.go\<close>, the \<open>cel...\<close> constants,
  \<open>apiKeyCELPredicates\<close> and \<open>subscriptionGatewayCacheKeySelector\<close>). The controller builds
  them as text and Authorino evaluates them on every c_request. An expression is a syntax tree
  here: \<open>text_of\<close> is the text that the source contains, character by character, and \<open>eval\<close> the
  value by the rules of the CEL language, \<open>None\<close> for an evaluation error. Regular expression
  matching is an argument. Strings of CEL are lists of code points.
\<close>

section \<open>Values and expressions\<close>

type_synonym codepoints = "nat list"

datatype cval =
    CNull
  | CBool bool
  | CNum int
  | CStr codepoints
  | CList "cval list"
  | CMap "(codepoints \<times> cval) list"

definition cp :: "string \<Rightarrow> codepoints" where
  "cp = map of_char"

datatype quotes = Double | Single

datatype cel =
    Var string
  | Lit quotes string
  | Num nat
  | EmptyList
  | Par cel
  | Sel cel string
  | Has cel string
  | Idx cel cel
  | In cel cel
  | Cond cel cel cel
  | CondWide cel cel cel
  | And cel cel
  | Or cel cel
  | Not cel
  | Eq cel cel
  | Neq cel cel
  | Leq cel cel
  | Geq cel cel
  | Gt cel cel
  | Add cel cel
  | Size cel
  | StringOf cel
  | IsString cel
  | Matches cel quotes string
  | StartsWith cel string
  | Replace cel string string
  | Split cel string
  | JoinBy cel quotes string
  | MapOver cel string cel
  | AllOf cel string cel
  | FilterBy cel string cel

fun quoted :: "quotes \<Rightarrow> string \<Rightarrow> string" where
  "quoted Double s = [CHR 0x22] @ s @ [CHR 0x22]"
| "quoted Single s = [CHR 0x27] @ s @ [CHR 0x27]"

fun text_of :: "cel \<Rightarrow> string" where
  "text_of (Var x) = x"
| "text_of (Lit q s) = quoted q s"
| "text_of (Num n) = Itoa n"
| "text_of EmptyList = ''[]''"
| "text_of (Par e) = ''('' @ text_of e @ '')''"
| "text_of (Sel e f) = text_of e @ ''.'' @ f"
| "text_of (Has e f) = ''has('' @ text_of e @ ''.'' @ f @ '')''"
| "text_of (Idx e k) = text_of e @ ''['' @ text_of k @ '']''"
| "text_of (In k e) = text_of k @ '' in '' @ text_of e"
| "text_of (Cond c a b) = text_of c @ '' ? '' @ text_of a @ '' : '' @ text_of b"
| "text_of (CondWide c a b) = text_of c @ ''   ? '' @ text_of a @ ''   : '' @ text_of b"
| "text_of (And a b) = text_of a @ '' && '' @ text_of b"
| "text_of (Or a b) = text_of a @ '' || '' @ text_of b"
| "text_of (Not a) = ''!'' @ text_of a"
| "text_of (Eq a b) = text_of a @ '' == '' @ text_of b"
| "text_of (Neq a b) = text_of a @ '' != '' @ text_of b"
| "text_of (Leq a b) = text_of a @ '' <= '' @ text_of b"
| "text_of (Geq a b) = text_of a @ '' >= '' @ text_of b"
| "text_of (Gt a b) = text_of a @ '' > '' @ text_of b"
| "text_of (Add a b) = text_of a @ '' + '' @ text_of b"
| "text_of (Size e) = ''size('' @ text_of e @ '')''"
| "text_of (StringOf e) = ''string('' @ text_of e @ '')''"
| "text_of (IsString e) = ''type('' @ text_of e @ '') == string''"
| "text_of (Matches e q p) = text_of e @ ''.matches('' @ quoted q p @ '')''"
| "text_of (StartsWith e p) = text_of e @ ''.startsWith('' @ quoted Double p @ '')''"
| "text_of (Replace e s t) = text_of e @ ''.replace('' @ quoted Double s @ '', '' @ quoted Double t @ '')''"
| "text_of (Split e s) = text_of e @ ''.split('' @ quoted Double s @ '')''"
| "text_of (JoinBy e q s) = text_of e @ ''.join('' @ quoted q s @ '')''"
| "text_of (MapOver e x b) = text_of e @ ''.map('' @ x @ '', '' @ text_of b @ '')''"
| "text_of (AllOf e x b) = text_of e @ ''.all('' @ x @ '', '' @ text_of b @ '')''"
| "text_of (FilterBy e x b) = text_of e @ ''.filter('' @ x @ '', '' @ text_of b @ '')''"

section \<open>Evaluation\<close>

text \<open>
  \<open>&&\<close> and \<open>||\<close> absorb an error of one side when the other side decides the result; a
  comprehension over a list is the conjunction or the list of its instances; selecting a
  missing key, indexing out of range and operands of another type are errors.
\<close>

definition cel_and :: "cval option \<Rightarrow> cval option \<Rightarrow> cval option" where
  "cel_and a b =
     (if a = Some (CBool False) \<or> b = Some (CBool False) then Some (CBool False)
      else if a = Some (CBool True) \<and> b = Some (CBool True) then Some (CBool True)
      else None)"

definition cel_or :: "cval option \<Rightarrow> cval option \<Rightarrow> cval option" where
  "cel_or a b =
     (if a = Some (CBool True) \<or> b = Some (CBool True) then Some (CBool True)
      else if a = Some (CBool False) \<and> b = Some (CBool False) then Some (CBool False)
      else None)"

fun cel_not :: "cval \<Rightarrow> cval option" where
  "cel_not (CBool b) = Some (CBool (\<not> b))"
| "cel_not _ = None"

fun cel_size :: "cval \<Rightarrow> cval option" where
  "cel_size (CStr s) = Some (CNum (int (length s)))"
| "cel_size (CList xs) = Some (CNum (int (length xs)))"
| "cel_size (CMap m) = Some (CNum (int (length m)))"
| "cel_size _ = None"

fun cel_string :: "cval \<Rightarrow> cval option" where
  "cel_string (CStr s) = Some (CStr s)"
| "cel_string (CNum n) = Some (CStr (cp (format_int n)))"
| "cel_string _ = None"

fun cel_add :: "cval \<Rightarrow> cval \<Rightarrow> cval option" where
  "cel_add (CStr s) (CStr t) = Some (CStr (s @ t))"
| "cel_add (CList xs) (CList ys) = Some (CList (xs @ ys))"
| "cel_add (CNum m) (CNum n) = Some (CNum (m + n))"
| "cel_add _ _ = None"

fun cel_has :: "cval \<Rightarrow> codepoints \<Rightarrow> cval option" where
  "cel_has (CMap m) f = Some (CBool (f \<in> fst ` set m))"
| "cel_has _ _ = None"

fun cel_sel :: "cval \<Rightarrow> codepoints \<Rightarrow> cval option" where
  "cel_sel (CMap m) f = map_of m f"
| "cel_sel _ _ = None"

fun cel_idx :: "cval \<Rightarrow> cval \<Rightarrow> cval option" where
  "cel_idx (CMap m) (CStr k) = map_of m k"
| "cel_idx (CList xs) (CNum i) = (if 0 \<le> i \<and> i < int (length xs) then Some (xs ! nat i) else None)"
| "cel_idx _ _ = None"

fun cel_in :: "cval \<Rightarrow> cval \<Rightarrow> cval option" where
  "cel_in v (CList xs) = Some (CBool (v \<in> set xs))"
| "cel_in (CStr k) (CMap m) = Some (CBool (k \<in> fst ` set m))"
| "cel_in _ _ = None"

fun cel_cmp :: "(int \<Rightarrow> int \<Rightarrow> bool) \<Rightarrow> cval \<Rightarrow> cval \<Rightarrow> cval option" where
  "cel_cmp r (CNum m) (CNum n) = Some (CBool (r m n))"
| "cel_cmp _ _ _ = None"

fun on_string :: "(codepoints \<Rightarrow> cval option) \<Rightarrow> cval \<Rightarrow> cval option" where
  "on_string f (CStr s) = f s"
| "on_string _ _ = None"

fun is_string :: "cval \<Rightarrow> bool" where
  "is_string (CStr _) = True"
| "is_string _ = False"

fun join_strings :: "codepoints \<Rightarrow> cval list \<Rightarrow> codepoints option" where
  "join_strings sep [] = Some []"
| "join_strings sep [v] = (case v of CStr s \<Rightarrow> Some s | _ \<Rightarrow> None)"
| "join_strings sep (v # w # vs) =
     (case v of CStr s \<Rightarrow> map_option (\<lambda>r. s @ sep @ r) (join_strings sep (w # vs)) | _ \<Rightarrow> None)"

text \<open>\<open>split\<close> and \<open>replace\<close> with a separator that is not empty, scanning from the left.\<close>

fun split_on :: "codepoints \<Rightarrow> nat \<Rightarrow> codepoints \<Rightarrow> codepoints \<Rightarrow> codepoints list" where
  "split_on sep 0 cur s = [cur @ s]"
| "split_on sep (Suc n) cur s =
     (if sep \<noteq> [] \<and> take (length sep) s = sep then cur # split_on sep n [] (drop (length sep) s)
      else case s of [] \<Rightarrow> [cur] | c # r \<Rightarrow> split_on sep n (cur @ [c]) r)"

fun replace_all :: "codepoints \<Rightarrow> codepoints \<Rightarrow> nat \<Rightarrow> codepoints \<Rightarrow> codepoints" where
  "replace_all old new 0 s = s"
| "replace_all old new (Suc n) s =
     (if old \<noteq> [] \<and> take (length old) s = old then new @ replace_all old new n (drop (length old) s)
      else case s of [] \<Rightarrow> [] | c # r \<Rightarrow> c # replace_all old new n r)"

fun elements :: "cval \<Rightarrow> cval list option" where
  "elements (CList xs) = Some xs"
| "elements (CMap m) = Some (map (CStr \<circ> fst) m)"
| "elements _ = None"

fun keep :: "(cval \<times> cval option) list \<Rightarrow> cval list option" where
  "keep [] = Some []"
| "keep ((v, b) # r) =
     (case b of Some (CBool t) \<Rightarrow> map_option (\<lambda>vs. if t then v # vs else vs) (keep r) | _ \<Rightarrow> None)"

type_synonym activation = "string \<Rightarrow> cval option"
type_synonym regex = "string \<Rightarrow> codepoints \<Rightarrow> bool"

primrec eval :: "regex \<Rightarrow> cel \<Rightarrow> activation \<Rightarrow> cval option" where
  "eval rx (Var x) s = s x"
| "eval rx (Lit q t) s = Some (CStr (cp t))"
| "eval rx (Num n) s = Some (CNum (int n))"
| "eval rx EmptyList s = Some (CList [])"
| "eval rx (Par e) s = eval rx e s"
| "eval rx (Sel e f) s = Option.bind (eval rx e s) (\<lambda>v. cel_sel v (cp f))"
| "eval rx (Has e f) s = Option.bind (eval rx e s) (\<lambda>v. cel_has v (cp f))"
| "eval rx (Idx e k) s = Option.bind (eval rx e s) (\<lambda>v. Option.bind (eval rx k s) (cel_idx v))"
| "eval rx (In k e) s = Option.bind (eval rx k s) (\<lambda>v. Option.bind (eval rx e s) (cel_in v))"
| "eval rx (Cond c a b) s =
     (case eval rx c s of Some (CBool t) \<Rightarrow> if t then eval rx a s else eval rx b s | _ \<Rightarrow> None)"
| "eval rx (CondWide c a b) s =
     (case eval rx c s of Some (CBool t) \<Rightarrow> if t then eval rx a s else eval rx b s | _ \<Rightarrow> None)"
| "eval rx (And a b) s = cel_and (eval rx a s) (eval rx b s)"
| "eval rx (Or a b) s = cel_or (eval rx a s) (eval rx b s)"
| "eval rx (Not a) s = Option.bind (eval rx a s) cel_not"
| "eval rx (Eq a b) s = Option.bind (eval rx a s) (\<lambda>v. map_option (\<lambda>w. CBool (v = w)) (eval rx b s))"
| "eval rx (Neq a b) s = Option.bind (eval rx a s) (\<lambda>v. map_option (\<lambda>w. CBool (v \<noteq> w)) (eval rx b s))"
| "eval rx (Leq a b) s = Option.bind (eval rx a s) (\<lambda>v. Option.bind (eval rx b s) (cel_cmp (\<le>) v))"
| "eval rx (Geq a b) s = Option.bind (eval rx a s) (\<lambda>v. Option.bind (eval rx b s) (cel_cmp (\<ge>) v))"
| "eval rx (Gt a b) s = Option.bind (eval rx a s) (\<lambda>v. Option.bind (eval rx b s) (cel_cmp (>) v))"
| "eval rx (Add a b) s = Option.bind (eval rx a s) (\<lambda>v. Option.bind (eval rx b s) (cel_add v))"
| "eval rx (Size e) s = Option.bind (eval rx e s) cel_size"
| "eval rx (StringOf e) s = Option.bind (eval rx e s) cel_string"
| "eval rx (IsString e) s = map_option (\<lambda>v. CBool (is_string v)) (eval rx e s)"
| "eval rx (Matches e q p) s = Option.bind (eval rx e s) (on_string (\<lambda>t. Some (CBool (rx p t))))"
| "eval rx (StartsWith e p) s =
     Option.bind (eval rx e s) (on_string (\<lambda>t. Some (CBool (take (length p) t = cp p))))"
| "eval rx (Replace e old new) s =
     Option.bind (eval rx e s) (on_string (\<lambda>t. Some (CStr (replace_all (cp old) (cp new) (length t) t))))"
| "eval rx (Split e sep) s =
     Option.bind (eval rx e s) (on_string (\<lambda>t. Some (CList (map CStr (split_on (cp sep) (length t) [] t)))))"
| "eval rx (JoinBy e q sep) s =
     Option.bind (eval rx e s) (\<lambda>v. case v of CList vs \<Rightarrow> map_option CStr (join_strings (cp sep) vs) | _ \<Rightarrow> None)"
| "eval rx (MapOver e x b) s =
     Option.bind (Option.bind (eval rx e s) elements)
       (\<lambda>vs. map_option CList (those (map (\<lambda>v. eval rx b (s(x \<mapsto> v))) vs)))"
| "eval rx (AllOf e x b) s =
     Option.bind (Option.bind (eval rx e s) elements)
       (\<lambda>vs. foldr (\<lambda>v. cel_and (eval rx b (s(x \<mapsto> v)))) vs (Some (CBool True)))"
| "eval rx (FilterBy e x b) s =
     Option.bind (Option.bind (eval rx e s) elements)
       (\<lambda>vs. map_option CList (keep (map (\<lambda>v. (v, eval rx b (s(x \<mapsto> v)))) vs)))"

section \<open>The expressions of the controller\<close>

definition c_auth :: cel where "c_auth = Var ''auth''"
definition c_metadata :: cel where "c_metadata = Sel c_auth ''metadata''"
definition c_akv :: cel where "c_akv = Sel c_metadata ''apiKeyValidation''"
definition c_identity :: cel where "c_identity = Sel c_auth ''identity''"
definition c_request :: cel where "c_request = Var ''request''"
definition c_headers :: cel where "c_headers = Sel c_request ''headers''"
definition c_info :: cel where "c_info = Idx c_metadata (Lit Double ''subscription-info'')"

lemmas cel_roots = c_auth_def c_metadata_def c_akv_def c_identity_def c_request_def c_headers_def c_info_def

definition celAPIKeyPresent :: cel where
  "celAPIKeyPresent = Par (And (Has c_auth ''metadata'') (Has c_metadata ''apiKeyValidation''))"

definition celTokenUser :: cel where
  "celTokenUser =
     Cond (Has c_identity ''preferred_username'') (Sel c_identity ''preferred_username'')
       (Par (Cond (Has c_identity ''sub'') (Sel c_identity ''sub'') (Sel (Sel c_identity ''user'') ''username'')))"

definition celUserID :: cel where
  "celUserID = Cond celAPIKeyPresent (Sel c_akv ''userId'') (Par celTokenUser)"

definition celUsername :: cel where
  "celUsername = Cond celAPIKeyPresent (Sel c_akv ''username'') (Par celTokenUser)"

definition safeGroupNamePattern :: string where
  "safeGroupNamePattern = ''^[A-Za-z0-9:#._/ -]+$''"

definition celCanonicalOrganizationID :: string where
  "celCanonicalOrganizationID = ''^[0-9a-f]{8}-[0-9a-f]{4}-[0-9a-f]{4}-[0-9a-f]{4}-[0-9a-f]{12}''"

definition celCanonicalOrganizationIDPattern :: string where
  "celCanonicalOrganizationIDPattern = celCanonicalOrganizationID @ ''$''"

definition celOrganizationQualifiedGroup :: string where
  "celOrganizationQualifiedGroup = celCanonicalOrganizationID @ ''/''"

definition c_groups :: cel where "c_groups = Sel c_identity ''groups''"
definition c_user_groups :: cel where "c_user_groups = Sel (Sel c_identity ''user'') ''groups''"
definition c_org_id :: cel where "c_org_id = Idx c_identity (Lit Double ''org_id'')"

definition g_safe :: cel where
  "g_safe = And (IsString (Var ''g'')) (Matches (Var ''g'') Single safeGroupNamePattern)"

definition g_unqualified :: cel where
  "g_unqualified = Not (Matches (Var ''g'') Single celOrganizationQualifiedGroup)"

definition celOIDCGroupsSafe :: cel where
  "celOIDCGroupsSafe = AllOf c_groups ''g'' g_safe"

definition celOIDCOrganizationIDSafe :: cel where
  "celOIDCOrganizationIDSafe = And (IsString c_org_id) (Matches c_org_id Single celCanonicalOrganizationIDPattern)"

definition celOIDCLegacyGroupsSafe :: cel where
  "celOIDCLegacyGroupsSafe = And celOIDCGroupsSafe (AllOf c_groups ''g'' g_unqualified)"

definition celTokenReviewGroupsSafe :: cel where
  "celTokenReviewGroupsSafe = AllOf c_user_groups ''g'' (And g_safe g_unqualified)"

definition celOIDCFlatGroupsSafe :: cel where
  "celOIDCFlatGroupsSafe =
     And (Leq (Size c_groups) (Num 128)) (AllOf c_groups ''g'' (And g_safe g_unqualified))"

definition celOIDCTransportGroups :: cel where
  "celOIDCTransportGroups =
     Par (Cond (In (Lit Double ''org_id'') c_identity)
       (Par (Cond (And celOIDCOrganizationIDSafe (Par (Or (Not (Has c_identity ''groups'')) celOIDCFlatGroupsSafe)))
         (Par (Cond (Has c_identity ''groups'')
            (MapOver c_groups ''g'' (Add (Add c_org_id (Lit Double ''/'')) (Var ''g''))) EmptyList))
         EmptyList))
       (Par (Cond (And (Has c_identity ''groups'') celOIDCLegacyGroupsSafe) c_groups EmptyList)))"

definition celTokenReviewGroups :: cel where
  "celTokenReviewGroups =
     Par (Cond (And (Has (Sel c_identity ''user'') ''groups'') celTokenReviewGroupsSafe) c_user_groups EmptyList)"

definition celNonAPIKeyGroups :: cel where
  "celNonAPIKeyGroups = Par (Cond (Has c_identity ''iss'') celOIDCTransportGroups celTokenReviewGroups)"

definition celGroups :: cel where
  "celGroups = Cond celAPIKeyPresent (Sel c_akv ''groups'') celNonAPIKeyGroups"

text \<open>The two JSON array texts: the brackets, the separator and an empty list.\<close>

definition array_open :: string where "array_open = ''['' @ [CHR 0x22]"
definition array_sep :: string where "array_sep = [CHR 0x22] @ '','' @ [CHR 0x22]"
definition array_close :: string where "array_close = [CHR 0x22] @ '']''"

definition celAPIKeyGroupsHeaderJSON :: cel where
  "celAPIKeyGroupsHeaderJSON =
     Par (Cond (Has c_akv ''groupsJSON'') (Sel c_akv ''groupsJSON'')
       (Par (Cond (Has c_akv ''groups'')
         (Par (Cond (Gt (Size (Sel c_akv ''groups'')) (Num 0))
            (Add (Add (Lit Single array_open) (JoinBy (Sel c_akv ''groups'') Single array_sep)) (Lit Single array_close))
            (Lit Single ''[]'')))
         (Lit Single ''[]''))))"

definition celIdentityOrganizationID :: cel where
  "celIdentityOrganizationID =
     Cond celAPIKeyPresent (Lit Double [])
       (Par (Cond (And (In (Lit Double ''org_id'') c_identity) celOIDCOrganizationIDSafe) c_org_id (Lit Double [])))"

definition celTokenGroupsHeaderJSON :: cel where
  "celTokenGroupsHeaderJSON =
     Cond (Gt (Size celNonAPIKeyGroups) (Num 0))
       (Add (Add (Lit Single (array_open @ ''system:authenticated'' @ array_sep))
               (JoinBy celNonAPIKeyGroups Single array_sep))
          (Lit Single array_close))
       (Lit Single (array_open @ ''system:authenticated'' @ array_close))"

definition header_or_empty :: "string \<Rightarrow> cel" where
  "header_or_empty h = Par (Cond (In (Lit Double h) c_headers) (Idx c_headers (Lit Double h)) (Lit Double []))"

definition celSubscription :: cel where
  "celSubscription = Cond celAPIKeyPresent (Sel c_akv ''subscription'') (header_or_empty ''x-maas-subscription'')"

definition celPathParts :: cel where
  "celPathParts = FilterBy (Split (Sel c_request ''path'') ''/'') ''x'' (Neq (Var ''x'') (Lit Double []))"

definition celPathModelIdentityAvailable :: cel where
  "celPathModelIdentityAvailable =
     And (And (Geq (Size celPathParts) (Num 2)) (Neq (Idx celPathParts (Num 0)) (Lit Double ''v1'')))
       (Neq (Idx celPathParts (Num 0)) (Lit Double ''maas-api''))"

definition celModelIdentityAvailable :: cel where
  "celModelIdentityAvailable =
     Par (Or celPathModelIdentityAvailable (In (Lit Double ''x-gateway-model-name'') c_headers))"

definition celModelIdentity :: cel where
  "celModelIdentity =
     Par (Cond celPathModelIdentityAvailable
       (Add (Add (Idx celPathParts (Num 0)) (Lit Double ''/'')) (Idx celPathParts (Num 1)))
       (Par (CondWide (In (Lit Double ''x-gateway-model-name'') c_headers)
          (Idx c_headers (Lit Double ''x-gateway-model-name'')) (Lit Double []))))"

definition celResolvedModelIdentity :: cel where
  "celResolvedModelIdentity =
     Par (Cond (And (Has c_info ''resolvedModel'')
                  (Neq (Sel c_info ''resolvedModel'') (Lit Double [])))
       (Sel c_info ''resolvedModel'') celModelIdentity)"

definition authorizationAPIKey :: cel where
  "authorizationAPIKey =
     Par (And (In (Lit Double ''authorization'') c_headers)
       (Matches (Idx c_headers (Lit Double ''authorization'')) Double ''^Bearer sk-oai-.*''))"

definition xAPIKey :: cel where
  "xAPIKey =
     Par (And (In (Lit Double ''x-api-key'') c_headers)
       (Matches (Idx c_headers (Lit Double ''x-api-key'')) Double ''^sk-oai-.*''))"

text \<open>Whether the request carries an API key, that it does not, and the key itself.\<close>

definition apiKeyCELPredicates :: "bool \<Rightarrow> cel \<times> cel \<times> cel" where
  "apiKeyCELPredicates xAPIKeyEnabled =
     (if \<not> xAPIKeyEnabled then
        (Matches (Sel c_headers ''authorization'') Double ''^Bearer sk-oai-.*'',
         Not (StartsWith (Sel c_headers ''authorization'') ''Bearer sk-oai-''),
         Replace (Sel c_headers ''authorization'') ''Bearer '' [])
      else
        (let isAPIKey = Or authorizationAPIKey xAPIKey in
        (isAPIKey, Not (Par isAPIKey),
         Par (Cond authorizationAPIKey (Replace (Idx c_headers (Lit Double ''authorization'')) ''Bearer '' [])
           (Cond xAPIKey (Idx c_headers (Lit Double ''x-api-key'')) (Lit Double []))))))"

section \<open>The cache key\<close>

definition celIdentitySource :: cel where
  "celIdentitySource =
     Par (Cond celAPIKeyPresent (Lit Double ''api-key'')
       (Par (Cond (Has c_identity ''iss'') (Lit Double ''oidc'') (Lit Double ''token-review''))))"

definition celAPIKeyID :: cel where
  "celAPIKeyID =
     Par (Cond (And celAPIKeyPresent (In (Lit Double ''keyId'') c_akv)) (Sel c_akv ''keyId'') (Lit Double []))"

definition celTokenClaim :: "string \<Rightarrow> cel" where
  "celTokenClaim c =
     Par (Cond (And (Not celAPIKeyPresent) (Has c_identity c)) (Sel c_identity c) (Lit Double []))"

definition celGroupsKey :: cel where
  "celGroupsKey =
     Add (Add (StringOf (Size (Par celGroups))) (Lit Double '':''))
       (JoinBy (MapOver (Par celGroups) ''g''
          (Add (Add (StringOf (Size (Var ''g''))) (Lit Double '':'')) (Var ''g''))) Double [])"

definition cache_values :: "cel list" where
  "cache_values =
     [celIdentitySource, celUserID, celAPIKeyID, celUsername, celTokenClaim ''iss'', celTokenClaim ''sub'',
      celIdentityOrganizationID, celGroupsKey, celSubscription, header_or_empty ''x-maas-subscription'',
      Par celModelIdentity]"

definition framed :: "cel \<Rightarrow> cel list" where
  "framed v = [StringOf (Size v), Lit Double '':'', Par v]"

definition sum_of :: "cel list \<Rightarrow> cel" where
  "sum_of es = foldl Add (hd es) (tl es)"

definition subscriptionGatewayCacheKeySelector :: cel where
  "subscriptionGatewayCacheKeySelector = sum_of (concat (map framed cache_values))"

section \<open>Length-prefixed concatenation\<close>

fun as_cstr :: "cval \<Rightarrow> codepoints option" where
  "as_cstr (CStr t) = Some t"
| "as_cstr _ = None"

definition str_of :: "regex \<Rightarrow> activation \<Rightarrow> cel \<Rightarrow> codepoints option" where
  "str_of rx s e = Option.bind (eval rx e s) as_cstr"

definition frame :: "codepoints \<Rightarrow> codepoints" where
  "frame t = cp (Itoa (length t)) @ cp '':'' @ t"

lemma as_cstr_Some [simp]: "as_cstr v = Some t \<longleftrightarrow> v = CStr t"
  by (cases v) auto

lemma str_of_Some: "str_of rx s e = Some t \<longleftrightarrow> eval rx e s = Some (CStr t)"
  by (auto simp: str_of_def Option.bind_eq_Some_conv)

lemma cp_inject [simp]: "cp a = cp b \<longleftrightarrow> a = b"
  by (simp add: cp_def inj_map_eq_map inj_of_char)

lemma cp_append [simp]: "cp (a @ b) = cp a @ cp b" by (simp add: cp_def)

lemma cp_Nil [simp]: "cp [] = []" by (simp add: cp_def)

lemma cp_eq_Nil [simp]: "cp a = [] \<longleftrightarrow> a = []" by (simp add: cp_def)

lemma format_int_of_nat [simp]: "format_int (int n) = Itoa n"
  by (simp add: format_int_def)

lemma colon_not_digit: "58 \<notin> set (cp (Itoa n))"
  using Itoa_digits [of n] by (auto simp: cp_def digit_def)

lemma takeWhile_before: "c \<notin> set a \<Longrightarrow> takeWhile (\<lambda>x. x \<noteq> c) (a @ c # b) = a"
  by (induction a) auto

lemma split_at_mark:
  assumes "a @ c # b = a' @ c # b'" and "c \<notin> set a" and "c \<notin> set a'"
  shows "a = a' \<and> b = b'"
proof -
  have "takeWhile (\<lambda>x. x \<noteq> c) (a @ c # b) = takeWhile (\<lambda>x. x \<noteq> c) (a' @ c # b')"
    by (simp only: assms(1))
  then have "a = a'" unfolding takeWhile_before [OF assms(2)] takeWhile_before [OF assms(3)] .
  with assms(1) show ?thesis by simp
qed

lemma prefixed_inject:
  assumes "cp (Itoa m) @ cp '':'' @ r = cp (Itoa n) @ cp '':'' @ r'"
  shows "m = n \<and> r = r'"
proof -
  have "cp '':'' = [58]" by (simp add: cp_def)
  with assms have "cp (Itoa m) @ 58 # r = cp (Itoa n) @ 58 # r'" by simp
  from split_at_mark [OF this colon_not_digit colon_not_digit] show ?thesis by (simp add: Itoa_inject)
qed

lemma frame_inject:
  assumes "frame t @ r = frame t' @ r'"
  shows "t = t' \<and> r = r'"
proof -
  from assms have "length t = length t' \<and> t @ r = t' @ r'"
    unfolding frame_def by (intro prefixed_inject) simp
  then show ?thesis by (metis append_eq_append_conv)
qed

lemma frames_inject:
  assumes "length ts = length ts'" and "concat (map frame ts) = concat (map frame ts')"
  shows "ts = ts'"
  using assms by (induction ts ts' rule: list_induct2) (auto dest: frame_inject)

section \<open>The value of a sum of strings\<close>

lemma those_append:
  "those (xs @ ys) = Option.bind (those xs) (\<lambda>as. map_option ((@) as) (those ys))"
proof (induction xs)
  case Nil
  then show ?case by (cases "those ys") simp_all
next
  case (Cons x xs)
  then show ?case by (cases x; cases "those xs"; cases "those ys") auto
qed

lemma those_eq_Some: "those xs = Some ys \<longleftrightarrow> xs = map Some ys"
proof (induction xs arbitrary: ys)
  case Nil
  then show ?case by auto
next
  case (Cons x xs)
  then show ?case by (cases x; cases ys) (auto simp: map_option_eq_Some)
qed

lemma cel_add_CStr: "cel_add (CStr a) v = map_option (\<lambda>t. CStr (a @ t)) (as_cstr v)"
  by (cases v) auto

lemma eval_add_error: "eval rx e s = None \<Longrightarrow> eval rx (foldl Add e es) s = None"
  by (induction es arbitrary: e) auto

lemma eval_sum:
  assumes "eval rx e s = Some (CStr a)"
  shows "eval rx (foldl Add e es) s
    = map_option (\<lambda>ts. CStr (a @ concat ts)) (those (map (str_of rx s) es))"
  using assms
proof (induction es arbitrary: e a)
  case Nil
  then show ?case by simp
next
  case (Cons x es)
  have step: "eval rx (Add e x) s = map_option (\<lambda>t. CStr (a @ t)) (str_of rx s x)"
    using Cons.prems by (auto simp: str_of_def cel_add_CStr split: bind_splits)
  show ?case
  proof (cases "str_of rx s x")
    case None
    with step show ?thesis by (simp add: eval_add_error)
  next
    case (Some t)
    with step have "eval rx (Add e x) s = Some (CStr (a @ t))" by simp
    from Cons.IH [OF this] Some show ?thesis
      by (simp add: option.map_comp comp_def)
  qed
qed

lemma sum_of_strings:
  assumes "\<And>x. eval rx e s = Some x \<Longrightarrow> is_string x"
  shows "eval rx (sum_of (e # es)) s = map_option (CStr \<circ> concat) (those (map (str_of rx s) (e # es)))"
proof (cases "eval rx e s")
  case None
  then show ?thesis by (simp add: sum_of_def eval_add_error str_of_def)
next
  case (Some v)
  with assms obtain a where "v = CStr a" by (cases v) auto
  with Some eval_sum [of rx e s a es] show ?thesis
    by (simp add: sum_of_def str_of_def option.map_comp comp_def)
qed

lemma string_of_string: "eval rx (StringOf e) s = Some x \<Longrightarrow> is_string x"
  by (auto simp: Option.bind_eq_Some_conv elim!: cel_string.elims)

definition frame_parts :: "codepoints \<Rightarrow> codepoints list" where
  "frame_parts t = [cp (Itoa (length t)), cp '':'', t]"

lemma concat_frame_parts: "concat (concat (map frame_parts ts)) = concat (map frame ts)"
  by (induction ts) (simp_all add: frame_parts_def frame_def)

lemma framed_value: "those (map (str_of rx s) (framed v)) = map_option frame_parts (str_of rx s v)"
proof (cases "eval rx v s")
  case None
  then show ?thesis by (simp add: framed_def str_of_def)
next
  case (Some w)
  then show ?thesis by (cases w) (simp_all add: framed_def str_of_def frame_parts_def)
qed

lemma framed_values:
  "those (map (str_of rx s) (concat (map framed vs)))
     = map_option (\<lambda>ts. concat (map frame_parts ts)) (those (map (str_of rx s) vs))"
proof (induction vs)
  case Nil
  then show ?case by simp
next
  case (Cons v vs)
  then show ?case
    by (cases "str_of rx s v"; cases "those (map (str_of rx s) vs)")
      (simp_all add: those_append framed_value)
qed

lemma framed_sum:
  "eval rx (sum_of (concat (map framed (v # vs)))) s
     = map_option (\<lambda>ts. CStr (concat (map frame ts))) (those (map (str_of rx s) (v # vs)))"
proof -
  have "eval rx (sum_of (concat (map framed (v # vs)))) s
      = map_option (CStr \<circ> concat) (those (map (str_of rx s) (concat (map framed (v # vs)))))"
    unfolding framed_def by (simp del: eval.simps add: sum_of_strings string_of_string)
  also have "\<dots> = map_option (\<lambda>ts. CStr (concat (map frame ts))) (those (map (str_of rx s) (v # vs)))"
    unfolding framed_values by (simp only: option.map_comp comp_def concat_frame_parts)
  finally show ?thesis .
qed

lemma framed_sum_inject:
  assumes "eval rx (sum_of (concat (map framed (v # vs)))) s = Some k"
    and "eval rx (sum_of (concat (map framed (v # vs)))) s' = Some k"
  shows "map (str_of rx s) (v # vs) = map (str_of rx s') (v # vs)"
    and "list_all (\<lambda>e. str_of rx s e \<noteq> None) (v # vs)"
proof -
  from assms(1) obtain ts where ts: "map (str_of rx s) (v # vs) = map Some ts"
    and k: "CStr (concat (map frame ts)) = k"
    unfolding framed_sum map_option_eq_Some those_eq_Some by blast
  from assms(2) obtain ts' where ts': "map (str_of rx s') (v # vs) = map Some ts'"
    and k': "CStr (concat (map frame ts')) = k"
    unfolding framed_sum map_option_eq_Some those_eq_Some by blast
  have "concat (map frame ts) = concat (map frame ts')" using k' [folded k] by (simp only: cval.inject)
  moreover have "length ts = length ts'"
    using ts ts' by (metis length_map)
  ultimately show "map (str_of rx s) (v # vs) = map (str_of rx s') (v # vs)"
    using frames_inject [of ts ts'] ts ts' by metis
  have "None \<notin> set (map (str_of rx s) (v # vs))" unfolding ts by auto
  then show "list_all (\<lambda>e. str_of rx s e \<noteq> None) (v # vs)"
    unfolding list_all_iff set_map by (metis imageI)
qed

section \<open>The groups of a key\<close>

lemma join_empty: "join_strings [] vs = map_option concat (those (map as_cstr vs))"
proof (induction "[] :: codepoints" vs rule: join_strings.induct)
  case 1
  then show ?case by simp
next
  case (2 v)
  then show ?case by (cases v) auto
next
  case (3 v w vs)
  then show ?case by (cases v) (auto simp: option.map_comp comp_def split: option.splits)
qed

definition group_frame :: cel where
  "group_frame = Add (Add (StringOf (Size (Var ''g''))) (Lit Double '':'')) (Var ''g'')"

lemma eval_group_frame:
  "eval rx group_frame (s(''g'' \<mapsto> v)) = map_option (CStr \<circ> frame) (as_cstr v)"
  by (cases v) (simp_all add: group_frame_def frame_def)

lemma group_frames:
  "those (map (\<lambda>v. eval rx group_frame (s(''g'' \<mapsto> v))) vs)
     = map_option (map (CStr \<circ> frame)) (those (map as_cstr vs))"
proof (induction vs)
  case Nil
  then show ?case by simp
next
  case (Cons v vs)
  then show ?case unfolding list.map eval_group_frame
    by (cases "as_cstr v"; cases "those (map as_cstr vs)") simp_all
qed

lemma those_frames: "those (map as_cstr (map (CStr \<circ> frame) gs)) = Some (map frame gs)"
  by (simp add: those_eq_Some comp_def)

lemmas those_frames' = those_frames [unfolded map_map]

text \<open>The groups text is the number of groups and the length-prefixed groups.\<close>

lemma groups_key_value:
  assumes "str_of rx s celGroupsKey = Some t"
  obtains gs where "Option.bind (eval rx celGroups s) elements = Some (map CStr gs)"
    and "t = cp (Itoa (length gs)) @ cp '':'' @ concat (map frame gs)"
proof -
  let ?J = "JoinBy (MapOver (Par celGroups) ''g'' group_frame) Double []"
  have "eval rx (Add (Add (StringOf (Size (Par celGroups))) (Lit Double '':'')) ?J) s = Some (CStr t)"
    using assms by (simp add: str_of_Some celGroupsKey_def group_frame_def)
  then obtain v w where v: "eval rx celGroups s = Some v" and w: "eval rx ?J s = Some w"
    and sum: "Option.bind (Option.bind (cel_size v) cel_string) (\<lambda>x. Option.bind (cel_add x (CStr (cp '':''))) (\<lambda>y. cel_add y w)) = Some (CStr t)"
    by (auto simp: Option.bind_eq_Some_conv simp del: eval.simps(27,28))
  from w v obtain vs gs where vs: "elements v = Some vs" and "those (map as_cstr vs) = Some gs"
    and w: "w = CStr (concat (map frame gs))"
    by (auto simp: group_frames Option.bind_eq_Some_conv join_empty those_frames')
  then have "vs = map CStr gs"
    by (auto simp: those_eq_Some intro!: nth_equalityI dest: map_eq_imp_length_eq)
      (metis as_cstr_Some length_map nth_map)
  moreover have "cel_size v = Some (CNum (int (length vs)))"
    using vs by (cases v) auto
  ultimately show ?thesis using that [of gs] v vs w sum by simp
qed

lemma groups_key_inject:
  assumes "str_of rx s celGroupsKey = Some t" and "str_of rx s' celGroupsKey = Some t"
  shows "Option.bind (eval rx celGroups s) elements = Option.bind (eval rx celGroups s') elements"
proof -
  from assms(1) obtain gs where gs: "Option.bind (eval rx celGroups s) elements = Some (map CStr gs)"
    and t: "t = cp (Itoa (length gs)) @ cp '':'' @ concat (map frame gs)" by (rule groups_key_value)
  from assms(2) obtain gs' where gs': "Option.bind (eval rx celGroups s') elements = Some (map CStr gs')"
    and t': "t = cp (Itoa (length gs')) @ cp '':'' @ concat (map frame gs')" by (rule groups_key_value)
  from prefixed_inject [OF t [symmetric, unfolded t']]
  have "gs = gs'" by (intro frames_inject) auto
  with gs gs' show ?thesis by simp
qed

text \<open>
  C7. The cache key of the gateway's subscription selection is free of collisions. Two
  requests whose keys evaluate to the same text have the same identity source, user, API key,
  username, issuer, subject, organization, selected and requested subscription and model, and
  the same groups in the same order, whatever the values contain; so a cached selection or
  authorization decision is only reused for a request with the same inputs.
\<close>

theorem cache_key_collision_free:
  assumes "eval rx subscriptionGatewayCacheKeySelector s = Some k"
    and "eval rx subscriptionGatewayCacheKeySelector s' = Some k"
  shows "map (\<lambda>e. eval rx e s)
       [celIdentitySource, celUserID, celAPIKeyID, celUsername, celTokenClaim ''iss'', celTokenClaim ''sub'',
        celIdentityOrganizationID, celSubscription, header_or_empty ''x-maas-subscription'', celModelIdentity]
     = map (\<lambda>e. eval rx e s')
       [celIdentitySource, celUserID, celAPIKeyID, celUsername, celTokenClaim ''iss'', celTokenClaim ''sub'',
        celIdentityOrganizationID, celSubscription, header_or_empty ''x-maas-subscription'', celModelIdentity]
    \<and> Option.bind (eval rx celGroups s) elements = Option.bind (eval rx celGroups s') elements"
proof -
  note keys = assms [unfolded subscriptionGatewayCacheKeySelector_def cache_values_def]
  have same: "str_of rx s e = str_of rx s' e \<and> str_of rx s e \<noteq> None" if "e \<in> set cache_values" for e
    using framed_sum_inject [OF keys] that unfolding cache_values_def list_all_iff map_eq_conv by metis
  then have "eval rx e s = eval rx e s'" if "e \<in> set cache_values" for e
    using that by (metis not_None_eq str_of_Some)
  then have "eval rx celIdentitySource s = eval rx celIdentitySource s'"
    and "eval rx celUserID s = eval rx celUserID s'" and "eval rx celAPIKeyID s = eval rx celAPIKeyID s'"
    and "eval rx celUsername s = eval rx celUsername s'"
    and "eval rx (celTokenClaim ''iss'') s = eval rx (celTokenClaim ''iss'') s'"
    and "eval rx (celTokenClaim ''sub'') s = eval rx (celTokenClaim ''sub'') s'"
    and "eval rx celIdentityOrganizationID s = eval rx celIdentityOrganizationID s'"
    and "eval rx celSubscription s = eval rx celSubscription s'"
    and "eval rx (header_or_empty ''x-maas-subscription'') s = eval rx (header_or_empty ''x-maas-subscription'') s'"
    and "eval rx (Par celModelIdentity) s = eval rx (Par celModelIdentity) s'"
    unfolding cache_values_def by (simp_all del: eval.simps)
  moreover have "Option.bind (eval rx celGroups s) elements = Option.bind (eval rx celGroups s') elements"
    using same [of celGroupsKey] by (auto simp: cache_values_def intro: groups_key_inject)
  ultimately show ?thesis by simp
qed

section \<open>The groups of a token identity\<close>

lemma cel_and_True: "cel_and a b = Some (CBool True) \<longleftrightarrow> a = Some (CBool True) \<and> b = Some (CBool True)"
  by (auto simp: cel_and_def)

lemma cel_or_cases:
  "cel_or a b = Some (CBool True) \<Longrightarrow> a \<noteq> Some (CBool True) \<Longrightarrow> b = Some (CBool True)"
  by (auto simp: cel_or_def split: if_splits)

lemma all_of_True:
  "foldr (\<lambda>v. cel_and (f v)) vs (Some (CBool True)) = Some (CBool True) \<longleftrightarrow>
     (\<forall>v\<in>set vs. f v = Some (CBool True))"
  by (induction vs) (auto simp: cel_and_True)

lemma eval_cond_cases:
  assumes "eval rx (Par (Cond c a b)) s = Some v"
  obtains "eval rx c s = Some (CBool True)" and "eval rx a s = Some v"
  | "eval rx c s = Some (CBool False)" and "eval rx b s = Some v"
  using assms by (auto split: option.splits cval.splits if_splits)

lemma g_safe_True:
  "eval rx g_safe (s(''g'' \<mapsto> v)) = Some (CBool True) \<longleftrightarrow> (\<exists>t. v = CStr t \<and> rx safeGroupNamePattern t)"
  by (cases v) (auto simp: g_safe_def cel_and_True)

lemma g_unqualified_True:
  "eval rx g_unqualified (s(''g'' \<mapsto> v)) = Some (CBool True) \<longleftrightarrow>
     (\<exists>t. v = CStr t \<and> \<not> rx celOrganizationQualifiedGroup t)"
  by (cases v) (auto simp: g_unqualified_def)

text \<open>A group text that the gateway accepts from a token, and that names no organization.\<close>

definition plain_group :: "regex \<Rightarrow> cval \<Rightarrow> bool" where
  "plain_group rx v =
     (case v of CStr t \<Rightarrow> rx safeGroupNamePattern t \<and> \<not> rx celOrganizationQualifiedGroup t | _ \<Rightarrow> False)"

lemma plain_group_iff:
  "plain_group rx v \<longleftrightarrow>
     eval rx g_safe (s(''g'' \<mapsto> v)) = Some (CBool True) \<and> eval rx g_unqualified (s(''g'' \<mapsto> v)) = Some (CBool True)"
  unfolding g_safe_True g_unqualified_True by (cases v) (auto simp: plain_group_def)

lemma plain_groups_of_all:
  assumes "eval rx (AllOf e ''g'' (And g_safe g_unqualified)) s = Some (CBool True)"
    and "eval rx e s = Some v" and "elements v = Some vs" and "u \<in> set vs"
  shows "plain_group rx u"
  using assms by (simp add: all_of_True cel_and_True plain_group_iff [of rx u s])

lemma token_review_groups_plain:
  assumes "eval rx celTokenReviewGroups s = Some (CList gs)" and "u \<in> set gs"
  shows "plain_group rx u"
  using assms(1) unfolding celTokenReviewGroups_def
proof (cases rule: eval_cond_cases)
  case 1
  from 1(1) have "eval rx celTokenReviewGroupsSafe s = Some (CBool True)" by (simp add: cel_and_True)
  from plain_groups_of_all [OF this [unfolded celTokenReviewGroupsSafe_def] 1(2) _ assms(2)]
  show ?thesis by simp
next
  case 2
  with assms(2) show ?thesis by simp
qed

lemma legacy_groups_plain:
  assumes "eval rx celOIDCLegacyGroupsSafe s = Some (CBool True)"
    and "eval rx c_groups s = Some (CList gs)" and "u \<in> set gs"
  shows "plain_group rx u"
  using assms unfolding celOIDCLegacyGroupsSafe_def celOIDCGroupsSafe_def
  by (simp add: all_of_True cel_and_True plain_group_iff [of rx u s])

text \<open>A group that carries the organization of the identity in front of a plain group.\<close>

definition organization_group :: "regex \<Rightarrow> codepoints \<Rightarrow> cval \<Rightarrow> bool" where
  "organization_group rx org v =
     (\<exists>t. v = CStr (org @ cp ''/'' @ t) \<and> plain_group rx (CStr t))"

lemma flat_groups_qualified:
  assumes org: "eval rx celOIDCOrganizationIDSafe s = Some (CBool True)"
    and safe: "eval rx celOIDCFlatGroupsSafe s = Some (CBool True)"
    and "eval rx (MapOver c_groups ''g'' (Add (Add c_org_id (Lit Double ''/'')) (Var ''g''))) s = Some (CList gs)"
    and "u \<in> set gs"
  shows "\<exists>t. eval rx c_org_id s = Some (CStr t) \<and> rx celCanonicalOrganizationIDPattern t \<and> organization_group rx t u"
proof -
  from org obtain t where t: "eval rx c_org_id s = Some (CStr t)" "rx celCanonicalOrganizationIDPattern t"
    by (auto simp: celOIDCOrganizationIDSafe_def cel_and_True elim!: is_string.elims)
  have g: "eval rx c_org_id (s(''g'' \<mapsto> v)) = Some (CStr t)" for v
    using t(1) by (simp add: c_org_id_def cel_roots)
  from assms(3) obtain w vs where w: "eval rx c_groups s = Some w" "elements w = Some vs"
    and gs: "those (map (\<lambda>v. cel_add (CStr (t @ cp ''/'')) v) vs) = Some gs"
    by (auto simp: Option.bind_eq_Some_conv g)
  from gs assms(4) obtain v where v: "v \<in> set vs" "cel_add (CStr (t @ cp ''/'')) v = Some u"
    unfolding those_eq_Some by (metis (no_types, lifting) image_iff list.set_map)
  have "plain_group rx v"
    using plain_groups_of_all [OF _ w v(1)] safe by (simp add: celOIDCFlatGroupsSafe_def cel_and_True)
  with v(2) have "organization_group rx t u"
    by (cases v) (auto simp: organization_group_def plain_group_def)
  with t show ?thesis by blast
qed

text \<open>The identity of an external token that carries an organization claim.\<close>

definition organization_identity :: "regex \<Rightarrow> activation \<Rightarrow> bool" where
  "organization_identity rx s \<longleftrightarrow>
     eval rx (Has c_identity ''iss'') s = Some (CBool True) \<and>
     eval rx (In (Lit Double ''org_id'') c_identity) s = Some (CBool True)"

lemma transport_groups:
  assumes "eval rx celOIDCTransportGroups s = Some (CList gs)" and "u \<in> set gs"
  shows "if eval rx (In (Lit Double ''org_id'') c_identity) s = Some (CBool True)
    then \<exists>t. eval rx c_org_id s = Some (CStr t) \<and> rx celCanonicalOrganizationIDPattern t \<and> organization_group rx t u
    else plain_group rx u"
  using assms(1) unfolding celOIDCTransportGroups_def
proof (cases rule: eval_cond_cases)
  case 1
  from 1(2) show ?thesis
  proof (cases rule: eval_cond_cases)
    case inner: 1
    from inner(2) have has: "eval rx (Has c_identity ''groups'') s = Some (CBool True)"
      and map: "eval rx (MapOver c_groups ''g'' (Add (Add c_org_id (Lit Double ''/'')) (Var ''g''))) s = Some (CList gs)"
      using assms(2) by (auto elim!: eval_cond_cases simp del: eval.simps simp: eval.simps(4))
    from inner(1) have "eval rx celOIDCOrganizationIDSafe s = Some (CBool True)"
      and "cel_or (Option.bind (eval rx (Has c_identity ''groups'') s) cel_not) (eval rx celOIDCFlatGroupsSafe s) = Some (CBool True)"
      by (simp_all add: cel_and_True)
    then have "cel_or (Some (CBool False)) (eval rx celOIDCFlatGroupsSafe s) = Some (CBool True)"
      by (simp only: has bind.bind_lunit cel_not.simps not_True_eq_False)
    then have "eval rx celOIDCFlatGroupsSafe s = Some (CBool True)" by (rule cel_or_cases) simp
    from flat_groups_qualified [OF \<open>eval rx celOIDCOrganizationIDSafe s = _\<close> this map assms(2)] 1(1)
    show ?thesis by simp
  next
    case 2
    with assms(2) show ?thesis by simp
  qed
next
  case 2
  then have no: "eval rx (In (Lit Double ''org_id'') c_identity) s \<noteq> Some (CBool True)" by simp
  from 2(2) show ?thesis
  proof (cases rule: eval_cond_cases)
    case inner: 1
    from inner(1) have "eval rx celOIDCLegacyGroupsSafe s = Some (CBool True)" by (simp add: cel_and_True)
    from legacy_groups_plain [OF this inner(2) assms(2)] no show ?thesis by (simp only: if_False)
  next
    case 2
    with assms(2) show ?thesis by simp
  qed
qed

text \<open>
  C8. The groups that the gateway sends to subscription selection for a token (not an API
  key) are safe and cannot cross organizations. Every group is a string. For an external
  token with an organization claim, the claim is a canonical organization id and every group
  is that id, a slash and a safe group name that is itself not qualified; for any other token
  every group is a safe name that does not have the form of an organization's group.
\<close>

theorem token_groups_confined:
  assumes "eval rx celAPIKeyPresent s = Some (CBool False)"
    and "eval rx celGroups s = Some (CList gs)" and "u \<in> set gs"
  shows "if organization_identity rx s
    then \<exists>t. eval rx c_org_id s = Some (CStr t) \<and> rx celCanonicalOrganizationIDPattern t \<and> organization_group rx t u
    else plain_group rx u"
proof -
  from assms(1,2) have "eval rx celNonAPIKeyGroups s = Some (CList gs)"
    by (simp add: celGroups_def)
  then show ?thesis unfolding celNonAPIKeyGroups_def
  proof (cases rule: eval_cond_cases)
    case 1
    with transport_groups [OF 1(2) assms(3)] show ?thesis by (simp add: organization_identity_def)
  next
    case 2
    with token_review_groups_plain [OF 2(2) assms(3)] show ?thesis by (simp add: organization_identity_def)
  qed
qed

section \<open>A concrete request\<close>

text \<open>The patterns of the source on a text, and a request of an external token.\<close>

definition ex_hex :: "codepoints \<Rightarrow> bool" where
  "ex_hex = list_all (\<lambda>c. 48 \<le> c \<and> c \<le> 57 \<or> 97 \<le> c \<and> c \<le> 102)"

definition ex_uuid :: "codepoints \<Rightarrow> bool" where
  "ex_uuid t \<longleftrightarrow> length t = 36 \<and>
     list_all (\<lambda>(i, c). if i \<in> {8, 13, 18, 23} then c = 45 else ex_hex [c]) (zip [0..<36] t)"

definition ex_rx :: regex where
  "ex_rx p t =
     (if p = safeGroupNamePattern then
        t \<noteq> [] \<and> list_all (\<lambda>c. 97 \<le> c \<and> c \<le> 122 \<or> 65 \<le> c \<and> c \<le> 90 \<or> 48 \<le> c \<and> c \<le> 57 \<or> c \<in> set (cp '':#._/ -'')) t
      else if p = celCanonicalOrganizationIDPattern then ex_uuid t
      else if p = celOrganizationQualifiedGroup then ex_uuid (take 36 t) \<and> take 1 (drop 36 t) = cp ''/''
      else False)"

definition ex_obj :: "(string \<times> cval) list \<Rightarrow> cval" where
  "ex_obj = CMap \<circ> map (\<lambda>(k, v). (cp k, v))"

definition ex_text :: "string \<Rightarrow> cval" where
  "ex_text = CStr \<circ> cp"

definition ex_org :: string where
  "ex_org = ''01234567-89ab-cdef-0123-456789abcdef''"

definition ex_token :: "(string \<times> cval) list \<Rightarrow> activation" where
  "ex_token hs =
     [''auth'' \<mapsto> ex_obj [(''metadata'', ex_obj []),
        (''identity'', ex_obj [(''iss'', ex_text ''https://idp''), (''sub'', ex_text ''u1''),
           (''org_id'', ex_text ex_org), (''groups'', CList [ex_text ''dev'', ex_text ''ops''])])],
      ''request'' \<mapsto> ex_obj [(''path'', ex_text ''/llm/granite/v1/chat''), (''headers'', ex_obj hs)]]"

lemmas ex_cel = ex_token_def ex_obj_def ex_text_def cel_roots celAPIKeyPresent_def

lemma ex_patterns [simp]:
  "safeGroupNamePattern \<noteq> celCanonicalOrganizationIDPattern"
  "celCanonicalOrganizationIDPattern \<noteq> safeGroupNamePattern"
  "safeGroupNamePattern \<noteq> celOrganizationQualifiedGroup"
  "celOrganizationQualifiedGroup \<noteq> safeGroupNamePattern"
  "celOrganizationQualifiedGroup \<noteq> celCanonicalOrganizationIDPattern"
  by (simp_all add: safeGroupNamePattern_def celCanonicalOrganizationIDPattern_def
      celOrganizationQualifiedGroup_def celCanonicalOrganizationID_def)

lemma token_groups_confined_witness:
  "eval ex_rx celGroups (ex_token []) = Some (CList [ex_text (ex_org @ ''/dev''), ex_text (ex_org @ ''/ops'')]) \<and>
   (\<exists>t. eval ex_rx c_org_id (ex_token []) = Some (CStr t) \<and> ex_rx celCanonicalOrganizationIDPattern t \<and>
        organization_group ex_rx t (ex_text (ex_org @ ''/ops'')))"
proof -
  have key: "eval ex_rx celAPIKeyPresent (ex_token []) = Some (CBool False)" by code_simp
  have groups: "eval ex_rx celGroups (ex_token [])
      = Some (CList [ex_text (ex_org @ ''/dev''), ex_text (ex_org @ ''/ops'')])" by code_simp
  have "organization_identity ex_rx (ex_token [])" by code_simp
  with token_groups_confined [OF key groups, of "ex_text (ex_org @ ''/ops'')"] groups
  show ?thesis by simp
qed

definition ex_apiKey :: "(string \<times> cval) list \<Rightarrow> activation" where
  "ex_apiKey hs =
     [''auth'' \<mapsto> ex_obj [(''metadata'', ex_obj [(''apiKeyValidation'',
           ex_obj [(''userId'', ex_text ''7''), (''username'', ex_text ''u''), (''keyId'', ex_text ''k''),
                   (''groups'', CList [ex_text ''dev'']), (''subscription'', ex_text ''s'')])]),
        (''identity'', ex_text ''sk'')],
      ''request'' \<mapsto> ex_obj [(''path'', ex_text ''/a/b''), (''headers'', ex_obj hs)]]"

definition ex_values :: "string list" where
  "ex_values = [''api-key'', ''7'', ''k'', ''u'', [], [], [], ''1:3:dev'', ''s'', [], ''a/b'']"

lemma ex_apiKey_values:
  "map (str_of ex_rx (ex_apiKey [(''accept'', ex_text ''x'')])) cache_values = map Some (map cp ex_values)"
  "map (str_of ex_rx (ex_apiKey [])) cache_values = map Some (map cp ex_values)"
  by code_simp+

lemma cache_key_collision_free_witness:
  "eval ex_rx subscriptionGatewayCacheKeySelector (ex_apiKey [(''accept'', ex_text ''x'')])
     = Some (CStr (concat (map frame (map cp ex_values)))) \<and>
   eval ex_rx subscriptionGatewayCacheKeySelector (ex_apiKey [])
     = Some (CStr (concat (map frame (map cp ex_values)))) \<and>
   eval ex_rx celUsername (ex_apiKey [(''accept'', ex_text ''x'')]) = eval ex_rx celUsername (ex_apiKey [])"
proof -
  have key: "eval ex_rx subscriptionGatewayCacheKeySelector s = Some (CStr (concat (map frame (map cp ex_values))))"
    if "map (str_of ex_rx s) cache_values = map Some (map cp ex_values)" for s
    using that unfolding subscriptionGatewayCacheKeySelector_def cache_values_def framed_sum map_option_eq_Some those_eq_Some
    by blast
  note keys = ex_apiKey_values [THEN key]
  from cache_key_collision_free [OF keys]
  have "eval ex_rx celUsername (ex_apiKey [(''accept'', ex_text ''x'')]) = eval ex_rx celUsername (ex_apiKey [])"
    unfolding list.map list.inject by blast
  with keys show ?thesis by blast
qed

end
