(* ===== verification/GatewayAuthSpec.thy ===== *)
theory GatewayAuthSpec
  imports GatewayCel SubscriptionModel ControllerCluster "HOL-Library.AList" "HOL-Library.Sublist"
begin

text \<open>
  The AuthPolicy that protects a gateway: \<open>buildGatewayAuthPolicySpec\<close> of
  \<open>maas-controller/pkg/controller/maas/maasauthpolicy_controller.go\<close> with
  \<open>maasauthpolicy_identity.go\<close>, \<open>pkg/authpolicy/oidc.go\<close> and the subscription headers that
  \<open>subscription_headers.go\<close> adds. The specification is a JSON object; a Go map is an
  association list in the order of its literal, and assigning a key replaces its value. The
  writing helpers of the Kubernetes \<open>unstructured\<close> package are the record \<open>setters\<close>.
\<close>

section \<open>Texts\<close>

definition dq :: string where "dq = [CHR 0x22]"
definition sq :: string where "sq = [CHR 0x27]"
definition bs :: string where "bs = [CHR 0x5C]"
definition nl :: string where "nl = [CHR 0x0A]"
definition tab :: string where "tab = [CHR 0x09]"

text \<open>\<open>strconv.Quote\<close> and the JSON string encoding on printable ASCII text and its quoting characters.\<close>

definition Quote :: "string \<Rightarrow> string" where
  "Quote s = dq @ concat (map (\<lambda>c. if [c] = dq \<or> [c] = bs then bs @ [c] else [c]) s) @ dq"

definition json_char :: "char \<Rightarrow> string" where
  "json_char c =
     (if [c] = dq \<or> [c] = bs then bs @ [c]
      else if c = CHR ''<'' then bs @ ''u003c''
      else if c = CHR ''>'' then bs @ ''u003e''
      else if c = CHR ''&'' then bs @ ''u0026''
      else [c])"

definition MarshalStrings :: "string list \<Rightarrow> string" where
  "MarshalStrings xs = ''['' @ Join (map (\<lambda>s. dq @ concat (map json_char s) @ dq) xs) '','' @ '']''"

definition pred :: "string \<Rightarrow> json" where
  "pred p = JObj [(''predicate'', JStr p)]"

definition expr :: "string \<Rightarrow> json" where
  "expr e = JObj [(''expression'', JStr e)]"

section \<open>The reconciler and its configuration\<close>

record apReconciler =
  ap_settings :: settings
  ap_InfraNamespace :: string
  ap_ClusterAudience :: string
  ap_MetadataCacheTTL :: int
  ap_AuthzCacheTTL :: int

record oidcConfig =
  oc_IssuerURL :: string
  oc_ClientID :: string
  oc_Audience :: string
  oc_AccessTokenPurposeClaim :: string
  oc_AccessTokenPurpose :: string
  oc_TTL :: int

record guardrailHeader =
  gh_ID :: string
  gh_Name :: string

definition authzCacheTTL :: "apReconciler \<Rightarrow> int" where
  "authzCacheTTL r =
     (let metadata = (if ap_MetadataCacheTTL r < 0 then 0 else ap_MetadataCacheTTL r);
          authz = (if ap_AuthzCacheTTL r < 0 then 0 else ap_AuthzCacheTTL r)
      in if authz < metadata then authz else metadata)"

definition ValidateCacheTTLs :: "apReconciler \<Rightarrow> string option" where
  "ValidateCacheTTLs r =
     (if ap_MetadataCacheTTL r < 0 then Some ''metadata cache TTL must be non-negative''
      else if ap_AuthzCacheTTL r < 0 then Some ''authorization cache TTL must be non-negative''
      else None)"

section \<open>Binding external tokens\<close>

definition externalJWTShape :: string where
  "externalJWTShape =
     ''request.headers.authorization.matches('' @ dq @ ''^Bearer [^.]+'' @ bs @ bs @ ''.[^.]+'' @ bs @ bs @
       ''.[^.]+$'' @ dq @ '')''"

definition OIDCTokenBoundWhen :: "string \<Rightarrow> json list" where
  "OIDCTokenBoundWhen notAPIKeyPredicate =
     [pred (notAPIKeyPredicate @ '' && '' @ externalJWTShape @ '' && has(auth.identity.iss)'')]"

definition eq_pattern :: "string \<Rightarrow> string \<Rightarrow> json" where
  "eq_pattern selector v = JObj [(''selector'', JStr selector), (''operator'', JStr ''eq''), (''value'', JStr v)]"

definition OIDCTokenBoundPatterns :: "string \<Rightarrow> string \<Rightarrow> string \<Rightarrow> string \<Rightarrow> string \<Rightarrow> json list" where
  "OIDCTokenBoundPatterns issuerURL clientID aud purposeClaim purposeValue =
     [eq_pattern ''auth.identity.iss'' issuerURL, eq_pattern ''auth.identity.azp'' clientID] @
     (if aud \<noteq> [] then
        [pred (''has(auth.identity.aud) && (auth.identity.aud == '' @ Quote aud @ '' || '' @ Quote aud @
           '' in auth.identity.aud)'')]
      else []) @
     (if purposeClaim \<noteq> [] \<and> purposeValue \<noteq> [] then [eq_pattern (''auth.identity.'' @ purposeClaim) purposeValue]
      else [])"

definition managementIdentityRoutePredicate :: string where
  "managementIdentityRoutePredicate =
     (let eq = (\<lambda>p. ''request.path == '' @ dq @ p @ dq);
          starts = (\<lambda>p. ''request.path.startsWith('' @ dq @ p @ dq @ '')'');
          ends = (\<lambda>p. ''request.path.endsWith('' @ dq @ p @ dq @ '')'')
      in eq ''/v1/me'' @ '' ||'' @ nl @ eq ''/maas-api/v1/me'' @ '' ||'' @ nl @
         eq ''/v1/subscriptions'' @ '' ||'' @ nl @ starts ''/v1/subscriptions/'' @ '' ||'' @ nl @
         tab @ eq ''/v1/models'' @ '' ||'' @ nl @
         tab @ starts ''/v1/model/'' @ '' && '' @ ends ''/subscriptions'' @ '' ||'' @ nl @
         tab @ starts ''/v1/api-keys'' @ '' ||'' @ nl @ tab @ starts ''/v1/logs'' @ '' ||'' @ nl @
         tab @ starts ''/maas-api/v1/subscriptions'' @ '' ||'' @ nl @
         tab @ eq ''/maas-api/v1/models'' @ '' ||'' @ nl @
         tab @ starts ''/maas-api/v1/model/'' @ '' && '' @ ends ''/subscriptions'' @ '' ||'' @ nl @
         tab @ starts ''/maas-api/v1/api-keys'' @ '' ||'' @ nl @ tab @ starts ''/maas-api/v1/logs'')"

definition optional_claim :: "string \<Rightarrow> string \<Rightarrow> string \<times> string" where
  "optional_claim c dflt = (c, ''has(auth.identity.'' @ c @ '') ? auth.identity.'' @ c @ '' : '' @ dflt)"

definition verifiedIdentityClaims :: "(string \<times> string) list" where
  "verifiedIdentityClaims =
     [(''iss'', ''auth.identity.iss''), (''sub'', ''auth.identity.sub''),
      (''aud'', ''auth.identity.aud''), (''azp'', ''auth.identity.azp''),
      optional_claim ''name'' (dq @ dq), optional_claim ''given_name'' (dq @ dq),
      optional_claim ''family_name'' (dq @ dq), optional_claim ''preferred_username'' (dq @ dq),
      optional_claim ''email'' (dq @ dq), optional_claim ''groups'' ''[]'']"

definition organization_claim :: "string \<Rightarrow> string \<Rightarrow> string \<times> string" where
  "organization_claim c dflt =
     (c, dq @ c @ dq @ '' in auth.identity ? auth.identity['' @ dq @ c @ dq @ ''] : '' @ dflt)"

definition claim_entry :: "string \<times> string \<Rightarrow> string" where
  "claim_entry c = Quote (fst c) @ '': '' @ snd c"

definition verifiedIdentityClaimsExpression :: string where
  "verifiedIdentityClaimsExpression =
     (let entries = map claim_entry verifiedIdentityClaims;
          organizationEntries = entries @ map claim_entry
            [(''org_id'', ''auth.identity['' @ dq @ ''org_id'' @ dq @ '']''),
             organization_claim ''org_name'' (dq @ dq), organization_claim ''roles'' ''[]''];
          baseClaims = ''{'' @ Join entries '', '' @ ''}'';
          organizationClaims = ''{'' @ Join organizationEntries '', '' @ ''}''
      in dq @ ''org_id'' @ dq @ '' in auth.identity ? '' @ organizationClaims @ '' : '' @ baseClaims)"

definition verifiedIdentityContractConfigured :: "oidcConfig option \<Rightarrow> bool" where
  "verifiedIdentityContractConfigured oidc =
     (case oidc of None \<Rightarrow> False | Some c \<Rightarrow> oc_IssuerURL c \<noteq> [] \<and> oc_ClientID c \<noteq> [])"

definition externalOIDCPredicate :: "string \<Rightarrow> string" where
  "externalOIDCPredicate notAPIKeyPredicate =
     (case OIDCTokenBoundWhen notAPIKeyPredicate of
        [JObj clause] \<Rightarrow>
          (case field as_string clause ''predicate'' of
             Some p \<Rightarrow> if p = [] then ''false'' else p
           | None \<Rightarrow> ''false'')
      | _ \<Rightarrow> ''false'')"

definition verifiedIdentityHeader :: "oidcConfig option \<Rightarrow> string \<Rightarrow> json" where
  "verifiedIdentityHeader oidc notAPIKeyPredicate =
     JObj
       [(''when'', JArr [pred
           (if verifiedIdentityContractConfigured oidc
            then ''('' @ managementIdentityRoutePredicate @ '') && ('' @ externalOIDCPredicate notAPIKeyPredicate @ '')''
            else ''false'')]),
        (''json'', JObj [(''properties'', JObj
           [(''source'', JObj [(''value'', JStr ''oidc'')]), (''claims'', expr verifiedIdentityClaimsExpression)])]),
        (''metrics'', JBool False),
        (''priority'', JInt 0)]"

section \<open>Headers from the selected subscription\<close>

definition info_field :: "string \<Rightarrow> string" where
  "info_field f = ''auth.metadata['' @ dq @ ''subscription-info'' @ dq @ ''].'' @ f"

definition subscriptionInfoFieldExpr :: "string \<Rightarrow> string" where
  "subscriptionInfoFieldExpr f =
     ''has(auth.metadata) && '' @ dq @ ''subscription-info'' @ dq @ '' in auth.metadata && '' @
     ''has('' @ info_field f @ '') ? '' @ info_field f @ '' : '' @ dq @ dq"

definition subscriptionInfoHeader :: "string \<Rightarrow> json" where
  "subscriptionInfoHeader f =
     JObj [(''plain'', expr (subscriptionInfoFieldExpr f)), (''metrics'', JBool False), (''priority'', JInt 0)]"

definition subscriptionInfoStringHeader :: "string \<Rightarrow> json" where
  "subscriptionInfoStringHeader f =
     JObj
       [(''when'', JArr [pred (''has('' @ info_field f @ '') && '' @ info_field f @ '' != '' @ dq @ dq)]),
        (''plain'', expr (info_field f)), (''metrics'', JBool False), (''priority'', JInt 0)]"

definition selectedGuardrailHeader :: "string \<Rightarrow> json" where
  "selectedGuardrailHeader checkID =
     (let selected = info_field ''selectedGuardrailChecks''; q = Quote checkID in
      JObj
        [(''when'', JArr [pred (text_of celModelIdentityAvailable)]),
         (''plain'', expr (''(has('' @ selected @ '') && '' @ q @ '' in '' @ selected @ '' && '' @ selected @
            ''['' @ q @ ''] == true) ? '' @ dq @ ''true'' @ dq @ '' : '' @ dq @ ''false'' @ dq)),
         (''metrics'', JBool False),
         (''priority'', JInt 0)])"

definition selectedGuardrailChecksRego :: "guardrailHeader list \<Rightarrow> string" where
  "selectedGuardrailChecksRego hs =
     Join
       [''import future.keywords.every'', [], ''allow {'',
        ''  selected := object.get(input.auth.metadata['' @ dq @ ''subscription-info'' @ dq @ ''], '' @ dq @
          ''selectedGuardrailChecks'' @ dq @ '', null)'',
        ''  selected != null'', ''  every id, value in selected {'',
        ''    id in '' @ MarshalStrings (map gh_ID hs), ''    value == true'', ''  }'', ''}'', []] nl"

section \<open>The rules\<close>

definition authentication_rules :: "apReconciler \<Rightarrow> jobj" where
  "authentication_rules r =
     [(''api-keys'',
         JObj
           [(''plain'', JObj [(''selector'', JStr ''request.headers.authorization'')]),
            (''when'',
              JArr
                [JObj
                   [(''selector'', JStr ''request.headers.authorization''),
                    (''operator'', JStr ''matches''),
                    (''value'', JStr ''^Bearer sk-oai-.*'')]]),
            (''metrics'', JBool False),
            (''priority'', JInt 0)]),
       (''openshift-identities'',
         JObj
           [(''kubernetesTokenReview'', JObj [(''audiences'', JArr [JStr (ap_ClusterAudience r)])]),
            (''metrics'', JBool False),
            (''priority'', JInt 2)])]"

definition x_api_key_rule :: json where
  "x_api_key_rule = JObj
     [(''plain'', expr (''request.headers['' @ dq @ ''x-api-key'' @ dq @ '']'')),
       (''when'',
         JArr
           [JObj
              [(''selector'', JStr ''request.headers.x-api-key''),
               (''operator'', JStr ''matches''),
               (''value'', JStr ''^sk-oai-.*'')]]),
       (''metrics'', JBool False),
       (''priority'', JInt 1)]"

definition oidc_identities_rule :: "string \<Rightarrow> oidcConfig \<Rightarrow> json" where
  "oidc_identities_rule isNotAPIKey oidc = JObj
     [(''jwt'', JObj [(''issuerUrl'', JStr (oc_IssuerURL oidc)), (''ttl'', JInt (oc_TTL oidc))]),
       (''when'',
         JArr
           [pred (isNotAPIKey @ '' && request.headers.authorization.matches('' @ dq @ ''^Bearer [^.]+'' @ bs @
              bs @ ''.[^.]+'' @ bs @ bs @ ''.[^.]+$'' @ dq @ '')'')]),
       (''metrics'', JBool False),
       (''priority'', JInt 1)]"

definition requireGroupMembershipRego :: string where
  "requireGroupMembershipRego =
     ''allow {'' @ nl @ ''  object.get(input.auth.metadata['' @ dq @ ''subscription-info'' @ dq @ ''], '' @ dq @
     ''accessAllowed'' @ dq @ '', false) == true'' @ nl @ ''}''"

definition authorization_rules :: "apReconciler \<Rightarrow> string \<Rightarrow> string \<Rightarrow> jobj" where
  "authorization_rules r isAPIKey authValidCacheKey =
     [(''deny-api-key-management'',
         JObj
           [(''when'',
              JArr
                [pred (''('' @ isAPIKey @ '') && (request.path == '' @ dq @ ''/maas-api/v1/api-keys'' @ dq @
                   '' || request.path.startsWith('' @ dq @ ''/maas-api/v1/api-keys/'' @ dq @ ''))'')]),
            (''metrics'', JBool False),
            (''priority'', JInt 0),
            (''patternMatching'', JObj [(''patterns'', JArr [pred ''false''])])]),
       (''deny-client-identity-headers'',
         JObj
           [(''metrics'', JBool False),
            (''priority'', JInt 0),
            (''patternMatching'',
              JObj
                [(''patterns'',
                   JArr
                     [pred (''!('' @ dq @ ''x-maas-username'' @ dq @ '' in request.headers)''),
                      pred (''!('' @ dq @ ''x-maas-group'' @ dq @ '' in request.headers)''),
                      pred (''!('' @ dq @ ''x-maas-exact-groups'' @ dq @ '' in request.headers)''),
                      pred (''!('' @ dq @ ''x-maas-keyname'' @ dq @ '' in request.headers)''),
                      pred (''!('' @ dq @ ''x-maas-subscription-rate-limit-id'' @ dq @ '' in request.headers)''),
                      pred (''!('' @ dq @ ''x-maas-organization-id'' @ dq @ '' in request.headers)''),
                      pred (''!('' @ dq @ ''x-maas-cost-center'' @ dq @ '' in request.headers)''),
                      pred (''!('' @ dq @ ''x-maas-identity'' @ dq @ '' in request.headers)''),
                      pred (''!('' @ dq @ ''x-maas-admin-scope'' @ dq @ '' in request.headers)''),
                      pred (''request.headers.all(name, !name.startsWith('' @ dq @ ''x-aigateway-guardrail-'' @
                        dq @ ''))'')])])]),
       (''auth-valid'',
         JObj
           [(''metrics'', JBool False),
            (''priority'', JInt 0),
            (''opa'',
              JObj
                [(''rego'',
                   JStr (''allow {'' @ nl @ ''  object.get(input.auth.metadata, '' @ dq @ ''apiKeyValidation'' @
                     dq @ '', {})'' @ nl @ ''  input.auth.metadata.apiKeyValidation.valid == true'' @ nl @ ''}'' @
                     nl @ ''allow {'' @ nl @ ''  not input.auth.metadata.apiKeyValidation'' @ nl @ ''}''))]),
            (''cache'',
              JObj [(''key'', JObj [(''selector'', JStr authValidCacheKey)]), (''ttl'', JInt (authzCacheTTL r))])]),
       (''subscription-valid'',
         JObj
           [(''when'', JArr [pred (text_of celModelIdentityAvailable)]),
            (''metrics'', JBool False),
            (''priority'', JInt 0),
            (''opa'',
              JObj
                [(''rego'',
                   JStr (''allow {'' @ nl @ tab @ ''object.get(input.auth.metadata['' @ dq @
                     ''subscription-info'' @ dq @ ''], '' @ dq @ ''name'' @ dq @ '', '' @ dq @ dq @ '') != '' @ dq @
                     dq @ nl @ tab @ ''object.get(input.auth.metadata['' @ dq @ ''subscription-info'' @ dq @
                     ''], '' @ dq @ ''error'' @ dq @ '', '' @ dq @ dq @ '') == '' @ dq @ dq @ nl @ tab @
                     ''phase := object.get(input.auth.metadata['' @ dq @ ''subscription-info'' @ dq @ ''], '' @ dq @
                     ''phase'' @ dq @ '', '' @ dq @ dq @ '')'' @ nl @ tab @ ''any([phase == '' @ dq @ ''Active'' @
                     dq @ '', phase == '' @ dq @ ''Degraded'' @ dq @ ''])'' @ nl @ tab @
                     ''object.get(input.auth.metadata['' @ dq @ ''subscription-info'' @ dq @ ''], '' @ dq @
                     ''deletionTimestamp'' @ dq @ '', '' @ dq @ dq @ '') == '' @ dq @ dq @ nl @ ''}''))]),
            (''cache'',
              JObj
                [(''key'', JObj [(''selector'', JStr (text_of subscriptionGatewayCacheKeySelector))]),
                 (''ttl'', JInt (authzCacheTTL r))])]),
       (''require-group-membership'',
         JObj
           [(''when'', JArr [pred (text_of celModelIdentityAvailable)]),
            (''metrics'', JBool False),
            (''priority'', JInt 0),
            (''opa'', JObj [(''rego'', JStr requireGroupMembershipRego)]),
            (''cache'',
              JObj
                [(''key'', JObj [(''selector'', JStr (text_of subscriptionGatewayCacheKeySelector))]),
                 (''ttl'', JInt (authzCacheTTL r))])])]"

definition guardrail_rule :: "guardrailHeader list \<Rightarrow> json" where
  "guardrail_rule hs = JObj
     [(''when'', JArr [pred (text_of celModelIdentityAvailable)]),
      (''metrics'', JBool False),
      (''priority'', JInt 0),
      (''opa'', JObj [(''rego'', JStr (selectedGuardrailChecksRego hs))])]"

definition oidc_groups_rego :: string where
  "oidc_groups_rego = Join
      [''unsafe_group['' @ dq @ ''invalid_type'' @ dq @ ''] {'',
       tab @ ''g := input.auth.identity.groups[_]'',
       tab @ ''not is_string(g)'',
       ''}'',
       [],
       ''unsafe_group[g] {'',
       tab @ ''org_id := input.auth.identity.org_id'',
       tab @ ''is_string(org_id)'',
       tab @ ''g := input.auth.identity.groups[_]'',
       tab @ ''is_string(g)'',
       tab @ ''g == '' @ dq @ dq,
       ''}'',
       [],
       ''unsafe_group[g] {'',
       tab @ ''org_id := input.auth.identity.org_id'',
       tab @ ''is_string(org_id)'',
       tab @ ''g := input.auth.identity.groups[_]'',
       tab @ ''is_string(g)'',
       tab @ ''encoded := base64.encode(g)'',
       tab @ ''count(encoded) > 344'',
       ''}'',
       [],
       ''unsafe_group[g] {'',
       tab @ ''org_id := input.auth.identity.org_id'',
       tab @ ''is_string(org_id)'',
       tab @ ''g := input.auth.identity.groups[_]'',
       tab @ ''is_string(g)'',
       tab @ ''encoded := base64.encode(g)'',
       tab @ ''count(encoded) == 344'',
       tab @ ''not regex.match('' @ dq @ ''==$'' @ dq @ '', encoded)'',
       ''}'',
       [],
       ''unsafe_group[g] {'',
       tab @ ''org_id := input.auth.identity.org_id'',
       tab @ ''is_string(org_id)'',
       tab @ ''g := input.auth.identity.groups[_]'',
       tab @ ''is_string(g)'',
       tab @ ''not regex.match('' @ dq @ safeGroupNamePattern @ dq @ '', g)'',
       ''}'',
       [],
       ''unsafe_group[g] {'',
       tab @ ''org_id := input.auth.identity.org_id'',
       tab @ ''is_string(org_id)'',
       tab @ ''g := input.auth.identity.groups[_]'',
       tab @ ''is_string(g)'',
       tab @ ''regex.match('' @ dq @ celOrganizationQualifiedGroup @ dq @ '', g)'',
       ''}'',
       [],
       ''unsafe_group[g] {'',
       tab @ ''g := input.auth.identity.groups[_]'',
       tab @ ''is_string(g)'',
       tab @ ''not input.auth.identity.org_id'',
       tab @ ''not regex.match('' @ dq @ safeGroupNamePattern @ dq @ '', g)'',
       ''}'',
       [],
       ''unsafe_group[g] {'',
       tab @ ''g := input.auth.identity.groups[_]'',
       tab @ ''is_string(g)'',
       tab @ ''not input.auth.identity.org_id'',
       tab @ ''regex.match('' @ dq @ celOrganizationQualifiedGroup @ dq @ '', g)'',
       ''}'',
       [],
       ''invalid_org_id {'',
       tab @ ''org_id := input.auth.identity.org_id'',
       tab @ ''not is_string(org_id)'',
       ''}'',
       [],
       ''invalid_org_id {'',
       tab @ ''org_id := input.auth.identity.org_id'',
       tab @ ''is_string(org_id)'',
       tab @ ''not regex.match('' @ dq @ celCanonicalOrganizationIDPattern @ dq @ '', org_id)'',
       ''}'',
       [],
       ''invalid_group_list {'',
       tab @ ''object.keys(input.auth.identity)[_] == '' @ dq @ ''groups'' @ dq,
       tab @ ''not is_array(input.auth.identity.groups)'',
       ''}'',
       [],
       ''invalid_group_list {'',
       tab @ ''groups := input.auth.identity.groups'',
       tab @ ''is_array(groups)'',
       tab @ ''count(groups) > 128'',
       ''}'',
       [],
       ''duplicate_group {'',
       tab @ ''org_id := input.auth.identity.org_id'',
       tab @ ''is_string(org_id)'',
       tab @ ''groups := input.auth.identity.groups'',
       tab @ ''is_array(groups)'',
       tab @ ''count(groups) <= 128'',
       tab @ ''count({g | g := groups[_]}) != count(groups)'',
       ''}'',
       [],
       ''allow {'',
       tab @ ''count(unsafe_group) == 0'',
       tab @ ''not invalid_org_id'',
       tab @ ''not invalid_group_list'',
       tab @ ''not duplicate_group'',
       ''}''] nl"

definition oidc_groups_rule :: "string \<Rightarrow> json" where
  "oidc_groups_rule isNotAPIKey = JObj
     [(''when'', JArr [pred
         (isNotAPIKey @ '' && has(auth.identity.iss) && '' @ ''('' @ dq @ ''org_id'' @ dq @
           '' in auth.identity || (has(auth.identity.groups) && size(auth.identity.groups) > 0))'')]),
      (''metrics'', JBool False),
      (''priority'', JInt 0),
      (''opa'', JObj [(''rego'', JStr oidc_groups_rego)])]"

definition oidc_client_rule :: "string \<Rightarrow> oidcConfig \<Rightarrow> json" where
  "oidc_client_rule isNotAPIKey oidc = JObj
     [(''when'', JArr (OIDCTokenBoundWhen isNotAPIKey)),
      (''metrics'', JBool False),
      (''priority'', JInt 1),
      (''patternMatching'', JObj [(''patterns'', JArr
         (OIDCTokenBoundPatterns (oc_IssuerURL oidc) (oc_ClientID oidc) (oc_Audience oidc)
            (oc_AccessTokenPurposeClaim oidc) (oc_AccessTokenPurpose oidc)))])]"

definition metadata_rules :: "apReconciler \<Rightarrow> string \<Rightarrow> string \<Rightarrow> string \<Rightarrow> jobj" where
  "metadata_rules r apiKeyValidationURL subscriptionSelectorURL subscriptionInfoBody =
     [(''apiKeyValidation'',
         JObj
           [(''when'', JArr [pred (''auth.identity.matches('' @ dq @ ''^(Bearer )?sk-oai-.*'' @ dq @ '')'')]),
            (''http'',
              JObj
                [(''url'', JStr apiKeyValidationURL),
                 (''contentType'', JStr ''application/json''),
                 (''method'', JStr ''POST''),
                 (''body'',
                   expr (''{'' @ dq @ ''key'' @ dq @ '': auth.identity.replace('' @ dq @ ''Bearer '' @ dq @
                     '', '' @ dq @ dq @ '')}''))]),
            (''cache'',
              JObj
                [(''key'',
                   JObj
                     [(''selector'',
                        JStr (''auth.identity.replace('' @ dq @ ''Bearer '' @ dq @ '', '' @ dq @ dq @ '')''))]),
                 (''ttl'', JInt (ap_MetadataCacheTTL r))]),
            (''metrics'', JBool False),
            (''priority'', JInt 0)]),
       (''subscription-info'',
         JObj
           [(''when'', JArr [pred (text_of celModelIdentityAvailable)]),
            (''http'',
              JObj
                [(''url'', JStr subscriptionSelectorURL),
                 (''contentType'', JStr ''application/json''),
                 (''method'', JStr ''POST''),
                 (''body'', expr subscriptionInfoBody)]),
            (''cache'',
              JObj
                [(''key'', JObj [(''selector'', JStr (text_of subscriptionGatewayCacheKeySelector))]),
                 (''ttl'', JInt (ap_MetadataCacheTTL r))]),
            (''metrics'', JBool False),
            (''priority'', JInt 1)])]"

definition success_headers :: "oidcConfig option \<Rightarrow> string \<Rightarrow> string \<Rightarrow> jobj" where
  "success_headers oidc isAPIKey isNotAPIKey =
     [(''X-MaaS-Username'',
         JObj
           [(''when'', JArr [pred isAPIKey]),
            (''plain'', JObj [(''selector'', JStr ''auth.metadata.apiKeyValidation.username'')]),
            (''metrics'', JBool False),
            (''priority'', JInt 0)]),
       (''X-MaaS-Username-Token'',
         JObj
           [(''when'', JArr [pred isNotAPIKey]),
            (''plain'',
              expr ''has(auth.identity.preferred_username) ? auth.identity.preferred_username : (has(auth.identity.sub) ? auth.identity.sub : auth.identity.user.username)''),
            (''key'', JStr ''X-MaaS-Username''),
            (''metrics'', JBool False),
            (''priority'', JInt 1)]),
       (''X-MaaS-Group'',
         JObj
           [(''when'', JArr [pred isAPIKey]),
            (''plain'', expr (text_of celAPIKeyGroupsHeaderJSON)),
            (''metrics'', JBool False),
            (''priority'', JInt 0)]),
       (''X-MaaS-Group-Token'',
         JObj
           [(''when'', JArr [pred (isNotAPIKey @ '' && !('' @ dq @ ''org_id'' @ dq @ '' in auth.identity)'')]),
            (''plain'', expr (text_of celTokenGroupsHeaderJSON)),
            (''key'', JStr ''X-MaaS-Group''),
            (''metrics'', JBool False),
            (''priority'', JInt 1)]),
       (''X-MaaS-Subscription'',
         JObj
           [(''when'',
              JArr
                [pred (''has(auth.metadata) && has(auth.metadata.apiKeyValidation) && auth.metadata.apiKeyValidation.subscription != '' @
                   dq @ dq)]),
            (''plain'', expr (text_of celSubscription)),
            (''metrics'', JBool False),
            (''priority'', JInt 0)]),
       (''X-MaaS-Subscription-Rate-Limit-Id'',
         JObj
           [(''when'',
              JArr
                [pred (''has(auth.metadata['' @ dq @ ''subscription-info'' @ dq @
                   ''].rateLimitId) && auth.metadata['' @ dq @ ''subscription-info'' @ dq @ ''].rateLimitId != '' @
                   dq @ dq)]),
            (''plain'', expr (''auth.metadata['' @ dq @ ''subscription-info'' @ dq @ ''].rateLimitId'')),
            (''metrics'', JBool False),
            (''priority'', JInt 0)]),
       (''X-MaaS-KeyName'',
         JObj
           [(''when'', JArr [pred isAPIKey]),
            (''plain'', expr ''auth.metadata.apiKeyValidation.keyName''),
            (''key'', JStr ''x-maas-keyname''),
            (''metrics'', JBool False),
            (''priority'', JInt 0)]),
       (''x-llm-d-inference-objective'', subscriptionInfoHeader ''objective''),
       (''x-gateway-inference-objective'', subscriptionInfoHeader ''objective''),
       (''x-llm-d-inference-fairness-id'', subscriptionInfoHeader ''fairnessId''),
       (''x-gateway-inference-fairness-id'', subscriptionInfoHeader ''fairnessId''),
       (''x-maas-organization-id'', subscriptionInfoHeader ''organizationId''),
       (''X-MaaS-Cost-Center'', subscriptionInfoStringHeader ''costCenter''),
       (''X-MaaS-Identity'', verifiedIdentityHeader oidc isNotAPIKey)]"

definition identity_filter :: jobj where
  "identity_filter =
     [(''identity'',
         JObj
           [(''when'', JArr [pred (text_of celModelIdentityAvailable)]),
            (''json'',
              JObj
                [(''properties'',
                   JObj
                     [(''groups'', expr (text_of celGroups)),
                      (''groups_str'',
                        expr (''('' @ text_of celGroups @ '').join('' @ dq @ '','' @ dq @ '')'')),
                      (''userid'', expr (text_of celUsername)),
                      (''keyId'',
                        expr (''(has(auth.metadata) && has(auth.metadata.apiKeyValidation)) ? auth.metadata.apiKeyValidation.keyId : '' @
                          dq @ dq)),
                      (''keyName'',
                        expr (''(has(auth.metadata) && has(auth.metadata.apiKeyValidation)) ? auth.metadata.apiKeyValidation.keyName : '' @
                          dq @ dq)),
                      (''selected_subscription'',
                        expr (''has(auth.metadata['' @ dq @ ''subscription-info'' @ dq @
                          ''].name) ? auth.metadata['' @ dq @ ''subscription-info'' @ dq @ ''].name : '' @ dq @
                          dq)),
                      (''selected_subscription_key'',
                        expr (''(has(auth.metadata['' @ dq @ ''subscription-info'' @ dq @
                          ''].namespace) && has(auth.metadata['' @ dq @ ''subscription-info'' @ dq @
                          ''].name)) ? auth.metadata['' @ dq @ ''subscription-info'' @ dq @ ''].namespace + '' @
                          dq @ ''/'' @ dq @ '' + auth.metadata['' @ dq @ ''subscription-info'' @ dq @
                          ''].name + '' @ dq @ ''@'' @ dq @ '' + '' @ text_of celResolvedModelIdentity @ '' : '' @
                          dq @ dq)),
                      (''selected_subscription_id'',
                        expr (''has(auth.metadata['' @ dq @ ''subscription-info'' @ dq @
                          ''].rateLimitId) ? auth.metadata['' @ dq @ ''subscription-info'' @ dq @
                          ''].rateLimitId : '' @ dq @ dq)),
                      (''subscription_info'',
                        expr (''has(auth.metadata['' @ dq @ ''subscription-info'' @ dq @
                          ''].name) ? auth.metadata['' @ dq @ ''subscription-info'' @ dq @ ''] : {}'')),
                      (''subscription_error'',
                        expr (''has(auth.metadata['' @ dq @ ''subscription-info'' @ dq @
                          ''].error) ? auth.metadata['' @ dq @ ''subscription-info'' @ dq @ ''].error : '' @ dq @
                          dq)),
                      (''subscription_error_message'',
                        expr (''has(auth.metadata['' @ dq @ ''subscription-info'' @ dq @
                          ''].message) ? auth.metadata['' @ dq @ ''subscription-info'' @ dq @ ''].message : '' @
                          dq @ dq))])]),
            (''metrics'', JBool True),
            (''priority'', JInt 0)])]"

definition unauthenticated_response :: json where
  "unauthenticated_response = JObj
     [(''code'', JInt 401),
       (''message'', JObj [(''value'', JStr ''Authentication required'')]),
       (''body'',
         JObj
           [(''value'',
              JStr (''{'' @ dq @ ''error'' @ dq @ '':{'' @ dq @ ''message'' @ dq @ '':'' @ dq @
                ''Authentication required'' @ dq @ '','' @ dq @ ''type'' @ dq @ '':'' @ dq @
                ''authentication_error'' @ dq @ '','' @ dq @ ''code'' @ dq @ '':401}}''))]),
       (''headers'', JObj [(''content-type'', JObj [(''value'', JStr ''application/json'')])])]"

definition unauthorized_response :: json where
  "unauthorized_response = JObj
     [(''code'', JInt 403),
       (''body'',
         expr (sq @ ''{'' @ dq @ ''error'' @ dq @ '':{'' @ dq @ ''message'' @ dq @ '':'' @ dq @ sq @
           '' + (has(auth.metadata['' @ dq @ ''subscription-info'' @ dq @ ''].message)'' @ '' ? auth.metadata['' @
           dq @ ''subscription-info'' @ dq @ ''].message'' @ ''.replace('' @ sq @ bs @ bs @ sq @ '', '' @ sq @ bs @
           bs @ bs @ bs @ sq @ '').replace('' @ sq @ dq @ sq @ '', '' @ sq @ bs @ bs @ dq @ sq @ '')'' @
           ''.replace('' @ sq @ bs @ ''n'' @ sq @ '', '' @ sq @ bs @ bs @ ''n'' @ sq @ '').replace('' @ sq @ bs @
           ''r'' @ sq @ '', '' @ sq @ bs @ bs @ ''r'' @ sq @ '').replace('' @ sq @ bs @ ''t'' @ sq @ '', '' @ sq @
           bs @ bs @ ''t'' @ sq @ '')'' @ '' : '' @ dq @ ''Access denied'' @ dq @ '') + '' @ sq @ dq @ '','' @ dq @
           ''type'' @ dq @ '':'' @ dq @ ''authorization_error'' @ dq @ '','' @ dq @ ''code'' @ dq @ '':403}}'' @
           sq)),
       (''headers'',
         JObj
           [(''x-ext-auth-reason'',
              expr (''has(auth.metadata['' @ dq @ ''subscription-info'' @ dq @ ''].error) ? auth.metadata['' @
                dq @ ''subscription-info'' @ dq @ ''].error : '' @ dq @ ''unauthorized'' @ dq)),
            (''content-type'', JObj [(''value'', JStr ''application/json'')])])]"

section \<open>The specification\<close>

definition with_keys :: "(string \<times> json) list \<Rightarrow> jobj \<Rightarrow> jobj" where
  "with_keys kvs m = fold (\<lambda>(k, v). AList.update k v) kvs m"

definition subscriptionInfoBody :: string where
  "subscriptionInfoBody =
     ''{'' @ nl @ ''  '' @ dq @ ''groups'' @ dq @ '': '' @ text_of celGroups @ '','' @ nl @
     ''  '' @ dq @ ''username'' @ dq @ '': '' @ text_of celUsername @ '','' @ nl @
     ''  '' @ dq @ ''requestedSubscription'' @ dq @ '': '' @ text_of celSubscription @ '','' @ nl @
     ''  '' @ dq @ ''requestedModel'' @ dq @ '': '' @ text_of celModelIdentity @ nl @ ''}''"

definition MaaSAPIServiceName :: "string \<Rightarrow> string" where
  "MaaSAPIServiceName tenantID = (if tenantID \<noteq> [] then ''maas-api-'' @ tenantID else ''maas-api'')"

definition callback_url :: "apReconciler \<Rightarrow> string \<Rightarrow> string \<Rightarrow> string" where
  "callback_url r tenantID path =
     ''https://'' @ MaaSAPIServiceName tenantID @ ''.'' @ ap_InfraNamespace r @ ''.svc.cluster.local:8443'' @ path"

text \<open>
  \<open>guardrailHeaders\<close> is \<open>None\<close> for the base policy, which has no guardrail catalog at all.
\<close>

definition policy_rules ::
  "apReconciler \<Rightarrow> oidcConfig option \<Rightarrow> bool \<Rightarrow> string \<Rightarrow> guardrailHeader list option \<Rightarrow> jobj" where
  "policy_rules r oidc xAPIKeyEnabled tenantID guardrailHeaders =
     (case apiKeyCELPredicates xAPIKeyEnabled of (p, q, k) \<Rightarrow>
      let isAPIKey = text_of p; isNotAPIKey = text_of q; extractKey = text_of k;
          authValidCacheKey = dq @ ''api-key|'' @ dq @ '' + ('' @ extractKey @ '') + '' @ dq @ ''|'' @ dq @ '' + '' @
            text_of celModelIdentity;
          authenticationRules = with_keys
            ((if xAPIKeyEnabled then [(''api-keys-x-api-key'', x_api_key_rule)] else []) @
             (case oidc of None \<Rightarrow> [] | Some c \<Rightarrow> [(''oidc-identities'', oidc_identities_rule isNotAPIKey c)]))
            (authentication_rules r);
          authorizationRules = with_keys
            ((case guardrailHeaders of None \<Rightarrow> [] | Some hs \<Rightarrow> [(''guardrail-checks-known'', guardrail_rule hs)]) @
             (case oidc of None \<Rightarrow> []
              | Some c \<Rightarrow> [(''oidc-groups-safe'', oidc_groups_rule isNotAPIKey),
                           (''oidc-client-bound'', oidc_client_rule isNotAPIKey c)]))
            (authorization_rules r isAPIKey authValidCacheKey)
      in [(''metadata'', JObj (metadata_rules r (callback_url r tenantID ''/internal/v1/api-keys/validate'')
              (callback_url r tenantID ''/internal/v1/subscriptions/select'') subscriptionInfoBody)),
          (''authentication'', JObj authenticationRules),
          (''authorization'', JObj authorizationRules),
          (''response'', JObj
             [(''success'', JObj
                 [(''headers'', JObj (with_keys
                     (map (\<lambda>h. (gh_Name h, selectedGuardrailHeader (gh_ID h)))
                        (case guardrailHeaders of None \<Rightarrow> [] | Some hs \<Rightarrow> hs))
                     (success_headers oidc isAPIKey isNotAPIKey))),
                  (''filters'', JObj identity_filter)]),
              (''unauthenticated'', unauthenticated_response),
              (''unauthorized'', unauthorized_response)])])"

definition buildGatewayAuthPolicySpec ::
  "apReconciler \<Rightarrow> oidcConfig option \<Rightarrow> bool \<Rightarrow> string \<Rightarrow> string \<Rightarrow> guardrailHeader list option \<Rightarrow> jobj" where
  "buildGatewayAuthPolicySpec r oidc xAPIKeyEnabled tenantID gatewayName guardrailHeaders =
     [(''targetRef'', JObj
         [(''group'', JStr ''gateway.networking.k8s.io''), (''kind'', JStr ''Gateway''), (''name'', JStr gatewayName)]),
      (''defaults'', JObj
         [(''when'', JArr [pred (''request.path != '' @ dq @ ''/maas-api/health'' @ dq @ '' || request.method != '' @
             dq @ ''GET'' @ dq)]),
          (''rules'', JObj (policy_rules r oidc xAPIKeyEnabled tenantID guardrailHeaders))])]"

text \<open>
  \<open>requiredMap\<close> walks the template to a map it then mutates and panics (\<open>None\<close>) when a field
  is not a map; the builder reaches the success headers this way.
\<close>

fun requiredMap :: "jobj \<Rightarrow> string list \<Rightarrow> jobj option" where
  "requiredMap m [] = Some m"
| "requiredMap m (f # fs) = (case map_of m f of Some (JObj m') \<Rightarrow> requiredMap m' fs | _ \<Rightarrow> None)"

section \<open>Subscription headers\<close>

record setters =
  SetNestedMap :: "jobj \<Rightarrow> jobj \<Rightarrow> string list \<Rightarrow> string + jobj"
  SetNestedSlice :: "jobj \<Rightarrow> json list \<Rightarrow> string list \<Rightarrow> string + jobj"

abbreviation subscriptionHeadersAnnotation :: string where
  "subscriptionHeadersAnnotation \<equiv> ''experimental.maas.opendatahub.io/headers''"

text \<open>The keys of the parsed annotation; an annotation that does not parse is skipped.\<close>

definition annotation_names :: "libs \<Rightarrow> string \<Rightarrow> string list" where
  "annotation_names L v =
     (case (parseSubscriptionHeaders L v, unmarshalHeaders L v) of
        (Inr (Some _), Inr (Some headers)) \<Rightarrow> map (\<lambda>(name, _). ToLower name) headers
      | _ \<Rightarrow> [])"

definition subscriptionHeaderNames :: "libs \<Rightarrow> apiError + maasSubscription list \<Rightarrow> apiError + string list" where
  "subscriptionHeaderNames L subscriptions =
     (case subscriptions of
        Inl e \<Rightarrow> Inl e
      | Inr items \<Rightarrow>
        Inr (sort (remdups (concat (map (\<lambda>s.
          annotation_names L (label_value (om_Annotations (ms_meta s)) subscriptionHeadersAnnotation)) items)))))"

definition managedSubscriptionHeaderName :: "string \<Rightarrow> bool" where
  "managedSubscriptionHeaderName name \<longleftrightarrow> HasPrefix (ToLower name) ''x-grid-''"

definition stale_header :: "string list \<Rightarrow> string \<Rightarrow> bool" where
  "stale_header names name \<longleftrightarrow> managedSubscriptionHeaderName (ToLower name) \<and> ToLower name \<notin> set names"

definition subscriptionHeadersDenyPredicate :: "string list \<Rightarrow> string" where
  "subscriptionHeadersDenyPredicate names =
     (if names = [] then ''request.headers.all(name, !name.startsWith('' @ dq @ ''x-grid-'' @ dq @ ''))''
      else ''request.headers.all(name, !name.startsWith('' @ dq @ ''x-grid-'' @ dq @ '') || name in '' @
        MarshalStrings names @ '')'')"

definition subscriptionInfoHeadersExpr :: "string \<Rightarrow> json" where
  "subscriptionInfoHeadersExpr name =
     JObj
       [(''plain'', expr
           (''has(auth.metadata) && '' @ dq @ ''subscription-info'' @ dq @ '' in auth.metadata && '' @
            dq @ ''headers'' @ dq @ '' in auth.metadata['' @ dq @ ''subscription-info'' @ dq @ ''] && '' @
            Quote name @ '' in auth.metadata['' @ dq @ ''subscription-info'' @ dq @ ''].headers '' @
            ''? auth.metadata['' @ dq @ ''subscription-info'' @ dq @ ''].headers['' @ Quote name @ ''].join('' @
            dq @ '', '' @ dq @ '') : '' @ dq @ dq)),
        (''metrics'', JBool False),
        (''priority'', JInt 0)]"

abbreviation headers_path :: "string list" where
  "headers_path \<equiv> [''defaults'', ''rules'', ''response'', ''success'', ''headers'']"

abbreviation patterns_path :: "string list" where
  "patterns_path \<equiv> [''defaults'', ''rules'', ''authorization'', ''deny-client-identity-headers'', ''patternMatching'', ''patterns'']"

definition applySubscriptionHeaders :: "libs \<Rightarrow> setters \<Rightarrow> jobj \<Rightarrow> string list \<Rightarrow> string + jobj" where
  "applySubscriptionHeaders L S spec names =
     (case NestedMap L spec headers_path of
        (_, _, Some e) \<Rightarrow> Inl e
      | (_, False, None) \<Rightarrow> Inl ''gateway response headers are missing''
      | (hs, True, None) \<Rightarrow>
        let kept = filter (\<lambda>(name, _). \<not> stale_header names name) hs;
            written = with_keys (map (\<lambda>n. (n, subscriptionInfoHeadersExpr n)) names) kept
        in bind_res (SetNestedMap S spec written headers_path) (\<lambda>spec'.
           (case NestedSlice L spec' patterns_path of
              (_, _, Some e) \<Rightarrow> Inl e
            | (_, False, None) \<Rightarrow> Inl ''gateway identity-header deny patterns are missing''
            | (patterns, True, None) \<Rightarrow>
              SetNestedSlice S spec' (patterns @ [pred (subscriptionHeadersDenyPredicate names)]) patterns_path)))"

definition basePolicyHasStaleSubscriptionHeaderFields :: "libs \<Rightarrow> jobj \<Rightarrow> string list \<Rightarrow> bool" where
  "basePolicyHasStaleSubscriptionHeaderFields L current names =
     (case NestedMap L current headers_path of
        (hs, True, None) \<Rightarrow> list_ex (\<lambda>(name, _). stale_header names name) hs
      | _ \<Rightarrow> False)"

definition basePolicyHasStaleGuardrailFields :: "libs \<Rightarrow> jobj \<Rightarrow> bool" where
  "basePolicyHasStaleGuardrailFields L current \<longleftrightarrow>
     (case NestedMap L current [''defaults'', ''rules'', ''authorization''] of
        (authorization, True, None) \<Rightarrow> map_of authorization ''guardrail-checks-known'' \<noteq> None
      | _ \<Rightarrow> False) \<or>
     (case NestedMap L current headers_path of
        (hs, True, None) \<Rightarrow> list_ex (\<lambda>(name, _). HasPrefix (ToLower name) ''x-aigateway-guardrail-'') hs
      | _ \<Rightarrow> False)"

section \<open>Paths of the specification\<close>

lemma set_update: "set (AList.update k v m) \<subseteq> insert (k, v) (set m)"
  by (induction m) auto

lemma set_with_keys: "set (with_keys kvs m) \<subseteq> set kvs \<union> set m"
proof (induction kvs arbitrary: m)
  case Nil
  then show ?case by (simp add: with_keys_def)
next
  case (Cons kv kvs)
  have "with_keys (kv # kvs) m = with_keys kvs (AList.update (fst kv) (snd kv) m)"
    by (simp add: with_keys_def split_def)
  with Cons [of "AList.update (fst kv) (snd kv) m"] set_update [of "fst kv" "snd kv" m]
  show ?case by auto
qed

lemma map_of_with_keys: "k \<notin> fst ` set kvs \<Longrightarrow> map_of (with_keys kvs m) k = map_of m k"
proof (induction kvs arbitrary: m)
  case Nil
  then show ?case by (simp add: with_keys_def)
next
  case (Cons kv kvs)
  have "with_keys (kv # kvs) m = with_keys kvs (AList.update (fst kv) (snd kv) m)"
    by (simp add: with_keys_def split_def)
  with Cons show ?case by (simp add: update_conv')
qed

text \<open>The rules as the specification holds them.\<close>

definition final_authorization :: "apReconciler \<Rightarrow> oidcConfig option \<Rightarrow> bool \<Rightarrow> guardrailHeader list option \<Rightarrow> jobj" where
  "final_authorization r oidc x gh =
     (case apiKeyCELPredicates x of (p, q, k) \<Rightarrow>
      with_keys
        ((case gh of None \<Rightarrow> [] | Some hs \<Rightarrow> [(''guardrail-checks-known'', guardrail_rule hs)]) @
         (case oidc of None \<Rightarrow> []
          | Some c \<Rightarrow> [(''oidc-groups-safe'', oidc_groups_rule (text_of q)), (''oidc-client-bound'', oidc_client_rule (text_of q) c)]))
        (authorization_rules r (text_of p) (dq @ ''api-key|'' @ dq @ '' + ('' @ text_of k @ '') + '' @ dq @ ''|'' @ dq @
           '' + '' @ text_of celModelIdentity)))"

definition final_headers :: "oidcConfig option \<Rightarrow> bool \<Rightarrow> guardrailHeader list option \<Rightarrow> jobj" where
  "final_headers oidc x gh =
     (case apiKeyCELPredicates x of (p, q, k) \<Rightarrow>
      with_keys (map (\<lambda>h. (gh_Name h, selectedGuardrailHeader (gh_ID h))) (case gh of None \<Rightarrow> [] | Some hs \<Rightarrow> hs))
        (success_headers oidc (text_of p) (text_of q)))"

lemma walk_step: "walk m (k # l # ks) = (case map_of m k of Some (JObj m') \<Rightarrow> walk m' (l # ks) | _ \<Rightarrow> None)"
  by simp

lemma walk_rules:
  "walk (buildGatewayAuthPolicySpec r oidc x tenantID gw gh) (''defaults'' # ''rules'' # k # ks)
     = walk (policy_rules r oidc x tenantID gh) (k # ks)"
  by (simp add: buildGatewayAuthPolicySpec_def)

lemma rules_authorization:
  "map_of (policy_rules r oidc x tenantID gh) ''authorization'' = Some (JObj (final_authorization r oidc x gh))"
  by (simp add: policy_rules_def final_authorization_def Let_def split: prod.splits)

lemma rules_metadata:
  "map_of (policy_rules r oidc x tenantID gh) ''metadata''
     = Some (JObj (metadata_rules r (callback_url r tenantID ''/internal/v1/api-keys/validate'')
         (callback_url r tenantID ''/internal/v1/subscriptions/select'') subscriptionInfoBody))"
  by (cases "apiKeyCELPredicates x") (simp add: policy_rules_def Let_def)

lemma walk_authorization:
  "walk (buildGatewayAuthPolicySpec r oidc x tenantID gw gh) (''defaults'' # ''rules'' # ''authorization'' # k # ks)
     = walk (final_authorization r oidc x gh) (k # ks)"
  unfolding walk_rules by (simp only: walk_step rules_authorization option.case json.case)

lemma walk_metadata:
  "walk (buildGatewayAuthPolicySpec r oidc x tenantID gw gh) (''defaults'' # ''rules'' # ''metadata'' # k # ks)
     = walk (metadata_rules r (callback_url r tenantID ''/internal/v1/api-keys/validate'')
         (callback_url r tenantID ''/internal/v1/subscriptions/select'') subscriptionInfoBody) (k # ks)"
  unfolding walk_rules by (simp only: walk_step rules_metadata option.case json.case)

lemma rules_headers:
  "walk (policy_rules r oidc x tenantID gh) [''response'', ''success'', ''headers''] = Some (JObj (final_headers oidc x gh))"
  by (simp add: policy_rules_def final_headers_def Let_def split: prod.splits)

lemma requiredMap_headers:
  "requiredMap (policy_rules r oidc x tenantID gh) [''response'', ''success'', ''headers''] = Some (final_headers oidc x gh)"
  by (simp add: policy_rules_def final_headers_def Let_def split: prod.splits)

section \<open>Cache lifetimes\<close>

definition rule_ttl :: "json \<Rightarrow> json option" where
  "rule_ttl rule = (case rule of JObj m \<Rightarrow> walk m [''cache'', ''ttl''] | _ \<Rightarrow> None)"

lemma walk_rule_ttl: "walk m [k, ''cache'', ''ttl''] = Option.bind (map_of m k) rule_ttl"
  by (auto simp: rule_ttl_def split: option.splits json.splits)

lemma authorization_rules_ttl:
  "list_all (\<lambda>(n, rule). rule_ttl rule \<in> {None, Some (JInt (authzCacheTTL r))}) (authorization_rules r p key)"
  by (simp add: authorization_rules_def rule_ttl_def)

lemma metadata_rules_ttl:
  "list_all (\<lambda>(n, rule). rule_ttl rule = Some (JInt (ap_MetadataCacheTTL r))) (metadata_rules r u v body)"
  by (simp add: metadata_rules_def rule_ttl_def)

lemma final_authorization_ttl:
  assumes "map_of (final_authorization r oidc x gh) n = Some rule"
  shows "rule_ttl rule \<in> {None, Some (JInt (authzCacheTTL r))}"
proof -
  from assms have "(n, rule) \<in> set (final_authorization r oidc x gh)" by (rule map_of_SomeD)
  moreover have "rule_ttl (guardrail_rule hs) = None" "rule_ttl (oidc_groups_rule q) = None"
    "rule_ttl (oidc_client_rule q c) = None" for hs q c
    by (simp_all add: rule_ttl_def guardrail_rule_def oidc_groups_rule_def oidc_client_rule_def)
  ultimately show ?thesis
    using authorization_rules_ttl unfolding final_authorization_def list_all_iff
    by (fastforce dest!: set_with_keys [THEN subsetD] split: prod.splits option.splits)
qed

text \<open>
  A cached authorization decision does not outlive the metadata it rests on. In every
  policy the controller builds, the time to live of each cached authorization rule is not
  negative and at most the time to live of each cached metadata evaluator, whatever the two
  configured values are.
\<close>

theorem authorization_ttl_bounded:
  assumes "walk (buildGatewayAuthPolicySpec r oidc x tenantID gw gh)
      [''defaults'', ''rules'', ''authorization'', rule, ''cache'', ''ttl''] = Some (JInt a)"
    and "walk (buildGatewayAuthPolicySpec r oidc x tenantID gw gh)
      [''defaults'', ''rules'', ''metadata'', evaluator, ''cache'', ''ttl''] = Some (JInt b)"
  shows "0 \<le> a \<and> a \<le> max 0 b"
proof -
  from assms(1) have "Option.bind (map_of (final_authorization r oidc x gh) rule) rule_ttl = Some (JInt a)"
    unfolding walk_authorization walk_rule_ttl .
  then have "a = authzCacheTTL r"
    using final_authorization_ttl by (fastforce simp: Option.bind_eq_Some_conv)
  moreover from assms(2) have "Option.bind (map_of (metadata_rules r (callback_url r tenantID ''/internal/v1/api-keys/validate'')
         (callback_url r tenantID ''/internal/v1/subscriptions/select'') subscriptionInfoBody) evaluator) rule_ttl = Some (JInt b)"
    unfolding walk_metadata walk_rule_ttl .
  then have "b = ap_MetadataCacheTTL r"
    using metadata_rules_ttl by (fastforce simp: Option.bind_eq_Some_conv list_all_iff dest!: map_of_SomeD)
  ultimately show ?thesis by (auto simp: authzCacheTTL_def Let_def)
qed

section \<open>Headers that a client cannot set\<close>

text \<open>
  What the code relies on in the \<open>unstructured\<close> package: a nested map or slice that is
  there is read, and writing one at a path that exists succeeds, is read back and leaves
  every path apart that does not pass through it.
\<close>

definition wrote :: "jobj \<Rightarrow> jobj \<Rightarrow> string list \<Rightarrow> json \<Rightarrow> bool" where
  "wrote m m' ks v \<longleftrightarrow> walk m' ks = Some v \<and>
     (\<forall>ks'. \<not> prefix ks ks' \<longrightarrow> \<not> prefix ks' ks \<longrightarrow> walk m' ks' = walk m ks')"

definition nested_access :: "libs \<Rightarrow> setters \<Rightarrow> bool" where
  "nested_access L S \<longleftrightarrow>
     (\<forall>m ks v. walk m ks = Some (JObj v) \<longrightarrow> NestedMap L m ks = (v, True, None)) \<and>
     (\<forall>m ks v. walk m ks = Some (JArr v) \<longrightarrow> NestedSlice L m ks = (v, True, None)) \<and>
     (\<forall>m ks u v. walk m ks = Some (JObj u) \<longrightarrow> ks \<noteq> [] \<longrightarrow>
        (\<exists>m'. SetNestedMap S m v ks = Inr m' \<and> wrote m m' ks (JObj v))) \<and>
     (\<forall>m ks u v. walk m ks = Some (JArr u) \<longrightarrow> ks \<noteq> [] \<longrightarrow>
        (\<exists>m'. SetNestedSlice S m v ks = Inr m' \<and> wrote m m' ks (JArr v)))"

text \<open>The header that a response entry sets, and the ways a client's copy of it is kept out.\<close>

definition effective_name :: "string \<Rightarrow> jobj \<Rightarrow> string" where
  "effective_name n h = ToLower (case field as_string h ''key'' of Some k \<Rightarrow> k | None \<Rightarrow> n)"

definition deny_text :: "string \<Rightarrow> string" where
  "deny_text h = ''!('' @ dq @ h @ dq @ '' in request.headers)''"

definition guardrail_deny :: string where
  "guardrail_deny = ''request.headers.all(name, !name.startsWith('' @ dq @ ''x-aigateway-guardrail-'' @ dq @ ''))''"

definition kept_out :: "json list \<Rightarrow> string \<Rightarrow> json \<Rightarrow> bool" where
  "kept_out patterns n v =
     (case v of
        JObj h \<Rightarrow>
          map_of h ''when'' = None \<or>
          pred (deny_text (effective_name n h)) \<in> set patterns \<or>
          HasPrefix (effective_name n h) ''x-aigateway-guardrail-'' \<and> pred guardrail_deny \<in> set patterns
      | _ \<Rightarrow> False)"

text \<open>
  The entry of the subscription header. It is set only for a validated API key that is bound to
  a subscription; a client that authenticates with a token names its subscription in the
  header itself, so that requests carrying it cannot be denied.
\<close>

definition key_subscription_only :: "string \<Rightarrow> json \<Rightarrow> bool" where
  "key_subscription_only n v \<longleftrightarrow>
     n = ''X-MaaS-Subscription'' \<and>
     (\<exists>h. v = JObj h \<and> map_of h ''when'' =
        Some (JArr [pred (''has(auth.metadata) && has(auth.metadata.apiKeyValidation) && auth.metadata.apiKeyValidation.subscription != '' @
          dq @ dq)]))"

definition identity_patterns :: "json list" where
  "identity_patterns =
     map (pred \<circ> deny_text)
       [''x-maas-username'', ''x-maas-group'', ''x-maas-exact-groups'', ''x-maas-keyname'',
        ''x-maas-subscription-rate-limit-id'', ''x-maas-organization-id'', ''x-maas-cost-center'',
        ''x-maas-identity'', ''x-maas-admin-scope''] @ [pred guardrail_deny]"

lemma authorization_patterns:
  "walk (authorization_rules r p key) [''deny-client-identity-headers'', ''patternMatching'', ''patterns'']
     = Some (JArr identity_patterns)"
  by (simp add: authorization_rules_def identity_patterns_def deny_text_def guardrail_deny_def)

lemma walk_with_keys: "k \<notin> fst ` set kvs \<Longrightarrow> walk (with_keys kvs m) (k # l # ks) = walk m (k # l # ks)"
  by (simp add: map_of_with_keys)

lemma walk_patterns:
  "walk (buildGatewayAuthPolicySpec r oidc x tenantID gw gh) patterns_path = Some (JArr identity_patterns)"
  unfolding walk_authorization final_authorization_def
  by (cases "apiKeyCELPredicates x", simp only: prod.case, subst walk_with_keys)
    (simp_all only: authorization_patterns, auto split: option.splits)

lemma walk_headers:
  "walk (buildGatewayAuthPolicySpec r oidc x tenantID gw gh) headers_path = Some (JObj (final_headers oidc x gh))"
  unfolding walk_rules by (rule rules_headers)

lemma lower_names:
  "ToLower ''X-MaaS-Username'' = ''x-maas-username''" "ToLower ''X-MaaS-Group'' = ''x-maas-group''"
  "ToLower ''X-MaaS-Subscription'' = ''x-maas-subscription''" "ToLower ''x-maas-keyname'' = ''x-maas-keyname''"
  "ToLower ''X-MaaS-Subscription-Rate-Limit-Id'' = ''x-maas-subscription-rate-limit-id''"
  "ToLower ''X-MaaS-Cost-Center'' = ''x-maas-cost-center''" "ToLower ''X-MaaS-Identity'' = ''x-maas-identity''"
  by code_simp+

lemma success_headers_kept_out:
  assumes "set identity_patterns \<subseteq> set ps"
  shows "list_all (\<lambda>(n, v). kept_out ps n v \<or> key_subscription_only n v) (success_headers oidc p q)"
proof -
  have deny: "pred (deny_text h) \<in> set ps"
    if "h \<in> {''x-maas-username'', ''x-maas-group'', ''x-maas-keyname'', ''x-maas-subscription-rate-limit-id'',
      ''x-maas-cost-center'', ''x-maas-identity''}" for h
    using assms that unfolding identity_patterns_def by auto
  show ?thesis
    unfolding success_headers_def
    by (simp add: kept_out_def key_subscription_only_def effective_name_def field_def lower_names deny subscriptionInfoHeader_def
        subscriptionInfoStringHeader_def verifiedIdentityHeader_def)
qed

lemma guardrail_header_kept_out:
  assumes "set identity_patterns \<subseteq> set ps" and "HasPrefix (ToLower n) ''x-aigateway-guardrail-''"
  shows "kept_out ps n (selectedGuardrailHeader checkID)"
  using assms
  by (auto simp: kept_out_def selectedGuardrailHeader_def Let_def effective_name_def field_def identity_patterns_def)

lemma subscription_header_kept_out: "kept_out ps n (subscriptionInfoHeadersExpr m)"
  by (simp add: kept_out_def subscriptionInfoHeadersExpr_def)

lemma final_headers_kept_out:
  assumes "set identity_patterns \<subseteq> set ps"
    and "list_all (\<lambda>h. HasPrefix (ToLower (gh_Name h)) ''x-aigateway-guardrail-'') (case gh of None \<Rightarrow> [] | Some hs \<Rightarrow> hs)"
    and "(n, v) \<in> set (final_headers oidc x gh)"
  shows "kept_out ps n v \<or> key_subscription_only n v"
proof -
  obtain p q k where pqk: "apiKeyCELPredicates x = (p, q, k)" by (cases "apiKeyCELPredicates x")
  from assms(3) have "(n, v) \<in> set (map (\<lambda>h. (gh_Name h, selectedGuardrailHeader (gh_ID h)))
      (case gh of None \<Rightarrow> [] | Some hs \<Rightarrow> hs)) \<union> set (success_headers oidc (text_of p) (text_of q))"
    unfolding final_headers_def pqk prod.case by (rule subsetD [OF set_with_keys])
  then show ?thesis
    using success_headers_kept_out [OF assms(1)] assms(2) guardrail_header_kept_out [OF assms(1)]
    unfolding list_all_iff by fastforce
qed

lemma paths_apart:
  "\<not> prefix headers_path patterns_path" "\<not> prefix patterns_path headers_path"
  by simp_all

text \<open>The headers and deny patterns once the subscription headers are applied.\<close>

definition applied_headers :: "string list \<Rightarrow> jobj \<Rightarrow> jobj" where
  "applied_headers names hs =
     with_keys (map (\<lambda>n. (n, subscriptionInfoHeadersExpr n)) names) (filter (\<lambda>(name, _). \<not> stale_header names name) hs)"

definition applied_patterns :: "string list \<Rightarrow> json list" where
  "applied_patterns names = identity_patterns @ [pred (subscriptionHeadersDenyPredicate names)]"

lemma applied_spec:
  fixes r oidc x tenantID gw gh names
  assumes "nested_access L S"
  defines "base \<equiv> buildGatewayAuthPolicySpec r oidc x tenantID gw gh"
    and "hs \<equiv> applied_headers names (final_headers oidc x gh)"
  obtains spec1 spec where "applySubscriptionHeaders L S base names = Inr spec"
    "SetNestedMap S base hs headers_path = Inr spec1" "SetNestedSlice S spec1 (applied_patterns names) patterns_path = Inr spec"
    "wrote base spec1 headers_path (JObj hs)" "wrote spec1 spec patterns_path (JArr (applied_patterns names))"
    "walk spec headers_path = Some (JObj hs)" "walk spec patterns_path = Some (JArr (applied_patterns names))"
proof -
  let ?ps = "applied_patterns names"
  from assms(1) walk_headers [of r oidc x tenantID gw gh] have read: "NestedMap L base headers_path = (final_headers oidc x gh, True, None)"
    unfolding nested_access_def base_def by blast
  from assms(1) walk_headers [of r oidc x tenantID gw gh] obtain spec1
    where spec1: "SetNestedMap S base hs headers_path = Inr spec1" "wrote base spec1 headers_path (JObj hs)"
    unfolding nested_access_def base_def by blast
  from spec1(2) have "walk spec1 patterns_path = walk base patterns_path"
    unfolding wrote_def using paths_apart by blast
  then have patterns1: "walk spec1 patterns_path = Some (JArr identity_patterns)"
    by (simp only: walk_patterns base_def)
  from assms(1) patterns1 have slice: "NestedSlice L spec1 patterns_path = (identity_patterns, True, None)"
    unfolding nested_access_def by blast
  from assms(1) patterns1 obtain spec2
    where spec2: "SetNestedSlice S spec1 ?ps patterns_path = Inr spec2" "wrote spec1 spec2 patterns_path (JArr ?ps)"
    unfolding nested_access_def by blast
  have "applySubscriptionHeaders L S base names = Inr spec2"
    using spec1(1) spec2(1) unfolding hs_def applied_headers_def applied_patterns_def
    unfolding applySubscriptionHeaders_def read prod.case option.case bool.case Let_def by (simp only: bind_res_simps slice prod.case option.case bool.case)
  moreover have "walk spec2 headers_path = walk spec1 headers_path"
    using spec2(2) unfolding wrote_def using paths_apart by blast
  with spec1(2) have "walk spec2 headers_path = Some (JObj hs)" unfolding wrote_def by (simp only:)
  moreover have "walk spec2 patterns_path = Some (JArr ?ps)" using spec2(2) unfolding wrote_def by blast
  ultimately show thesis using spec1 spec2 that by blast
qed

text \<open>
  C9. No client-supplied copy of a header that the gateway asserts reaches a backend, the
  subscription header apart. For every configuration the policy that the controller writes
  is built without an error, and each response header in it is set on every request, or
  requests that carry it are denied by one of the policy's patterns. The only other entry is
  \<open>X-MaaS-Subscription\<close>: it overwrites the header exactly for API keys that are bound to a
  subscription, and for other clients the header is their own choice of a subscription.
\<close>

theorem gateway_headers_not_spoofable:
  assumes "nested_access L S"
    and "list_all (\<lambda>h. HasPrefix (ToLower (gh_Name h)) ''x-aigateway-guardrail-'') (case gh of None \<Rightarrow> [] | Some hs \<Rightarrow> hs)"
  shows "\<exists>spec hs ps. applySubscriptionHeaders L S (buildGatewayAuthPolicySpec r oidc x tenantID gw gh) names = Inr spec \<and>
    walk spec headers_path = Some (JObj hs) \<and> walk spec patterns_path = Some (JArr ps) \<and>
    list_all (\<lambda>(n, v). kept_out ps n v \<or> key_subscription_only n v) hs"
proof -
  let ?hs = "applied_headers names (final_headers oidc x gh)" and ?ps = "applied_patterns names"
  have ps: "set identity_patterns \<subseteq> set ?ps" unfolding applied_patterns_def by auto
  have each: "kept_out ?ps n v \<or> key_subscription_only n v" if "(n, v) \<in> set ?hs" for n v
  proof -
    have "(n, v) \<in> set (map (\<lambda>n. (n, subscriptionInfoHeadersExpr n)) names) \<union>
        set (filter (\<lambda>(name, _). \<not> stale_header names name) (final_headers oidc x gh))"
      using that unfolding applied_headers_def by (rule subsetD [OF set_with_keys])
    then have "v = subscriptionInfoHeadersExpr n \<or> (n, v) \<in> set (final_headers oidc x gh)" by auto
    then show ?thesis
      using subscription_header_kept_out final_headers_kept_out [OF ps assms(2)] by blast
  qed
  have "list_all (\<lambda>(n, v). kept_out ?ps n v \<or> key_subscription_only n v) ?hs"
    unfolding list_all_iff
  proof
    fix e assume e: "e \<in> set ?hs"
    obtain n v where nv: "e = (n, v)" by (cases e)
    show "case e of (n, v) \<Rightarrow> kept_out ?ps n v \<or> key_subscription_only n v"
      using each [OF e [unfolded nv]] unfolding nv prod.case .
  qed
  then show ?thesis
    using applied_spec [OF assms(1), of r oidc x tenantID gw gh names "?thesis"] by blast
qed

section \<open>Concrete policies\<close>

fun put_path :: "jobj \<Rightarrow> string list \<Rightarrow> json \<Rightarrow> jobj" where
  "put_path m [] v = m"
| "put_path m [k] v = AList.update k v m"
| "put_path m (k # l # ks) v =
     (case map_of m k of Some (JObj m') \<Rightarrow> AList.update k (JObj (put_path m' (l # ks) v)) m | _ \<Rightarrow> m)"

definition ex_setters :: setters where
  "ex_setters = \<lparr>SetNestedMap = (\<lambda>m v ks. Inr (put_path m ks (JObj v))),
     SetNestedSlice = (\<lambda>m v ks. Inr (put_path m ks (JArr v)))\<rparr>"

lemma put_path_read: "walk m ks \<noteq> None \<Longrightarrow> ks \<noteq> [] \<Longrightarrow> walk (put_path m ks v) ks = Some v"
  by (induction m ks v rule: put_path.induct) (auto simp: update_conv' split: option.splits json.splits)

lemma put_path_apart:
  "\<not> prefix ks ks' \<Longrightarrow> \<not> prefix ks' ks \<Longrightarrow> walk (put_path m ks v) ks' = walk m ks'"
proof (induction m ks v arbitrary: ks' rule: put_path.induct)
  case (1 m v)
  then show ?case by simp
next
  case (2 m k v)
  then show ?case by (cases ks' rule: remdups_adj.cases) (auto simp: update_conv')
next
  case (3 m k l ks v)
  show ?case
  proof (cases "map_of m k")
    case (Some w)
    then show ?thesis
      using 3 by (cases w; cases ks' rule: remdups_adj.cases) (auto simp: update_conv')
  qed simp
qed

lemma ex_nested_access: "nested_access example_libs ex_setters"
  unfolding nested_access_def wrote_def ex_setters_def
  by (auto simp: example_libs_def walk_as_def put_path_read put_path_apart)

definition ex_ap :: apReconciler where
  "ex_ap = \<lparr>ap_settings = \<lparr>st_DefaultTenantNamespace = ''maas'', st_Discovery = False, st_GatewayName = ''gw'',
       st_GatewayNamespace = ''ingress'', st_AppNamespace = ''infra''\<rparr>,
     ap_InfraNamespace = ''infra'', ap_ClusterAudience = ''https://kubernetes.default.svc'',
     ap_MetadataCacheTTL = 60, ap_AuthzCacheTTL = 300\<rparr>"

lemma ex_ttls:
  "walk (buildGatewayAuthPolicySpec ex_ap None False [] ''gw'' None)
     [''defaults'', ''rules'', ''authorization'', ''auth-valid'', ''cache'', ''ttl''] = Some (JInt 60)"
  "walk (buildGatewayAuthPolicySpec ex_ap None False [] ''gw'' None)
     [''defaults'', ''rules'', ''metadata'', ''subscription-info'', ''cache'', ''ttl''] = Some (JInt 60)"
  unfolding walk_authorization walk_metadata
  by (simp_all add: final_authorization_def with_keys_def apiKeyCELPredicates_def authorization_rules_def
      metadata_rules_def authzCacheTTL_def ex_ap_def)

lemma authorization_ttl_bounded_witness:
  "walk (buildGatewayAuthPolicySpec ex_ap None False [] ''gw'' None)
     [''defaults'', ''rules'', ''authorization'', ''auth-valid'', ''cache'', ''ttl''] = Some (JInt 60) \<and>
   (0 :: int) \<le> 60 \<and> (60 :: int) \<le> max 0 60"
  using authorization_ttl_bounded [OF ex_ttls] ex_ttls(1) by blast

lemma gateway_headers_not_spoofable_witness:
  "\<exists>spec hs ps. applySubscriptionHeaders example_libs ex_setters
       (buildGatewayAuthPolicySpec ex_ap None True [] ''gw''
          (Some [\<lparr>gh_ID = ''a/b/c'', gh_Name = ''X-AIGateway-Guardrail-abc''\<rparr>])) [''x-grid-tier''] = Inr spec \<and>
     walk spec headers_path = Some (JObj hs) \<and> walk spec patterns_path = Some (JArr ps) \<and>
     list_all (\<lambda>(n, v). kept_out ps n v \<or> key_subscription_only n v) hs"
proof -
  have "HasPrefix (ToLower ''X-AIGateway-Guardrail-abc'') ''x-aigateway-guardrail-''" by code_simp
  then show ?thesis by (intro gateway_headers_not_spoofable ex_nested_access) simp
qed

end
