(* ===== verification/GuardrailCatalog.thy ===== *)
theory GuardrailCatalog
  imports GuardrailCompose GatewayAuthSpec
begin

text \<open>
  The guardrail catalog of a tenant (\<open>maas-controller/pkg/controller/maas/guardrail_headers.go\<close>,
  \<open>guardrail_watch.go\<close>): every check that a subscription of the tenant can select, with the
  request header that reports it. The controller renders the catalog into the gateway policy,
  which rejects a selection with an unknown check, so the catalog has to contain what the API
  server's resolver (theory \<open>GuardrailCompose\<close>) selects. Reads of the cluster are the record
  \<open>catalogReads\<close>, the AI gateway module the record \<open>aigateway\<close> and the argument
  \<open>headerName\<close> for its \<open>CheckHeaderName\<close>.
\<close>

section \<open>Objects\<close>

record catalogConfig =
  cc_meta :: objectMeta
  cc_Guardrails :: "attachment list"

record catalogTenant =
  ct_meta :: objectMeta
  ct_TenantNamespace :: string
  ct_Guardrails :: "attachment list"

record catalogSubscription =
  cs_meta :: objectMeta
  cs_Guardrails :: "attachment list"
  cs_ModelRefs :: "modelEntrySelection list"

record catalogModel =
  cm_meta :: objectMeta
  cm_ResolvedTenantRef :: string
  cm_Guardrails :: "attachment list"

record catalogReads =
  cr_tenantConfig :: "string \<Rightarrow> apiError + catalogConfig"
  cr_namespace :: "string \<Rightarrow> apiError + labelMap"
  cr_aitenant :: "string \<Rightarrow> string \<Rightarrow> apiError + catalogTenant"
  cr_subscriptions :: "string \<Rightarrow> apiError + catalogSubscription list"
  cr_model :: "string \<Rightarrow> string \<Rightarrow> apiError + catalogModel"
  cr_policy :: "string \<Rightarrow> string \<Rightarrow> apiError + policy"

datatype catalogError =
    CatalogApi apiError
  | ConfigMissing
  | OwnerMissing
  | OwnerIncomplete
  | OwnerMismatch
  | CatalogCompose composeError

abbreviation DefaultAITenantNamespace :: string where "DefaultAITenantNamespace \<equiv> ''ai-tenants''"

section \<open>The catalog\<close>

definition isDefaultTenantNamespace :: "settings \<Rightarrow> string \<Rightarrow> bool" where
  "isDefaultTenantNamespace S namespace \<longleftrightarrow>
     namespace = (if st_DefaultTenantNamespace S = [] then DefaultAITenantName else st_DefaultTenantNamespace S)"

definition isAITenantManagedNamespace :: "catalogReads \<Rightarrow> string \<Rightarrow> catalogError + bool" where
  "isAITenantManagedNamespace R namespace =
     (case cr_namespace R namespace of
        Inl e \<Rightarrow> Inl (CatalogApi e)
      | Inr labels \<Rightarrow> Inr (label_value labels LabelManagedByAITenant = ''true''))"

definition owningAITenant :: "settings \<Rightarrow> catalogReads \<Rightarrow> catalogConfig \<Rightarrow> catalogError + catalogTenant" where
  "owningAITenant S R tenantConfig =
     (let name = label_value (om_Annotations (cc_meta tenantConfig)) AnnotationAITenantName;
          namespace = label_value (om_Annotations (cc_meta tenantConfig)) AnnotationAITenantNamespace;
          get = (\<lambda>namespace name.
            case cr_aitenant R namespace name of
              Inl e \<Rightarrow> Inl (CatalogApi e)
            | Inr aitenant \<Rightarrow>
              if ct_TenantNamespace aitenant \<noteq> om_Namespace (cc_meta tenantConfig) then Inl OwnerMismatch
              else Inr aitenant)
      in if name = [] \<and> namespace = [] then
           (if \<not> isDefaultTenantNamespace S (om_Namespace (cc_meta tenantConfig)) then Inl OwnerMissing
            else get DefaultAITenantNamespace DefaultAITenantName)
         else if name = [] \<or> namespace = [] then Inl OwnerIncomplete
         else get namespace name)"

definition policy_reader :: "catalogReads \<Rightarrow> string \<Rightarrow> string \<Rightarrow> readError + policy" where
  "policy_reader R namespace name =
     (case cr_policy R namespace name of
        Inl ApiNotFound \<Rightarrow> Inl ErrPolicyNotFound
      | Inl _ \<Rightarrow> Inl ErrReadFailure
      | Inr p \<Rightarrow> Inr p)"

definition object_ref :: "objectMeta \<Rightarrow> resourceRef" where
  "object_ref m = \<lparr>ref_Namespace = om_Namespace m, ref_Name = om_Name m, ref_UID = om_UID m\<rparr>"

type_synonym mapOrder = "(checkKey \<times> selectedCheck) list \<Rightarrow> (checkKey \<times> selectedCheck) list"

definition pair_plan ::
  "aigateway \<Rightarrow> mapOrder \<Rightarrow> catalogReads \<Rightarrow> string \<Rightarrow> catalogTenant \<Rightarrow> catalogConfig \<Rightarrow> catalogSubscription
     \<Rightarrow> modelEntrySelection list \<Rightarrow> catalogModel \<Rightarrow> composeError + executionPlan" where
  "pair_plan G iter R tenantNamespace aitenant tenantConfig sub entries model =
     snd (ComposeSubscriptionModelPlan (KnownPhases G) iter (Some (NewAttachmentResolver G (policy_reader R))) tenantNamespace
       (Some (resourceRef.extend (object_ref (ct_meta aitenant)) (tenantSelection.fields (ct_Guardrails aitenant))))
       (Some (resourceRef.extend (object_ref (cc_meta tenantConfig)) (tenantConfigSelection.fields (cc_Guardrails tenantConfig))))
       (Some (resourceRef.extend (object_ref (cs_meta sub)) (subscriptionSelection.fields (cs_Guardrails sub) entries)))
       (Some (resourceRef.extend (object_ref (cm_meta model)) (modelSelection.fields (cm_Guardrails model))))
       (om_Namespace (cm_meta model)) (om_Name (cm_meta model)))"

definition check_id :: "aigateway \<Rightarrow> selectedCheck \<Rightarrow> string" where
  "check_id G c = CheckID G (pi_Namespace (sc_Policy c)) (pi_Name (sc_Policy c)) (ck_Name (sc_Check c))"

definition add_check ::
  "aigateway \<Rightarrow> (string \<Rightarrow> string \<Rightarrow> string \<Rightarrow> string) \<Rightarrow> selectedCheck \<Rightarrow> (string \<times> guardrailHeader) list \<Rightarrow> (string \<times> guardrailHeader) list" where
  "add_check G headerName c =
     AList.update (check_id G c)
       \<lparr>gh_ID = check_id G c,
        gh_Name = headerName (pi_Namespace (sc_Policy c)) (pi_Name (sc_Policy c)) (ck_Name (sc_Check c))\<rparr>"

definition add_entry ::
  "aigateway \<Rightarrow> (string \<Rightarrow> string \<Rightarrow> string \<Rightarrow> string) \<Rightarrow> mapOrder \<Rightarrow> catalogReads \<Rightarrow> string \<Rightarrow> catalogTenant \<Rightarrow> catalogConfig
     \<Rightarrow> catalogSubscription \<Rightarrow> modelEntrySelection \<Rightarrow> (string \<times> guardrailHeader) list \<Rightarrow> catalogError + (string \<times> guardrailHeader) list" where
  "add_entry G headerName iter R tenantNamespace aitenant tenantConfig sub entry headers =
     (case cr_model R (me_Namespace entry) (me_Name entry) of
        Inl ApiNotFound \<Rightarrow> Inr headers
      | Inl e \<Rightarrow> Inl (CatalogApi e)
      | Inr model \<Rightarrow>
        if cm_ResolvedTenantRef model \<noteq> om_Name (ct_meta aitenant) then Inr headers
        else
          (case pair_plan G iter R tenantNamespace aitenant tenantConfig sub (cs_ModelRefs sub) model of
             Inl err \<Rightarrow> Inl (CatalogCompose err)
           | Inr plan \<Rightarrow> Inr (fold (add_check G headerName) (Checks plan) headers)))"

definition catalog_managed :: "catalogConfig \<Rightarrow> bool" where
  "catalog_managed tenantConfig \<longleftrightarrow> label_value (om_Labels (cc_meta tenantConfig)) LabelManagedByAITenant = ''true''"

definition guardrailHeaders ::
  "settings \<Rightarrow> aigateway \<Rightarrow> (string \<Rightarrow> string \<Rightarrow> string \<Rightarrow> string) \<Rightarrow> mapOrder \<Rightarrow> catalogReads \<Rightarrow> string
     \<Rightarrow> catalogError + guardrailHeader list option" where
  "guardrailHeaders S G headerName iter R tenantNamespace =
     (case cr_tenantConfig R tenantNamespace of
        Inl ApiNotFound \<Rightarrow>
          bind_res (isAITenantManagedNamespace R tenantNamespace) (\<lambda>managed.
          if managed then Inl ConfigMissing else Inr None)
      | Inl e \<Rightarrow> Inl (CatalogApi e)
      | Inr tenantConfig \<Rightarrow>
        if \<not> catalog_managed tenantConfig then Inr None
        else
          bind_res (owningAITenant S R tenantConfig) (\<lambda>aitenant.
          case cr_subscriptions R tenantNamespace of
            Inl e \<Rightarrow> Inl (CatalogApi e)
          | Inr subscriptions \<Rightarrow>
            bind_res (fold_res (\<lambda>sub. fold_res (add_entry G headerName iter R tenantNamespace aitenant tenantConfig sub)
                (cs_ModelRefs sub)) subscriptions []) (\<lambda>headers.
            Inr (Some (SliceStable (\<lambda>a b. gh_ID a < gh_ID b) (map snd headers))))))"

section \<open>What the catalog holds\<close>

text \<open>The plan of a pair only depends on the one entry of the model.\<close>

definition subscription_view :: "catalogSubscription \<Rightarrow> modelEntrySelection list \<Rightarrow> subscriptionSelection" where
  "subscription_view sub entries =
     resourceRef.extend (object_ref (cs_meta sub)) (subscriptionSelection.fields (cs_Guardrails sub) entries)"

lemma subscription_view_simps:
  "ss_ModelRefs (subscription_view sub es) = es" "ref_Namespace (subscription_view sub es) = om_Namespace (cs_meta sub)"
  by (simp_all add: subscription_view_def object_ref_def subscriptionSelection.defs resourceRef.defs)

lemma selections_entry_only:
  "composeSelections r ns t tc (subscription_view sub es) = composeSelections r ns t tc (subscription_view sub es')"
  by (intro ext) (simp add: composeSelections_def resourceSource_def [abs_def] modelEntrySource_def [abs_def]
      subscription_view_def object_ref_def subscriptionSelection.defs resourceRef.defs)

lemma pair_plan_bind:
  "\<exists>rest. \<forall>es. pair_plan G iter R ns aitenant config sub es model =
     (if om_Namespace (cs_meta sub) \<noteq> ns then Inl (ErrInvalidCompositionInput ''MaaSSubscription namespace'')
      else if om_Namespace (cc_meta config) \<noteq> ns then Inl (ErrInvalidCompositionInput ''MaasTenantConfig namespace'')
      else bind_res (findSubscriptionModelEntry (subscription_view sub es) (om_Namespace (cm_meta model)) (om_Name (cm_meta model))) rest)"
proof -
  let ?r = "NewAttachmentResolver G (policy_reader R)"
  let ?t = "resourceRef.extend (object_ref (ct_meta aitenant)) (tenantSelection.fields (ct_Guardrails aitenant))"
  let ?tc = "resourceRef.extend (object_ref (cc_meta config)) (tenantConfigSelection.fields (cc_Guardrails config))"
  let ?m = "resourceRef.extend (object_ref (cm_meta model)) (modelSelection.fields (cm_Guardrails model))"
  define rest where "rest entry =
    bind_res (composeSelections ?r ns ?t ?tc (subscription_view sub []) entry ?m (om_Namespace (cm_meta model)) (om_Name (cm_meta model)))
      (\<lambda>selections. case Merge (KnownPhases G) iter selections of Inl err \<Rightarrow> Inl (MergeFailed err) | Inr plan \<Rightarrow> Inr plan)" for entry
  have refs: "ref_Namespace ?tc = om_Namespace (cc_meta config)" "ref_Namespace ?m = om_Namespace (cm_meta model)"
    "ref_Name ?m = om_Name (cm_meta model)"
    by (simp_all add: object_ref_def tenantConfigSelection.defs modelSelection.defs resourceRef.defs)
  have "pair_plan G iter R ns aitenant config sub es model =
     (if om_Namespace (cs_meta sub) \<noteq> ns then Inl (ErrInvalidCompositionInput ''MaaSSubscription namespace'')
      else if om_Namespace (cc_meta config) \<noteq> ns then Inl (ErrInvalidCompositionInput ''MaasTenantConfig namespace'')
      else bind_res (findSubscriptionModelEntry (subscription_view sub es) (om_Namespace (cm_meta model)) (om_Name (cm_meta model))) rest)" for es
    unfolding pair_plan_def ComposeSubscriptionModelPlan_def subscription_view_def [symmetric] rest_def
      selections_entry_only [of ?r ns ?t ?tc sub "[]" es]
    by (simp add: Let_def refs subscription_view_simps)
  then show ?thesis by blast
qed

lemma compose_entry_only:
  assumes "pair_plan G iter R ns aitenant config sub entries model = Inr plan"
    and "entry \<in> set entries" and "me_Namespace entry = om_Namespace (cm_meta model)" and "me_Name entry = om_Name (cm_meta model)"
  shows "pair_plan G iter R ns aitenant config sub [entry] model = Inr plan"
proof -
  let ?hit = "\<lambda>r. me_Namespace r = om_Namespace (cm_meta model) \<and> me_Name r = om_Name (cm_meta model)"
  let ?find = "\<lambda>es. findSubscriptionModelEntry (subscription_view sub es) (om_Namespace (cm_meta model)) (om_Name (cm_meta model))"
  obtain rest where plan: "\<And>es. pair_plan G iter R ns aitenant config sub es model =
     (if om_Namespace (cs_meta sub) \<noteq> ns then Inl (ErrInvalidCompositionInput ''MaaSSubscription namespace'')
      else if om_Namespace (cc_meta config) \<noteq> ns then Inl (ErrInvalidCompositionInput ''MaasTenantConfig namespace'')
      else bind_res (?find es) rest)"
    using pair_plan_bind [of G iter R ns aitenant config sub model] by blast
  from assms(1) obtain e where e: "?find entries = Inr e"
    unfolding plan by (auto simp: bind_res_eq_Inr_iff split: if_splits)
  then have hits: "filter ?hit entries = [e]"
    by (simp add: findSubscriptionModelEntry_Inr_iff subscription_view_simps)
  moreover have "entry \<in> set (filter ?hit entries)" using assms(2-4) by simp
  ultimately have "e = entry" by simp
  moreover have "?find [entry] = Inr entry"
    using assms(3,4) by (simp add: findSubscriptionModelEntry_Inr_iff subscription_view_simps)
  ultimately show ?thesis using assms(1) e unfolding plan by (simp split: if_splits)
qed

text \<open>
  The ids that the API server's resolver selects for an entry of a subscription: it composes
  with the one entry of the model, and only for a model of the tenant.
\<close>

definition selectable ::
  "aigateway \<Rightarrow> mapOrder \<Rightarrow> catalogReads \<Rightarrow> string \<Rightarrow> catalogTenant \<Rightarrow> catalogConfig \<Rightarrow> catalogSubscription \<Rightarrow> modelEntrySelection \<Rightarrow> string set" where
  "selectable G iter R ns aitenant config sub entry =
     (case cr_model R (me_Namespace entry) (me_Name entry) of
        Inl _ \<Rightarrow> {}
      | Inr model \<Rightarrow>
        if cm_ResolvedTenantRef model \<noteq> om_Name (ct_meta aitenant) then {}
        else
          (case pair_plan G iter R ns aitenant config sub [entry] model of
             Inl _ \<Rightarrow> {}
           | Inr plan \<Rightarrow> check_id G ` set (Checks plan)))"

definition keyed :: "(string \<times> guardrailHeader) list \<Rightarrow> bool" where
  "keyed hs \<longleftrightarrow> distinct (map fst hs) \<and> list_all (\<lambda>(k, h). gh_ID h = k) hs"

lemma fst_update: "fst ` set (AList.update k v hs) = insert k (fst ` set hs)"
  by (induction hs) auto

lemma keyed_update: "keyed hs \<Longrightarrow> gh_ID h = k \<Longrightarrow> keyed (AList.update k h hs)"
  using set_update [of k h hs] by (auto simp: keyed_def distinct_update list_all_iff)

lemma add_checks:
  "keyed hs \<Longrightarrow> keyed (fold (add_check G headerName) cs hs)"
  "fst ` set (fold (add_check G headerName) cs hs) = fst ` set hs \<union> check_id G ` set cs"
  by (induction cs arbitrary: hs) (auto simp: add_check_def keyed_update fst_update)

lemma fold_res_collects:
  assumes "fold_res f xs s = Inr s'"
    and "\<And>x s t. x \<in> set xs \<Longrightarrow> f x s = Inr t \<Longrightarrow> P s \<Longrightarrow> P t \<and> keys t = keys s \<union> A x"
    and "P s"
  shows "P s' \<and> keys s' = keys s \<union> (\<Union>x\<in>set xs. A x)"
  using assms
proof (induction xs arbitrary: s)
  case (Cons x xs)
  from Cons.prems(1) obtain t where t: "f x s = Inr t" "fold_res f xs t = Inr s'"
    by (auto split: sum.splits)
  from Cons.prems(2) [of x s t] Cons.prems(3) t(1) have "P t" "keys t = keys s \<union> A x" by auto
  with Cons.IH [OF t(2)] Cons.prems(2) show ?case by auto
qed simp

text \<open>Reads by name return an object of that name.\<close>

definition named_reads :: "catalogReads \<Rightarrow> bool" where
  "named_reads R \<longleftrightarrow> (\<forall>ns n model. cr_model R ns n = Inr model \<longrightarrow> om_Namespace (cm_meta model) = ns \<and> om_Name (cm_meta model) = n)"

lemma add_entry_collects:
  assumes "named_reads R" and "entry \<in> set (cs_ModelRefs sub)"
    and "add_entry G headerName iter R ns aitenant config sub entry hs = Inr hs'" and "keyed hs"
  shows "keyed hs' \<and> fst ` set hs' = fst ` set hs \<union> selectable G iter R ns aitenant config sub entry"
proof (cases "cr_model R (me_Namespace entry) (me_Name entry)")
  case (Inl e)
  with assms(3,4) show ?thesis by (cases e) (auto simp: add_entry_def selectable_def)
next
  case (Inr model)
  with assms(1) have names: "me_Namespace entry = om_Namespace (cm_meta model)" "me_Name entry = om_Name (cm_meta model)"
    by (auto simp: named_reads_def)
  show ?thesis
  proof (cases "cm_ResolvedTenantRef model = om_Name (ct_meta aitenant)")
    case True
    with Inr assms(3) obtain plan
      where plan: "pair_plan G iter R ns aitenant config sub (cs_ModelRefs sub) model = Inr plan"
        and hs': "hs' = fold (add_check G headerName) (Checks plan) hs"
      by (auto simp: add_entry_def split: sum.splits)
    from compose_entry_only [OF plan assms(2) names]
    have "selectable G iter R ns aitenant config sub entry = check_id G ` set (Checks plan)"
      by (simp add: selectable_def Inr True)
    with hs' add_checks assms(4) show ?thesis by simp
  next
    case False
    with Inr assms(3,4) show ?thesis by (simp add: add_entry_def selectable_def)
  qed
qed

text \<open>
  C22. The guardrail catalog that the gateway policy knows is exactly what the API server can
  select. When the controller computes the catalog of a tenant, its ids are sorted without
  repetition and are precisely the ids that the server's resolver selects for the entries of
  the tenant's subscriptions; so the gateway neither rejects a check that selection returns nor
  accepts one that no selection contains.
\<close>

theorem catalog_exact:
  assumes "guardrailHeaders S G headerName iter R ns = Inr (Some hs)" and "named_reads R"
    and config: "cr_tenantConfig R ns = Inr config" and owner: "owningAITenant S R config = Inr aitenant"
    and subs: "cr_subscriptions R ns = Inr subs"
  shows "sorted (map gh_ID hs) \<and> distinct (map gh_ID hs) \<and>
      gh_ID ` set hs = (\<Union>sub\<in>set subs. \<Union>entry\<in>set (cs_ModelRefs sub). selectable G iter R ns aitenant config sub entry)"
proof -
  from assms(1) config owner subs obtain headers
    where headers: "fold_res (\<lambda>sub. fold_res (add_entry G headerName iter R ns aitenant config sub) (cs_ModelRefs sub)) subs [] = Inr headers"
      and hs: "hs = SliceStable (\<lambda>a b. gh_ID a < gh_ID b) (map snd headers)"
    by (auto simp: guardrailHeaders_def bind_res_eq_Inr_iff split: if_splits)
  have "keyed t \<and> fst ` set t = fst ` set s \<union> (\<Union>entry\<in>set (cs_ModelRefs sub). selectable G iter R ns aitenant config sub entry)"
    if "fold_res (add_entry G headerName iter R ns aitenant config sub) (cs_ModelRefs sub) s = Inr t" "keyed s" for sub s t
    using that(1) add_entry_collects [OF assms(2)] that(2) by (rule fold_res_collects)
  from fold_res_collects [where P = keyed and keys = "\<lambda>t. fst ` set t", OF headers this]
  have keyed: "keyed headers"
    and ids: "fst ` set headers = (\<Union>sub\<in>set subs. \<Union>entry\<in>set (cs_ModelRefs sub). selectable G iter R ns aitenant config sub entry)"
    by (auto simp: keyed_def)
  from keyed have same: "map gh_ID (map snd headers) = map fst headers"
    by (auto simp: keyed_def list_all_iff)
  have "gh_ID ` set hs = fst ` set headers"
    using arg_cong [OF same, of set] by (simp add: hs image_image)
  moreover have "mset (map gh_ID hs) = mset (map fst headers)"
    unfolding hs mset_map mset_SliceStable by (simp only: mset_map [symmetric] same)
  then have "distinct (map gh_ID hs) = distinct (map fst headers)" by (rule mset_eq_imp_distinct_iff)
  with keyed have "distinct (map gh_ID hs)" by (simp only: keyed_def)
  moreover have "ordered_by (\<lambda>a b. gh_ID a < gh_ID b) hs"
    unfolding hs by (rule go_less.ordered_SliceStable [OF go_less_key])
  ultimately show ?thesis using ids
    by (auto simp: ordered_by_def sorted_wrt_map not_less)
qed

section \<open>A concrete tenant\<close>

definition ex_objectMeta :: "string \<Rightarrow> string \<Rightarrow> objectMeta" where
  "ex_objectMeta ns name = \<lparr>om_Name = name, om_Namespace = ns, om_UID = name, om_Labels = [LabelManagedByAITenant \<mapsto> ''true''],
     om_Annotations = Map.empty, om_Finalizers = [], om_Deleting = False, om_Generation = 1, om_Created = None\<rparr>"

definition ex_guardrail :: "string \<Rightarrow> string \<Rightarrow> string list \<Rightarrow> policy" where
  "ex_guardrail ns name checks = \<lparr>pol_Namespace = ns, pol_Name = name, pol_UID = name, pol_Generation = 1,
     pol_BindingRevision = ''r'', pol_Conditions = [],
     pol_Checks = map (\<lambda>(i, c). \<lparr>ck_Name = c, ck_SpecIndex = int i, ck_Phases = [''input'']\<rparr>) (enumerate 0 checks)\<rparr>"

definition ex_config :: catalogConfig where
  "ex_config = \<lparr>cc_meta = ex_objectMeta ''maas'' ''default-tenant'', cc_Guardrails = []\<rparr>"

definition ex_aitenant :: catalogTenant where
  "ex_aitenant = \<lparr>ct_meta = ex_objectMeta ''ai-tenants'' ''models-as-a-service'', ct_TenantNamespace = ''maas'',
     ct_Guardrails = [\<lparr>at_Name = ''pii'', at_Checks = []\<rparr>]\<rparr>"

definition ex_entry :: modelEntrySelection where
  "ex_entry = \<lparr>me_Namespace = ''llm'', me_Name = ''m'', me_Guardrails = []\<rparr>"

definition ex_sub :: catalogSubscription where
  "ex_sub = \<lparr>cs_meta = ex_objectMeta ''maas'' ''gold'', cs_Guardrails = [], cs_ModelRefs = [ex_entry]\<rparr>"

definition ex_catalogReads :: catalogReads where
  "ex_catalogReads = \<lparr>cr_tenantConfig = (\<lambda>_. Inr ex_config), cr_namespace = (\<lambda>_. Inr Map.empty),
     cr_aitenant = (\<lambda>_ _. Inr ex_aitenant), cr_subscriptions = (\<lambda>_. Inr [ex_sub]),
     cr_model = (\<lambda>ns n. Inr \<lparr>cm_meta = ex_objectMeta ns n, cm_ResolvedTenantRef = ''models-as-a-service'', cm_Guardrails = []\<rparr>),
     cr_policy = (\<lambda>ns n. Inr (ex_guardrail ns n [''b'', ''a'']))\<rparr>"

definition ex_settings :: settings where
  "ex_settings = \<lparr>st_DefaultTenantNamespace = ''maas'', st_Discovery = False, st_GatewayName = ''gw'',
     st_GatewayNamespace = ''ingress'', st_AppNamespace = ''infra''\<rparr>"

lemma ex_catalog:
  "guardrailHeaders ex_settings ex_gateway (\<lambda>ns n c. ''X-AIGateway-Guardrail-'' @ c) id ex_catalogReads ''maas''
     = Inr (Some [\<lparr>gh_ID = ''maas/pii/a'', gh_Name = ''X-AIGateway-Guardrail-a''\<rparr>,
                  \<lparr>gh_ID = ''maas/pii/b'', gh_Name = ''X-AIGateway-Guardrail-b''\<rparr>])"
  by code_simp

lemma catalog_exact_witness:
  "selectable ex_gateway id ex_catalogReads ''maas'' ex_aitenant ex_config ex_sub ex_entry = {''maas/pii/a'', ''maas/pii/b''}"
proof -
  have "named_reads ex_catalogReads" by (simp add: named_reads_def ex_catalogReads_def ex_objectMeta_def)
  moreover have "cr_tenantConfig ex_catalogReads ''maas'' = Inr ex_config" "cr_subscriptions ex_catalogReads ''maas'' = Inr [ex_sub]"
    by (simp_all add: ex_catalogReads_def)
  moreover have "owningAITenant ex_settings ex_catalogReads ex_config = Inr ex_aitenant"
    by (simp add: owningAITenant_def isDefaultTenantNamespace_def ex_catalogReads_def ex_config_def ex_aitenant_def
        ex_objectMeta_def ex_settings_def label_value_def)
  ultimately show ?thesis
    using catalog_exact [OF ex_catalog, of ex_config ex_aitenant "[ex_sub]"] by (simp add: ex_sub_def)
qed

end
