(* ===== verification/SpecMatch.thy ===== *)
theory SpecMatch
  imports GoJson
begin

text \<open>
  Comparing the specification that the MaaSAuthPolicy controller wants with the one the API
  server holds: \<open>specMatchesDesired\<close>, \<open>stripExtraFields\<close> and \<open>stripEmptyDesiredFields\<close> of
  \<open>maasauthpolicy_controller.go\<close>. Both sides go through JSON first, which turns every number
  into a float: the conversion of an integer is an argument. Go changes its maps in place while
  it ranges over them; here each function returns the changed map. The order of a map's entries
  does not count for \<open>reflect.DeepEqual\<close>.
\<close>

section \<open>The comparison of the code\<close>

fun json_norm :: "(int \<Rightarrow> 64 word) \<Rightarrow> json \<Rightarrow> json" where
  "json_norm f (JInt n) = JFloat (f n)"
| "json_norm f (JArr xs) = JArr (map (json_norm f) xs)"
| "json_norm f (JObj m) = JObj (map (\<lambda>(k, v). (k, json_norm f v)) m)"
| "json_norm f v = v"

function (sequential) stripExtraValue :: "json \<Rightarrow> json \<Rightarrow> json"
  and stripExtraFields :: "jobj \<Rightarrow> jobj \<Rightarrow> jobj"
  and stripExtraFieldsSlice :: "json list \<Rightarrow> json list \<Rightarrow> json list" where
  "stripExtraValue (JObj c) (JObj d) = JObj (stripExtraFields c d)"
| "stripExtraValue (JArr c) (JArr d) = JArr (stripExtraFieldsSlice c d)"
| "stripExtraValue c d = c"
| "stripExtraFields [] d = []"
| "stripExtraFields ((k, cv) # c) d =
     (case map_of d k of
        None \<Rightarrow> stripExtraFields c d
      | Some dv \<Rightarrow> (k, stripExtraValue cv dv) # stripExtraFields c d)"
| "stripExtraFieldsSlice (cv # c) (dv # d) = stripExtraValue cv dv # stripExtraFieldsSlice c d"
| "stripExtraFieldsSlice c d = c"
  by pat_completeness auto
termination
  by (relation "measure (\<lambda>x. case x of
        Inl (c, d) \<Rightarrow> size c
      | Inr (Inl (c, d)) \<Rightarrow> size_list (size_prod (\<lambda>_. 0) size) c
      | Inr (Inr (c, d)) \<Rightarrow> size_list size c)") auto

fun isEmptyCollection :: "json \<Rightarrow> bool" where
  "isEmptyCollection (JObj m) = (m = [])"
| "isEmptyCollection (JArr xs) = (xs = [])"
| "isEmptyCollection _ = False"

function (sequential) stripEmptyDesiredFields :: "jobj \<Rightarrow> jobj \<Rightarrow> jobj" where
  "stripEmptyDesiredFields [] current = []"
| "stripEmptyDesiredFields ((k, dv) # d) current =
     (let dv' = (case dv of
            JObj dMap \<Rightarrow> JObj (stripEmptyDesiredFields dMap (case map_of current k of Some (JObj cMap) \<Rightarrow> cMap | _ \<Rightarrow> []))
          | _ \<Rightarrow> dv);
          rest = stripEmptyDesiredFields d current
      in if map_of current k = None \<and> isEmptyCollection dv' then rest else (k, dv') # rest)"
  by pat_completeness auto
termination
  by (relation "measure (\<lambda>(d, c). size_list (size_prod (\<lambda>_. 0) size) d)") auto

function (sequential) DeepEqual :: "json \<Rightarrow> json \<Rightarrow> bool"
  and deep_fields :: "jobj \<Rightarrow> jobj \<Rightarrow> bool"
  and deep_items :: "json list \<Rightarrow> json list \<Rightarrow> bool" where
  "DeepEqual (JObj a) (JObj b) \<longleftrightarrow> length a = length b \<and> deep_fields a b"
| "DeepEqual (JArr a) (JArr b) \<longleftrightarrow> deep_items a b"
| "DeepEqual a b \<longleftrightarrow> a = b"
| "deep_fields [] b \<longleftrightarrow> True"
| "deep_fields ((k, v) # a) b \<longleftrightarrow> (case map_of b k of None \<Rightarrow> False | Some w \<Rightarrow> DeepEqual v w) \<and> deep_fields a b"
| "deep_items [] [] \<longleftrightarrow> True"
| "deep_items (v # a) (w # b) \<longleftrightarrow> DeepEqual v w \<and> deep_items a b"
| "deep_items _ _ \<longleftrightarrow> False"
  by pat_completeness auto
termination
  by (relation "measure (\<lambda>x. case x of
        Inl (a, b) \<Rightarrow> size a
      | Inr (Inl (a, b)) \<Rightarrow> size_list (size_prod (\<lambda>_. 0) size) a
      | Inr (Inr (a, b)) \<Rightarrow> size_list size a)") auto

text \<open>\<open>current\<close> is \<open>None\<close> for a policy without a specification, a nil map that equals no map.\<close>

definition specMatchesDesired :: "(int \<Rightarrow> 64 word) \<Rightarrow> jobj \<Rightarrow> jobj option \<Rightarrow> bool" where
  "specMatchesDesired f desired current =
     (case current of
        None \<Rightarrow> False
      | Some c \<Rightarrow>
        (let norm = map (\<lambda>(k, v). (k, json_norm f v));
             stripped = stripExtraFields (norm c) (norm desired)
         in DeepEqual (JObj (stripEmptyDesiredFields (norm desired) stripped)) (JObj stripped)))"

section \<open>What the comparison decides\<close>

text \<open>
  The reference: every wanted field is there with a value that covers the wanted one; a wanted
  value without content may be missing. Within lists nothing wanted may be missing and the
  lengths agree; fields that are not wanted are ignored at every depth.
\<close>

fun hollow :: "json \<Rightarrow> bool" where
  "hollow (JObj m) \<longleftrightarrow> list_all (\<lambda>(k, v). hollow v) m"
| "hollow (JArr xs) \<longleftrightarrow> xs = []"
| "hollow _ \<longleftrightarrow> False"

function (sequential) covers :: "bool \<Rightarrow> json \<Rightarrow> json \<Rightarrow> bool" where
  "covers lenient (JObj d) (JObj c) \<longleftrightarrow>
     list_all (\<lambda>(k, dv). case map_of c k of Some cv \<Rightarrow> covers lenient dv cv | None \<Rightarrow> lenient \<and> hollow dv) d"
| "covers lenient (JArr d) (JArr c) \<longleftrightarrow> length d = length c \<and> list_all (\<lambda>(dv, cv). covers False dv cv) (zip d c)"
| "covers lenient d c \<longleftrightarrow> d = c"
  by pat_completeness auto
termination
  by (relation "measure (\<lambda>(lenient, d, c). size d)")
    (auto simp: less_Suc_eq_le dest!: set_zip_leftD intro!: size_list_estimation')

fun unique_fields :: "json \<Rightarrow> bool" where
  "unique_fields (JObj m) \<longleftrightarrow> distinct (map fst m) \<and> list_all (\<lambda>(k, v). unique_fields v) m"
| "unique_fields (JArr xs) \<longleftrightarrow> list_all unique_fields xs"
| "unique_fields _ \<longleftrightarrow> True"

lemma map_of_stripExtraFields:
  "map_of (stripExtraFields c d) k =
     (case map_of c k of None \<Rightarrow> None | Some cv \<Rightarrow> map_option (stripExtraValue cv) (map_of d k))"
  by (induction c) (auto split: option.splits)

lemma keys_stripExtraFields: "fst ` set (stripExtraFields c d) = fst ` set c \<inter> fst ` set d"
  unfolding dom_map_of_conv_image_fst [symmetric]
  by (auto simp: dom_def map_of_stripExtraFields split: option.splits)

lemma distinct_stripExtraFields: "distinct (map fst c) \<Longrightarrow> distinct (map fst (stripExtraFields c d))"
proof (induction c)
  case (Cons kv c)
  have "fst ` set (stripExtraFields c d) \<subseteq> fst ` set c" unfolding keys_stripExtraFields by simp
  with Cons show ?case by (cases kv) (auto split: option.splits)
qed simp

lemma deep_fields_iff:
  "deep_fields a b \<longleftrightarrow> list_all (\<lambda>(k, v). case map_of b k of None \<Rightarrow> False | Some w \<Rightarrow> DeepEqual v w) a"
  by (induction a) auto

lemma deep_items_iff: "deep_items a b \<longleftrightarrow> length a = length b \<and> list_all (\<lambda>(v, w). DeepEqual v w) (zip a b)"
  by (induction a b rule: list_induct2') auto

lemma strip_items_length: "length (stripExtraFieldsSlice c d) = length c"
  by (induction c d rule: list_induct2') auto

lemma strip_items_zip:
  "length c = length d \<Longrightarrow> zip d (stripExtraFieldsSlice c d) = map (\<lambda>(dv, cv). (dv, stripExtraValue cv dv)) (zip d c)"
  by (induction c d rule: list_induct2) auto

lemma same_length:
  assumes "distinct (map fst a)" and "distinct (map fst b)" and "fst ` set a = fst ` set b"
  shows "length a = length b"
  using assms by (metis distinct_card length_map set_map)

text \<open>Maps with unique keys are equal when each has the other's keys and the values agree.\<close>

lemma DeepEqual_objects:
  assumes "distinct (map fst a)" and "distinct (map fst b)" and "fst ` set b \<subseteq> fst ` set a"
  shows "DeepEqual (JObj a) (JObj b) \<longleftrightarrow> deep_fields a b"
proof -
  have "length a = length b" if "deep_fields a b"
  proof (rule same_length [OF assms(1,2)])
    have "fst ` set a \<subseteq> fst ` set b"
      using that by (force simp: deep_fields_iff list_all_iff split: option.splits dest: map_of_SomeD)
    with assms(3) show "fst ` set a = fst ` set b" by simp
  qed
  then show ?thesis by auto
qed

lemma list_all_cong_set: "(\<And>x. x \<in> set xs \<Longrightarrow> P x = Q x) \<Longrightarrow> list_all P xs = list_all Q xs"
  by (auto simp: list_all_iff)

text \<open>Inside lists: only surplus fields are ignored.\<close>

lemma strip_covers_exact:
  "unique_fields c \<Longrightarrow> unique_fields d \<Longrightarrow> DeepEqual d (stripExtraValue c d) \<longleftrightarrow> covers False d c"
proof (induction d arbitrary: c)
  case (JArr ds)
  show ?case
  proof (cases c)
    case (JArr cs)
    have "list_all (\<lambda>(v, w). DeepEqual v w) (zip ds (stripExtraFieldsSlice cs ds))
        \<longleftrightarrow> list_all (\<lambda>(dv, cv). covers False dv cv) (zip ds cs)" if "length ds = length cs"
    proof -
      have "DeepEqual dv (stripExtraValue cv dv) = covers False dv cv" if "(dv, cv) \<in> set (zip ds cs)" for dv cv
        using JArr.IH [of dv cv] JArr.prems \<open>c = JArr cs\<close> set_zip_leftD [OF that] set_zip_rightD [OF that]
        by (auto simp: list_all_iff)
      then show ?thesis
        unfolding strip_items_zip [OF that [symmetric]] list.pred_map
        by (intro list_all_cong_set) auto
    qed
    with JArr show ?thesis by (auto simp: deep_items_iff strip_items_length)
  qed auto
next
  case (JObj ds)
  show ?case
  proof (cases c)
    case (JObj cs)
    let ?s = "stripExtraFields cs ds"
    have "DeepEqual (JObj ds) (JObj ?s) \<longleftrightarrow> deep_fields ds ?s"
      using JObj.prems JObj by (intro DeepEqual_objects) (auto simp: keys_stripExtraFields intro: distinct_stripExtraFields)
    also have "\<dots> \<longleftrightarrow> covers False (JObj ds) (JObj cs)"
      unfolding deep_fields_iff covers.simps
    proof (intro list_all_cong_set, clarify)
      fix k dv assume mem: "(k, dv) \<in> set ds"
      then have dv: "map_of ds k = Some dv" using JObj.prems(2) by auto
      show "(case map_of ?s k of None \<Rightarrow> False | Some w \<Rightarrow> DeepEqual dv w)
          = (case map_of cs k of Some cv \<Rightarrow> covers False dv cv | None \<Rightarrow> False \<and> hollow dv)"
      proof (cases "map_of cs k")
        case (Some cv)
        then have "unique_fields cv" "unique_fields dv"
          using JObj.prems JObj mem by (auto simp: list_all_iff dest: map_of_SomeD)
        with JObj.IH [OF mem, of dv cv] Some dv show ?thesis by (simp add: map_of_stripExtraFields)
      qed (simp add: map_of_stripExtraFields)
    qed
    finally show ?thesis using JObj by simp
  qed auto
qed (cases c; auto)+

text \<open>The value that stays for a wanted field.\<close>

definition stripped_value :: "json \<Rightarrow> json option \<Rightarrow> json" where
  "stripped_value dv cv =
     (case dv of JObj dMap \<Rightarrow> JObj (stripEmptyDesiredFields dMap (case cv of Some (JObj cMap) \<Rightarrow> cMap | _ \<Rightarrow> [])) | _ \<Rightarrow> dv)"

lemma stripEmpty_Cons:
  "stripEmptyDesiredFields ((k, dv) # d) c =
     (let rest = stripEmptyDesiredFields d c; v = stripped_value dv (map_of c k)
      in if map_of c k = None \<and> isEmptyCollection v then rest else (k, v) # rest)"
  by (simp add: stripped_value_def Let_def)

declare stripEmptyDesiredFields.simps(2) [simp del]

lemma list_all_stripEmpty:
  "list_all P (stripEmptyDesiredFields d c) \<longleftrightarrow>
     list_all (\<lambda>(k, dv). map_of c k = None \<and> isEmptyCollection (stripped_value dv (map_of c k)) \<or>
        P (k, stripped_value dv (map_of c k))) d"
  by (induction d) (auto simp: stripEmpty_Cons Let_def split: if_splits)

lemma keys_stripEmpty_Cons:
  "fst ` set (stripEmptyDesiredFields ((k, dv) # d) c) =
     (if map_of c k = None \<and> isEmptyCollection (stripped_value dv (map_of c k)) then {} else {k}) \<union>
     fst ` set (stripEmptyDesiredFields d c)"
  by (cases "map_of c k = None \<and> isEmptyCollection (stripped_value dv (map_of c k))")
    (simp_all only: stripEmpty_Cons Let_def if_True if_False, simp_all)

lemma keys_stripEmpty: "fst ` set (stripEmptyDesiredFields d c) \<subseteq> fst ` set d"
proof (induction d)
  case (Cons kv d)
  then show ?case by (cases kv) (simp add: keys_stripEmpty_Cons, blast)
qed simp

lemma keys_kept: "fst ` set d \<inter> fst ` set c \<subseteq> fst ` set (stripEmptyDesiredFields d c)"
proof (induction d)
  case (Cons kv d)
  obtain k dv where kv: "kv = (k, dv)" by (cases kv)
  show ?case
  proof (cases "k \<in> fst ` set c")
    case True
    then have "map_of c k \<noteq> None" by (simp add: map_of_eq_None_iff)
    with Cons show ?thesis unfolding kv keys_stripEmpty_Cons by auto
  next
    case False
    with Cons show ?thesis unfolding kv keys_stripEmpty_Cons by auto
  qed
qed simp

lemma distinct_stripEmpty: "distinct (map fst d) \<Longrightarrow> distinct (map fst (stripEmptyDesiredFields d c))"
proof (induction d)
  case (Cons kv d)
  with keys_stripEmpty [of d c] show ?case by (cases kv) (auto simp: stripEmpty_Cons Let_def)
qed simp

lemma stripEmpty_Nil:
  "stripEmptyDesiredFields d [] = [] \<longleftrightarrow> list_all (\<lambda>(k, v). isEmptyCollection (stripped_value v None)) d"
proof -
  have "xs = [] \<longleftrightarrow> list_all (\<lambda>_. False) xs" for xs :: jobj by (cases xs) simp_all
  then have "stripEmptyDesiredFields d [] = [] \<longleftrightarrow> list_all (\<lambda>_. False) (stripEmptyDesiredFields d [])" .
  then show ?thesis unfolding list_all_stripEmpty by simp
qed

lemma stripped_empty_iff_hollow: "isEmptyCollection (stripped_value v None) \<longleftrightarrow> hollow v"
proof (induction v)
  case (JObj m)
  have "isEmptyCollection (stripped_value w None) = hollow w" if "(k, w) \<in> set m" for k w
    using JObj [OF that, of w] by simp
  then have "list_all (\<lambda>(k, v). isEmptyCollection (stripped_value v None)) m = list_all (\<lambda>(k, v). hollow v) m"
    by (intro list_all_cong_set) auto
  moreover have "isEmptyCollection (stripped_value (JObj m) None) \<longleftrightarrow> stripEmptyDesiredFields m [] = []"
    by (simp add: stripped_value_def)
  ultimately show ?case unfolding stripEmpty_Nil by simp
qed (simp_all add: stripped_value_def)

lemma strip_covers:
  assumes "unique_fields (JObj ds)" and "unique_fields (JObj cs)"
  shows "DeepEqual (JObj (stripEmptyDesiredFields ds (stripExtraFields cs ds))) (JObj (stripExtraFields cs ds))
     \<longleftrightarrow> covers True (JObj ds) (JObj cs)"
  using assms
proof (induction "size (JObj ds)" arbitrary: ds cs rule: less_induct)
  case less
  let ?s = "stripExtraFields cs ds"
  let ?e = "stripEmptyDesiredFields ds ?s"
  have "DeepEqual (JObj ?e) (JObj ?s) \<longleftrightarrow> deep_fields ?e ?s"
  proof (rule DeepEqual_objects)
    show "distinct (map fst ?e)" "distinct (map fst ?s)"
      using less.prems by (simp_all add: distinct_stripEmpty distinct_stripExtraFields)
    show "fst ` set ?s \<subseteq> fst ` set ?e"
      using keys_kept [of ds ?s] keys_stripExtraFields [of cs ds] by blast
  qed
  also have "\<dots> \<longleftrightarrow> covers True (JObj ds) (JObj cs)"
    unfolding deep_fields_iff list_all_stripEmpty covers.simps
  proof (intro list_all_cong_set, clarify)
    fix k dv assume mem: "(k, dv) \<in> set ds"
    then have dv: "map_of ds k = Some dv" using less.prems(1) by auto
    let ?v = "stripped_value dv (map_of ?s k)"
    show "(map_of ?s k = None \<and> isEmptyCollection ?v \<or> (case map_of ?s k of None \<Rightarrow> False | Some w \<Rightarrow> DeepEqual ?v w))
        = (case map_of cs k of Some cv \<Rightarrow> covers True dv cv | None \<Rightarrow> True \<and> hollow dv)"
    proof (cases "map_of cs k")
      case None
      then show ?thesis by (simp add: map_of_stripExtraFields stripped_empty_iff_hollow)
    next
      case (Some cv)
      then have unique: "unique_fields cv" "unique_fields dv"
        using less.prems mem by (auto simp: list_all_iff dest: map_of_SomeD)
      from Some dv have s: "map_of ?s k = Some (stripExtraValue cv dv)" by (simp add: map_of_stripExtraFields)
      have "DeepEqual (stripped_value dv (Some (stripExtraValue cv dv))) (stripExtraValue cv dv) = covers True dv cv"
      proof (cases dv)
        case (JObj dm)
        have "size (JObj dm) < size (JObj ds)"
          using size_list_estimation' [OF mem, of "size (JObj dm)" "size_prod (\<lambda>_. 0) size"] JObj by simp
        with less.hyps [of dm] unique JObj show ?thesis
          by (cases cv) (auto simp: stripped_value_def)
      next
        case (JArr xs)
        with strip_covers_exact [OF unique] show ?thesis by (cases cv) (auto simp: stripped_value_def)
      qed (insert strip_covers_exact [OF unique], cases cv; auto simp: stripped_value_def)+
      with s Some show ?thesis by simp
    qed
  qed
  finally show ?case .
qed

lemma unique_fields_norm: "unique_fields v \<Longrightarrow> unique_fields (json_norm f v)"
  by (induction v) (auto simp: list_all_iff comp_def split_def)

text \<open>
  C37. The update test of the gateway policy is the cover relation. For specifications without
  repeated keys, \<open>specMatchesDesired\<close> holds exactly when the current specification is present
  and covers the wanted one: surplus fields never cause an update, a wanted value that is
  missing causes one unless it has no content, and inside lists only surplus fields are
  ignored.
\<close>

theorem specMatchesDesired_iff:
  assumes "unique_fields (JObj desired)" and "\<And>c. current = Some c \<Longrightarrow> unique_fields (JObj c)"
  shows "specMatchesDesired f desired current \<longleftrightarrow>
    (\<exists>c. current = Some c \<and> covers True (json_norm f (JObj desired)) (json_norm f (JObj c)))"
proof (cases current)
  case (Some c)
  from unique_fields_norm [OF assms(1), of f] unique_fields_norm [OF assms(2) [OF Some], of f]
  show ?thesis
    using strip_covers by (auto simp: specMatchesDesired_def Some Let_def simp del: covers.simps unique_fields.simps DeepEqual.simps)
qed (simp add: specMatchesDesired_def)

definition ex_wanted :: jobj where
  "ex_wanted = [(''targetRef'', JObj [(''name'', JStr ''gw'')]), (''defaults'', JObj [(''when'', JArr []), (''ttl'', JInt 60)])]"

definition ex_current :: jobj where
  "ex_current = [(''defaults'', JObj [(''ttl'', JInt 60), (''strategy'', JStr ''atomic'')]), (''targetRef'', JObj [(''name'', JStr ''gw'')])]"

lemma specMatchesDesired_iff_witness:
  "specMatchesDesired of_int ex_wanted (Some ex_current) \<and> \<not> specMatchesDesired of_int ex_wanted (Some [])"
proof -
  have "unique_fields (JObj ex_wanted)" "unique_fields (JObj ex_current)" "unique_fields (JObj [])"
    by code_simp+
  moreover have "covers True (json_norm of_int (JObj ex_wanted)) (json_norm of_int (JObj ex_current))"
    "\<not> covers True (json_norm of_int (JObj ex_wanted)) (json_norm of_int (JObj []))"
    by (simp_all add: ex_wanted_def ex_current_def)
  ultimately show ?thesis
    using specMatchesDesired_iff [of ex_wanted "Some ex_current" of_int] specMatchesDesired_iff [of ex_wanted "Some []" of_int]
    by (simp del: covers.simps unique_fields.simps json_norm.simps)
qed

end
