(* ===== verification/GatewaySpecStable.thy ===== *)
theory GatewaySpecStable
  imports GatewayAuthSpec SpecMatch
begin

text \<open>
  The specification that the controller writes is recognised by its own update test
  (\<open>reconcileGatewayAuthPolicyWithHeaders\<close>): \<open>specMatchesDesired\<close> accepts it as current, and
  neither stale-field check finds anything in it. The maps of the Go program have one value
  per key, which \<open>unique_fields\<close> says of the association lists here.
\<close>

section \<open>One value per key\<close>

lemma unique_update:
  "unique_fields (JObj m) \<Longrightarrow> unique_fields v \<Longrightarrow> unique_fields (JObj (AList.update k v m))"
proof -
  assume "unique_fields (JObj m)" "unique_fields v"
  moreover have "list_all (\<lambda>(k, v). unique_fields v) (AList.update k v m)"
    if "list_all (\<lambda>(k, v). unique_fields v) m" "unique_fields v"
    using that set_update [of k v m] by (auto simp: list_all_iff)
  ultimately show ?thesis by (simp add: distinct_update)
qed

lemma unique_with_keys:
  "list_all (\<lambda>(k, v). unique_fields v) kvs \<Longrightarrow> unique_fields (JObj m) \<Longrightarrow> unique_fields (JObj (with_keys kvs m))"
proof (induction kvs arbitrary: m)
  case (Cons kv kvs)
  then have "unique_fields (JObj (AList.update (fst kv) (snd kv) m))" by (intro unique_update) (auto split: prod.splits)
  with Cons have "unique_fields (JObj (with_keys kvs (AList.update (fst kv) (snd kv) m)))" by simp
  then show ?case by (simp only: with_keys_def fold_Cons split_def o_apply)
qed (simp add: with_keys_def)

lemma unique_parts:
  "unique_fields (pred s)" "unique_fields (expr s)" "unique_fields (eq_pattern a b)"
  "list_all unique_fields (OIDCTokenBoundPatterns a b c d e)" "list_all unique_fields (OIDCTokenBoundWhen a)"
  "unique_fields (subscriptionInfoHeader f)" "unique_fields (subscriptionInfoStringHeader f)"
  "unique_fields (selectedGuardrailHeader i)" "unique_fields (subscriptionInfoHeadersExpr n)"
  "unique_fields (verifiedIdentityHeader oidc q)"
  by (simp_all add: pred_def expr_def eq_pattern_def OIDCTokenBoundPatterns_def OIDCTokenBoundWhen_def subscriptionInfoHeader_def
      subscriptionInfoStringHeader_def selectedGuardrailHeader_def subscriptionInfoHeadersExpr_def verifiedIdentityHeader_def Let_def)

lemma unique_rules:
  "unique_fields (JObj (authentication_rules r))" "unique_fields x_api_key_rule" "unique_fields (oidc_identities_rule q c)"
  "unique_fields (JObj (authorization_rules r p key))" "unique_fields (guardrail_rule hs)" "unique_fields (oidc_groups_rule q)"
  "unique_fields (oidc_client_rule q c)" "unique_fields (JObj (metadata_rules r u v body))"
  "unique_fields (JObj (success_headers oidc p q))" "unique_fields (JObj identity_filter)"
  "unique_fields unauthenticated_response" "unique_fields unauthorized_response"
  by (simp_all add: unique_parts authentication_rules_def x_api_key_rule_def oidc_identities_rule_def authorization_rules_def
      guardrail_rule_def oidc_groups_rule_def oidc_client_rule_def metadata_rules_def success_headers_def identity_filter_def
      unauthenticated_response_def unauthorized_response_def Let_def)

lemma unique_final_headers: "unique_fields (JObj (final_headers oidc x gh))"
  unfolding final_headers_def
  by (cases "apiKeyCELPredicates x")
    (auto intro!: unique_with_keys simp: list_all_iff unique_parts simp del: unique_fields.simps intro: unique_rules)

lemma unique_policy_rules: "unique_fields (JObj (policy_rules r oidc x tenantID gh))"
proof -
  obtain p q k where preds: "apiKeyCELPredicates x = (p, q, k)" by (cases "apiKeyCELPredicates x")
  have "unique_fields (JObj (with_keys
      ((if x then [(''api-keys-x-api-key'', x_api_key_rule)] else []) @
       (case oidc of None \<Rightarrow> [] | Some c \<Rightarrow> [(''oidc-identities'', oidc_identities_rule (text_of q) c)])) (authentication_rules r)))"
    by (intro unique_with_keys unique_rules) (simp add: unique_rules split: option.split)
  moreover have "unique_fields (JObj (final_authorization r oidc x gh))"
    unfolding final_authorization_def preds prod.case
    by (intro unique_with_keys unique_rules) (simp add: unique_rules split: option.split)
  moreover have "unique_fields (JObj (final_headers oidc x gh))" by (rule unique_final_headers)
  ultimately show ?thesis
    unfolding policy_rules_def final_authorization_def final_headers_def preds prod.case Let_def
    using unique_rules by simp
qed

lemma unique_spec: "unique_fields (JObj (buildGatewayAuthPolicySpec r oidc x tenantID gw gh))"
  using unique_policy_rules by (simp add: buildGatewayAuthPolicySpec_def unique_parts)

text \<open>Writing into a nested map keeps one value per key.\<close>

definition keeps_maps :: "setters \<Rightarrow> bool" where
  "keeps_maps S \<longleftrightarrow>
     (\<forall>m v ks m'. SetNestedMap S m v ks = Inr m' \<longrightarrow> unique_fields (JObj m) \<longrightarrow> unique_fields (JObj v) \<longrightarrow> unique_fields (JObj m')) \<and>
     (\<forall>m v ks m'. SetNestedSlice S m v ks = Inr m' \<longrightarrow> unique_fields (JObj m) \<longrightarrow> unique_fields (JArr v) \<longrightarrow> unique_fields (JObj m'))"

lemma unique_applied_headers: "unique_fields (JObj hs) \<Longrightarrow> unique_fields (JObj (applied_headers names hs))"
  unfolding applied_headers_def
  by (intro unique_with_keys) (auto simp: list_all_iff unique_parts distinct_map_filter)

lemma unique_applied_patterns: "unique_fields (JArr (applied_patterns names))"
  by (simp add: applied_patterns_def identity_patterns_def unique_parts)

section \<open>A specification covers itself\<close>

lemma covers_refl: "unique_fields v \<Longrightarrow> covers lenient v v"
proof (induction v arbitrary: lenient)
  case (JObj m)
  then have "case map_of m k of Some cv \<Rightarrow> covers lenient v cv | None \<Rightarrow> lenient \<and> hollow v" if "(k, v) \<in> set m" for k v
    using that by (auto simp: list_all_iff intro: snds.intros)
  then show ?case by (auto simp: list_all_iff)
next
  case (JArr xs)
  then show ?case by (auto simp: list_all_iff zip_same)
qed auto

lemma spec_matches_itself:
  assumes "unique_fields (JObj spec)"
  shows "specMatchesDesired f spec (Some spec)"
proof -
  have "covers True (json_norm f (JObj spec)) (json_norm f (JObj spec))"
    by (intro covers_refl unique_fields_norm assms)
  then show ?thesis
    using strip_covers unique_fields_norm [OF assms, of f]
    by (auto simp: specMatchesDesired_def Let_def simp del: covers.simps unique_fields.simps DeepEqual.simps)
qed

section \<open>Nothing stale is written\<close>

lemma lower_char_lower: "lower_char (lower_char c) = lower_char c"
proof (cases "65 \<le> (of_char c :: nat) \<and> (of_char c :: nat) \<le> 90")
  case True
  then have "of_char (char_of (of_char c + 32 :: nat)) = (of_char c + 32 :: nat)" by (simp add: of_char_of take_bit_eq_mod)
  with True show ?thesis by (simp add: lower_char_def)
qed (auto simp: lower_char_def Let_def)

lemma ToLower_ToLower [simp]: "ToLower (ToLower s) = ToLower s"
  by (simp add: ToLower_def lower_char_lower)

text \<open>The names of subscription headers are in lower case and all carry the reserved prefix.\<close>

definition grid_name :: "string \<Rightarrow> bool" where
  "grid_name n \<longleftrightarrow> ToLower n = n \<and> HasPrefix n ''x-grid-''"

lemma annotation_names_grid:
  assumes "n \<in> set (annotation_names L v)"
  shows "grid_name n"
proof -
  from assms obtain headers parsed where h: "parseSubscriptionHeaders L v = Inr (Some parsed)" "unmarshalHeaders L v = Inr (Some headers)"
    and n: "\<exists>nv\<in>set headers. n = ToLower (fst nv)"
    by (cases "parseSubscriptionHeaders L v"; cases "unmarshalHeaders L v")
      (force simp: annotation_names_def split_def split: option.splits)+
  from h obtain checked where "traverse (check_header L) headers = Inr checked"
    by (auto simp: parseSubscriptionHeaders_def bind_res_eq_Inr_iff split: if_splits)
  then have "\<forall>nv\<in>set headers. \<exists>y. check_header L nv = Inr y"
    unfolding traverse_Inr_iff list_all2_conv_all_nth by (metis in_set_conv_nth)
  with n show ?thesis
    by (auto simp: grid_name_def check_header_def validSubscriptionHeaderName_def split: if_splits)
qed

lemma subscription_names_grid:
  "subscriptionHeaderNames L subs = Inr names \<Longrightarrow> n \<in> set names \<Longrightarrow> grid_name n"
  by (auto simp: subscriptionHeaderNames_def dest: annotation_names_grid split: sum.splits)

lemma not_stale:
  assumes "\<And>n. n \<in> set names \<Longrightarrow> grid_name n" and "(n, v) \<in> set (applied_headers names hs)"
  shows "\<not> stale_header names n"
  using subsetD [OF set_with_keys assms(2) [unfolded applied_headers_def]] assms(1)
  by (auto simp: stale_header_def grid_name_def)

lemma success_headers_no_guardrail:
  "list_all (\<lambda>(n, v). \<not> HasPrefix (ToLower n) ''x-aigateway-guardrail-'') (success_headers oidc p q)"
  by (simp add: success_headers_def HasPrefix_def ToLower_def lower_char_def)

lemma no_guardrail_headers:
  assumes "\<And>n. n \<in> set names \<Longrightarrow> grid_name n" and "(n, v) \<in> set (applied_headers names (final_headers oidc x None))"
  shows "\<not> HasPrefix (ToLower n) ''x-aigateway-guardrail-''"
proof -
  have "final_headers oidc x None = success_headers oidc (text_of (fst (apiKeyCELPredicates x))) (text_of (fst (snd (apiKeyCELPredicates x))))"
    by (simp add: final_headers_def with_keys_def split: prod.split)
  with subsetD [OF set_with_keys assms(2) [unfolded applied_headers_def]] success_headers_no_guardrail
  show ?thesis using assms(1) by (fastforce simp: list_all_iff grid_name_def HasPrefix_iff)
qed

lemma walk_snoc: "walk m ks = Some (JObj v) \<Longrightarrow> ks \<noteq> [] \<Longrightarrow> walk m (ks @ [k]) = map_of v k"
proof (induction m ks rule: walk.induct)
  case (3 m k' l ks)
  then show ?case by (auto split: option.splits json.splits)
qed auto

lemma walk_through: "walk m (ks @ k # ks') \<noteq> None \<Longrightarrow> \<exists>v. walk m ks = Some (JObj v)"
proof (induction m ks rule: walk.induct)
  case (2 m k')
  then show ?case by (auto split: option.splits json.splits)
next
  case (3 m k' l ks)
  then show ?case by (auto split: option.splits json.splits)
qed simp

lemma wrote_apart: "wrote m m' ks v \<Longrightarrow> \<not> prefix ks ks' \<Longrightarrow> \<not> prefix ks' ks \<Longrightarrow> walk m' ks' = walk m ks'"
  unfolding wrote_def by blast

abbreviation authorization_path :: "string list" where
  "authorization_path \<equiv> [''defaults'', ''rules'', ''authorization'']"

lemma no_guardrail_rule:
  assumes "nested_access L S" and "wrote (buildGatewayAuthPolicySpec r oidc x tenantID gw None) spec1 headers_path v"
    and "wrote spec1 spec patterns_path w"
  shows "\<exists>a. NestedMap L spec authorization_path = (a, True, None) \<and> map_of a ''guardrail-checks-known'' = None"
proof -
  let ?base = "buildGatewayAuthPolicySpec r oidc x tenantID gw None"
  have "walk spec patterns_path \<noteq> None" using assms(3) by (simp only: wrote_def) simp
  then obtain a where a: "walk spec authorization_path = Some (JObj a)"
    using walk_through [of spec authorization_path "''deny-client-identity-headers''" "[''patternMatching'', ''patterns'']"] by auto
  have "map_of a ''guardrail-checks-known'' = walk spec (authorization_path @ [''guardrail-checks-known''])"
    using walk_snoc [OF a] by simp
  also have "\<dots> = walk spec1 (authorization_path @ [''guardrail-checks-known''])"
    by (rule wrote_apart [OF assms(3)]) simp_all
  also have "\<dots> = walk ?base (authorization_path @ [''guardrail-checks-known''])"
    by (rule wrote_apart [OF assms(2)]) simp_all
  also have "\<dots> = map_of (final_authorization r oidc x None) ''guardrail-checks-known''"
    unfolding append.simps walk_authorization by simp
  also have "\<dots> = None"
    by (simp add: final_authorization_def map_of_with_keys authorization_rules_def split: prod.split option.split)
  finally show ?thesis using a assms(1) unfolding nested_access_def by blast
qed

text \<open>What the controller has just written passes its own update test.\<close>

lemma written_spec_settled:
  assumes "nested_access L S" and "keeps_maps S" and "subscriptionHeaderNames L subs = Inr names"
    and "applySubscriptionHeaders L S (buildGatewayAuthPolicySpec r oidc x tenantID gw gh) names = Inr spec"
  shows "specMatchesDesired f spec (Some spec) \<and> \<not> basePolicyHasStaleSubscriptionHeaderFields L spec names \<and>
    (gh = None \<longrightarrow> \<not> basePolicyHasStaleGuardrailFields L spec)"
proof -
  note grid = subscription_names_grid [OF assms(3)]
  let ?base = "buildGatewayAuthPolicySpec r oidc x tenantID gw gh" and ?hs = "applied_headers names (final_headers oidc x gh)"
  obtain spec1 where s: "SetNestedMap S ?base ?hs headers_path = Inr spec1" "SetNestedSlice S spec1 (applied_patterns names) patterns_path = Inr spec"
    "wrote ?base spec1 headers_path (JObj ?hs)" "wrote spec1 spec patterns_path (JArr (applied_patterns names))"
    "walk spec headers_path = Some (JObj ?hs)"
    using applied_spec [OF assms(1), of r oidc x tenantID gw gh names] assms(4) by (metis sum.inject(2))
  have "unique_fields (JObj spec1)"
    using assms(2) s(1) unique_spec unique_applied_headers [OF unique_final_headers] unfolding keeps_maps_def by blast
  then have "unique_fields (JObj spec)"
    using assms(2) s(2) unique_applied_patterns unfolding keeps_maps_def by blast
  then have "specMatchesDesired f spec (Some spec)" by (rule spec_matches_itself)
  moreover have read: "NestedMap L spec headers_path = (?hs, True, None)" using assms(1) s(5) unfolding nested_access_def by blast
  then have "\<not> basePolicyHasStaleSubscriptionHeaderFields L spec names"
    unfolding basePolicyHasStaleSubscriptionHeaderFields_def using not_stale [OF grid]
    by (simp only: prod.case option.case bool.case) (auto simp: list_ex_iff)
  moreover have "\<not> basePolicyHasStaleGuardrailFields L spec" if "gh = None"
    using no_guardrail_rule [OF assms(1) s(3) [unfolded that] s(4)] no_guardrail_headers [OF grid, where oidc = oidc and x = x] read that
    unfolding basePolicyHasStaleGuardrailFields_def by (auto simp: list_ex_iff)
  ultimately show ?thesis by blast
qed

lemma unique_put_path: "unique_fields (JObj m) \<Longrightarrow> unique_fields v \<Longrightarrow> unique_fields (JObj (put_path m ks v))"
proof (induction m ks v rule: put_path.induct)
  case (2 m k v)
  then show ?case unfolding put_path.simps by (intro unique_update)
next
  case (3 m k l ks v)
  have "unique_fields (JObj m')" if "map_of m k = Some (JObj m')" for m'
    using 3(2) map_of_SomeD [OF that] unfolding unique_fields.simps(1) [of m] list_all_iff by fast
  with 3 show ?case unfolding put_path.simps
    by (auto split: option.split json.split intro!: unique_update simp del: unique_fields.simps)
qed simp

lemma ex_keeps_maps: "keeps_maps ex_setters"
  by (auto simp: keeps_maps_def ex_setters_def intro!: unique_put_path simp del: unique_fields.simps)

end
