(* ===== verification/AuthPolicyController.thy ===== *)
theory AuthPolicyController
  imports ModelRefController GuardrailCatalog GatewaySpecStable
begin

text \<open>
  The MaaSAuthPolicy controller (\<open>maasauthpolicy_controller.go\<close>, \<open>conflict_detection.go\<close>,
  \<open>guardrail_watch.go\<close>): the gateway AuthPolicy it creates, updates and removes, the cut-over
  from the legacy route policies, deletion with its finalizer, conflict detection, status and
  the watch mappers. Other objects are read through \<open>cluster\<close>, \<open>catalogReads\<close> and \<open>apEnv\<close>;
  \<open>apEnv\<close> also says which single writes fail. The state holds the MaaSAuthPolicy that is
  reconciled and the AuthPolicy objects of the cluster. \<open>pe_setCondition\<close> and
  \<open>pe_findCondition\<close> are \<open>meta.SetStatusCondition\<close> and \<open>meta.FindStatusCondition\<close>. Message
  texts of errors, events and log lines are left out.
\<close>

section \<open>State\<close>

record ownerReference =
  or_APIVersion :: string
  or_Kind :: string
  or_Name :: string
  or_UID :: string

text \<open>A Kuadrant AuthPolicy: its metadata, its specification and the rest of the object.\<close>

record kuadrantPolicy =
  kp_meta :: objectMeta
  kp_Owners :: "ownerReference list"
  kp_Spec :: "jobj option"
  kp_Status :: jobj

record authPolicyRefStatus =
  ars_Name :: string
  ars_Namespace :: string
  ars_Ready :: bool
  ars_Reason :: string
  ars_Model :: string
  ars_ModelNamespace :: string

record authPolicyObject = maasAuthPolicy +
  ao_OtherSpec :: bool
  ao_Phase :: string
  ao_Conditions :: "condition list"
  ao_AuthPolicies :: "authPolicyRefStatus list"

record authPolicyRef =
  apr_Name :: string
  apr_Namespace :: string
  apr_Model :: string
  apr_ModelNamespace :: string

record endpointSlice =
  es_Ports :: "int option list"
  es_EndpointsReady :: "bool option list"

record apEnv =
  pe_get :: "apiError option"
  pe_update :: "apiError option"
  pe_status :: "apiError option"
  pe_policies :: "string \<Rightarrow> apiError + maasAuthPolicy list"
  pe_allPolicies :: "apiError + maasAuthPolicy list"
  pe_subscriptions :: "string \<Rightarrow> apiError + maasSubscription list"
  pe_allSubscriptions :: "apiError + maasSubscription list"
  pe_aitenantOIDC :: "string \<Rightarrow> string \<Rightarrow> oidcConfig option"
  pe_legacyOIDC :: "string \<Rightarrow> oidcConfig option"
  pe_gateway :: "nsname \<Rightarrow> apiError + string"
  pe_getPolicy :: "nsname \<Rightarrow> apiError option"
  pe_listPolicies :: "apiError option"
  pe_createPolicy :: "apiError option"
  pe_updatePolicy :: "apiError option"
  pe_deletePolicy :: "nsname \<Rightarrow> apiError option"
  pe_endpointSlices :: "string \<Rightarrow> string \<Rightarrow> apiError + endpointSlice list"
  pe_externalModels :: "apiError + jobj list"
  pe_setCondition :: "condition \<Rightarrow> condition list \<Rightarrow> condition list"
  pe_findCondition :: "string \<Rightarrow> condition list \<Rightarrow> condition option"
  pe_float :: "int \<Rightarrow> 64 word"

record apState =
  as_policy :: "authPolicyObject option"
  as_store :: "kuadrantPolicy list"

datatype apError =
    ApApi apiError
  | ApTenant tenantError
  | ApCatalog catalogError
  | ApRoute routeError
  | ApSpec string

datatype apOutcome = ApDone | ApRequeueAfter nat | ApFailed apError

text \<open>The packages and libraries that the reconciler calls.\<close>

record apLibs =
  pl_libs :: libs
  pl_setters :: setters
  pl_gateway :: aigateway
  pl_headerName :: "string \<Rightarrow> string \<Rightarrow> string \<Rightarrow> string"
  pl_order :: mapOrder

abbreviation maasAuthPolicyFinalizer :: string where "maasAuthPolicyFinalizer \<equiv> ''maas.opendatahub.io/authpolicy-cleanup''"
abbreviation maasGatewayAuthPolicyName :: string where "maasGatewayAuthPolicyName \<equiv> ''maas-gateway-auth''"
abbreviation legacyGatewayDefaultAuthPolicyName :: string where "legacyGatewayDefaultAuthPolicyName \<equiv> ''gateway-default-auth''"
abbreviation managedByLabel :: string where "managedByLabel \<equiv> ''app.kubernetes.io/managed-by''"
abbreviation partOfLabel :: string where "partOfLabel \<equiv> ''app.kubernetes.io/part-of''"
abbreviation modelLabel :: string where "modelLabel \<equiv> ''maas.opendatahub.io/model''"
abbreviation modelNamespaceLabel :: string where "modelNamespaceLabel \<equiv> ''maas.opendatahub.io/model-namespace''"

definition kp_key :: "kuadrantPolicy \<Rightarrow> nsname" where
  "kp_key p = meta_key (kp_meta p)"

definition kp_object :: "kuadrantPolicy \<Rightarrow> jobj" where
  "kp_object p = (case kp_Spec p of None \<Rightarrow> [] | Some s \<Rightarrow> [(''spec'', JObj s)]) @ [(''status'', JObj (kp_Status p))]"

definition get_kp :: "apEnv \<Rightarrow> nsname \<Rightarrow> kuadrantPolicy list \<Rightarrow> apiError + kuadrantPolicy" where
  "get_kp E key store =
     (case pe_getPolicy E key of
        Some e \<Rightarrow> Inl e
      | None \<Rightarrow> (case find (\<lambda>p. kp_key p = key) store of None \<Rightarrow> Inl ApiNotFound | Some p \<Rightarrow> Inr p))"

definition remove_kp :: "nsname \<Rightarrow> kuadrantPolicy list \<Rightarrow> kuadrantPolicy list" where
  "remove_kp key store = filter (\<lambda>p. kp_key p \<noteq> key) store"

definition put_kp :: "kuadrantPolicy \<Rightarrow> kuadrantPolicy list \<Rightarrow> kuadrantPolicy list" where
  "put_kp p store = map (\<lambda>q. if kp_key q = kp_key p then p else q) store"

section \<open>The tenant of a namespace\<close>

definition fetchTenantIdentifier :: "cluster \<Rightarrow> string \<Rightarrow> apError + string" where
  "fetchTenantIdentifier c policyNamespace =
     (case fetchTenantForNamespace c policyNamespace of
        Inl ApiNotFound \<Rightarrow> Inr []
      | Inl e \<Rightarrow> Inl (ApApi e)
      | Inr tenant \<Rightarrow> (case TenantIdentifierFor tenant of Inl e \<Rightarrow> Inl (ApTenant e) | Inr i \<Rightarrow> Inr i))"

text \<open>The external OIDC part of \<open>ResolvePlatformContext\<close>.\<close>

definition external_oidc :: "apEnv \<Rightarrow> tenantObject \<Rightarrow> oidcConfig option" where
  "external_oidc E t =
     (if isAITenantManagedTenantConfig t then
        pe_aitenantOIDC E (label_value (om_Annotations (to_meta t)) AnnotationAITenantNamespace)
          (label_value (om_Annotations (to_meta t)) AnnotationAITenantName)
      else if to_Legacy t then pe_legacyOIDC E (om_Namespace (to_meta t))
      else None)"

definition fetchTenantPlatformContext ::
  "apReconciler \<Rightarrow> apEnv \<Rightarrow> cluster \<Rightarrow> string \<Rightarrow> apError + gatewayRef \<times> oidcConfig option" where
  "fetchTenantPlatformContext r E c tenantNamespace =
     (let S = ap_settings r;
          defaultTenantNamespace = (if st_DefaultTenantNamespace S = [] then DefaultAITenantName else st_DefaultTenantNamespace S);
          dflt = Inr (fallbackTenantGatewayRef S, None)
      in case fetchTenantForNamespace c tenantNamespace of
           Inl ApiNoMatch \<Rightarrow> dflt
         | Inl ApiNotFound \<Rightarrow>
             if \<not> st_Discovery S \<or> tenantNamespace = defaultTenantNamespace then dflt
             else
               (case tenantNamespaceAllowed (S\<lparr>st_DefaultTenantNamespace := defaultTenantNamespace\<rparr>) c tenantNamespace of
                  Inl e \<Rightarrow> Inl (ApApi e)
                | Inr allowed \<Rightarrow> if allowed then Inl (ApTenant ErrDiscoveredTenantConfigNotFound) else dflt)
         | Inl e \<Rightarrow> Inl (ApApi e)
         | Inr tenant \<Rightarrow>
             (case ResolvePlatformContext c tenant (fallbackTenantGatewayRef S) of
                Inl e \<Rightarrow> Inl (ApTenant e)
              | Inr ref \<Rightarrow> Inr (ref, external_oidc E tenant)))"

definition fetchOIDCConfig :: "apReconciler \<Rightarrow> apEnv \<Rightarrow> cluster \<Rightarrow> string \<Rightarrow> oidcConfig option" where
  "fetchOIDCConfig r E c policyNamespace =
     (case fetchTenantPlatformContext r E c policyNamespace of
        Inl e \<Rightarrow> None
      | Inr (_, None) \<Rightarrow> None
      | Inr (_, Some oidc) \<Rightarrow>
          if oc_IssuerURL oidc = [] then None
          else if oc_ClientID oidc = [] then None
          else if (oc_AccessTokenPurposeClaim oidc = []) \<noteq> (oc_AccessTokenPurpose oidc = []) then None
          else if oc_TTL oidc = 0 then Some (oidc\<lparr>oc_TTL := 300\<rparr>)
          else if oc_TTL oidc < 30 then None
          else Some oidc)"

definition fetchGatewayInfo :: "apReconciler \<Rightarrow> apEnv \<Rightarrow> cluster \<Rightarrow> string \<Rightarrow> apError + nsname" where
  "fetchGatewayInfo r E c tenantNamespace =
     (case fetchTenantPlatformContext r E c tenantNamespace of
        Inl e \<Rightarrow> Inl e
      | Inr (ref, _) \<Rightarrow> Inr (gw_Namespace ref, gw_Name ref))"

section \<open>The cut-over from route policies\<close>

definition targetMaaSAPIReady :: "apReconciler \<Rightarrow> apEnv \<Rightarrow> string \<Rightarrow> apError + bool" where
  "targetMaaSAPIReady r E tenantID =
     (case pe_endpointSlices E (ap_InfraNamespace r) (MaaSAPIServiceName tenantID) of
        Inl e \<Rightarrow> Inl (ApApi e)
      | Inr slices \<Rightarrow>
        Inr (list_ex (\<lambda>s. list_ex (\<lambda>p. p = Some 8443) (es_Ports s) \<and>
               list_ex (\<lambda>ready. ready = None \<or> ready = Some True) (es_EndpointsReady s)) slices))"

definition modelAuthPolicyExists :: "apEnv \<Rightarrow> string \<Rightarrow> string \<Rightarrow> kuadrantPolicy list \<Rightarrow> apError + bool" where
  "modelAuthPolicyExists E modelNamespace modelName store =
     (case get_kp E (modelNamespace, ''maas-auth-'' @ modelName) store of
        Inl ApiNotFound \<Rightarrow> Inr False
      | Inl e \<Rightarrow> Inl (ApApi e)
      | Inr _ \<Rightarrow> Inr True)"

fun legacy_loop :: "apEnv \<Rightarrow> kuadrantPolicy list \<Rightarrow> string list \<Rightarrow> nsname list \<Rightarrow> apError + bool" where
  "legacy_loop E store checked [] = Inr False"
| "legacy_loop E store checked ((ns, n) # refs) =
     (let modelKey = ns @ ''/'' @ n in
      if modelKey \<in> set checked then legacy_loop E store checked refs
      else
        (case modelAuthPolicyExists E ns n store of
           Inl e \<Rightarrow> Inl e
         | Inr True \<Rightarrow> Inr True
         | Inr False \<Rightarrow> legacy_loop E store (modelKey # checked) refs))"

definition hasLegacyModelAuthPolicy :: "apEnv \<Rightarrow> string \<Rightarrow> kuadrantPolicy list \<Rightarrow> apError + bool" where
  "hasLegacyModelAuthPolicy E policyNamespace store =
     (case pe_policies E policyNamespace of
        Inl e \<Rightarrow> Inl (ApApi e)
      | Inr policies \<Rightarrow>
        legacy_loop E store [] (concat (map ap_ModelRefs (filter (\<lambda>p. \<not> om_Deleting (ap_meta p)) policies))))"

section \<open>The gateway policy\<close>

definition isTenantGateway :: "apReconciler \<Rightarrow> nsname \<Rightarrow> bool" where
  "isTenantGateway r gw \<longleftrightarrow> gw \<noteq> (st_GatewayNamespace (ap_settings r), st_GatewayName (ap_settings r))"

definition gatewayAuthPolicyName :: "apReconciler \<Rightarrow> nsname \<Rightarrow> string" where
  "gatewayAuthPolicyName r gw = (if isTenantGateway r gw then snd gw @ ''-maas-auth'' else maasGatewayAuthPolicyName)"

definition gateway_key :: "apReconciler \<Rightarrow> nsname \<Rightarrow> nsname" where
  "gateway_key r gw = (fst gw, gatewayAuthPolicyName r gw)"

fun ready_loop :: "json list \<Rightarrow> bool \<times> bool \<Rightarrow> bool \<times> bool" where
  "ready_loop [] st = st"
| "ready_loop (c # cs) (accepted, enforced) =
     (case c of
        JObj cond \<Rightarrow>
          (let typ = str_field cond ''type''; status = str_field cond ''status'' in
           if typ = ''Accepted'' then ready_loop cs (status = ''True'', enforced)
           else if typ = ''Enforced'' then ready_loop cs (accepted, status = ''True'')
           else ready_loop cs (accepted, enforced))
      | _ \<Rightarrow> ready_loop cs (accepted, enforced))"

definition getAuthPolicyReadyState :: "libs \<Rightarrow> kuadrantPolicy \<Rightarrow> bool \<times> string" where
  "getAuthPolicyReadyState L p =
     (case NestedSlice L (kp_object p) [''status'', ''conditions''] of
        (conditions, f, err) \<Rightarrow>
          if err \<noteq> None \<or> \<not> f \<or> conditions = [] then (False, ''ConditionsNotFound'')
          else
            (case ready_loop conditions (False, False) of
               (True, True) \<Rightarrow> (True, ''AcceptedEnforced'')
             | (False, _) \<Rightarrow> (False, ''NotAccepted'')
             | (True, False) \<Rightarrow> (False, ''NotEnforced'')))"

definition gatewayAuthPolicyReady :: "apLibs \<Rightarrow> apReconciler \<Rightarrow> apEnv \<Rightarrow> nsname \<Rightarrow> kuadrantPolicy list \<Rightarrow> apError + bool" where
  "gatewayAuthPolicyReady P r E gw store =
     (case get_kp E (gateway_key r gw) store of
        Inl ApiNotFound \<Rightarrow> Inr False
      | Inl e \<Rightarrow> Inl (ApApi e)
      | Inr p \<Rightarrow>
        if \<not> isManaged (kp_meta p) then Inr False
        else
          (case NestedInt64 (pl_libs P) (kp_object p) [''status'', ''observedGeneration''] of
             (_, _, Some e) \<Rightarrow> Inl (ApSpec e)
           | (_, False, None) \<Rightarrow> Inr False
           | (observed, True, None) \<Rightarrow>
             if observed \<noteq> om_Generation (kp_meta p) then Inr False
             else Inr (fst (getAuthPolicyReadyState (pl_libs P) p))))"

abbreviation gatewayAPIVersion :: string where "gatewayAPIVersion \<equiv> ''gateway.networking.k8s.io/v1''"

definition hasGatewayOwnerReference :: "kuadrantPolicy \<Rightarrow> bool" where
  "hasGatewayOwnerReference p \<longleftrightarrow> list_ex (\<lambda>o'. or_Kind o' = ''Gateway'' \<and> or_APIVersion o' = gatewayAPIVersion) (kp_Owners p)"

fun set_owner :: "ownerReference \<Rightarrow> ownerReference list \<Rightarrow> ownerReference list" where
  "set_owner ref [] = [ref]"
| "set_owner ref (o' # os) = (if or_UID o' = or_UID ref then ref # os else o' # set_owner ref os)"

definition setGatewayOwnerReference :: "string \<Rightarrow> string \<Rightarrow> kuadrantPolicy \<Rightarrow> kuadrantPolicy" where
  "setGatewayOwnerReference gatewayName uid p =
     p\<lparr>kp_Owners := set_owner \<lparr>or_APIVersion = gatewayAPIVersion, or_Kind = ''Gateway'', or_Name = gatewayName, or_UID = uid\<rparr> (kp_Owners p)\<rparr>"

definition new_gateway_policy :: "nsname \<Rightarrow> kuadrantPolicy" where
  "new_gateway_policy key =
     \<lparr>kp_meta = \<lparr>om_Name = snd key, om_Namespace = fst key, om_UID = [],
        om_Labels = [managedByLabel \<mapsto> ''maas-controller'', partOfLabel \<mapsto> ''maas-gateway-auth'',
          ''app.kubernetes.io/component'' \<mapsto> ''gateway-auth''],
        om_Annotations = Map.empty, om_Finalizers = [], om_Deleting = False, om_Generation = 1, om_Created = None\<rparr>,
      kp_Owners = [], kp_Spec = None, kp_Status = []\<rparr>"

definition subscription_namespace :: "apReconciler \<Rightarrow> string \<Rightarrow> string" where
  "subscription_namespace r tenantNamespace =
     (if tenantNamespace \<noteq> [] then tenantNamespace
      else if st_DefaultTenantNamespace (ap_settings r) \<noteq> [] then st_DefaultTenantNamespace (ap_settings r)
      else ''models-as-a-service'')"

text \<open>The specification to write, and the subscription headers in it.\<close>

definition desired_spec ::
  "apLibs \<Rightarrow> apReconciler \<Rightarrow> apEnv \<Rightarrow> oidcConfig option \<Rightarrow> bool \<Rightarrow> string \<Rightarrow> string \<Rightarrow> nsname \<Rightarrow> guardrailHeader list option
     \<Rightarrow> apError + jobj \<times> string list" where
  "desired_spec P r E oidc xAPIKeyEnabled tenantNamespace tenantID gw hs =
     (case subscriptionHeaderNames (pl_libs P) (pe_subscriptions E (subscription_namespace r tenantNamespace)) of
        Inl e \<Rightarrow> Inl (ApApi e)
      | Inr names \<Rightarrow>
        (case applySubscriptionHeaders (pl_libs P) (pl_setters P)
                (buildGatewayAuthPolicySpec r oidc xAPIKeyEnabled tenantID (snd gw) hs) names of
           Inl e \<Rightarrow> Inl (ApSpec e)
         | Inr spec \<Rightarrow> Inr (spec, names)))"

text \<open>
  The Gateway that owns the policy: \<open>Inr (None, _)\<close> ends the reconciliation, otherwise the
  UID of the Gateway (none for a default gateway that is not there yet) and the policy found.
\<close>

definition gateway_owner ::
  "apReconciler \<Rightarrow> apEnv \<Rightarrow> nsname \<Rightarrow> kuadrantPolicy option \<Rightarrow> kuadrantPolicy list
     \<Rightarrow> (apError + (string option \<times> kuadrantPolicy option) option) \<times> kuadrantPolicy list" where
  "gateway_owner r E gw existing store =
     (case pe_gateway E gw of
        Inr uid \<Rightarrow> (Inr (Some (Some uid, existing)), store)
      | Inl ApiNotFound \<Rightarrow>
          (let (err, existing, store) =
             (case existing of
                Some p \<Rightarrow>
                  if isManaged (kp_meta p) \<and> (isTenantGateway r gw \<or> hasGatewayOwnerReference p) then
                    (case pe_deletePolicy E (kp_key p) of
                       Some e \<Rightarrow> (Some e, Some p, store)
                     | None \<Rightarrow> (None, None, remove_kp (kp_key p) store))
                  else (None, Some p, store)
              | None \<Rightarrow> (None, None, store))
           in case err of
                Some e \<Rightarrow> (Inl (ApApi e), store)
              | None \<Rightarrow> if isTenantGateway r gw then (Inr None, store) else (Inr (Some (None, existing)), store))
      | Inl e \<Rightarrow> (Inl (ApApi e), store))"

definition own :: "nsname \<Rightarrow> string option \<Rightarrow> kuadrantPolicy \<Rightarrow> kuadrantPolicy" where
  "own gw uid p = (case uid of None \<Rightarrow> p | Some u \<Rightarrow> setGatewayOwnerReference (snd gw) u p)"

definition create_gateway_policy ::
  "apReconciler \<Rightarrow> apEnv \<Rightarrow> nsname \<Rightarrow> string option \<Rightarrow> jobj \<Rightarrow> kuadrantPolicy list \<Rightarrow> (apError + bool) \<times> kuadrantPolicy list" where
  "create_gateway_policy r E gw uid spec store =
     (case pe_createPolicy E of
        Some e \<Rightarrow> (Inl (ApApi e), store)
      | None \<Rightarrow>
        if list_ex (\<lambda>p. kp_key p = gateway_key r gw) store then (Inl (ApApi ApiAlreadyExists), store)
        else (Inr True, store @ [(own gw uid (new_gateway_policy (gateway_key r gw)))\<lparr>kp_Spec := Some spec\<rparr>]))"

definition update_gateway_policy ::
  "apLibs \<Rightarrow> apReconciler \<Rightarrow> apEnv \<Rightarrow> nsname \<Rightarrow> string option \<Rightarrow> jobj \<Rightarrow> string list \<Rightarrow> guardrailHeader list option \<Rightarrow> kuadrantPolicy
     \<Rightarrow> kuadrantPolicy list \<Rightarrow> (apError + bool) \<times> kuadrantPolicy list" where
  "update_gateway_policy P r E gw uid spec names hs existing store =
     (if \<not> isManaged (kp_meta existing) then (Inr False, store)
      else
        (let currentSpec = kp_Spec existing;
             current = (case currentSpec of None \<Rightarrow> [] | Some s \<Rightarrow> s)
         in if specMatchesDesired (pe_float E) spec currentSpec \<and>
               (hs \<noteq> None \<or> \<not> basePolicyHasStaleGuardrailFields (pl_libs P) current) \<and>
               \<not> basePolicyHasStaleSubscriptionHeaderFields (pl_libs P) current names
            then (Inr False, store)
            else
              (case pe_updatePolicy E of
                 Some e \<Rightarrow> (Inl (ApApi e), store)
               | None \<Rightarrow>
                 (Inr True, put_kp ((own gw uid existing)\<lparr>kp_Spec := Some spec,
                    kp_meta := (kp_meta existing)\<lparr>om_Generation := om_Generation (kp_meta existing) + 1\<rparr>\<rparr>) store))))"

definition reconcileGatewayAuthPolicyWithHeaders ::
  "apLibs \<Rightarrow> apReconciler \<Rightarrow> apEnv \<Rightarrow> oidcConfig option \<Rightarrow> bool \<Rightarrow> string \<Rightarrow> string \<Rightarrow> nsname \<Rightarrow> guardrailHeader list option
     \<Rightarrow> kuadrantPolicy list \<Rightarrow> (apError + bool) \<times> kuadrantPolicy list" where
  "reconcileGatewayAuthPolicyWithHeaders P r E oidc xAPIKeyEnabled tenantNamespace tenantID gw hs store =
     (case desired_spec P r E oidc xAPIKeyEnabled tenantNamespace tenantID gw hs of
        Inl e \<Rightarrow> (Inl e, store)
      | Inr (spec, names) \<Rightarrow>
        (let found' = (case get_kp E (gateway_key r gw) store of
               Inr p \<Rightarrow> Inr (Some p) | Inl ApiNotFound \<Rightarrow> Inr None | Inl e \<Rightarrow> Inl e)
         in case found' of
              Inl e \<Rightarrow> (Inl (ApApi e), store)
            | Inr existing \<Rightarrow>
              (case gateway_owner r E gw existing store of
                 (Inl e, store) \<Rightarrow> (Inl e, store)
               | (Inr None, store) \<Rightarrow> (Inr False, store)
               | (Inr (Some (uid, None)), store) \<Rightarrow> create_gateway_policy r E gw uid spec store
               | (Inr (Some (uid, Some p)), store) \<Rightarrow> update_gateway_policy P r E gw uid spec names hs p store)))"

definition reconcileGatewayAuthPolicy ::
  "apLibs \<Rightarrow> apReconciler \<Rightarrow> apEnv \<Rightarrow> catalogReads \<Rightarrow> oidcConfig option \<Rightarrow> bool \<Rightarrow> string \<Rightarrow> string \<Rightarrow> nsname
     \<Rightarrow> kuadrantPolicy list \<Rightarrow> (apError + bool) \<times> kuadrantPolicy list" where
  "reconcileGatewayAuthPolicy P r E R oidc xAPIKeyEnabled tenantNamespace tenantID gw store =
     (case guardrailHeaders (ap_settings r) (pl_gateway P) (pl_headerName P) (pl_order P) R tenantNamespace of
        Inl e \<Rightarrow> (Inl (ApCatalog e), store)
      | Inr hs \<Rightarrow> reconcileGatewayAuthPolicyWithHeaders P r E oidc xAPIKeyEnabled tenantNamespace tenantID gw hs store)"

section \<open>Route policies of the models\<close>

definition x_api_key_model :: "libs \<Rightarrow> jobj \<Rightarrow> bool" where
  "x_api_key_model L obj =
     (case NestedSlice L obj [''spec'', ''externalProviderRefs''] of
        (refs, True, None) \<Rightarrow>
          list_ex (\<lambda>ref. case ref of JObj m \<Rightarrow> map_of m ''apiFormat'' = Some (JStr ''messages'') | _ \<Rightarrow> False) refs
      | _ \<Rightarrow> False)"

definition discoverXAPIKeyNeeded :: "libs \<Rightarrow> apEnv \<Rightarrow> bool" where
  "discoverXAPIKeyNeeded L E =
     (case pe_externalModels E of Inl e \<Rightarrow> False | Inr items \<Rightarrow> list_ex (x_api_key_model L) items)"

definition route_policy :: "kuadrantPolicy \<Rightarrow> bool" where
  "route_policy p \<longleftrightarrow>
     om_Labels (kp_meta p) managedByLabel = Some ''maas-controller'' \<and> om_Labels (kp_meta p) partOfLabel = Some ''maas-auth-policy''"

definition model_policy :: "string \<Rightarrow> string \<Rightarrow> kuadrantPolicy \<Rightarrow> bool" where
  "model_policy modelNamespace modelName p \<longleftrightarrow>
     om_Namespace (kp_meta p) = modelNamespace \<and> om_Labels (kp_meta p) modelLabel = Some modelName \<and> route_policy p"

definition deletable :: "string \<Rightarrow> kuadrantPolicy \<Rightarrow> bool" where
  "deletable modelNamespace p \<longleftrightarrow>
     (let labeled = label_value (om_Labels (kp_meta p)) modelNamespaceLabel in labeled = [] \<or> labeled = modelNamespace) \<and>
     isManaged (kp_meta p)"

fun delete_kps :: "apEnv \<Rightarrow> string \<Rightarrow> kuadrantPolicy list \<Rightarrow> kuadrantPolicy list \<Rightarrow> apError option \<times> kuadrantPolicy list" where
  "delete_kps E modelNamespace [] store = (None, store)"
| "delete_kps E modelNamespace (p # ps) store =
     (if \<not> deletable modelNamespace p then delete_kps E modelNamespace ps store
      else
        (case pe_deletePolicy E (kp_key p) of
           None \<Rightarrow> delete_kps E modelNamespace ps (remove_kp (kp_key p) store)
         | Some ApiNotFound \<Rightarrow> delete_kps E modelNamespace ps (remove_kp (kp_key p) store)
         | Some e \<Rightarrow> (Some (ApApi e), store)))"

definition deleteModelAuthPolicy :: "apEnv \<Rightarrow> string \<Rightarrow> string \<Rightarrow> kuadrantPolicy list \<Rightarrow> apError option \<times> kuadrantPolicy list" where
  "deleteModelAuthPolicy E modelNamespace modelName store =
     (case pe_listPolicies E of
        Some ApiNotFound \<Rightarrow> (None, store)
      | Some ApiNoMatch \<Rightarrow> (None, store)
      | Some e \<Rightarrow> (Some (ApApi e), store)
      | None \<Rightarrow> delete_kps E modelNamespace (filter (model_policy modelNamespace modelName) store) store)"

definition stale_for :: "authPolicyObject \<Rightarrow> kuadrantPolicy \<Rightarrow> nsname option" where
  "stale_for policy p =
     (let modelName = label_value (om_Labels (kp_meta p)) modelLabel;
          labeled = label_value (om_Labels (kp_meta p)) modelNamespaceLabel;
          modelNamespace = (if labeled = [] then om_Namespace (kp_meta p) else labeled);
          owners = label_value (om_Annotations (kp_meta p)) ''maas.opendatahub.io/auth-policies'';
          m = ap_meta policy
      in if modelName = [] then None
         else if modelNamespace @ ''/'' @ modelName \<in> set (map (\<lambda>(ns, n). ns @ ''/'' @ n) (ap_ModelRefs policy)) then None
         else if \<not> annotationListContains owners (om_Namespace m @ ''/'' @ om_Name m) \<and>
                 \<not> annotationListContains owners (om_Name m) then None
         else Some (modelNamespace, modelName))"

fun cleanup_loop :: "apEnv \<Rightarrow> authPolicyObject \<Rightarrow> kuadrantPolicy list \<Rightarrow> kuadrantPolicy list \<Rightarrow> apError option \<times> kuadrantPolicy list" where
  "cleanup_loop E policy [] store = (None, store)"
| "cleanup_loop E policy (p # ps) store =
     (case stale_for policy p of
        None \<Rightarrow> cleanup_loop E policy ps store
      | Some (ns, n) \<Rightarrow>
        (case deleteModelAuthPolicy E ns n store of
           (Some e, store) \<Rightarrow> (Some e, store)
         | (None, store) \<Rightarrow> cleanup_loop E policy ps store))"

definition cleanupStaleAuthPolicies :: "apEnv \<Rightarrow> authPolicyObject \<Rightarrow> kuadrantPolicy list \<Rightarrow> apError option \<times> kuadrantPolicy list" where
  "cleanupStaleAuthPolicies E policy store =
     (case pe_listPolicies E of
        Some ApiNotFound \<Rightarrow> (None, store)
      | Some ApiNoMatch \<Rightarrow> (None, store)
      | Some e \<Rightarrow> (Some (ApApi e), store)
      | None \<Rightarrow> cleanup_loop E policy (filter route_policy store) store)"

fun model_loop :: "libs \<Rightarrow> cluster \<Rightarrow> apEnv \<Rightarrow> nsname list \<Rightarrow> kuadrantPolicy list \<Rightarrow> apError option \<times> kuadrantPolicy list" where
  "model_loop L c E [] store = (None, store)"
| "model_loop L c E ((ns, n) # refs) store =
     (case findHTTPRouteForModel L c ns n of
        Inl ErrModelNotFound \<Rightarrow>
          (case deleteModelAuthPolicy E ns n store of
             (Some e, store) \<Rightarrow> (Some e, store)
           | (None, store) \<Rightarrow> model_loop L c E refs store)
      | Inl ErrHTTPRouteNotFound \<Rightarrow> model_loop L c E refs store
      | Inl e \<Rightarrow> (Some (ApRoute e), store)
      | Inr (routeName, routeNS) \<Rightarrow>
          (case modelAuthPolicyExists E routeNS n store of
             Inl e \<Rightarrow> (Some e, store)
           | Inr False \<Rightarrow> model_loop L c E refs store
           | Inr True \<Rightarrow>
               (case deleteModelAuthPolicy E routeNS n store of
                  (Some e, store) \<Rightarrow> (Some e, store)
                | (None, store) \<Rightarrow> model_loop L c E refs store)))"

text \<open>No reference is ever collected: the list of generated policies is empty.\<close>

definition reconcileModelAuthPolicies ::
  "libs \<Rightarrow> cluster \<Rightarrow> apEnv \<Rightarrow> authPolicyObject \<Rightarrow> kuadrantPolicy list \<Rightarrow> (apError + authPolicyRef list) \<times> kuadrantPolicy list" where
  "reconcileModelAuthPolicies L c E policy store =
     (case model_loop L c E (ap_ModelRefs policy) store of
        (Some e, store) \<Rightarrow> (Inl e, store)
      | (None, store) \<Rightarrow>
        (case cleanupStaleAuthPolicies E policy store of
           (Some e, store) \<Rightarrow> (Inl e, store)
         | (None, store) \<Rightarrow> (Inr [], store)))"

section \<open>Conflicting policies\<close>

record conflictingPolicyInfo =
  cf_Name :: string
  cf_Namespace :: string
  cf_HTTPRouteName :: string
  cf_Model :: string
  cf_ModelNS :: string

definition conflict_key :: "conflictingPolicyInfo \<Rightarrow> string" where
  "conflict_key c = cf_Namespace c @ ''/'' @ cf_Name c"

definition targets_route :: "libs \<Rightarrow> string \<Rightarrow> kuadrantPolicy \<Rightarrow> bool" where
  "targets_route L routeName p \<longleftrightarrow>
     value_of (NestedString L (kp_object p) [''spec'', ''targetRef'', ''name'']) = routeName \<and>
     value_of (NestedString L (kp_object p) [''spec'', ''targetRef'', ''kind'']) = ''HTTPRoute'' \<and>
     value_of (NestedString L (kp_object p) [''spec'', ''targetRef'', ''group'']) = ''gateway.networking.k8s.io''"

definition findConflictsForHTTPRoute ::
  "libs \<Rightarrow> apEnv \<Rightarrow> string \<Rightarrow> string \<Rightarrow> nsname \<Rightarrow> kuadrantPolicy list \<Rightarrow> apError + conflictingPolicyInfo list" where
  "findConflictsForHTTPRoute L E routeName routeNS model store =
     (case pe_listPolicies E of
        Some ApiNoMatch \<Rightarrow> Inr []
      | Some e \<Rightarrow> Inl (ApApi e)
      | None \<Rightarrow>
        Inr (map (\<lambda>p. \<lparr>cf_Name = om_Name (kp_meta p), cf_Namespace = om_Namespace (kp_meta p), cf_HTTPRouteName = routeName,
               cf_Model = snd model, cf_ModelNS = fst model\<rparr>)
          (filter (\<lambda>p. om_Namespace (kp_meta p) = routeNS \<and> label_value (om_Labels (kp_meta p)) managedByLabel \<noteq> ''maas-controller'' \<and>
             targets_route L routeName p) store)))"

definition model_conflicts :: "libs \<Rightarrow> cluster \<Rightarrow> apEnv \<Rightarrow> kuadrantPolicy list \<Rightarrow> nsname \<Rightarrow> apError + conflictingPolicyInfo list" where
  "model_conflicts L c E store ref =
     (case findHTTPRouteForModel L c (fst ref) (snd ref) of
        Inl ErrModelNotFound \<Rightarrow> Inr []
      | Inl ErrHTTPRouteNotFound \<Rightarrow> Inr []
      | Inl e \<Rightarrow> Inl (ApRoute e)
      | Inr (routeName, routeNS) \<Rightarrow> findConflictsForHTTPRoute L E routeName routeNS ref store)"

definition detectConflictingAuthPolicies ::
  "libs \<Rightarrow> cluster \<Rightarrow> apEnv \<Rightarrow> authPolicyObject \<Rightarrow> kuadrantPolicy list \<Rightarrow> apError + conflictingPolicyInfo list" where
  "detectConflictingAuthPolicies L c E policy store =
     bind_res (traverse (model_conflicts L c E store) (ap_ModelRefs policy)) (\<lambda>conflicts.
     Inr (SliceStable (\<lambda>a b. conflict_key a < conflict_key b)
       (map snd (fold (\<lambda>i. AList.update (conflict_key i) i) (concat conflicts) []))))"

definition pluralY :: "nat \<Rightarrow> string" where
  "pluralY n = (if n = 1 then ''y'' else ''ies'')"

abbreviation ConditionConflictingAuthPolicy :: string where "ConditionConflictingAuthPolicy \<equiv> ''ConflictingAuthPolicy''"

definition set_policy_condition :: "apEnv \<Rightarrow> string \<Rightarrow> string \<Rightarrow> string \<Rightarrow> string \<Rightarrow> authPolicyObject \<Rightarrow> authPolicyObject" where
  "set_policy_condition E ty status reason message policy =
     policy\<lparr>ao_Conditions := pe_setCondition E
       \<lparr>cd_Type = ty, cd_Status = status, cd_Reason = reason, cd_Message = message,
        cd_ObservedGeneration = om_Generation (ap_meta policy)\<rparr> (ao_Conditions policy)\<rparr>"

definition conflicts_message :: "conflictingPolicyInfo list \<Rightarrow> string" where
  "conflicts_message conflicts =
     (let msg = ''Detected '' @ Itoa (length conflicts) @ '' non-MaaS AuthPolic'' @ pluralY (length conflicts) @
        '' targeting MaaS-managed HTTPRoutes: '' @ Join (map conflict_key conflicts) '', '' @ ''. '' @
        ''These policies may override MaaS authentication. '' @
        ''See MaaS troubleshooting documentation for remediation.''
      in if length msg > 1024 then take 1021 msg @ ''...'' else msg)"

definition setConflictingAuthPolicyCondition :: "apEnv \<Rightarrow> conflictingPolicyInfo list \<Rightarrow> authPolicyObject \<Rightarrow> authPolicyObject" where
  "setConflictingAuthPolicyCondition E conflicts policy =
     (if conflicts = []
      then set_policy_condition E ConditionConflictingAuthPolicy ''False'' ''NoConflict''
        ''No conflicting AuthPolicies detected on MaaS-managed HTTPRoutes'' policy
      else set_policy_condition E ConditionConflictingAuthPolicy ''True'' ''ConflictDetected'' (conflicts_message conflicts) policy)"

section \<open>Status\<close>

definition findMissingModelRefs :: "cluster \<Rightarrow> authPolicyObject \<Rightarrow> nsname list" where
  "findMissingModelRefs c policy = filter (\<lambda>(ns, n). case cl_Model c ns n of Inl _ \<Rightarrow> True | Inr _ \<Rightarrow> False) (ap_ModelRefs policy)"

definition deriveAuthPolicyPhase :: "authPolicyObject \<Rightarrow> nsname list \<Rightarrow> string \<times> string" where
  "deriveAuthPolicyPhase policy missingModels =
     (let totalModels = int (length (ap_ModelRefs policy)); missingCount = int (length missingModels);
          unhealthy = int (length (filter (\<lambda>a. \<not> ars_Ready a) (ao_AuthPolicies policy)))
      in if totalModels - missingCount = 0 then (''Failed'', ''all '' @ format_int totalModels @ '' model references are invalid or missing'')
         else if missingCount > 0 then (''Degraded'', format_int missingCount @ '' of '' @ format_int totalModels @ '' model references are missing'')
         else if unhealthy > 0 then (''Degraded'', format_int unhealthy @ '' of '' @ Itoa (length (ao_AuthPolicies policy)) @
           '' group AuthPolicies not accepted/enforced'')
         else (''Active'', ''successfully reconciled''))"

definition updateAuthPolicyRefStatus :: "libs \<Rightarrow> apEnv \<Rightarrow> kuadrantPolicy list \<Rightarrow> authPolicyRef list \<Rightarrow> authPolicyObject \<Rightarrow> authPolicyObject" where
  "updateAuthPolicyRefStatus L E store refs policy =
     policy\<lparr>ao_AuthPolicies := map (\<lambda>ref.
       (let (ready, reason) =
          (case get_kp E (apr_Namespace ref, apr_Name ref) store of
             Inl ApiNotFound \<Rightarrow> (False, ''NotFound'')
           | Inl _ \<Rightarrow> (False, ''GetFailed'')
           | Inr p \<Rightarrow> getAuthPolicyReadyState L p)
        in \<lparr>ars_Name = apr_Name ref, ars_Namespace = apr_Namespace ref, ars_Ready = ready, ars_Reason = reason,
             ars_Model = apr_Model ref, ars_ModelNamespace = apr_ModelNamespace ref\<rparr>)) refs\<rparr>"

definition policy_status_of :: "authPolicyObject \<Rightarrow> string \<times> condition list \<times> authPolicyRefStatus list" where
  "policy_status_of p = (ao_Phase p, ao_Conditions p, ao_AuthPolicies p)"

definition phase_condition :: "string \<Rightarrow> string \<times> string" where
  "phase_condition phase =
     (if phase = ''Active'' then (''True'', ''Reconciled'')
      else if phase = ''Degraded'' then (''False'', ''PartialFailure'')
      else if phase = ''Failed'' then (''False'', ''ReconcileFailed'')
      else if phase = ''Invalid'' then (''False'', ''InvalidSpec'')
      else (''Unknown'', ''Unknown''))"

definition updatePolicyStatus ::
  "apEnv \<Rightarrow> authPolicyObject \<Rightarrow> string \<Rightarrow> string \<Rightarrow> authPolicyObject \<Rightarrow> apState \<Rightarrow> apError option \<times> apState" where
  "updatePolicyStatus E policy phase message snapshot st =
     (let policy = set_policy_condition E ''Ready'' (fst (phase_condition phase)) (snd (phase_condition phase)) message
            (policy\<lparr>ao_Phase := phase\<rparr>)
      in if policy_status_of snapshot = policy_status_of policy then (None, st)
         else (case pe_status E of Some e \<Rightarrow> (Some (ApApi e), st) | None \<Rightarrow> (None, st\<lparr>as_policy := Some policy\<rparr>)))"

definition reconcileFailed :: "apEnv \<Rightarrow> authPolicyObject \<Rightarrow> authPolicyObject \<Rightarrow> apError \<Rightarrow> apState \<Rightarrow> apOutcome \<times> apState" where
  "reconcileFailed E policy snapshot cause st =
     (ApFailed cause, snd (updatePolicyStatus E policy ''Failed'' ''reconcile failed'' snapshot st))"

definition reconcilePending :: "apEnv \<Rightarrow> authPolicyObject \<Rightarrow> authPolicyObject \<Rightarrow> apState \<Rightarrow> apOutcome \<times> apState" where
  "reconcilePending E policy snapshot st =
     (case updatePolicyStatus E policy ''Pending'' ''waiting'' snapshot st of
        (Some e, st) \<Rightarrow> (ApFailed e, st)
      | (None, st) \<Rightarrow> (ApRequeueAfter 10, st))"

definition status_written :: "apError option \<times> apState \<Rightarrow> apOutcome \<times> apState" where
  "status_written r = (case r of (Some e, st) \<Rightarrow> (ApFailed e, st) | (None, st) \<Rightarrow> (ApDone, st))"

section \<open>Deletion\<close>

definition put_policy :: "authPolicyObject \<Rightarrow> apState \<Rightarrow> apState" where
  "put_policy p st =
     st\<lparr>as_policy := (if om_Deleting (ap_meta p) \<and> om_Finalizers (ap_meta p) = [] then None else Some p)\<rparr>"

fun delete_models :: "apEnv \<Rightarrow> nsname list \<Rightarrow> kuadrantPolicy list \<Rightarrow> apError option \<times> kuadrantPolicy list" where
  "delete_models E [] store = (None, store)"
| "delete_models E ((ns, n) # refs) store =
     (case deleteModelAuthPolicy E ns n store of
        (Some e, store) \<Rightarrow> (Some e, store)
      | (None, store) \<Rightarrow> delete_models E refs store)"

definition live_policies :: "authPolicyObject \<Rightarrow> maasAuthPolicy list \<Rightarrow> maasAuthPolicy list" where
  "live_policies policy items =
     filter (\<lambda>p. meta_key (ap_meta p) \<noteq> meta_key (ap_meta policy) \<and> \<not> om_Deleting (ap_meta p)) items"

text \<open>The reset of the gateway policy when the last policy of the namespace goes.\<close>

definition reset_gateway ::
  "apLibs \<Rightarrow> apReconciler \<Rightarrow> apEnv \<Rightarrow> cluster \<Rightarrow> authPolicyObject \<Rightarrow> kuadrantPolicy list \<Rightarrow> apError option \<times> kuadrantPolicy list" where
  "reset_gateway P r E c policy store =
     (let ns = om_Namespace (ap_meta policy); S = ap_settings r in
      case fetchTenantIdentifier c ns of
        Inl e \<Rightarrow> (Some e, store)
      | Inr tenantID \<Rightarrow>
        (case fetchGatewayInfo r E c ns of
           Inl e \<Rightarrow> (Some e, store)
         | Inr gw \<Rightarrow>
           (let isDefaultTenantNamespace = (st_DefaultTenantNamespace S = [] \<or> ns = st_DefaultTenantNamespace S);
                isDefaultGateway = (\<not> isTenantGateway r gw)
            in if tenantID \<noteq> [] \<and> isDefaultGateway then (None, store)
               else if \<not> isDefaultTenantNamespace \<and> tenantID = [] \<and> isDefaultGateway then (None, store)
               else
                 (case reconcileGatewayAuthPolicyWithHeaders P r E (fetchOIDCConfig r E c ns)
                         (discoverXAPIKeyNeeded (pl_libs P) E) ns tenantID gw None store of
                    (Inl e, store) \<Rightarrow> (Some e, store)
                  | (Inr _, store) \<Rightarrow> (None, store)))))"

definition handlePolicyDeletion ::
  "apLibs \<Rightarrow> apReconciler \<Rightarrow> apEnv \<Rightarrow> cluster \<Rightarrow> authPolicyObject \<Rightarrow> apState \<Rightarrow> apOutcome \<times> apState" where
  "handlePolicyDeletion P r E c policy st =
     (if maasAuthPolicyFinalizer \<notin> set (om_Finalizers (ap_meta policy)) then (ApDone, st)
      else
        (case delete_models E (ap_ModelRefs policy) (as_store st) of
           (Some e, store) \<Rightarrow> (ApFailed e, st\<lparr>as_store := store\<rparr>)
         | (None, store) \<Rightarrow>
           (case cleanupStaleAuthPolicies E policy store of
              (Some e, store) \<Rightarrow> (ApFailed e, st\<lparr>as_store := store\<rparr>)
            | (None, store) \<Rightarrow>
              (case pe_policies E (om_Namespace (ap_meta policy)) of
                 Inl e \<Rightarrow> (ApFailed (ApApi e), st\<lparr>as_store := store\<rparr>)
               | Inr remaining \<Rightarrow>
                 (case (if live_policies policy remaining = [] then reset_gateway P r E c policy store else (None, store)) of
                    (Some e, store) \<Rightarrow> (ApFailed e, st\<lparr>as_store := store\<rparr>)
                  | (None, store) \<Rightarrow>
                    (case pe_update E of
                       Some e \<Rightarrow> (ApFailed (ApApi e), st\<lparr>as_store := store\<rparr>)
                     | None \<Rightarrow>
                       (ApDone, put_policy (policy\<lparr>ap_meta := (ap_meta policy)\<lparr>om_Finalizers :=
                          removeAll maasAuthPolicyFinalizer (om_Finalizers (ap_meta policy))\<rparr>\<rparr>) (st\<lparr>as_store := store\<rparr>)))))))) "

section \<open>Reconciling\<close>

definition policy_spec_empty :: "authPolicyObject \<Rightarrow> bool" where
  "policy_spec_empty p \<longleftrightarrow> ap_ModelRefs p = [] \<and> \<not> ao_OtherSpec p"

definition add_policy_finalizer :: "apEnv \<Rightarrow> authPolicyObject \<Rightarrow> apState \<Rightarrow> (apiError + authPolicyObject) \<times> apState" where
  "add_policy_finalizer E policy st =
     (if maasAuthPolicyFinalizer \<in> set (om_Finalizers (ap_meta policy)) then (Inr policy, st)
      else
        (let policy = policy\<lparr>ap_meta := (ap_meta policy)\<lparr>om_Finalizers := om_Finalizers (ap_meta policy) @ [maasAuthPolicyFinalizer]\<rparr>\<rparr> in
         case pe_update E of Some e \<Rightarrow> (Inl e, st) | None \<Rightarrow> (Inr policy, put_policy policy st)))"

text \<open>The last part: route policies, conflicts and the final phase.\<close>

definition finish_policy ::
  "apLibs \<Rightarrow> apEnv \<Rightarrow> cluster \<Rightarrow> nsname list \<Rightarrow> authPolicyObject \<Rightarrow> apState \<Rightarrow> apOutcome \<times> apState" where
  "finish_policy P E c missingModels policy st =
     (case reconcileModelAuthPolicies (pl_libs P) c E policy (as_store st) of
        (Inl e, store) \<Rightarrow> reconcileFailed E policy policy e (st\<lparr>as_store := store\<rparr>)
      | (Inr refs, store) \<Rightarrow>
        (let st = st\<lparr>as_store := store\<rparr>;
             policy1 = updateAuthPolicyRefStatus (pl_libs P) E store refs policy;
             policy2 = (case detectConflictingAuthPolicies (pl_libs P) c E policy1 store of
                Inl e \<Rightarrow> set_policy_condition E ConditionConflictingAuthPolicy ''Unknown'' ''ConflictCheckFailed'' ''conflict check failed'' policy1
              | Inr conflicts \<Rightarrow> setConflictingAuthPolicyCondition E conflicts policy1);
             (phase, message) = deriveAuthPolicyPhase policy2 missingModels
         in status_written (updatePolicyStatus E policy2 phase message policy st)))"

text \<open>The gateway part, with the two waits of the cut-over.\<close>

definition reconcile_gateway_part ::
  "apLibs \<Rightarrow> apReconciler \<Rightarrow> apEnv \<Rightarrow> cluster \<Rightarrow> catalogReads \<Rightarrow> oidcConfig option \<Rightarrow> bool \<Rightarrow> string \<Rightarrow> nsname \<Rightarrow> authPolicyObject \<Rightarrow> apState
     \<Rightarrow> (apOutcome \<times> apState) + apState" where
  "reconcile_gateway_part P r E c R oidc xAPIKeyEnabled tenantID gw policy st =
     (let ns = om_Namespace (ap_meta policy) in
      case hasLegacyModelAuthPolicy E ns (as_store st) of
        Inl e \<Rightarrow> Inl (reconcileFailed E policy policy e st)
      | Inr legacyPolicyExists \<Rightarrow>
        (case (if legacyPolicyExists then targetMaaSAPIReady r E tenantID else Inr True) of
           Inl e \<Rightarrow> Inl (reconcileFailed E policy policy e st)
         | Inr False \<Rightarrow> Inl (reconcilePending E policy policy st)
         | Inr True \<Rightarrow>
           (case reconcileGatewayAuthPolicy P r E R oidc xAPIKeyEnabled ns tenantID gw (as_store st) of
              (Inl e, store) \<Rightarrow> Inl (reconcileFailed E policy policy e (st\<lparr>as_store := store\<rparr>))
            | (Inr gwChanged, store) \<Rightarrow>
              (let st = st\<lparr>as_store := store\<rparr> in
               if gwChanged \<or> legacyPolicyExists \<or> ao_Phase policy \<noteq> ''Active'' then
                 (case gatewayAuthPolicyReady P r E gw store of
                    Inl e \<Rightarrow> Inl (reconcileFailed E policy policy e st)
                  | Inr False \<Rightarrow> Inl (reconcilePending E policy policy st)
                  | Inr True \<Rightarrow> Inr st)
               else Inr st))))"

definition ReconcilePolicy ::
  "apLibs \<Rightarrow> apReconciler \<Rightarrow> apEnv \<Rightarrow> cluster \<Rightarrow> catalogReads \<Rightarrow> apState \<Rightarrow> apOutcome \<times> apState" where
  "ReconcilePolicy P r E c R st =
     (case pe_get E of
        Some ApiNotFound \<Rightarrow> (ApDone, st)
      | Some e \<Rightarrow> (ApFailed (ApApi e), st)
      | None \<Rightarrow>
        (case as_policy st of
           None \<Rightarrow> (ApDone, st)
         | Some policy \<Rightarrow>
           let ns = om_Namespace (ap_meta policy) in
           if om_Deleting (ap_meta policy) then handlePolicyDeletion P r E c policy st
           else
             (case tenantNamespaceAllowed (ap_settings r) c ns of
                Inl e \<Rightarrow> (ApFailed (ApApi e), st)
              | Inr False \<Rightarrow> (ApDone, st)
              | Inr True \<Rightarrow>
                if policy_spec_empty policy then status_written (updatePolicyStatus E policy ''Invalid'' ''spec is required'' policy st)
                else
                  (case add_policy_finalizer E policy st of
                     (Inl e, st) \<Rightarrow> (ApFailed (ApApi e), st)
                   | (Inr policy, st) \<Rightarrow>
                     (case fetchTenantIdentifier c ns of
                        Inl e \<Rightarrow> reconcileFailed E policy policy e st
                      | Inr tenantID \<Rightarrow>
                        (case fetchGatewayInfo r E c ns of
                           Inl e \<Rightarrow> reconcileFailed E policy policy e st
                         | Inr gw \<Rightarrow>
                           if tenantID \<noteq> [] \<and> \<not> isTenantGateway r gw
                           then status_written (updatePolicyStatus E policy ''Active'' [] policy st)
                           else
                             (case reconcile_gateway_part P r E c R (fetchOIDCConfig r E c ns)
                                     (discoverXAPIKeyNeeded (pl_libs P) E) tenantID gw policy st of
                                Inl result \<Rightarrow> result
                              | Inr st \<Rightarrow> finish_policy P E c (findMissingModelRefs c policy) policy st)))))))"

section \<open>The base policy\<close>

text \<open>Errors of the clean-up of the old policy are only logged.\<close>

definition deleteLegacyGatewayDefaultAuthPolicy :: "apReconciler \<Rightarrow> apEnv \<Rightarrow> kuadrantPolicy list \<Rightarrow> kuadrantPolicy list" where
  "deleteLegacyGatewayDefaultAuthPolicy r E store =
     (case get_kp E (st_GatewayNamespace (ap_settings r), legacyGatewayDefaultAuthPolicyName) store of
        Inl _ \<Rightarrow> store
      | Inr p \<Rightarrow>
        if \<not> isManaged (kp_meta p) then store
        else
          (case pe_deletePolicy E (kp_key p) of
             None \<Rightarrow> remove_kp (kp_key p) store
           | Some ApiNotFound \<Rightarrow> remove_kp (kp_key p) store
           | Some _ \<Rightarrow> store))"

definition ensureBaseGatewayAuthPolicy ::
  "apLibs \<Rightarrow> apReconciler \<Rightarrow> apEnv \<Rightarrow> oidcConfig option \<Rightarrow> bool \<Rightarrow> string \<Rightarrow> string \<Rightarrow> nsname \<Rightarrow> kuadrantPolicy list
     \<Rightarrow> apError option \<times> kuadrantPolicy list" where
  "ensureBaseGatewayAuthPolicy P r E oidc xAPIKeyEnabled tenantNamespace tenantID gw store =
     (let store = (if isTenantGateway r gw then store else deleteLegacyGatewayDefaultAuthPolicy r E store) in
      case get_kp E (gateway_key r gw) store of
        Inr _ \<Rightarrow> (None, store)
      | Inl ApiNotFound \<Rightarrow>
          (case reconcileGatewayAuthPolicyWithHeaders P r E oidc xAPIKeyEnabled tenantNamespace tenantID gw None store of
             (Inl e, store) \<Rightarrow> (Some e, store)
           | (Inr _, store) \<Rightarrow> (None, store))
      | Inl e \<Rightarrow> (Some (ApApi e), store))"

definition syncDefaultGatewayAuthPolicyForXAPIKeyDiscovery ::
  "apLibs \<Rightarrow> apReconciler \<Rightarrow> apEnv \<Rightarrow> cluster \<Rightarrow> kuadrantPolicy list \<Rightarrow> apError option \<times> kuadrantPolicy list" where
  "syncDefaultGatewayAuthPolicyForXAPIKeyDiscovery P r E c store =
     (let S = ap_settings r;
          oidcNS = (if st_DefaultTenantNamespace S = [] then ''opendatahub'' else st_DefaultTenantNamespace S)
      in case reconcileGatewayAuthPolicyWithHeaders P r E (fetchOIDCConfig r E c oidcNS) (discoverXAPIKeyNeeded (pl_libs P) E)
                (st_DefaultTenantNamespace S) [] (st_GatewayNamespace S, st_GatewayName S) None store of
           (Inl e, store) \<Rightarrow> (Some e, store)
         | (Inr _, store) \<Rightarrow> (None, store))"

section \<open>Which policies are looked at again\<close>

definition requests_of :: "maasAuthPolicy list \<Rightarrow> nsname list" where
  "requests_of = map (\<lambda>p. meta_key (ap_meta p))"

definition tenant_policies :: "apReconciler \<Rightarrow> cluster \<Rightarrow> apiError + maasAuthPolicy list \<Rightarrow> maasAuthPolicy list" where
  "tenant_policies r c items =
     (case items of Inl _ \<Rightarrow> [] | Inr ps \<Rightarrow> filterAuthPoliciesByTenantNamespace (ap_settings r) c ps)"

definition TenantNamespaceForAITenant :: "string \<Rightarrow> string \<Rightarrow> string" where
  "TenantNamespaceForAITenant name defaultTenantNamespace =
     (if name = DefaultAITenantName \<or> defaultTenantNamespace \<noteq> [] \<and> name = defaultTenantNamespace then
        (if defaultTenantNamespace \<noteq> [] then defaultTenantNamespace else DefaultAITenantName)
      else ''ai-tenant-'' @ name)"

definition mapAITenantToMaaSAuthPolicies :: "apReconciler \<Rightarrow> apEnv \<Rightarrow> cluster \<Rightarrow> string \<Rightarrow> nsname list" where
  "mapAITenantToMaaSAuthPolicies r E c aitenantName =
     requests_of (tenant_policies r c
       (pe_policies E (TenantNamespaceForAITenant aitenantName (st_DefaultTenantNamespace (ap_settings r)))))"

definition mapTenantToMaaSAuthPolicies :: "apReconciler \<Rightarrow> apEnv \<Rightarrow> cluster \<Rightarrow> string \<Rightarrow> nsname list" where
  "mapTenantToMaaSAuthPolicies r E c namespace = requests_of (tenant_policies r c (pe_policies E namespace))"

definition mapMaaSAuthPoliciesInNamespace :: "apReconciler \<Rightarrow> apEnv \<Rightarrow> string \<Rightarrow> nsname list" where
  "mapMaaSAuthPoliciesInNamespace r E ns =
     (if ns \<noteq> st_DefaultTenantNamespace (ap_settings r) \<and> \<not> st_Discovery (ap_settings r) then []
      else (case pe_policies E ns of Inl _ \<Rightarrow> [] | Inr ps \<Rightarrow> requests_of ps))"

definition enqueueMaaSAuthPoliciesInNamespace :: "apEnv \<Rightarrow> string \<Rightarrow> nsname list" where
  "enqueueMaaSAuthPoliciesInNamespace E ns =
     (if ns = [] then [] else (case pe_policies E ns of Inl _ \<Rightarrow> [] | Inr ps \<Rightarrow> requests_of ps))"

definition mapGeneratedAuthPolicyToParent :: "apReconciler \<Rightarrow> mrEnv \<Rightarrow> cluster \<Rightarrow> objectMeta \<Rightarrow> nsname list" where
  "mapGeneratedAuthPolicyToParent r M c m =
     (let modelName = label_value (om_Labels m) modelLabel;
          labeled = label_value (om_Labels m) modelNamespaceLabel;
          modelNamespace = (if labeled = [] then om_Namespace m else labeled)
      in if label_value (om_Labels m) managedByLabel \<noteq> ''maas-controller'' then []
         else if modelName = [] then []
         else
           (case findAnyAuthPolicyForModel (ap_settings r) c M modelNamespace modelName of
              None \<Rightarrow> [] | Some p \<Rightarrow> [meta_key (ap_meta p)]))"

definition mapMaaSModelRefToMaaSAuthPolicies :: "apReconciler \<Rightarrow> apEnv \<Rightarrow> cluster \<Rightarrow> nsname \<Rightarrow> nsname list" where
  "mapMaaSModelRefToMaaSAuthPolicies r E c model =
     (case pe_allPolicies E of
        Inl _ \<Rightarrow> []
      | Inr items \<Rightarrow>
        (let policies = filterAuthPoliciesByTenantNamespace (ap_settings r) c items;
             direct = filter (\<lambda>p. model \<in> set (ap_ModelRefs p)) policies
         in case pe_allSubscriptions E of
              Inl _ \<Rightarrow> first_keys [] (requests_of direct)
            | Inr subs \<Rightarrow>
              (let namespaces = map (\<lambda>s. om_Namespace (ms_meta s))
                     (filter (\<lambda>s. model \<in> set (map (\<lambda>ref. (msr_Namespace ref, msr_Name ref)) (ms_ModelRefs s))) subs)
               in first_keys [] (requests_of (direct @
                    filter (\<lambda>p. om_Namespace (ap_meta p) \<in> set namespaces) policies)))))"

definition mapHTTPRouteToMaaSAuthPolicies :: "apReconciler \<Rightarrow> apEnv \<Rightarrow> cluster \<Rightarrow> apiError + nsname list \<Rightarrow> nsname list" where
  "mapHTTPRouteToMaaSAuthPolicies r E c models =
     (case models of
        Inl _ \<Rightarrow> []
      | Inr keys \<Rightarrow>
        if keys = [] then []
        else requests_of (filter (\<lambda>p. list_ex (\<lambda>(ns, n). ns @ ''/'' @ n \<in> set (map (\<lambda>(ns, n). ns @ ''/'' @ n) keys)) (ap_ModelRefs p))
          (tenant_policies r c (pe_allPolicies E))))"

text \<open>A change of a guardrail queues every policy of a tenant namespace, or none on an error.\<close>

fun propagate_loop :: "settings \<Rightarrow> cluster \<Rightarrow> (string \<rightharpoonup> bool) \<Rightarrow> maasAuthPolicy list \<Rightarrow> apiError + nsname list" where
  "propagate_loop S c allowed [] = Inr []"
| "propagate_loop S c allowed (p # ps) =
     (let ns = om_Namespace (ap_meta p) in
      case (case allowed ns of Some ok \<Rightarrow> Inr ok | None \<Rightarrow> tenantNamespaceAllowed S c ns) of
        Inl e \<Rightarrow> Inl e
      | Inr ok \<Rightarrow>
        bind_res (propagate_loop S c (allowed(ns \<mapsto> ok)) ps) (\<lambda>rest.
        Inr ((if ok then [meta_key (ap_meta p)] else []) @ rest)))"

definition propagateGuardrailChange :: "apReconciler \<Rightarrow> apEnv \<Rightarrow> cluster \<Rightarrow> bool \<Rightarrow> apError + nsname list" where
  "propagateGuardrailChange r E c connected =
     (if \<not> connected then Inl (ApSpec ''guardrail propagation queue is not connected'')
      else
        (case pe_allPolicies E of
           Inl e \<Rightarrow> Inl (ApApi e)
         | Inr items \<Rightarrow> (case propagate_loop (ap_settings r) c Map.empty items of Inl e \<Rightarrow> Inl (ApApi e) | Inr reqs \<Rightarrow> Inr reqs)))"

section \<open>Which policies a reconciliation changes\<close>

text \<open>
  Every policy that a step changes or removes satisfies \<open>C\<close>, and keys stay unique.
\<close>

definition changes_only :: "(kuadrantPolicy \<Rightarrow> bool) \<Rightarrow> kuadrantPolicy list \<Rightarrow> kuadrantPolicy list \<Rightarrow> bool" where
  "changes_only C store store' \<longleftrightarrow>
     (distinct (map kp_key store) \<longrightarrow>
        distinct (map kp_key store') \<and> (\<forall>p. p \<in> set store \<longrightarrow> p \<notin> set store' \<longrightarrow> C p))"

lemma changes_only_refl [simp]: "changes_only C store store"
  by (simp add: changes_only_def)

lemma changes_only_trans: "changes_only C a b \<Longrightarrow> changes_only C b c \<Longrightarrow> changes_only C a c"
  by (auto simp: changes_only_def)

lemma changes_only_mono: "changes_only C a b \<Longrightarrow> (\<And>p. C p \<Longrightarrow> D p) \<Longrightarrow> changes_only D a b"
  by (auto simp: changes_only_def)

lemma unique_key: "distinct (map kp_key store) \<Longrightarrow> p \<in> set store \<Longrightarrow> q \<in> set store \<Longrightarrow> kp_key p = kp_key q \<Longrightarrow> p = q"
  by (simp add: distinct_map inj_on_def)

lemma distinct_remove_kp: "distinct (map kp_key store) \<Longrightarrow> distinct (map kp_key (remove_kp key store))"
  by (simp add: remove_kp_def distinct_map_filter)

lemma set_remove_kp: "set (remove_kp key store) = {p \<in> set store. kp_key p \<noteq> key}"
  by (auto simp: remove_kp_def)

definition generated :: "kuadrantPolicy \<Rightarrow> bool" where
  "generated p \<longleftrightarrow> isManaged (kp_meta p) \<and> route_policy p"

lemma remove_generated:
  assumes "p \<in> set store" and "C p"
  shows "changes_only C store (remove_kp (kp_key p) store)"
proof -
  have "q = p" if "distinct (map kp_key store)" "q \<in> set store" "q \<notin> set (remove_kp (kp_key p) store)" for q
    using that assms(1) by (auto simp: set_remove_kp dest: unique_key)
  with assms(2) show ?thesis by (auto simp: changes_only_def distinct_remove_kp)
qed

lemma delete_kps_generated:
  assumes "delete_kps E ns ps store = (e, store')" and "list_all generated (filter (deletable ns) ps)"
    and "set ps \<subseteq> set store0" and "distinct (map kp_key store0)" and "set store \<subseteq> set store0"
  shows "changes_only generated store store'"
  using assms
proof (induction ps arbitrary: store)
  case Nil
  then show ?case by simp
next
  case (Cons p ps)
  show ?case
  proof (cases "deletable ns p")
    case False
    with Cons show ?thesis by simp
  next
    case True
    have keep: "set (remove_kp (kp_key p) store) \<subseteq> set store0" using Cons.prems(5) by (auto simp: set_remove_kp)
    have "changes_only generated store (remove_kp (kp_key p) store)"
    proof -
      have "q = p" if "q \<in> set store" "q \<notin> set (remove_kp (kp_key p) store)" for q
        using that Cons.prems(3-5) by (auto simp: set_remove_kp intro: unique_key)
      with True Cons.prems(2) show ?thesis by (auto simp: changes_only_def distinct_remove_kp)
    qed
    moreover have "store' = store \<or> delete_kps E ns ps (remove_kp (kp_key p) store) = (e, store')"
      using Cons.prems(1) True by (auto split: option.splits apiError.splits)
    moreover have "changes_only generated (remove_kp (kp_key p) store) store'"
      if "delete_kps E ns ps (remove_kp (kp_key p) store) = (e, store')"
      using Cons.IH [OF that _ _ Cons.prems(4) keep] Cons.prems(2,3) True by simp
    ultimately show ?thesis by (metis changes_only_refl changes_only_trans)
  qed
qed

lemma deletable_managed: "deletable ns p \<Longrightarrow> isManaged (kp_meta p)"
  by (simp add: deletable_def)

lemma delete_model_generated:
  assumes "deleteModelAuthPolicy E ns n store = (e, store')"
  shows "changes_only generated store store'"
proof (cases "distinct (map kp_key store)")
  case True
  have "list_all generated (filter (deletable ns) (filter (model_policy ns n) store))"
    by (auto simp: list_all_iff generated_def model_policy_def dest: deletable_managed)
  then have "changes_only generated store store'"
    if "delete_kps E ns (filter (model_policy ns n) store) store = (e, store')"
    by (rule delete_kps_generated [OF that _ _ True]) auto
  with assms show ?thesis
    by (auto simp: deleteModelAuthPolicy_def split: option.splits apiError.splits)
qed (simp add: changes_only_def)

lemma cleanup_loop_generated:
  "cleanup_loop E policy ps store = (e, store') \<Longrightarrow> changes_only generated store store'"
proof (induction ps arbitrary: store)
  case (Cons p ps)
  then show ?case
    by (fastforce split: option.splits prod.splits intro: changes_only_trans dest: delete_model_generated)
qed simp

lemma cleanup_generated:
  "cleanupStaleAuthPolicies E policy store = (e, store') \<Longrightarrow> changes_only generated store store'"
  by (auto simp: cleanupStaleAuthPolicies_def split: option.splits apiError.splits dest: cleanup_loop_generated)

lemma delete_models_generated: "delete_models E refs store = (e, store') \<Longrightarrow> changes_only generated store store'"
proof (induction refs arbitrary: store)
  case (Cons ref refs)
  then show ?case
    by (cases ref) (fastforce split: option.splits prod.splits intro: changes_only_trans dest: delete_model_generated)
qed simp

lemma model_loop_step:
  "model_loop L c E ((ns, n) # refs) store = (e, store') \<Longrightarrow>
     store' = store \<or> model_loop L c E refs store = (e, store') \<or>
     (\<exists>m e' s. deleteModelAuthPolicy E m n store = (e', s) \<and> (store' = s \<or> model_loop L c E refs s = (e, store')))"
  by (simp split: option.splits prod.splits sum.splits routeError.splits bool.splits) blast+

lemma model_loop_generated: "model_loop L c E refs store = (e, store') \<Longrightarrow> changes_only generated store store'"
proof (induction refs arbitrary: store)
  case (Cons ref refs)
  obtain ns n where "ref = (ns, n)" by (cases ref)
  with model_loop_step [of L c E ns n refs store e store'] Cons delete_model_generated [of E _ n store]
  show ?case by (metis changes_only_refl changes_only_trans)
qed simp

lemma reconcile_models_generated:
  "reconcileModelAuthPolicies L c E policy store = (res, store') \<Longrightarrow> changes_only generated store store'"
  by (auto simp: reconcileModelAuthPolicies_def split: prod.splits option.splits
      intro: changes_only_trans dest!: model_loop_generated cleanup_generated)

lemma get_kp_found: "get_kp E key store = Inr p \<Longrightarrow> p \<in> set store \<and> kp_key p = key"
  by (auto simp: get_kp_def split: option.splits dest!: find_SomeD)

definition gateway_policy :: "apReconciler \<Rightarrow> nsname \<Rightarrow> kuadrantPolicy \<Rightarrow> bool" where
  "gateway_policy r gw p \<longleftrightarrow> isManaged (kp_meta p) \<and> kp_key p = gateway_key r gw"

lemma put_kp_changes:
  assumes "p \<in> set store" and "C p" and "kp_key q = kp_key p"
  shows "changes_only C store (put_kp q store)"
proof -
  have "map kp_key (put_kp q store) = map kp_key store" by (auto simp: put_kp_def)
  moreover have "x = p" if "distinct (map kp_key store)" "x \<in> set store" "x \<notin> set (put_kp q store)" for x
  proof (rule ccontr)
    assume "x \<noteq> p"
    with that assms have "kp_key x \<noteq> kp_key q" by (metis unique_key)
    with that(2) have "x \<in> set (put_kp q store)" by (force simp: put_kp_def)
    with that(3) show False ..
  qed
  ultimately show ?thesis using assms(2) by (auto simp: changes_only_def)
qed

lemma create_changes:
  "create_gateway_policy r E gw uid spec store = (res, store') \<Longrightarrow> changes_only C store store'"
proof -
  have "kp_key ((own gw uid (new_gateway_policy (gateway_key r gw)))\<lparr>kp_Spec := Some spec\<rparr>) = gateway_key r gw"
    by (simp add: own_def setGatewayOwnerReference_def new_gateway_policy_def kp_key_def meta_key_def split: option.split)
  then show "create_gateway_policy r E gw uid spec store = (res, store') \<Longrightarrow> changes_only C store store'"
    by (simp add: create_gateway_policy_def changes_only_def list_ex_iff split: option.splits if_splits) fastforce+
qed

lemma update_changes:
  assumes "update_gateway_policy P r E gw uid spec names hs p store = (res, store')"
    and "p \<in> set store" and "kp_key p = gateway_key r gw"
  shows "changes_only (gateway_policy r gw) store store'"
proof (cases "isManaged (kp_meta p)")
  case True
  let ?q = "(own gw uid p)\<lparr>kp_Spec := Some spec, kp_meta := (kp_meta p)\<lparr>om_Generation := om_Generation (kp_meta p) + 1\<rparr>\<rparr>"
  have "changes_only (gateway_policy r gw) store (put_kp ?q store)"
    using assms(2,3) True by (intro put_kp_changes) (auto simp: gateway_policy_def kp_key_def meta_key_def)
  with assms(1) True show ?thesis
    by (auto simp: update_gateway_policy_def Let_def split: if_splits option.splits)
qed (use assms(1) in \<open>simp add: update_gateway_policy_def\<close>)

lemma owner_changes:
  assumes "gateway_owner r E gw existing store = (res, store')"
    and "\<And>p. existing = Some p \<Longrightarrow> p \<in> set store \<and> kp_key p = gateway_key r gw"
  shows "changes_only (gateway_policy r gw) store store' \<and>
    (\<forall>uid p. res = Inr (Some (uid, Some p)) \<longrightarrow> p \<in> set store' \<and> kp_key p = gateway_key r gw)"
proof (cases existing)
  case None
  with assms(1) show ?thesis by (auto simp: gateway_owner_def split: sum.splits apiError.splits if_splits)
next
  case (Some p)
  have "changes_only (gateway_policy r gw) store (remove_kp (kp_key p) store)" if "isManaged (kp_meta p)"
    using assms(2) [OF Some] that by (intro remove_generated) (auto simp: gateway_policy_def)
  with assms(1) assms(2) [OF Some] Some show ?thesis
    by (auto simp: gateway_owner_def Let_def split: sum.splits apiError.splits if_splits option.splits)
qed

lemma after_owner:
  assumes "gateway_owner r E gw existing store = (own_res, store1)"
    and "\<And>p. existing = Some p \<Longrightarrow> p \<in> set store \<and> kp_key p = gateway_key r gw"
    and "(case own_res of
        Inl e \<Rightarrow> (Inl e, store1)
      | Inr None \<Rightarrow> (Inr False, store1)
      | Inr (Some (uid, None)) \<Rightarrow> create_gateway_policy r E gw uid spec store1
      | Inr (Some (uid, Some p)) \<Rightarrow> update_gateway_policy P r E gw uid spec names hs p store1) = (res, store')"
  shows "changes_only (gateway_policy r gw) store store'"
proof -
  note owner = owner_changes [OF assms(1,2)]
  have "changes_only (gateway_policy r gw) store1 store'"
    using assms(3) owner
    by (auto split: sum.splits option.splits prod.splits dest: create_changes update_changes)
  with owner show ?thesis by (blast intro: changes_only_trans)
qed

lemma gateway_changes:
  assumes "reconcileGatewayAuthPolicyWithHeaders P r E oidc x ns tenantID gw hs store = (res, store')"
  shows "changes_only (gateway_policy r gw) store store'"
proof (cases "desired_spec P r E oidc x ns tenantID gw hs")
  case (Inl e)
  with assms show ?thesis by (simp add: reconcileGatewayAuthPolicyWithHeaders_def)
next
  case (Inr sn)
  obtain spec names where sn: "sn = (spec, names)" by (cases sn)
  define found' where "found' = (case get_kp E (gateway_key r gw) store of
      Inr p \<Rightarrow> Inr (Some p) | Inl ApiNotFound \<Rightarrow> Inr None | Inl e \<Rightarrow> Inl e)"
  show ?thesis
  proof (cases found')
    case (Inl e)
    with assms \<open>desired_spec P r E oidc x ns tenantID gw hs = Inr sn\<close> sn show ?thesis
      by (simp add: reconcileGatewayAuthPolicyWithHeaders_def found'_def [symmetric])
  next
    case (Inr existing)
    obtain own_res store1 where owner: "gateway_owner r E gw existing store = (own_res, store1)" by fastforce
    have found: "p \<in> set store \<and> kp_key p = gateway_key r gw" if "existing = Some p" for p
      using Inr that unfolding found'_def by (auto split: sum.splits apiError.splits dest: get_kp_found)
    show ?thesis
      using assms \<open>desired_spec P r E oidc x ns tenantID gw hs = Inr sn\<close> sn Inr owner
      by (intro after_owner [OF owner found, where spec = spec and names = names and hs = hs and P = P and res = res])
        (auto simp: reconcileGatewayAuthPolicyWithHeaders_def found'_def [symmetric] split: sum.splits option.splits prod.splits)
  qed
qed

text \<open>
  The default tenant, seen from a namespace. It has the empty identifier, but so has a
  namespace whose tenant configuration is gone: what tells them apart is the configured
  namespace of the default tenant, or, while the MaaSAuthPolicy is live, a tenant object in
  the namespace that identifies itself as the default tenant.
\<close>

definition default_tenant_namespace :: "apReconciler \<Rightarrow> string \<Rightarrow> bool" where
  "default_tenant_namespace r ns \<longleftrightarrow>
     st_DefaultTenantNamespace (ap_settings r) = [] \<or> ns = st_DefaultTenantNamespace (ap_settings r)"

definition default_tenant :: "apReconciler \<Rightarrow> cluster \<Rightarrow> bool \<Rightarrow> string \<Rightarrow> bool" where
  "default_tenant r c deleting ns \<longleftrightarrow> fetchTenantIdentifier c ns = Inr [] \<and>
     (default_tenant_namespace r ns \<or>
      \<not> deleting \<and> (\<exists>t. fetchTenantForNamespace c ns = Inr t \<and> TenantIdentifierFor t = Inr []))"

text \<open>
  The policies that a reconciliation of a MaaSAuthPolicy in \<open>ns\<close>, live or being deleted, may
  change: generated route policies, and the policy of the gateway of its tenant, the default
  gateway only for the default tenant.
\<close>

definition own_policy :: "apReconciler \<Rightarrow> apEnv \<Rightarrow> cluster \<Rightarrow> bool \<Rightarrow> string \<Rightarrow> kuadrantPolicy \<Rightarrow> bool" where
  "own_policy r E c deleting ns p \<longleftrightarrow> isManaged (kp_meta p) \<and>
     (route_policy p \<or>
      (\<exists>gw. fetchGatewayInfo r E c ns = Inr gw \<and> kp_key p = gateway_key r gw \<and>
         (isTenantGateway r gw \<or> default_tenant r c deleting ns)))"

lemma generated_own: "generated p \<Longrightarrow> own_policy r E c deleting ns p"
  by (simp add: generated_def own_policy_def)

lemma changes_generated: "changes_only generated a b \<Longrightarrow> changes_only (own_policy r E c deleting ns) a b"
  by (erule changes_only_mono) (rule generated_own)

lemma changes_gateway:
  "changes_only (gateway_policy r gw) a b \<Longrightarrow> fetchGatewayInfo r E c ns = Inr gw \<Longrightarrow>
     isTenantGateway r gw \<or> default_tenant r c deleting ns \<Longrightarrow> changes_only (own_policy r E c deleting ns) a b"
  by (erule changes_only_mono) (auto simp: gateway_policy_def own_policy_def)

text \<open>
  A live policy reaches the gateway step only in an allowed namespace. Without a tenant object
  there the gateway is resolved for the namespace of the default tenant only.
\<close>

lemma live_default_tenant:
  assumes "tenantNamespaceAllowed (ap_settings r) c ns = Inr True" and "fetchTenantIdentifier c ns = Inr []"
    and "fetchGatewayInfo r E c ns = Inr gw"
  shows "default_tenant r c False ns"
proof (cases "fetchTenantForNamespace c ns")
  case (Inr t)
  with assms(2) show ?thesis
    by (auto simp: default_tenant_def fetchTenantIdentifier_def split: sum.splits)
next
  case (Inl e)
  with assms(2) have e: "e = ApiNotFound" by (cases e) (simp_all add: fetchTenantIdentifier_def)
  have "default_tenant_namespace r ns"
  proof (rule ccontr)
    assume n: "\<not> default_tenant_namespace r ns"
    then have "st_Discovery (ap_settings r)"
      using assms(1) by (auto simp: default_tenant_namespace_def tenantNamespaceAllowed_def split: if_splits)
    with n assms(1,3) Inl e show False
      by (auto simp: default_tenant_namespace_def fetchGatewayInfo_def fetchTenantPlatformContext_def Let_def)
  qed
  with assms(2) show ?thesis by (simp add: default_tenant_def)
qed

lemma status_store [simp]: "as_store (snd (updatePolicyStatus E policy phase msg snapshot st)) = as_store st"
  by (simp add: updatePolicyStatus_def Let_def split: option.splits)

lemma failed_store [simp]: "as_store (snd (reconcileFailed E policy snapshot e st)) = as_store st"
  by (simp add: reconcileFailed_def)

lemma written_store [simp]: "as_store (snd (status_written (updatePolicyStatus E policy phase msg snapshot st))) = as_store st"
  using status_store [of E policy phase msg snapshot st] by (auto simp: status_written_def simp del: status_store split: prod.splits option.splits)

lemma pending_store [simp]: "as_store (snd (reconcilePending E policy snapshot st)) = as_store st"
  using status_store [of E policy "''Pending''" "''waiting''" snapshot st]
  by (auto simp: reconcilePending_def simp del: status_store split: prod.splits option.splits)

lemma put_policy_store [simp]: "as_store (put_policy p st) = as_store st"
  by (simp add: put_policy_def)

lemma finish_store: "changes_only generated (as_store st) (as_store (snd (finish_policy P E c missing policy st)))"
proof (cases "reconcileModelAuthPolicies (pl_libs P) c E policy (as_store st)")
  case (Pair res store)
  with reconcile_models_generated [OF Pair] show ?thesis
    by (cases res) (auto simp: finish_policy_def Let_def split_def)
qed

lemma reset_gateway_changes:
  assumes "reset_gateway P r E c policy store = (e, store')"
  shows "changes_only (own_policy r E c True (om_Namespace (ap_meta policy))) store store'"
proof -
  let ?ns = "om_Namespace (ap_meta policy)"
  have "store' = store \<or> (\<exists>tenantID gw res. fetchTenantIdentifier c ?ns = Inr tenantID \<and> fetchGatewayInfo r E c ?ns = Inr gw \<and>
      (isTenantGateway r gw \<or> tenantID = [] \<and> default_tenant_namespace r ?ns) \<and>
      reconcileGatewayAuthPolicyWithHeaders P r E (fetchOIDCConfig r E c ?ns) (discoverXAPIKeyNeeded (pl_libs P) E) ?ns tenantID gw None store
        = (res, store'))"
    using assms
    by (auto simp: reset_gateway_def default_tenant_namespace_def Let_def split: sum.splits if_splits prod.splits)
  then show ?thesis
    by (auto dest!: gateway_changes intro: changes_gateway simp: default_tenant_def)
qed

lemma deletion_changes:
  assumes "handlePolicyDeletion P r E c policy st = (res, st')"
  shows "changes_only (own_policy r E c True (om_Namespace (ap_meta policy))) (as_store st) (as_store st')"
proof -
  obtain e1 s1 where d1: "delete_models E (ap_ModelRefs policy) (as_store st) = (e1, s1)" by fastforce
  obtain e2 s2 where d2: "cleanupStaleAuthPolicies E policy s1 = (e2, s2)" by fastforce
  obtain e3 s3 where d3: "reset_gateway P r E c policy s2 = (e3, s3)" by fastforce
  have "as_store st' \<in> {as_store st, s1, s2, s3}"
    using assms by (auto simp: handlePolicyDeletion_def d1 d2 d3 split: if_splits option.splits sum.splits prod.splits)
  moreover note changes_generated [OF delete_models_generated [OF d1], of r E c True "om_Namespace (ap_meta policy)"]
    changes_generated [OF cleanup_generated [OF d2], of r E c True "om_Namespace (ap_meta policy)"] reset_gateway_changes [OF d3]
  ultimately show ?thesis by (auto intro: changes_only_trans)
qed

fun part_state :: "(apOutcome \<times> apState) + apState \<Rightarrow> apState" where
  "part_state (Inl result) = snd result"
| "part_state (Inr st) = st"

lemma gateway_part_keys:
  assumes "reconcile_gateway_part P r E c R oidc x tenantID gw policy st = result"
  shows "changes_only (gateway_policy r gw) (as_store st) (as_store (part_state result))"
proof -
  obtain res store where gwr: "reconcileGatewayAuthPolicy P r E R oidc x (om_Namespace (ap_meta policy)) tenantID gw (as_store st) = (res, store)"
    by fastforce
  then have "changes_only (gateway_policy r gw) (as_store st) store"
    by (auto simp: reconcileGatewayAuthPolicy_def split: sum.splits dest: gateway_changes)
  moreover have "as_store (part_state result) \<in> {as_store st, store}"
    by (simp add: assms [symmetric] reconcile_gateway_part_def Let_def gwr split: sum.split bool.split if_split)
  ultimately show ?thesis by auto
qed

lemma gateway_part_changes:
  assumes "fetchGatewayInfo r E c (om_Namespace (ap_meta policy)) = Inr gw"
    and "isTenantGateway r gw \<or> default_tenant r c deleting (om_Namespace (ap_meta policy))"
    and "reconcile_gateway_part P r E c R oidc x tenantID gw policy st = result"
  shows "changes_only (own_policy r E c deleting (om_Namespace (ap_meta policy))) (as_store st) (as_store (part_state result))"
  using gateway_part_keys [OF assms(3)] assms(1,2) by (rule changes_gateway)

lemma finalizer_policy:
  assumes "add_policy_finalizer E policy st = (res, st1)"
  shows "as_store st1 = as_store st \<and> (\<forall>q. res = Inr q \<longrightarrow> om_Namespace (ap_meta q) = om_Namespace (ap_meta policy) \<and>
    ap_ModelRefs q = ap_ModelRefs policy \<and> ao_Phase q = ao_Phase policy \<and> om_Deleting (ap_meta q) = om_Deleting (ap_meta policy))"
  using assms by (auto simp: add_policy_finalizer_def Let_def split: if_splits option.splits)

text \<open>
  The three ways through a reconciliation: the deletion, an exit before any AuthPolicy is
  touched, and the gateway policy followed by the route policies.
\<close>

lemma reconcile_cases:
  assumes "as_policy st = Some policy" and "ns = om_Namespace (ap_meta policy)"
  obtains (deletion) "om_Deleting (ap_meta policy)" "ReconcilePolicy P r E c R st = handlePolicyDeletion P r E c policy st"
  | (early) "as_store (snd (ReconcilePolicy P r E c R st)) = as_store st"
  | (live) q st1 tenantID gw where "\<not> om_Deleting (ap_meta policy)" "add_policy_finalizer E policy st = (Inr q, st1)"
      "fetchTenantIdentifier c ns = Inr tenantID" "fetchGatewayInfo r E c ns = Inr gw"
      "tenantID = [] \<or> isTenantGateway r gw"
      "ReconcilePolicy P r E c R st =
        (case reconcile_gateway_part P r E c R (fetchOIDCConfig r E c ns) (discoverXAPIKeyNeeded (pl_libs P) E) tenantID gw q st1 of
           Inl result \<Rightarrow> result
         | Inr st \<Rightarrow> finish_policy P E c (findMissingModelRefs c q) q st)"
      "tenantNamespaceAllowed (ap_settings r) c ns = Inr True"
proof -
  obtain fr st1 where fin: "add_policy_finalizer E policy st = (fr, st1)" by fastforce
  then have [simp]: "as_store st1 = as_store st" using finalizer_policy by blast
  show thesis
  proof (cases "pe_get E = None \<and> \<not> om_Deleting (ap_meta policy) \<and> tenantNamespaceAllowed (ap_settings r) c ns = Inr True \<and> \<not> policy_spec_empty policy")
    case False
    consider "pe_get E \<noteq> None" | "pe_get E = None" "om_Deleting (ap_meta policy)" | "pe_get E = None" "\<not> om_Deleting (ap_meta policy)" by blast
    then show thesis
    proof cases
      case 1
      then show thesis by (intro early) (auto simp: ReconcilePolicy_def split: apiError.splits)
    next
      case 2
      then show thesis using assms by (intro deletion) (simp_all add: ReconcilePolicy_def)
    next
      case 3
      with False assms show thesis
        by (intro early, cases "tenantNamespaceAllowed (ap_settings r) c ns") (auto simp: ReconcilePolicy_def Let_def split: bool.splits)
    qed
  next
    case True
    show thesis
    proof (cases "\<exists>q tenantID gw. fr = Inr q \<and> fetchTenantIdentifier c ns = Inr tenantID \<and> fetchGatewayInfo r E c ns = Inr gw \<and> (tenantID = [] \<or> isTenantGateway r gw)")
      case False
      with True fin assms show thesis
        by (intro early, cases fr; cases "fetchTenantIdentifier c ns"; cases "fetchGatewayInfo r E c ns")
          (auto simp: ReconcilePolicy_def Let_def)
    next
      case inner: True
      then obtain q tenantID gw where "fr = Inr q" "fetchTenantIdentifier c ns = Inr tenantID" "fetchGatewayInfo r E c ns = Inr gw"
        "tenantID = [] \<or> isTenantGateway r gw" by blast
      with True fin assms show thesis by (intro live) (auto simp: ReconcilePolicy_def)
    qed
  qed
qed

text \<open>
  C5. A reconciliation only touches AuthPolicies that are its own. Every AuthPolicy of the
  cluster that reconciling or deleting a MaaSAuthPolicy changes or removes is not opted out of
  management, and is a generated route policy or the policy of the gateway that the tenant of
  the namespace resolves to. The policy of the shared default gateway is changed for the
  default tenant only: the identifier of the tenant is empty, and the namespace is the
  configured one of the default tenant or, for a MaaSAuthPolicy that is not being deleted,
  holds a tenant object identified as the default tenant. So deleting the last
  MaaSAuthPolicy of another tenant whose configuration is already gone, for which the
  identifier is empty too, leaves the policy of the shared gateway alone.
\<close>

theorem policies_changed_are_own:
  assumes "distinct (map kp_key (as_store st))" and "as_policy st = Some policy"
    and "ReconcilePolicy P r E c R st = (res, st')" and "p \<in> set (as_store st)" and "p \<notin> set (as_store st')"
  shows "own_policy r E c (om_Deleting (ap_meta policy)) (om_Namespace (ap_meta policy)) p"
proof -
  let ?ns = "om_Namespace (ap_meta policy)"
  let ?ok = "changes_only (own_policy r E c (om_Deleting (ap_meta policy)) ?ns) (as_store st)"
  have "?ok (as_store (snd (ReconcilePolicy P r E c R st)))"
    using assms(2) refl [of ?ns]
  proof (cases rule: reconcile_cases [where P = P and r = r and E = E and c = c and R = R])
    case deletion
    then show ?thesis using deletion_changes by (metis prod.collapse)
  next
    case (live q st1 tenantID gw)
    note q = finalizer_policy [OF live(2)]
    let ?part = "reconcile_gateway_part P r E c R (fetchOIDCConfig r E c ?ns) (discoverXAPIKeyNeeded (pl_libs P) E) tenantID gw q st1"
    have "isTenantGateway r gw \<or> default_tenant r c False ?ns"
      using live(3,5) live_default_tenant [OF live(7) _ live(4)] by auto
    then have "?ok (as_store (part_state ?part))"
      using gateway_part_changes [of r E c q gw False P R _ _ tenantID st1 ?part] live(1,4) q by auto
    with live(1,6) changes_generated [OF finish_store] show ?thesis
      by (cases ?part) (auto intro: changes_only_trans)
  qed simp
  with assms show ?thesis by (simp add: changes_only_def)
qed

lemma gateway_part_passes:
  assumes "reconcile_gateway_part P r E c R oidc x tenantID gw policy st = Inr st2"
  obtains gwChanged store legacy where
    "reconcileGatewayAuthPolicy P r E R oidc x (om_Namespace (ap_meta policy)) tenantID gw (as_store st) = (Inr gwChanged, store)"
    "st2 = st\<lparr>as_store := store\<rparr>" "hasLegacyModelAuthPolicy E (om_Namespace (ap_meta policy)) (as_store st) = Inr legacy"
    "legacy \<longrightarrow> targetMaaSAPIReady r E tenantID = Inr True"
    "legacy \<or> ao_Phase policy \<noteq> ''Active'' \<longrightarrow> gatewayAuthPolicyReady P r E gw store = Inr True"
  using assms
  by (auto simp: reconcile_gateway_part_def Let_def split: sum.splits bool.splits if_splits prod.splits)

text \<open>
  The search for route policies of the earlier releases finds each one that is there, or
  reports an error: a \<open>Get\<close> that fails for another reason than absence is not taken for
  absence, and the models already checked are told apart by namespace and name.
\<close>

lemma legacy_loop_finds:
  assumes "modelAuthPolicyExists E mns mname store \<noteq> Inr False" and "(mns, mname) \<in> set refs"
    and "\<forall>(a, b)\<in>set refs. CHR ''/'' \<notin> set a" and "mns @ ''/'' @ mname \<notin> set checked"
  shows "legacy_loop E store checked refs \<noteq> Inr False"
  using assms(2-4)
proof (induction refs arbitrary: checked)
  case (Cons ref refs)
  obtain a b where ref: "ref = (a, b)" by fastforce
  show ?case
  proof (cases "(a, b) = (mns, mname)")
    case True
    with assms(1) Cons.prems(3) show ?thesis by (auto simp: ref split: sum.splits bool.splits)
  next
    case False
    then have "(mns, mname) \<in> set refs" and slash: "CHR ''/'' \<notin> set a" "CHR ''/'' \<notin> set mns"
      using Cons.prems(1,2) ref by auto
    moreover have "a @ ''/'' @ b \<noteq> mns @ ''/'' @ mname"
      using split_first [of a "CHR ''/''" b mns mname] slash False by auto
    ultimately show ?thesis
      using Cons.IH [of checked] Cons.IH [of "(a @ ''/'' @ b) # checked"] Cons.prems(2,3)
      by (auto simp: ref Let_def split: sum.splits bool.splits)
  qed
qed simp

lemma legacy_policy_detected:
  assumes "pe_policies E ns = Inr policies" and "m \<in> set policies" and "\<not> om_Deleting (ap_meta m)"
    and "(mns, mname) \<in> set (ap_ModelRefs m)" and "\<forall>m\<in>set policies. \<forall>(a, b)\<in>set (ap_ModelRefs m). CHR ''/'' \<notin> set a"
    and "q \<in> set store" and "kp_key q = (mns, ''maas-auth-'' @ mname)"
    and "pe_getPolicy E (mns, ''maas-auth-'' @ mname) \<noteq> Some ApiNotFound"
    and "hasLegacyModelAuthPolicy E ns store = Inr legacy"
  shows "legacy"
proof -
  have "find (\<lambda>p. kp_key p = (mns, ''maas-auth-'' @ mname)) store \<noteq> None"
    using assms(6,7) by (auto simp: find_None_iff)
  with assms(8) have "modelAuthPolicyExists E mns mname store \<noteq> Inr False"
    by (auto simp: modelAuthPolicyExists_def get_kp_def split: option.splits apiError.splits)
  moreover have "(mns, mname) \<in> set (concat (map ap_ModelRefs (filter (\<lambda>p. \<not> om_Deleting (ap_meta p)) policies)))"
    using assms(2-4) by auto
  moreover have "\<forall>(a, b)\<in>set (concat (map ap_ModelRefs (filter (\<lambda>p. \<not> om_Deleting (ap_meta p)) policies))). CHR ''/'' \<notin> set a"
    using assms(5) by fastforce
  ultimately have "legacy_loop E store [] (concat (map ap_ModelRefs (filter (\<lambda>p. \<not> om_Deleting (ap_meta p)) policies))) \<noteq> Inr False"
    by (rule legacy_loop_finds) simp
  with assms(1,9) show ?thesis by (simp add: hasLegacyModelAuthPolicy_def)
qed

text \<open>
  C6. The cut-over to the gateway policy is never early for a model in use. Suppose the cluster
  holds the route policy \<open>maas-auth-<model>\<close> of the earlier releases for a model that some
  MaaSAuthPolicy of the namespace, not being deleted, references. Then a reconciliation of a
  live MaaSAuthPolicy changes or removes an AuthPolicy other than the gateway policy only if
  the MaaS API service of the tenant has a ready endpoint and the gateway policy, as this
  reconciliation has written it, is accepted and enforced. (For a model that no live policy
  references any more there is no such wait, see \<open>dropped_model_not_awaited\<close>.)
\<close>

theorem cutover_waits:
  assumes "distinct (map kp_key (as_store st))" and "as_policy st = Some policy" and "\<not> om_Deleting (ap_meta policy)"
    and "ns = om_Namespace (ap_meta policy)"
    and "pe_policies E ns = Inr policies" and "m \<in> set policies" and "\<not> om_Deleting (ap_meta m)"
    and "(mns, mname) \<in> set (ap_ModelRefs m)" and "\<forall>m\<in>set policies. \<forall>(a, b)\<in>set (ap_ModelRefs m). CHR ''/'' \<notin> set a"
    and "q \<in> set (as_store st)" and "kp_key q = (mns, ''maas-auth-'' @ mname)"
    and "pe_getPolicy E (mns, ''maas-auth-'' @ mname) \<noteq> Some ApiNotFound"
    and "fetchTenantIdentifier c ns = Inr tenantID" and "fetchGatewayInfo r E c ns = Inr gw"
    and "p \<in> set (as_store st)" and "p \<notin> set (as_store (snd (ReconcilePolicy P r E c R st)))" and "kp_key p \<noteq> gateway_key r gw"
  shows "targetMaaSAPIReady r E tenantID = Inr True \<and>
    (\<exists>gwChanged store. reconcileGatewayAuthPolicy P r E R (fetchOIDCConfig r E c ns) (discoverXAPIKeyNeeded (pl_libs P) E)
         ns tenantID gw (as_store st) = (Inr gwChanged, store) \<and>
       gatewayAuthPolicyReady P r E gw store = Inr True)"
  using assms(2,4)
proof (cases rule: reconcile_cases [where P = P and r = r and E = E and c = c and R = R])
  case (live pol st1 t g)
  note pol = finalizer_policy [OF live(2)]
  let ?part = "reconcile_gateway_part P r E c R (fetchOIDCConfig r E c ns) (discoverXAPIKeyNeeded (pl_libs P) E) tenantID gw pol st1"
  have tg: "t = tenantID" "g = gw" using live(3,4) assms(13,14) by auto
  have "p \<in> set (as_store (part_state ?part))"
    using gateway_part_keys [of P r E c R _ _ tenantID gw pol st1 ?part] pol assms(1,15,17)
    by (auto simp: changes_only_def gateway_policy_def)
  with assms(16) live(6) tg obtain st2 where part: "?part = Inr st2" by (cases ?part) auto
  have ns: "om_Namespace (ap_meta pol) = ns" "as_store st1 = as_store st" using pol assms(4) by auto
  note legacy = legacy_policy_detected [OF assms(5-12)]
  from part show ?thesis by (rule gateway_part_passes) (use ns legacy in auto)
qed (use assms in auto)

lemma status_phase:
  assumes "status_written (updatePolicyStatus E policy phase msg snapshot st) = (ApDone, st')" and "as_policy st = Some snapshot"
  shows "\<exists>q. as_policy st' = Some q \<and> ao_Phase q = phase"
  using assms
  by (auto simp: status_written_def updatePolicyStatus_def Let_def policy_status_of_def set_policy_condition_def split: if_splits option.splits)

lemma finish_phase:
  assumes "finish_policy P E c missing policy st = (ApDone, st')" and "as_policy st = Some policy"
  shows "\<exists>q. as_policy st' = Some q \<and>
    (ao_Phase q = ''Active'' \<longleftrightarrow> missing = [] \<and> ap_ModelRefs policy \<noteq> [])"
proof -
  obtain res store where m: "reconcileModelAuthPolicies (pl_libs P) c E policy (as_store st) = (res, store)" by fastforce
  obtain refs where refs: "res = Inr refs" using assms(1) m by (cases res) (auto simp: finish_policy_def reconcileFailed_def)
  then have "refs = []" using m by (auto simp: reconcileModelAuthPolicies_def split: prod.splits option.splits)
  define policy1 where "policy1 = updateAuthPolicyRefStatus (pl_libs P) E store [] policy"
  define policy2 where "policy2 = (case detectConflictingAuthPolicies (pl_libs P) c E policy1 store of
      Inl e \<Rightarrow> set_policy_condition E ConditionConflictingAuthPolicy ''Unknown'' ''ConflictCheckFailed'' ''conflict check failed'' policy1
    | Inr conflicts \<Rightarrow> setConflictingAuthPolicyCondition E conflicts policy1)"
  have p2: "ap_ModelRefs policy2 = ap_ModelRefs policy" "ao_AuthPolicies policy2 = []"
    by (simp_all add: policy2_def policy1_def updateAuthPolicyRefStatus_def setConflictingAuthPolicyCondition_def set_policy_condition_def split: sum.split)
  have "status_written (updatePolicyStatus E policy2 (fst (deriveAuthPolicyPhase policy2 missing)) (snd (deriveAuthPolicyPhase policy2 missing))
      policy (st\<lparr>as_store := store\<rparr>)) = (ApDone, st')"
    using assms(1) m refs \<open>refs = []\<close>
    by (simp add: finish_policy_def Let_def split_def policy1_def [symmetric] policy2_def [symmetric])
  from status_phase [OF this] assms(2)
  have "\<exists>q. as_policy st' = Some q \<and> ao_Phase q = fst (deriveAuthPolicyPhase policy2 missing)" by simp
  then show ?thesis by (auto simp: deriveAuthPolicyPhase_def Let_def p2)
qed

lemma finalizer_kept:
  assumes "add_policy_finalizer E policy st = (Inr q, st1)" and "as_policy st = Some policy" and "\<not> om_Deleting (ap_meta policy)"
  shows "as_policy st1 = Some q"
  using assms by (auto simp: add_policy_finalizer_def Let_def put_policy_def split: if_splits option.splits)

lemma not_done [simp]:
  "reconcileFailed E policy snapshot e st \<noteq> (ApDone, st')"
  "reconcilePending E policy snapshot st \<noteq> (ApDone, st')"
  by (auto simp: reconcileFailed_def reconcilePending_def split: prod.splits option.splits)

lemma part_done: "reconcile_gateway_part P r E c R oidc x tenantID gw policy st \<noteq> Inl (ApDone, st')"
  by (auto simp: reconcile_gateway_part_def Let_def split: sum.splits bool.splits prod.splits)

text \<open>
  C18. What the phase Active says. When a reconciliation of a live, admitted MaaSAuthPolicy ends
  without an error or a requeue, the stored phase is Active exactly if the tenant shares the
  default gateway, whose policy it does not manage, or the policy names at least one model and
  every model it names exists; and where it manages the gateway, a policy that was not Active
  before has seen the gateway policy accepted and enforced.
\<close>

theorem active_means_models_exist:
  assumes "pe_get E = None" and "as_policy st = Some policy" and "\<not> om_Deleting (ap_meta policy)"
    and "ns = om_Namespace (ap_meta policy)" and "tenantNamespaceAllowed (ap_settings r) c ns = Inr True"
    and "\<not> policy_spec_empty policy" and "fetchTenantIdentifier c ns = Inr tenantID" and "fetchGatewayInfo r E c ns = Inr gw"
    and "ReconcilePolicy P r E c R st = (ApDone, st')"
  defines "shared \<equiv> tenantID \<noteq> [] \<and> \<not> isTenantGateway r gw"
  shows "\<exists>q. as_policy st' = Some q \<and>
      (ao_Phase q = ''Active'' \<longleftrightarrow> shared \<or> (findMissingModelRefs c policy = [] \<and> ap_ModelRefs policy \<noteq> [])) \<and>
      (\<not> shared \<and> ao_Phase policy \<noteq> ''Active'' \<longrightarrow>
         (\<exists>gwChanged store. reconcileGatewayAuthPolicy P r E R (fetchOIDCConfig r E c ns) (discoverXAPIKeyNeeded (pl_libs P) E)
            ns tenantID gw (as_store st) = (Inr gwChanged, store) \<and>
          gatewayAuthPolicyReady P r E gw store = Inr True))"
proof -
  obtain fr st1 where fin: "add_policy_finalizer E policy st = (fr, st1)" by fastforce
  with assms obtain p where p: "fr = Inr p" by (cases fr) (auto simp: ReconcilePolicy_def)
  note fields = finalizer_policy [OF fin]
  have kept: "as_policy st1 = Some p" using fin p assms(2,3) finalizer_kept by blast
  have missing: "findMissingModelRefs c p = findMissingModelRefs c policy"
    using fields p by (simp add: findMissingModelRefs_def)
  show ?thesis
  proof (cases shared)
    case True
    with assms fin p have "status_written (updatePolicyStatus E p ''Active'' [] p st1) = (ApDone, st')"
      by (simp add: ReconcilePolicy_def)
    from status_phase [OF this kept] True show ?thesis by auto
  next
    case False
    let ?part = "reconcile_gateway_part P r E c R (fetchOIDCConfig r E c ns) (discoverXAPIKeyNeeded (pl_libs P) E) tenantID gw p st1"
    have "(case ?part of Inl result \<Rightarrow> result | Inr st \<Rightarrow> finish_policy P E c (findMissingModelRefs c p) p st) = (ApDone, st')"
      using assms fin p False by (simp add: ReconcilePolicy_def)
    then obtain st2 where st2: "?part = Inr st2" "finish_policy P E c (findMissingModelRefs c p) p st2 = (ApDone, st')"
      using part_done by (cases ?part) auto
    from st2(1) kept have "as_policy st2 = Some p" by (elim gateway_part_passes) simp
    from finish_phase [OF st2(2) this] st2(1) False fields p missing assms(4) show ?thesis
      by (elim gateway_part_passes) auto
  qed
qed

section \<open>The gateway policy settles\<close>

lemma find_put_kp:
  "kp_key q = kp_key p \<Longrightarrow> find (\<lambda>p. kp_key p = key) store = Some p \<Longrightarrow> find (\<lambda>p. kp_key p = key) (put_kp q store) = Some q"
  by (induction store) (auto simp: put_kp_def split: if_splits)

lemma find_appended:
  "\<not> list_ex (\<lambda>p. kp_key p = key) store \<Longrightarrow> kp_key q = key \<Longrightarrow> find (\<lambda>p. kp_key p = key) (store @ [q]) = Some q"
  by (induction store) auto

text \<open>A policy that carries the wanted specification, in the situation its Gateway is in.\<close>

definition settled :: "apReconciler \<Rightarrow> apEnv \<Rightarrow> nsname \<Rightarrow> jobj \<Rightarrow> kuadrantPolicy list \<Rightarrow> bool" where
  "settled r E gw spec store \<longleftrightarrow>
     (\<exists>p. get_kp E (gateway_key r gw) store = Inr p \<and> isManaged (kp_meta p) \<and> kp_Spec p = Some spec \<and>
        (case pe_gateway E gw of
           Inr uid \<Rightarrow> True
         | Inl e \<Rightarrow> e = ApiNotFound \<and> \<not> isTenantGateway r gw \<and> \<not> hasGatewayOwnerReference p))"

lemma settled_run:
  assumes "nested_access (pl_libs P) (pl_setters P)" and "keeps_maps (pl_setters P)"
    and "desired_spec P r E oidc x ns t gw hs = Inr (spec, names)" and "settled r E gw spec store"
  shows "reconcileGatewayAuthPolicyWithHeaders P r E oidc x ns t gw hs store = (Inr False, store)"
proof -
  from assms(4) obtain p where p: "get_kp E (gateway_key r gw) store = Inr p" "isManaged (kp_meta p)" "kp_Spec p = Some spec"
    and gateway: "case pe_gateway E gw of Inr uid \<Rightarrow> True | Inl e \<Rightarrow> e = ApiNotFound \<and> \<not> isTenantGateway r gw \<and> \<not> hasGatewayOwnerReference p"
    by (auto simp: settled_def)
  from assms(3) have "subscriptionHeaderNames (pl_libs P) (pe_subscriptions E (subscription_namespace r ns)) = Inr names"
    "applySubscriptionHeaders (pl_libs P) (pl_setters P) (buildGatewayAuthPolicySpec r oidc x t (snd gw) hs) names = Inr spec"
    by (auto simp: desired_spec_def split: sum.splits)
  from written_spec_settled [OF assms(1,2) this, of "pe_float E"]
  have "update_gateway_policy P r E gw uid spec names hs p store = (Inr False, store)" for uid
    using p(2,3) by (cases hs) (auto simp: update_gateway_policy_def)
  moreover have "\<exists>uid. gateway_owner r E gw (Some p) store = (Inr (Some (uid, Some p)), store)"
    using gateway p(2) by (auto simp: gateway_owner_def split: sum.splits)
  ultimately show ?thesis using assms(3) p(1) by (auto simp: reconcileGatewayAuthPolicyWithHeaders_def)
qed

lemma get_kp_put: "get_kp E key store = Inr p \<Longrightarrow> kp_key q = kp_key p \<Longrightarrow> get_kp E key (put_kp q store) = Inr q"
  by (auto simp: get_kp_def find_put_kp split: option.splits)

lemma created_settles:
  assumes "create_gateway_policy r E gw uid spec store = (Inr True, store')" and "pe_getPolicy E (gateway_key r gw) = None"
    and "case pe_gateway E gw of Inr u \<Rightarrow> True | Inl e \<Rightarrow> e = ApiNotFound \<and> \<not> isTenantGateway r gw \<and> uid = None"
  shows "settled r E gw spec store'"
proof -
  define q where "q = (own gw uid (new_gateway_policy (gateway_key r gw)))\<lparr>kp_Spec := Some spec\<rparr>"
  from assms(1) have st: "store' = store @ [q]" "\<not> list_ex (\<lambda>p. kp_key p = gateway_key r gw) store"
    by (auto simp: create_gateway_policy_def q_def split: option.splits if_splits)
  have "kp_key q = gateway_key r gw" "isManaged (kp_meta q)" "kp_Spec q = Some spec" "uid = None \<Longrightarrow> kp_Owners q = []"
    by (simp_all add: q_def own_def setGatewayOwnerReference_def new_gateway_policy_def kp_key_def meta_key_def isManaged_def split: option.split)
  with st assms(2,3) show ?thesis
    by (auto simp: settled_def get_kp_def find_appended hasGatewayOwnerReference_def split: sum.splits)
qed

lemma updated_settles:
  assumes "update_gateway_policy P r E gw uid spec names hs p store = (Inr True, store')"
    and "get_kp E (gateway_key r gw) store = Inr p"
    and "case pe_gateway E gw of Inr u \<Rightarrow> True | Inl e \<Rightarrow> e = ApiNotFound \<and> \<not> isTenantGateway r gw \<and> uid = None \<and> \<not> hasGatewayOwnerReference p"
  shows "settled r E gw spec store'"
proof -
  define q where "q = (own gw uid p)\<lparr>kp_Spec := Some spec, kp_meta := (kp_meta p)\<lparr>om_Generation := om_Generation (kp_meta p) + 1\<rparr>\<rparr>"
  from assms(1) have st: "store' = put_kp q store" "isManaged (kp_meta p)"
    by (auto simp: update_gateway_policy_def q_def Let_def split: option.splits if_splits)
  have "kp_key q = kp_key p" "isManaged (kp_meta q) = isManaged (kp_meta p)" "kp_Spec q = Some spec" "uid = None \<Longrightarrow> kp_Owners q = kp_Owners p"
    by (simp_all add: q_def own_def setGatewayOwnerReference_def kp_key_def meta_key_def isManaged_def split: option.split)
  with st get_kp_put [OF assms(2), of q] assms(3) show ?thesis
    by (auto simp: settled_def hasGatewayOwnerReference_def split: sum.splits)
qed

text \<open>What the Gateway leaves for the write that follows.\<close>

lemma owner_situation:
  assumes "gateway_owner r E gw existing store = (Inr (Some (uid, found')), store1)"
    and "\<And>p. existing = Some p \<Longrightarrow> get_kp E (gateway_key r gw) store = Inr p \<and> kp_key p = gateway_key r gw"
  shows "(case pe_gateway E gw of Inr u \<Rightarrow> True | Inl e \<Rightarrow> e = ApiNotFound \<and> \<not> isTenantGateway r gw \<and> uid = None) \<and>
    (\<forall>p. found' = Some p \<longrightarrow> store1 = store \<and> existing = Some p \<and>
       (pe_gateway E gw = Inl ApiNotFound \<longrightarrow> isManaged (kp_meta p) \<longrightarrow> \<not> hasGatewayOwnerReference p))"
  using assms
  by (auto simp: gateway_owner_def Let_def split: sum.splits apiError.splits option.splits if_splits)

text \<open>
  C17. The gateway policy settles. Once a reconciliation has created or updated the gateway
  policy, and reads of it see that write, reconciling again in the same cluster finds the
  policy up to date and writes nothing, whatever the configuration: the controller never
  fights its own output.
\<close>

theorem gateway_policy_settles:
  assumes "nested_access (pl_libs P) (pl_setters P)" and "keeps_maps (pl_setters P)"
    and "pe_getPolicy E (gateway_key r gw) = None"
    and "reconcileGatewayAuthPolicyWithHeaders P r E oidc x ns t gw hs store = (Inr True, store')"
  shows "reconcileGatewayAuthPolicyWithHeaders P r E oidc x ns t gw hs store' = (Inr False, store')"
proof -
  from assms(4) obtain spec names where d: "desired_spec P r E oidc x ns t gw hs = Inr (spec, names)"
    by (auto simp: reconcileGatewayAuthPolicyWithHeaders_def split: sum.splits)
  define existing where "existing = find (\<lambda>p. kp_key p = gateway_key r gw) store"
  have get: "get_kp E (gateway_key r gw) store = (case existing of None \<Rightarrow> Inl ApiNotFound | Some p \<Rightarrow> Inr p)"
    using assms(3) by (simp add: get_kp_def existing_def)
  obtain own_res store1 where owner: "gateway_owner r E gw existing store = (own_res, store1)" by fastforce
  have run: "(case own_res of
        Inl e \<Rightarrow> (Inl e, store1)
      | Inr None \<Rightarrow> (Inr False, store1)
      | Inr (Some (uid, None)) \<Rightarrow> create_gateway_policy r E gw uid spec store1
      | Inr (Some (uid, Some p)) \<Rightarrow> update_gateway_policy P r E gw uid spec names hs p store1) = (Inr True, store')"
    using assms(4) d owner get
    by (cases existing) (auto simp: reconcileGatewayAuthPolicyWithHeaders_def split: sum.splits option.splits prod.splits)
  then obtain uid found' where o: "own_res = Inr (Some (uid, found'))"
    by (auto split: sum.splits option.splits prod.splits)
  have key: "get_kp E (gateway_key r gw) store = Inr p \<and> kp_key p = gateway_key r gw" if "existing = Some p" for p
    using that get by (auto simp: existing_def dest!: find_SomeD)
  note situation = owner_situation [OF owner [unfolded o] key]
  have "settled r E gw spec store'"
  proof (cases found')
    case None
    with run o have "create_gateway_policy r E gw uid spec store1 = (Inr True, store')" by simp
    then show ?thesis using situation assms(3) by (intro created_settles) auto
  next
    case (Some p)
    with run o have up: "update_gateway_policy P r E gw uid spec names hs p store1 = (Inr True, store')" by simp
    then have "isManaged (kp_meta p)" by (auto simp: update_gateway_policy_def split: if_splits)
    with up situation key Some show ?thesis by (intro updated_settles [OF up]) (auto split: sum.splits)
  qed
  with settled_run [OF assms(1,2) d] show ?thesis .
qed

section \<open>A cut-over\<close>

text \<open>
  The default tenant with one MaaSAuthPolicy for the model \<open>m/n\<close>, a gateway policy that is
  accepted and enforced, and the route policy of an earlier release.
\<close>

definition ex_apLibs :: apLibs where
  "ex_apLibs = \<lparr>pl_libs = example_libs, pl_setters = ex_setters, pl_gateway = GuardrailCompose.ex_gateway,
     pl_headerName = (\<lambda>ns n c. ''X-AIGateway-Guardrail-'' @ c), pl_order = id\<rparr>"

definition ex_noCatalog :: catalogReads where
  "ex_noCatalog = ex_catalogReads\<lparr>cr_tenantConfig := (\<lambda>_. Inl ApiNotFound)\<rparr>"

definition ex_authPolicy :: authPolicyObject where
  "ex_authPolicy = \<lparr>ap_meta = (TrlpReconcile.ex_meta ''maas'' ''p'')\<lparr>om_Finalizers := [maasAuthPolicyFinalizer]\<rparr>, ap_ModelRefs = [(''m'', ''n'')],
     ao_OtherSpec = True, ao_Phase = ''Pending'', ao_Conditions = [], ao_AuthPolicies = []\<rparr>"

definition ex_apEnv :: apEnv where
  "ex_apEnv = \<lparr>pe_get = None, pe_update = None, pe_status = None, pe_policies = (\<lambda>_. Inr [maasAuthPolicy.truncate ex_authPolicy]),
     pe_allPolicies = Inr [maasAuthPolicy.truncate ex_authPolicy], pe_subscriptions = (\<lambda>_. Inr []), pe_allSubscriptions = Inr [],
     pe_aitenantOIDC = (\<lambda>_ _. None), pe_legacyOIDC = (\<lambda>_. None), pe_gateway = (\<lambda>_. Inr ''uid''), pe_getPolicy = (\<lambda>_. None),
     pe_listPolicies = None, pe_createPolicy = None, pe_updatePolicy = None, pe_deletePolicy = (\<lambda>_. None),
     pe_endpointSlices = (\<lambda>_ _. Inr [\<lparr>es_Ports = [Some 8443], es_EndpointsReady = [Some True]\<rparr>]), pe_externalModels = Inr [],
     pe_setCondition = (\<lambda>c cs. c # cs), pe_findCondition = (\<lambda>t. find (\<lambda>c. cd_Type c = t)), pe_float = of_int\<rparr>"

definition ex_spec :: jobj where
  "ex_spec = (case desired_spec ex_apLibs ex_ap ex_apEnv None False ''maas'' [] (''ingress'', ''gw'') None of
     Inr (spec, _) \<Rightarrow> spec | Inl _ \<Rightarrow> [])"

definition ex_gatewayPolicy :: kuadrantPolicy where
  "ex_gatewayPolicy = (new_gateway_policy (''ingress'', ''maas-gateway-auth''))\<lparr>kp_Spec := Some ex_spec,
     kp_Status := [(''observedGeneration'', JInt 1), (''conditions'', JArr
       [JObj [(''type'', JStr ''Accepted''), (''status'', JStr ''True'')], JObj [(''type'', JStr ''Enforced''), (''status'', JStr ''True'')]])]\<rparr>"

definition ex_routePolicy :: kuadrantPolicy where
  "ex_routePolicy = \<lparr>kp_meta = (TrlpReconcile.ex_meta ''m'' ''maas-auth-n'')\<lparr>om_Labels := [managedByLabel \<mapsto> ''maas-controller'',
       partOfLabel \<mapsto> ''maas-auth-policy'', modelLabel \<mapsto> ''n'']\<rparr>, kp_Owners = [], kp_Spec = None, kp_Status = []\<rparr>"

definition ex_apState :: apState where
  "ex_apState = \<lparr>as_policy = Some ex_authPolicy, as_store = [ex_gatewayPolicy, ex_routePolicy]\<rparr>"

lemma ex_keys: "kp_key ex_gatewayPolicy = (''ingress'', ''maas-gateway-auth'')" "kp_key ex_routePolicy = (''m'', ''maas-auth-n'')"
  "gateway_key ex_ap (''ingress'', ''gw'') = (''ingress'', ''maas-gateway-auth'')" "\<not> isTenantGateway ex_ap (''ingress'', ''gw'')"
  by (simp_all add: kp_key_def meta_key_def ex_gatewayPolicy_def new_gateway_policy_def ex_routePolicy_def TrlpReconcile.ex_meta_def gateway_key_def
      gatewayAuthPolicyName_def isTenantGateway_def ex_ap_def)

lemma ex_desired: "desired_spec ex_apLibs ex_ap ex_apEnv None False ''maas'' [] (''ingress'', ''gw'') None = Inr (ex_spec, [])"
proof -
  obtain spec where "applySubscriptionHeaders example_libs ex_setters (buildGatewayAuthPolicySpec ex_ap None False [] ''gw'' None) [] = Inr spec"
    using applied_spec [OF ex_nested_access] by metis
  then have "desired_spec ex_apLibs ex_ap ex_apEnv None False ''maas'' [] (''ingress'', ''gw'') None = Inr (spec, [])"
    by (simp add: desired_spec_def ex_apLibs_def ex_apEnv_def subscriptionHeaderNames_def)
  then show ?thesis by (simp add: ex_spec_def)
qed

lemma ex_tenant_context:
  "fetchTenantIdentifier ex_cluster ''maas'' = Inr []" "fetchGatewayInfo ex_ap ex_apEnv ex_cluster ''maas'' = Inr (''ingress'', ''gw'')"
  "fetchOIDCConfig ex_ap ex_apEnv ex_cluster ''maas'' = None" "tenantNamespaceAllowed (ap_settings ex_ap) ex_cluster ''maas'' = Inr True"
  by (simp_all add: fetchTenantIdentifier_def fetchGatewayInfo_def fetchOIDCConfig_def fetchTenantPlatformContext_def fetchTenantForNamespace_def
      tenantNamespaceAllowed_def fallbackTenantGatewayRef_def ex_cluster_def ex_ap_def Let_def)

lemma ex_gateway_run:
  "reconcileGatewayAuthPolicy ex_apLibs ex_ap ex_apEnv ex_noCatalog None False ''maas'' [] (''ingress'', ''gw'') (as_store ex_apState)
     = (Inr False, as_store ex_apState)"
proof -
  have "guardrailHeaders (ap_settings ex_ap) (pl_gateway ex_apLibs) (pl_headerName ex_apLibs) (pl_order ex_apLibs) ex_noCatalog ''maas'' = Inr None"
    by (simp add: guardrailHeaders_def isAITenantManagedNamespace_def ex_noCatalog_def ex_catalogReads_def label_value_def)
  moreover have "settled ex_ap ex_apEnv (''ingress'', ''gw'') ex_spec (as_store ex_apState)"
    by (simp add: settled_def get_kp_def ex_apState_def ex_apEnv_def ex_keys) (simp add: ex_gatewayPolicy_def new_gateway_policy_def isManaged_def)
  moreover have "nested_access (pl_libs ex_apLibs) (pl_setters ex_apLibs)" "keeps_maps (pl_setters ex_apLibs)"
    by (simp_all add: ex_apLibs_def ex_nested_access ex_keeps_maps)
  ultimately show ?thesis
    using settled_run ex_desired by (simp add: reconcileGatewayAuthPolicy_def)
qed

lemma ex_gateway_ready: "gatewayAuthPolicyReady ex_apLibs ex_ap ex_apEnv (''ingress'', ''gw'') (as_store ex_apState) = Inr True"
proof -
  have "get_kp ex_apEnv (''ingress'', ''maas-gateway-auth'') (as_store ex_apState) = Inr ex_gatewayPolicy"
    by (simp add: get_kp_def ex_apState_def ex_apEnv_def ex_keys)
  moreover have "isManaged (kp_meta ex_gatewayPolicy)" "om_Generation (kp_meta ex_gatewayPolicy) = 1"
    "NestedInt64 example_libs (kp_object ex_gatewayPolicy) [''status'', ''observedGeneration''] = (1, True, None)"
    "getAuthPolicyReadyState example_libs ex_gatewayPolicy = (True, ''AcceptedEnforced'')"
    by (simp_all add: ex_gatewayPolicy_def new_gateway_policy_def isManaged_def kp_object_def getAuthPolicyReadyState_def
        example_libs_def walk_as_def str_field_def field_def Let_def)
  ultimately show ?thesis by (simp add: gatewayAuthPolicyReady_def ex_keys ex_apLibs_def)
qed

lemma ex_removal:
  "findHTTPRouteForModel example_libs ex_cluster ''m'' ''n'' = Inr (''r'', ''m'')"
  "deleteModelAuthPolicy ex_apEnv ''m'' ''n'' (as_store ex_apState) = (None, [ex_gatewayPolicy])"
proof -
  show "findHTTPRouteForModel example_libs ex_cluster ''m'' ''n'' = Inr (''r'', ''m'')" by code_simp
  have "\<not> route_policy ex_gatewayPolicy" by (simp add: route_policy_def ex_gatewayPolicy_def new_gateway_policy_def)
  moreover have "model_policy ''m'' ''n'' ex_routePolicy" "deletable ''m'' ex_routePolicy"
    by (simp_all add: model_policy_def route_policy_def deletable_def ex_routePolicy_def TrlpReconcile.ex_meta_def isManaged_def label_value_def)
  moreover have "kp_key ex_gatewayPolicy \<noteq> kp_key ex_routePolicy" by (simp add: ex_keys)
  ultimately show "deleteModelAuthPolicy ex_apEnv ''m'' ''n'' (as_store ex_apState) = (None, [ex_gatewayPolicy])"
    by (simp add: deleteModelAuthPolicy_def ex_apEnv_def ex_apState_def model_policy_def remove_kp_def)
qed

lemma ex_models_run:
  "reconcileModelAuthPolicies example_libs ex_cluster ex_apEnv ex_authPolicy (as_store ex_apState) = (Inr [], [ex_gatewayPolicy])"
proof -
  have "modelAuthPolicyExists ex_apEnv ''m'' ''n'' (as_store ex_apState) = Inr True"
    by (simp add: modelAuthPolicyExists_def get_kp_def ex_apState_def ex_apEnv_def ex_keys)
  moreover have "cleanupStaleAuthPolicies ex_apEnv ex_authPolicy [ex_gatewayPolicy] = (None, [ex_gatewayPolicy])"
    by (simp add: cleanupStaleAuthPolicies_def ex_apEnv_def route_policy_def ex_gatewayPolicy_def new_gateway_policy_def)
  ultimately show ?thesis by (simp add: reconcileModelAuthPolicies_def ex_authPolicy_def ex_removal)
qed

lemma ex_legacy: "hasLegacyModelAuthPolicy ex_apEnv ''maas'' (as_store ex_apState) = Inr True"
  by (simp add: hasLegacyModelAuthPolicy_def modelAuthPolicyExists_def get_kp_def ex_apState_def ex_apEnv_def ex_authPolicy_def
      TrlpReconcile.ex_meta_def ex_keys maasAuthPolicy.truncate_def)

lemma ex_live: "pe_get ex_apEnv = None" "as_policy ex_apState = Some ex_authPolicy" "pe_status ex_apEnv = None"
  by (simp_all add: ex_apEnv_def ex_apState_def)

lemma ex_writes: "pe_getPolicy ex_apEnv k = None" "pe_gateway ex_apEnv gw = Inr ''uid''" "pe_createPolicy ex_apEnv = None"
  by (simp_all add: ex_apEnv_def)

lemma ex_cutover_run:
  obtains st' where "ReconcilePolicy ex_apLibs ex_ap ex_apEnv ex_cluster ex_noCatalog ex_apState = (ApDone, st')"
    "as_store st' = [ex_gatewayPolicy]"
proof -
  have ns: "om_Namespace (ap_meta ex_authPolicy) = ''maas''" "\<not> om_Deleting (ap_meta ex_authPolicy)" "\<not> policy_spec_empty ex_authPolicy"
    "add_policy_finalizer ex_apEnv ex_authPolicy ex_apState = (Inr ex_authPolicy, ex_apState)"
    by (simp_all add: ex_authPolicy_def TrlpReconcile.ex_meta_def policy_spec_empty_def add_policy_finalizer_def)
  have "\<not> discoverXAPIKeyNeeded (pl_libs ex_apLibs) ex_apEnv" by (simp add: discoverXAPIKeyNeeded_def ex_apEnv_def)
  moreover have "targetMaaSAPIReady ex_ap ex_apEnv [] = Inr True" by (simp add: targetMaaSAPIReady_def ex_apEnv_def)
  then have "reconcile_gateway_part ex_apLibs ex_ap ex_apEnv ex_cluster ex_noCatalog None False [] (''ingress'', ''gw'') ex_authPolicy ex_apState = Inr ex_apState"
    by (simp add: reconcile_gateway_part_def ns ex_legacy ex_gateway_run ex_gateway_ready)
  ultimately have run: "ReconcilePolicy ex_apLibs ex_ap ex_apEnv ex_cluster ex_noCatalog ex_apState
      = finish_policy ex_apLibs ex_apEnv ex_cluster (findMissingModelRefs ex_cluster ex_authPolicy) ex_authPolicy ex_apState"
    using ns ex_tenant_context by (simp add: ReconcilePolicy_def ex_live)
  have "\<exists>st'. finish_policy ex_apLibs ex_apEnv ex_cluster missing ex_authPolicy ex_apState = (ApDone, st') \<and> as_store st' = [ex_gatewayPolicy]" for missing
    using ex_models_run
    by (simp add: finish_policy_def ex_apLibs_def Let_def split_def status_written_def updatePolicyStatus_def ex_live)
  with run that show thesis by metis
qed

lemma ex_cutover_store:
  "distinct (map kp_key (as_store ex_apState))" "ex_routePolicy \<in> set (as_store ex_apState)" "ex_routePolicy \<notin> set [ex_gatewayPolicy]"
  "om_Namespace (ap_meta ex_authPolicy) = ''maas''" "\<not> om_Deleting (ap_meta ex_authPolicy)"
proof -
  have "kp_key ex_gatewayPolicy \<noteq> kp_key ex_routePolicy" by (simp add: ex_keys)
  then show "distinct (map kp_key (as_store ex_apState))" "ex_routePolicy \<in> set (as_store ex_apState)" "ex_routePolicy \<notin> set [ex_gatewayPolicy]"
    by (auto simp: ex_apState_def)
qed (simp_all add: ex_authPolicy_def TrlpReconcile.ex_meta_def)

theorem policies_changed_are_own_witness: "own_policy ex_ap ex_apEnv ex_cluster False ''maas'' ex_routePolicy"
proof -
  obtain st' where st': "ReconcilePolicy ex_apLibs ex_ap ex_apEnv ex_cluster ex_noCatalog ex_apState = (ApDone, st')"
    "as_store st' = [ex_gatewayPolicy]" by (rule ex_cutover_run)
  from policies_changed_are_own [OF ex_cutover_store(1) ex_live(2) st'(1) ex_cutover_store(2)] st'(2) ex_cutover_store(3-5) show ?thesis by simp
qed

lemma ex_policies:
  "pe_policies ex_apEnv ''maas'' = Inr [maasAuthPolicy.truncate ex_authPolicy]"
  "\<not> om_Deleting (ap_meta (maasAuthPolicy.truncate ex_authPolicy))"
  "ap_ModelRefs (maasAuthPolicy.truncate ex_authPolicy) = [(''m'', ''n'')]"
  by (simp_all add: ex_apEnv_def ex_authPolicy_def TrlpReconcile.ex_meta_def maasAuthPolicy.truncate_def)

theorem cutover_waits_witness: "targetMaaSAPIReady ex_ap ex_apEnv [] = Inr True"
proof -
  let ?m = "maasAuthPolicy.truncate ex_authPolicy"
  have gone: "ex_routePolicy \<notin> set (as_store (snd (ReconcilePolicy ex_apLibs ex_ap ex_apEnv ex_cluster ex_noCatalog ex_apState)))"
    using ex_cutover_run ex_cutover_store(3) by (metis snd_conv)
  have key: "kp_key ex_routePolicy = (''m'', ''maas-auth-'' @ ''n'')" "kp_key ex_routePolicy \<noteq> gateway_key ex_ap (''ingress'', ''gw'')"
    by (simp_all add: ex_keys)
  have m: "?m \<in> set [?m]" "(''m'', ''n'') \<in> set (ap_ModelRefs ?m)"
    "\<forall>m\<in>set [?m]. \<forall>(a, b)\<in>set (ap_ModelRefs m). CHR ''/'' \<notin> set a" "pe_getPolicy ex_apEnv (''m'', ''maas-auth-'' @ ''n'') \<noteq> Some ApiNotFound"
    by (simp_all add: ex_policies ex_writes)
  show ?thesis
    using cutover_waits [OF ex_cutover_store(1) ex_live(2) ex_cutover_store(5) ex_cutover_store(4) [symmetric] ex_policies(1) m(1)
        ex_policies(2) m(2,3) ex_cutover_store(2) key(1) m(4) ex_tenant_context(1,2) ex_cutover_store(2) gone key(2)] by blast
qed

text \<open>
  The search looks at the models that live policies reference. The route policy of a model
  that has been dropped from the spec is not found by it, and the clean-up of stale policies
  removes it without asking whether the MaaS API is ready.
\<close>

definition ex_droppedRoute :: kuadrantPolicy where
  "ex_droppedRoute = ex_routePolicy\<lparr>kp_meta := (kp_meta ex_routePolicy)\<lparr>om_Annotations := [''maas.opendatahub.io/auth-policies'' \<mapsto> ''maas/p'']\<rparr>\<rparr>"

definition ex_droppedPolicy :: authPolicyObject where
  "ex_droppedPolicy = ex_authPolicy\<lparr>ap_ModelRefs := [(''m'', ''k'')]\<rparr>"

lemma dropped_model_not_awaited:
  defines "E \<equiv> ex_apEnv\<lparr>pe_policies := (\<lambda>_. Inr [maasAuthPolicy.truncate ex_droppedPolicy])\<rparr>"
  shows "hasLegacyModelAuthPolicy E ''maas'' [ex_droppedRoute] = Inr False \<and>
    cleanupStaleAuthPolicies E ex_droppedPolicy [ex_droppedRoute] = (None, [])"
proof
  show "hasLegacyModelAuthPolicy E ''maas'' [ex_droppedRoute] = Inr False" unfolding E_def by code_simp
  have "fst (cleanupStaleAuthPolicies E ex_droppedPolicy [ex_droppedRoute]) = None"
    "length (snd (cleanupStaleAuthPolicies E ex_droppedPolicy [ex_droppedRoute])) = 0"
    unfolding E_def by code_simp+
  then show "cleanupStaleAuthPolicies E ex_droppedPolicy [ex_droppedRoute] = (None, [])" by (simp add: prod_eq_iff)
qed

theorem active_means_models_exist_witness:
  "\<exists>st' q. ReconcilePolicy ex_apLibs ex_ap ex_apEnv ex_cluster ex_noCatalog ex_apState = (ApDone, st') \<and> as_policy st' = Some q \<and>
     ao_Phase q = ''Active''"
proof -
  obtain st' where st': "ReconcilePolicy ex_apLibs ex_ap ex_apEnv ex_cluster ex_noCatalog ex_apState = (ApDone, st')" by (rule ex_cutover_run)
  have "\<not> policy_spec_empty ex_authPolicy" "findMissingModelRefs ex_cluster ex_authPolicy = []" "ap_ModelRefs ex_authPolicy \<noteq> []"
    by (simp_all add: policy_spec_empty_def findMissingModelRefs_def ex_authPolicy_def ex_cluster_def)
  with active_means_models_exist [OF ex_live(1,2) ex_cutover_store(5) ex_cutover_store(4) [symmetric] ex_tenant_context(4) _ ex_tenant_context(1,2) st']
  show ?thesis using st' by auto
qed

theorem gateway_policy_settles_witness:
  "\<exists>store. reconcileGatewayAuthPolicyWithHeaders ex_apLibs ex_ap ex_apEnv None False ''maas'' [] (''ingress'', ''gw'') None [] = (Inr True, store) \<and>
     reconcileGatewayAuthPolicyWithHeaders ex_apLibs ex_ap ex_apEnv None False ''maas'' [] (''ingress'', ''gw'') None store = (Inr False, store)"
proof -
  let ?run = "reconcileGatewayAuthPolicyWithHeaders ex_apLibs ex_ap ex_apEnv None False ''maas'' [] (''ingress'', ''gw'') None"
  have "\<exists>store. ?run [] = (Inr True, store)"
    by (simp add: reconcileGatewayAuthPolicyWithHeaders_def ex_desired get_kp_def gateway_owner_def create_gateway_policy_def ex_writes)
  moreover have "nested_access (pl_libs ex_apLibs) (pl_setters ex_apLibs)" "keeps_maps (pl_setters ex_apLibs)"
    by (simp_all add: ex_apLibs_def ex_nested_access ex_keeps_maps)
  moreover have "pe_getPolicy ex_apEnv (gateway_key ex_ap (''ingress'', ''gw'')) = None" by (simp add: ex_apEnv_def)
  ultimately show ?thesis using gateway_policy_settles by blast
qed

end
