(* ===== verification/Spec2Isabelle.thy ===== *)
theory Spec2Isabelle
  imports KeyHandler LokiProxy AdminAuth SubscriptionController AuthPolicyController
begin

text \<open>
  \<^bold>\<open>Models as a Service.\<close> This library models the authorization, metering and policy logic of
  the repository: the API server \<open>maas-api\<close>, the Kubernetes controller \<open>maas-controller\<close> and
  the package \<open>maas-common\<close> that both use.

  \<^bold>\<open>The parts and how they interact.\<close> A request for inference enters at a gateway. The gateway
  enforces an AuthPolicy that the controller writes: it validates the API key or the token,
  asks \<open>maas-api\<close> which subscription pays for the request (\<open>/internal/v1/subscriptions/select\<close>),
  caches both answers, and forwards identity headers. A TokenRateLimitPolicy, written by the
  controller as well, charges the request to a budget of the selected subscription. People
  manage keys and read their usage through \<open>maas-api\<close>, which trusts the identity envelope of
  the gateway. MaaSSubscription, MaaSAuthPolicy and MaaSModelRef objects describe who may use
  which model; the controller keeps the generated policies, their status and the clean-up in
  step with them. Guardrails attached at five levels are composed into one plan per
  subscription and model.

  \<^bold>\<open>Ground.\<close>
  \<^item> \<open>MaasPrelude\<close>: the pieces of Go the packages use (byte strings, \<open>strings\<close>, \<open>strconv\<close>,
    \<open>sort\<close>, int64 wrap-around), results as sums with \<open>bind_res\<close>, \<open>traverse\<close>, \<open>fold_res\<close>, and the
    locale \<open>go_less\<close> for a comparison function passed to \<open>sort.Slice\<close>. Every comparison of the
    code is an interpretation of it, which gives that the sorted result is unique.
  \<^item> \<open>GoJson\<close>: unstructured objects as association lists, Go's type assertions, and the record
    \<open>libs\<close> of third-party functions (accessors of the \<open>unstructured\<close> package, UUID, SHA-256, header
    validation). These are arguments everywhere; \<open>example_libs\<close> is one instance, for witnesses.

  \<^bold>\<open>API server\<close> (\<open>src/maas-api/internal\<close>).
  \<^item> \<open>AuthPolicyChecker\<close> (\<open>authpolicy/checker.go\<close>): which models a user may use.
  \<^item> \<open>SubscriptionModel\<close>, \<open>SubscriptionSelect\<close> (\<open>subscription/selector.go\<close>, \<open>types.go\<close>,
    \<open>subscription_headers.go\<close>, \<open>ratelimit_id.go\<close>): parsing, and the selection that the gateway
    asks for. A response that allows access to a model is backed by an owned, live, healthy
    subscription with that model authorized.
  \<^item> \<open>TokenIdentity\<close> (\<open>token/identity.go\<close>, \<open>handler.go\<close>, \<open>groupname\<close>): the identity envelope, its
    shape check and the user it yields.
  \<^item> \<open>SubscriptionAdmin\<close> (\<open>subscription/admin_resolver.go\<close>, \<open>handler.go\<close>): organization
    administration and inventories; the locale \<open>org_subjects\<close> is what the inventory relies on in
    the checker.
  \<^item> \<open>KeyFormat\<close>, \<open>KeyStore\<close>, \<open>KeyStorePostgres\<close>, \<open>KeyService\<close>, \<open>KeyHandler\<close> (\<open>api_keys\<close>): key
    material, the in-memory and the Postgres store, the service and its HTTP handlers. The
    locales \<open>key_history\<close> and \<open>key_store\<close> are the contract of a store (keys only move forward in
    their life cycle, a lookup returns a usable one); both stores are interpretations, the
    primary of the Postgres store alone is one of \<open>key_history\<close>, and five operations of the
    in-memory store refine those of the Postgres store on a table of one tenant.
  \<^item> \<open>AdminAuth\<close> (\<open>auth\<close>): the administrator check, its cache under interleaved calls, the
    internal middlewares. \<open>LokiProxy\<close> (\<open>lokiproxy\<close>): who may query logs, and the rewriting of
    log queries to the organization.
  \<^item> \<open>GuardrailMerge\<close>, \<open>GuardrailCompose\<close> (\<open>src/maas-common/pkg/guardrail\<close> and
    \<open>subscription/guardrail.go\<close>): the plan of a subscription and a model, and the checks the
    selection announces.

  \<^bold>\<open>Controller\<close> (\<open>src/maas-controller/pkg\<close>).
  \<^item> \<open>ControllerCluster\<close> (\<open>controller/maas/helpers.go\<close>, \<open>providers.go\<close>,
    \<open>platform/tenantreconcile/platform_context.go\<close>): what the reconcilers read, the record
    \<open>cluster\<close>, with the tenant and the gateway of a namespace and the route of a model.
  \<^item> \<open>RateTier\<close>, \<open>TrlpReconcile\<close>, \<open>InferenceObjectives\<close>, \<open>SubscriptionController\<close>
    (\<open>ratetier.go\<close>, \<open>subscription_ratelimit_id.go\<close>, \<open>maassubscription_controller.go\<close>,
    \<open>maassubscription_inferenceobjective.go\<close>): limits, policies, objectives, status and
    finalizer of a subscription.
  \<^item> \<open>ModelBackends\<close>, \<open>ModelRefController\<close> (\<open>providers_llmisvc.go\<close>, \<open>providers_external.go\<close>,
    \<open>maasmodelref_controller.go\<close>, \<open>model_identity_conflict.go\<close>): endpoint, tenant, governance
    and phase of a model.
  \<^item> \<open>GatewayCel\<close>, \<open>GatewayAuthSpec\<close>, \<open>SpecMatch\<close>, \<open>GatewaySpecStable\<close>, \<open>GuardrailCatalog\<close>,
    \<open>AuthPolicyController\<close> (\<open>maasauthpolicy_controller.go\<close>, \<open>maasauthpolicy_identity.go\<close>,
    \<open>subscription_headers.go\<close>, \<open>guardrail_headers.go\<close>, \<open>guardrail_watch.go\<close>,
    \<open>conflict_detection.go\<close>, \<open>pkg/authpolicy/oidc.go\<close>): the gateway policy. CEL expressions are
    terms with a printer that yields the text of the source and an evaluator; the policy is the
    whole document; the comparison is the one of the code; the reconciler creates, updates,
    cuts over, resets and deletes.

  \<^bold>\<open>State and operations.\<close> A struct is a record with the names of its fields behind a short
  prefix, an operation is one definition of the name of the method (where a name recurs across
  packages it gets a suffix, such as \<open>ReconcilePolicy\<close>, \<open>ReconcileModel\<close>). A stateful operation
  takes and returns the record of its state. A reconciliation takes the objects it writes as
  state; what it reads and which of its writes fail are arguments (\<open>cluster\<close>, \<open>catalogReads\<close>, the
  records ending in \<open>Env\<close>). Errors are values of a datatype per component. Concurrent code
  (debouncing of the last-used time, the administrator cache, writes of others to a rate limit
  policy during updates and before deletions) is a step relation or a sequence of steps with the
  interference of others as an argument; elsewhere a reconciliation is the only writer of the
  objects it writes while it runs.

  \<^bold>\<open>What is shown.\<close> Access decisions are sound and complete against the objects they rest on (a
  selection without a model answers for the subscription only); guardrails compose to exactly
  what is attached; a key that is invalid on the primary is accepted again only by a replica
  that has not caught up, and no tenant touches the keys of another; the identity headers that
  the gateway asserts cannot be supplied by a client, the subscription header of token clients
  apart, and cache keys of the gateway do not collide; every request of a member is charged to
  exactly one limit; controllers change only objects they own, the policy of the shared gateway
  only for the default tenant, report Active or Ready only when that is so, wait before they
  withdraw the route policy of a model in use, keep a finalizer until the clean-up is done, and
  do not write a policy again that is up to date.

  \<^bold>\<open>What the code does not do.\<close> Lemmas next to these properties show their limits on concrete runs:
  a sweep of the debounce map that deletes a fresh entry (\<open>sweep_breaks_spacing\<close>), a policy opted
  out too late that is deleted (\<open>late_opt_out_deleted\<close>), a route policy removed without a wait
  (\<open>dropped_model_not_awaited\<close>), log queries that are not examined (\<open>second_query_forwarded\<close>), a
  new subscription classified as legacy (\<open>failed_status_write_makes_legacy\<close>).

  \<^bold>\<open>Bounds.\<close> Recursion with a bound: \<open>shape_fuel\<close> in \<open>TokenIdentity\<close> is the number of tokens, each
  call consumes one (\<open>validateJSONShape_terminates\<close>); \<open>split_on\<close>, \<open>replace_all\<close> and \<open>dec_selector\<close> are
  bounded by the length of the text they consume; \<open>ev_steps\<close> in \<open>TrlpReconcile\<close> is the number
  of attempts of the retry on conflict, for every number. All other functions terminate
  by structure or with a measure.

  \<^bold>\<open>Arguments of the model.\<close> The clock, random bytes, answers of the database, iteration orders of
  Go maps, \<open>net/url\<close>, \<open>unicode/utf8\<close>, the LogQL parser, regular expressions of CEL, the AI gateway
  module (attachment resolver, check ids and header names), \<open>meta.SetStatusCondition\<close>. Laws of
  them that a theorem needs are hypotheses of that theorem, with an instance in its witness.

  \<^bold>\<open>Not modelled.\<close> Texts of errors, events and log lines where no decision depends on them;
  registration of watches, routes and metrics; start-up, configuration and TLS of the binaries;
  generated deep copies; the tenant controllers (\<open>aitenant_controller.go\<close>, \<open>tenant_controller.go\<close>,
  \<open>tenant_reconcile.go\<close>, \<open>self_deployment_controller.go\<close>) with the \<open>tenantreconcile\<close> pipeline, which
  render and apply manifests from files; the ExternalModel reconciler; the discovery service
  \<open>maas-discovery\<close>; admission webhooks; the listing of models, which calls the model servers;
  OpenTelemetry JSON conversion.
\<close>

end
